(* ===== verification/Prelude.thy ===== *)
theory Prelude
  imports Main
begin

text \<open>
  Shared vocabulary of the development.

  \<^item> \<open>res\<close>: the result type of fallible code (\<open>Inl\<close> the error, \<open>Inr\<close> the value) with
    the combinators that stand for the question-mark operator, \<open>ok_or\<close> and \<open>for\<close> loops with an early
    return, and the rewrite rules that let \<open>auto\<close> walk through them.
  \<^item> Strings: a Rust \<open>String\<close> is its UTF-8 byte sequence, a \<open>string\<close> here.
    \<open>chars_count\<close> is \<open>chars().count()\<close>, \<open>trim\<close> is \<open>str::trim\<close> (Unicode
    white space), \<open>show_int\<close> is decimal formatting.
  \<^item> List lemmas on rows: lookup by key, update in place, deletion.
\<close>

named_theorems res_simps "rewriting of result combinators"
named_theorems row_simps "rewriting of table operations"

type_synonym uuid = nat
type_synonym timestamp = int
type_synonym date = int
type_synonym ('e, 'a) res = "'e + 'a"

section \<open>Results\<close>

definition bind_res :: "('e, 'a) res \<Rightarrow> ('a \<Rightarrow> ('e, 'b) res) \<Rightarrow> ('e, 'b) res" where
  "bind_res m f = (case m of Inl e \<Rightarrow> Inl e | Inr a \<Rightarrow> f a)"

definition require :: "bool \<Rightarrow> 'e \<Rightarrow> ('e, unit) res" where
  "require b e = (if b then Inr () else Inl e)"

definition ok_or :: "'a option \<Rightarrow> 'e \<Rightarrow> ('e, 'a) res" where
  "ok_or x e = (case x of None \<Rightarrow> Inl e | Some a \<Rightarrow> Inr a)"

fun fold_res :: "('x \<Rightarrow> 's \<Rightarrow> ('e, 's) res) \<Rightarrow> 'x list \<Rightarrow> 's \<Rightarrow> ('e, 's) res" where
  "fold_res f [] s = Inr s"
| "fold_res f (x # xs) s = bind_res (f x s) (fold_res f xs)"

lemma bind_res_Inl [simp, res_simps]: "bind_res (Inl e) f = Inl e"
  by (simp add: bind_res_def)

lemma bind_res_Inr [simp, res_simps]: "bind_res (Inr a) f = f a"
  by (simp add: bind_res_def)

lemma bind_res_eq_Inr [simp, res_simps]:
  "bind_res m f = Inr y \<longleftrightarrow> (\<exists>a. m = Inr a \<and> f a = Inr y)"
  by (cases m) simp_all

lemma bind_res_eq_Inl [simp, res_simps]:
  "bind_res m f = Inl e \<longleftrightarrow> m = Inl e \<or> (\<exists>a. m = Inr a \<and> f a = Inl e)"
  by (cases m) simp_all

lemma require_eq_Inr [simp, res_simps]: "require b e = Inr u \<longleftrightarrow> b"
  by (cases u) (simp add: require_def)

lemma require_eq_Inl [simp, res_simps]: "require b e = Inl e' \<longleftrightarrow> \<not> b \<and> e' = e"
  by (auto simp: require_def)

lemma require_True [simp]: "require True e = Inr ()"
  by (simp add: require_def)

lemma require_False [simp]: "require False e = Inl e"
  by (simp add: require_def)

lemma ok_or_eq_Inr [simp, res_simps]: "ok_or x e = Inr a \<longleftrightarrow> x = Some a"
  by (cases x) (simp_all add: ok_or_def)

lemma ok_or_eq_Inl [simp, res_simps]: "ok_or x e = Inl e' \<longleftrightarrow> x = None \<and> e' = e"
  by (cases x) (auto simp: ok_or_def)

lemma ok_or_Some [simp]: "ok_or (Some a) e = Inr a"
  by (simp add: ok_or_def)

lemma ok_or_None [simp]: "ok_or None e = Inl e"
  by (simp add: ok_or_def)

lemma fold_res_append:
  "fold_res f (xs @ ys) s = bind_res (fold_res f xs s) (fold_res f ys)"
proof (induction xs arbitrary: s)
  case (Cons x xs)
  then show ?case by (cases "f x s") simp_all
qed simp

text \<open>A loop keeps what every iteration keeps.\<close>

lemma fold_res_invariant:
  assumes "fold_res f xs s = Inr s'" and "P s"
    and "\<And>x s s'. x \<in> set xs \<Longrightarrow> P s \<Longrightarrow> f x s = Inr s' \<Longrightarrow> P s'"
  shows "P s'"
  using assms
proof (induction xs arbitrary: s)
  case (Cons x xs)
  then obtain s1 where "f x s = Inr s1" and "fold_res f xs s1 = Inr s'" by auto
  with Cons show ?case by (metis list.set_intros)
qed simp

section \<open>Strings\<close>

text \<open>
  The UTF-8 encodings of the 25 code points with the Unicode property White\_Space,
  the ones \<open>char::is_whitespace\<close> accepts.
\<close>

definition whitespace_chars :: "string list" where
  "whitespace_chars =
     map (\<lambda>n. [char_of (n :: nat)]) [9, 10, 11, 12, 13, 32]
     @ map (map (char_of :: nat \<Rightarrow> char))
         ([[0xC2, 0x85], [0xC2, 0xA0], [0xE1, 0x9A, 0x80]]
          @ map (\<lambda>n. [0xE2, 0x80, 0x80 + n]) [0, 1, 2, 3, 4, 5, 6, 7, 8, 9, 10]
          @ [[0xE2, 0x80, 0xA8], [0xE2, 0x80, 0xA9], [0xE2, 0x80, 0xAF],
             [0xE2, 0x81, 0x9F], [0xE3, 0x80, 0x80]])"

definition leading :: "string list \<Rightarrow> string \<Rightarrow> string option" where
  "leading cs s = find (\<lambda>c. c \<noteq> [] \<and> take (length c) s = c) cs"

lemma leading_Some:
  "leading cs s = Some c \<Longrightarrow> c \<in> set cs \<and> c \<noteq> [] \<and> s = c @ drop (length c) s"
  unfolding leading_def find_Some_iff
  by (metis append_take_drop_id nth_mem)

function strip :: "string list \<Rightarrow> string \<Rightarrow> string" where
  "strip cs s = (case leading cs s of None \<Rightarrow> s | Some c \<Rightarrow> strip cs (drop (length c) s))"
  by pat_completeness auto
termination
proof (relation "measure (\<lambda>(cs, s). length s)")
  fix cs s c
  assume "leading cs s = Some c"
  then have "c \<noteq> []" and "s = c @ drop (length c) s" using leading_Some by blast+
  then have "0 < length c" "s \<noteq> []" by auto
  then show "((cs, drop (length c) s), cs, s) \<in> measure (\<lambda>(cs, s). length s)" by simp
qed simp

declare strip.simps [simp del]

definition trim_start :: "string \<Rightarrow> string" where
  "trim_start s = strip whitespace_chars s"

definition trim_end :: "string \<Rightarrow> string" where
  "trim_end s = rev (strip (map rev whitespace_chars) (rev s))"

definition trim :: "string \<Rightarrow> string" where
  "trim s = trim_end (trim_start s)"

text \<open>\<open>chars().count()\<close>: every byte but the continuation bytes \<open>10xxxxxx\<close>.\<close>

definition chars_count :: "string \<Rightarrow> nat" where
  "chars_count s = length (filter (\<lambda>c. (of_char c :: nat) div 64 \<noteq> 2) s)"

definition starts_with :: "string \<Rightarrow> string \<Rightarrow> bool" where
  "starts_with s p \<longleftrightarrow> take (length p) s = p"

definition ends_with :: "string \<Rightarrow> string \<Rightarrow> bool" where
  "ends_with s p \<longleftrightarrow> length p \<le> length s \<and> drop (length s - length p) s = p"

fun contains_str :: "string \<Rightarrow> string \<Rightarrow> bool" where
  "contains_str [] p = (p = [])"
| "contains_str (c # s) p = (take (length p) (c # s) = p \<or> contains_str s p)"

fun show_nat :: "nat \<Rightarrow> string" where
  "show_nat n = (if n < 10 then [char_of (48 + n)]
                 else show_nat (n div 10) @ [char_of (48 + n mod 10)])"

declare show_nat.simps [simp del]

definition show_int :: "int \<Rightarrow> string" where
  "show_int i = (if i < 0 then ''-'' @ show_nat (nat (- i)) else show_nat (nat i))"

text \<open>ASCII lower-casing, the instance of Unicode lower-casing the witnesses use.\<close>

definition ascii_lower :: "string \<Rightarrow> string" where
  "ascii_lower s = map (\<lambda>c. let n = (of_char c :: nat)
                            in if 65 \<le> n \<and> n \<le> 90 then char_of (n + 32) else c) s"

text \<open>Hyphenated lower-case hexadecimal form of a UUID.\<close>

definition hex_digit :: "nat \<Rightarrow> char" where
  "hex_digit n = (if n < 10 then char_of (48 + n) else char_of (87 + n))"

fun hex_pad :: "nat \<Rightarrow> nat \<Rightarrow> string" where
  "hex_pad 0 n = []"
| "hex_pad (Suc k) n = hex_pad k (n div 16) @ [hex_digit (n mod 16)]"

definition show_uuid :: "uuid \<Rightarrow> string" where
  "show_uuid u = (let h = hex_pad 32 u in
     take 8 h @ ''-'' @ take 4 (drop 8 h) @ ''-'' @ take 4 (drop 12 h)
     @ ''-'' @ take 4 (drop 16 h) @ ''-'' @ drop 20 h)"

lemma strip_none: "leading cs (strip cs s) = None"
proof (induction cs s rule: strip.induct)
  case (1 cs s)
  then show ?case by (cases "leading cs s") (simp_all add: strip.simps [of cs s])
qed

lemma strip_suffix: "\<exists>p. s = p @ strip cs s"
proof (induction cs s rule: strip.induct)
  case (1 cs s)
  show ?case
  proof (cases "leading cs s")
    case None
    then show ?thesis by (simp add: strip.simps [of cs s])
  next
    case (Some c)
    with 1 obtain p where "drop (length c) s = p @ strip cs (drop (length c) s)" by blast
    with leading_Some [OF Some] have "s = (c @ p) @ strip cs (drop (length c) s)"
      by (metis append_assoc)
    then show ?thesis using Some strip.simps [of cs s] by (metis option.simps(5))
  qed
qed

lemma strip_id: "leading cs s = None \<Longrightarrow> strip cs s = s"
  by (simp add: strip.simps [of cs s])

lemma leading_prefix_None: "leading cs (p @ q) = None \<Longrightarrow> leading cs p = None"
  unfolding leading_def find_None_iff
  by (metis append_eq_append_conv_if length_take append_eq_conv_conj nat_le_linear take_all)

lemma trim_end_prefix: "\<exists>q. s = trim_end s @ q"
proof -
  obtain p where "rev s = p @ strip (map rev whitespace_chars) (rev s)"
    using strip_suffix by blast
  then have "s = trim_end s @ rev p"
    by (metis rev_append rev_rev_ident trim_end_def)
  then show ?thesis by blast
qed

lemma trim_idem [simp]: "trim (trim s) = trim s"
proof -
  obtain q where q: "trim_start s = trim s @ q"
    using trim_end_prefix trim_def by metis
  have "leading whitespace_chars (trim_start s) = None"
    by (simp add: trim_start_def strip_none)
  then have "leading whitespace_chars (trim s) = None"
    unfolding q by (rule leading_prefix_None)
  then have start: "trim_start (trim s) = trim s"
    by (simp add: trim_start_def strip_id)
  have "trim_end (trim s) = trim s"
    unfolding trim_def trim_end_def by (simp add: strip_id strip_none)
  with start show ?thesis by (simp add: trim_def)
qed

lemma chars_count_append [simp]: "chars_count (s @ t) = chars_count s + chars_count t"
  by (simp add: chars_count_def)

lemma chars_count_le_length: "chars_count s \<le> length s"
  by (simp add: chars_count_def)

lemma trim_infix: "\<exists>p q. s = p @ trim s @ q"
  by (metis strip_suffix trim_def trim_end_prefix trim_start_def)

lemma chars_count_trim: "chars_count (trim s) \<le> chars_count s"
proof -
  obtain p q where "s = p @ trim s @ q" using trim_infix by blast
  then have "chars_count s = chars_count p + chars_count (trim s) + chars_count q"
    by (metis add.assoc chars_count_append)
  then show ?thesis by simp
qed

text \<open>A text between two visible ASCII characters is trimmed already.\<close>

definition visible :: "char \<Rightarrow> bool" where
  "visible c \<longleftrightarrow> 33 \<le> (of_char c :: nat) \<and> (of_char c :: nat) \<le> 126"

lemma whitespace_invisible:
  "\<forall>ws \<in> set whitespace_chars. ws \<noteq> [] \<and> \<not> visible (hd ws) \<and> \<not> visible (last ws)"
  by code_simp

lemma leading_visible:
  assumes "\<forall>ws \<in> set cs. ws \<noteq> [] \<and> \<not> visible (hd ws)" and "visible (hd s)"
  shows "leading cs s = None"
proof (rule ccontr)
  assume "leading cs s \<noteq> None"
  then obtain c where "leading cs s = Some c" by blast
  then have "c \<in> set cs" "c \<noteq> []" "s = c @ drop (length c) s" using leading_Some by blast+
  then have "hd s = hd c" by (metis hd_append2)
  with assms \<open>c \<in> set cs\<close> show False by simp
qed

lemma strip_Nil: "strip cs [] = []"
  by (rule strip_id) (simp add: leading_def find_None_iff)

lemma trim_Nil [simp]: "trim [] = []"
  by (simp add: trim_def trim_start_def trim_end_def strip_Nil)

lemma trim_visible: "s \<noteq> [] \<Longrightarrow> visible (hd s) \<Longrightarrow> visible (last s) \<Longrightarrow> trim s = s"
  unfolding trim_def trim_start_def trim_end_def
  by (subst strip_id, rule leading_visible, use whitespace_invisible in simp, simp)
    (subst strip_id, rule leading_visible, use whitespace_invisible in \<open>auto simp: hd_rev\<close>)

section \<open>Lists\<close>

lemma length_filter_mono:
  "(\<And>x. x \<in> set xs \<Longrightarrow> P x \<Longrightarrow> Q x) \<Longrightarrow> length (filter P xs) \<le> length (filter Q xs)"
  by (induction xs) (auto intro: le_SucI)

lemma sorted_le_last: "sorted xs \<Longrightarrow> x \<in> set xs \<Longrightarrow> x \<le> last xs"
  by (cases xs rule: rev_cases) (auto simp: sorted_append)

section \<open>Rows\<close>

text \<open>
  A table is the list of its rows. \<open>row_by\<close> is \<open>fetch_optional\<close> on a condition that at
  most one row meets, \<open>update_where\<close> an UPDATE, \<open>filter\<close> a SELECT or a DELETE.
\<close>

definition row_by :: "('r \<Rightarrow> bool) \<Rightarrow> 'r list \<Rightarrow> 'r option" where
  "row_by p rs = find p rs"

definition refers :: "'a option \<Rightarrow> ('a \<Rightarrow> bool) \<Rightarrow> bool" where
  "refers x p = (case x of None \<Rightarrow> False | Some i \<Rightarrow> p i)"

definition update_where :: "('r \<Rightarrow> bool) \<Rightarrow> ('r \<Rightarrow> 'r) \<Rightarrow> 'r list \<Rightarrow> 'r list" where
  "update_where p f rs = map (\<lambda>r. if p r then f r else r) rs"

definition delete_where :: "('r \<Rightarrow> bool) \<Rightarrow> 'r list \<Rightarrow> 'r list" where
  "delete_where p rs = filter (\<lambda>r. \<not> p r) rs"

lemma row_by_Some: "row_by p rs = Some r \<Longrightarrow> r \<in> set rs \<and> p r"
  by (auto simp: row_by_def find_Some_iff)

lemma row_by_None: "row_by p rs = None \<longleftrightarrow> (\<forall>r \<in> set rs. \<not> p r)"
  by (auto simp: row_by_def find_None_iff)

lemma row_by_unique:
  assumes "r \<in> set rs" and "p r" and "\<And>r'. r' \<in> set rs \<Longrightarrow> p r' \<Longrightarrow> r' = r"
  shows "row_by p rs = Some r"
  using assms by (metis (mono_tags) not_None_eq row_by_None row_by_Some)

lemma set_update_where:
  "set (update_where p f rs) = {if p r then f r else r | r. r \<in> set rs}"
  by (auto simp: update_where_def)

lemma length_update_where [simp]: "length (update_where p f rs) = length rs"
  by (simp add: update_where_def)

lemma map_update_where [simp, row_simps]:
  "(\<And>r. p r \<Longrightarrow> k (f r) = k r) \<Longrightarrow> map k (update_where p f rs) = map k rs"
  by (simp add: update_where_def)

lemma set_delete_where [simp, row_simps]: "set (delete_where p rs) = {r \<in> set rs. \<not> p r}"
  by (auto simp: delete_where_def)

lemma distinct_map_inj:
  "distinct (map k rs) \<Longrightarrow> r \<in> set rs \<Longrightarrow> r' \<in> set rs \<Longrightarrow> k r = k r' \<Longrightarrow> r = r'"
  by (metis distinct_map inj_onD)

lemma distinct_map_delete_where [intro]:
  "distinct (map k rs) \<Longrightarrow> distinct (map k (delete_where p rs))"
  by (simp add: delete_where_def distinct_map_filter)

text \<open>Lookup by a unique key.\<close>

lemma row_by_key:
  assumes "distinct (map k rs)" and "r \<in> set rs" and "p r" and "\<And>r'. p r' \<Longrightarrow> k r' = k r"
  shows "row_by p rs = Some r"
  using assms by (intro row_by_unique) (auto dest: distinct_map_inj)

text \<open>Lookup after an update of the row with one key.\<close>

lemma row_by_update_key:
  assumes "distinct (map k rs)" and "r \<in> set rs" and "\<And>r. k (f r) = k r"
  shows "row_by (\<lambda>x. k x = i) (update_where (\<lambda>x. k x = k r) f rs) =
    (if i = k r then Some (f r) else row_by (\<lambda>x. k x = i) rs)"
  using assms(1,2)
proof (induction rs)
  case (Cons x xs)
  show ?case
  proof (cases "k x = k r")
    case True
    with Cons.prems have "x = r" and "\<forall>y \<in> set xs. k y \<noteq> k r" by (auto simp: image_iff)
    then have "update_where (\<lambda>y. k y = k r) f xs = xs"
      unfolding update_where_def by (intro map_idI) simp
    with \<open>x = r\<close> assms(3) show ?thesis by (simp add: row_by_def update_where_def)
  next
    case False
    with Cons show ?thesis by (auto simp: row_by_def update_where_def)
  qed
qed simp

lemma row_by_append:
  "row_by p (xs @ ys) = (case row_by p xs of None \<Rightarrow> row_by p ys | Some r \<Rightarrow> Some r)"
  by (induction xs) (simp_all add: row_by_def)

lemma row_by_update_same:
  assumes "\<And>r. p (f r) = p r"
  shows "row_by p (update_where p f rs) = map_option f (row_by p rs)"
  by (induction rs) (simp_all add: row_by_def update_where_def assms)

lemma refers_iff [simp]: "refers x p \<longleftrightarrow> (\<exists>i. x = Some i \<and> p i)"
  by (cases x) (simp_all add: refers_def)

section \<open>Runs of a step relation\<close>

text \<open>A run concatenates the labels of its steps.\<close>

inductive steps :: "('s \<Rightarrow> 'l list \<Rightarrow> 's \<Rightarrow> bool) \<Rightarrow> 's \<Rightarrow> 'l list \<Rightarrow> 's \<Rightarrow> bool" for step where
  steps_refl [intro]: "steps step s [] s"
| steps_step: "steps step s xs t \<Longrightarrow> step t ys u \<Longrightarrow> steps step s (xs @ ys) u"

lemma steps_invariant:
  assumes "steps step s xs t" and "P s" and "\<And>s ys t. step s ys t \<Longrightarrow> P s \<Longrightarrow> P t"
  shows "P t"
  using assms by (induction rule: steps.induct) auto

lemma steps_one: "step s xs t \<Longrightarrow> steps step s xs t"
  using steps_step [OF steps_refl, of step s xs t] by simp

end
