(* ===== verification/Errors.thy ===== *)
theory Errors
  imports Prelude
begin

text \<open>
  \<open>error.rs\<close>: the application error, and the HTTP answer it is turned into. A status code is its
  number. The payload of \<open>Integration\<close> and of \<open>Database\<close> is logged, never answered.
\<close>

datatype sqlx_error =
    DatabaseError (sqlx_constraint: "string option") (sqlx_code: "string option")
  | OtherSqlxError string

datatype app_error =
    Validation string
  | InvalidRequest nat string
  | Unauthorized
  | Forbidden string
  | NotFound string
  | RouteNotFound
  | MethodNotAllowed
  | Conflict string
  | NotConfigured string
  | Integration string
  | Database sqlx_error

type_synonym 'a app_result = "(app_error, 'a) res"

record error_body =
  eb_code :: string
  eb_message :: string

record error_response =
  er_error :: error_body

definition has_constraint :: "sqlx_error \<Rightarrow> string \<Rightarrow> bool" where
  "has_constraint e c = (case e of DatabaseError k _ \<Rightarrow> k = Some c | OtherSqlxError _ \<Rightarrow> False)"

definition has_code :: "sqlx_error \<Rightarrow> string list \<Rightarrow> bool" where
  "has_code e cs =
     (case e of DatabaseError _ (Some c) \<Rightarrow> c \<in> set cs | _ \<Rightarrow> False)"

definition respond :: "nat \<Rightarrow> string \<Rightarrow> string \<Rightarrow> nat \<times> error_response" where
  "respond s c m = (s, \<lparr>er_error = \<lparr>eb_code = c, eb_message = m\<rparr>\<rparr>)"

fun into_response :: "app_error \<Rightarrow> nat \<times> error_response" where
  "into_response (Validation m) = respond 422 ''validation_error'' m"
| "into_response (InvalidRequest s m) = respond s ''invalid_request'' m"
| "into_response Unauthorized =
     respond 401 ''authentication_required'' ''authentication is required''"
| "into_response (Forbidden m) = respond 403 ''forbidden'' m"
| "into_response (NotFound r) = respond 404 ''not_found'' (r @ '' was not found'')"
| "into_response RouteNotFound = respond 404 ''route_not_found'' ''route was not found''"
| "into_response MethodNotAllowed =
     respond 405 ''method_not_allowed'' ''method is not allowed for this route''"
| "into_response (Conflict m) = respond 409 ''conflict'' m"
| "into_response (NotConfigured i) =
     respond 503 ''integration_not_configured'' (i @ '' is not configured'')"
| "into_response (Integration e) =
     respond 502 ''integration_error'' ''An external integration failed''"
| "into_response (Database e) =
     (if has_constraint e ''workspace_content_quota'' then
        respond 403 ''content_quota_exceeded''
          ''workspace content limit reached; delete unused content or contact the operator''
      else if has_code e [''40P01'', ''40001''] then
        respond 409 ''conflict''
          ''a concurrent workspace update was rolled back; refresh before trying again''
      else respond 500 ''internal_error'' ''An internal error occurred'')"

text \<open>The version conflict every optimistic update answers with.\<close>

definition version_conflict :: "string \<Rightarrow> int \<Rightarrow> int \<Rightarrow> app_error" where
  "version_conflict what expected current =
     Conflict (what @ '' changed since version '' @ show_int expected
               @ ''; current version is '' @ show_int current)"

text \<open>The unique-violation and lock-contention errors PostgreSQL reports.\<close>

definition unique_violation :: "string \<Rightarrow> app_error" where
  "unique_violation c = Database (DatabaseError (Some c) (Some ''23505''))"

end
