(* ===== verification/Models.thy ===== *)
theory Models
  imports Errors
begin

text \<open>
  \<open>models.rs\<close>: the enums, the entities the API returns and the requests it accepts, one record
  or datatype per Rust type. A field carries the initial of its type as prefix where Rust
  repeats the field name; a constructor is suffixed where Rust repeats the variant name.
  Timestamps are microseconds, dates are day numbers, machine integers are \<open>int\<close>.
\<close>

definition DEFAULT_PAGE_SIZE :: int where
  "DEFAULT_PAGE_SIZE = 50"

definition MAX_PAGE_SIZE :: int where
  "MAX_PAGE_SIZE = 100"

datatype project_status = Planned | Active | Paused | ProjectCompleted | Archived

datatype task_status = Todo | InProgress | Blocked | Completed

datatype task_priority = Low | Medium | High | Urgent

datatype task_recurrence = NoRecurrence | Daily | Weekly | Monthly | Yearly

record project =
  p_id :: uuid
  p_name :: string
  p_outcome :: string
  p_target_date :: "date option"
  p_status :: project_status
  p_total_tasks :: int
  p_completed_tasks :: int
  p_created_at :: timestamp
  p_updated_at :: timestamp
  p_version :: int

record create_project_request =
  cpr_name :: string
  cpr_outcome :: string
  cpr_target_date :: "date option"
  cpr_status :: project_status

record update_project_request =
  upr_name :: string
  upr_outcome :: string
  upr_target_date :: "date option"
  upr_status :: project_status
  upr_expected_version :: int

record project_page =
  pp_items :: "project list"
  pp_next_cursor :: "uuid option"

record task =
  t_id :: uuid
  t_project_id :: "uuid option"
  t_parent_task_id :: "uuid option"
  t_title :: string
  t_description :: string
  t_due_at :: "timestamp option"
  t_scheduled_start :: "timestamp option"
  t_scheduled_end :: "timestamp option"
  t_status :: task_status
  t_priority :: task_priority
  t_recurrence :: task_recurrence
  t_labels :: "string list"
  t_remind_at :: "timestamp option"
  t_position :: int
  t_completed_at :: "timestamp option"
  t_created_at :: timestamp
  t_updated_at :: timestamp
  t_version :: int

record create_task_request =
  ct_project_id :: "uuid option"
  ct_parent_task_id :: "uuid option"
  ct_title :: string
  ct_description :: string
  ct_due_at :: "timestamp option"
  ct_scheduled_start :: "timestamp option"
  ct_scheduled_end :: "timestamp option"
  ct_status :: task_status
  ct_priority :: task_priority
  ct_recurrence :: task_recurrence
  ct_labels :: "string list"
  ct_remind_at :: "timestamp option"

record update_task_request =
  ut_project_id :: "uuid option"
  ut_parent_task_id :: "uuid option"
  ut_title :: string
  ut_description :: string
  ut_due_at :: "timestamp option"
  ut_scheduled_start :: "timestamp option"
  ut_scheduled_end :: "timestamp option"
  ut_status :: task_status
  ut_priority :: task_priority
  ut_recurrence :: task_recurrence
  ut_labels :: "string list"
  ut_remind_at :: "timestamp option"
  ut_expected_version :: int

record reorder_tasks_request =
  rt_task_ids :: "uuid list"

record task_page =
  tp_items :: "task list"
  tp_next_cursor :: "uuid option"

record page_query =
  pq_cursor :: "uuid option"
  pq_limit :: "int option"

definition clamp :: "int \<Rightarrow> int \<Rightarrow> int \<Rightarrow> int" where
  "clamp lo hi x = (if x < lo then lo else if x > hi then hi else x)"

definition page_query_normalized_limit :: "page_query \<Rightarrow> int" where
  "page_query_normalized_limit q =
     clamp 1 MAX_PAGE_SIZE (case pq_limit q of None \<Rightarrow> DEFAULT_PAGE_SIZE | Some l \<Rightarrow> l)"

record expected_version_query =
  ev_expected_version :: int

record task_list_query =
  tlq_project_id :: "uuid option"
  tlq_cursor :: "uuid option"
  tlq_limit :: "int option"

definition task_list_query_normalized_limit :: "task_list_query \<Rightarrow> int" where
  "task_list_query_normalized_limit q =
     clamp 1 MAX_PAGE_SIZE (case tlq_limit q of None \<Rightarrow> DEFAULT_PAGE_SIZE | Some l \<Rightarrow> l)"

datatype calendar_source = Native | Google

datatype event_recurrence = EvNone | EvDaily | EvWeekly | EvMonthly | EvYearly

record synchronization =
  sy_id :: uuid
  sy_calendar_id :: "uuid option"
  sy_kind :: string
  sy_status :: string
  sy_attempt_count :: int
  sy_available_at :: timestamp
  sy_last_error :: "string option"
  sy_created_at :: timestamp
  sy_updated_at :: timestamp

record google_integration_status =
  gi_connected :: bool
  gi_scopes :: "string list"
  gi_expires_at :: "timestamp option"
  gi_latest_synchronization :: "synchronization option"
  gi_pending_synchronization_count :: int
  gi_failed_synchronization_count :: int

record create_synchronization_request =
  cs_calendar_id :: "uuid option"
  cs_idempotency_key :: string

record sync_conflict =
  sc_id :: uuid
  sc_allowed_resolutions :: "string list"
  sc_canonical_event_id :: "uuid option"
  sc_title :: string
  sc_status :: string
  sc_resolution :: "string option"
  sc_created_at :: timestamp
  sc_resolved_at :: "timestamp option"

record resolve_sync_conflict_request =
  rs_resolution :: string

record activity_entry =
  ae_kind :: string
  ae_message :: string
  ae_created_at :: timestamp

record calendar =
  c_id :: uuid
  c_name :: string
  c_color :: string
  c_source :: calendar_source
  c_external_id :: "string option"
  c_selected :: bool
  c_is_default :: bool
  c_created_at :: timestamp
  c_updated_at :: timestamp
  c_version :: int

record create_calendar_request =
  cc_name :: string
  cc_color :: string

record update_calendar_request =
  uc_name :: string
  uc_color :: string
  uc_selected :: bool
  uc_expected_version :: int

record calendar_event =
  e_id :: uuid
  e_calendar_id :: uuid
  e_linked_task_id :: "uuid option"
  e_title :: string
  e_description :: string
  e_starts_at :: timestamp
  e_ends_at :: timestamp
  e_all_day :: bool
  e_timezone :: string
  e_location :: string
  e_attendees :: "string list"
  e_recurrence :: event_recurrence
  e_recurrence_until :: "timestamp option"
  e_created_at :: timestamp
  e_updated_at :: timestamp
  e_version :: int

record create_calendar_event_request =
  ce_calendar_id :: uuid
  ce_title :: string
  ce_description :: string
  ce_starts_at :: timestamp
  ce_ends_at :: timestamp
  ce_all_day :: bool
  ce_timezone :: string
  ce_location :: string
  ce_attendees :: "string list"
  ce_recurrence :: event_recurrence
  ce_recurrence_until :: "timestamp option"

record update_calendar_event_request =
  ue_calendar_id :: uuid
  ue_title :: string
  ue_description :: string
  ue_starts_at :: timestamp
  ue_ends_at :: timestamp
  ue_all_day :: bool
  ue_timezone :: string
  ue_location :: string
  ue_attendees :: "string list"
  ue_recurrence :: event_recurrence
  ue_recurrence_until :: "timestamp option"
  ue_expected_version :: int

record calendar_event_query =
  ceq_starts_before :: timestamp
  ceq_ends_after :: timestamp
  ceq_calendar_id :: "uuid option"

record daily_plan =
  dp_date :: date
  dp_focus_tasks :: "task list"

datatype daily_review_status = Open | ReviewCompleted

record daily_review =
  dr_id :: uuid
  dr_review_date :: date
  dr_status :: daily_review_status
  dr_unfinished_tasks :: "task list"
  dr_started_at :: timestamp
  dr_completed_at :: "timestamp option"
  dr_version :: int

datatype review_decision_action = CarryForward | Reschedule | Remove

record review_task_decision =
  rd_task_id :: uuid
  rd_action :: review_decision_action
  rd_due_at :: "timestamp option"

record complete_daily_review_request =
  cd_decisions :: "review_task_decision list"
  cd_expected_version :: int

record update_daily_focus_request =
  uf_task_ids :: "uuid list"

datatype theme_preference = System | Light | Dark

datatype sync_conflict_policy = Ask | Latest | PolicyGoogle | PolicyProsepect

record user_settings =
  us_theme :: theme_preference
  us_automatic_daily_review :: bool
  us_sync_conflict_policy :: sync_conflict_policy
  us_sidebar_visible :: bool
  us_updated_at :: timestamp
  us_version :: int

record update_user_settings_request =
  uu_theme :: theme_preference
  uu_automatic_daily_review :: bool
  uu_sync_conflict_policy :: sync_conflict_policy
  uu_sidebar_visible :: bool
  uu_expected_version :: int

record user_profile =
  u_id :: uuid
  u_email :: string
  u_display_name :: string
  u_avatar_url :: "string option"
  u_timezone :: string

record session_response =
  sr_user :: user_profile
  sr_csrf_token :: string

record todoist_import_task =
  ti_title :: string
  ti_description :: string
  ti_due_at :: "timestamp option"
  ti_scheduled_start :: "timestamp option"
  ti_scheduled_end :: "timestamp option"
  ti_priority :: task_priority
  ti_recurrence :: task_recurrence
  ti_labels :: "string list"
  ti_parent_index :: "nat option"

record todoist_import_request =
  tir_project_name :: string
  tir_project_description :: string
  tir_tasks :: "todoist_import_task list"

record todoist_import_result =
  tr_project :: project
  tr_imported_tasks :: nat

record move_calendar_item_request =
  mv_starts_at :: timestamp
  mv_ends_at :: timestamp
  mv_expected_version :: int

record calendar_move_undo =
  mu_id :: uuid
  mu_event_id :: uuid
  mu_task_id :: "uuid option"
  mu_expires_at :: timestamp

lemma page_query_limit_bounds:
  "1 \<le> page_query_normalized_limit q \<and> page_query_normalized_limit q \<le> MAX_PAGE_SIZE"
  by (simp add: page_query_normalized_limit_def clamp_def MAX_PAGE_SIZE_def)

lemma task_list_query_limit_bounds:
  "1 \<le> task_list_query_normalized_limit q \<and> task_list_query_normalized_limit q \<le> MAX_PAGE_SIZE"
  by (simp add: task_list_query_normalized_limit_def clamp_def MAX_PAGE_SIZE_def)

end
