(* ===== verification/GoogleTasks.thy ===== *)
theory GoogleTasks
  imports Errors
begin

text \<open>
  \<open>google_tasks.rs\<close>: the fields shared with Google Tasks and their three-way merge. The merge of
  one field is an interface, the locale \<open>three_way_merge\<close>, met by \<open>merge\<close> at each of the three
  field types; \<open>reconcile\<close> and \<open>resolve_conflicting_fields\<close> are its client.
\<close>

definition TASKS_SCOPE :: string where
  "TASKS_SCOPE = ''https://www.googleapis.com/auth/tasks''"

record task_fields =
  tf_title :: string
  tf_date :: "date option"
  tf_completed :: bool

datatype conflict_field = ConflictTitle | ConflictDate | ConflictCompletion

datatype task_conflict_choice = ChooseGoogle | ChooseProsepect

record google_task_conflict =
  gx_id :: uuid
  gx_link_id :: uuid
  gx_task_id :: uuid
  gx_task_version :: int
  gx_remote_etag :: string
  gx_local :: task_fields
  gx_google :: task_fields

definition merge :: "'a \<Rightarrow> 'a \<Rightarrow> 'a \<Rightarrow> 'a option" where
  "merge baseline local remote =
     (if local = remote \<or> remote = baseline then Some local
      else if local = baseline then Some remote
      else None)"

definition reconcile ::
  "task_fields \<Rightarrow> task_fields \<Rightarrow> task_fields \<Rightarrow> (conflict_field, task_fields) res" where
  "reconcile b l r =
     bind_res (ok_or (merge (tf_title b) (tf_title l) (tf_title r)) ConflictTitle) (\<lambda>title.
     bind_res (ok_or (merge (tf_date b) (tf_date l) (tf_date r)) ConflictDate) (\<lambda>date.
     bind_res (ok_or (merge (tf_completed b) (tf_completed l) (tf_completed r)) ConflictCompletion) (\<lambda>completed.
     Inr \<lparr>tf_title = title, tf_date = date, tf_completed = completed\<rparr>)))"

definition unwrap_or :: "'a option \<Rightarrow> 'a \<Rightarrow> 'a" where
  "unwrap_or x d = (case x of Some a \<Rightarrow> a | None \<Rightarrow> d)"

definition resolve_conflicting_fields ::
  "task_fields \<Rightarrow> task_fields \<Rightarrow> task_fields \<Rightarrow> task_conflict_choice \<Rightarrow> task_fields" where
  "resolve_conflicting_fields b l r choice =
     (let preferred = (case choice of ChooseGoogle \<Rightarrow> r | ChooseProsepect \<Rightarrow> l)
      in \<lparr>tf_title = unwrap_or (merge (tf_title b) (tf_title l) (tf_title r)) (tf_title preferred),
          tf_date = unwrap_or (merge (tf_date b) (tf_date l) (tf_date r)) (tf_date preferred),
          tf_completed =
            unwrap_or (merge (tf_completed b) (tf_completed l) (tf_completed r)) (tf_completed preferred)\<rparr>)"

definition valid_fields :: "task_fields \<Rightarrow> bool" where
  "valid_fields f \<longleftrightarrow> trim (tf_title f) \<noteq> [] \<and> chars_count (trim (tf_title f)) \<le> 240"

section \<open>The contract of a field merge\<close>

locale three_way_merge =
  fixes mg :: "'a \<Rightarrow> 'a \<Rightarrow> 'a \<Rightarrow> 'a option"
  assumes merge_local: "mg b l b = Some l"
    and merge_remote: "mg b b r = Some r"
    and merge_same: "mg b x x = Some x"
    and merge_conflict: "mg b l r = None \<longleftrightarrow> l \<noteq> r \<and> l \<noteq> b \<and> r \<noteq> b"
begin

lemma merge_commutes: "mg b l r = mg b r l"
proof (cases "l = r \<or> l = b \<or> r = b")
  case True
  then show ?thesis by (auto simp: merge_local merge_remote)
next
  case False
  then have "mg b l r = None" and "mg b r l = None" by (auto simp: merge_conflict)
  then show ?thesis by simp
qed

text \<open>The merged value is an edit one side made, and no edit is lost to an unedited side.\<close>

lemma merge_sound:
  assumes "mg b l r = Some x"
  shows "(x = l \<or> x = r) \<and> (l \<noteq> b \<longrightarrow> x = l) \<and> (r \<noteq> b \<longrightarrow> x = r)"
proof -
  from assms have "l = r \<or> l = b \<or> r = b" by (metis merge_conflict option.distinct(1))
  with assms show ?thesis by (auto simp: merge_local merge_remote merge_same)
qed

text \<open>With the merged value stored on both sides and as the new baseline, nothing is left to do.\<close>

lemma merge_settles: "mg b l r = Some x \<Longrightarrow> mg x x x = Some x"
  by (rule merge_same)

end

interpretation field_merge: three_way_merge "merge :: 'a \<Rightarrow> 'a \<Rightarrow> 'a \<Rightarrow> 'a option"
  by unfold_locales (auto simp: merge_def)

section \<open>Properties\<close>

text \<open>The accessors of the three fields, for statements that hold field by field.\<close>

definition field_conflict :: "'a \<Rightarrow> 'a \<Rightarrow> 'a \<Rightarrow> bool" where
  "field_conflict b l r \<longleftrightarrow> l \<noteq> r \<and> l \<noteq> b \<and> r \<noteq> b"

lemma merge_None [simp]: "merge b l r = None \<longleftrightarrow> field_conflict b l r"
  by (simp add: field_merge.merge_conflict field_conflict_def)

lemma unwrap_or_simps [simp]: "unwrap_or None d = d" "unwrap_or (Some a) d = a"
  by (simp_all add: unwrap_or_def)

lemma reconcile_Inr:
  "reconcile b l r = Inr m \<longleftrightarrow>
     merge (tf_title b) (tf_title l) (tf_title r) = Some (tf_title m)
     \<and> merge (tf_date b) (tf_date l) (tf_date r) = Some (tf_date m)
     \<and> merge (tf_completed b) (tf_completed l) (tf_completed r) = Some (tf_completed m)"
  by (cases m) (auto simp: reconcile_def)

text \<open>
  C2. Reconciliation loses no edit: a merged title, date or completion is the local or the remote
  value, it is the local value wherever the local side changed the field and the remote value
  wherever the remote side did; the result does not depend on which side is called local; and
  reconciling again from the merged value changes nothing.
\<close>

theorem reconcile_loses_no_edit:
  assumes "reconcile b l r = Inr m"
  shows "(\<forall>side \<in> {l, r}.
            (tf_title side \<noteq> tf_title b \<longrightarrow> tf_title m = tf_title side)
            \<and> (tf_date side \<noteq> tf_date b \<longrightarrow> tf_date m = tf_date side)
            \<and> (tf_completed side \<noteq> tf_completed b \<longrightarrow> tf_completed m = tf_completed side))
         \<and> tf_title m \<in> {tf_title l, tf_title r} \<and> tf_date m \<in> {tf_date l, tf_date r}
         \<and> tf_completed m \<in> {tf_completed l, tf_completed r}
         \<and> reconcile b r l = Inr m \<and> reconcile m m m = Inr m"
proof -
  note eqs = assms [unfolded reconcile_Inr]
  note fields = field_merge.merge_sound [OF conjunct1 [OF eqs]]
    field_merge.merge_sound [OF conjunct1 [OF conjunct2 [OF eqs]]]
    field_merge.merge_sound [OF conjunct2 [OF conjunct2 [OF eqs]]]
  have "reconcile b r l = Inr m"
    using eqs unfolding reconcile_Inr by (metis field_merge.merge_commutes)
  moreover have "reconcile m m m = Inr m"
    unfolding reconcile_Inr by (simp add: field_merge.merge_same)
  ultimately show ?thesis using fields by simp
qed

theorem reconcile_loses_no_edit_witness:
  "reconcile \<lparr>tf_title = ''p'', tf_date = Some 3, tf_completed = False\<rparr>
             \<lparr>tf_title = ''p'', tf_date = None, tf_completed = True\<rparr>
             \<lparr>tf_title = ''q'', tf_date = Some 3, tf_completed = False\<rparr>
   = Inr \<lparr>tf_title = ''q'', tf_date = None, tf_completed = True\<rparr>"
proof -
  have "reconcile \<lparr>tf_title = ''p'', tf_date = Some 3, tf_completed = False\<rparr>
             \<lparr>tf_title = ''q'', tf_date = Some 3, tf_completed = False\<rparr>
             \<lparr>tf_title = ''p'', tf_date = None, tf_completed = True\<rparr>
       = Inr \<lparr>tf_title = ''q'', tf_date = None, tf_completed = True\<rparr>"
    by (simp add: reconcile_def merge_def)
  from reconcile_loses_no_edit [OF this] show ?thesis by blast
qed

text \<open>
  A conflict is reported exactly when some field was edited on both sides to different values,
  and the reported field is the first such one in the order title, date, completion. Resolving
  it takes the chosen side for exactly the conflicting fields and merges every other field, so
  where there is no conflict the choice does not matter.
\<close>

theorem conflicts_are_the_divergent_fields:
  "(\<exists>f. reconcile b l r = Inl f) =
     (field_conflict (tf_title b) (tf_title l) (tf_title r)
      \<or> field_conflict (tf_date b) (tf_date l) (tf_date r)
      \<or> field_conflict (tf_completed b) (tf_completed l) (tf_completed r))
   \<and> (reconcile b l r = Inl ConflictDate) =
     (\<not> field_conflict (tf_title b) (tf_title l) (tf_title r)
      \<and> field_conflict (tf_date b) (tf_date l) (tf_date r))
   \<and> tf_title (resolve_conflicting_fields b l r ch) =
       (if field_conflict (tf_title b) (tf_title l) (tf_title r)
        then tf_title (case ch of ChooseGoogle \<Rightarrow> r | ChooseProsepect \<Rightarrow> l)
        else the (merge (tf_title b) (tf_title l) (tf_title r)))
   \<and> (reconcile b l r = Inr m \<longrightarrow> resolve_conflicting_fields b l r ch = m)"
proof -
  let ?t = "merge (tf_title b) (tf_title l) (tf_title r)"
  let ?d = "merge (tf_date b) (tf_date l) (tf_date r)"
  let ?c = "merge (tf_completed b) (tf_completed l) (tf_completed r)"
  have "(\<exists>f. reconcile b l r = Inl f) = (?t = None \<or> ?d = None \<or> ?c = None)"
    unfolding reconcile_def by (cases ?t; cases ?d; cases ?c) (simp_all del: merge_None)
  moreover have "(reconcile b l r = Inl ConflictDate) = (?t \<noteq> None \<and> ?d = None)"
    unfolding reconcile_def by (cases ?t; cases ?d; cases ?c) (simp_all del: merge_None)
  moreover have "tf_title (resolve_conflicting_fields b l r ch) =
      (if ?t = None then tf_title (case ch of ChooseGoogle \<Rightarrow> r | ChooseProsepect \<Rightarrow> l) else the ?t)"
    unfolding resolve_conflicting_fields_def by (cases ?t) (simp_all add: Let_def del: merge_None)
  moreover have "reconcile b l r = Inr m \<longrightarrow> resolve_conflicting_fields b l r ch = m"
    unfolding reconcile_Inr by (simp add: resolve_conflicting_fields_def)
  ultimately show ?thesis by simp
qed

theorem conflicts_are_the_divergent_fields_witness:
  "resolve_conflicting_fields \<lparr>tf_title = ''p'', tf_date = None, tf_completed = False\<rparr>
     \<lparr>tf_title = ''q'', tf_date = None, tf_completed = False\<rparr>
     \<lparr>tf_title = ''p'', tf_date = None, tf_completed = True\<rparr> ChooseGoogle
   = \<lparr>tf_title = ''q'', tf_date = None, tf_completed = True\<rparr>"
  using conflicts_are_the_divergent_fields
    [of "\<lparr>tf_title = ''p'', tf_date = None, tf_completed = False\<rparr>"
        "\<lparr>tf_title = ''q'', tf_date = None, tf_completed = False\<rparr>"
        "\<lparr>tf_title = ''p'', tf_date = None, tf_completed = True\<rparr>" ChooseGoogle
        "\<lparr>tf_title = ''q'', tf_date = None, tf_completed = True\<rparr>"]
  by (simp add: reconcile_def merge_def)

end
