(* ===== verification/Database.thy ===== *)
theory Database
  imports Models GoogleTasks "HOL-Library.List_Lexorder" "HOL-Library.Product_Lexorder"
begin

text \<open>
  The PostgreSQL state the store works on: one row record per table of \<open>migrations/\<close>, the
  record \<open>world\<close> of all tables, and the effects SQL statements have beyond the rows they name:
  \<open>ON DELETE\<close> actions of the foreign keys and the triggers.

  A store operation is a function from the world to a result that carries the new world; an
  error carries none, as the transaction is rolled back. \<open>now\<close> is the transaction time
  \<open>NOW()\<close>. \<open>uuid_supply\<close> and \<open>drawn\<close> stand for the UUID generators: the \<open>n\<close>-th
  drawn identifier is \<open>uuid_supply n\<close>. Rows of a statement are locked until commit, so an
  operation is one atomic step; an advisory lock that is taken with a \<open>try\<close> function is an
  argument of the operation.

  Not modelled here: connection faults, integer overflow of version columns, the quota trigger
  of migration 0026 (it can only make a commit fail, which leaves the world as it was).
\<close>

section \<open>Rows\<close>

record recurrence_defaults =
  df_title :: string
  df_description :: string
  df_due_at :: timestamp
  df_scheduled_start :: "timestamp option"
  df_scheduled_end :: "timestamp option"
  df_priority :: task_priority
  df_recurrence :: task_recurrence
  df_labels :: "string list"
  df_remind_at :: "timestamp option"

record task_row = task +
  t_user_id :: uuid
  t_recurrence_source_id :: "uuid option"
  t_recurrence_defaults :: "recurrence_defaults option"
  t_recurrence_project_id :: "uuid option"

record project_row =
  pr_id :: uuid
  pr_user_id :: uuid
  pr_name :: string
  pr_outcome :: string
  pr_target_date :: "date option"
  pr_status :: project_status
  pr_created_at :: timestamp
  pr_updated_at :: timestamp
  pr_version :: int

record user_row = user_profile +
  u_google_subject :: "string option"
  u_updated_at :: timestamp

record settings_row = user_settings +
  us_user_id :: uuid

record session_row =
  se_token_hash :: string
  se_user_id :: uuid
  se_csrf_token :: string
  se_expires_at :: timestamp
  se_last_seen_at :: timestamp

record login_attempt_row =
  la_state_hash :: string
  la_nonce :: string
  la_pkce_verifier :: string
  la_expires_at :: timestamp
  la_user_id :: "uuid option"
  la_purpose :: string
  la_terms_version :: "string option"
  la_privacy_version :: "string option"
  la_age_confirmed :: bool
  la_browser_binding_hash :: "string option"

record invite_row =
  iv_email :: string
  iv_used_at :: "timestamp option"
  iv_used_by :: "uuid option"

record legal_row =
  lg_id :: uuid
  lg_user_id :: uuid
  lg_terms_version :: string
  lg_privacy_version :: string
  lg_age_confirmed :: bool

record google_account_row =
  ga_user_id :: uuid
  ga_encrypted_access_token :: string
  ga_encrypted_refresh_token :: "string option"
  ga_access_token_expires_at :: "timestamp option"
  ga_scopes :: "string list"
  ga_connected_at :: timestamp
  ga_updated_at :: timestamp

record focus_row =
  fo_user_id :: uuid
  fo_focus_date :: date
  fo_task_id :: uuid
  fo_position :: int

record review_row =
  rv_id :: uuid
  rv_user_id :: uuid
  rv_review_date :: date
  rv_status :: daily_review_status
  rv_started_at :: timestamp
  rv_completed_at :: "timestamp option"
  rv_version :: int

record calendar_row = calendar +
  c_user_id :: uuid
  c_sync_token :: "string option"
  c_last_synced_at :: "timestamp option"
  c_last_sync_error :: "string option"
  c_provider_primary :: bool
  c_access_role :: string

record event_row = calendar_event +
  e_user_id :: uuid

record mapping_row =
  m_id :: uuid
  m_user_id :: uuid
  m_calendar_id :: uuid
  m_canonical_event_id :: "uuid option"
  m_external_calendar_id :: string
  m_external_event_id :: string
  m_external_etag :: "string option"
  m_base_fingerprint :: "string option"
  m_local_dirty :: bool
  m_local_deleted :: bool
  m_conflict_state :: string
  m_pending_resolution :: "string option"
  m_last_synced_at :: "timestamp option"
  m_deletion_hold_until :: "timestamp option"
  m_reversible_tombstone :: bool
  m_delete_resolution_pending :: bool

datatype job_status = Pending | Running | Succeeded | Failed

record job_row =
  j_id :: uuid
  j_user_id :: uuid
  j_calendar_id :: "uuid option"
  j_kind :: string
  j_idempotency_key :: string
  j_status :: job_status
  j_attempt_count :: int
  j_available_at :: timestamp
  j_leased_until :: "timestamp option"
  j_last_error :: "string option"
  j_created_at :: timestamp
  j_updated_at :: timestamp

record conflict_row =
  k_id :: uuid
  k_user_id :: uuid
  k_mapping_id :: uuid
  k_canonical_event_id :: "uuid option"
  k_title :: string
  k_status :: string
  k_resolution :: "string option"
  k_created_at :: timestamp
  k_resolved_at :: "timestamp option"

record watch_row =
  wc_channel_id :: uuid
  wc_user_id :: uuid
  wc_calendar_id :: uuid
  wc_resource_id :: string
  wc_token_hash :: string
  wc_expires_at :: timestamp

record note_row =
  n_id :: uuid
  n_user_id :: uuid
  n_project_id :: "uuid option"
  n_task_id :: "uuid option"
  n_event_id :: "uuid option"
  n_title :: string
  n_markdown :: string
  n_created_at :: timestamp
  n_updated_at :: timestamp
  n_version :: int

record file_row =
  f_id :: uuid
  f_user_id :: uuid
  f_project_id :: "uuid option"
  f_task_id :: "uuid option"
  f_note_id :: "uuid option"
  f_event_id :: "uuid option"
  f_object_key :: string
  f_filename :: string
  f_content_type :: string
  f_byte_size :: int
  f_created_at :: timestamp

datatype saved_task_status =
  SavedOpen | SavedAll | SavedTodo | SavedInProgress | SavedBlocked | SavedCompleted

datatype saved_task_sort = SortManual | SortDue | SortPriority | SortTitle

record saved_view_row =
  sv_id :: uuid
  sv_user_id :: uuid
  sv_project_id :: "uuid option"
  sv_name :: string
  sv_search :: string
  sv_status :: saved_task_status
  sv_priority :: "task_priority option"
  sv_label :: "string option"
  sv_sort :: saved_task_sort
  sv_created_at :: timestamp

text \<open>The JSON guard a calendar move stores: the identity and conflict state of the mapping.\<close>

record guard_value =
  mg_id :: uuid
  mg_calendar_id :: uuid
  mg_event_id :: "uuid option"
  mg_external_calendar_id :: string
  mg_external_event_id :: string
  mg_conflict_state :: string
  mg_pending_resolution :: "string option"
  mg_local_deleted :: bool

record move_undo_row =
  mr_id :: uuid
  mr_user_id :: uuid
  mr_event_id :: uuid
  mr_task_id :: "uuid option"
  mr_starts_at :: timestamp
  mr_ends_at :: timestamp
  mr_task_starts_at :: "timestamp option"
  mr_task_ends_at :: "timestamp option"
  mr_event_version :: int
  mr_task_version :: "int option"
  mr_mapping_guard :: "guard_value option"
  mr_expires_at :: timestamp

record guard_row =
  gr_user_id :: uuid
  gr_scope :: string
  gr_revision :: int

record gt_connection_row =
  gc_user_id :: uuid
  gc_enabled :: bool
  gc_task_list_id :: "string option"
  gc_timezone :: "string option"
  gc_list_create_attempted :: bool
  gc_last_synced_at :: "timestamp option"
  gc_last_error :: "string option"
  gc_change_revision :: int
  gc_scan_revision :: "int option"
  gc_scan_link_cursor :: "uuid option"
  gc_scan_import_cursor :: "string option"
  gc_scan_had_errors :: bool
  gc_version :: int

datatype link_phase = Prepared | Creating | Linked | Detached

record gt_link_row =
  gl_id :: uuid
  gl_user_id :: uuid
  gl_task_list_id :: string
  gl_task_id :: uuid
  gl_external_task_id :: "string option"
  gl_external_etag :: "string option"
  gl_baseline :: "task_fields option"
  gl_phase :: link_phase
  gl_create_reference :: "string option"
  gl_conflict :: "google_task_conflict option"
  gl_resolution :: "task_conflict_choice option"
  gl_last_error :: "string option"

record activity_row = activity_entry +
  ae_user_id :: uuid

text \<open>
  The JSON snapshot of a reversible deletion: the rows themselves. \<open>sn_calendar\<close> is the calendar
  row without its synchronization bookkeeping, \<open>sn_google_account\<close> the account identity.
\<close>

record snapshot =
  sn_task :: task_row
  sn_event :: "event_row option"
  sn_notes :: "note_row list"
  sn_files :: "file_row list"
  sn_focus :: "focus_row list"
  sn_successors :: "task_row list"
  sn_projects :: "project_row list"
  sn_task_dependencies :: "task_row list"
  sn_calendar :: "calendar_row option"
  sn_mapping :: "mapping_row option"
  sn_google_account :: "(uuid \<times> timestamp \<times> string list) option"
  sn_revisions :: "(string \<times> int) list"

record delete_undo_row =
  du_id :: uuid
  du_user_id :: uuid
  du_task_id :: uuid
  du_task_title :: string
  du_snapshot :: snapshot
  du_expires_at :: timestamp

section \<open>The world\<close>

record world =
  now :: timestamp
  uuid_supply :: "nat \<Rightarrow> uuid"
  drawn :: nat
  users :: "user_row list"
  settings :: "settings_row list"
  sessions :: "session_row list"
  login_attempts :: "login_attempt_row list"
  invites :: "invite_row list"
  legal_acceptances :: "legal_row list"
  google_accounts :: "google_account_row list"
  projects :: "project_row list"
  tasks :: "task_row list"
  labels :: "(uuid \<times> string) list"
  focus_tasks :: "focus_row list"
  reviews :: "review_row list"
  calendars :: "calendar_row list"
  events :: "event_row list"
  mappings :: "mapping_row list"
  sync_jobs :: "job_row list"
  conflicts :: "conflict_row list"
  watch_channels :: "watch_row list"
  note_rows :: "note_row list"
  files :: "file_row list"
  saved_views :: "saved_view_row list"
  move_undos :: "move_undo_row list"
  guard_revisions :: "guard_row list"
  gt_connections :: "gt_connection_row list"
  gt_links :: "gt_link_row list"
  delete_undos :: "delete_undo_row list"
  activity :: "activity_row list"

text \<open>
  What the store takes from its platform: Unicode lower-casing (\<open>str::to_lowercase\<close> and SQL
  \<open>LOWER\<close>), chrono's checked date arithmetic, the process clock \<open>Utc::now()\<close> at the call,
  SHA-256 and the sort key of the database's text collation. They are parameters; the properties say what they assume of them.
\<close>

record platform =
  to_lowercase :: "string \<Rightarrow> string"
  checked_add_signed :: "timestamp \<Rightarrow> int \<Rightarrow> timestamp option"
  checked_add_months :: "timestamp \<Rightarrow> nat \<Rightarrow> timestamp option"
  utc_now :: timestamp
  sha256 :: "string \<Rightarrow> string"
  collation_key :: "string \<Rightarrow> nat list"

type_synonym 'a store_result = "('a \<times> world) app_result"

definition new_uuid :: "world \<Rightarrow> uuid \<times> world" where
  "new_uuid w = (uuid_supply w (drawn w), w\<lparr>drawn := Suc (drawn w)\<rparr>)"

text \<open>The empty database, and a platform whose functions compute, for concrete runs.\<close>

definition empty_world :: world where
  "empty_world =
     \<lparr>now = 0, uuid_supply = id, drawn = 0, users = [], settings = [], sessions = [],
      login_attempts = [], invites = [], legal_acceptances = [], google_accounts = [], projects = [],
      tasks = [], labels = [], focus_tasks = [], reviews = [], calendars = [], events = [],
      mappings = [], sync_jobs = [], conflicts = [], watch_channels = [], note_rows = [], files = [],
      saved_views = [], move_undos = [], guard_revisions = [], gt_connections = [], gt_links = [],
      delete_undos = [], activity = []\<rparr>"

definition ascii_platform :: "timestamp \<Rightarrow> platform" where
  "ascii_platform t =
     \<lparr>to_lowercase = ascii_lower, checked_add_signed = (\<lambda>s d. Some (s + d)),
      checked_add_months = (\<lambda>s n. Some (s + int n * 30 * 86400000000)), utc_now = t, sha256 = id,
      collation_key = map of_char\<rparr>"

text \<open>The identifiers drawn so far, and the tables' primary keys.\<close>

definition drawn_ids :: "world \<Rightarrow> uuid set" where
  "drawn_ids w = uuid_supply w ` {..<drawn w}"

section \<open>Triggers\<close>

definition bump_revision :: "uuid \<Rightarrow> string \<Rightarrow> world \<Rightarrow> world" where
  "bump_revision user scope w =
     w\<lparr>guard_revisions :=
        (if \<exists>g \<in> set (guard_revisions w). gr_user_id g = user \<and> gr_scope g = scope
         then update_where (\<lambda>g. gr_user_id g = user \<and> gr_scope g = scope)
                (\<lambda>g. g\<lparr>gr_revision := gr_revision g + 1\<rparr>) (guard_revisions w)
         else guard_revisions w @ [\<lparr>gr_user_id = user, gr_scope = scope, gr_revision = 1\<rparr>])\<rparr>"

definition user_exists :: "uuid \<Rightarrow> world \<Rightarrow> bool" where
  "user_exists user w \<longleftrightarrow> (\<exists>u \<in> set (users w). u_id u = user)"

definition trigger_revision :: "uuid \<Rightarrow> string \<Rightarrow> world \<Rightarrow> world" where
  "trigger_revision user scope w = (if user_exists user w then bump_revision user scope w else w)"

text \<open>
  \<open>date_text\<close> of the SQL cast \<open>day::text\<close> and of \<open>NaiveDate\<close>'s \<open>Display\<close>: both print
  the ISO form, an injective name of the day. The model uses the day number.
\<close>

definition focus_scope :: "date \<Rightarrow> string" where
  "focus_scope d = ''focus:'' @ show_int d"

definition new_job ::
  "uuid \<Rightarrow> uuid option \<Rightarrow> string \<Rightarrow> string \<Rightarrow> uuid \<Rightarrow> timestamp \<Rightarrow> job_row" where
  "new_job user calendar kind key i t =
     \<lparr>j_id = i, j_user_id = user, j_calendar_id = calendar, j_kind = kind,
      j_idempotency_key = key, j_status = Pending, j_attempt_count = 0, j_available_at = t,
      j_leased_until = None, j_last_error = None, j_created_at = t, j_updated_at = t\<rparr>"

text \<open>INSERT INTO sync\_jobs ... ON CONFLICT (user\_id, idempotency\_key) DO NOTHING.\<close>

definition insert_job :: "uuid \<Rightarrow> uuid option \<Rightarrow> string \<Rightarrow> string \<Rightarrow> world \<Rightarrow> world" where
  "insert_job user calendar kind key w =
     (let (i, w) = new_uuid w
      in if \<exists>j \<in> set (sync_jobs w). j_user_id j = user \<and> j_idempotency_key j = key then w
         else w\<lparr>sync_jobs := sync_jobs w @ [new_job user calendar kind key i (now w)]\<rparr>)"

definition pending_tasks_change :: "uuid \<Rightarrow> job_row \<Rightarrow> bool" where
  "pending_tasks_change owner j \<longleftrightarrow>
     j_user_id j = owner \<and> j_kind j = ''tasks_sync'' \<and> j_status j = Pending
     \<and> starts_with (j_idempotency_key j) ''tasks-change:''"

definition tasks_change :: "uuid \<Rightarrow> world \<Rightarrow> world" where
  "tasks_change owner w =
     (if \<exists>c \<in> set (gt_connections w). gc_user_id c = owner \<and> gc_enabled c then
        (let w = w\<lparr>gt_connections :=
                update_where (\<lambda>c. gc_user_id c = owner \<and> gc_enabled c)
                  (\<lambda>c. c\<lparr>gc_change_revision := gc_change_revision c + 1\<rparr>) (gt_connections w)\<rparr>;
             (i, w) = new_uuid w;
             (k, w) = new_uuid w
         in if \<exists>j \<in> set (sync_jobs w). pending_tasks_change owner j then w
            else w\<lparr>sync_jobs := sync_jobs w @
                   [new_job owner None ''tasks_sync'' (''tasks-change:'' @ show_uuid k) i (now w)]\<rparr>)
      else w)"

definition shared_fields_changed :: "task_row \<Rightarrow> task_row \<Rightarrow> bool" where
  "shared_fields_changed old new \<longleftrightarrow>
     t_title old \<noteq> t_title new \<or> t_due_at old \<noteq> t_due_at new
     \<or> (t_status old = Completed) \<noteq> (t_status new = Completed)"

section \<open>Statements with their cascades\<close>

definition insert_task :: "task_row \<Rightarrow> world \<Rightarrow> world" where
  "insert_task r w = tasks_change (t_user_id r) (w\<lparr>tasks := tasks w @ [r]\<rparr>)"

definition update_tasks :: "(task_row \<Rightarrow> bool) \<Rightarrow> (task_row \<Rightarrow> task_row) \<Rightarrow> world \<Rightarrow> world" where
  "update_tasks p f w =
     fold tasks_change
       (map t_user_id (filter (\<lambda>r. p r \<and> shared_fields_changed r (f r)) (tasks w)))
       (w\<lparr>tasks := update_where p f (tasks w)\<rparr>)"

definition unlink :: "('a \<Rightarrow> bool) \<Rightarrow> 'a option \<Rightarrow> 'a option" where
  "unlink p x = (case x of Some a \<Rightarrow> if p a then None else Some a | None \<Rightarrow> None)"

definition delete_notes :: "(note_row \<Rightarrow> bool) \<Rightarrow> world \<Rightarrow> world" where
  "delete_notes p w =
     (let gone = map n_id (filter p (note_rows w))
      in w\<lparr>note_rows := delete_where p (note_rows w),
           files := map (\<lambda>f. f\<lparr>f_note_id := unlink (\<lambda>i. i \<in> set gone) (f_note_id f)\<rparr>) (files w)\<rparr>)"

definition delete_events :: "(event_row \<Rightarrow> bool) \<Rightarrow> world \<Rightarrow> world" where
  "delete_events p w =
     (let gone = filter p (events w);
          ids = map e_id gone;
          keys = map (\<lambda>e. (e_id e, e_user_id e)) gone;
          w = w\<lparr>events := delete_where p (events w),
                 files := map (\<lambda>f. f\<lparr>f_event_id := unlink (\<lambda>i. i \<in> set ids) (f_event_id f)\<rparr>) (files w),
                 mappings := map (\<lambda>m. m\<lparr>m_canonical_event_id :=
                     unlink (\<lambda>i. i \<in> set ids) (m_canonical_event_id m)\<rparr>) (mappings w),
                 conflicts := map (\<lambda>k. k\<lparr>k_canonical_event_id :=
                     unlink (\<lambda>i. i \<in> set ids) (k_canonical_event_id k)\<rparr>) (conflicts w),
                 move_undos := delete_where (\<lambda>m. (mr_event_id m, mr_user_id m) \<in> set keys) (move_undos w)\<rparr>
      in delete_notes (\<lambda>n. refers (n_event_id n) (\<lambda>i. (i, n_user_id n) \<in> set keys)) w)"

definition delete_focus :: "(focus_row \<Rightarrow> bool) \<Rightarrow> world \<Rightarrow> world" where
  "delete_focus p w =
     fold (\<lambda>f. trigger_revision (fo_user_id f) (focus_scope (fo_focus_date f))) (filter p (focus_tasks w))
       (w\<lparr>focus_tasks := delete_where p (focus_tasks w)\<rparr>)"

definition insert_focus :: "focus_row \<Rightarrow> world \<Rightarrow> world" where
  "insert_focus r w =
     trigger_revision (fo_user_id r) (focus_scope (fo_focus_date r))
       (w\<lparr>focus_tasks := focus_tasks w @ [r]\<rparr>)"

definition delete_tasks :: "(task_row \<Rightarrow> bool) \<Rightarrow> world \<Rightarrow> world" where
  "delete_tasks p w =
     (let gone = filter p (tasks w);
          ids = map t_id gone;
          keys = map (\<lambda>t. (t_id t, t_user_id t)) gone;
          w = w\<lparr>tasks := map (\<lambda>t. t\<lparr>t_recurrence_source_id :=
                    unlink (\<lambda>i. i \<in> set ids) (t_recurrence_source_id t)\<rparr>) (delete_where p (tasks w)),
                 files := map (\<lambda>f. f\<lparr>f_task_id := unlink (\<lambda>i. i \<in> set ids) (f_task_id f)\<rparr>) (files w),
                 move_undos := delete_where (\<lambda>m. refers (mr_task_id m) (\<lambda>i. (i, mr_user_id m) \<in> set keys))
                    (move_undos w)\<rparr>;
          w = delete_focus (\<lambda>f. (fo_task_id f, fo_user_id f) \<in> set keys) w;
          w = delete_events (\<lambda>e. refers (e_linked_task_id e) (\<lambda>i. (i, e_user_id e) \<in> set keys)) w;
          w = delete_notes (\<lambda>n. refers (n_task_id n) (\<lambda>i. (i, n_user_id n) \<in> set keys)) w
      in fold tasks_change (map t_user_id gone) w)"

definition delete_projects :: "(project_row \<Rightarrow> bool) \<Rightarrow> world \<Rightarrow> world" where
  "delete_projects p w =
     (let gone = filter p (projects w);
          ids = map pr_id gone;
          keys = map (\<lambda>q. (pr_id q, pr_user_id q)) gone;
          hit = (\<lambda>x u. refers x (\<lambda>i. (i, u) \<in> set keys));
          w = w\<lparr>projects := delete_where p (projects w),
                 files := map (\<lambda>f. f\<lparr>f_project_id := unlink (\<lambda>i. i \<in> set ids) (f_project_id f)\<rparr>) (files w),
                 saved_views := delete_where (\<lambda>v. hit (sv_project_id v) (sv_user_id v)) (saved_views w)\<rparr>;
          w = delete_tasks (\<lambda>t. hit (t_project_id t) (t_user_id t)) w;
          w = delete_notes (\<lambda>n. hit (n_project_id n) (n_user_id n)) w
      in w\<lparr>tasks := update_where (\<lambda>t. hit (t_recurrence_project_id t) (t_user_id t))
            (\<lambda>t. t\<lparr>t_recurrence_project_id := None, t_version := t_version t + 1, t_updated_at := now w\<rparr>)
            (tasks w)\<rparr>)"

definition delete_mappings :: "(mapping_row \<Rightarrow> bool) \<Rightarrow> world \<Rightarrow> world" where
  "delete_mappings p w =
     (let gone = map m_id (filter p (mappings w))
      in w\<lparr>mappings := delete_where p (mappings w),
           conflicts := delete_where (\<lambda>k. k_mapping_id k \<in> set gone) (conflicts w)\<rparr>)"

definition delete_calendars :: "(calendar_row \<Rightarrow> bool) \<Rightarrow> world \<Rightarrow> world" where
  "delete_calendars p w =
     (let gone = filter p (calendars w);
          ids = map c_id gone;
          keys = map (\<lambda>c. (c_id c, c_user_id c)) gone;
          w = fold (\<lambda>c. trigger_revision (c_user_id c) ''calendars'') gone w;
          w = w\<lparr>calendars := delete_where p (calendars w),
                 sync_jobs := delete_where (\<lambda>j. refers (j_calendar_id j) (\<lambda>i. i \<in> set ids)) (sync_jobs w),
                 watch_channels := delete_where (\<lambda>c. wc_calendar_id c \<in> set ids) (watch_channels w)\<rparr>;
          w = delete_mappings (\<lambda>m. m_calendar_id m \<in> set ids) w
      in delete_events (\<lambda>e. (e_calendar_id e, e_user_id e) \<in> set keys) w)"

definition calendar_preference_changed :: "calendar_row \<Rightarrow> calendar_row \<Rightarrow> bool" where
  "calendar_preference_changed old new \<longleftrightarrow>
     (c_source old, c_external_id old, c_selected old, c_is_default old, c_provider_primary old, c_access_role old)
     \<noteq> (c_source new, c_external_id new, c_selected new, c_is_default new, c_provider_primary new, c_access_role new)"

definition insert_calendar :: "calendar_row \<Rightarrow> world \<Rightarrow> world" where
  "insert_calendar r w =
     trigger_revision (c_user_id r) ''calendars'' (w\<lparr>calendars := calendars w @ [r]\<rparr>)"

definition update_calendars ::
  "(calendar_row \<Rightarrow> bool) \<Rightarrow> (calendar_row \<Rightarrow> calendar_row) \<Rightarrow> world \<Rightarrow> world" where
  "update_calendars p f w =
     fold (\<lambda>c. trigger_revision (c_user_id c) ''calendars'')
       (filter (\<lambda>c. p c \<and> calendar_preference_changed c (f c)) (calendars w))
       (w\<lparr>calendars := update_where p f (calendars w)\<rparr>)"

section \<open>Frames and effects\<close>

text \<open>What each statement leaves alone.\<close>

lemma unlink_Some: "unlink p x = Some i \<longleftrightarrow> x = Some i \<and> \<not> p i"
  by (auto simp: unlink_def split: option.splits)

lemma new_uuid_frame [simp]:
  "now (snd (new_uuid w)) = now w" "uuid_supply (snd (new_uuid w)) = uuid_supply w"
  "users (snd (new_uuid w)) = users w" "settings (snd (new_uuid w)) = settings w"
  "sessions (snd (new_uuid w)) = sessions w" "login_attempts (snd (new_uuid w)) = login_attempts w"
  "invites (snd (new_uuid w)) = invites w" "legal_acceptances (snd (new_uuid w)) = legal_acceptances w"
  "google_accounts (snd (new_uuid w)) = google_accounts w" "projects (snd (new_uuid w)) = projects w"
  "tasks (snd (new_uuid w)) = tasks w" "labels (snd (new_uuid w)) = labels w"
  "focus_tasks (snd (new_uuid w)) = focus_tasks w" "reviews (snd (new_uuid w)) = reviews w"
  "calendars (snd (new_uuid w)) = calendars w" "events (snd (new_uuid w)) = events w"
  "mappings (snd (new_uuid w)) = mappings w" "sync_jobs (snd (new_uuid w)) = sync_jobs w"
  "conflicts (snd (new_uuid w)) = conflicts w" "watch_channels (snd (new_uuid w)) = watch_channels w"
  "note_rows (snd (new_uuid w)) = note_rows w" "files (snd (new_uuid w)) = files w"
  "saved_views (snd (new_uuid w)) = saved_views w" "move_undos (snd (new_uuid w)) = move_undos w"
  "guard_revisions (snd (new_uuid w)) = guard_revisions w" "gt_connections (snd (new_uuid w)) = gt_connections w"
  "gt_links (snd (new_uuid w)) = gt_links w" "delete_undos (snd (new_uuid w)) = delete_undos w"
  "activity (snd (new_uuid w)) = activity w"
  by (simp_all add: new_uuid_def)

lemma bump_revision_frame [simp]:
  "now (bump_revision u s w) = now w" "uuid_supply (bump_revision u s w) = uuid_supply w"
  "drawn (bump_revision u s w) = drawn w" "users (bump_revision u s w) = users w"
  "settings (bump_revision u s w) = settings w" "sessions (bump_revision u s w) = sessions w"
  "login_attempts (bump_revision u s w) = login_attempts w" "invites (bump_revision u s w) = invites w"
  "legal_acceptances (bump_revision u s w) = legal_acceptances w" "google_accounts (bump_revision u s w) = google_accounts w"
  "projects (bump_revision u s w) = projects w" "tasks (bump_revision u s w) = tasks w"
  "labels (bump_revision u s w) = labels w" "focus_tasks (bump_revision u s w) = focus_tasks w"
  "reviews (bump_revision u s w) = reviews w" "calendars (bump_revision u s w) = calendars w"
  "events (bump_revision u s w) = events w" "mappings (bump_revision u s w) = mappings w"
  "sync_jobs (bump_revision u s w) = sync_jobs w" "conflicts (bump_revision u s w) = conflicts w"
  "watch_channels (bump_revision u s w) = watch_channels w" "note_rows (bump_revision u s w) = note_rows w"
  "files (bump_revision u s w) = files w" "saved_views (bump_revision u s w) = saved_views w"
  "move_undos (bump_revision u s w) = move_undos w" "gt_connections (bump_revision u s w) = gt_connections w"
  "gt_links (bump_revision u s w) = gt_links w" "delete_undos (bump_revision u s w) = delete_undos w"
  "activity (bump_revision u s w) = activity w"
  by (simp_all add: bump_revision_def)

lemma trigger_revision_frame [simp]:
  "now (trigger_revision u s w) = now w" "uuid_supply (trigger_revision u s w) = uuid_supply w"
  "drawn (trigger_revision u s w) = drawn w" "users (trigger_revision u s w) = users w"
  "settings (trigger_revision u s w) = settings w" "sessions (trigger_revision u s w) = sessions w"
  "login_attempts (trigger_revision u s w) = login_attempts w" "invites (trigger_revision u s w) = invites w"
  "legal_acceptances (trigger_revision u s w) = legal_acceptances w" "google_accounts (trigger_revision u s w) = google_accounts w"
  "projects (trigger_revision u s w) = projects w" "tasks (trigger_revision u s w) = tasks w"
  "labels (trigger_revision u s w) = labels w" "focus_tasks (trigger_revision u s w) = focus_tasks w"
  "reviews (trigger_revision u s w) = reviews w" "calendars (trigger_revision u s w) = calendars w"
  "events (trigger_revision u s w) = events w" "mappings (trigger_revision u s w) = mappings w"
  "sync_jobs (trigger_revision u s w) = sync_jobs w" "conflicts (trigger_revision u s w) = conflicts w"
  "watch_channels (trigger_revision u s w) = watch_channels w" "note_rows (trigger_revision u s w) = note_rows w"
  "files (trigger_revision u s w) = files w" "saved_views (trigger_revision u s w) = saved_views w"
  "move_undos (trigger_revision u s w) = move_undos w" "gt_connections (trigger_revision u s w) = gt_connections w"
  "gt_links (trigger_revision u s w) = gt_links w" "delete_undos (trigger_revision u s w) = delete_undos w"
  "activity (trigger_revision u s w) = activity w"
  by (simp_all add: trigger_revision_def)

lemma insert_job_frame [simp]:
  "now (insert_job u c k i w) = now w" "uuid_supply (insert_job u c k i w) = uuid_supply w"
  "users (insert_job u c k i w) = users w" "settings (insert_job u c k i w) = settings w"
  "sessions (insert_job u c k i w) = sessions w" "login_attempts (insert_job u c k i w) = login_attempts w"
  "invites (insert_job u c k i w) = invites w" "legal_acceptances (insert_job u c k i w) = legal_acceptances w"
  "google_accounts (insert_job u c k i w) = google_accounts w" "projects (insert_job u c k i w) = projects w"
  "tasks (insert_job u c k i w) = tasks w" "labels (insert_job u c k i w) = labels w"
  "focus_tasks (insert_job u c k i w) = focus_tasks w" "reviews (insert_job u c k i w) = reviews w"
  "calendars (insert_job u c k i w) = calendars w" "events (insert_job u c k i w) = events w"
  "mappings (insert_job u c k i w) = mappings w" "conflicts (insert_job u c k i w) = conflicts w"
  "watch_channels (insert_job u c k i w) = watch_channels w" "note_rows (insert_job u c k i w) = note_rows w"
  "files (insert_job u c k i w) = files w" "saved_views (insert_job u c k i w) = saved_views w"
  "move_undos (insert_job u c k i w) = move_undos w" "guard_revisions (insert_job u c k i w) = guard_revisions w"
  "gt_connections (insert_job u c k i w) = gt_connections w" "gt_links (insert_job u c k i w) = gt_links w"
  "delete_undos (insert_job u c k i w) = delete_undos w" "activity (insert_job u c k i w) = activity w"
  by (simp_all add: insert_job_def new_uuid_def Let_def)

lemma tasks_change_frame [simp]:
  "now (tasks_change u w) = now w" "uuid_supply (tasks_change u w) = uuid_supply w"
  "users (tasks_change u w) = users w" "settings (tasks_change u w) = settings w"
  "sessions (tasks_change u w) = sessions w" "login_attempts (tasks_change u w) = login_attempts w"
  "invites (tasks_change u w) = invites w" "legal_acceptances (tasks_change u w) = legal_acceptances w"
  "google_accounts (tasks_change u w) = google_accounts w" "projects (tasks_change u w) = projects w"
  "tasks (tasks_change u w) = tasks w" "labels (tasks_change u w) = labels w"
  "focus_tasks (tasks_change u w) = focus_tasks w" "reviews (tasks_change u w) = reviews w"
  "calendars (tasks_change u w) = calendars w" "events (tasks_change u w) = events w"
  "mappings (tasks_change u w) = mappings w" "conflicts (tasks_change u w) = conflicts w"
  "watch_channels (tasks_change u w) = watch_channels w" "note_rows (tasks_change u w) = note_rows w"
  "files (tasks_change u w) = files w" "saved_views (tasks_change u w) = saved_views w"
  "move_undos (tasks_change u w) = move_undos w" "guard_revisions (tasks_change u w) = guard_revisions w"
  "gt_links (tasks_change u w) = gt_links w" "delete_undos (tasks_change u w) = delete_undos w"
  "activity (tasks_change u w) = activity w"
  by (simp_all add: tasks_change_def new_uuid_def Let_def)

lemma fold_tasks_change_frame [simp]:
  "now (fold tasks_change us w) = now w" "uuid_supply (fold tasks_change us w) = uuid_supply w"
  "users (fold tasks_change us w) = users w" "settings (fold tasks_change us w) = settings w"
  "sessions (fold tasks_change us w) = sessions w" "login_attempts (fold tasks_change us w) = login_attempts w"
  "invites (fold tasks_change us w) = invites w" "legal_acceptances (fold tasks_change us w) = legal_acceptances w"
  "google_accounts (fold tasks_change us w) = google_accounts w" "projects (fold tasks_change us w) = projects w"
  "tasks (fold tasks_change us w) = tasks w" "labels (fold tasks_change us w) = labels w"
  "focus_tasks (fold tasks_change us w) = focus_tasks w" "reviews (fold tasks_change us w) = reviews w"
  "calendars (fold tasks_change us w) = calendars w" "events (fold tasks_change us w) = events w"
  "mappings (fold tasks_change us w) = mappings w" "conflicts (fold tasks_change us w) = conflicts w"
  "watch_channels (fold tasks_change us w) = watch_channels w" "note_rows (fold tasks_change us w) = note_rows w"
  "files (fold tasks_change us w) = files w" "saved_views (fold tasks_change us w) = saved_views w"
  "move_undos (fold tasks_change us w) = move_undos w" "guard_revisions (fold tasks_change us w) = guard_revisions w"
  "gt_links (fold tasks_change us w) = gt_links w" "delete_undos (fold tasks_change us w) = delete_undos w"
  "activity (fold tasks_change us w) = activity w"
  by (induction us arbitrary: w) simp_all

lemma fold_trigger_revision_frame [simp]:
  "now (fold (\<lambda>x. trigger_revision (u x) (s x)) xs w) = now w" "uuid_supply (fold (\<lambda>x. trigger_revision (u x) (s x)) xs w) = uuid_supply w"
  "drawn (fold (\<lambda>x. trigger_revision (u x) (s x)) xs w) = drawn w" "users (fold (\<lambda>x. trigger_revision (u x) (s x)) xs w) = users w"
  "settings (fold (\<lambda>x. trigger_revision (u x) (s x)) xs w) = settings w" "sessions (fold (\<lambda>x. trigger_revision (u x) (s x)) xs w) = sessions w"
  "login_attempts (fold (\<lambda>x. trigger_revision (u x) (s x)) xs w) = login_attempts w" "invites (fold (\<lambda>x. trigger_revision (u x) (s x)) xs w) = invites w"
  "legal_acceptances (fold (\<lambda>x. trigger_revision (u x) (s x)) xs w) = legal_acceptances w" "google_accounts (fold (\<lambda>x. trigger_revision (u x) (s x)) xs w) = google_accounts w"
  "projects (fold (\<lambda>x. trigger_revision (u x) (s x)) xs w) = projects w" "tasks (fold (\<lambda>x. trigger_revision (u x) (s x)) xs w) = tasks w"
  "labels (fold (\<lambda>x. trigger_revision (u x) (s x)) xs w) = labels w" "focus_tasks (fold (\<lambda>x. trigger_revision (u x) (s x)) xs w) = focus_tasks w"
  "reviews (fold (\<lambda>x. trigger_revision (u x) (s x)) xs w) = reviews w" "calendars (fold (\<lambda>x. trigger_revision (u x) (s x)) xs w) = calendars w"
  "events (fold (\<lambda>x. trigger_revision (u x) (s x)) xs w) = events w" "mappings (fold (\<lambda>x. trigger_revision (u x) (s x)) xs w) = mappings w"
  "sync_jobs (fold (\<lambda>x. trigger_revision (u x) (s x)) xs w) = sync_jobs w" "conflicts (fold (\<lambda>x. trigger_revision (u x) (s x)) xs w) = conflicts w"
  "watch_channels (fold (\<lambda>x. trigger_revision (u x) (s x)) xs w) = watch_channels w" "note_rows (fold (\<lambda>x. trigger_revision (u x) (s x)) xs w) = note_rows w"
  "files (fold (\<lambda>x. trigger_revision (u x) (s x)) xs w) = files w" "saved_views (fold (\<lambda>x. trigger_revision (u x) (s x)) xs w) = saved_views w"
  "move_undos (fold (\<lambda>x. trigger_revision (u x) (s x)) xs w) = move_undos w" "gt_connections (fold (\<lambda>x. trigger_revision (u x) (s x)) xs w) = gt_connections w"
  "gt_links (fold (\<lambda>x. trigger_revision (u x) (s x)) xs w) = gt_links w" "delete_undos (fold (\<lambda>x. trigger_revision (u x) (s x)) xs w) = delete_undos w"
  "activity (fold (\<lambda>x. trigger_revision (u x) (s x)) xs w) = activity w"
  by (induction xs arbitrary: w) simp_all

lemma insert_task_frame [simp]:
  "now (insert_task r w) = now w" "uuid_supply (insert_task r w) = uuid_supply w"
  "users (insert_task r w) = users w" "settings (insert_task r w) = settings w"
  "sessions (insert_task r w) = sessions w" "login_attempts (insert_task r w) = login_attempts w"
  "invites (insert_task r w) = invites w" "legal_acceptances (insert_task r w) = legal_acceptances w"
  "google_accounts (insert_task r w) = google_accounts w" "projects (insert_task r w) = projects w"
  "labels (insert_task r w) = labels w" "focus_tasks (insert_task r w) = focus_tasks w"
  "reviews (insert_task r w) = reviews w" "calendars (insert_task r w) = calendars w"
  "events (insert_task r w) = events w" "mappings (insert_task r w) = mappings w"
  "conflicts (insert_task r w) = conflicts w" "watch_channels (insert_task r w) = watch_channels w"
  "note_rows (insert_task r w) = note_rows w" "files (insert_task r w) = files w"
  "saved_views (insert_task r w) = saved_views w" "move_undos (insert_task r w) = move_undos w"
  "guard_revisions (insert_task r w) = guard_revisions w" "gt_links (insert_task r w) = gt_links w"
  "delete_undos (insert_task r w) = delete_undos w" "activity (insert_task r w) = activity w"
  by (simp_all add: insert_task_def)

lemma update_tasks_frame [simp]:
  "now (update_tasks p f w) = now w" "uuid_supply (update_tasks p f w) = uuid_supply w"
  "users (update_tasks p f w) = users w" "settings (update_tasks p f w) = settings w"
  "sessions (update_tasks p f w) = sessions w" "login_attempts (update_tasks p f w) = login_attempts w"
  "invites (update_tasks p f w) = invites w" "legal_acceptances (update_tasks p f w) = legal_acceptances w"
  "google_accounts (update_tasks p f w) = google_accounts w" "projects (update_tasks p f w) = projects w"
  "labels (update_tasks p f w) = labels w" "focus_tasks (update_tasks p f w) = focus_tasks w"
  "reviews (update_tasks p f w) = reviews w" "calendars (update_tasks p f w) = calendars w"
  "events (update_tasks p f w) = events w" "mappings (update_tasks p f w) = mappings w"
  "conflicts (update_tasks p f w) = conflicts w" "watch_channels (update_tasks p f w) = watch_channels w"
  "note_rows (update_tasks p f w) = note_rows w" "files (update_tasks p f w) = files w"
  "saved_views (update_tasks p f w) = saved_views w" "move_undos (update_tasks p f w) = move_undos w"
  "guard_revisions (update_tasks p f w) = guard_revisions w" "gt_links (update_tasks p f w) = gt_links w"
  "delete_undos (update_tasks p f w) = delete_undos w" "activity (update_tasks p f w) = activity w"
  by (simp_all add: update_tasks_def)

lemma delete_notes_frame [simp]:
  "now (delete_notes p w) = now w" "uuid_supply (delete_notes p w) = uuid_supply w"
  "drawn (delete_notes p w) = drawn w" "users (delete_notes p w) = users w"
  "settings (delete_notes p w) = settings w" "sessions (delete_notes p w) = sessions w"
  "login_attempts (delete_notes p w) = login_attempts w" "invites (delete_notes p w) = invites w"
  "legal_acceptances (delete_notes p w) = legal_acceptances w" "google_accounts (delete_notes p w) = google_accounts w"
  "projects (delete_notes p w) = projects w" "tasks (delete_notes p w) = tasks w"
  "labels (delete_notes p w) = labels w" "focus_tasks (delete_notes p w) = focus_tasks w"
  "reviews (delete_notes p w) = reviews w" "calendars (delete_notes p w) = calendars w"
  "events (delete_notes p w) = events w" "mappings (delete_notes p w) = mappings w"
  "sync_jobs (delete_notes p w) = sync_jobs w" "conflicts (delete_notes p w) = conflicts w"
  "watch_channels (delete_notes p w) = watch_channels w" "saved_views (delete_notes p w) = saved_views w"
  "move_undos (delete_notes p w) = move_undos w" "guard_revisions (delete_notes p w) = guard_revisions w"
  "gt_connections (delete_notes p w) = gt_connections w" "gt_links (delete_notes p w) = gt_links w"
  "delete_undos (delete_notes p w) = delete_undos w" "activity (delete_notes p w) = activity w"
  by (simp_all add: delete_notes_def Let_def)

lemma delete_events_frame [simp]:
  "now (delete_events p w) = now w" "uuid_supply (delete_events p w) = uuid_supply w"
  "drawn (delete_events p w) = drawn w" "users (delete_events p w) = users w"
  "settings (delete_events p w) = settings w" "sessions (delete_events p w) = sessions w"
  "login_attempts (delete_events p w) = login_attempts w" "invites (delete_events p w) = invites w"
  "legal_acceptances (delete_events p w) = legal_acceptances w" "google_accounts (delete_events p w) = google_accounts w"
  "projects (delete_events p w) = projects w" "tasks (delete_events p w) = tasks w"
  "labels (delete_events p w) = labels w" "focus_tasks (delete_events p w) = focus_tasks w"
  "reviews (delete_events p w) = reviews w" "calendars (delete_events p w) = calendars w"
  "sync_jobs (delete_events p w) = sync_jobs w" "watch_channels (delete_events p w) = watch_channels w"
  "saved_views (delete_events p w) = saved_views w" "guard_revisions (delete_events p w) = guard_revisions w"
  "gt_connections (delete_events p w) = gt_connections w" "gt_links (delete_events p w) = gt_links w"
  "delete_undos (delete_events p w) = delete_undos w" "activity (delete_events p w) = activity w"
  by (simp_all add: delete_events_def Let_def)

lemma delete_focus_frame [simp]:
  "now (delete_focus p w) = now w" "uuid_supply (delete_focus p w) = uuid_supply w"
  "drawn (delete_focus p w) = drawn w" "users (delete_focus p w) = users w"
  "settings (delete_focus p w) = settings w" "sessions (delete_focus p w) = sessions w"
  "login_attempts (delete_focus p w) = login_attempts w" "invites (delete_focus p w) = invites w"
  "legal_acceptances (delete_focus p w) = legal_acceptances w" "google_accounts (delete_focus p w) = google_accounts w"
  "projects (delete_focus p w) = projects w" "tasks (delete_focus p w) = tasks w"
  "labels (delete_focus p w) = labels w" "reviews (delete_focus p w) = reviews w"
  "calendars (delete_focus p w) = calendars w" "events (delete_focus p w) = events w"
  "mappings (delete_focus p w) = mappings w" "sync_jobs (delete_focus p w) = sync_jobs w"
  "conflicts (delete_focus p w) = conflicts w" "watch_channels (delete_focus p w) = watch_channels w"
  "note_rows (delete_focus p w) = note_rows w" "files (delete_focus p w) = files w"
  "saved_views (delete_focus p w) = saved_views w" "move_undos (delete_focus p w) = move_undos w"
  "gt_connections (delete_focus p w) = gt_connections w" "gt_links (delete_focus p w) = gt_links w"
  "delete_undos (delete_focus p w) = delete_undos w" "activity (delete_focus p w) = activity w"
  by (simp_all add: delete_focus_def)

lemma insert_focus_frame [simp]:
  "now (insert_focus r w) = now w" "uuid_supply (insert_focus r w) = uuid_supply w"
  "drawn (insert_focus r w) = drawn w" "users (insert_focus r w) = users w"
  "settings (insert_focus r w) = settings w" "sessions (insert_focus r w) = sessions w"
  "login_attempts (insert_focus r w) = login_attempts w" "invites (insert_focus r w) = invites w"
  "legal_acceptances (insert_focus r w) = legal_acceptances w" "google_accounts (insert_focus r w) = google_accounts w"
  "projects (insert_focus r w) = projects w" "tasks (insert_focus r w) = tasks w"
  "labels (insert_focus r w) = labels w" "reviews (insert_focus r w) = reviews w"
  "calendars (insert_focus r w) = calendars w" "events (insert_focus r w) = events w"
  "mappings (insert_focus r w) = mappings w" "sync_jobs (insert_focus r w) = sync_jobs w"
  "conflicts (insert_focus r w) = conflicts w" "watch_channels (insert_focus r w) = watch_channels w"
  "note_rows (insert_focus r w) = note_rows w" "files (insert_focus r w) = files w"
  "saved_views (insert_focus r w) = saved_views w" "move_undos (insert_focus r w) = move_undos w"
  "gt_connections (insert_focus r w) = gt_connections w" "gt_links (insert_focus r w) = gt_links w"
  "delete_undos (insert_focus r w) = delete_undos w" "activity (insert_focus r w) = activity w"
  by (simp_all add: insert_focus_def)

lemma delete_tasks_frame [simp]:
  "now (delete_tasks p w) = now w" "uuid_supply (delete_tasks p w) = uuid_supply w"
  "users (delete_tasks p w) = users w" "settings (delete_tasks p w) = settings w"
  "sessions (delete_tasks p w) = sessions w" "login_attempts (delete_tasks p w) = login_attempts w"
  "invites (delete_tasks p w) = invites w" "legal_acceptances (delete_tasks p w) = legal_acceptances w"
  "google_accounts (delete_tasks p w) = google_accounts w" "projects (delete_tasks p w) = projects w"
  "labels (delete_tasks p w) = labels w" "reviews (delete_tasks p w) = reviews w"
  "calendars (delete_tasks p w) = calendars w" "watch_channels (delete_tasks p w) = watch_channels w"
  "saved_views (delete_tasks p w) = saved_views w" "gt_links (delete_tasks p w) = gt_links w"
  "delete_undos (delete_tasks p w) = delete_undos w" "activity (delete_tasks p w) = activity w"
  by (simp_all add: delete_tasks_def Let_def)

lemma delete_mappings_frame [simp]:
  "now (delete_mappings p w) = now w" "uuid_supply (delete_mappings p w) = uuid_supply w"
  "drawn (delete_mappings p w) = drawn w" "users (delete_mappings p w) = users w"
  "settings (delete_mappings p w) = settings w" "sessions (delete_mappings p w) = sessions w"
  "login_attempts (delete_mappings p w) = login_attempts w" "invites (delete_mappings p w) = invites w"
  "legal_acceptances (delete_mappings p w) = legal_acceptances w" "google_accounts (delete_mappings p w) = google_accounts w"
  "projects (delete_mappings p w) = projects w" "tasks (delete_mappings p w) = tasks w"
  "labels (delete_mappings p w) = labels w" "focus_tasks (delete_mappings p w) = focus_tasks w"
  "reviews (delete_mappings p w) = reviews w" "calendars (delete_mappings p w) = calendars w"
  "events (delete_mappings p w) = events w" "sync_jobs (delete_mappings p w) = sync_jobs w"
  "watch_channels (delete_mappings p w) = watch_channels w" "note_rows (delete_mappings p w) = note_rows w"
  "files (delete_mappings p w) = files w" "saved_views (delete_mappings p w) = saved_views w"
  "move_undos (delete_mappings p w) = move_undos w" "guard_revisions (delete_mappings p w) = guard_revisions w"
  "gt_connections (delete_mappings p w) = gt_connections w" "gt_links (delete_mappings p w) = gt_links w"
  "delete_undos (delete_mappings p w) = delete_undos w" "activity (delete_mappings p w) = activity w"
  by (simp_all add: delete_mappings_def Let_def)

lemma insert_calendar_frame [simp]:
  "now (insert_calendar r w) = now w" "uuid_supply (insert_calendar r w) = uuid_supply w"
  "drawn (insert_calendar r w) = drawn w" "users (insert_calendar r w) = users w"
  "settings (insert_calendar r w) = settings w" "sessions (insert_calendar r w) = sessions w"
  "login_attempts (insert_calendar r w) = login_attempts w" "invites (insert_calendar r w) = invites w"
  "legal_acceptances (insert_calendar r w) = legal_acceptances w" "google_accounts (insert_calendar r w) = google_accounts w"
  "projects (insert_calendar r w) = projects w" "tasks (insert_calendar r w) = tasks w"
  "labels (insert_calendar r w) = labels w" "focus_tasks (insert_calendar r w) = focus_tasks w"
  "reviews (insert_calendar r w) = reviews w" "events (insert_calendar r w) = events w"
  "mappings (insert_calendar r w) = mappings w" "sync_jobs (insert_calendar r w) = sync_jobs w"
  "conflicts (insert_calendar r w) = conflicts w" "watch_channels (insert_calendar r w) = watch_channels w"
  "note_rows (insert_calendar r w) = note_rows w" "files (insert_calendar r w) = files w"
  "saved_views (insert_calendar r w) = saved_views w" "move_undos (insert_calendar r w) = move_undos w"
  "gt_connections (insert_calendar r w) = gt_connections w" "gt_links (insert_calendar r w) = gt_links w"
  "delete_undos (insert_calendar r w) = delete_undos w" "activity (insert_calendar r w) = activity w"
  by (simp_all add: insert_calendar_def)

lemma update_calendars_frame [simp]:
  "now (update_calendars p f w) = now w" "uuid_supply (update_calendars p f w) = uuid_supply w"
  "drawn (update_calendars p f w) = drawn w" "users (update_calendars p f w) = users w"
  "settings (update_calendars p f w) = settings w" "sessions (update_calendars p f w) = sessions w"
  "login_attempts (update_calendars p f w) = login_attempts w" "invites (update_calendars p f w) = invites w"
  "legal_acceptances (update_calendars p f w) = legal_acceptances w" "google_accounts (update_calendars p f w) = google_accounts w"
  "projects (update_calendars p f w) = projects w" "tasks (update_calendars p f w) = tasks w"
  "labels (update_calendars p f w) = labels w" "focus_tasks (update_calendars p f w) = focus_tasks w"
  "reviews (update_calendars p f w) = reviews w" "events (update_calendars p f w) = events w"
  "mappings (update_calendars p f w) = mappings w" "sync_jobs (update_calendars p f w) = sync_jobs w"
  "conflicts (update_calendars p f w) = conflicts w" "watch_channels (update_calendars p f w) = watch_channels w"
  "note_rows (update_calendars p f w) = note_rows w" "files (update_calendars p f w) = files w"
  "saved_views (update_calendars p f w) = saved_views w" "move_undos (update_calendars p f w) = move_undos w"
  "gt_connections (update_calendars p f w) = gt_connections w" "gt_links (update_calendars p f w) = gt_links w"
  "delete_undos (update_calendars p f w) = delete_undos w" "activity (update_calendars p f w) = activity w"
  by (simp_all add: update_calendars_def)

lemma delete_calendars_frame [simp]:
  "now (delete_calendars p w) = now w" "uuid_supply (delete_calendars p w) = uuid_supply w"
  "drawn (delete_calendars p w) = drawn w" "users (delete_calendars p w) = users w"
  "settings (delete_calendars p w) = settings w" "sessions (delete_calendars p w) = sessions w"
  "login_attempts (delete_calendars p w) = login_attempts w" "invites (delete_calendars p w) = invites w"
  "legal_acceptances (delete_calendars p w) = legal_acceptances w" "google_accounts (delete_calendars p w) = google_accounts w"
  "projects (delete_calendars p w) = projects w" "tasks (delete_calendars p w) = tasks w"
  "labels (delete_calendars p w) = labels w" "focus_tasks (delete_calendars p w) = focus_tasks w"
  "reviews (delete_calendars p w) = reviews w" "saved_views (delete_calendars p w) = saved_views w"
  "gt_connections (delete_calendars p w) = gt_connections w" "gt_links (delete_calendars p w) = gt_links w"
  "delete_undos (delete_calendars p w) = delete_undos w" "activity (delete_calendars p w) = activity w"
  by (simp_all add: delete_calendars_def Let_def)

lemma delete_projects_frame [simp]:
  "now (delete_projects p w) = now w" "uuid_supply (delete_projects p w) = uuid_supply w"
  "users (delete_projects p w) = users w" "settings (delete_projects p w) = settings w"
  "sessions (delete_projects p w) = sessions w" "login_attempts (delete_projects p w) = login_attempts w"
  "invites (delete_projects p w) = invites w" "legal_acceptances (delete_projects p w) = legal_acceptances w"
  "google_accounts (delete_projects p w) = google_accounts w" "labels (delete_projects p w) = labels w"
  "reviews (delete_projects p w) = reviews w" "calendars (delete_projects p w) = calendars w"
  "watch_channels (delete_projects p w) = watch_channels w" "gt_links (delete_projects p w) = gt_links w"
  "delete_undos (delete_projects p w) = delete_undos w" "activity (delete_projects p w) = activity w"
  by (simp_all add: delete_projects_def Let_def)

text \<open>What each statement does to the rows it names.\<close>

lemma statement_effects [simp]:
  "fst (new_uuid w) = uuid_supply w (drawn w)" "drawn (snd (new_uuid w)) = Suc (drawn w)"
  "tasks (insert_task r w) = tasks w @ [r]"
  "tasks (update_tasks p f w) = update_where p f (tasks w)"
  "note_rows (delete_notes q w) = delete_where q (note_rows w)"
  "events (delete_events e w) = delete_where e (events w)"
  "focus_tasks (delete_focus c w) = delete_where c (focus_tasks w)"
  "focus_tasks (insert_focus g w) = focus_tasks w @ [g]"
  "mappings (delete_mappings m w) = delete_where m (mappings w)"
  "calendars (insert_calendar h w) = calendars w @ [h]"
  "calendars (update_calendars a b w) = update_where a b (calendars w)"
  "calendars (delete_calendars a w) = delete_where a (calendars w)"
  "projects (delete_projects d w) = delete_where d (projects w)"
  by (simp_all add: new_uuid_def insert_task_def update_tasks_def delete_notes_def delete_events_def
      delete_focus_def insert_focus_def delete_mappings_def insert_calendar_def update_calendars_def
      delete_calendars_def delete_projects_def Let_def)

lemma tasks_delete_tasks:
  "tasks (delete_tasks p w) =
     map (\<lambda>t. t\<lparr>t_recurrence_source_id :=
            unlink (\<lambda>i. i \<in> t_id ` {r \<in> set (tasks w). p r}) (t_recurrence_source_id t)\<rparr>)
       (delete_where p (tasks w))"
  by (simp add: delete_tasks_def Let_def)

end
