(* ===== verification/SyncStore.thy ===== *)
theory SyncStore
  imports Database
begin

text \<open>
  \<open>sync_store.rs\<close> and the job loop \<open>run_once\<close> of \<open>sync_service.rs\<close>: the durable queue of
  synchronization jobs, watch channels, the activity log and conflict resolution.

  A job is a row with the status \<open>Pending\<close>, \<open>Running\<close>, \<open>Succeeded\<close> or \<open>Failed\<close>. The
  step relation \<open>job_step\<close> collects the operations that write the queue; \<open>jobs_ok\<close> is its
  invariant.
\<close>

definition second :: int where
  "second = 1000000"

section \<open>Credentials and status\<close>

record google_credentials =
  cr_encrypted_access_token :: string
  cr_encrypted_refresh_token :: "string option"
  cr_access_token_expires_at :: "timestamp option"
  cr_scopes :: "string list"

definition into_credentials :: "google_account_row \<Rightarrow> google_credentials" where
  "into_credentials a =
     \<lparr>cr_encrypted_access_token = ga_encrypted_access_token a,
      cr_encrypted_refresh_token = ga_encrypted_refresh_token a,
      cr_access_token_expires_at = ga_access_token_expires_at a,
      cr_scopes = ga_scopes a\<rparr>"

definition account_of :: "uuid \<Rightarrow> world \<Rightarrow> google_account_row option" where
  "account_of user w = row_by (\<lambda>a. ga_user_id a = user) (google_accounts w)"

definition store_google_credentials :: "uuid \<Rightarrow> world \<Rightarrow> google_credentials app_result" where
  "store_google_credentials user w =
     ok_or (map_option into_credentials (account_of user w))
       (NotConfigured ''Google Calendar integration'')"

fun status_text :: "job_status \<Rightarrow> string" where
  "status_text Pending = ''pending''"
| "status_text Running = ''running''"
| "status_text Succeeded = ''succeeded''"
| "status_text Failed = ''failed''"

definition synchronization_of :: "job_row \<Rightarrow> synchronization" where
  "synchronization_of j =
     \<lparr>sy_id = j_id j, sy_calendar_id = j_calendar_id j, sy_kind = j_kind j,
      sy_status = status_text (j_status j), sy_attempt_count = j_attempt_count j,
      sy_available_at = j_available_at j, sy_last_error = None,
      sy_created_at = j_created_at j, sy_updated_at = j_updated_at j\<rparr>"

definition superseded :: "job_row list \<Rightarrow> job_row \<Rightarrow> bool" where
  "superseded js failed \<longleftrightarrow>
     (\<exists>s \<in> set js. j_user_id s = j_user_id failed \<and> j_status s = Succeeded \<and> j_kind s = j_kind failed
        \<and> j_calendar_id s = j_calendar_id failed \<and> j_created_at failed < j_created_at s)"

definition latest_job :: "job_row list \<Rightarrow> job_row option" where
  "latest_job js =
     (case rev (sort_key (\<lambda>j. (j_created_at j, j_id j)) js) of [] \<Rightarrow> None | j # _ \<Rightarrow> Some j)"

definition store_google_integration_status :: "uuid \<Rightarrow> world \<Rightarrow> google_integration_status" where
  "store_google_integration_status user w =
     (let account = account_of user w;
          mine = filter (\<lambda>j. j_user_id j = user) (sync_jobs w)
      in \<lparr>gi_connected = (case account of None \<Rightarrow> False
              | Some a \<Rightarrow> \<exists>s \<in> set (ga_scopes a). contains_str s ''/auth/calendar''),
          gi_scopes = (case account of None \<Rightarrow> [] | Some a \<Rightarrow> ga_scopes a),
          gi_expires_at = Option.bind account ga_access_token_expires_at,
          gi_latest_synchronization = map_option synchronization_of (latest_job mine),
          gi_pending_synchronization_count =
            int (length (filter (\<lambda>j. j_status j \<in> {Pending, Running}
                                   \<or> (j_status j = Failed \<and> j_attempt_count j < 8)) mine)),
          gi_failed_synchronization_count =
            int (length (filter (\<lambda>j. j_status j = Failed \<and> 8 \<le> j_attempt_count j
                                   \<and> \<not> superseded (sync_jobs w) j) mine))\<rparr>)"

definition update_google_access_token ::
  "uuid \<Rightarrow> string \<Rightarrow> timestamp option \<Rightarrow> world \<Rightarrow> world" where
  "update_google_access_token user token expires w =
     w\<lparr>google_accounts := update_where (\<lambda>a. ga_user_id a = user)
         (\<lambda>a. a\<lparr>ga_encrypted_access_token := token, ga_access_token_expires_at := expires,
                ga_updated_at := now w\<rparr>) (google_accounts w)\<rparr>"

definition revoke_google_integration :: "uuid \<Rightarrow> world \<Rightarrow> world" where
  "revoke_google_integration user w =
     (let w = delete_calendars (\<lambda>c. c_user_id c = user \<and> c_source c = Google) w
      in w\<lparr>google_accounts := delete_where (\<lambda>a. ga_user_id a = user) (google_accounts w)\<rparr>)"

section \<open>Enqueueing\<close>

definition job_by_key :: "uuid \<Rightarrow> string \<Rightarrow> world \<Rightarrow> job_row option" where
  "job_by_key user key w =
     row_by (\<lambda>j. j_user_id j = user \<and> j_idempotency_key j = key) (sync_jobs w)"

definition owns_calendar :: "uuid \<Rightarrow> uuid \<Rightarrow> world \<Rightarrow> bool" where
  "owns_calendar user calendar w \<longleftrightarrow>
     (\<exists>c \<in> set (calendars w). c_id c = calendar \<and> c_user_id c = user)"

definition enqueue_sync ::
  "uuid \<Rightarrow> uuid option \<Rightarrow> string \<Rightarrow> string \<Rightarrow> world \<Rightarrow> synchronization store_result" where
  "enqueue_sync user calendar kind key w =
     bind_res (require (trim key \<noteq> [] \<and> chars_count key \<le> 200)
       (Validation ''idempotency key must contain between 1 and 200 characters'')) (\<lambda>_.
     bind_res (require (case calendar of None \<Rightarrow> True | Some c \<Rightarrow> owns_calendar user c w)
       (NotFound ''calendar'')) (\<lambda>_.
     case job_by_key user (trim key) w of
       Some j \<Rightarrow> Inr (synchronization_of j, snd (new_uuid w))
     | None \<Rightarrow>
         (let (i, w) = new_uuid w;
              j = new_job user calendar kind (trim key) i (now w)
          in Inr (synchronization_of j, w\<lparr>sync_jobs := sync_jobs w @ [j]\<rparr>))))"

definition store_synchronization :: "uuid \<Rightarrow> uuid \<Rightarrow> world \<Rightarrow> synchronization app_result" where
  "store_synchronization user i w =
     ok_or (map_option synchronization_of
              (row_by (\<lambda>j. j_id j = i \<and> j_user_id j = user) (sync_jobs w)))
       (NotFound ''synchronization'')"

definition new_jobs :: "world \<Rightarrow> world \<Rightarrow> nat" where
  "new_jobs before after = length (sync_jobs after) - length (sync_jobs before)"

definition stale :: "timestamp \<Rightarrow> timestamp option \<Rightarrow> bool" where
  "stale t synced \<longleftrightarrow> (case synced of None \<Rightarrow> True | Some s \<Rightarrow> s < t - 300 * second)"

definition enqueue_periodic_synchronizations :: "platform \<Rightarrow> world \<Rightarrow> nat \<times> world" where
  "enqueue_periodic_synchronizations pf w0 =
     (let bucket = utc_now pf div second div 300;
          due = filter (\<lambda>c. c_source c = Google \<and> c_selected c \<and> stale (now w0) (c_last_synced_at c))
                  (calendars w0);
          w1 = fold (\<lambda>c. insert_job (c_user_id c) (Some (c_id c)) ''calendar_sync''
                  (''periodic:'' @ show_uuid (c_id c) @ '':'' @ show_int bucket)) due w0;
          w2 = w1\<lparr>login_attempts := delete_where (\<lambda>a. la_expires_at a \<le> now w1) (login_attempts w1)\<rparr>;
          users = filter (\<lambda>c. gc_enabled c \<and> stale (now w2) (gc_last_synced_at c)
                     \<and> (case account_of (gc_user_id c) w2 of None \<Rightarrow> False
                        | Some a \<Rightarrow> TASKS_SCOPE \<in> set (ga_scopes a))) (gt_connections w2);
          w3 = fold (\<lambda>c. insert_job (gc_user_id c) None ''tasks_sync''
                  (''tasks-periodic:'' @ show_uuid (gc_user_id c) @ '':'' @ show_int bucket)) users w2
      in (new_jobs w0 w1 + new_jobs w2 w3, w3))"

definition writable_role :: "string \<Rightarrow> bool" where
  "writable_role r \<longleftrightarrow> r = ''writer'' \<or> r = ''owner''"

definition enqueue_expiring_calendar_watches ::
  "platform \<Rightarrow> uuid option \<Rightarrow> world \<Rightarrow> nat \<times> world" where
  "enqueue_expiring_calendar_watches pf only_user w0 =
     (let w1 = w0\<lparr>watch_channels := delete_where (\<lambda>c. wc_expires_at c \<le> now w0) (watch_channels w0)\<rparr>;
          bucket = utc_now pf div second div (6 * 60 * 60);
          due = filter (\<lambda>c. c_source c = Google \<and> c_selected c \<and> writable_role (c_access_role c)
                  \<and> (case only_user of None \<Rightarrow> True | Some u \<Rightarrow> c_user_id c = u)
                  \<and> \<not> (\<exists>ch \<in> set (watch_channels w1). wc_calendar_id ch = c_id c
                        \<and> now w1 + 24 * 3600 * second < wc_expires_at ch)) (calendars w1);
          w2 = fold (\<lambda>c. insert_job (c_user_id c) (Some (c_id c)) ''calendar_watch''
                  (''calendar-watch:'' @ show_uuid (c_id c) @ '':'' @ show_int bucket)) due w1
      in (new_jobs w1 w2, w2))"

text \<open>
  The new row is refused where the calendar is gone (a foreign key) or where Google names the resource by an empty or
  overlong text (a CHECK); the transaction then leaves the old channels.
\<close>

definition replace_google_watch_channel ::
  "uuid \<Rightarrow> uuid \<Rightarrow> uuid \<Rightarrow> string \<Rightarrow> string \<Rightarrow> timestamp \<Rightarrow> world \<Rightarrow> (uuid \<times> string) list store_result" where
  "replace_google_watch_channel user calendar channel resource hash expires w =
     (let old = filter (\<lambda>c. wc_user_id c = user \<and> wc_calendar_id c = calendar) (watch_channels w)
      in if \<not> (1 \<le> chars_count resource \<and> chars_count resource \<le> 2048)
         then Inl (Database (DatabaseError None (Some ''23514'')))
         else if \<not> (\<exists>c \<in> set (calendars w). c_id c = calendar)
         then Inl (Database (DatabaseError None (Some ''23503'')))
         else Inr (map (\<lambda>c. (wc_channel_id c, wc_resource_id c)) old,
          w\<lparr>watch_channels :=
              delete_where (\<lambda>c. wc_user_id c = user \<and> wc_calendar_id c = calendar) (watch_channels w)
              @ [\<lparr>wc_channel_id = channel, wc_user_id = user, wc_calendar_id = calendar,
                  wc_resource_id = resource, wc_token_hash = hash, wc_expires_at = expires\<rparr>]\<rparr>))"

definition google_watch_channels_for_user :: "uuid \<Rightarrow> world \<Rightarrow> (uuid \<times> string) list" where
  "google_watch_channels_for_user user w =
     map (\<lambda>c. (wc_channel_id c, wc_resource_id c))
       (filter (\<lambda>c. wc_user_id c = user) (watch_channels w))"

definition enqueue_google_watch_notification ::
  "uuid \<Rightarrow> string \<Rightarrow> string \<Rightarrow> string \<Rightarrow> world \<Rightarrow> bool \<times> world" where
  "enqueue_google_watch_notification channel resource hash message_number w =
     (case row_by (\<lambda>c. wc_channel_id c = channel \<and> wc_resource_id c = resource
                    \<and> wc_token_hash c = hash \<and> now w < wc_expires_at c) (watch_channels w) of
        None \<Rightarrow> (False, snd (new_uuid w))
      | Some c \<Rightarrow>
          (True, insert_job (wc_user_id c) (Some (wc_calendar_id c)) ''calendar_sync''
             (''google-watch:'' @ show_uuid channel @ '':'' @ message_number) w))"

section \<open>Claiming and finishing\<close>

record claimed_sync_job =
  cj_id :: uuid
  cj_user_id :: uuid
  cj_calendar_id :: "uuid option"
  cj_kind :: string
  cj_attempt_count :: int

text \<open>\<open>locked\<close>: the rows other transactions hold, which SKIP LOCKED passes over.\<close>

definition claimable :: "uuid list \<Rightarrow> timestamp \<Rightarrow> job_row \<Rightarrow> bool" where
  "claimable locked t j \<longleftrightarrow>
     j_status j \<in> {Pending, Failed} \<and> j_available_at j \<le> t
     \<and> (case j_leased_until j of None \<Rightarrow> True | Some l \<Rightarrow> l < t)
     \<and> j_attempt_count j < 8 \<and> j_id j \<notin> set locked"

definition claim_sync_job :: "uuid list \<Rightarrow> world \<Rightarrow> claimed_sync_job option \<times> world" where
  "claim_sync_job locked w =
     (case sort_key (\<lambda>j. (j_available_at j, j_created_at j))
             (filter (claimable locked (now w)) (sync_jobs w)) of
        [] \<Rightarrow> (None, w)
      | j # _ \<Rightarrow>
          (Some \<lparr>cj_id = j_id j, cj_user_id = j_user_id j, cj_calendar_id = j_calendar_id j,
                 cj_kind = j_kind j, cj_attempt_count = j_attempt_count j\<rparr>,
           w\<lparr>sync_jobs := update_where (\<lambda>r. j_id r = j_id j)
               (\<lambda>r. r\<lparr>j_status := Running, j_attempt_count := j_attempt_count r + 1,
                      j_leased_until := Some (now w + 120 * second), j_updated_at := now w\<rparr>)
               (sync_jobs w)\<rparr>))"

definition complete_sync_job :: "uuid \<Rightarrow> world \<Rightarrow> world" where
  "complete_sync_job i w =
     w\<lparr>sync_jobs := update_where (\<lambda>r. j_id r = i)
         (\<lambda>r. r\<lparr>j_status := Succeeded, j_leased_until := None, j_last_error := None,
                j_updated_at := now w\<rparr>) (sync_jobs w)\<rparr>"

definition delay_seconds :: "int \<Rightarrow> int" where
  "delay_seconds attempt = min (2 ^ nat (clamp 1 8 attempt)) 300"

fun left_chars :: "nat \<Rightarrow> string \<Rightarrow> string" where
  "left_chars n [] = []"
| "left_chars n (c # s) =
     (if (of_char c :: nat) div 64 = 2 then c # left_chars n s
      else if n = 0 then [] else c # left_chars (n - 1) s)"

definition fail_sync_job :: "uuid \<Rightarrow> int \<Rightarrow> string \<Rightarrow> world \<Rightarrow> world" where
  "fail_sync_job i attempt_count error w =
     w\<lparr>sync_jobs := update_where (\<lambda>r. j_id r = i)
         (\<lambda>r. r\<lparr>j_status := Failed, j_leased_until := None,
                j_available_at := now w + delay_seconds attempt_count * second,
                j_last_error := Some (left_chars 2000 error), j_updated_at := now w\<rparr>) (sync_jobs w)\<rparr>"

definition record_activity :: "uuid \<Rightarrow> string \<Rightarrow> string \<Rightarrow> world \<Rightarrow> world" where
  "record_activity user kind msg w =
     (let (_, w) = new_uuid w
      in w\<lparr>activity := activity w @
            [\<lparr>ae_kind = kind, ae_message = msg, ae_created_at = now w, ae_user_id = user\<rparr>]\<rparr>)"

definition activity_for_user :: "uuid \<Rightarrow> world \<Rightarrow> activity_entry list" where
  "activity_for_user user w =
     map activity_entry.truncate
       (take 100 (rev (sort_key ae_created_at (filter (\<lambda>a. ae_user_id a = user) (activity w)))))"

text \<open>
  \<open>run_once\<close>: claim one job, run it, record the outcome. \<open>execute\<close> stands for the provider work
  of the job (network calls and the writes they lead to); its error is the printed text.
\<close>

definition cleanup_task_delete_undos :: "timestamp \<Rightarrow> world \<Rightarrow> nat \<times> world" where
  "cleanup_task_delete_undos clock w =
     (let expired = take 100 (sort_key du_expires_at (filter (\<lambda>u. du_expires_at u \<le> clock) (delete_undos w)))
      in (length expired,
          w\<lparr>delete_undos := delete_where (\<lambda>u. du_id u \<in> set (map du_id expired)) (delete_undos w)\<rparr>))"

definition run_once ::
  "(claimed_sync_job \<Rightarrow> world \<Rightarrow> (string, unit) res \<times> world) \<Rightarrow> timestamp \<Rightarrow> uuid list
   \<Rightarrow> world \<Rightarrow> bool \<times> world" where
  "run_once execute clock locked w =
     (let (_, w) = cleanup_task_delete_undos clock w
      in case claim_sync_job locked w of
           (None, w) \<Rightarrow> (False, w)
         | (Some job, w) \<Rightarrow>
             (case row_by (\<lambda>j. j_id j = cj_id job) (sync_jobs w) of
                Some j \<Rightarrow>
                  if j_status j = Running then
                    (case execute job w of
                       (Inr _, w) \<Rightarrow>
                         (True, record_activity (cj_user_id job) ''synchronization_succeeded''
                            ''Calendar synchronization completed'' (complete_sync_job (cj_id job) w))
                     | (Inl err, w) \<Rightarrow>
                         (True, record_activity (cj_user_id job) ''synchronization_failed''
                            (if cj_attempt_count job + 1 < 8
                             then ''Calendar synchronization failed and will be retried''
                             else ''Calendar synchronization failed after the final attempt'')
                            (fail_sync_job (cj_id job) (cj_attempt_count job + 1) err w)))
                  else (True, w)
              | None \<Rightarrow> (True, w)))"

section \<open>Conflicts\<close>

definition allowed_resolutions :: "bool \<Rightarrow> string list" where
  "allowed_resolutions tombstone =
     (if tombstone then [''google''] else [''google'', ''prosepect'', ''latest''])"

definition sync_conflict_of :: "bool \<Rightarrow> conflict_row \<Rightarrow> sync_conflict" where
  "sync_conflict_of tombstone c =
     \<lparr>sc_id = k_id c, sc_allowed_resolutions = allowed_resolutions tombstone,
      sc_canonical_event_id = k_canonical_event_id c, sc_title = k_title c, sc_status = k_status c,
      sc_resolution = k_resolution c, sc_created_at = k_created_at c, sc_resolved_at = k_resolved_at c\<rparr>"

definition list_sync_conflicts :: "uuid \<Rightarrow> world \<Rightarrow> sync_conflict list" where
  "list_sync_conflicts user w =
     map (\<lambda>c. sync_conflict_of
                (\<exists>m \<in> set (mappings w). m_id m = k_mapping_id c \<and> m_user_id m = k_user_id c
                   \<and> m_reversible_tombstone m) c)
       (rev (sort_key k_created_at
          (filter (\<lambda>c. k_user_id c = user \<and> k_status c = ''unresolved'') (conflicts w))))"

definition settle_mapping :: "string \<Rightarrow> mapping_row \<Rightarrow> mapping_row" where
  "settle_mapping resolution m =
     m\<lparr>m_conflict_state := ''none'',
       m_local_dirty := (resolution \<noteq> ''google''),
       m_local_deleted := (if resolution = ''google'' then False else m_local_deleted m),
       m_external_etag := (if resolution = ''google'' then None else m_external_etag m),
       m_pending_resolution := Some resolution\<rparr>"

definition held_mapping :: "uuid \<Rightarrow> uuid \<Rightarrow> world \<Rightarrow> mapping_row option" where
  "held_mapping user conflict w =
     row_by (\<lambda>m. m_reversible_tombstone m
       \<and> (\<exists>c \<in> set (conflicts w). (k_id c = conflict \<and> k_user_id c = user \<and> k_status c = ''unresolved'')
             \<and> k_mapping_id c = m_id m)) (mappings w)"

definition release_held :: "uuid \<Rightarrow> mapping_row \<Rightarrow> world \<Rightarrow> world" where
  "release_held user m w = w\<lparr>delete_undos := delete_where (\<lambda>u. du_user_id u = user
       \<and> map_option m_id (sn_mapping (du_snapshot u)) = Some (m_id m)) (delete_undos w),
     mappings := update_where (\<lambda>r. m_id r = m_id m)
       (\<lambda>r. r\<lparr>m_reversible_tombstone := False, m_deletion_hold_until := None,
              m_delete_resolution_pending := True\<rparr>) (mappings w)\<rparr>"

definition resolve_sync_conflict ::
  "bool \<Rightarrow> uuid \<Rightarrow> uuid \<Rightarrow> string \<Rightarrow> world \<Rightarrow> sync_conflict store_result" where
  "resolve_sync_conflict lock_available user conflict resolution w =
     bind_res (require (resolution \<in> {''google'', ''prosepect'', ''latest''})
       (Validation ''resolution must be google, prosepect, or latest'')) (\<lambda>_.
     let open_conflict = (\<lambda>c. k_id c = conflict \<and> k_user_id c = user \<and> k_status c = ''unresolved'');
         held = held_mapping user conflict w
     in bind_res
          (case held of
             None \<Rightarrow> Inr w
           | Some m \<Rightarrow>
               bind_res (require (resolution = ''google'')
                 (Conflict ''This deleted-task conflict can only be resolved with Keep Google. The task stays deleted and Google is preserved.'')) (\<lambda>_.
               bind_res (require lock_available
                 (Conflict ''Calendar synchronization is in progress. Try again shortly.'')) (\<lambda>_.
               bind_res (require (m_user_id m = user)
                 (Conflict ''Deletion conflict changed. Refresh before resolving it.'')) (\<lambda>_.
               Inr (release_held user m w)))))
          (\<lambda>w. bind_res (ok_or (row_by open_conflict (conflicts w)) (NotFound ''sync conflict'')) (\<lambda>c.
            let c' = c\<lparr>k_status := ''resolved'', k_resolution := Some resolution,
                       k_resolved_at := Some (now w)\<rparr>;
                w = w\<lparr>conflicts := update_where open_conflict (\<lambda>_. c') (conflicts w)\<rparr>
            in bind_res (ok_or (row_by (\<lambda>m. m_id m = k_mapping_id c) (mappings w))
                 (Database (OtherSqlxError ''RowNotFound''))) (\<lambda>m.
               Inr (sync_conflict_of (held \<noteq> None) c',
                    insert_job user (Some (m_calendar_id m)) ''calendar_sync''
                      (''conflict-resolution:'' @ show_uuid conflict @ '':'' @ resolution)
                      (w\<lparr>mappings := update_where (\<lambda>m. m_id m = k_mapping_id c)
                            (settle_mapping resolution) (mappings w)\<rparr>))))))"

end
