(* ===== verification/SyncQueue.thy ===== *)
theory SyncQueue
  imports SyncStore
begin

text \<open>
  The job queue of \<open>sync_store.rs\<close> as a state machine: \<open>job_step\<close> collects the operations of the store and
  the triggers that write the queue, \<open>jobs_ok\<close> is its invariant. The locale \<open>attempt_queue\<close> is the contract of a
  queue that retries a job a bounded number of times; its interpretation is \<open>job_step\<close>.
\<close>

section \<open>The queue as a state machine\<close>

text \<open>
  A step is one operation that writes the queue; its label lists the identifiers it claims. Two writers are not
  steps: the job a reversible task deletion inserts with a later time of availability, and the deletion of the rows of
  a deleted account. A job
  is finished only while it runs: \<open>run_once\<close> finishes the job it claimed.
\<close>

definition running :: "uuid \<Rightarrow> world \<Rightarrow> bool" where
  "running i w \<longleftrightarrow> (\<exists>j \<in> set (sync_jobs w). j_id j = i \<and> j_status j = Running)"

inductive job_step :: "world \<Rightarrow> uuid list \<Rightarrow> world \<Rightarrow> bool" where
  tick: "now w \<le> t \<Longrightarrow> job_step w [] (w\<lparr>now := t\<rparr>)"
| enqueue: "enqueue_sync u c k key w = Inr (s, w') \<Longrightarrow> job_step w [] w'"
| insert: "job_step w [] (insert_job u c k key w)"
| periodic: "job_step w [] (snd (enqueue_periodic_synchronizations pf w))"
| watches: "job_step w [] (snd (enqueue_expiring_calendar_watches pf only w))"
| notification: "job_step w [] (snd (enqueue_google_watch_notification ch r h n w))"
| task_edit: "job_step w [] (tasks_change u w)"
| resolve: "resolve_sync_conflict avail u k r w = Inr (s, w') \<Longrightarrow> job_step w [] w'"
| revoke: "job_step w [] (revoke_google_integration u w)"
| claim: "claim_sync_job locked w = (Some job, w') \<Longrightarrow> job_step w [cj_id job] w'"
| complete: "running i w \<Longrightarrow> job_step w [] (complete_sync_job i w)"
| failure: "running i w \<Longrightarrow> job_step w [] (fail_sync_job i n err w)"

definition job_run :: "world \<Rightarrow> uuid list \<Rightarrow> world \<Rightarrow> bool" where
  "job_run w0 cs w \<longleftrightarrow> sync_jobs w0 = [] \<and> inj (uuid_supply w0) \<and> steps job_step w0 cs w"

definition job_ok :: "job_row \<Rightarrow> bool" where
  "job_ok j \<longleftrightarrow> 0 \<le> j_attempt_count j \<and> j_attempt_count j \<le> 8
     \<and> (j_status j = Pending \<longrightarrow> j_attempt_count j = 0 \<and> j_leased_until j = None)
     \<and> (j_status j = Running \<longrightarrow> 1 \<le> j_attempt_count j \<and> j_leased_until j \<noteq> None)
     \<and> (j_status j = Failed \<longrightarrow> 1 \<le> j_attempt_count j \<and> j_leased_until j = None)
     \<and> (j_status j = Succeeded \<longrightarrow> 1 \<le> j_attempt_count j)"

definition jobs_ok :: "world \<Rightarrow> bool" where
  "jobs_ok w \<longleftrightarrow> inj (uuid_supply w) \<and> distinct (map j_id (sync_jobs w))
     \<and> set (map j_id (sync_jobs w)) \<subseteq> drawn_ids w \<and> (\<forall>j \<in> set (sync_jobs w). job_ok j)"

text \<open>
  The additions every enqueueing operation makes: the old rows stay, the new ones are fresh
  \<open>Pending\<close> jobs with identifiers drawn from the supply.
\<close>

definition fresh_job :: "uuid set \<Rightarrow> job_row \<Rightarrow> bool" where
  "fresh_job ids j \<longleftrightarrow> j_attempt_count j = 0 \<and> j_status j = Pending \<and> j_leased_until j = None
     \<and> j_id j \<in> ids"

definition only_adds_jobs :: "world \<Rightarrow> world \<Rightarrow> bool" where
  "only_adds_jobs w w' \<longleftrightarrow>
     uuid_supply w' = uuid_supply w \<and> drawn w \<le> drawn w'
     \<and> (\<exists>js. sync_jobs w' = sync_jobs w @ js \<and> distinct (map j_id js)
           \<and> list_all (fresh_job (uuid_supply w ` {drawn w..<drawn w'})) js)"

lemma fresh_job_mono: "ids \<subseteq> ids' \<Longrightarrow> fresh_job ids j \<Longrightarrow> fresh_job ids' j"
  by (auto simp: fresh_job_def)

lemma fresh_jobs_ids: "list_all (fresh_job ids) js \<Longrightarrow> j_id ` set js \<subseteq> ids"
  by (auto simp: list_all_iff fresh_job_def)

lemma only_adds_jobs_same:
  "sync_jobs w' = sync_jobs w \<Longrightarrow> uuid_supply w' = uuid_supply w \<Longrightarrow> drawn w \<le> drawn w'
   \<Longrightarrow> only_adds_jobs w w'"
  by (simp add: only_adds_jobs_def)

lemma only_adds_jobs_trans:
  assumes inj: "inj (uuid_supply w)" and ab: "only_adds_jobs w w1" and bc: "only_adds_jobs w1 w2"
  shows "only_adds_jobs w w2"
proof -
  let ?ids = "\<lambda>a b. uuid_supply w ` {drawn (a :: world)..<drawn (b :: world)}"
  from ab obtain js where js: "sync_jobs w1 = sync_jobs w @ js" "distinct (map j_id js)"
    "list_all (fresh_job (?ids w w1)) js" and s1: "uuid_supply w1 = uuid_supply w" "drawn w \<le> drawn w1"
    unfolding only_adds_jobs_def by blast
  from bc s1(1) obtain ks where ks: "sync_jobs w2 = sync_jobs w1 @ ks" "distinct (map j_id ks)"
    "list_all (fresh_job (?ids w1 w2)) ks" and s2: "uuid_supply w2 = uuid_supply w" "drawn w1 \<le> drawn w2"
    unfolding only_adds_jobs_def by metis
  have disj: "?ids w w1 \<inter> ?ids w1 w2 = {}"
    unfolding image_Int [OF inj, symmetric] by auto
  have sub: "?ids w w1 \<subseteq> ?ids w w2" "?ids w1 w2 \<subseteq> ?ids w w2"
    by (rule image_mono, use s1(2) s2(2) in auto)+
  have "list_all (fresh_job (?ids w w2)) (js @ ks)"
    using list.pred_mono_strong [OF js(3) fresh_job_mono [OF sub(1)]]
      list.pred_mono_strong [OF ks(3) fresh_job_mono [OF sub(2)]] by simp
  moreover have "j_id ` set js \<inter> j_id ` set ks = {}"
    using fresh_jobs_ids [OF js(3)] fresh_jobs_ids [OF ks(3)] disj by blast
  then have "distinct (map j_id (js @ ks))" using js(2) ks(2) by simp
  moreover have "sync_jobs w2 = sync_jobs w @ (js @ ks)" using js(1) ks(1) by simp
  ultimately show ?thesis using s1 s2 unfolding only_adds_jobs_def by (metis order_trans)
qed

lemma only_adds_jobs_insert: "only_adds_jobs w (insert_job u c k key w)"
  by (auto simp: only_adds_jobs_def fresh_job_def insert_job_def new_uuid_def new_job_def Let_def)

lemma only_adds_jobs_tasks_change: "only_adds_jobs w (tasks_change u w)"
proof (cases "\<exists>c \<in> set (gt_connections w). gc_user_id c = u \<and> gc_enabled c")
  case True
  then show ?thesis
    by (auto simp: only_adds_jobs_def fresh_job_def tasks_change_def new_uuid_def new_job_def Let_def)
next
  case False
  then have "tasks_change u w = w" unfolding tasks_change_def by (rule if_not_P)
  then show ?thesis by (simp add: only_adds_jobs_same)
qed

lemma only_adds_jobs_fold:
  assumes "inj (uuid_supply w)" and "\<And>x w. only_adds_jobs w (f x w)"
  shows "only_adds_jobs w (fold f xs w)"
  using assms(1)
proof (induction xs arbitrary: w)
  case Nil
  then show ?case by (simp add: only_adds_jobs_same)
next
  case (Cons x xs)
  have "inj (uuid_supply (f x w))"
    using Cons.prems assms(2) [of w x] by (simp add: only_adds_jobs_def)
  from only_adds_jobs_trans [OF Cons.prems assms(2) Cons.IH [OF this]] show ?case by simp
qed

lemma only_adds_jobs_enqueue:
  "enqueue_sync u c k key w = Inr (s, w') \<Longrightarrow> only_adds_jobs w w'"
  by (auto simp: enqueue_sync_def only_adds_jobs_def fresh_job_def new_uuid_def new_job_def Let_def
      split: option.splits)

lemma only_adds_jobs_periodic:
  assumes "inj (uuid_supply w)"
  shows "only_adds_jobs w (snd (enqueue_periodic_synchronizations pf w))"
proof -
  let ?key = "\<lambda>c. ''periodic:'' @ show_uuid (c_id c) @ '':'' @ show_int (utc_now pf div second div 300)"
  let ?w1 = "fold (\<lambda>c. insert_job (c_user_id c) (Some (c_id c)) ''calendar_sync'' (?key c))
      (filter (\<lambda>c. c_source c = Google \<and> c_selected c \<and> stale (now w) (c_last_synced_at c)) (calendars w)) w"
  have a: "only_adds_jobs w ?w1"
    by (rule only_adds_jobs_fold [OF assms]) (rule only_adds_jobs_insert)
  then have inj1: "inj (uuid_supply ?w1)" using assms by (simp add: only_adds_jobs_def)
  have b: "only_adds_jobs ?w1 (?w1\<lparr>login_attempts := l\<rparr>)" for l by (simp add: only_adds_jobs_same)
  have c: "only_adds_jobs (?w1\<lparr>login_attempts := l\<rparr>) (fold (\<lambda>c. insert_job (u c) None ''tasks_sync'' (key c)) xs
      (?w1\<lparr>login_attempts := l\<rparr>))" for l u key and xs :: "gt_connection_row list"
    using inj1 by (intro only_adds_jobs_fold) (auto intro: only_adds_jobs_insert)
  from only_adds_jobs_trans [OF assms a only_adds_jobs_trans [OF inj1 b c]]
  show ?thesis by (simp add: enqueue_periodic_synchronizations_def Let_def)
qed

lemma only_adds_jobs_watches:
  assumes "inj (uuid_supply w)"
  shows "only_adds_jobs w (snd (enqueue_expiring_calendar_watches pf only w))"
proof -
  have a: "only_adds_jobs w (w\<lparr>watch_channels := l\<rparr>)" for l by (simp add: only_adds_jobs_same)
  have b: "only_adds_jobs (w\<lparr>watch_channels := l\<rparr>) (fold (\<lambda>c. insert_job (u c) (i c) ''calendar_watch'' (key c)) xs
      (w\<lparr>watch_channels := l\<rparr>))" for l u key i and xs :: "calendar_row list"
    using assms by (intro only_adds_jobs_fold) (auto intro: only_adds_jobs_insert)
  from only_adds_jobs_trans [OF assms a b]
  show ?thesis by (simp add: enqueue_expiring_calendar_watches_def Let_def)
qed

lemma only_adds_jobs_notification:
  "only_adds_jobs w (snd (enqueue_google_watch_notification ch r h n w))"
  by (auto simp: enqueue_google_watch_notification_def only_adds_jobs_insert only_adds_jobs_same
      split: option.splits)

lemma only_adds_jobs_resolve:
  assumes "resolve_sync_conflict avail u k r w = Inr (s, w')"
  shows "only_adds_jobs w w'"
proof -
  from assms obtain c key w1 where "w' = insert_job u c ''calendar_sync'' key w1"
    and "sync_jobs w1 = sync_jobs w" "uuid_supply w1 = uuid_supply w" "drawn w1 = drawn w"
    by (auto simp: resolve_sync_conflict_def release_held_def Let_def split: option.splits)
  then show ?thesis using only_adds_jobs_insert [of w1 u c "''calendar_sync''" key]
    by (simp add: only_adds_jobs_def)
qed

lemma jobs_ok_added:
  assumes "jobs_ok w" and "only_adds_jobs w w'"
  shows "jobs_ok w'"
proof -
  from assms(2) obtain js where js: "sync_jobs w' = sync_jobs w @ js" "distinct (map j_id js)"
    "list_all (fresh_job (uuid_supply w ` {drawn w..<drawn w'})) js"
    and s: "uuid_supply w' = uuid_supply w" "drawn w \<le> drawn w'"
    unfolding only_adds_jobs_def by blast
  have old: "j_id ` set (sync_jobs w) \<subseteq> drawn_ids w" and inj: "inj (uuid_supply w)"
    using assms(1) by (simp_all add: jobs_ok_def)
  have "drawn_ids w \<inter> uuid_supply w ` {drawn w..<drawn w'} = {}"
    unfolding drawn_ids_def image_Int [OF inj, symmetric] by auto
  then have "j_id ` set (sync_jobs w) \<inter> j_id ` set js = {}"
    using old fresh_jobs_ids [OF js(3)] by blast
  moreover have "drawn_ids w' = drawn_ids w \<union> uuid_supply w ` {drawn w..<drawn w'}"
    unfolding drawn_ids_def s(1) image_Un [symmetric] using s(2) by (simp add: ivl_disj_un)
  then have "j_id ` set (sync_jobs w') \<subseteq> drawn_ids w'"
    using old fresh_jobs_ids [OF js(3)] js(1) by auto
  moreover have "\<forall>j \<in> set js. job_ok j"
    using js(3) by (auto simp: list_all_iff fresh_job_def job_ok_def)
  ultimately show ?thesis using assms(1) js(1,2) s(1) by (auto simp: jobs_ok_def)
qed

text \<open>A status change of one job.\<close>

lemma jobs_ok_update:
  assumes "jobs_ok w" and "\<And>j. j \<in> set (sync_jobs w) \<Longrightarrow> p j \<Longrightarrow> job_ok (f j)" and "\<And>j. j_id (f j) = j_id j"
  shows "jobs_ok (w\<lparr>sync_jobs := update_where p f (sync_jobs w)\<rparr>)"
proof -
  have "map j_id (update_where p f (sync_jobs w)) = map j_id (sync_jobs w)"
    by (rule map_update_where) (rule assms(3))
  moreover have "\<forall>j \<in> set (update_where p f (sync_jobs w)). job_ok j"
    using assms(1,2) by (auto simp: set_update_where jobs_ok_def)
  ultimately show ?thesis
    using assms(1) unfolding jobs_ok_def drawn_ids_def by (simp del: set_map)
qed

lemma jobs_ok_fewer:
  assumes "jobs_ok w" and "sync_jobs w' = delete_where p (sync_jobs w)" and "uuid_supply w' = uuid_supply w"
    and "drawn w' = drawn w"
  shows "jobs_ok w'"
  using assms by (auto simp: jobs_ok_def drawn_ids_def)

lemma sync_jobs_revoke:
  "\<exists>p. sync_jobs (revoke_google_integration u w) = delete_where p (sync_jobs w)"
  by (auto simp: revoke_google_integration_def delete_calendars_def delete_mappings_def Let_def)

lemma revoke_supply:
  "uuid_supply (revoke_google_integration u w) = uuid_supply w"
  "drawn (revoke_google_integration u w) = drawn w"
  by (simp_all add: revoke_google_integration_def)

text \<open>The claim, as a change of the first claimable row.\<close>

definition claim_row :: "timestamp \<Rightarrow> job_row \<Rightarrow> job_row" where
  "claim_row t r = r\<lparr>j_status := Running, j_attempt_count := j_attempt_count r + 1,
     j_leased_until := Some (t + 120 * second), j_updated_at := t\<rparr>"

lemma claim_sync_job_cases:
  obtains (none) "claim_sync_job locked w = (None, w)" "\<forall>j \<in> set (sync_jobs w). \<not> claimable locked (now w) j"
  | (some) j job where "claim_sync_job locked w =
        (Some job, w\<lparr>sync_jobs := update_where (\<lambda>r. j_id r = j_id j) (claim_row (now w)) (sync_jobs w)\<rparr>)"
      "j \<in> set (sync_jobs w)" "claimable locked (now w) j"
      "\<forall>k \<in> set (sync_jobs w). claimable locked (now w) k
          \<longrightarrow> (j_available_at j, j_created_at j) \<le> (j_available_at k, j_created_at k)"
      "job = \<lparr>cj_id = j_id j, cj_user_id = j_user_id j, cj_calendar_id = j_calendar_id j,
              cj_kind = j_kind j, cj_attempt_count = j_attempt_count j\<rparr>"
proof (cases "sort_key (\<lambda>j. (j_available_at j, j_created_at j)) (filter (claimable locked (now w)) (sync_jobs w))")
  case Nil
  then have "filter (claimable locked (now w)) (sync_jobs w) = []" by (metis length_0_conv length_sort)
  then have "\<forall>j \<in> set (sync_jobs w). \<not> claimable locked (now w) j" by (simp add: filter_empty_conv)
  with Nil show ?thesis by (intro that(1)) (simp_all add: claim_sync_job_def)
next
  case (Cons j js)
  let ?key = "\<lambda>j. (j_available_at j, j_created_at j)"
  have set: "set (j # js) = {k \<in> set (sync_jobs w). claimable locked (now w) k}"
    unfolding Cons [symmetric] by simp
  have "sorted (map ?key (j # js))" unfolding Cons [symmetric] by (rule sorted_sort_key)
  then have "\<forall>k \<in> set (j # js). ?key j \<le> ?key k" by auto
  then have min: "\<forall>k \<in> set (sync_jobs w). claimable locked (now w) k \<longrightarrow> ?key j \<le> ?key k"
    unfolding set by blast
  have "j \<in> set (j # js)" by simp
  then have "j \<in> set (sync_jobs w)" "claimable locked (now w) j" unfolding set by simp_all
  then show ?thesis using Cons min
    by (intro that(2)) (simp_all add: claim_sync_job_def claim_row_def [abs_def])
qed

lemma jobs_ok_claim:
  assumes "jobs_ok w" and "claim_sync_job locked w = (Some job, w')"
  shows "jobs_ok w'"
proof (cases rule: claim_sync_job_cases [of locked w])
  case none
  with assms show ?thesis by simp
next
  case (some j k)
  have "job_ok (claim_row (now w) r)" if "r \<in> set (sync_jobs w)" "j_id r = j_id j" for r
  proof -
    have "r = j" using that some(2) assms(1) by (auto simp: jobs_ok_def intro: distinct_map_inj)
    with some(2,3) assms(1) show ?thesis
      by (auto simp: jobs_ok_def job_ok_def claim_row_def claimable_def)
  qed
  then have "jobs_ok (w\<lparr>sync_jobs := update_where (\<lambda>r. j_id r = j_id j) (claim_row (now w)) (sync_jobs w)\<rparr>)"
    using assms(1) by (intro jobs_ok_update) (auto simp: claim_row_def)
  with some(1) assms(2) show ?thesis by simp
qed

lemma running_row:
  assumes "jobs_ok w" and "running i w" and "r \<in> set (sync_jobs w)" and "j_id r = i"
  shows "job_ok r \<and> j_status r = Running"
  using assms unfolding jobs_ok_def running_def by (metis distinct_map_inj)

lemma jobs_ok_complete: "jobs_ok w \<Longrightarrow> running i w \<Longrightarrow> jobs_ok (complete_sync_job i w)"
  unfolding complete_sync_job_def
  by (intro jobs_ok_update) (auto simp: job_ok_def dest: running_row)

lemma jobs_ok_fail: "jobs_ok w \<Longrightarrow> running i w \<Longrightarrow> jobs_ok (fail_sync_job i n err w)"
  unfolding fail_sync_job_def
  by (intro jobs_ok_update) (auto simp: job_ok_def dest: running_row)

lemma jobs_ok_inj: "jobs_ok w \<Longrightarrow> inj (uuid_supply w)"
  by (simp add: jobs_ok_def)

lemmas jobs_added =
  only_adds_jobs_enqueue only_adds_jobs_insert only_adds_jobs_periodic only_adds_jobs_watches
  only_adds_jobs_notification only_adds_jobs_tasks_change only_adds_jobs_resolve

lemma job_step_ok: "job_step w cs w' \<Longrightarrow> jobs_ok w \<Longrightarrow> jobs_ok w'"
proof (induction rule: job_step.induct)
  case (tick w t)
  then show ?case by (simp add: jobs_ok_def drawn_ids_def)
next
  case (revoke w u)
  then show ?case using sync_jobs_revoke revoke_supply by (metis jobs_ok_fewer)
qed (blast intro: jobs_ok_added jobs_added jobs_ok_claim jobs_ok_complete jobs_ok_fail dest: jobs_ok_inj)+

lemma job_run_ok: "job_run w0 cs w \<Longrightarrow> jobs_ok w"
  unfolding job_run_def
  by (elim conjE, erule steps_invariant) (simp add: jobs_ok_def, erule (1) job_step_ok)

section \<open>Bounded retries\<close>

text \<open>
  The contract: a step that hands a job out (its label) counts one attempt of it, a job enters with
  no attempt under an identifier that was never issued, and no job of the queue has more than
  \<open>limit\<close> attempts. Then no job is ever handed out more often, even one deleted meanwhile.
\<close>

locale attempt_queue =
  fixes step :: "'s \<Rightarrow> 'i list \<Rightarrow> 's \<Rightarrow> bool" and inv :: "'s \<Rightarrow> bool"
    and attempts :: "'s \<Rightarrow> 'i \<Rightarrow> nat option" and issued :: "'s \<Rightarrow> 'i set" and limit :: nat
  assumes step_inv: "step s cs s' \<Longrightarrow> inv s \<Longrightarrow> inv s'"
    and bounded: "inv s \<Longrightarrow> attempts s i = Some n \<Longrightarrow> n \<le> limit \<and> i \<in> issued s"
    and issued_mono: "step s cs s' \<Longrightarrow> inv s \<Longrightarrow> issued s \<subseteq> issued s'"
    and counted: "step s cs s' \<Longrightarrow> inv s \<Longrightarrow> attempts s i = Some m \<Longrightarrow> attempts s' i = Some n
      \<Longrightarrow> n = m + count_list cs i"
    and entered: "step s cs s' \<Longrightarrow> inv s \<Longrightarrow> attempts s i = None \<Longrightarrow> attempts s' i = Some n
      \<Longrightarrow> i \<notin> issued s \<and> n = 0 \<and> i \<notin> set cs"
    and live: "step s cs s' \<Longrightarrow> inv s \<Longrightarrow> i \<in> set cs \<Longrightarrow> attempts s' i \<noteq> None"
begin

lemma run_counts:
  assumes "steps step s0 cs s" and "inv s0" and "\<And>i. attempts s0 i = None"
  shows "inv s \<and> (\<forall>i n. attempts s i = Some n \<longrightarrow> n = count_list cs i)
    \<and> (\<forall>i. count_list cs i \<le> limit) \<and> set cs \<subseteq> issued s"
  using assms
proof (induction rule: steps.induct)
  case (steps_refl s)
  then show ?case by simp
next
  case (steps_step s xs t ys u)
  then have t: "inv t" "\<And>i n. attempts t i = Some n \<Longrightarrow> n = count_list xs i"
    "\<And>i. count_list xs i \<le> limit" "set xs \<subseteq> issued t" and step: "step t ys u" by auto
  have exact: "n = count_list (xs @ ys) i" if "attempts u i = Some n" for i n
  proof (cases "attempts t i")
    case None
    with entered [OF step t(1) None that] t(4) show ?thesis by (auto simp: count_list_0_iff)
  next
    case (Some m)
    with counted [OF step t(1) Some that] t(2) show ?thesis by simp
  qed
  have inv: "inv u" using step_inv [OF step t(1)] .
  have "count_list (xs @ ys) i \<le> limit" for i
  proof (cases "i \<in> set ys")
    case True
    then obtain n where "attempts u i = Some n" using live [OF step t(1)] by blast
    with exact bounded [OF inv] show ?thesis by metis
  next
    case False
    then show ?thesis using t(3) [of i] by (simp add: count_list_0_iff)
  qed
  moreover have "set ys \<subseteq> issued u" using live [OF step t(1)] bounded [OF inv] by blast
  ultimately show ?case using inv exact t(4) issued_mono [OF step t(1)] by auto
qed

end

definition attempts :: "world \<Rightarrow> uuid \<Rightarrow> nat option" where
  "attempts w i = map_option (\<lambda>j. nat (j_attempt_count j)) (row_by (\<lambda>j. j_id j = i) (sync_jobs w))"

lemma attempts_row:
  "jobs_ok w \<Longrightarrow> j \<in> set (sync_jobs w) \<Longrightarrow> attempts w (j_id j) = Some (nat (j_attempt_count j))"
  unfolding attempts_def jobs_ok_def
  by (subst row_by_key [where k = j_id and r = j]) auto

lemma attempts_Some:
  "attempts w i = Some n \<longleftrightarrow> (\<exists>j. row_by (\<lambda>j. j_id j = i) (sync_jobs w) = Some j \<and> n = nat (j_attempt_count j))"
  by (auto simp: attempts_def)

lemma attempts_None: "attempts w i = None \<longleftrightarrow> i \<notin> j_id ` set (sync_jobs w)"
  by (auto simp: attempts_def row_by_None)

text \<open>What one step does to the attempts of a job.\<close>

definition accounted :: "world \<Rightarrow> uuid list \<Rightarrow> world \<Rightarrow> bool" where
  "accounted w cs w' \<longleftrightarrow> (\<forall>i. drawn_ids w \<subseteq> drawn_ids w'
     \<and> (\<forall>n. attempts w' i = Some n \<longrightarrow>
          (case attempts w i of Some m \<Rightarrow> n = m + count_list cs i
           | None \<Rightarrow> i \<notin> drawn_ids w \<and> n = 0 \<and> i \<notin> set cs))
     \<and> (i \<in> set cs \<longrightarrow> attempts w' i \<noteq> None))"

lemma drawn_ids_mono:
  "uuid_supply w' = uuid_supply w \<Longrightarrow> drawn w \<le> drawn w' \<Longrightarrow> drawn_ids w \<subseteq> drawn_ids w'"
  unfolding drawn_ids_def by (auto intro!: image_mono)

lemma accounted_added:
  assumes "jobs_ok w" and "only_adds_jobs w w'"
  shows "accounted w [] w'"
proof -
  from assms(2) obtain js where js: "sync_jobs w' = sync_jobs w @ js"
    "list_all (fresh_job (uuid_supply w ` {drawn w..<drawn w'})) js"
    and s: "uuid_supply w' = uuid_supply w" "drawn w \<le> drawn w'"
    unfolding only_adds_jobs_def by blast
  have inj: "inj (uuid_supply w)" using assms(1) by (rule jobs_ok_inj)
  have disj: "uuid_supply w ` {drawn w..<drawn w'} \<inter> drawn_ids w = {}"
    unfolding drawn_ids_def image_Int [OF inj, symmetric] by auto
  have "case attempts w i of Some m \<Rightarrow> n = m + count_list [] i | None \<Rightarrow> i \<notin> drawn_ids w \<and> n = 0 \<and> i \<notin> set []"
    if n: "attempts w' i = Some n" for i n
  proof (cases "attempts w i")
    case None
    obtain j where j: "j \<in> set (sync_jobs w')" "j_id j = i" "n = nat (j_attempt_count j)"
      using n by (auto simp: attempts_Some dest: row_by_Some)
    with None have "j \<in> set js" unfolding attempts_None js(1) by auto
    with js(2) j disj None show ?thesis by (auto simp: list_all_iff fresh_job_def)
  next
    case (Some m)
    then obtain j where j: "j \<in> set (sync_jobs w)" "j_id j = i" by (auto simp: attempts_Some dest: row_by_Some)
    have "attempts w' i = attempts w i"
      using attempts_row [OF assms(1) j(1)] attempts_row [OF jobs_ok_added [OF assms], of j] j js(1) by simp
    with n Some show ?thesis by simp
  qed
  then show ?thesis using drawn_ids_mono [OF s] by (auto simp: accounted_def)
qed

text \<open>A change of rows in place, \<open>c\<close> the attempts it adds.\<close>

lemma attempts_update:
  assumes ok: "jobs_ok w" and ok': "jobs_ok w'"
    and jobs: "sync_jobs w' = update_where p f (sync_jobs w)"
    and ids: "\<And>j. j_id (f j) = j_id j" and i: "j \<in> set (sync_jobs w)"
  shows "attempts w' (j_id j) = Some (nat (j_attempt_count (if p j then f j else j)))"
proof -
  have "(if p j then f j else j) \<in> set (sync_jobs w')" unfolding jobs set_update_where using i by blast
  moreover have "j_id (if p j then f j else j) = j_id j" by (simp add: ids)
  ultimately show ?thesis using attempts_row [OF ok'] by metis
qed

lemma accounted_same:
  assumes "jobs_ok w" and "jobs_ok w'" and "sync_jobs w' = update_where p f (sync_jobs w)"
    and "\<And>j. j_id (f j) = j_id j" and "\<And>j. j_attempt_count (f j) = j_attempt_count j"
    and "drawn_ids w' = drawn_ids w"
  shows "accounted w [] w'"
proof -
  have "attempts w' i = attempts w i" for i
  proof (cases "i \<in> j_id ` set (sync_jobs w)")
    case True
    then obtain j where j: "j \<in> set (sync_jobs w)" "i = j_id j" by blast
    show ?thesis using attempts_update [OF assms(1-4) j(1)] attempts_row [OF assms(1) j(1)] assms(5) j(2) by simp
  next
    case False
    moreover have "j_id ` set (sync_jobs w') = j_id ` set (sync_jobs w)"
      unfolding assms(3) set_map [symmetric] by (subst map_update_where) (use assms(4) in auto)
    ultimately show ?thesis by (metis attempts_None)
  qed
  then show ?thesis using assms(6) by (auto simp: accounted_def attempts_None split: option.splits)
qed

lemma accounted_claim:
  assumes ok: "jobs_ok w" and claim: "claim_sync_job locked w = (Some job, w')"
  shows "accounted w [cj_id job] w'"
proof (cases rule: claim_sync_job_cases [of locked w])
  case none
  with claim show ?thesis by simp
next
  case (some j k)
  let ?p = "\<lambda>r. j_id r = j_id j"
  have ok': "jobs_ok w'" using jobs_ok_claim [OF assms] .
  have w': "w' = w\<lparr>sync_jobs := update_where ?p (claim_row (now w)) (sync_jobs w)\<rparr>" and id: "cj_id job = j_id j"
    using some(1,5) claim by auto
  have keep: "\<And>r. j_id (claim_row (now w) r) = j_id r" by (simp add: claim_row_def)
  have live: "attempts w' (j_id r) = Some (nat (j_attempt_count r) + count_list [j_id j] (j_id r))"
    if r: "r \<in> set (sync_jobs w)" for r
  proof -
    have "attempts w' (j_id r) = Some (nat (j_attempt_count (if ?p r then claim_row (now w) r else r)))"
      by (rule attempts_update [OF ok ok' _ keep r]) (simp add: w')
    moreover have "0 \<le> j_attempt_count r" using r ok by (simp add: jobs_ok_def job_ok_def)
    ultimately show ?thesis by (auto simp: claim_row_def nat_add_distrib)
  qed
  have same: "attempts w' i = None \<longleftrightarrow> attempts w i = None" for i
  proof -
    have "j_id ` set (sync_jobs w') = j_id ` set (sync_jobs w)"
      unfolding set_map [symmetric] w' by (simp add: keep del: set_map)
    then show ?thesis by (simp add: attempts_None)
  qed
  have counts: "attempts w' i = (case attempts w i of None \<Rightarrow> None | Some m \<Rightarrow> Some (m + count_list [j_id j] i))" for i
  proof (cases "i \<in> j_id ` set (sync_jobs w)")
    case True
    then obtain r where "r \<in> set (sync_jobs w)" "i = j_id r" by blast
    then show ?thesis using live attempts_row [OF ok] by simp
  next
    case False
    then have "attempts w i = None" by (simp add: attempts_None)
    then show ?thesis using same [of i] by simp
  qed
  have "attempts w (j_id j) \<noteq> None" using attempts_row [OF ok some(2)] by simp
  moreover have "drawn_ids w' = drawn_ids w" by (simp add: w' drawn_ids_def)
  ultimately show ?thesis unfolding accounted_def id by (auto simp: counts split: option.splits)
qed

lemma accounted_fewer:
  assumes "jobs_ok w" and "sync_jobs w' = delete_where p (sync_jobs w)" and "drawn_ids w' = drawn_ids w" and "jobs_ok w'"
  shows "accounted w [] w'"
proof -
  have "attempts w i = Some n" if "attempts w' i = Some n" for i n
  proof -
    from that obtain j where j: "j \<in> set (sync_jobs w')" "j_id j = i" by (auto simp: attempts_Some dest: row_by_Some)
    then have "j \<in> set (sync_jobs w)" using assms(2) by simp
    from attempts_row [OF assms(1) this] attempts_row [OF assms(4) j(1)] j(2) that show ?thesis by simp
  qed
  then show ?thesis using assms(3) by (auto simp: accounted_def)
qed

lemma sync_jobs_complete:
  "sync_jobs (complete_sync_job i w) = update_where (\<lambda>r. j_id r = i)
     (\<lambda>r. r\<lparr>j_status := Succeeded, j_leased_until := None, j_last_error := None,
            j_updated_at := now w\<rparr>) (sync_jobs w)"
  by (simp add: complete_sync_job_def)

lemma sync_jobs_fail:
  "sync_jobs (fail_sync_job i n err w) = update_where (\<lambda>r. j_id r = i)
     (\<lambda>r. r\<lparr>j_status := Failed, j_leased_until := None,
            j_available_at := now w + delay_seconds n * second,
            j_last_error := Some (left_chars 2000 err), j_updated_at := now w\<rparr>) (sync_jobs w)"
  by (simp add: fail_sync_job_def)

lemma job_step_accounted:
  assumes "job_step w cs w'" and ok: "jobs_ok w"
  shows "accounted w cs w'"
  using assms(1) job_step_ok [OF assms] ok
proof (induction rule: job_step.induct)
  case (tick w t)
  show ?case using tick.prems by (intro accounted_fewer [where p = "\<lambda>_. False"]) (simp_all add: delete_where_def drawn_ids_def)
next
  case (revoke w u)
  then show ?case using sync_jobs_revoke [of u w] revoke_supply [of u w]
    by (auto simp: drawn_ids_def intro!: accounted_fewer)
next
  case (complete i w)
  then show ?case
    by (intro accounted_same [where w = w, OF _ _ sync_jobs_complete]) (simp_all add: complete_sync_job_def drawn_ids_def)
next
  case (failure i w n err)
  then show ?case
    by (intro accounted_same [where w = w, OF _ _ sync_jobs_fail]) (simp_all add: fail_sync_job_def drawn_ids_def)
qed (blast intro: accounted_added jobs_added accounted_claim dest: jobs_ok_inj)+

interpretation job_queue: attempt_queue job_step jobs_ok attempts drawn_ids 8
proof unfold_locales
  show "jobs_ok w \<Longrightarrow> attempts w i = Some n \<Longrightarrow> n \<le> 8 \<and> i \<in> drawn_ids w" for w i n
    by (auto simp: attempts_Some jobs_ok_def job_ok_def dest!: row_by_Some)
qed (use job_step_ok in blast, (drule (1) job_step_accounted, force simp: accounted_def)+)

section \<open>Properties\<close>

lemma row_by_finish:
  "row_by (\<lambda>r. j_id r = i) (sync_jobs (complete_sync_job i w)) =
     map_option (\<lambda>r. r\<lparr>j_status := Succeeded, j_leased_until := None, j_last_error := None,
        j_updated_at := now w\<rparr>) (row_by (\<lambda>r. j_id r = i) (sync_jobs w))"
  "row_by (\<lambda>r. j_id r = i) (sync_jobs (fail_sync_job i n err w)) =
     map_option (\<lambda>r. r\<lparr>j_status := Failed, j_leased_until := None,
        j_available_at := now w + delay_seconds n * second,
        j_last_error := Some (left_chars 2000 err), j_updated_at := now w\<rparr>)
       (row_by (\<lambda>r. j_id r = i) (sync_jobs w))"
  unfolding sync_jobs_complete sync_jobs_fail by (subst row_by_update_same; simp)+

lemma record_activity_rows [simp]:
  "sync_jobs (record_activity u k msg w) = sync_jobs w"
  "activity (record_activity u k msg w) =
     activity w @ [\<lparr>ae_kind = k, ae_message = msg, ae_created_at = now w, ae_user_id = u\<rparr>]"
  by (simp_all add: record_activity_def new_uuid_def)

lemma finish_activity [simp]:
  "activity (complete_sync_job i w) = activity w" "activity (fail_sync_job i n err w) = activity w"
  "now (complete_sync_job i w) = now w" "now (fail_sync_job i n err w) = now w"
  by (simp_all add: complete_sync_job_def fail_sync_job_def)

text \<open>The back-off doubles with every attempt; the cap of 300 seconds is never reached.\<close>

lemma delay_seconds_power:
  assumes "1 \<le> n" "n \<le> 8"
  shows "delay_seconds n = 2 ^ nat n"
proof -
  have "(2 :: int) ^ nat n \<le> 2 ^ 8" using assms by (intro power_increasing) auto
  with assms show ?thesis by (simp add: delay_seconds_def clamp_def)
qed

lemma cleanup_jobs [simp]: "sync_jobs (snd (cleanup_task_delete_undos t w)) = sync_jobs w"
  "now (snd (cleanup_task_delete_undos t w)) = now w"
  by (simp_all add: cleanup_task_delete_undos_def Let_def)

lemma jobs_ok_cleanup: "jobs_ok w \<Longrightarrow> jobs_ok (snd (cleanup_task_delete_undos t w))"
  by (simp add: jobs_ok_def drawn_ids_def cleanup_task_delete_undos_def Let_def)

lemma claimed_row:
  assumes "jobs_ok w" and "claim_sync_job locked w = (Some job, w')"
  shows "\<exists>j. row_by (\<lambda>r. j_id r = cj_id job) (sync_jobs w') = Some j \<and> j_status j = Running
    \<and> j_attempt_count j = cj_attempt_count job + 1 \<and> 1 \<le> j_attempt_count j \<and> j_attempt_count j \<le> 8"
proof (cases rule: claim_sync_job_cases [of locked w])
  case none
  with assms show ?thesis by simp
next
  case (some j k)
  have "row_by (\<lambda>r. j_id r = j_id j) (sync_jobs w) = Some j"
    using assms(1) some(2) by (intro row_by_key [where k = j_id]) (auto simp: jobs_ok_def)
  then have "row_by (\<lambda>r. j_id r = j_id j) (sync_jobs w') = Some (claim_row (now w) j)"
    using assms(2) some(1) by (auto simp: row_by_update_same claim_row_def)
  moreover have "0 \<le> j_attempt_count j" "j_attempt_count j < 8"
    using some(2,3) assms(1) by (auto simp: jobs_ok_def job_ok_def claimable_def)
  ultimately show ?thesis using assms(2) some(1,5) by (auto simp: claim_row_def)
qed

text \<open>
  C6. In every run of the queue, whatever the order of enqueueing, edits, notifications, claims,
  completions, failures and disconnections: the rows stay well formed (\<open>jobs_ok\<close>: distinct
  identifiers, a pending job has no attempt, a running one has a lease), the attempt counter of a
  job is the number of times it was handed to a worker, and no job is ever handed out more than
  eight times, deleted jobs included.
\<close>

theorem jobs_claimed_at_most_eight_times:
  assumes "job_run w0 cs w"
  shows "jobs_ok w
    \<and> (\<forall>j \<in> set (sync_jobs w). j_attempt_count j = int (count_list cs (j_id j)))
    \<and> (\<forall>i. count_list cs i \<le> 8)"
proof -
  have run: "steps job_step w0 cs w" "jobs_ok w0" "\<And>i. attempts w0 i = None"
    using assms by (auto simp: job_run_def jobs_ok_def attempts_None)
  note counts = job_queue.run_counts [OF run]
  have "j_attempt_count j = int (count_list cs (j_id j))" if "j \<in> set (sync_jobs w)" for j
  proof -
    have "0 \<le> j_attempt_count j" using counts that by (simp add: jobs_ok_def job_ok_def)
    moreover have "nat (j_attempt_count j) = count_list cs (j_id j)"
      using counts attempts_row [OF _ that] by blast
    ultimately show ?thesis by simp
  qed
  with counts show ?thesis by blast
qed

definition job_example :: world where
  "job_example = snd (claim_sync_job [] (insert_job 7 None ''tasks_sync'' ''k'' empty_world))"

lemma job_example_claim:
  "claim_sync_job [] (insert_job 7 None ''tasks_sync'' ''k'' empty_world) =
     (Some \<lparr>cj_id = 0, cj_user_id = 7, cj_calendar_id = None, cj_kind = ''tasks_sync'', cj_attempt_count = 0\<rparr>,
      job_example)"
  by (simp add: job_example_def claim_sync_job_def insert_job_def new_uuid_def new_job_def empty_world_def
      claimable_def Let_def)

lemma job_example_run: "job_run empty_world [0] job_example"
proof -
  have "steps job_step empty_world [] (insert_job 7 None ''tasks_sync'' ''k'' empty_world)"
    by (rule steps_one) (rule job_step.insert)
  then have "steps job_step empty_world ([] @ [0]) job_example"
    by (rule steps_step) (use job_step.claim [OF job_example_claim] in simp)
  then show ?thesis by (simp add: job_run_def) (simp add: empty_world_def)
qed

theorem jobs_claimed_at_most_eight_times_witness:
  "job_run empty_world [0] job_example
   \<and> (\<exists>j. j \<in> set (sync_jobs job_example) \<and> j_id j = 0 \<and> j_attempt_count j = 1)"
proof -
  have "\<exists>j. sync_jobs job_example = [j] \<and> j_id j = 0"
    by (simp add: job_example_def claim_sync_job_def insert_job_def new_uuid_def new_job_def empty_world_def
        claimable_def update_where_def Let_def)
  then obtain j where j: "j \<in> set (sync_jobs job_example)" "j_id j = 0" by auto
  have "j_attempt_count j = 1"
    using jobs_claimed_at_most_eight_times [OF job_example_run] j by auto
  with j job_example_run show ?thesis by blast
qed

text \<open>
  \<open>claim_sync_job\<close> returns nothing exactly when no job can be claimed, and then changes
  nothing. Otherwise it takes a claimable job with the least \<open>(available_at, created_at)\<close>, puts
  that row (and no other) into \<open>Running\<close> with one more attempt and a lease of 120 seconds, and no
  later claim, at any time and by any worker, returns the job while its row stays as it is.
\<close>

theorem claim_takes_the_first_job_once:
  assumes "jobs_ok w"
  shows "case claim_sync_job locked w of
      (None, w') \<Rightarrow> w' = w \<and> (\<forall>j \<in> set (sync_jobs w). \<not> claimable locked (now w) j)
    | (Some job, w') \<Rightarrow> (\<exists>j \<in> set (sync_jobs w). claimable locked (now w) j \<and> j_id j = cj_id job
        \<and> (\<forall>k \<in> set (sync_jobs w). claimable locked (now w) k
              \<longrightarrow> (j_available_at j, j_created_at j) \<le> (j_available_at k, j_created_at k))
        \<and> (\<forall>i. row_by (\<lambda>r. j_id r = i) (sync_jobs w') =
              (if i = j_id j
               then Some (j\<lparr>j_status := Running, j_attempt_count := j_attempt_count j + 1,
                            j_leased_until := Some (now w + 120 * second), j_updated_at := now w\<rparr>)
               else row_by (\<lambda>r. j_id r = i) (sync_jobs w)))
        \<and> (\<forall>locked' t. map_option cj_id (fst (claim_sync_job locked' (w'\<lparr>now := t\<rparr>))) \<noteq> Some (cj_id job)))"
proof (cases rule: claim_sync_job_cases [of locked w])
  case none
  then show ?thesis by simp
next
  case (some j job)
  let ?w' = "w\<lparr>sync_jobs := update_where (\<lambda>r. j_id r = j_id j) (claim_row (now w)) (sync_jobs w)\<rparr>"
  have ids: "distinct (map j_id (sync_jobs w))" using assms by (simp add: jobs_ok_def)
  have rows: "row_by (\<lambda>r. j_id r = i) (sync_jobs ?w') =
      (if i = j_id j then Some (claim_row (now w) j) else row_by (\<lambda>r. j_id r = i) (sync_jobs w))" for i
    using row_by_update_key [OF ids some(2), of "claim_row (now w)" i] by (simp add: claim_row_def)
  have "map_option cj_id (fst (claim_sync_job locked' (?w'\<lparr>now := t\<rparr>))) \<noteq> Some (j_id j)" for locked' t
  proof (cases rule: claim_sync_job_cases [of locked' "?w'\<lparr>now := t\<rparr>"])
    case none
    then show ?thesis by simp
  next
    case (some k job')
    from some(2) obtain r where "k = (if j_id r = j_id j then claim_row (now w) r else r)"
      by (auto simp: set_update_where)
    moreover have "j_status k \<noteq> Running" using some(3) by (auto simp: claimable_def)
    ultimately have "j_id k \<noteq> j_id j" by (cases "j_id r = j_id j") (simp_all add: claim_row_def)
    then show ?thesis using some(1,5) by simp
  qed
  with some rows show ?thesis by (auto simp: claim_row_def)
qed

theorem claim_takes_the_first_job_once_witness:
  "jobs_ok (insert_job 7 None ''tasks_sync'' ''k'' empty_world)
   \<and> (\<forall>t. map_option cj_id (fst (claim_sync_job [] (job_example\<lparr>now := t\<rparr>))) \<noteq> Some 0)"
proof -
  let ?w = "insert_job 7 None ''tasks_sync'' ''k'' empty_world"
  have ok: "jobs_ok ?w"
    by (rule jobs_ok_added [OF _ only_adds_jobs_insert]) (simp add: jobs_ok_def empty_world_def)
  show ?thesis using claim_takes_the_first_job_once [OF ok, of "[]"] ok
    unfolding job_example_claim by auto
qed

text \<open>
  C7. \<open>run_once\<close> settles the job it claimed. When the provider work succeeds the row is
  \<open>Succeeded\<close>; when it fails at the n-th attempt the row is \<open>Failed\<close>, free of its lease, and
  available again exactly \<open>2 ^ n\<close> seconds later. One activity entry is added, and it announces a retry
  exactly when the queue will hand the job out again. The provider work is assumed to leave the row
  of the job it serves alone.
\<close>

theorem run_once_settles_the_job:
  assumes ok: "jobs_ok w"
    and claim: "claim_sync_job locked (snd (cleanup_task_delete_undos clock w)) = (Some job, w1)"
    and exec: "execute job w1 = (r, w2)"
    and kept: "row_by (\<lambda>j. j_id j = cj_id job) (sync_jobs w2) = row_by (\<lambda>j. j_id j = cj_id job) (sync_jobs w1)"
  shows "\<exists>w3 j a. run_once execute clock locked w = (True, w3)
    \<and> row_by (\<lambda>j. j_id j = cj_id job) (sync_jobs w3) = Some j
    \<and> activity w3 = activity w2 @ [a]
    \<and> j_leased_until j = None \<and> j_attempt_count j = cj_attempt_count job + 1
    \<and> (case r of
         Inr _ \<Rightarrow> j_status j = Succeeded \<and> j_last_error j = None
           \<and> ae_message a = ''Calendar synchronization completed''
       | Inl err \<Rightarrow> j_status j = Failed
           \<and> j_available_at j = now w2 + 2 ^ nat (j_attempt_count j) * second
           \<and> ae_message a = (if \<exists>t. claimable [] t j
                then ''Calendar synchronization failed and will be retried''
                else ''Calendar synchronization failed after the final attempt''))"
proof -
  obtain j1 where j1: "row_by (\<lambda>r. j_id r = cj_id job) (sync_jobs w1) = Some j1" "j_status j1 = Running"
    and n: "j_attempt_count j1 = cj_attempt_count job + 1" "1 \<le> j_attempt_count j1" "j_attempt_count j1 \<le> 8"
    using claimed_row [OF jobs_ok_cleanup [OF ok] claim] by blast
  have run: "run_once execute clock locked w =
      (case r of
         Inr _ \<Rightarrow> (True, record_activity (cj_user_id job) ''synchronization_succeeded''
            ''Calendar synchronization completed'' (complete_sync_job (cj_id job) w2))
       | Inl err \<Rightarrow> (True, record_activity (cj_user_id job) ''synchronization_failed''
            (if cj_attempt_count job + 1 < 8 then ''Calendar synchronization failed and will be retried''
             else ''Calendar synchronization failed after the final attempt'')
            (fail_sync_job (cj_id job) (cj_attempt_count job + 1) err w2)))"
    using claim exec j1 by (simp add: run_once_def split_beta split: sum.split)
  show ?thesis
  proof (cases r)
    case (Inr u)
    then show ?thesis using run kept j1 n by (simp add: row_by_finish)
  next
    case (Inl err)
    let ?j = "j1\<lparr>j_status := Failed, j_leased_until := None,
        j_available_at := now w2 + delay_seconds (j_attempt_count j1) * second,
        j_last_error := Some (left_chars 2000 err), j_updated_at := now w2\<rparr>"
    have "(\<exists>t. claimable [] t ?j) \<longleftrightarrow> j_attempt_count j1 < 8"
      by (auto simp: claimable_def)
    with Inl run kept j1 n show ?thesis by (simp add: row_by_finish delay_seconds_power)
  qed
qed

theorem run_once_settles_the_job_witness:
  "\<exists>w3 j. run_once (\<lambda>_ w. (Inl ''offline'', w)) 0 [] (insert_job 7 None ''tasks_sync'' ''k'' empty_world) = (True, w3)
    \<and> row_by (\<lambda>j. j_id j = 0) (sync_jobs w3) = Some j \<and> j_status j = Failed \<and> j_available_at j = 2 * second"
proof -
  let ?w = "insert_job 7 None ''tasks_sync'' ''k'' empty_world"
  have ok: "jobs_ok ?w"
    by (rule jobs_ok_added [OF _ only_adds_jobs_insert]) (simp add: jobs_ok_def empty_world_def)
  have "snd (cleanup_task_delete_undos 0 ?w) = ?w"
    by (simp add: cleanup_task_delete_undos_def insert_job_def new_uuid_def empty_world_def delete_where_def)
  with job_example_claim have claim: "claim_sync_job [] (snd (cleanup_task_delete_undos 0 ?w)) =
     (Some \<lparr>cj_id = 0, cj_user_id = 7, cj_calendar_id = None, cj_kind = ''tasks_sync'', cj_attempt_count = 0\<rparr>,
      job_example)" by simp
  have "now job_example = 0"
    by (simp add: job_example_def claim_sync_job_def empty_world_def split: list.split)
  then show ?thesis
    using run_once_settles_the_job [where execute = "\<lambda>_ w. (Inl ''offline'', w)", OF ok claim refl refl]
    by auto
qed

lemma job_by_key_append:
  "job_by_key u k w = None \<Longrightarrow> sync_jobs w' = sync_jobs w @ [j]
   \<Longrightarrow> j_user_id j = u \<Longrightarrow> j_idempotency_key j = k \<Longrightarrow> job_by_key u k w' = Some j"
  unfolding job_by_key_def by (simp add: row_by_append) (simp add: row_by_def)

text \<open>
  \<open>enqueue_sync\<close> is idempotent in the trimmed key: the first call adds one job when the key
  is new and none otherwise, and a repeated call, whatever its kind and calendar, returns the same
  synchronization and adds nothing.
\<close>

theorem enqueue_is_idempotent:
  assumes first: "enqueue_sync u c k key w = Inr (s, w1)"
    and key: "trim key' = trim key" "chars_count key' \<le> 200"
    and owned: "case c' of None \<Rightarrow> True | Some i \<Rightarrow> owns_calendar u i w"
  shows "sync_jobs w1 = sync_jobs w
      @ (if job_by_key u (trim key) w = None
         then [new_job u c k (trim key) (uuid_supply w (drawn w)) (now w)] else [])
    \<and> (\<exists>w2. enqueue_sync u c' k' key' w1 = Inr (s, w2) \<and> sync_jobs w2 = sync_jobs w1)"
proof -
  have ne: "trim key' \<noteq> []" using first key by (auto simp: enqueue_sync_def)
  obtain j where j: "job_by_key u (trim key) w1 = Some j" "s = synchronization_of j"
    and jobs: "sync_jobs w1 = sync_jobs w
      @ (if job_by_key u (trim key) w = None
         then [new_job u c k (trim key) (uuid_supply w (drawn w)) (now w)] else [])"
    and cal: "calendars w1 = calendars w"
  proof (cases "job_by_key u (trim key) w")
    case None
    let ?j = "new_job u c k (trim key) (uuid_supply w (drawn w)) (now w)"
    from None first have "s = synchronization_of ?j" "sync_jobs w1 = sync_jobs w @ [?j]" "calendars w1 = calendars w"
      by (auto simp: enqueue_sync_def new_uuid_def Let_def)
    with None show ?thesis by (intro that [of ?j] job_by_key_append [where w = w]) (simp_all add: new_job_def)
  next
    case (Some j)
    with first have "s = synchronization_of j" "sync_jobs w1 = sync_jobs w" "calendars w1 = calendars w"
      by (auto simp: enqueue_sync_def new_uuid_def)
    with Some show ?thesis by (intro that [of j]) (simp_all add: job_by_key_def)
  qed
  have "case c' of None \<Rightarrow> True | Some i \<Rightarrow> owns_calendar u i w1"
    using owned cal by (simp add: owns_calendar_def split: option.splits)
  then have "enqueue_sync u c' k' key' w1 = Inr (s, snd (new_uuid w1))"
    using ne key j by (simp add: enqueue_sync_def)
  with jobs show ?thesis by simp
qed

theorem enqueue_is_idempotent_witness:
  "\<exists>s w1 w2. enqueue_sync 7 None ''calendar_sync'' ''a'' empty_world = Inr (s, w1)
     \<and> enqueue_sync 7 None ''tasks_sync'' ''a'' w1 = Inr (s, w2) \<and> length (sync_jobs w2) = 1"
proof -
  have t: "trim ''a'' = ''a''" "chars_count ''a'' \<le> 200"
    by (simp_all add: trim_visible visible_def chars_count_def)
  obtain s w1 where e: "enqueue_sync 7 None ''calendar_sync'' ''a'' empty_world = Inr (s, w1)"
    by (simp add: enqueue_sync_def t job_by_key_def row_by_def empty_world_def new_uuid_def Let_def)
  show ?thesis
  proof -
    have "job_by_key 7 ''a'' empty_world = None" "sync_jobs empty_world = []"
      by (simp_all add: job_by_key_def row_by_def empty_world_def)
    with enqueue_is_idempotent [OF e, of "''a''" None "''tasks_sync''"] t
    have "length (sync_jobs w1) = 1"
      "\<exists>w2. enqueue_sync 7 None ''tasks_sync'' ''a'' w1 = Inr (s, w2) \<and> sync_jobs w2 = sync_jobs w1"
      by auto
    with e show ?thesis by metis
  qed
qed

lemma resolve_prepare:
  "(case held of None \<Rightarrow> Inr w
    | Some m \<Rightarrow> bind_res (require (r = ''google'') e1) (\<lambda>_. bind_res (require avail e2) (\<lambda>_.
        bind_res (require (m_user_id m = u) e3) (\<lambda>_. Inr (release_held u m w))))) = Inr w1
   \<Longrightarrow> (case held of None \<Rightarrow> w1 = w | Some m \<Rightarrow> r = ''google'' \<and> avail \<and> w1 = release_held u m w)"
  by (auto split: option.splits)

lemma resolve_cases:
  assumes "resolve_sync_conflict avail u k r w = Inr (s, w')"
  obtains c m1 w1 where
    "row_by (\<lambda>c. k_id c = k \<and> k_user_id c = u \<and> k_status c = ''unresolved'') (conflicts w) = Some c"
    "row_by (\<lambda>m. m_id m = k_mapping_id c) (mappings w1) = Some m1"
    "r \<in> {''google'', ''prosepect'', ''latest''}"
    "case held_mapping u k w of None \<Rightarrow> w1 = w
     | Some m \<Rightarrow> r = ''google'' \<and> avail \<and> w1 = release_held u m w"
    "sc_status s = ''resolved'' \<and> sc_resolution s = Some r"
    "w' = insert_job u (Some (m_calendar_id m1)) ''calendar_sync''
        (''conflict-resolution:'' @ show_uuid k @ '':'' @ r)
        (w1\<lparr>conflicts := update_where (\<lambda>c. k_id c = k \<and> k_user_id c = u \<and> k_status c = ''unresolved'')
              (\<lambda>_. c\<lparr>k_status := ''resolved'', k_resolution := Some r, k_resolved_at := Some (now w1)\<rparr>) (conflicts w1),
            mappings := update_where (\<lambda>m. m_id m = k_mapping_id c) (settle_mapping r) (mappings w1)\<rparr>)"
proof -
  define w0 where "w0 = w"
  from assms obtain w1 where
    w1: "r \<in> {''google'', ''prosepect'', ''latest''}"
    "case held_mapping u k w of None \<Rightarrow> w1 = w
     | Some m \<Rightarrow> r = ''google'' \<and> avail \<and> w1 = release_held u m w"
    and rest: "bind_res (ok_or (row_by (\<lambda>c. k_id c = k \<and> k_user_id c = u \<and> k_status c = ''unresolved'') (conflicts w1))
          (NotFound ''sync conflict'')) (\<lambda>c.
        let c' = c\<lparr>k_status := ''resolved'', k_resolution := Some r, k_resolved_at := Some (now w1)\<rparr>;
            w = w1\<lparr>conflicts := update_where (\<lambda>c. k_id c = k \<and> k_user_id c = u \<and> k_status c = ''unresolved'')
                  (\<lambda>_. c') (conflicts w1)\<rparr>
        in bind_res (ok_or (row_by (\<lambda>m. m_id m = k_mapping_id c) (mappings w))
             (Database (OtherSqlxError ''RowNotFound''))) (\<lambda>m.
           Inr (sync_conflict_of (held_mapping u k w0 \<noteq> None) c',
                insert_job u (Some (m_calendar_id m)) ''calendar_sync''
                  (''conflict-resolution:'' @ show_uuid k @ '':'' @ r)
                  (w\<lparr>mappings := update_where (\<lambda>m. m_id m = k_mapping_id c) (settle_mapping r) (mappings w)\<rparr>))))
      = Inr (s, w')"
    unfolding resolve_sync_conflict_def Let_def bind_res_eq_Inr require_eq_Inr w0_def
    by (blast dest: resolve_prepare)
  have "conflicts w1 = conflicts w" using w1(2) by (auto simp: release_held_def split: option.splits)
  with rest w1 show ?thesis
    by (auto simp: Let_def sync_conflict_of_def simp del: append.simps intro: that)
qed

lemma insert_job_key:
  "\<exists>j \<in> set (sync_jobs (insert_job u c kind key w)). j_user_id j = u \<and> j_idempotency_key j = key"
  by (auto simp: insert_job_def new_uuid_def new_job_def)

lemma resolve_not_found:
  assumes "r \<in> {''google'', ''prosepect'', ''latest''}"
    and "\<forall>c \<in> set (conflicts w). \<not> (k_id c = k \<and> k_user_id c = u \<and> k_status c = ''unresolved'')"
  shows "resolve_sync_conflict avail u k r w = Inl (NotFound ''sync conflict'')"
proof -
  have "held_mapping u k w = None"
    and "row_by (\<lambda>c. k_id c = k \<and> k_user_id c = u \<and> k_status c = ''unresolved'') (conflicts w) = None"
    using assms(2) by (auto simp: held_mapping_def row_by_None)
  then show ?thesis using assms(1) by (simp add: resolve_sync_conflict_def Let_def)
qed

text \<open>
  A conflict that \<open>resolve_sync_conflict\<close> accepts is closed for good: the conflict row was an
  open one of the user, its mapping leaves the conflict state and records the choice, the
  next synchronization pushes the local version exactly when the choice is not Google's, a job is
  queued, and a second resolution is refused as not found. The mapping of a
  task deleted with undo accepts Google's version only; it stops being held and the undo is discarded.
\<close>

theorem resolution_closes_the_conflict:
  assumes res: "resolve_sync_conflict avail u k r w = Inr (s, w')"
    and mids: "distinct (map m_id (mappings w))" and kids: "distinct (map k_id (conflicts w))"
  shows "\<exists>c \<in> set (conflicts w). \<exists>m \<in> set (mappings w). \<exists>m'.
      k_id c = k \<and> k_user_id c = u \<and> k_status c = ''unresolved'' \<and> k_mapping_id c = m_id m
    \<and> sc_status s = ''resolved'' \<and> sc_resolution s = Some r
    \<and> row_by (\<lambda>x. m_id x = m_id m) (mappings w') = Some m'
    \<and> m_conflict_state m' = ''none'' \<and> m_pending_resolution m' = Some r
    \<and> m_local_dirty m' = (r \<noteq> ''google'')
    \<and> (\<exists>j \<in> set (sync_jobs w'). j_user_id j = u
         \<and> j_idempotency_key j = ''conflict-resolution:'' @ show_uuid k @ '':'' @ r)
    \<and> resolve_sync_conflict avail' u k r w' = Inl (NotFound ''sync conflict'')
    \<and> (m_reversible_tombstone m \<longrightarrow> r = ''google'' \<and> avail \<and> \<not> m_reversible_tombstone m'
         \<and> m_deletion_hold_until m' = None
         \<and> (\<forall>d \<in> set (delete_undos w'). du_user_id d = u
               \<longrightarrow> map_option m_id (sn_mapping (du_snapshot d)) \<noteq> Some (m_id m)))"
proof (rule resolve_cases [OF res])
  fix c m1 w1
  let ?open = "\<lambda>c. k_id c = k \<and> k_user_id c = u \<and> k_status c = ''unresolved''"
  assume c: "row_by ?open (conflicts w) = Some c"
    and m1: "row_by (\<lambda>m. m_id m = k_mapping_id c) (mappings w1) = Some m1"
    and r: "r \<in> {''google'', ''prosepect'', ''latest''}"
    and held: "case held_mapping u k w of None \<Rightarrow> w1 = w
       | Some m \<Rightarrow> r = ''google'' \<and> avail \<and> w1 = release_held u m w"
    and s: "sc_status s = ''resolved'' \<and> sc_resolution s = Some r"
    and w': "w' = insert_job u (Some (m_calendar_id m1)) ''calendar_sync''
        (''conflict-resolution:'' @ show_uuid k @ '':'' @ r)
        (w1\<lparr>conflicts := update_where ?open
              (\<lambda>_. c\<lparr>k_status := ''resolved'', k_resolution := Some r, k_resolved_at := Some (now w1)\<rparr>) (conflicts w1),
            mappings := update_where (\<lambda>m. m_id m = k_mapping_id c) (settle_mapping r) (mappings w1)\<rparr>)"
  have c_in: "c \<in> set (conflicts w)" "?open c" using row_by_Some [OF c] by auto
  have m': "row_by (\<lambda>x. m_id x = k_mapping_id c) (mappings w') = Some (settle_mapping r m1)"
    using m1 by (simp add: w' row_by_update_same settle_mapping_def)
  have again: "resolve_sync_conflict avail' u k r w' = Inl (NotFound ''sync conflict'')"
    using r by (rule resolve_not_found) (auto simp: w' set_update_where)
  have job: "\<exists>j \<in> set (sync_jobs w'). j_user_id j = u
      \<and> j_idempotency_key j = ''conflict-resolution:'' @ show_uuid k @ '':'' @ r"
    unfolding w' by (rule insert_job_key)
  show ?thesis
  proof (cases "held_mapping u k w")
    case None
    then have w1: "w1 = w" using held by simp
    then have m: "m1 \<in> set (mappings w)" "m_id m1 = k_mapping_id c" using row_by_Some [OF m1] by auto
    moreover have "\<not> m_reversible_tombstone m1"
      using None c_in m(1) m(2) [symmetric] unfolding held_mapping_def row_by_None by blast
    ultimately show ?thesis
      using c_in s m' again job by (intro bexI [OF _ c_in(1)] bexI [OF _ m(1)]) (auto simp: settle_mapping_def)
  next
    case (Some m)
    then have held': "r = ''google''" avail and w1: "w1 = release_held u m w" using held by auto
    from Some obtain c2 where m: "m \<in> set (mappings w)" "c2 \<in> set (conflicts w)" "?open c2" "k_mapping_id c2 = m_id m"
      unfolding held_mapping_def by (auto dest!: row_by_Some)
    have "c2 = c" using kids m c_in by (auto intro: distinct_map_inj)
    with m have mc: "m_id m = k_mapping_id c" by simp
    have "row_by (\<lambda>x. m_id x = k_mapping_id c) (mappings w) = Some m"
      using mids m(1) mc by (intro row_by_key [where k = m_id]) auto
    then have "m1 = m\<lparr>m_reversible_tombstone := False, m_deletion_hold_until := None, m_delete_resolution_pending := True\<rparr>"
      using m1 mc by (simp add: w1 release_held_def row_by_update_same)
    moreover have "\<forall>d \<in> set (delete_undos w'). du_user_id d = u
        \<longrightarrow> map_option m_id (sn_mapping (du_snapshot d)) \<noteq> Some (m_id m)"
      by (simp add: w' w1 release_held_def)
    ultimately show ?thesis
      using c_in s m' again job held' mc
      by (intro bexI [OF _ c_in(1)] bexI [OF _ m(1)]) (auto simp: settle_mapping_def)
  qed
qed

definition conflict_example :: world where
  "conflict_example = empty_world\<lparr>
     mappings := [\<lparr>m_id = 5, m_user_id = 7, m_calendar_id = 3, m_canonical_event_id = None,
       m_external_calendar_id = ''cal'', m_external_event_id = ''ev'', m_external_etag = Some ''e'',
       m_base_fingerprint = None, m_local_dirty = False, m_local_deleted = True,
       m_conflict_state = ''conflicted'', m_pending_resolution = None, m_last_synced_at = None,
       m_deletion_hold_until = Some 10, m_reversible_tombstone = True, m_delete_resolution_pending = False\<rparr>],
     conflicts := [\<lparr>k_id = 9, k_user_id = 7, k_mapping_id = 5, k_canonical_event_id = None,
       k_title = ''t'', k_status = ''unresolved'', k_resolution = None, k_created_at = 0,
       k_resolved_at = None\<rparr>]\<rparr>"

theorem resolution_closes_the_conflict_witness:
  "\<exists>s w'. resolve_sync_conflict True 7 9 ''google'' conflict_example = Inr (s, w')
    \<and> resolve_sync_conflict True 7 9 ''google'' w' = Inl (NotFound ''sync conflict'')"
proof -
  obtain s w' where e: "resolve_sync_conflict True 7 9 ''google'' conflict_example = Inr (s, w')"
    by (simp add: resolve_sync_conflict_def held_mapping_def release_held_def conflict_example_def
        empty_world_def row_by_def update_where_def Let_def)
  show ?thesis
    using resolution_closes_the_conflict [OF e, of True] e
    by (simp add: conflict_example_def) metis
qed

end
