(* ===== verification/CalendarStore.thy ===== *)
theory CalendarStore
  imports SyncStore
begin

text \<open>
  \<open>calendar_store.rs\<close>: calendars, events, and the time-block event of a scheduled task with its
  bookkeeping for Google Calendar (the mapping row and the synchronization job).
\<close>

section \<open>Validation\<close>

definition is_ascii_hexdigit :: "char \<Rightarrow> bool" where
  "is_ascii_hexdigit c \<longleftrightarrow> (let n = (of_char c :: nat) in
     48 \<le> n \<and> n \<le> 57 \<or> 65 \<le> n \<and> n \<le> 70 \<or> 97 \<le> n \<and> n \<le> 102)"

definition validate_calendar_fields :: "string \<Rightarrow> string \<Rightarrow> unit app_result" where
  "validate_calendar_fields name color =
     bind_res (require (trim name \<noteq> [] \<and> chars_count (trim name) \<le> 120)
       (Validation ''calendar name must contain between 1 and 120 characters'')) (\<lambda>_.
     require (length color = 7 \<and> starts_with color ''#'' \<and> list_all is_ascii_hexdigit (drop 1 color))
       (Validation ''calendar color must be a six-digit hexadecimal color''))"

definition validate_event_request ::
  "string \<Rightarrow> string \<Rightarrow> timestamp \<Rightarrow> timestamp \<Rightarrow> string \<Rightarrow> string \<Rightarrow> string list \<Rightarrow> event_recurrence
   \<Rightarrow> timestamp option \<Rightarrow> unit app_result" where
  "validate_event_request title description starts_at ends_at timezone location attendees recurrence until =
     bind_res (require (trim title \<noteq> [] \<and> chars_count (trim title) \<le> 240)
       (Validation ''event title must contain between 1 and 240 characters'')) (\<lambda>_.
     bind_res (require (chars_count description \<le> 10000 \<and> chars_count location \<le> 500)
       (Validation ''event description or location is too long'')) (\<lambda>_.
     bind_res (require (starts_at < ends_at)
       (Validation ''event end must be after its start'')) (\<lambda>_.
     bind_res (require (trim timezone \<noteq> [] \<and> chars_count timezone \<le> 64)
       (Validation ''event timezone is invalid'')) (\<lambda>_.
     bind_res (require (length attendees \<le> 100)
       (Validation ''an event cannot have more than 100 attendees'')) (\<lambda>_.
     case (recurrence, until) of
       (EvNone, Some _) \<Rightarrow> Inl (Validation ''recurrence_until requires a recurring event'')
     | (_, Some t) \<Rightarrow> require (starts_at < t) (Validation ''recurrence_until must be after the event start'')
     | _ \<Rightarrow> Inr ())))))"

text \<open>The loop of \<open>normalize_attendees\<close>; the set \<open>seen\<close> holds the elements of \<open>normalized\<close>.\<close>

fun normalize_attendees_loop :: "(string \<Rightarrow> string) \<Rightarrow> string list \<Rightarrow> string list \<Rightarrow> string list app_result" where
  "normalize_attendees_loop lc [] normalized = Inr normalized"
| "normalize_attendees_loop lc (a # as) normalized =
     (let attendee = lc (trim a) in
      if attendee = [] then normalize_attendees_loop lc as normalized
      else bind_res (require (length attendee \<le> 254 \<and> CHR ''@'' \<in> set attendee)
             (Validation ''event attendees must be valid email addresses'')) (\<lambda>_.
           normalize_attendees_loop lc as
             (if attendee \<in> set normalized then normalized else normalized @ [attendee])))"

definition normalize_attendees :: "platform \<Rightarrow> string list \<Rightarrow> string list app_result" where
  "normalize_attendees pf attendees = normalize_attendees_loop (to_lowercase pf) attendees []"

section \<open>Calendars\<close>

definition new_calendar :: "uuid \<Rightarrow> uuid \<Rightarrow> string \<Rightarrow> string \<Rightarrow> bool \<Rightarrow> timestamp \<Rightarrow> calendar_row" where
  "new_calendar i user name color is_default t =
     \<lparr>c_id = i, c_name = name, c_color = color, c_source = Native, c_external_id = None,
      c_selected = True, c_is_default = is_default, c_created_at = t, c_updated_at = t, c_version = 1,
      c_user_id = user, c_sync_token = None, c_last_synced_at = None, c_last_sync_error = None,
      c_provider_primary = False, c_access_role = ''reader''\<rparr>"

definition ensure_default_calendar :: "uuid \<Rightarrow> world \<Rightarrow> uuid \<times> world" where
  "ensure_default_calendar user w =
     (case row_by (\<lambda>c. c_user_id c = user \<and> c_is_default c) (calendars w) of
        Some c \<Rightarrow> (c_id c, w)
      | None \<Rightarrow>
          (let (i, w) = new_uuid w
           in (i, insert_calendar (new_calendar i user ''My calendar'' ''#64748b'' True (now w)) w)))"

definition list_calendars :: "platform \<Rightarrow> uuid \<Rightarrow> world \<Rightarrow> calendar list \<times> world" where
  "list_calendars pf user w =
     (let (_, w) = ensure_default_calendar user w
      in (map calendar.truncate
            (sort_key (\<lambda>c. (\<not> c_is_default c, collation_key pf (c_name c), c_id c))
               (filter (\<lambda>c. c_user_id c = user) (calendars w))), w))"

definition create_calendar ::
  "platform \<Rightarrow> uuid \<Rightarrow> create_calendar_request \<Rightarrow> world \<Rightarrow> calendar store_result" where
  "create_calendar pf user req w =
     bind_res (validate_calendar_fields (cc_name req) (cc_color req)) (\<lambda>_.
       let (i, w) = new_uuid w;
           row = new_calendar i user (trim (cc_name req)) (to_lowercase pf (cc_color req)) False (now w)
       in Inr (calendar.truncate row, insert_calendar row w))"

definition calendar_by_id :: "uuid \<Rightarrow> uuid \<Rightarrow> world \<Rightarrow> calendar_row option" where
  "calendar_by_id user i w = row_by (\<lambda>c. c_id c = i \<and> c_user_id c = user) (calendars w)"

definition calendar_error :: "uuid \<Rightarrow> uuid \<Rightarrow> int \<Rightarrow> world \<Rightarrow> app_error" where
  "calendar_error user i expected w =
     (case calendar_by_id user i w of
        Some c \<Rightarrow> version_conflict ''calendar'' expected (c_version c)
      | None \<Rightarrow> NotFound ''calendar'')"

definition set_calendar :: "platform \<Rightarrow> update_calendar_request \<Rightarrow> timestamp \<Rightarrow> calendar_row \<Rightarrow> calendar_row" where
  "set_calendar pf req t c =
     c\<lparr>c_name := trim (uc_name req), c_color := to_lowercase pf (uc_color req),
       c_selected := uc_selected req, c_updated_at := t, c_version := c_version c + 1\<rparr>"

definition update_calendar ::
  "platform \<Rightarrow> uuid \<Rightarrow> uuid \<Rightarrow> update_calendar_request \<Rightarrow> world \<Rightarrow> calendar store_result" where
  "update_calendar pf user i req w =
     bind_res (validate_calendar_fields (uc_name req) (uc_color req)) (\<lambda>_.
       let hit = (\<lambda>c. c_id c = i \<and> c_user_id c = user \<and> c_version c = uc_expected_version req)
       in case row_by hit (calendars w) of
            None \<Rightarrow> Inl (calendar_error user i (uc_expected_version req) w)
          | Some c \<Rightarrow>
              (let c' = set_calendar pf req (now w) c;
                   w = update_calendars hit (set_calendar pf req (now w)) w
               in if c_source c' = Google \<and> c_selected c' then
                    bind_res (enqueue_sync user (Some (c_id c')) ''calendar_sync''
                      (''calendar-selection:'' @ show_uuid (c_id c') @ '':'' @ show_int (c_version c')) w) (\<lambda>(_, w).
                    Inr (calendar.truncate c', w))
                  else Inr (calendar.truncate c', w)))"

definition delete_calendar :: "uuid \<Rightarrow> uuid \<Rightarrow> int \<Rightarrow> world \<Rightarrow> unit store_result" where
  "delete_calendar user i expected w =
     (let hit = (\<lambda>c. c_id c = i \<and> c_user_id c = user \<and> c_version c = expected \<and> \<not> c_is_default c)
      in if \<exists>c \<in> set (calendars w). hit c then Inr ((), delete_calendars hit w)
         else case calendar_by_id user i w of
                Some c \<Rightarrow> Inl (if c_is_default c
                               then Validation ''the default calendar cannot be deleted''
                               else version_conflict ''calendar'' expected (c_version c))
              | None \<Rightarrow> Inl (NotFound ''calendar''))"

definition preferred_time_block_calendar :: "uuid \<Rightarrow> world \<Rightarrow> uuid \<times> world" where
  "preferred_time_block_calendar user w =
     (case sort (map c_id (filter (\<lambda>c. c_user_id c = user \<and> c_source c = Google \<and> c_selected c
              \<and> c_provider_primary c \<and> writable_role (c_access_role c)) (calendars w))) of
        i # _ \<Rightarrow> (i, w)
      | [] \<Rightarrow> ensure_default_calendar user w)"

definition ensure_calendar_writable :: "uuid \<Rightarrow> uuid \<Rightarrow> world \<Rightarrow> unit app_result" where
  "ensure_calendar_writable user i w =
     (case calendar_by_id user i w of
        None \<Rightarrow> Inl (NotFound ''calendar'')
      | Some c \<Rightarrow> require (\<not> (c_source c = Google \<and> \<not> writable_role (c_access_role c)))
                    (Forbidden ''calendar is read-only''))"

section \<open>Events and their mapping\<close>

text \<open>The UPDATE of \<open>mark_event_for_sync\<close>.\<close>

definition mark_mapping :: "bool \<Rightarrow> mapping_row \<Rightarrow> mapping_row" where
  "mark_mapping deleted m =
     m\<lparr>m_local_dirty := (\<not> deleted), m_local_deleted := deleted,
       m_canonical_event_id := (if deleted then None else m_canonical_event_id m)\<rparr>"

definition mark_event_for_sync :: "uuid \<Rightarrow> event_row \<Rightarrow> bool \<Rightarrow> world \<Rightarrow> world" where
  "mark_event_for_sync user e deleted w =
     (case calendar_by_id user (e_calendar_id e) w of
        None \<Rightarrow> w
      | Some c \<Rightarrow>
          if c_source c \<noteq> Google then w
          else insert_job user (Some (e_calendar_id e)) ''calendar_sync''
                 (''calendar-event:'' @ show_uuid (e_id e) @ '':'' @ show_int (e_version e) @ '':''
                  @ (if deleted then ''deleted'' else ''changed''))
                 (w\<lparr>mappings := update_where (\<lambda>m. m_user_id m = user \<and> m_canonical_event_id m = Some (e_id e))
                       (mark_mapping deleted) (mappings w)\<rparr>))"

definition detach_event_mapping :: "uuid \<Rightarrow> event_row \<Rightarrow> world \<Rightarrow> world" where
  "detach_event_mapping user e w =
     w\<lparr>mappings := update_where (\<lambda>m. m_user_id m = user \<and> m_calendar_id m = e_calendar_id e
                                  \<and> m_canonical_event_id m = Some (e_id e))
         (\<lambda>m. m\<lparr>m_canonical_event_id := None\<rparr>) (mappings w)\<rparr>"

definition task_calendar_event :: "uuid \<Rightarrow> uuid \<Rightarrow> world \<Rightarrow> event_row option" where
  "task_calendar_event user task_id w =
     row_by (\<lambda>e. e_user_id e = user \<and> e_linked_task_id e = Some task_id) (events w)"

definition remove_task_calendar_event :: "uuid \<Rightarrow> uuid \<Rightarrow> world \<Rightarrow> world" where
  "remove_task_calendar_event user task_id w =
     (case task_calendar_event user task_id w of
        None \<Rightarrow> w
      | Some e \<Rightarrow> delete_events (\<lambda>x. e_user_id x = user \<and> e_id x = e_id e)
                    (mark_event_for_sync user e True w))"

definition time_block :: "uuid \<Rightarrow> uuid \<Rightarrow> uuid \<Rightarrow> task_row \<Rightarrow> timestamp \<Rightarrow> timestamp \<Rightarrow> string \<Rightarrow> timestamp \<Rightarrow> event_row" where
  "time_block i user calendar t starts_at ends_at timezone clock =
     \<lparr>e_id = i, e_calendar_id = calendar, e_linked_task_id = Some (t_id t), e_title = t_title t,
      e_description = t_description t, e_starts_at = starts_at, e_ends_at = ends_at, e_all_day = False,
      e_timezone = timezone, e_location = [], e_attendees = [], e_recurrence = EvNone,
      e_recurrence_until = None, e_created_at = clock, e_updated_at = clock, e_version = 1,
      e_user_id = user\<rparr>"

text \<open>INSERT ... ON CONFLICT (linked\_task\_id) DO UPDATE.\<close>

definition upsert_time_block :: "event_row \<Rightarrow> world \<Rightarrow> event_row \<times> world" where
  "upsert_time_block new w =
     (let same = (\<lambda>e. e_linked_task_id e = e_linked_task_id new);
          set = (\<lambda>e. e\<lparr>e_calendar_id := e_calendar_id new, e_title := e_title new,
                       e_description := e_description new, e_starts_at := e_starts_at new,
                       e_ends_at := e_ends_at new, e_timezone := e_timezone new,
                       e_updated_at := now w, e_version := e_version e + 1\<rparr>)
      in case row_by same (events w) of
           Some e \<Rightarrow> (set e, w\<lparr>events := update_where same set (events w)\<rparr>)
         | None \<Rightarrow> (new, w\<lparr>events := events w @ [new]\<rparr>))"

text \<open>
  The step both writers of an event take when it leaves its calendar: the old calendar's copy is
  marked deleted and the mapping let go.
\<close>

definition leave_calendar :: "uuid \<Rightarrow> uuid \<Rightarrow> event_row option \<Rightarrow> world \<Rightarrow> world" where
  "leave_calendar user calendar existing w =
     (case existing of
        None \<Rightarrow> w
      | Some e \<Rightarrow> if e_calendar_id e \<noteq> calendar
                  then detach_event_mapping user e (mark_event_for_sync user e True w)
                  else w)"

definition sync_task_calendar_event :: "uuid \<Rightarrow> task_row \<Rightarrow> world \<Rightarrow> world app_result" where
  "sync_task_calendar_event user t w =
     (let existing = task_calendar_event user (t_id t) w
      in case (t_scheduled_start t, t_scheduled_end t) of
           (Some starts_at, Some ends_at) \<Rightarrow>
             (let (calendar, w) = preferred_time_block_calendar user w;
                  w = leave_calendar user calendar existing w
              in bind_res (ok_or (row_by (\<lambda>u. u_id u = user) (users w))
                   (Database (OtherSqlxError ''RowNotFound''))) (\<lambda>u.
                   let (i, w) = new_uuid w;
                       (e, w) = upsert_time_block
                         (time_block i user calendar t starts_at ends_at (u_timezone u) (now w)) w
                   in Inr (mark_event_for_sync user e False w)))
         | _ \<Rightarrow> Inr (remove_task_calendar_event user (t_id t) w))"

definition migrate_scheduled_tasks_to_preferred_calendar :: "uuid \<Rightarrow> world \<Rightarrow> nat store_result" where
  "migrate_scheduled_tasks_to_preferred_calendar user w =
     (let (calendar, w) = preferred_time_block_calendar user w;
          todo = filter (\<lambda>t. t_user_id t = user \<and> t_scheduled_start t \<noteq> None \<and> t_scheduled_end t \<noteq> None
                   \<and> \<not> (\<exists>e \<in> set (events w). e_linked_task_id e = Some (t_id t) \<and> e_calendar_id e = calendar))
                   (tasks w)
      in bind_res (fold_res (sync_task_calendar_event user) todo w) (\<lambda>w. Inr (length todo, w)))"

definition list_calendar_events ::
  "uuid \<Rightarrow> calendar_event_query \<Rightarrow> world \<Rightarrow> calendar_event list app_result" where
  "list_calendar_events user q w =
     bind_res (require (ceq_ends_after q < ceq_starts_before q)
       (Validation ''starts_before must be after ends_after'')) (\<lambda>_.
     Inr (map calendar_event.truncate (sort_key (\<lambda>e. (e_starts_at e, e_ends_at e, e_id e))
       (filter (\<lambda>e. e_user_id e = user
          \<and> (case ceq_calendar_id q of None \<Rightarrow> True | Some c \<Rightarrow> e_calendar_id e = c)
          \<and> (e_starts_at e < ceq_starts_before q \<and> ceq_ends_after q < e_ends_at e
             \<or> e_recurrence e \<noteq> EvNone \<and> e_starts_at e < ceq_starts_before q
               \<and> (case e_recurrence_until e of None \<Rightarrow> True | Some t \<Rightarrow> ceq_ends_after q < t)))
          (events w)))))"

text \<open>The condition of both statements that write an event: the calendar takes writes.\<close>

definition takes_writes :: "uuid \<Rightarrow> uuid \<Rightarrow> calendar_row \<Rightarrow> bool" where
  "takes_writes user i c \<longleftrightarrow>
     c_id c = i \<and> c_user_id c = user \<and> (c_source c = Native \<or> writable_role (c_access_role c))"

definition create_calendar_event ::
  "platform \<Rightarrow> uuid \<Rightarrow> create_calendar_event_request \<Rightarrow> world \<Rightarrow> calendar_event store_result" where
  "create_calendar_event pf user req w =
     bind_res (validate_event_request (ce_title req) (ce_description req) (ce_starts_at req)
       (ce_ends_at req) (ce_timezone req) (ce_location req) (ce_attendees req) (ce_recurrence req)
       (ce_recurrence_until req)) (\<lambda>_.
     bind_res (ensure_calendar_writable user (ce_calendar_id req) w) (\<lambda>_.
     let (i, w) = new_uuid w
     in bind_res (normalize_attendees pf (ce_attendees req)) (\<lambda>attendees.
        bind_res (ok_or (row_by (takes_writes user (ce_calendar_id req)) (calendars w)) (NotFound ''calendar'')) (\<lambda>c.
        let e = \<lparr>e_id = i, e_calendar_id = c_id c, e_linked_task_id = None, e_title = trim (ce_title req),
                 e_description = trim (ce_description req), e_starts_at = ce_starts_at req,
                 e_ends_at = ce_ends_at req, e_all_day = ce_all_day req, e_timezone = trim (ce_timezone req),
                 e_location = trim (ce_location req), e_attendees = attendees,
                 e_recurrence = ce_recurrence req, e_recurrence_until = ce_recurrence_until req,
                 e_created_at = now w, e_updated_at = now w, e_version = 1, e_user_id = user\<rparr>
        in Inr (calendar_event.truncate e,
                mark_event_for_sync user e False (w\<lparr>events := events w @ [e]\<rparr>))))))"

definition event_by_id :: "uuid \<Rightarrow> uuid \<Rightarrow> world \<Rightarrow> event_row option" where
  "event_by_id user i w = row_by (\<lambda>e. e_id e = i \<and> e_user_id e = user) (events w)"

definition event_error :: "uuid \<Rightarrow> uuid \<Rightarrow> int \<Rightarrow> world \<Rightarrow> app_error" where
  "event_error user i expected w =
     (case event_by_id user i w of
        Some e \<Rightarrow> version_conflict ''calendar event'' expected (e_version e)
      | None \<Rightarrow> NotFound ''calendar event'')"

definition set_event ::
  "update_calendar_event_request \<Rightarrow> uuid \<Rightarrow> string list \<Rightarrow> timestamp \<Rightarrow> event_row \<Rightarrow> event_row" where
  "set_event req calendar attendees t e =
     e\<lparr>e_calendar_id := calendar, e_title := trim (ue_title req),
       e_description := trim (ue_description req), e_starts_at := ue_starts_at req,
       e_ends_at := ue_ends_at req, e_all_day := ue_all_day req, e_timezone := trim (ue_timezone req),
       e_location := trim (ue_location req), e_attendees := attendees, e_recurrence := ue_recurrence req,
       e_recurrence_until := ue_recurrence_until req, e_updated_at := t, e_version := e_version e + 1\<rparr>"

definition set_task_schedule ::
  "uuid \<Rightarrow> uuid \<Rightarrow> timestamp option \<Rightarrow> timestamp option \<Rightarrow> world \<Rightarrow> world" where
  "set_task_schedule user i starts_at ends_at w =
     update_tasks (\<lambda>t. t_id t = i \<and> t_user_id t = user)
       (\<lambda>t. t\<lparr>t_scheduled_start := starts_at, t_scheduled_end := ends_at, t_updated_at := now w,
              t_version := t_version t + 1\<rparr>) w"

definition update_calendar_event ::
  "platform \<Rightarrow> uuid \<Rightarrow> uuid \<Rightarrow> update_calendar_event_request \<Rightarrow> world \<Rightarrow> calendar_event store_result" where
  "update_calendar_event pf user i req w =
     bind_res (validate_event_request (ue_title req) (ue_description req) (ue_starts_at req)
       (ue_ends_at req) (ue_timezone req) (ue_location req) (ue_attendees req) (ue_recurrence req)
       (ue_recurrence_until req)) (\<lambda>_.
     bind_res (ensure_calendar_writable user (ue_calendar_id req) w) (\<lambda>_.
     let previous = event_by_id user i w
     in bind_res (case previous of None \<Rightarrow> Inr () | Some p \<Rightarrow> ensure_calendar_writable user (e_calendar_id p) w) (\<lambda>_.
        bind_res (normalize_attendees pf (ue_attendees req)) (\<lambda>attendees.
        let hit = (\<lambda>e. e_id e = i \<and> e_user_id e = user \<and> e_version e = ue_expected_version req)
        in case (row_by hit (events w), row_by (takes_writes user (ue_calendar_id req)) (calendars w)) of
             (Some e, Some c) \<Rightarrow>
               (let set = set_event req (c_id c) attendees (now w);
                    e' = set e;
                    w = w\<lparr>events := update_where hit set (events w)\<rparr>;
                    w = (case e_linked_task_id e' of
                           None \<Rightarrow> w
                         | Some task \<Rightarrow> set_task_schedule user task (Some (e_starts_at e')) (Some (e_ends_at e')) w);
                    w = leave_calendar user (e_calendar_id e') previous w
                in Inr (calendar_event.truncate e', mark_event_for_sync user e' False w))
           | _ \<Rightarrow> Inl (event_error user i (ue_expected_version req) w)))))"

definition delete_calendar_event :: "uuid \<Rightarrow> uuid \<Rightarrow> int \<Rightarrow> world \<Rightarrow> unit store_result" where
  "delete_calendar_event user i expected w =
     (let hit = (\<lambda>e. e_id e = i \<and> e_user_id e = user \<and> e_version e = expected)
      in case row_by hit (events w) of
           None \<Rightarrow> Inl (event_error user i expected w)
         | Some e \<Rightarrow>
             bind_res (ensure_calendar_writable user (e_calendar_id e) w) (\<lambda>_.
             let w = mark_event_for_sync user e True w;
                 w = delete_events hit w
             in Inr ((), case e_linked_task_id e of
                           None \<Rightarrow> w
                         | Some task \<Rightarrow> set_task_schedule user task None None w)))"

section \<open>Frames\<close>

lemma mark_event_for_sync_frame [simp]:
  "now (mark_event_for_sync u e d w) = now w"
  "uuid_supply (mark_event_for_sync u e d w) = uuid_supply w"
  "users (mark_event_for_sync u e d w) = users w"
  "settings (mark_event_for_sync u e d w) = settings w"
  "sessions (mark_event_for_sync u e d w) = sessions w"
  "login_attempts (mark_event_for_sync u e d w) = login_attempts w"
  "invites (mark_event_for_sync u e d w) = invites w"
  "legal_acceptances (mark_event_for_sync u e d w) = legal_acceptances w"
  "google_accounts (mark_event_for_sync u e d w) = google_accounts w"
  "projects (mark_event_for_sync u e d w) = projects w"
  "tasks (mark_event_for_sync u e d w) = tasks w" "labels (mark_event_for_sync u e d w) = labels w"
  "focus_tasks (mark_event_for_sync u e d w) = focus_tasks w"
  "reviews (mark_event_for_sync u e d w) = reviews w"
  "calendars (mark_event_for_sync u e d w) = calendars w"
  "events (mark_event_for_sync u e d w) = events w"
  "conflicts (mark_event_for_sync u e d w) = conflicts w"
  "watch_channels (mark_event_for_sync u e d w) = watch_channels w"
  "note_rows (mark_event_for_sync u e d w) = note_rows w"
  "files (mark_event_for_sync u e d w) = files w"
  "saved_views (mark_event_for_sync u e d w) = saved_views w"
  "move_undos (mark_event_for_sync u e d w) = move_undos w"
  "guard_revisions (mark_event_for_sync u e d w) = guard_revisions w"
  "gt_connections (mark_event_for_sync u e d w) = gt_connections w"
  "gt_links (mark_event_for_sync u e d w) = gt_links w"
  "delete_undos (mark_event_for_sync u e d w) = delete_undos w"
  "activity (mark_event_for_sync u e d w) = activity w"
  by (simp_all add: mark_event_for_sync_def split: option.split)

lemma detach_event_mapping_frame [simp]:
  "now (detach_event_mapping u e w) = now w"
  "uuid_supply (detach_event_mapping u e w) = uuid_supply w"
  "drawn (detach_event_mapping u e w) = drawn w" "users (detach_event_mapping u e w) = users w"
  "settings (detach_event_mapping u e w) = settings w"
  "sessions (detach_event_mapping u e w) = sessions w"
  "login_attempts (detach_event_mapping u e w) = login_attempts w"
  "invites (detach_event_mapping u e w) = invites w"
  "legal_acceptances (detach_event_mapping u e w) = legal_acceptances w"
  "google_accounts (detach_event_mapping u e w) = google_accounts w"
  "projects (detach_event_mapping u e w) = projects w"
  "tasks (detach_event_mapping u e w) = tasks w" "labels (detach_event_mapping u e w) = labels w"
  "focus_tasks (detach_event_mapping u e w) = focus_tasks w"
  "reviews (detach_event_mapping u e w) = reviews w"
  "calendars (detach_event_mapping u e w) = calendars w"
  "events (detach_event_mapping u e w) = events w"
  "sync_jobs (detach_event_mapping u e w) = sync_jobs w"
  "conflicts (detach_event_mapping u e w) = conflicts w"
  "watch_channels (detach_event_mapping u e w) = watch_channels w"
  "note_rows (detach_event_mapping u e w) = note_rows w"
  "files (detach_event_mapping u e w) = files w"
  "saved_views (detach_event_mapping u e w) = saved_views w"
  "move_undos (detach_event_mapping u e w) = move_undos w"
  "guard_revisions (detach_event_mapping u e w) = guard_revisions w"
  "gt_connections (detach_event_mapping u e w) = gt_connections w"
  "gt_links (detach_event_mapping u e w) = gt_links w"
  "delete_undos (detach_event_mapping u e w) = delete_undos w"
  "activity (detach_event_mapping u e w) = activity w"
  by (simp_all add: detach_event_mapping_def)

lemma leave_calendar_frame [simp]:
  "now (leave_calendar u c e w) = now w" "uuid_supply (leave_calendar u c e w) = uuid_supply w"
  "users (leave_calendar u c e w) = users w" "settings (leave_calendar u c e w) = settings w"
  "sessions (leave_calendar u c e w) = sessions w"
  "login_attempts (leave_calendar u c e w) = login_attempts w"
  "invites (leave_calendar u c e w) = invites w"
  "legal_acceptances (leave_calendar u c e w) = legal_acceptances w"
  "google_accounts (leave_calendar u c e w) = google_accounts w"
  "projects (leave_calendar u c e w) = projects w" "tasks (leave_calendar u c e w) = tasks w"
  "labels (leave_calendar u c e w) = labels w"
  "focus_tasks (leave_calendar u c e w) = focus_tasks w"
  "reviews (leave_calendar u c e w) = reviews w" "calendars (leave_calendar u c e w) = calendars w"
  "events (leave_calendar u c e w) = events w" "conflicts (leave_calendar u c e w) = conflicts w"
  "watch_channels (leave_calendar u c e w) = watch_channels w"
  "note_rows (leave_calendar u c e w) = note_rows w" "files (leave_calendar u c e w) = files w"
  "saved_views (leave_calendar u c e w) = saved_views w"
  "move_undos (leave_calendar u c e w) = move_undos w"
  "guard_revisions (leave_calendar u c e w) = guard_revisions w"
  "gt_connections (leave_calendar u c e w) = gt_connections w"
  "gt_links (leave_calendar u c e w) = gt_links w"
  "delete_undos (leave_calendar u c e w) = delete_undos w"
  "activity (leave_calendar u c e w) = activity w"
  by (simp_all add: leave_calendar_def split: option.split)

lemma ensure_default_calendar_frame [simp]:
  "now (snd (ensure_default_calendar u w)) = now w"
  "uuid_supply (snd (ensure_default_calendar u w)) = uuid_supply w"
  "users (snd (ensure_default_calendar u w)) = users w"
  "settings (snd (ensure_default_calendar u w)) = settings w"
  "sessions (snd (ensure_default_calendar u w)) = sessions w"
  "login_attempts (snd (ensure_default_calendar u w)) = login_attempts w"
  "invites (snd (ensure_default_calendar u w)) = invites w"
  "legal_acceptances (snd (ensure_default_calendar u w)) = legal_acceptances w"
  "google_accounts (snd (ensure_default_calendar u w)) = google_accounts w"
  "projects (snd (ensure_default_calendar u w)) = projects w"
  "tasks (snd (ensure_default_calendar u w)) = tasks w"
  "labels (snd (ensure_default_calendar u w)) = labels w"
  "focus_tasks (snd (ensure_default_calendar u w)) = focus_tasks w"
  "reviews (snd (ensure_default_calendar u w)) = reviews w"
  "events (snd (ensure_default_calendar u w)) = events w"
  "mappings (snd (ensure_default_calendar u w)) = mappings w"
  "sync_jobs (snd (ensure_default_calendar u w)) = sync_jobs w"
  "conflicts (snd (ensure_default_calendar u w)) = conflicts w"
  "watch_channels (snd (ensure_default_calendar u w)) = watch_channels w"
  "note_rows (snd (ensure_default_calendar u w)) = note_rows w"
  "files (snd (ensure_default_calendar u w)) = files w"
  "saved_views (snd (ensure_default_calendar u w)) = saved_views w"
  "move_undos (snd (ensure_default_calendar u w)) = move_undos w"
  "gt_connections (snd (ensure_default_calendar u w)) = gt_connections w"
  "gt_links (snd (ensure_default_calendar u w)) = gt_links w"
  "delete_undos (snd (ensure_default_calendar u w)) = delete_undos w"
  "activity (snd (ensure_default_calendar u w)) = activity w"
  by (simp_all add: ensure_default_calendar_def new_uuid_def Let_def split: option.split)

lemma preferred_time_block_calendar_frame [simp]:
  "now (snd (preferred_time_block_calendar u w)) = now w"
  "uuid_supply (snd (preferred_time_block_calendar u w)) = uuid_supply w"
  "users (snd (preferred_time_block_calendar u w)) = users w"
  "settings (snd (preferred_time_block_calendar u w)) = settings w"
  "sessions (snd (preferred_time_block_calendar u w)) = sessions w"
  "login_attempts (snd (preferred_time_block_calendar u w)) = login_attempts w"
  "invites (snd (preferred_time_block_calendar u w)) = invites w"
  "legal_acceptances (snd (preferred_time_block_calendar u w)) = legal_acceptances w"
  "google_accounts (snd (preferred_time_block_calendar u w)) = google_accounts w"
  "projects (snd (preferred_time_block_calendar u w)) = projects w"
  "tasks (snd (preferred_time_block_calendar u w)) = tasks w"
  "labels (snd (preferred_time_block_calendar u w)) = labels w"
  "focus_tasks (snd (preferred_time_block_calendar u w)) = focus_tasks w"
  "reviews (snd (preferred_time_block_calendar u w)) = reviews w"
  "events (snd (preferred_time_block_calendar u w)) = events w"
  "mappings (snd (preferred_time_block_calendar u w)) = mappings w"
  "sync_jobs (snd (preferred_time_block_calendar u w)) = sync_jobs w"
  "conflicts (snd (preferred_time_block_calendar u w)) = conflicts w"
  "watch_channels (snd (preferred_time_block_calendar u w)) = watch_channels w"
  "note_rows (snd (preferred_time_block_calendar u w)) = note_rows w"
  "files (snd (preferred_time_block_calendar u w)) = files w"
  "saved_views (snd (preferred_time_block_calendar u w)) = saved_views w"
  "move_undos (snd (preferred_time_block_calendar u w)) = move_undos w"
  "gt_connections (snd (preferred_time_block_calendar u w)) = gt_connections w"
  "gt_links (snd (preferred_time_block_calendar u w)) = gt_links w"
  "delete_undos (snd (preferred_time_block_calendar u w)) = delete_undos w"
  "activity (snd (preferred_time_block_calendar u w)) = activity w"
  by (simp_all add: preferred_time_block_calendar_def split: list.split)

lemma upsert_time_block_frame [simp]:
  "now (snd (upsert_time_block e w)) = now w"
  "uuid_supply (snd (upsert_time_block e w)) = uuid_supply w"
  "drawn (snd (upsert_time_block e w)) = drawn w" "users (snd (upsert_time_block e w)) = users w"
  "settings (snd (upsert_time_block e w)) = settings w"
  "sessions (snd (upsert_time_block e w)) = sessions w"
  "login_attempts (snd (upsert_time_block e w)) = login_attempts w"
  "invites (snd (upsert_time_block e w)) = invites w"
  "legal_acceptances (snd (upsert_time_block e w)) = legal_acceptances w"
  "google_accounts (snd (upsert_time_block e w)) = google_accounts w"
  "projects (snd (upsert_time_block e w)) = projects w"
  "tasks (snd (upsert_time_block e w)) = tasks w" "labels (snd (upsert_time_block e w)) = labels w"
  "focus_tasks (snd (upsert_time_block e w)) = focus_tasks w"
  "reviews (snd (upsert_time_block e w)) = reviews w"
  "calendars (snd (upsert_time_block e w)) = calendars w"
  "mappings (snd (upsert_time_block e w)) = mappings w"
  "sync_jobs (snd (upsert_time_block e w)) = sync_jobs w"
  "conflicts (snd (upsert_time_block e w)) = conflicts w"
  "watch_channels (snd (upsert_time_block e w)) = watch_channels w"
  "note_rows (snd (upsert_time_block e w)) = note_rows w"
  "files (snd (upsert_time_block e w)) = files w"
  "saved_views (snd (upsert_time_block e w)) = saved_views w"
  "move_undos (snd (upsert_time_block e w)) = move_undos w"
  "guard_revisions (snd (upsert_time_block e w)) = guard_revisions w"
  "gt_connections (snd (upsert_time_block e w)) = gt_connections w"
  "gt_links (snd (upsert_time_block e w)) = gt_links w"
  "delete_undos (snd (upsert_time_block e w)) = delete_undos w"
  "activity (snd (upsert_time_block e w)) = activity w"
  by (simp_all add: upsert_time_block_def Let_def split: option.split)

lemma remove_task_calendar_event_frame [simp]:
  "now (remove_task_calendar_event u i w) = now w"
  "uuid_supply (remove_task_calendar_event u i w) = uuid_supply w"
  "users (remove_task_calendar_event u i w) = users w"
  "settings (remove_task_calendar_event u i w) = settings w"
  "sessions (remove_task_calendar_event u i w) = sessions w"
  "login_attempts (remove_task_calendar_event u i w) = login_attempts w"
  "invites (remove_task_calendar_event u i w) = invites w"
  "legal_acceptances (remove_task_calendar_event u i w) = legal_acceptances w"
  "google_accounts (remove_task_calendar_event u i w) = google_accounts w"
  "projects (remove_task_calendar_event u i w) = projects w"
  "tasks (remove_task_calendar_event u i w) = tasks w"
  "labels (remove_task_calendar_event u i w) = labels w"
  "focus_tasks (remove_task_calendar_event u i w) = focus_tasks w"
  "reviews (remove_task_calendar_event u i w) = reviews w"
  "calendars (remove_task_calendar_event u i w) = calendars w"
  "watch_channels (remove_task_calendar_event u i w) = watch_channels w"
  "saved_views (remove_task_calendar_event u i w) = saved_views w"
  "guard_revisions (remove_task_calendar_event u i w) = guard_revisions w"
  "gt_connections (remove_task_calendar_event u i w) = gt_connections w"
  "gt_links (remove_task_calendar_event u i w) = gt_links w"
  "delete_undos (remove_task_calendar_event u i w) = delete_undos w"
  "activity (remove_task_calendar_event u i w) = activity w"
  by (simp_all add: remove_task_calendar_event_def split: option.split)

lemma set_task_schedule_frame [simp]:
  "now (set_task_schedule u i a b w) = now w"
  "uuid_supply (set_task_schedule u i a b w) = uuid_supply w"
  "users (set_task_schedule u i a b w) = users w"
  "settings (set_task_schedule u i a b w) = settings w"
  "sessions (set_task_schedule u i a b w) = sessions w"
  "login_attempts (set_task_schedule u i a b w) = login_attempts w"
  "invites (set_task_schedule u i a b w) = invites w"
  "legal_acceptances (set_task_schedule u i a b w) = legal_acceptances w"
  "google_accounts (set_task_schedule u i a b w) = google_accounts w"
  "projects (set_task_schedule u i a b w) = projects w"
  "labels (set_task_schedule u i a b w) = labels w"
  "focus_tasks (set_task_schedule u i a b w) = focus_tasks w"
  "reviews (set_task_schedule u i a b w) = reviews w"
  "calendars (set_task_schedule u i a b w) = calendars w"
  "events (set_task_schedule u i a b w) = events w"
  "mappings (set_task_schedule u i a b w) = mappings w"
  "conflicts (set_task_schedule u i a b w) = conflicts w"
  "watch_channels (set_task_schedule u i a b w) = watch_channels w"
  "note_rows (set_task_schedule u i a b w) = note_rows w"
  "files (set_task_schedule u i a b w) = files w"
  "saved_views (set_task_schedule u i a b w) = saved_views w"
  "move_undos (set_task_schedule u i a b w) = move_undos w"
  "guard_revisions (set_task_schedule u i a b w) = guard_revisions w"
  "gt_links (set_task_schedule u i a b w) = gt_links w"
  "delete_undos (set_task_schedule u i a b w) = delete_undos w"
  "activity (set_task_schedule u i a b w) = activity w"
  by (simp_all add: set_task_schedule_def)

text \<open>A successful \<open>sync_task_calendar_event\<close> touches the calendar side only.\<close>

lemma sync_task_calendar_event_frame:
  assumes "sync_task_calendar_event u t w = Inr w'"
  shows "now w' = now w" "uuid_supply w' = uuid_supply w" "users w' = users w"
    "settings w' = settings w" "sessions w' = sessions w"
    "login_attempts w' = login_attempts w" "invites w' = invites w"
    "legal_acceptances w' = legal_acceptances w" "google_accounts w' = google_accounts w"
    "projects w' = projects w" "tasks w' = tasks w" "labels w' = labels w"
    "focus_tasks w' = focus_tasks w" "reviews w' = reviews w"
    "watch_channels w' = watch_channels w" "saved_views w' = saved_views w"
    "gt_connections w' = gt_connections w" "gt_links w' = gt_links w"
    "delete_undos w' = delete_undos w" "activity w' = activity w"
  using assms
  by (auto simp: sync_task_calendar_event_def split_beta Let_def split: option.splits)

text \<open>The two branches of \<open>sync_task_calendar_event\<close>, for a task row that is well scheduled or not scheduled.\<close>

lemma sync_unscheduled:
  "t_scheduled_start t = None \<or> t_scheduled_end t = None
   \<Longrightarrow> sync_task_calendar_event u t w = Inr (remove_task_calendar_event u (t_id t) w)"
  by (auto simp: sync_task_calendar_event_def split: option.split)

lemma sync_scheduled:
  assumes "t_scheduled_start t = Some a" and "t_scheduled_end t = Some b"
  shows "sync_task_calendar_event u t w =
    (let cal = fst (preferred_time_block_calendar u w);
         w1 = leave_calendar u cal (task_calendar_event u (t_id t) w) (snd (preferred_time_block_calendar u w))
     in case row_by (\<lambda>x. u_id x = u) (users w) of
          None \<Rightarrow> Inl (Database (OtherSqlxError ''RowNotFound''))
        | Some usr \<Rightarrow>
            (let new = time_block (uuid_supply w1 (drawn w1)) u cal t a b (u_timezone usr) (now w);
                 up = upsert_time_block new (snd (new_uuid w1))
             in Inr (mark_event_for_sync u (fst up) False (snd up))))"
  using assms
  by (simp add: sync_task_calendar_event_def Let_def split_beta new_uuid_def split: option.split)

end
