(* ===== verification/TaskStore.thy ===== *)
theory TaskStore
  imports CalendarStore
begin

text \<open>
  The projects and tasks of \<open>store.rs\<close> and the recurrence exceptions of \<open>task_recurrence.rs\<close>:
  validation, optimistic updates, the subtask forest, recurring tasks with their successors,
  reordering, keyset pages and the Todoist import. Every operation on tasks takes the advisory lock of
  the user's task graph first, so it is one step here.
\<close>

section \<open>Validation\<close>

definition validate_project_fields :: "string \<Rightarrow> string \<Rightarrow> unit app_result" where
  "validate_project_fields name outcome =
     bind_res (require (trim name \<noteq> [] \<and> chars_count (trim name) \<le> 120)
       (Validation ''project name must contain between 1 and 120 characters'')) (\<lambda>_.
     require (chars_count outcome \<le> 2000)
       (Validation ''project outcome cannot exceed 2000 characters''))"

definition validate_schedule :: "timestamp option \<Rightarrow> timestamp option \<Rightarrow> unit app_result" where
  "validate_schedule start end =
     (case (start, end) of
        (None, None) \<Rightarrow> Inr ()
      | (Some s, Some e) \<Rightarrow>
          require (s < e) (Validation ''scheduled_end must be after scheduled_start'')
      | _ \<Rightarrow> Inl (Validation ''scheduled_start and scheduled_end must be provided together''))"

definition validate_task_fields ::
  "string \<Rightarrow> string \<Rightarrow> timestamp option \<Rightarrow> timestamp option \<Rightarrow> timestamp option \<Rightarrow> task_recurrence
   \<Rightarrow> uuid option \<Rightarrow> unit app_result" where
  "validate_task_fields title description due_at scheduled_start scheduled_end recurrence parent =
     bind_res (require (trim title \<noteq> [] \<and> chars_count (trim title) \<le> 240)
       (Validation ''task title must contain between 1 and 240 characters'')) (\<lambda>_.
     bind_res (require (chars_count description \<le> 10000)
       (Validation ''task description cannot exceed 10000 characters'')) (\<lambda>_.
     bind_res (require (recurrence = NoRecurrence \<or> due_at \<noteq> None)
       (Validation ''a recurring task must have a deadline'')) (\<lambda>_.
     bind_res (require (recurrence = NoRecurrence \<or> parent = None)
       (Validation ''a subtask cannot recur'')) (\<lambda>_.
     validate_schedule scheduled_start scheduled_end))))"

fun validate_labels_loop :: "(string \<Rightarrow> string) \<Rightarrow> string list \<Rightarrow> string list \<Rightarrow> string list app_result" where
  "validate_labels_loop lc [] normalized = Inr normalized"
| "validate_labels_loop lc (l # ls) normalized =
     (let label = lc (trim l) in
      if label = [] then validate_labels_loop lc ls normalized
      else bind_res (require (chars_count label \<le> 32)
             (Validation ''task labels cannot exceed 32 characters'')) (\<lambda>_.
           validate_labels_loop lc ls
             (if label \<in> set normalized then normalized else normalized @ [label])))"

definition validate_labels :: "platform \<Rightarrow> string list \<Rightarrow> string list app_result" where
  "validate_labels pf ls =
     bind_res (validate_labels_loop (to_lowercase pf) ls []) (\<lambda>normalized.
     bind_res (require (length normalized \<le> 10)
       (Validation ''a task cannot have more than 10 labels'')) (\<lambda>_.
     Inr normalized))"

definition day :: int where
  "day = 86400 * second"

definition next_recurrence_date :: "platform \<Rightarrow> timestamp \<Rightarrow> task_recurrence \<Rightarrow> timestamp app_result" where
  "next_recurrence_date pf due_at recurrence =
     ok_or
       (case recurrence of
          NoRecurrence \<Rightarrow> None
        | Daily \<Rightarrow> checked_add_signed pf due_at day
        | Weekly \<Rightarrow> checked_add_signed pf due_at (7 * day)
        | Monthly \<Rightarrow> checked_add_months pf due_at 1
        | Yearly \<Rightarrow> checked_add_months pf due_at 12)
       (Validation ''recurrence date is out of range'')"

section \<open>Recurrence exceptions\<close>

datatype recurrence_edit_scope = ThisOccurrence | ThisAndFuture

definition from_task :: "task_row \<Rightarrow> recurrence_defaults app_result" where
  "from_task t =
     bind_res (ok_or (t_due_at t) (Validation ''a recurring task must have a deadline'')) (\<lambda>due_at.
     Inr \<lparr>df_title = t_title t, df_description = t_description t, df_due_at = due_at,
          df_scheduled_start = t_scheduled_start t, df_scheduled_end = t_scheduled_end t,
          df_priority = t_priority t, df_recurrence = t_recurrence t, df_labels = t_labels t,
          df_remind_at = t_remind_at t\<rparr>)"

definition task_by_id :: "uuid \<Rightarrow> uuid \<Rightarrow> world \<Rightarrow> task_row option" where
  "task_by_id user i w = row_by (\<lambda>t. t_id t = i \<and> t_user_id t = user) (tasks w)"

definition load :: "uuid \<Rightarrow> uuid \<Rightarrow> world \<Rightarrow> task_row app_result" where
  "load user i w = ok_or (task_by_id user i w) (NotFound ''task'')"

definition prepare :: "update_task_request \<Rightarrow> recurrence_edit_scope option \<Rightarrow> task_row \<Rightarrow> task_row app_result" where
  "prepare req scope t =
     bind_res (require (t_version t = ut_expected_version req)
       (version_conflict ''task'' (ut_expected_version req) (t_version t))) (\<lambda>_.
     bind_res (require (\<not> (scope \<noteq> None \<and> t_status t = Completed))
       (Validation ''Choose an unfinished task to edit recurring occurrences.'')) (\<lambda>_.
     case scope of
       Some ThisOccurrence \<Rightarrow>
         bind_res (require (\<not> (t_recurrence t = NoRecurrence \<or> ut_recurrence req \<noteq> t_recurrence t))
           (Validation ''Choose this and future occurrences to change the repeat rule.'')) (\<lambda>_.
         if t_recurrence_defaults t = None then
           bind_res (from_task t) (\<lambda>d.
           Inr (t\<lparr>t_recurrence_defaults := Some d, t_recurrence_project_id := t_project_id t\<rparr>))
         else Inr t)
     | Some ThisAndFuture \<Rightarrow>
         Inr (t\<lparr>t_recurrence_defaults := None, t_recurrence_project_id := None\<rparr>)
     | None \<Rightarrow>
         Inr (if ut_recurrence req \<noteq> t_recurrence t \<or> ut_recurrence req = NoRecurrence
              then t\<lparr>t_recurrence_defaults := None, t_recurrence_project_id := None\<rparr> else t)))"

definition successor_source :: "task_row \<Rightarrow> task_row" where
  "successor_source t =
     (case t_recurrence_defaults t of
        None \<Rightarrow> t
      | Some d \<Rightarrow>
          t\<lparr>t_project_id := t_recurrence_project_id t, t_title := df_title d,
            t_description := df_description d, t_due_at := Some (df_due_at d),
            t_scheduled_start := df_scheduled_start d, t_scheduled_end := df_scheduled_end d,
            t_priority := df_priority d, t_recurrence := df_recurrence d, t_labels := df_labels d,
            t_remind_at := df_remind_at d\<rparr>)"

section \<open>Relationships\<close>

definition validate_task_relationships :: "uuid \<Rightarrow> uuid option \<Rightarrow> uuid option \<Rightarrow> world \<Rightarrow> unit app_result" where
  "validate_task_relationships user project parent w =
     bind_res
       (case project of
          None \<Rightarrow> Inr ()
        | Some p \<Rightarrow> require (\<exists>q \<in> set (projects w). pr_id q = p \<and> pr_user_id q = user)
                     (Validation ''project_id must reference one of the user's projects'')) (\<lambda>_.
     case parent of
       None \<Rightarrow> Inr ()
     | Some i \<Rightarrow>
         (case task_by_id user i w of
            None \<Rightarrow> Inl (Validation ''parent_task_id must reference one of the user's tasks'')
          | Some t \<Rightarrow>
              bind_res (require (t_project_id t = project)
                (Validation ''parent task must belong to the same project'')) (\<lambda>_.
              require (t_recurrence t = NoRecurrence)
                (Validation ''a recurring task cannot have subtasks''))))"

lemma delete_found_shorter: "row_by p rows = Some r \<Longrightarrow> length (delete_where p rows) < length rows"
  unfolding delete_where_def by (intro length_filter_less [of r]) (auto dest: row_by_Some)

text \<open>
  The recursive query \<open>parent_chain\<close>: the identifiers met from a task upwards. The row just met
  is taken out of the rows, as UNION adds no row twice.
\<close>

function parent_chain :: "uuid \<Rightarrow> task_row list \<Rightarrow> uuid \<Rightarrow> uuid list" where
  "parent_chain user rows i =
     (case row_by (\<lambda>t. t_id t = i \<and> t_user_id t = user) rows of
        None \<Rightarrow> []
      | Some t \<Rightarrow>
          i # (case t_parent_task_id t of
                 None \<Rightarrow> []
               | Some p \<Rightarrow> parent_chain user (delete_where (\<lambda>r. t_id r = i \<and> t_user_id r = user) rows) p))"
  by pat_completeness auto

termination
  by (relation "measure (\<lambda>(user, rows, i). length rows)") (auto dest: delete_found_shorter)

declare parent_chain.simps [simp del]

definition has_subtasks :: "uuid \<Rightarrow> uuid \<Rightarrow> world \<Rightarrow> bool" where
  "has_subtasks user i w \<longleftrightarrow> (\<exists>t \<in> set (tasks w). t_parent_task_id t = Some i \<and> t_user_id t = user)"

definition validate_task_update_relationships ::
  "uuid \<Rightarrow> uuid \<Rightarrow> uuid option \<Rightarrow> uuid option \<Rightarrow> task_recurrence \<Rightarrow> world \<Rightarrow> unit app_result" where
  "validate_task_update_relationships user i project parent recurrence w =
     bind_res (ok_or (task_by_id user i w) (NotFound ''task'')) (\<lambda>t.
     bind_res (require (\<not> (recurrence \<noteq> NoRecurrence \<and> has_subtasks user i w))
       (Validation ''a task with subtasks cannot recur'')) (\<lambda>_.
     bind_res (require (\<not> (t_project_id t \<noteq> project \<and> has_subtasks user i w))
       (Validation ''a task with subtasks cannot change its project assignment'')) (\<lambda>_.
     case parent of
       None \<Rightarrow> Inr ()
     | Some p \<Rightarrow> require (i \<notin> set (parent_chain user (tasks w) p))
                  (Validation ''parent_task_id would create a subtask cycle''))))"

section \<open>Projects\<close>

definition project_of :: "world \<Rightarrow> project_row \<Rightarrow> project" where
  "project_of w r =
     (let mine = filter (\<lambda>t. t_project_id t = Some (pr_id r) \<and> t_user_id t = pr_user_id r) (tasks w)
      in \<lparr>p_id = pr_id r, p_name = pr_name r, p_outcome = pr_outcome r, p_target_date = pr_target_date r,
          p_status = pr_status r, p_total_tasks = int (length mine),
          p_completed_tasks = int (length (filter (\<lambda>t. t_status t = Completed) mine)),
          p_created_at = pr_created_at r, p_updated_at = pr_updated_at r, p_version = pr_version r\<rparr>)"

definition new_project ::
  "uuid \<Rightarrow> uuid \<Rightarrow> string \<Rightarrow> string \<Rightarrow> date option \<Rightarrow> project_status \<Rightarrow> timestamp \<Rightarrow> project_row" where
  "new_project i user name outcome target status t =
     \<lparr>pr_id = i, pr_user_id = user, pr_name = name, pr_outcome = outcome, pr_target_date = target,
      pr_status = status, pr_created_at = t, pr_updated_at = t, pr_version = 1\<rparr>"

definition create_project :: "uuid \<Rightarrow> create_project_request \<Rightarrow> world \<Rightarrow> project store_result" where
  "create_project user req w =
     bind_res (validate_project_fields (cpr_name req) (cpr_outcome req)) (\<lambda>_.
     let (i, w) = new_uuid w;
         r = new_project i user (trim (cpr_name req)) (trim (cpr_outcome req)) (cpr_target_date req)
               (cpr_status req) (now w)
     in Inr (\<lparr>p_id = pr_id r, p_name = pr_name r, p_outcome = pr_outcome r,
              p_target_date = pr_target_date r, p_status = pr_status r, p_total_tasks = 0,
              p_completed_tasks = 0, p_created_at = pr_created_at r, p_updated_at = pr_updated_at r,
              p_version = pr_version r\<rparr>,
             w\<lparr>projects := projects w @ [r]\<rparr>))"

definition project_by_id :: "uuid \<Rightarrow> uuid \<Rightarrow> world \<Rightarrow> project_row option" where
  "project_by_id user i w = row_by (\<lambda>p. pr_id p = i \<and> pr_user_id p = user) (projects w)"

definition project_error :: "uuid \<Rightarrow> uuid \<Rightarrow> int \<Rightarrow> world \<Rightarrow> app_error" where
  "project_error user i expected w =
     (case project_by_id user i w of
        Some p \<Rightarrow> version_conflict ''project'' expected (pr_version p)
      | None \<Rightarrow> NotFound ''project'')"

definition set_project :: "update_project_request \<Rightarrow> timestamp \<Rightarrow> project_row \<Rightarrow> project_row" where
  "set_project req t p =
     p\<lparr>pr_name := trim (upr_name req), pr_outcome := trim (upr_outcome req),
       pr_target_date := upr_target_date req, pr_status := upr_status req, pr_updated_at := t,
       pr_version := pr_version p + 1\<rparr>"

definition update_project :: "uuid \<Rightarrow> uuid \<Rightarrow> update_project_request \<Rightarrow> world \<Rightarrow> project store_result" where
  "update_project user i req w =
     bind_res (validate_project_fields (upr_name req) (upr_outcome req)) (\<lambda>_.
     bind_res (require (1 \<le> upr_expected_version req)
       (Validation ''expected_version must be greater than zero'')) (\<lambda>_.
     let hit = (\<lambda>p. pr_id p = i \<and> pr_user_id p = user \<and> pr_version p = upr_expected_version req)
     in case row_by hit (projects w) of
          Some p \<Rightarrow> Inr (project_of w (set_project req (now w) p),
                         w\<lparr>projects := update_where hit (set_project req (now w)) (projects w)\<rparr>)
        | None \<Rightarrow> Inl (project_error user i (upr_expected_version req) w)))"

text \<open>The keyset page of both listings: one row more than the limit tells whether a page follows.\<close>

definition keyset_page :: "('r \<Rightarrow> uuid) \<Rightarrow> 'r list \<Rightarrow> uuid option \<Rightarrow> int \<Rightarrow> 'r list \<times> uuid option" where
  "keyset_page key rows cursor limit =
     (let found = take (nat (limit + 1)) (rev (sort_key key
            (filter (\<lambda>r. case cursor of None \<Rightarrow> True | Some c \<Rightarrow> key r < c) rows)))
      in if nat limit < length found
         then (butlast found, if butlast found = [] then None else Some (key (last (butlast found))))
         else (found, None))"

definition list_projects :: "uuid \<Rightarrow> uuid option \<Rightarrow> int \<Rightarrow> world \<Rightarrow> project_page" where
  "list_projects user cursor limit w =
     (let (items, next_cursor) = keyset_page pr_id (filter (\<lambda>p. pr_user_id p = user) (projects w)) cursor limit
      in \<lparr>pp_items = map (project_of w) items, pp_next_cursor = next_cursor\<rparr>)"

definition delete_project :: "uuid \<Rightarrow> uuid \<Rightarrow> int \<Rightarrow> world \<Rightarrow> unit store_result" where
  "delete_project user i expected w =
     bind_res (require (1 \<le> expected) (Validation ''expected_version must be greater than zero'')) (\<lambda>_.
     let task_ids = map t_id (filter (\<lambda>t. t_user_id t = user \<and> t_project_id t = Some i) (tasks w));
         w' = fold (remove_task_calendar_event user) task_ids w;
         hit = (\<lambda>p. pr_id p = i \<and> pr_user_id p = user \<and> pr_version p = expected)
     in if \<exists>p \<in> set (projects w'). hit p then Inr ((), delete_projects hit w')
        else Inl (project_error user i expected w'))"

section \<open>Tasks\<close>

definition new_task ::
  "uuid \<Rightarrow> uuid \<Rightarrow> uuid option \<Rightarrow> uuid option \<Rightarrow> string \<Rightarrow> string \<Rightarrow> timestamp option \<Rightarrow> timestamp option
   \<Rightarrow> timestamp option \<Rightarrow> task_status \<Rightarrow> task_priority \<Rightarrow> task_recurrence \<Rightarrow> string list \<Rightarrow> timestamp option
   \<Rightarrow> int \<Rightarrow> timestamp option \<Rightarrow> uuid option \<Rightarrow> timestamp \<Rightarrow> task_row" where
  "new_task i user project parent title description due_at scheduled_start scheduled_end status
     priority recurrence ls remind_at position completed_at source t =
     \<lparr>t_id = i, t_project_id = project, t_parent_task_id = parent, t_title = title,
      t_description = description, t_due_at = due_at, t_scheduled_start = scheduled_start,
      t_scheduled_end = scheduled_end, t_status = status, t_priority = priority,
      t_recurrence = recurrence, t_labels = ls, t_remind_at = remind_at, t_position = position,
      t_completed_at = completed_at, t_created_at = t, t_updated_at = t, t_version = 1,
      t_user_id = user, t_recurrence_source_id = source, t_recurrence_defaults = None,
      t_recurrence_project_id = None\<rparr>"

definition next_task_position :: "uuid \<Rightarrow> world \<Rightarrow> int" where
  "next_task_position user w =
     (case map t_position (filter (\<lambda>t. t_user_id t = user) (tasks w)) of
        [] \<Rightarrow> 0
      | p # ps \<Rightarrow> fold max ps p) + 1024"

definition ensure_labels :: "uuid \<Rightarrow> string list \<Rightarrow> world \<Rightarrow> world" where
  "ensure_labels user ls w =
     w\<lparr>labels := fold (\<lambda>l known. if (user, l) \<in> set known then known else known @ [(user, l)]) ls (labels w)\<rparr>"

definition create_task :: "platform \<Rightarrow> uuid \<Rightarrow> create_task_request \<Rightarrow> world \<Rightarrow> task store_result" where
  "create_task pf user req w =
     bind_res (validate_task_fields (ct_title req) (ct_description req) (ct_due_at req)
       (ct_scheduled_start req) (ct_scheduled_end req) (ct_recurrence req) (ct_parent_task_id req)) (\<lambda>_.
     bind_res (validate_labels pf (ct_labels req)) (\<lambda>ls.
     bind_res (require (\<not> (ct_recurrence req \<noteq> NoRecurrence \<and> ct_status req = Completed))
       (Validation ''a recurring task cannot be created as completed'')) (\<lambda>_.
     bind_res (validate_task_relationships user (ct_project_id req) (ct_parent_task_id req) w) (\<lambda>_.
     let position = next_task_position user w;
         completed_at = (if ct_status req = Completed then Some (utc_now pf) else None);
         (i, w) = new_uuid w;
         t = new_task i user (ct_project_id req) (ct_parent_task_id req) (trim (ct_title req))
               (trim (ct_description req)) (ct_due_at req) (ct_scheduled_start req)
               (ct_scheduled_end req) (ct_status req) (ct_priority req) (ct_recurrence req) ls
               (ct_remind_at req) position completed_at None (now w);
         w = ensure_labels user (t_labels t) (insert_task t w)
     in bind_res (sync_task_calendar_event user t w) (\<lambda>w. Inr (task.truncate t, w))))))"

definition list_tasks :: "uuid \<Rightarrow> uuid option \<Rightarrow> uuid option \<Rightarrow> int \<Rightarrow> world \<Rightarrow> task_page" where
  "list_tasks user project cursor limit w =
     (let (items, next_cursor) = keyset_page t_id (filter (\<lambda>t. t_user_id t = user
            \<and> (case project of None \<Rightarrow> True | Some p \<Rightarrow> t_project_id t = Some p)) (tasks w)) cursor limit
      in \<lparr>tp_items = map task.truncate items, tp_next_cursor = next_cursor\<rparr>)"

definition remove_next_occurrence_for_reopen :: "uuid \<Rightarrow> uuid \<Rightarrow> world \<Rightarrow> world app_result" where
  "remove_next_occurrence_for_reopen user i w =
     (case row_by (\<lambda>t. t_recurrence_source_id t = Some i \<and> t_user_id t = user) (tasks w) of
        None \<Rightarrow> Inr w
      | Some n \<Rightarrow>
          if t_status n = Todo \<and> t_version n = 1
          then Inr (delete_tasks (\<lambda>t. t_id t = t_id n \<and> t_user_id t = user) w)
          else Inl (Conflict ''task cannot be reopened after its next occurrence was changed''))"

definition create_next_recurring_task :: "platform \<Rightarrow> uuid \<Rightarrow> uuid \<Rightarrow> world \<Rightarrow> world app_result" where
  "create_next_recurring_task pf user i w =
     bind_res (load user i w) (\<lambda>loaded.
     let s = successor_source loaded;
         w = ensure_labels user (t_labels s) w
     in bind_res (ok_or (t_due_at s) (Validation ''a recurring task must have a deadline'')) (\<lambda>due_at.
        bind_res (next_recurrence_date pf due_at (t_recurrence s)) (\<lambda>next_due_at.
        let shift = next_due_at - due_at;
            position = next_task_position user w;
            (n, w) = new_uuid w;
            next = new_task n user (t_project_id s) None (t_title s) (t_description s) (Some next_due_at)
                     (map_option (\<lambda>v. v + shift) (t_scheduled_start s))
                     (map_option (\<lambda>v. v + shift) (t_scheduled_end s)) Todo (t_priority s)
                     (t_recurrence s) (t_labels s) (map_option (\<lambda>v. v + shift) (t_remind_at s))
                     position None (Some (t_id s)) (now w)
        in bind_res (require (\<not> (\<exists>t \<in> set (tasks w). t_recurrence_source_id t = Some (t_id s)))
             (unique_violation ''tasks_recurrence_source_idx'')) (\<lambda>_.
           sync_task_calendar_event user next (insert_task next w)))))"

text \<open>The UPDATE of \<open>update_task_scoped\<close>; \<open>r\<close> is the prepared recurrence state.\<close>

definition set_task ::
  "update_task_request \<Rightarrow> string list \<Rightarrow> timestamp option \<Rightarrow> task_row \<Rightarrow> timestamp \<Rightarrow> task_row \<Rightarrow> task_row" where
  "set_task req ls completed_at r clock t =
     t\<lparr>t_project_id := ut_project_id req, t_parent_task_id := ut_parent_task_id req,
       t_title := trim (ut_title req), t_description := trim (ut_description req),
       t_due_at := ut_due_at req, t_scheduled_start := ut_scheduled_start req,
       t_scheduled_end := ut_scheduled_end req, t_status := ut_status req, t_priority := ut_priority req,
       t_recurrence := ut_recurrence req, t_recurrence_defaults := t_recurrence_defaults r,
       t_recurrence_project_id := t_recurrence_project_id r, t_labels := ls,
       t_remind_at := ut_remind_at req,
       t_completed_at := (if ut_status req = Completed \<and> t_completed_at t \<noteq> None then t_completed_at t
                          else completed_at),
       t_updated_at := clock, t_version := t_version t + 1\<rparr>"

definition task_error :: "uuid \<Rightarrow> uuid \<Rightarrow> int \<Rightarrow> world \<Rightarrow> app_error" where
  "task_error user i expected w =
     (case task_by_id user i w of
        Some t \<Rightarrow> version_conflict ''task'' expected (t_version t)
      | None \<Rightarrow> NotFound ''task'')"

definition update_task_scoped ::
  "platform \<Rightarrow> uuid \<Rightarrow> uuid \<Rightarrow> update_task_request \<Rightarrow> recurrence_edit_scope option \<Rightarrow> world \<Rightarrow> task store_result" where
  "update_task_scoped pf user i req scope w =
     bind_res (validate_task_fields (ut_title req) (ut_description req) (ut_due_at req)
       (ut_scheduled_start req) (ut_scheduled_end req) (ut_recurrence req) (ut_parent_task_id req)) (\<lambda>_.
     bind_res (validate_labels pf (ut_labels req)) (\<lambda>ls.
     bind_res (require (1 \<le> ut_expected_version req)
       (Validation ''expected_version must be greater than zero'')) (\<lambda>_.
     bind_res (require (ut_parent_task_id req \<noteq> Some i)
       (Validation ''a task cannot be its own parent'')) (\<lambda>_.
     bind_res (validate_task_relationships user (ut_project_id req) (ut_parent_task_id req) w) (\<lambda>_.
     bind_res (validate_task_update_relationships user i (ut_project_id req) (ut_parent_task_id req)
       (ut_recurrence req) w) (\<lambda>_.
     bind_res (load user i w) (\<lambda>loaded.
     bind_res (prepare req scope loaded) (\<lambda>recurring.
     bind_res (if t_status recurring = Completed \<and> ut_status req \<noteq> Completed
               then remove_next_occurrence_for_reopen user i w else Inr w) (\<lambda>w.
     let completed_at = (if ut_status req = Completed then Some (utc_now pf) else None);
         hit = (\<lambda>t. t_id t = i \<and> t_user_id t = user \<and> t_version t = ut_expected_version req);
         set = set_task req ls completed_at recurring (now w)
     in case row_by hit (tasks w) of
          None \<Rightarrow> Inl (task_error user i (ut_expected_version req) w)
        | Some t \<Rightarrow>
            (let t' = set t;
                 w = ensure_labels user (t_labels t') (update_tasks hit set w)
             in bind_res (sync_task_calendar_event user t' w) (\<lambda>w.
                bind_res (if t_status recurring \<noteq> Completed \<and> t_status t' = Completed
                             \<and> t_recurrence t' \<noteq> NoRecurrence
                          then create_next_recurring_task pf user i w else Inr w) (\<lambda>w.
                Inr (task.truncate t', w)))))))))))))"

definition update_task :: "platform \<Rightarrow> uuid \<Rightarrow> uuid \<Rightarrow> update_task_request \<Rightarrow> world \<Rightarrow> task store_result" where
  "update_task pf user i req w = update_task_scoped pf user i req None w"

text \<open>The loop of \<open>reorder_tasks\<close>: position \<open>(index + 1) * 1024\<close> for each identifier in turn.\<close>

fun assign_positions :: "uuid \<Rightarrow> uuid list \<Rightarrow> nat \<Rightarrow> world \<Rightarrow> world" where
  "assign_positions user [] n w = w"
| "assign_positions user (i # is) n w =
     assign_positions user is (Suc n)
       (update_tasks (\<lambda>t. t_id t = i \<and> t_user_id t = user)
          (\<lambda>t. t\<lparr>t_position := (int n + 1) * 1024\<rparr>) w)"

definition reorder_tasks :: "uuid \<Rightarrow> reorder_tasks_request \<Rightarrow> world \<Rightarrow> unit store_result" where
  "reorder_tasks user req w =
     bind_res (require (card (set (rt_task_ids req)) = length (rt_task_ids req))
       (Validation ''task_ids cannot contain duplicates'')) (\<lambda>_.
     let mine = filter (\<lambda>t. t_user_id t = user) (tasks w)
     in bind_res (require (length mine = length (rt_task_ids req))
          (Validation ''task_ids must contain every task in the workspace'')) (\<lambda>_.
        bind_res (require (length (filter (\<lambda>t. t_id t \<in> set (rt_task_ids req)) mine) = length mine)
          (Validation ''task_ids must reference only the user's tasks'')) (\<lambda>_.
        Inr ((), assign_positions user (rt_task_ids req) 0 w))))"

definition delete_task :: "uuid \<Rightarrow> uuid \<Rightarrow> int \<Rightarrow> world \<Rightarrow> unit store_result" where
  "delete_task user i expected w =
     bind_res (require (1 \<le> expected) (Validation ''expected_version must be greater than zero'')) (\<lambda>_.
     bind_res (require (\<not> has_subtasks user i w)
       (Conflict ''task cannot be deleted while it has subtasks'')) (\<lambda>_.
     let w' = remove_task_calendar_event user i w;
         hit = (\<lambda>t. t_id t = i \<and> t_user_id t = user \<and> t_version t = expected)
     in if \<exists>t \<in> set (tasks w'). hit t then Inr ((), delete_tasks hit w')
        else Inl (task_error user i expected w')))"

definition list_labels :: "platform \<Rightarrow> uuid \<Rightarrow> world \<Rightarrow> string list" where
  "list_labels pf user w =
     sort_key (collation_key pf) (map snd (filter (\<lambda>l. fst l = user) (labels w)))"

section \<open>Todoist import\<close>

fun prepare_imports ::
  "platform \<Rightarrow> nat \<Rightarrow> todoist_import_task list \<Rightarrow> (todoist_import_task \<times> string list) list app_result" where
  "prepare_imports pf index [] = Inr []"
| "prepare_imports pf index (t # ts) =
     bind_res (require (case ti_parent_index t of None \<Rightarrow> True | Some p \<Rightarrow> p < index)
       (Validation ''an imported task parent must appear before its child'')) (\<lambda>_.
     bind_res (validate_task_fields (ti_title t) (ti_description t) (ti_due_at t) (ti_scheduled_start t)
       (ti_scheduled_end t) (ti_recurrence t) (map_option (\<lambda>_. 0) (ti_parent_index t))) (\<lambda>_.
     bind_res (validate_labels pf (ti_labels t)) (\<lambda>ls.
     bind_res (prepare_imports pf (Suc index) ts) (\<lambda>rest. Inr ((t, ls) # rest)))))"

fun import_tasks ::
  "uuid \<Rightarrow> uuid \<Rightarrow> (todoist_import_task \<times> string list) list \<Rightarrow> uuid list \<Rightarrow> int \<Rightarrow> world
   \<Rightarrow> (uuid list \<times> world) app_result" where
  "import_tasks user project [] task_ids position w = Inr (task_ids, w)"
| "import_tasks user project ((t, ls) # ts) task_ids position w =
     (let (i, w) = new_uuid w;
          row = new_task i user (Some project) (map_option (\<lambda>p. task_ids ! p) (ti_parent_index t))
                  (trim (ti_title t)) (trim (ti_description t)) (ti_due_at t) (ti_scheduled_start t)
                  (ti_scheduled_end t) Todo (ti_priority t) (ti_recurrence t) ls None position None
                  None (now w);
          w = ensure_labels user (t_labels row) (insert_task row w)
      in bind_res (sync_task_calendar_event user row w) (\<lambda>w.
         import_tasks user project ts (task_ids @ [i]) (position + 1024) w))"

definition import_todoist_project ::
  "platform \<Rightarrow> uuid \<Rightarrow> todoist_import_request \<Rightarrow> world \<Rightarrow> todoist_import_result store_result" where
  "import_todoist_project pf user req w =
     bind_res (validate_project_fields (tir_project_name req) (tir_project_description req)) (\<lambda>_.
     bind_res (require (length (tir_tasks req) \<le> 5000)
       (Validation ''a Todoist import cannot contain more than 5000 tasks'')) (\<lambda>_.
     bind_res (prepare_imports pf 0 (tir_tasks req)) (\<lambda>prepared.
     let (i, w) = new_uuid w;
         w = w\<lparr>projects := projects w @ [new_project i user (trim (tir_project_name req))
                 (trim (tir_project_description req)) None Active (now w)]\<rparr>;
         position = next_task_position user w
     in bind_res (import_tasks user i prepared [] position w) (\<lambda>(task_ids, w).
        bind_res (ok_or (project_by_id user i w) (Database (OtherSqlxError ''RowNotFound''))) (\<lambda>p.
        Inr (\<lparr>tr_project = project_of w p, tr_imported_tasks = length task_ids\<rparr>, w))))))"

end
