(* ===== verification/TaskGraph.thy ===== *)
theory TaskGraph
  imports TaskStore
begin

text \<open>
  The subtask forest: \<open>parent_chain\<close> computes exactly the ancestors, and the operations of the stores that
  write tasks keep the table well formed (\<open>tasks_ok\<close>): the parent links point to tasks of the same
  owner and project and never form a cycle, recurring tasks have a deadline and stand outside the
  forest, schedules are complete and ordered, completion times match the status, an untouched successor recurs, and a task
  with a successor is completed and has only one.
\<close>

section \<open>Ancestors\<close>

definition parent_edges :: "uuid \<Rightarrow> task_row list \<Rightarrow> (uuid \<times> uuid) set" where
  "parent_edges user rows = {(t_id t, p) | t p. t \<in> set rows \<and> t_user_id t = user \<and> t_parent_task_id t = Some p}"

lemma rtrancl_avoid_start:
  assumes "(a, x) \<in> r\<^sup>*" and "x \<noteq> a"
  shows "\<exists>b. (a, b) \<in> r \<and> (b, x) \<in> (r - {a} \<times> UNIV)\<^sup>*"
  using assms
proof (induction rule: rtrancl_induct)
  case (step y z)
  show ?case
  proof (cases "y = a")
    case True
    with step.hyps show ?thesis by blast
  next
    case False
    with step obtain b where b: "(a, b) \<in> r" "(b, y) \<in> (r - {a} \<times> UNIV)\<^sup>*" by blast
    moreover have "(y, z) \<in> r - {a} \<times> UNIV" using False step.hyps by simp
    ultimately show ?thesis by (meson rtrancl.rtrancl_into_rtrancl)
  qed
qed simp

lemma parent_edges_delete:
  "parent_edges user (delete_where (\<lambda>r. t_id r = i \<and> t_user_id r = user) rows)
   = parent_edges user rows - {i} \<times> UNIV"
  by (auto simp: parent_edges_def)

lemma parent_chain_sound:
  "x \<in> set (parent_chain user rows i) \<Longrightarrow> (i, x) \<in> (parent_edges user rows)\<^sup>*"
proof (induction user rows i rule: parent_chain.induct)
  case (1 user rows i)
  let ?rest = "delete_where (\<lambda>r. t_id r = i \<and> t_user_id r = user) rows"
  have "parent_chain user rows i \<noteq> []" using 1(2) by auto
  then obtain t where t: "row_by (\<lambda>t. t_id t = i \<and> t_user_id t = user) rows = Some t"
    by (cases "row_by (\<lambda>t. t_id t = i \<and> t_user_id t = user) rows") (simp_all add: parent_chain.simps [of user rows i])
  then have t': "t \<in> set rows" "t_id t = i" "t_user_id t = user" using row_by_Some [OF t] by auto
  show ?case
  proof (cases "x = i")
    case False
    then obtain p where p: "t_parent_task_id t = Some p" and x: "x \<in> set (parent_chain user ?rest p)"
      using 1(2) t by (cases "t_parent_task_id t") (simp_all add: parent_chain.simps [of user rows i])
    from 1(1) [OF t p x] have "(p, x) \<in> (parent_edges user rows)\<^sup>*"
      unfolding parent_edges_delete by (rule rtrancl_mono [THEN subsetD, rotated]) blast
    moreover have "(i, p) \<in> parent_edges user rows" using t' p by (auto simp: parent_edges_def)
    ultimately show ?thesis by (rule converse_rtrancl_into_rtrancl [rotated])
  qed simp
qed

lemma parent_chain_complete:
  assumes "distinct (map t_id rows)" and "(i, x) \<in> (parent_edges user rows)\<^sup>*"
    and "\<exists>t \<in> set rows. t_id t = x \<and> t_user_id t = user"
  shows "x \<in> set (parent_chain user rows i)"
  using assms
proof (induction user rows i rule: parent_chain.induct)
  case (1 user rows i)
  let ?p = "\<lambda>t. t_id t = i \<and> t_user_id t = user"
  show ?case
  proof (cases "x = i")
    case True
    with 1(4) have "row_by ?p rows \<noteq> None" by (auto simp: row_by_None)
    with True show ?thesis by (subst parent_chain.simps) auto
  next
    case False
    then obtain b where b: "(i, b) \<in> parent_edges user rows" "(b, x) \<in> (parent_edges user rows - {i} \<times> UNIV)\<^sup>*"
      using rtrancl_avoid_start [OF 1(3)] by blast
    then obtain t where t: "t \<in> set rows" "?p t" "t_parent_task_id t = Some b" by (auto simp: parent_edges_def)
    have row: "row_by ?p rows = Some t" using 1(2) t by (intro row_by_key [where k = t_id]) auto
    have "x \<in> set (parent_chain user (delete_where ?p rows) b)"
    proof (rule 1(1) [OF row t(3)])
      show "distinct (map t_id (delete_where ?p rows))" using 1(2) by blast
      show "(b, x) \<in> (parent_edges user (delete_where ?p rows))\<^sup>*" using b(2) by (simp add: parent_edges_delete)
      show "\<exists>t \<in> set (delete_where ?p rows). t_id t = x \<and> t_user_id t = user" using 1(4) False by auto
    qed
    with row t(3) show ?thesis by (subst parent_chain.simps) simp
  qed
qed

section \<open>Well-formed task tables\<close>

fun schedule_ok :: "timestamp option \<Rightarrow> timestamp option \<Rightarrow> bool" where
  "schedule_ok None None = True"
| "schedule_ok (Some s) (Some e) = (s < e)"
| "schedule_ok _ _ = False"

definition task_ok :: "task_row \<Rightarrow> bool" where
  "task_ok t \<longleftrightarrow>
     (t_recurrence t \<noteq> NoRecurrence \<longrightarrow> t_due_at t \<noteq> None \<and> t_parent_task_id t = None)
     \<and> schedule_ok (t_scheduled_start t) (t_scheduled_end t)
     \<and> ((t_status t = Completed) = (t_completed_at t \<noteq> None)) \<and> 1 \<le> t_version t
     \<and> (t_recurrence_source_id t \<noteq> None \<and> t_version t = 1 \<longrightarrow> t_recurrence t \<noteq> NoRecurrence)
     \<and> pred_option (\<lambda>d. schedule_ok (df_scheduled_start d) (df_scheduled_end d)) (t_recurrence_defaults t)"

text \<open>Who may have subtasks: a task that does not recur; with imports also a recurring one that is no successor.\<close>

definition may_parent :: "bool \<Rightarrow> task_row \<Rightarrow> bool" where
  "may_parent strict q \<longleftrightarrow> t_recurrence q = NoRecurrence \<or> \<not> strict \<and> t_recurrence_source_id q = None"

definition parent_ok :: "bool \<Rightarrow> task_row list \<Rightarrow> task_row \<Rightarrow> bool" where
  "parent_ok strict rows t \<longleftrightarrow> (\<forall>p. t_parent_task_id t = Some p \<longrightarrow>
     (\<exists>q \<in> set rows. t_id q = p \<and> t_user_id q = t_user_id t \<and> t_project_id q = t_project_id t
        \<and> may_parent strict q))"

definition links :: "task_row list \<Rightarrow> (uuid \<times> uuid) set" where
  "links rows = {(t_id t, p) | t p. t \<in> set rows \<and> t_parent_task_id t = Some p}"

definition rows_ok :: "bool \<Rightarrow> task_row list \<Rightarrow> bool" where
  "rows_ok strict rows \<longleftrightarrow> distinct (map t_id rows) \<and> (\<forall>t \<in> set rows. task_ok t \<and> parent_ok strict rows t)
     \<and> acyclic (links rows)"

definition sources_ok :: "task_row list \<Rightarrow> bool" where
  "sources_ok rows \<longleftrightarrow>
     (\<forall>t \<in> set rows. \<forall>i. t_recurrence_source_id t = Some i \<longrightarrow>
        (\<exists>s \<in> set rows. t_id s = i \<and> t_user_id s = t_user_id t \<and> t_status s = Completed))
     \<and> (\<forall>t \<in> set rows. \<forall>t' \<in> set rows.
          t_recurrence_source_id t \<noteq> None \<longrightarrow> t_recurrence_source_id t = t_recurrence_source_id t' \<longrightarrow> t = t')"

definition tasks_ok :: "bool \<Rightarrow> world \<Rightarrow> bool" where
  "tasks_ok strict w \<longleftrightarrow> inj (uuid_supply w) \<and> t_id ` set (tasks w) \<subseteq> drawn_ids w
     \<and> rows_ok strict (tasks w) \<and> sources_ok (tasks w)"

lemma parent_rowE:
  assumes "rows_ok strict rows" and "t \<in> set rows" and "t_parent_task_id t = Some p"
  obtains q where "q \<in> set rows" "t_id q = p" "t_user_id q = t_user_id t"
    "t_project_id q = t_project_id t" "may_parent strict q"
  using assms unfolding rows_ok_def parent_ok_def by blast

text \<open>A fresh row with a valid parent.\<close>

lemma rows_ok_append:
  assumes ok: "rows_ok strict rows" and fresh: "t_id t \<notin> t_id ` set rows" and t: "task_ok t" "parent_ok strict rows t"
  shows "rows_ok strict (rows @ [t])"
proof -
  have par: "parent_ok strict (rows @ [t]) u" if "parent_ok strict rows u" for u
    using that by (fastforce simp: parent_ok_def)
  have "acyclic (links (rows @ [t]))"
  proof (cases "t_parent_task_id t")
    case None
    then have "links (rows @ [t]) = links rows" by (auto simp: links_def)
    with ok show ?thesis by (simp add: rows_ok_def)
  next
    case (Some p)
    then have l: "links (rows @ [t]) = insert (t_id t, p) (links rows)" by (auto simp: links_def)
    have "t_id t \<notin> Range (links rows)"
    proof
      assume "t_id t \<in> Range (links rows)"
      then obtain u where "u \<in> set rows" "t_parent_task_id u = Some (t_id t)" by (auto simp: links_def)
      then obtain q where "q \<in> set rows" "t_id q = t_id t" by (rule parent_rowE [OF ok])
      with fresh show False by (metis image_eqI)
    qed
    moreover have "t_id t \<noteq> p" using t(2) Some fresh by (auto simp: parent_ok_def)
    ultimately have "(p, t_id t) \<notin> (links rows)\<^sup>*"
      by (metis Range.intros rtranclE)
    with ok show ?thesis by (simp add: l acyclic_insert rows_ok_def)
  qed
  with ok fresh t par show ?thesis by (auto simp: rows_ok_def)
qed

text \<open>Rows may go as long as nobody's parent goes.\<close>

lemma rows_ok_delete:
  assumes ok: "rows_ok strict rows" and childless: "\<And>t q. t \<in> set rows \<Longrightarrow> q \<in> set rows \<Longrightarrow> \<not> p t \<Longrightarrow> p q
      \<Longrightarrow> t_parent_task_id t = Some (t_id q) \<Longrightarrow> t_user_id q = t_user_id t \<Longrightarrow> t_project_id q = t_project_id t \<Longrightarrow> False"
  shows "rows_ok strict (delete_where p rows)"
proof -
  have "links (delete_where p rows) \<subseteq> links rows" by (auto simp: links_def)
  then have "acyclic (links (delete_where p rows))" using ok by (auto simp: rows_ok_def intro: acyclic_subset)
  moreover have "parent_ok strict (delete_where p rows) t" if t: "t \<in> set rows" "\<not> p t" for t
    unfolding parent_ok_def
  proof (intro allI impI)
    fix i
    assume i: "t_parent_task_id t = Some i"
    then obtain q where q: "q \<in> set rows" "t_id q = i" "t_user_id q = t_user_id t"
      "t_project_id q = t_project_id t" "may_parent strict q"
      using parent_rowE [OF ok t(1) i] by blast
    moreover have "\<not> p q" using childless [OF t(1) q(1) t(2)] i q by blast
    ultimately show "\<exists>q \<in> set (delete_where p rows). t_id q = i \<and> t_user_id q = t_user_id t
        \<and> t_project_id q = t_project_id t \<and> may_parent strict q" by auto
  qed
  ultimately show ?thesis using ok by (auto simp: rows_ok_def)
qed

text \<open>The ancestors of a task belong to its owner, so the owner's edges reach all of them.\<close>

lemma links_owned:
  assumes ok: "rows_ok strict rows" and q: "\<exists>q \<in> set rows. t_id q = p \<and> t_user_id q = user"
    and path: "(p, x) \<in> (links rows)\<^sup>*"
  shows "(p, x) \<in> (parent_edges user rows)\<^sup>* \<and> (\<exists>r \<in> set rows. t_id r = x \<and> t_user_id r = user)"
  using path
proof (induction rule: rtrancl_induct)
  case base
  show ?case using q by simp
next
  case (step y z)
  then obtain t where t: "t \<in> set rows" "t_id t = y" "t_parent_task_id t = Some z" by (auto simp: links_def)
  from step.IH obtain r where r: "r \<in> set rows" "t_id r = y" "t_user_id r = user" by blast
  have "t = r" using ok t r by (auto simp: rows_ok_def intro: distinct_map_inj)
  with t r have "(y, z) \<in> parent_edges user rows" by (auto simp: parent_edges_def)
  moreover obtain q where "q \<in> set rows" "t_id q = z" "t_user_id q = user"
    using parent_rowE [OF ok t(1,3)] \<open>t = r\<close> r(3) by blast
  ultimately show ?case using rtrancl.rtrancl_into_rtrancl [OF step.IH [THEN conjunct1]] by blast
qed

lemma chain_decides:
  assumes "rows_ok strict rows" and "\<exists>q \<in> set rows. t_id q = p \<and> t_user_id q = user"
  shows "x \<in> set (parent_chain user rows p) \<longleftrightarrow> (p, x) \<in> (links rows)\<^sup>*"
proof
  assume "x \<in> set (parent_chain user rows p)"
  from parent_chain_sound [OF this] show "(p, x) \<in> (links rows)\<^sup>*"
    by (rule rtrancl_mono [THEN subsetD, rotated]) (auto simp: parent_edges_def links_def)
next
  assume "(p, x) \<in> (links rows)\<^sup>*"
  from links_owned [OF assms this] show "x \<in> set (parent_chain user rows p)"
    using assms(1) by (intro parent_chain_complete) (auto simp: rows_ok_def)
qed

text \<open>One row replaced.\<close>

definition replace_row :: "uuid \<Rightarrow> task_row \<Rightarrow> task_row list \<Rightarrow> task_row list" where
  "replace_row i t' rows = update_where (\<lambda>t. t_id t = i) (\<lambda>_. t') rows"

lemma rows_ok_replace:
  assumes ok: "rows_ok strict rows" and t: "t \<in> set rows" "t_id t = i" and same: "t_id t' = i" "t_user_id t' = t_user_id t"
    and t': "task_ok t'" "parent_ok strict rows t'"
    and up: "\<And>p. t_parent_task_id t' = Some p \<Longrightarrow> (p, i) \<notin> (links rows)\<^sup>*"
    and down: "\<And>u. u \<in> set rows \<Longrightarrow> t_parent_task_id u = Some i
       \<Longrightarrow> t_project_id t' = t_project_id t \<and> t_recurrence t' = NoRecurrence"
  shows "rows_ok strict (replace_row i t' rows)"
proof -
  let ?rows = "replace_row i t' rows"
  have set: "set ?rows = insert t' (set rows - {t})"
    using t ok unfolding replace_row_def set_update_where rows_ok_def
    by (auto dest: distinct_map_inj)
  have par: "parent_ok strict ?rows u" if u: "parent_ok strict rows u" "u = t' \<or> u \<in> set rows" for u
    unfolding parent_ok_def
  proof (intro allI impI)
    fix p
    assume p: "t_parent_task_id u = Some p"
    with u obtain q where q: "q \<in> set rows" "t_id q = p" "t_user_id q = t_user_id u"
      "t_project_id q = t_project_id u" "may_parent strict q" by (auto simp: parent_ok_def)
    show "\<exists>q \<in> set ?rows. t_id q = p \<and> t_user_id q = t_user_id u \<and> t_project_id q = t_project_id u
        \<and> may_parent strict q"
    proof (cases "q = t")
      case True
      then have "p = i" using q t by simp
      then have "u \<noteq> t'" using up [of p] p by auto
      then have "t_project_id t' = t_project_id t \<and> t_recurrence t' = NoRecurrence"
        using down [of u] u(2) p \<open>p = i\<close> by blast
      then show ?thesis using True q same \<open>p = i\<close> by (intro bexI [of _ t']) (auto simp: set may_parent_def)
    next
      case False
      then show ?thesis using q by (intro bexI [of _ q]) (auto simp: set)
    qed
  qed
  have "acyclic (links ?rows)"
  proof (cases "t_parent_task_id t'")
    case None
    then have "links ?rows \<subseteq> links rows" by (auto simp: links_def set)
    with ok show ?thesis by (auto simp: rows_ok_def intro: acyclic_subset)
  next
    case (Some p)
    then have "links ?rows \<subseteq> insert (i, p) (links rows)" using same by (auto simp: links_def set)
    moreover have "acyclic (insert (i, p) (links rows))"
      using ok up [OF Some] by (simp add: acyclic_insert rows_ok_def)
    ultimately show ?thesis by (rule acyclic_subset [rotated])
  qed
  moreover have "map t_id ?rows = map t_id rows"
    unfolding replace_row_def update_where_def using same by (auto simp: comp_def)
  ultimately show ?thesis using ok t' par by (auto simp: rows_ok_def set)
qed

text \<open>Changes of fields the forest does not read.\<close>

definition same_shape :: "task_row \<Rightarrow> task_row \<Rightarrow> bool" where
  "same_shape t u \<longleftrightarrow> t_id u = t_id t \<and> t_user_id u = t_user_id t \<and> t_parent_task_id u = t_parent_task_id t
     \<and> t_project_id u = t_project_id t \<and> t_recurrence u = t_recurrence t
     \<and> (t_recurrence_source_id u = t_recurrence_source_id t \<or> t_recurrence_source_id u = None)"

lemma rows_ok_same_shape:
  assumes ok: "rows_ok strict rows" and shape: "list_all2 same_shape rows rows'" and rows': "\<forall>t \<in> set rows'. task_ok t"
  shows "rows_ok strict rows'"
proof -
  have ids: "map t_id rows' = map t_id rows"
    using shape by (induction rule: list_all2_induct) (auto simp: same_shape_def)
  have old: "\<exists>u \<in> set rows. same_shape u t" if "t \<in> set rows'" for t
    using shape that by (metis in_set_conv_nth list_all2_conv_all_nth)
  have forth: "\<exists>u \<in> set rows'. same_shape t u" if "t \<in> set rows" for t
    using shape that by (metis in_set_conv_nth list_all2_conv_all_nth)
  have "links rows' \<subseteq> links rows" using old by (force simp: links_def same_shape_def)
  then have "acyclic (links rows')" using ok by (auto simp: rows_ok_def intro: acyclic_subset)
  moreover have "parent_ok strict rows' t" if t: "t \<in> set rows'" for t
    unfolding parent_ok_def
  proof (intro allI impI)
    fix p
    assume p: "t_parent_task_id t = Some p"
    from old [OF t] obtain u where u: "u \<in> set rows" "same_shape u t" by blast
    then have "t_parent_task_id u = Some p" using p by (simp add: same_shape_def)
    then obtain q where q: "q \<in> set rows" "t_id q = p" "t_user_id q = t_user_id u"
      "t_project_id q = t_project_id u" "may_parent strict q"
      using parent_rowE [OF ok u(1)] by blast
    from forth [OF q(1)] obtain q' where "q' \<in> set rows'" "same_shape q q'" by blast
    with q u show "\<exists>q \<in> set rows'. t_id q = p \<and> t_user_id q = t_user_id t \<and> t_project_id q = t_project_id t
        \<and> may_parent strict q" by (auto simp: same_shape_def may_parent_def)
  qed
  ultimately show ?thesis using ids ok rows' by (auto simp: rows_ok_def)
qed

end
