(* ===== verification/TaskInvariant.thy ===== *)
theory TaskInvariant
  imports TaskGraph
begin

text \<open>
  The operations of the store on projects, tasks and events keep \<open>tasks_ok\<close>. \<open>task_step\<close> collects them (and says
  which other writers of the task table it leaves out); the flag allows the Todoist import, the one of them that may put
  subtasks under a recurring task.
\<close>

section \<open>The identifier supply\<close>

definition grows :: "world \<Rightarrow> world \<Rightarrow> bool" where
  "grows w w' \<longleftrightarrow> uuid_supply w' = uuid_supply w \<and> drawn w \<le> drawn w'"

lemma grows_refl [simp]: "grows w w"
  by (simp add: grows_def)

lemma grows_trans [trans]: "grows w w' \<Longrightarrow> grows w' w'' \<Longrightarrow> grows w w''"
  by (simp add: grows_def)

lemma grows_drawn_ids: "grows w w' \<Longrightarrow> drawn_ids w \<subseteq> drawn_ids w'"
  unfolding grows_def drawn_ids_def by (auto intro!: image_mono)

lemma fresh_uuid: "inj (uuid_supply w) \<Longrightarrow> uuid_supply w (drawn w) \<notin> drawn_ids w"
  by (auto simp: drawn_ids_def dest: injD)

lemma drawn_id_new: "grows w w' \<Longrightarrow> drawn w < drawn w' \<Longrightarrow> uuid_supply w (drawn w) \<in> drawn_ids w'"
  by (auto simp: grows_def drawn_ids_def)

lemma grows_insert_job: "grows w (insert_job u c k key w)"
  by (simp add: grows_def insert_job_def new_uuid_def Let_def)

lemma grows_tasks_change: "grows w (tasks_change u w)"
  by (simp add: grows_def tasks_change_def new_uuid_def Let_def)

lemma grows_fold_tasks_change: "grows w (fold tasks_change us w)"
  by (induction us arbitrary: w) (auto intro: grows_trans grows_tasks_change)

lemma grows_same: "uuid_supply w' = uuid_supply w \<Longrightarrow> drawn w' = drawn w \<Longrightarrow> grows w w'"
  by (simp add: grows_def)

lemma grows_update_tasks: "grows w (update_tasks p f w)"
  unfolding update_tasks_def by (rule grows_trans [OF grows_same grows_fold_tasks_change]) simp_all

lemma grows_insert_task: "grows w (insert_task t w)"
  unfolding insert_task_def by (rule grows_trans [OF grows_same grows_tasks_change]) simp_all

lemma grows_delete_tasks: "grows w (delete_tasks p w)"
  unfolding delete_tasks_def Let_def
  by (rule grows_trans [OF grows_same grows_fold_tasks_change]) simp_all

lemma grows_delete_projects: "grows w (delete_projects p w)"
proof -
  have "grows w (delete_tasks q (w\<lparr>projects := a, files := b, saved_views := c\<rparr>))" for q a b c
    by (rule grows_trans [OF grows_same grows_delete_tasks]) simp_all
  then show ?thesis by (simp add: delete_projects_def Let_def grows_def)
qed

lemma grows_mark: "grows w (mark_event_for_sync u e d w)"
  unfolding mark_event_for_sync_def
  by (auto split: option.split intro: grows_trans [OF grows_same grows_insert_job])

lemma grows_detach: "grows w (detach_event_mapping u e w)"
  by (simp add: grows_def)

lemma grows_default: "grows w (snd (ensure_default_calendar u w))"
  by (simp add: grows_def ensure_default_calendar_def new_uuid_def insert_calendar_def Let_def split: option.split)

lemma grows_preferred: "grows w (snd (preferred_time_block_calendar u w))"
  by (auto simp: preferred_time_block_calendar_def grows_default split: list.split)

lemma grows_upsert: "grows w (snd (upsert_time_block e w))"
  by (simp add: grows_def)

lemma grows_delete_events: "grows w (delete_events p w)"
  by (simp add: grows_def)

lemma grows_leave: "grows w (leave_calendar u c e w)"
  unfolding leave_calendar_def
  by (auto split: option.split intro!: grows_trans [OF grows_mark grows_detach])

lemma grows_remove_event: "grows w (remove_task_calendar_event u i w)"
  unfolding remove_task_calendar_event_def
  by (auto split: option.split intro: grows_trans [OF grows_mark grows_delete_events])

lemma grows_new_uuid: "grows w (snd (new_uuid w))"
  by (simp add: grows_def)

lemma grows_sync_event:
  assumes "sync_task_calendar_event u t w = Inr w'"
  shows "grows w w'"
proof (cases "t_scheduled_start t = None \<or> t_scheduled_end t = None")
  case True
  with assms show ?thesis by (auto simp: sync_unscheduled grows_remove_event)
next
  case False
  then obtain a b where sched: "t_scheduled_start t = Some a" "t_scheduled_end t = Some b" by auto
  have "grows w (mark_event_for_sync u e False (snd (upsert_time_block v
      (snd (new_uuid (leave_calendar u c x (snd (preferred_time_block_calendar u w))))))))" for e v c x
    by (rule grows_trans [OF grows_trans [OF grows_trans [OF grows_trans [OF grows_preferred grows_leave]
        grows_new_uuid] grows_upsert] grows_mark])
  with assms show ?thesis by (auto simp: sync_scheduled [OF sched] Let_def split: option.splits)
qed

lemma grows_labels: "grows w (ensure_labels u ls w)"
  by (simp add: grows_def ensure_labels_def)

lemma grows_events: "grows w (w\<lparr>events := es\<rparr>)"
  by (simp add: grows_def)

lemma grows_projects: "grows w (w\<lparr>projects := ps\<rparr>)"
  by (simp add: grows_def)

text \<open>The same facts as rules that follow the composition of the code.\<close>

lemma grows_after:
  assumes "grows w v"
  shows "grows w (insert_job u c k key v)" "grows w (tasks_change u v)" "grows w (update_tasks p f v)"
    "grows w (insert_task t v)" "grows w (delete_tasks p v)" "grows w (delete_projects q v)"
    "grows w (mark_event_for_sync u e d v)" "grows w (leave_calendar u i x v)"
    "grows w (remove_task_calendar_event u i v)" "grows w (snd (new_uuid v))" "grows w (ensure_labels u ls v)"
    "grows w (delete_events r v)" "grows w (v\<lparr>events := es\<rparr>)" "grows w (v\<lparr>projects := ps\<rparr>)"
    "grows w (snd (preferred_time_block_calendar u v))"
  by (rule grows_trans [OF assms], rule grows_insert_job grows_tasks_change grows_update_tasks
      grows_insert_task grows_delete_tasks grows_delete_projects grows_mark grows_leave
      grows_remove_event grows_new_uuid grows_delete_events grows_preferred grows_labels grows_events grows_projects)+

section \<open>Changes of the table\<close>

lemma task_ok_unlink: "task_ok t \<Longrightarrow> task_ok (t\<lparr>t_recurrence_source_id := unlink p (t_recurrence_source_id t)\<rparr>)"
  by (auto simp: task_ok_def unlink_def split: option.splits)

lemma sources_okI:
  assumes "\<And>t i. t \<in> set rows \<Longrightarrow> t_recurrence_source_id t = Some i
      \<Longrightarrow> \<exists>s \<in> set rows. t_id s = i \<and> t_user_id s = t_user_id t \<and> t_status s = Completed"
    and "\<And>t u i. t \<in> set rows \<Longrightarrow> u \<in> set rows \<Longrightarrow> t_recurrence_source_id t = Some i
      \<Longrightarrow> t_recurrence_source_id u = Some i \<Longrightarrow> t = u"
  shows "sources_ok rows"
  unfolding sources_ok_def using assms by (metis not_None_eq)

lemma sources_okD:
  assumes "sources_ok rows" and "t \<in> set rows" and "t_recurrence_source_id t = Some i"
  shows "\<exists>s \<in> set rows. t_id s = i \<and> t_user_id s = t_user_id t \<and> t_status s = Completed"
    and "u \<in> set rows \<Longrightarrow> t_recurrence_source_id u = Some i \<Longrightarrow> t = u"
  using assms unfolding sources_ok_def by (blast, metis option.distinct(1))

lemma sources_ok_append:
  assumes ok: "sources_ok rows" and t: "\<And>i. t_recurrence_source_id t = Some i \<Longrightarrow>
      (\<exists>s \<in> set rows. t_id s = i \<and> t_user_id s = t_user_id t \<and> t_status s = Completed)
      \<and> (\<forall>u \<in> set rows. t_recurrence_source_id u \<noteq> Some i)"
  shows "sources_ok (rows @ [t])"
proof (rule sources_okI)
  fix u i
  assume "u \<in> set (rows @ [t])" and i: "t_recurrence_source_id u = Some i"
  then show "\<exists>s \<in> set (rows @ [t]). t_id s = i \<and> t_user_id s = t_user_id u \<and> t_status s = Completed"
    using sources_okD(1) [OF ok, of u i] t [of i] by (cases "u = t") auto
next
  fix u v i
  assume "u \<in> set (rows @ [t])" "v \<in> set (rows @ [t])" "t_recurrence_source_id u = Some i" "t_recurrence_source_id v = Some i"
  then show "u = v" using sources_okD(2) [OF ok, of u i v] t [of i] by (cases "u = t"; cases "v = t") auto
qed

text \<open>\<open>kept rows gone\<close>: what a deletion leaves of the table.\<close>

definition kept :: "(task_row \<Rightarrow> bool) \<Rightarrow> task_row list \<Rightarrow> task_row list" where
  "kept p rows = map (\<lambda>t. t\<lparr>t_recurrence_source_id :=
       unlink (\<lambda>i. i \<in> t_id ` {r \<in> set rows. p r}) (t_recurrence_source_id t)\<rparr>) (delete_where p rows)"

lemma tasks_delete_kept: "tasks (delete_tasks p w) = kept p (tasks w)"
  by (simp add: tasks_delete_tasks kept_def)

lemma in_kept:
  assumes "t \<in> set (kept p rows)"
  obtains u where "u \<in> set rows" "\<not> p u" "t = u\<lparr>t_recurrence_source_id :=
       unlink (\<lambda>i. i \<in> t_id ` {r \<in> set rows. p r}) (t_recurrence_source_id u)\<rparr>"
  using assms by (auto simp: kept_def)

lemma kept_mem: "u \<in> set rows \<Longrightarrow> \<not> p u \<Longrightarrow> u\<lparr>t_recurrence_source_id :=
       unlink (\<lambda>i. i \<in> t_id ` {r \<in> set rows. p r}) (t_recurrence_source_id u)\<rparr> \<in> set (kept p rows)"
  by (auto simp: kept_def)

lemma kept_ids: "t_id ` set (kept p rows) \<subseteq> t_id ` set rows"
  by (auto simp: kept_def)

lemma sources_ok_kept:
  assumes ok: "sources_ok rows"
  shows "sources_ok (kept p rows)"
proof -
  let ?gone = "\<lambda>i. i \<in> t_id ` {r \<in> set rows. p r}"
  let ?cut = "\<lambda>u. u\<lparr>t_recurrence_source_id := unlink ?gone (t_recurrence_source_id u)\<rparr>"
  show ?thesis
  proof (rule sources_okI)
    fix t i
    assume t: "t \<in> set (kept p rows)" and i: "t_recurrence_source_id t = Some i"
    obtain u where u: "u \<in> set rows" "t = ?cut u" using t by (rule in_kept)
    with i have ui: "t_recurrence_source_id u = Some i" "\<not> ?gone i" by (simp_all add: unlink_Some)
    from sources_okD(1) [OF ok u(1) ui(1)] obtain s
      where s: "s \<in> set rows" "t_id s = i" "t_user_id s = t_user_id u" "t_status s = Completed" by blast
    have "\<not> p s" using ui(2) s(1,2) by auto
    with kept_mem [of s rows p] s(1) show "\<exists>s \<in> set (kept p rows). t_id s = i \<and> t_user_id s = t_user_id t \<and> t_status s = Completed"
      by (intro bexI [of _ "?cut s"]) (simp_all add: s u)
  next
    fix t t' i
    assume t: "t \<in> set (kept p rows)" "t' \<in> set (kept p rows)"
      and i: "t_recurrence_source_id t = Some i" "t_recurrence_source_id t' = Some i"
    obtain u where u: "u \<in> set rows" "t = ?cut u" using t(1) by (rule in_kept)
    obtain u' where u': "u' \<in> set rows" "t' = ?cut u'" using t(2) by (rule in_kept)
    have "u = u'" using i u u' by (intro sources_okD(2) [OF ok, of u i]) (simp_all add: unlink_Some)
    with u u' show "t = t'" by simp
  qed
qed

lemma rows_ok_kept:
  assumes "rows_ok s rows" and "\<And>t q. t \<in> set rows \<Longrightarrow> q \<in> set rows \<Longrightarrow> \<not> p t \<Longrightarrow> p q
      \<Longrightarrow> t_parent_task_id t = Some (t_id q) \<Longrightarrow> t_user_id q = t_user_id t \<Longrightarrow> t_project_id q = t_project_id t \<Longrightarrow> False"
  shows "rows_ok s (kept p rows)"
proof (rule rows_ok_same_shape)
  show "rows_ok s (delete_where p rows)" using assms by (rule rows_ok_delete)
  then show "\<forall>t \<in> set (kept p rows). task_ok t"
    unfolding kept_def by (auto simp: rows_ok_def intro: task_ok_unlink)
  show "list_all2 same_shape (delete_where p rows) (kept p rows)"
    by (simp add: kept_def list_all2_map2 same_shape_def list_all2_refl unlink_def split: option.split)
qed

lemma sources_ok_replace:
  assumes ok: "sources_ok rows" and ids: "distinct (map t_id rows)" and t: "t \<in> set rows" "t_id t = i"
    and same: "t_id t' = i" "t_user_id t' = t_user_id t" "t_recurrence_source_id t' = t_recurrence_source_id t"
    and fin: "t_status t' = Completed \<or> (\<forall>u \<in> set rows. t_recurrence_source_id u \<noteq> Some i)"
  shows "sources_ok (replace_row i t' rows)"
proof -
  have set: "set (replace_row i t' rows) = insert t' (set rows - {t})"
    using t ids unfolding replace_row_def set_update_where by (auto dest: distinct_map_inj)
  have src: "\<exists>s \<in> set (replace_row i t' rows). t_id s = j \<and> t_user_id s = t_user_id u \<and> t_status s = Completed"
    if u: "u \<in> set rows" "t_recurrence_source_id u = Some j" for u j
  proof -
    obtain s where s: "s \<in> set rows" "t_id s = j" "t_user_id s = t_user_id u" "t_status s = Completed"
      using ok u by (auto simp: sources_ok_def)
    show ?thesis
    proof (cases "s = t")
      case True
      then have "t_status t' = Completed" using fin u s t by auto
      with True s same t show ?thesis unfolding set by auto
    next
      case False
      with s show ?thesis unfolding set by auto
    qed
  qed
  have uniq: "u = u'" if "u \<in> set (replace_row i t' rows)" "u' \<in> set (replace_row i t' rows)"
    "t_recurrence_source_id u \<noteq> None" "t_recurrence_source_id u = t_recurrence_source_id u'" for u u'
  proof -
    have "(if u = t' then t else u) = (if u' = t' then t else u')"
      using ok that t(1) same(3) unfolding set sources_ok_def by (auto split: if_splits)
    with that(1,2) show ?thesis unfolding set by (auto split: if_splits)
  qed
  have "\<exists>s \<in> set (replace_row i t' rows). t_id s = j \<and> t_user_id s = t_user_id u \<and> t_status s = Completed"
    if u: "u \<in> set (replace_row i t' rows)" "t_recurrence_source_id u = Some j" for u j
    using src [of u j] src [of t j] t same u unfolding set by (metis DiffD1 insertE)
  with uniq show ?thesis unfolding sources_ok_def by blast
qed

lemma sources_ok_same:
  assumes ok: "sources_ok rows" and shape: "list_all2 (\<lambda>t u. same_shape t u
      \<and> t_recurrence_source_id u = t_recurrence_source_id t \<and> t_status u = t_status t) rows rows'"
    and ids: "distinct (map t_id rows)"
  shows "sources_ok rows'"
proof -
  let ?r = "\<lambda>t u. same_shape t u \<and> t_recurrence_source_id u = t_recurrence_source_id t \<and> t_status u = t_status t"
  have old: "\<exists>u \<in> set rows. ?r u t" if "t \<in> set rows'" for t
    using shape that by (metis (mono_tags, lifting) in_set_conv_nth list_all2_conv_all_nth)
  have forth: "\<exists>u \<in> set rows'. ?r t u" if "t \<in> set rows" for t
    using shape that by (metis (mono_tags, lifting) in_set_conv_nth list_all2_conv_all_nth)
  have "map t_id rows' = map t_id rows"
    using shape by (induction rule: list_all2_induct) (auto simp: same_shape_def)
  then have ids': "distinct (map t_id rows')" using ids by simp
  have "\<exists>s \<in> set rows'. t_id s = i \<and> t_user_id s = t_user_id t \<and> t_status s = Completed"
    if "t \<in> set rows'" "t_recurrence_source_id t = Some i" for t i
  proof -
    from old [OF that(1)] obtain u where u: "u \<in> set rows" "?r u t" by blast
    with that(2) obtain s where s: "s \<in> set rows" "t_id s = i" "t_user_id s = t_user_id u" "t_status s = Completed"
      using ok by (auto simp: sources_ok_def)
    from forth [OF s(1)] obtain s' where "s' \<in> set rows'" "?r s s'" by blast
    with s u show ?thesis by (intro bexI [of _ s']) (auto simp: same_shape_def)
  qed
  moreover have "t = t'" if t: "t \<in> set rows'" "t' \<in> set rows'"
    "t_recurrence_source_id t \<noteq> None" "t_recurrence_source_id t = t_recurrence_source_id t'" for t t'
  proof -
    from old t(1,2) obtain u u' where "u \<in> set rows" "?r u t" "u' \<in> set rows" "?r u' t'" by meson
    then have "u = u'" "t_id t = t_id u" "t_id t' = t_id u'"
      using ok t(3,4) by (auto simp: sources_ok_def same_shape_def)
    then show ?thesis using ids' t(1,2) by (metis distinct_map_inj)
  qed
  ultimately show ?thesis unfolding sources_ok_def by blast
qed

section \<open>Effects of the operations\<close>

lemma validate_schedule_ok:
  "validate_schedule a b = Inr u \<Longrightarrow>
   schedule_ok a b"
  by (auto simp: validate_schedule_def split: option.splits)

lemma validate_task_fields_ok:
  assumes "validate_task_fields title description due_at a b r parent = Inr u"
  shows "(r \<noteq> NoRecurrence \<longrightarrow> due_at \<noteq> None \<and> parent = None)"
    "schedule_ok a b"
    "trim title \<noteq> []" "chars_count (trim title) \<le> 240"
  using assms by (auto simp: validate_task_fields_def dest: validate_schedule_ok)

lemma validate_relationships_parent:
  assumes "validate_task_relationships u project parent w = Inr x" and "parent = Some p"
  shows "\<exists>q \<in> set (tasks w). t_id q = p \<and> t_user_id q = u \<and> t_project_id q = project \<and> t_recurrence q = NoRecurrence"
  using assms by (auto simp: validate_task_relationships_def task_by_id_def split: option.splits dest: row_by_Some)

lemma create_task_effect:
  assumes "create_task pf u req w = Inr (a, w')"
  shows "\<exists>t. tasks w' = tasks w @ [t] \<and> a = task.truncate t \<and> t_id t = uuid_supply w (drawn w) \<and> t_user_id t = u
    \<and> t_recurrence_source_id t = None \<and> task_ok t \<and> parent_ok s (tasks w) t
    \<and> grows w w' \<and> drawn w < drawn w' \<and> projects w' = projects w"
proof -
  from assms obtain ls where fields: "validate_task_fields (ct_title req) (ct_description req) (ct_due_at req)
       (ct_scheduled_start req) (ct_scheduled_end req) (ct_recurrence req) (ct_parent_task_id req) = Inr ()"
    and rel: "validate_task_relationships u (ct_project_id req) (ct_parent_task_id req) w = Inr ()"
    and rest: "(let position = next_task_position u w;
         completed_at = (if ct_status req = Completed then Some (utc_now pf) else None);
         (i, w) = new_uuid w;
         t = new_task i u (ct_project_id req) (ct_parent_task_id req) (trim (ct_title req))
               (trim (ct_description req)) (ct_due_at req) (ct_scheduled_start req)
               (ct_scheduled_end req) (ct_status req) (ct_priority req) (ct_recurrence req) ls
               (ct_remind_at req) position completed_at None (now w);
         w = ensure_labels u (t_labels t) (insert_task t w)
     in bind_res (sync_task_calendar_event u t w) (\<lambda>w. Inr (task.truncate t, w))) = Inr (a, w')"
    unfolding create_task_def by auto
  define t where "t = new_task (uuid_supply w (drawn w)) u (ct_project_id req) (ct_parent_task_id req) (trim (ct_title req))
     (trim (ct_description req)) (ct_due_at req) (ct_scheduled_start req) (ct_scheduled_end req) (ct_status req)
     (ct_priority req) (ct_recurrence req) ls (ct_remind_at req) (next_task_position u w)
     (if ct_status req = Completed then Some (utc_now pf) else None) None (now w)"
  let ?w1 = "ensure_labels u (t_labels t) (insert_task t (snd (new_uuid w)))"
  from rest have sync: "sync_task_calendar_event u t ?w1 = Inr w'" and a: "a = task.truncate t"
    by (auto simp: Let_def split_beta t_def)
  have "tasks w' = tasks w @ [t]" "projects w' = projects w"
    using sync_task_calendar_event_frame [OF sync] by (simp_all add: ensure_labels_def)
  moreover have "task_ok t"
    using validate_task_fields_ok [OF fields] by (simp add: t_def new_task_def task_ok_def)
  moreover have "parent_ok s (tasks w) t"
    using validate_relationships_parent [OF rel] by (auto simp: t_def new_task_def parent_ok_def may_parent_def)
  moreover have "grows (snd (new_uuid w)) w'"
    by (rule grows_trans [OF grows_after(11) [OF grows_after(4) [OF grows_refl]] grows_sync_event [OF sync]])
  then have "grows w w'" "drawn w < drawn w'" by (auto simp: grows_def)
  ultimately show ?thesis using a by (intro exI [of _ t]) (simp add: t_def new_task_def)
qed

lemma tasks_ok_append:
  assumes "tasks_ok s w" and "tasks w' = tasks w @ [t]" and "t_id t = uuid_supply w (drawn w)"
    and "grows w w'" and "drawn w < drawn w'" and "task_ok t" and "parent_ok s (tasks w) t"
    and "\<And>i. t_recurrence_source_id t = Some i \<Longrightarrow>
      (\<exists>x \<in> set (tasks w). t_id x = i \<and> t_user_id x = t_user_id t \<and> t_status x = Completed)
      \<and> (\<forall>u \<in> set (tasks w). t_recurrence_source_id u \<noteq> Some i)"
  shows "tasks_ok s w'"
proof -
  have inj: "inj (uuid_supply w)" and ids: "t_id ` set (tasks w) \<subseteq> drawn_ids w"
    and ok: "rows_ok s (tasks w)" "sources_ok (tasks w)" using assms(1) by (simp_all add: tasks_ok_def)
  have "t_id t \<notin> t_id ` set (tasks w)" using fresh_uuid [OF inj] ids assms(3) by auto
  then have "rows_ok s (tasks w')" using rows_ok_append [OF ok(1)] assms by simp
  moreover have "sources_ok (tasks w')" using sources_ok_append [OF ok(2) assms(8)] assms(2) by simp
  moreover have "t_id ` set (tasks w') \<subseteq> drawn_ids w'"
    using assms(2,3) ids grows_drawn_ids [OF assms(4)] drawn_id_new [OF assms(4,5)] by auto
  ultimately show ?thesis using inj assms(4) by (simp add: tasks_ok_def grows_def)
qed

lemma tasks_ok_create:
  assumes "tasks_ok s w" and "create_task pf u req w = Inr (a, w')"
  shows "tasks_ok s w'"
proof -
  obtain t where t: "tasks w' = tasks w @ [t] \<and> a = task.truncate t \<and> t_id t = uuid_supply w (drawn w)
    \<and> t_user_id t = u \<and> t_recurrence_source_id t = None \<and> task_ok t \<and> parent_ok s (tasks w) t
    \<and> grows w w' \<and> drawn w < drawn w' \<and> projects w' = projects w"
    using create_task_effect [OF assms(2), of s] by (rule exE)
  show ?thesis by (rule tasks_ok_append [OF assms(1), of _ t]) (simp_all add: t)
qed

text \<open>Deletions.\<close>

lemma tasks_ok_kept:
  assumes "tasks_ok s w" and "tasks w' = kept p (tasks w)" and "grows w w'"
    and "\<And>t q. t \<in> set (tasks w) \<Longrightarrow> q \<in> set (tasks w) \<Longrightarrow> \<not> p t \<Longrightarrow> p q
      \<Longrightarrow> t_parent_task_id t = Some (t_id q) \<Longrightarrow> t_user_id q = t_user_id t \<Longrightarrow> t_project_id q = t_project_id t \<Longrightarrow> False"
  shows "tasks_ok s w'"
proof -
  have "rows_ok s (tasks w')"
    unfolding assms(2) by (rule rows_ok_kept, use assms(1) in \<open>simp add: tasks_ok_def\<close>, rule assms(4))
  moreover have "sources_ok (tasks w')" using assms(1,2) by (simp add: tasks_ok_def sources_ok_kept)
  moreover have "t_id ` set (tasks w') \<subseteq> drawn_ids w'"
    using assms(1,2) kept_ids [of p "tasks w"] grows_drawn_ids [OF assms(3)] by (auto simp: tasks_ok_def)
  ultimately show ?thesis using assms(1,3) by (simp add: tasks_ok_def grows_def)
qed

lemma tasks_ok_delete_task:
  assumes "tasks_ok s w" and "delete_task u i n w = Inr (a, w')"
  shows "tasks_ok s w'"
proof -
  let ?hit = "\<lambda>t. t_id t = i \<and> t_user_id t = u \<and> t_version t = n"
  let ?w1 = "remove_task_calendar_event u i w"
  from assms(2) have none: "\<not> has_subtasks u i w" and w': "w' = delete_tasks ?hit ?w1"
    by (auto simp: delete_task_def Let_def split: if_splits)
  show ?thesis
  proof (rule tasks_ok_kept [OF assms(1)])
    show "grows w w'" unfolding w' by (intro grows_after grows_refl)
    show "tasks w' = kept ?hit (tasks w)" unfolding w' tasks_delete_kept by simp
    fix t q
    assume "t \<in> set (tasks w)" "?hit q" "t_parent_task_id t = Some (t_id q)" "t_user_id q = t_user_id t"
    then show False using none unfolding has_subtasks_def by (elim conjE) metis
  qed
qed

text \<open>Changes in place that leave the shape of the forest and the completion state alone.\<close>

definition same_state :: "task_row \<Rightarrow> task_row \<Rightarrow> bool" where
  "same_state t u \<longleftrightarrow> same_shape t u \<and> t_recurrence_source_id u = t_recurrence_source_id t
     \<and> t_status u = t_status t"

lemma tasks_ok_same:
  assumes ok: "tasks_ok s w" and rel: "list_all2 (\<lambda>t u. same_state t u \<and> (task_ok t \<longrightarrow> task_ok u)) (tasks w) (tasks w')"
    and grows: "grows w w'"
  shows "tasks_ok s w'"
proof -
  have rows: "rows_ok s (tasks w)" "sources_ok (tasks w)" using ok by (simp_all add: tasks_ok_def)
  have "\<forall>t \<in> set (tasks w'). task_ok t"
  proof
    fix u
    assume "u \<in> set (tasks w')"
    then obtain i where i: "i < length (tasks w')" "u = tasks w' ! i" by (auto simp: in_set_conv_nth)
    have "i < length (tasks w)" using rel i(1) by (simp add: list_all2_lengthD)
    moreover from this have "task_ok (tasks w ! i)" using rows(1) by (simp add: rows_ok_def)
    ultimately show "task_ok u" using list_all2_nthD [OF rel, of i] i(2) by simp
  qed
  moreover have "list_all2 same_shape (tasks w) (tasks w')"
    using rel by (rule list_all2_mono) (simp add: same_state_def)
  ultimately have "rows_ok s (tasks w')" by (rule rows_ok_same_shape [OF rows(1), rotated])
  moreover have "sources_ok (tasks w')"
    by (rule sources_ok_same [OF rows(2) list_all2_mono [OF rel]]) (use rows(1) in \<open>auto simp: same_state_def rows_ok_def\<close>)
  moreover have "map t_id (tasks w') = map t_id (tasks w)"
    using rel by (induction rule: list_all2_induct) (auto simp: same_state_def same_shape_def)
  then have "t_id ` set (tasks w') = t_id ` set (tasks w)" by (metis set_map)
  ultimately show ?thesis using ok grows grows_drawn_ids [OF grows] by (auto simp: tasks_ok_def grows_def)
qed

lemma list_all2_update_where:
  "(\<And>t. R t t) \<Longrightarrow> (\<And>t. p t \<Longrightarrow> R t (f t)) \<Longrightarrow> list_all2 R rs (update_where p f rs)"
  by (simp add: update_where_def list_all2_map2 list_all2_refl)

lemma same_state_refl [simp]: "same_state t t"
  by (simp add: same_state_def same_shape_def)

lemma same_state_trans: "same_state t u \<Longrightarrow> same_state u v \<Longrightarrow> same_state t v"
  by (auto simp: same_state_def same_shape_def)

lemma tasks_ok_schedule:
  assumes "tasks_ok s w" and "schedule_ok a b"
  shows "tasks_ok s (set_task_schedule u i a b w)"
proof (rule tasks_ok_same [OF assms(1)])
  show "grows w (set_task_schedule u i a b w)" unfolding set_task_schedule_def by (rule grows_update_tasks)
  show "list_all2 (\<lambda>t u. same_state t u \<and> (task_ok t \<longrightarrow> task_ok u)) (tasks w) (tasks (set_task_schedule u i a b w))"
    using assms(2) unfolding set_task_schedule_def statement_effects
    by (intro list_all2_update_where) (auto simp: same_state_def same_shape_def task_ok_def split: option.splits)
qed

lemma assign_positions_state:
  "list_all2 (\<lambda>t u. same_state t u \<and> (task_ok t \<longrightarrow> task_ok u)) (tasks w) (tasks (assign_positions user is n w))
   \<and> grows w (assign_positions user is n w)"
proof (induction "is" arbitrary: n w)
  case Nil
  then show ?case by (simp add: list_all2_refl)
next
  case (Cons i "is")
  let ?R = "\<lambda>t u. same_state t u \<and> (task_ok t \<longrightarrow> task_ok u)"
  let ?w = "update_tasks (\<lambda>t. t_id t = i \<and> t_user_id t = user) (\<lambda>t. t\<lparr>t_position := (int n + 1) * 1024\<rparr>) w"
  have "list_all2 ?R (tasks w) (tasks ?w)" unfolding statement_effects
    by (intro list_all2_update_where) (auto simp: same_state_def same_shape_def task_ok_def)
  then have "list_all2 ?R (tasks w) (tasks (assign_positions user is (Suc n) ?w))"
    by (rule list_all2_trans [rotated, OF _ Cons.IH [THEN conjunct1]]) (auto intro: same_state_trans)
  moreover have "grows w (assign_positions user is (Suc n) ?w)"
    using Cons.IH grows_update_tasks by (blast intro: grows_trans)
  ultimately show ?case by simp
qed

lemma tasks_ok_reorder: "tasks_ok s w \<Longrightarrow> reorder_tasks u req w = Inr (a, w') \<Longrightarrow> tasks_ok s w'"
  using assign_positions_state by (auto simp: reorder_tasks_def Let_def intro: tasks_ok_same)

lemma fold_remove_events_frame:
  "tasks (fold (remove_task_calendar_event u) is w) = tasks w"
  "projects (fold (remove_task_calendar_event u) is w) = projects w"
  "grows w (fold (remove_task_calendar_event u) is w)"
  by (induction "is" arbitrary: w) (auto intro: grows_trans [OF grows_remove_event])

lemma tasks_delete_projects:
  "tasks (delete_projects p w) =
     (let hit = (\<lambda>x u. \<exists>i. x = Some i \<and> (i, u) \<in> set (map (\<lambda>q. (pr_id q, pr_user_id q)) (filter p (projects w))))
      in update_where (\<lambda>t. hit (t_recurrence_project_id t) (t_user_id t))
           (\<lambda>t. t\<lparr>t_recurrence_project_id := None, t_version := t_version t + 1, t_updated_at := now w\<rparr>)
           (kept (\<lambda>t. hit (t_project_id t) (t_user_id t)) (tasks w)))"
  by (simp add: delete_projects_def Let_def tasks_delete_kept)

lemma tasks_ok_delete_project:
  assumes "tasks_ok s w" and "delete_project u i n w = Inr (a, w')"
  shows "tasks_ok s w'"
proof -
  from assms(2) obtain p "is" where w': "w' = delete_projects p (fold (remove_task_calendar_event u) is w)"
    by (auto simp: delete_project_def Let_def split: if_splits)
  let ?w1 = "fold (remove_task_calendar_event u) is w"
  define keys where "keys = set (map (\<lambda>q. (pr_id q, pr_user_id q)) (filter p (projects w)))"
  let ?gone = "\<lambda>t. \<exists>i. t_project_id t = Some i \<and> (i, t_user_id t) \<in> keys"
  have grows: "grows w w'" unfolding w' by (rule grows_trans [OF fold_remove_events_frame(3) grows_delete_projects])
  have "tasks_ok s (w'\<lparr>tasks := kept ?gone (tasks w)\<rparr>)"
  proof (rule tasks_ok_kept [OF assms(1)])
    show "grows w (w'\<lparr>tasks := kept ?gone (tasks w)\<rparr>)" using grows by (simp add: grows_def)
    fix t q
    assume "\<not> ?gone t" "?gone q" "t_user_id q = t_user_id t" "t_project_id q = t_project_id t"
    then show False by auto
  qed simp
  then show ?thesis
  proof (rule tasks_ok_same)
    show "grows (w'\<lparr>tasks := kept ?gone (tasks w)\<rparr>) w'" by (simp add: grows_def)
    show "list_all2 (\<lambda>t u. same_state t u \<and> (task_ok t \<longrightarrow> task_ok u))
        (tasks (w'\<lparr>tasks := kept ?gone (tasks w)\<rparr>)) (tasks w')"
    proof -
      obtain q clock where "tasks w' = update_where q
          (\<lambda>t. t\<lparr>t_recurrence_project_id := None, t_version := t_version t + 1, t_updated_at := clock\<rparr>)
          (kept ?gone (tasks w))"
        unfolding w' tasks_delete_projects Let_def fold_remove_events_frame keys_def by blast
      then show ?thesis
        by (auto intro!: list_all2_update_where simp: same_state_def same_shape_def task_ok_def)
    qed
  qed
qed

text \<open>Updates. The row is replaced; before that a reopened task may lose its successor.\<close>

lemma update_where_replace:
  assumes "distinct (map t_id rows)" and "t \<in> set rows" and "p t" and "\<And>u. p u \<Longrightarrow> t_id u = t_id t"
  shows "update_where p f rows = replace_row (t_id t) (f t) rows"
  unfolding update_where_def replace_row_def
proof (rule map_cong [OF refl])
  fix u
  assume "u \<in> set rows"
  then have "t_id u = t_id t \<longleftrightarrow> u = t" using distinct_map_inj [OF assms(1) _ assms(2)] by blast
  then show "(if p u then f u else u) = (if t_id u = t_id t then f t else u)"
    using assms(3) assms(4) [of u] by (cases "p u") auto
qed

lemma successor_has_no_children:
  assumes "rows_ok s rows" and "n \<in> set rows" and "t_recurrence_source_id n = Some i" and "t_version n = 1"
    and "t \<in> set rows" and "t_parent_task_id t = Some (t_id n)"
  shows False
proof -
  obtain q where q: "q \<in> set rows" "t_id q = t_id n" "may_parent s q" using assms(1,5,6) by (rule parent_rowE)
  have "q = n" using assms(1,2) q by (auto simp: rows_ok_def intro: distinct_map_inj)
  moreover have "task_ok n" using assms(1,2) by (simp add: rows_ok_def)
  ultimately show False using q(3) assms(3,4) by (auto simp: task_ok_def may_parent_def)
qed

lemma reopen_effect:
  assumes ok: "tasks_ok s w" and res: "remove_next_occurrence_for_reopen u i w = Inr w'"
    and owner: "\<exists>t \<in> set (tasks w). t_id t = i \<and> t_user_id t = u"
  shows "tasks_ok s w'" and "grows w w'" and "\<forall>t \<in> set (tasks w'). t_recurrence_source_id t \<noteq> Some i"
    and "\<And>q. q \<in> set (tasks w) \<Longrightarrow> t_recurrence q = NoRecurrence
      \<Longrightarrow> \<exists>q' \<in> set (tasks w'). same_shape q q'"
    and "\<And>t. t \<in> set (tasks w') \<Longrightarrow> \<exists>q \<in> set (tasks w). same_shape q t"
proof -
  let ?next = "\<lambda>t. t_recurrence_source_id t = Some i \<and> t_user_id t = u"
  have rows: "rows_ok s (tasks w)" and src: "sources_ok (tasks w)" using ok by (simp_all add: tasks_ok_def)
  have same_owner: "t_user_id t = u" if t: "t \<in> set (tasks w)" "t_recurrence_source_id t = Some i" for t
    using sources_okD(1) [OF src t] owner rows unfolding rows_ok_def by (metis distinct_map_inj)
  have "tasks_ok s w' \<and> grows w w' \<and> (\<forall>t \<in> set (tasks w'). t_recurrence_source_id t \<noteq> Some i)
      \<and> (\<forall>q \<in> set (tasks w). t_recurrence q = NoRecurrence \<longrightarrow> (\<exists>q' \<in> set (tasks w'). same_shape q q'))
      \<and> (\<forall>t \<in> set (tasks w'). \<exists>q \<in> set (tasks w). same_shape q t)"
  proof (cases "row_by ?next (tasks w)")
    case None
    then have "w' = w" using res by (simp add: remove_next_occurrence_for_reopen_def)
    moreover have "\<forall>t \<in> set (tasks w). t_recurrence_source_id t \<noteq> Some i"
      using None same_owner by (auto simp: row_by_None)
    ultimately show ?thesis using ok by (auto simp: same_shape_def)
  next
    case (Some n)
    let ?p = "\<lambda>t. t_id t = t_id n \<and> t_user_id t = u"
    from Some have n: "n \<in> set (tasks w)" "t_recurrence_source_id n = Some i" "t_user_id n = u"
      using row_by_Some [OF Some] by auto
    from res Some have v: "t_version n = 1" and w': "w' = delete_tasks ?p w"
      by (auto simp: remove_next_occurrence_for_reopen_def split: if_splits)
    have only: "q = n" if "q \<in> set (tasks w)" "?p q" for q
      using rows n(1) that by (auto simp: rows_ok_def intro: distinct_map_inj)
    have kept: "tasks w' = kept ?p (tasks w)" by (simp add: w' tasks_delete_kept)
    have "tasks_ok s w'"
    proof (rule tasks_ok_kept [OF ok kept])
      show "grows w w'" unfolding w' by (rule grows_delete_tasks)
      fix t q
      assume "t \<in> set (tasks w)" "q \<in> set (tasks w)" "?p q" "t_parent_task_id t = Some (t_id q)"
      with only show False using successor_has_no_children [OF rows n(1,2) v] by simp
    qed
    moreover have "t_recurrence_source_id t \<noteq> Some i" if t: "t \<in> set (tasks w')" for t
    proof
      assume i: "t_recurrence_source_id t = Some i"
      from t obtain x where x: "x \<in> set (tasks w)" "\<not> ?p x" "t = x\<lparr>t_recurrence_source_id :=
          unlink (\<lambda>i. i \<in> t_id ` {r \<in> set (tasks w). ?p r}) (t_recurrence_source_id x)\<rparr>"
        unfolding kept by (rule in_kept)
      with i have "t_recurrence_source_id x = Some i" by (simp add: unlink_Some)
      then have "x = n" using sources_okD(2) [OF src x(1) _ n(1,2)] by blast
      with x(2) n(3) show False by simp
    qed
    moreover have "\<exists>q' \<in> set (tasks w'). same_shape q q'" if q: "q \<in> set (tasks w)" "t_recurrence q = NoRecurrence" for q
    proof -
      have "t_recurrence n \<noteq> NoRecurrence" using rows n v by (auto simp: rows_ok_def task_ok_def)
      then have "\<not> ?p q" using only [OF q(1)] q(2) by auto
      with kept_mem [of q "tasks w" ?p] q(1) show ?thesis unfolding kept
        by (intro bexI) (auto simp: same_shape_def unlink_def split: option.split)
    qed
    moreover have "\<exists>q \<in> set (tasks w). same_shape q t" if t: "t \<in> set (tasks w')" for t
      using t unfolding kept
      by (rule in_kept, intro bexI) (auto simp: same_shape_def unlink_def split: option.split)
    ultimately show ?thesis using grows_delete_tasks unfolding w' by blast
  qed
  then show "tasks_ok s w'" "grows w w'" "\<forall>t \<in> set (tasks w'). t_recurrence_source_id t \<noteq> Some i"
    "\<And>q. q \<in> set (tasks w) \<Longrightarrow> t_recurrence q = NoRecurrence \<Longrightarrow> \<exists>q' \<in> set (tasks w'). same_shape q q'"
    "\<And>t. t \<in> set (tasks w') \<Longrightarrow> \<exists>q \<in> set (tasks w). same_shape q t"
    by blast+
qed

lemma schedule_ok_shift [simp]:
  "schedule_ok (map_option (\<lambda>v. v + d) a) (map_option (\<lambda>v. v + d) b) = schedule_ok a b"
  by (cases a; cases b) simp_all

lemma successor_source_schedule:
  "task_ok t \<Longrightarrow> schedule_ok (t_scheduled_start (successor_source t)) (t_scheduled_end (successor_source t))"
  by (auto simp: task_ok_def successor_source_def split: option.splits)

lemma successor_source_id [simp]:
  "t_id (successor_source t) = t_id t" "t_user_id (successor_source t) = t_user_id t"
  by (simp_all add: successor_source_def split: option.split)

lemma create_next_effect:
  assumes "create_next_recurring_task pf u i w = Inr w'"
  shows "\<exists>t n. task_by_id u i w = Some t \<and> tasks w' = tasks w @ [n] \<and> grows w w' \<and> drawn w < drawn w'
    \<and> (\<exists>d d'. t_due_at (successor_source t) = Some d
         \<and> next_recurrence_date pf d (t_recurrence (successor_source t)) = Inr d'
         \<and> n = new_task (uuid_supply w (drawn w)) u (t_project_id (successor_source t)) None
              (t_title (successor_source t)) (t_description (successor_source t)) (Some d')
              (map_option (\<lambda>v. v + (d' - d)) (t_scheduled_start (successor_source t)))
              (map_option (\<lambda>v. v + (d' - d)) (t_scheduled_end (successor_source t))) Todo
              (t_priority (successor_source t)) (t_recurrence (successor_source t)) (t_labels (successor_source t))
              (map_option (\<lambda>v. v + (d' - d)) (t_remind_at (successor_source t)))
              (next_task_position u w) None (Some i) (now w))
    \<and> (\<forall>x \<in> set (tasks w). t_recurrence_source_id x \<noteq> Some i)"
proof -
  from assms obtain t d d' where t: "task_by_id u i w = Some t" "t_due_at (successor_source t) = Some d"
    "next_recurrence_date pf d (t_recurrence (successor_source t)) = Inr d'"
    by (auto simp: create_next_recurring_task_def load_def Let_def)
  have ti: "t_id t = i" using t(1) by (auto simp: task_by_id_def dest: row_by_Some)
  let ?s = "successor_source t"
  let ?w1 = "ensure_labels u (t_labels ?s) w"
  define n where "n = new_task (uuid_supply w (drawn w)) u (t_project_id ?s) None
      (t_title ?s) (t_description ?s) (Some d')
      (map_option (\<lambda>v. v + (d' - d)) (t_scheduled_start ?s)) (map_option (\<lambda>v. v + (d' - d)) (t_scheduled_end ?s)) Todo
      (t_priority ?s) (t_recurrence ?s) (t_labels ?s) (map_option (\<lambda>v. v + (d' - d)) (t_remind_at ?s))
      (next_task_position u w) None (Some i) (now w)"
  have pos: "next_task_position u ?w1 = next_task_position u w"
    by (simp add: next_task_position_def ensure_labels_def)
  from assms t ti have sync: "sync_task_calendar_event u n (insert_task n (snd (new_uuid ?w1))) = Inr w'"
    and none: "\<forall>x \<in> set (tasks w). t_recurrence_source_id x \<noteq> Some i"
    unfolding n_def
    by (auto simp: create_next_recurring_task_def load_def Let_def new_uuid_def ensure_labels_def
        next_task_position_def)
  have "tasks w' = tasks w @ [n]"
    using sync_task_calendar_event_frame [OF sync] by (simp add: ensure_labels_def)
  moreover have "grows (snd (new_uuid ?w1)) w'"
    by (rule grows_trans [OF grows_after(4) [OF grows_refl] grows_sync_event [OF sync]])
  then have "grows w w'" "drawn w < drawn w'" by (auto simp: grows_def ensure_labels_def)
  ultimately show ?thesis using t none n_def by blast
qed

lemma tasks_ok_create_next:
  assumes ok: "tasks_ok s w" and res: "create_next_recurring_task pf u i w = Inr w'"
    and t: "task_by_id u i w = Some t" "t_status t = Completed"
  shows "tasks_ok s w'"
proof -
  from create_next_effect [OF res] obtain n d d' where
    n: "tasks w' = tasks w @ [n]" "grows w w'" "drawn w < drawn w'"
      "next_recurrence_date pf d (t_recurrence (successor_source t)) = Inr d'"
      "n = new_task (uuid_supply w (drawn w)) u (t_project_id (successor_source t)) None
              (t_title (successor_source t)) (t_description (successor_source t)) (Some d')
              (map_option (\<lambda>v. v + (d' - d)) (t_scheduled_start (successor_source t)))
              (map_option (\<lambda>v. v + (d' - d)) (t_scheduled_end (successor_source t))) Todo
              (t_priority (successor_source t)) (t_recurrence (successor_source t)) (t_labels (successor_source t))
              (map_option (\<lambda>v. v + (d' - d)) (t_remind_at (successor_source t)))
              (next_task_position u w) None (Some i) (now w)"
      "\<forall>x \<in> set (tasks w). t_recurrence_source_id x \<noteq> Some i"
    unfolding t(1) option.inject by (elim exE conjE) (rule that, simp_all)
  have row: "t \<in> set (tasks w)" "t_id t = i" "t_user_id t = u"
    using t(1) by (auto simp: task_by_id_def dest: row_by_Some)
  have "schedule_ok (t_scheduled_start (successor_source t)) (t_scheduled_end (successor_source t))"
    using ok row(1) by (intro successor_source_schedule) (simp add: tasks_ok_def rows_ok_def)
  moreover have "t_recurrence (successor_source t) \<noteq> NoRecurrence" using n(4) by (auto simp: next_recurrence_date_def)
  ultimately have "task_ok n" unfolding n(5) by (simp add: task_ok_def new_task_def)
  moreover have "parent_ok s (tasks w) n" by (simp add: n(5) new_task_def parent_ok_def)
  ultimately show ?thesis
    using n row t(2) by (intro tasks_ok_append [OF ok n(1)]) (auto simp: new_task_def)
qed

lemma prepare_ok:
  assumes "prepare req scope t = Inr r" and "task_ok t"
  shows "t_version t = ut_expected_version req" and "t_status r = t_status t"
    and "pred_option (\<lambda>d. schedule_ok (df_scheduled_start d) (df_scheduled_end d)) (t_recurrence_defaults r)"
  using assms
  by (auto simp: prepare_def from_task_def task_ok_def split: option.splits recurrence_edit_scope.splits if_splits)

lemma set_task_ok:
  assumes "validate_task_fields (ut_title req) (ut_description req) (ut_due_at req)
       (ut_scheduled_start req) (ut_scheduled_end req) (ut_recurrence req) (ut_parent_task_id req) = Inr ()"
    and "task_ok t" and "pred_option (\<lambda>d. schedule_ok (df_scheduled_start d) (df_scheduled_end d)) (t_recurrence_defaults r)"
    and "c = (if ut_status req = Completed then Some z else None)"
  shows "task_ok (set_task req ls c r clock t)"
  using validate_task_fields_ok(1,2) [OF assms(1)] assms(2-4) by (auto simp: set_task_def task_ok_def)

text \<open>The stages of a successful update.\<close>

lemma update_task_stages:
  assumes "update_task_scoped pf u i req scope w = Inr (a, w')"
  obtains ls loaded r w1 t t' w3 where
    "validate_task_fields (ut_title req) (ut_description req) (ut_due_at req)
       (ut_scheduled_start req) (ut_scheduled_end req) (ut_recurrence req) (ut_parent_task_id req) = Inr ()"
    "validate_labels pf (ut_labels req) = Inr ls"
    "ut_parent_task_id req \<noteq> Some i"
    "validate_task_relationships u (ut_project_id req) (ut_parent_task_id req) w = Inr ()"
    "validate_task_update_relationships u i (ut_project_id req) (ut_parent_task_id req) (ut_recurrence req) w = Inr ()"
    "task_by_id u i w = Some loaded" "prepare req scope loaded = Inr r"
    "(if t_status r = Completed \<and> ut_status req \<noteq> Completed
      then remove_next_occurrence_for_reopen u i w else Inr w) = Inr w1"
    "row_by (\<lambda>t. t_id t = i \<and> t_user_id t = u \<and> t_version t = ut_expected_version req) (tasks w1) = Some t"
    "t' = set_task req ls (if ut_status req = Completed then Some (utc_now pf) else None) r (now w1) t"
    "sync_task_calendar_event u t' (ensure_labels u (t_labels t')
       (update_tasks (\<lambda>t. t_id t = i \<and> t_user_id t = u \<and> t_version t = ut_expected_version req)
          (set_task req ls (if ut_status req = Completed then Some (utc_now pf) else None) r (now w1)) w1)) = Inr w3"
    "(if t_status r \<noteq> Completed \<and> t_status t' = Completed \<and> t_recurrence t' \<noteq> NoRecurrence
      then create_next_recurring_task pf u i w3 else Inr w3) = Inr w'"
    "a = task.truncate t'"
proof -
  from assms obtain ls loaded r w1 where
    1: "validate_task_fields (ut_title req) (ut_description req) (ut_due_at req)
       (ut_scheduled_start req) (ut_scheduled_end req) (ut_recurrence req) (ut_parent_task_id req) = Inr ()"
    "validate_labels pf (ut_labels req) = Inr ls"
    "ut_parent_task_id req \<noteq> Some i"
    "validate_task_relationships u (ut_project_id req) (ut_parent_task_id req) w = Inr ()"
    "validate_task_update_relationships u i (ut_project_id req) (ut_parent_task_id req) (ut_recurrence req) w = Inr ()"
    "task_by_id u i w = Some loaded" "prepare req scope loaded = Inr r"
    "(if t_status r = Completed \<and> ut_status req \<noteq> Completed
      then remove_next_occurrence_for_reopen u i w else Inr w) = Inr w1"
    and 2: "(let completed_at = (if ut_status req = Completed then Some (utc_now pf) else None);
         hit = (\<lambda>t. t_id t = i \<and> t_user_id t = u \<and> t_version t = ut_expected_version req);
         set = set_task req ls completed_at r (now w1)
     in case row_by hit (tasks w1) of
          None \<Rightarrow> Inl (task_error u i (ut_expected_version req) w1)
        | Some t \<Rightarrow>
            (let t' = set t;
                 w = ensure_labels u (t_labels t') (update_tasks hit set w1)
             in bind_res (sync_task_calendar_event u t' w) (\<lambda>w.
                bind_res (if t_status r \<noteq> Completed \<and> t_status t' = Completed
                             \<and> t_recurrence t' \<noteq> NoRecurrence
                          then create_next_recurring_task pf u i w else Inr w) (\<lambda>w.
                Inr (task.truncate t', w))))) = Inr (a, w')"
    unfolding update_task_scoped_def load_def bind_res_eq_Inr require_eq_Inr ok_or_eq_Inr by (elim exE conjE) (rule that, simp_all)
  from 2 obtain t where t: "row_by (\<lambda>t. t_id t = i \<and> t_user_id t = u \<and> t_version t = ut_expected_version req) (tasks w1) = Some t"
    by (auto simp: Let_def split: option.splits)
  from 2 t show ?thesis by (auto simp: Let_def intro: that [OF 1 t refl])
qed

lemma update_relationships_ok:
  assumes "validate_task_update_relationships u i project parent recurrence w = Inr x" and "task_by_id u i w = Some t"
  shows "has_subtasks u i w \<Longrightarrow> recurrence = NoRecurrence \<and> project = t_project_id t"
    and "parent = Some p \<Longrightarrow> i \<notin> set (parent_chain u (tasks w) p)"
  using assms by (auto simp: validate_task_update_relationships_def)

lemma links_same_shape:
  assumes "\<And>t. t \<in> set rows' \<Longrightarrow> \<exists>q \<in> set rows. same_shape q t"
  shows "links rows' \<subseteq> links rows"
proof
  fix e
  assume "e \<in> links rows'"
  then obtain t p where t: "t \<in> set rows'" "t_parent_task_id t = Some p" "e = (t_id t, p)" by (auto simp: links_def)
  with assms [OF t(1)] show "e \<in> links rows" by (auto simp: links_def same_shape_def)
qed

text \<open>The table right after the UPDATE statement.\<close>

lemma tasks_ok_set_task:
  assumes ok: "tasks_ok s w" and ok1: "tasks_ok s w1" and loaded: "task_by_id u i w = Some loaded"
    and shape: "\<And>t. t \<in> set (tasks w1) \<Longrightarrow> \<exists>q \<in> set (tasks w). same_shape q t"
    and plain: "\<And>q. q \<in> set (tasks w) \<Longrightarrow> t_recurrence q = NoRecurrence \<Longrightarrow> \<exists>q' \<in> set (tasks w1). same_shape q q'"
    and rel: "validate_task_relationships u (t_project_id t') (t_parent_task_id t') w = Inr ()"
    and upd: "validate_task_update_relationships u i (t_project_id t') (t_parent_task_id t') (t_recurrence t') w = Inr ()"
    and t: "t \<in> set (tasks w1)" "t_id t = i" "t_user_id t = u"
    and t': "task_ok t'" "t_id t' = i" "t_user_id t' = u" "t_recurrence_source_id t' = t_recurrence_source_id t"
    and fin: "t_status t' = Completed \<or> (\<forall>x \<in> set (tasks w1). t_recurrence_source_id x \<noteq> Some i)"
    and w2: "tasks w2 = replace_row i t' (tasks w1)" "grows w1 w2"
  shows "tasks_ok s w2"
proof -
  have rows: "rows_ok s (tasks w)" and rows1: "rows_ok s (tasks w1)" and src1: "sources_ok (tasks w1)"
    using ok ok1 by (simp_all add: tasks_ok_def)
  have l: "loaded \<in> set (tasks w)" "t_id loaded = i" "t_user_id loaded = u"
    using loaded by (auto simp: task_by_id_def dest: row_by_Some)
  have "rows_ok s (replace_row i t' (tasks w1))"
  proof (rule rows_ok_replace [OF rows1 t(1,2) t'(2)])
    show "t_user_id t' = t_user_id t" using t t' by simp
    show "parent_ok s (tasks w1) t'"
      unfolding parent_ok_def
    proof (intro allI impI)
      fix p
      assume "t_parent_task_id t' = Some p"
      from validate_relationships_parent [OF rel this] obtain q where
        q: "q \<in> set (tasks w)" "t_id q = p" "t_user_id q = u" "t_project_id q = t_project_id t'" "t_recurrence q = NoRecurrence"
        by blast
      from plain [OF q(1,5)] obtain q' where "q' \<in> set (tasks w1)" "same_shape q q'" by blast
      with q t' show "\<exists>q \<in> set (tasks w1). t_id q = p \<and> t_user_id q = t_user_id t'
          \<and> t_project_id q = t_project_id t' \<and> may_parent s q"
        by (intro bexI [of _ q']) (simp_all add: same_shape_def may_parent_def)
    qed
    show "(p, i) \<notin> (links (tasks w1))\<^sup>*" if p: "t_parent_task_id t' = Some p" for p
    proof
      assume "(p, i) \<in> (links (tasks w1))\<^sup>*"
      then have "(p, i) \<in> (links (tasks w))\<^sup>*"
        using rtrancl_mono [OF links_same_shape [OF shape]] by blast
      moreover have "\<exists>q \<in> set (tasks w). t_id q = p \<and> t_user_id q = u"
        using validate_relationships_parent [OF rel p] by blast
      ultimately have "i \<in> set (parent_chain u (tasks w) p)" using chain_decides [OF rows] by blast
      with update_relationships_ok(2) [OF upd loaded p] show False by simp
    qed
    show "t_project_id t' = t_project_id t \<and> t_recurrence t' = NoRecurrence"
      if x: "x \<in> set (tasks w1)" "t_parent_task_id x = Some i" for x
    proof -
      obtain q where q: "q \<in> set (tasks w1)" "t_id q = i" "t_user_id q = t_user_id x"
        using parent_rowE [OF rows1 x] by blast
      have "q = t" using rows1 q t by (auto simp: rows_ok_def intro: distinct_map_inj)
      then have "t_user_id x = u" using q t by simp
      moreover obtain y where "y \<in> set (tasks w)" "same_shape y x" using shape [OF x(1)] by blast
      ultimately have "has_subtasks u i w" using x(2) by (auto simp: has_subtasks_def same_shape_def)
      moreover obtain z where z: "z \<in> set (tasks w)" "same_shape z t" using shape [OF t(1)] by blast
      then have "z = loaded" using rows l t(2) by (auto simp: rows_ok_def same_shape_def intro: distinct_map_inj)
      ultimately show ?thesis
        using update_relationships_ok(1) [OF upd loaded] z(2) by (simp add: same_shape_def)
    qed
  qed (rule t'(1))
  moreover have "sources_ok (replace_row i t' (tasks w1))"
    using rows1 t t' by (intro sources_ok_replace [OF src1 _ t(1,2) _ _ _ fin]) (simp_all add: rows_ok_def)
  moreover have "map t_id (replace_row i t' (tasks w1)) = map t_id (tasks w1)"
    unfolding replace_row_def by (rule map_update_where) (simp add: t'(2))
  then have "t_id ` set (tasks w2) = t_id ` set (tasks w1)" unfolding w2(1) by (metis set_map)
  ultimately show ?thesis
    using ok1 w2(2) grows_drawn_ids [OF w2(2)] unfolding tasks_ok_def w2(1) by (auto simp: grows_def)
qed

lemma tasks_ok_frame: "tasks_ok s w \<Longrightarrow> tasks w' = tasks w \<Longrightarrow> grows w w' \<Longrightarrow> tasks_ok s w'"
  by (rule tasks_ok_same) (simp_all add: list_all2_refl)

lemma no_successor_of_unfinished:
  assumes "tasks_ok s w" and "t \<in> set (tasks w)" and "t_status t \<noteq> Completed"
  shows "\<forall>x \<in> set (tasks w). t_recurrence_source_id x \<noteq> Some (t_id t)"
proof (intro ballI notI)
  fix x
  assume x: "x \<in> set (tasks w)" "t_recurrence_source_id x = Some (t_id t)"
  have "sources_ok (tasks w)" "distinct (map t_id (tasks w))" using assms(1) by (simp_all add: tasks_ok_def rows_ok_def)
  from sources_okD(1) [OF this(1) x] this(2) assms(2,3) show False by (metis distinct_map_inj)
qed

text \<open>The world an update works on after a possible reopening.\<close>

lemma reopened_world:
  assumes ok: "tasks_ok s w" and loaded: "task_by_id u i w = Some loaded" and st: "t_status r = t_status loaded"
    and w1: "(if t_status r = Completed \<and> status \<noteq> Completed
      then remove_next_occurrence_for_reopen u i w else Inr w) = Inr w1"
  shows "tasks_ok s w1" and "grows w w1"
    and "status = Completed \<or> (\<forall>x \<in> set (tasks w1). t_recurrence_source_id x \<noteq> Some i)"
    and "\<And>q. q \<in> set (tasks w) \<Longrightarrow> t_recurrence q = NoRecurrence \<Longrightarrow> \<exists>q' \<in> set (tasks w1). same_shape q q'"
    and "\<And>t. t \<in> set (tasks w1) \<Longrightarrow> \<exists>q \<in> set (tasks w). same_shape q t"
proof -
  have l: "loaded \<in> set (tasks w)" "t_id loaded = i" "t_user_id loaded = u"
    using loaded by (auto simp: task_by_id_def dest: row_by_Some)
  have "tasks_ok s w1 \<and> grows w w1 \<and> (status = Completed \<or> (\<forall>x \<in> set (tasks w1). t_recurrence_source_id x \<noteq> Some i))
    \<and> (\<forall>q \<in> set (tasks w). t_recurrence q = NoRecurrence \<longrightarrow> (\<exists>q' \<in> set (tasks w1). same_shape q q'))
    \<and> (\<forall>t \<in> set (tasks w1). \<exists>q \<in> set (tasks w). same_shape q t)"
  proof (cases "t_status r = Completed \<and> status \<noteq> Completed")
    case True
    then have res: "remove_next_occurrence_for_reopen u i w = Inr w1" using w1 by simp
    have "\<exists>t \<in> set (tasks w). t_id t = i \<and> t_user_id t = u" using l by blast
    from reopen_effect [OF ok res this] show ?thesis by blast
  next
    case False
    then have "w1 = w" using w1 by (simp split: if_splits)
    moreover have "same_shape q q" for q by (simp add: same_shape_def)
    moreover have "status = Completed \<or> (\<forall>x \<in> set (tasks w). t_recurrence_source_id x \<noteq> Some i)"
      using no_successor_of_unfinished [OF ok l(1)] False st l(2) by auto
    ultimately show ?thesis using ok grows_refl by blast
  qed
  then show "tasks_ok s w1" "grows w w1"
    "status = Completed \<or> (\<forall>x \<in> set (tasks w1). t_recurrence_source_id x \<noteq> Some i)"
    "\<And>q. q \<in> set (tasks w) \<Longrightarrow> t_recurrence q = NoRecurrence \<Longrightarrow> \<exists>q' \<in> set (tasks w1). same_shape q q'"
    "\<And>t. t \<in> set (tasks w1) \<Longrightarrow> \<exists>q \<in> set (tasks w). same_shape q t" by blast+
qed

lemma set_task_fields [simp]:
  "t_id (set_task req ls c r k t) = t_id t" "t_user_id (set_task req ls c r k t) = t_user_id t"
  "t_recurrence_source_id (set_task req ls c r k t) = t_recurrence_source_id t"
  "t_status (set_task req ls c r k t) = ut_status req" "t_recurrence (set_task req ls c r k t) = ut_recurrence req"
  "t_project_id (set_task req ls c r k t) = ut_project_id req"
  "t_parent_task_id (set_task req ls c r k t) = ut_parent_task_id req"
  "t_version (set_task req ls c r k t) = t_version t + 1"
  by (simp_all add: set_task_def)

text \<open>
  The outcome of a successful update: \<open>w1\<close> the world after a possible reopening, \<open>t'\<close> the new
  row, \<open>w3\<close> the world before a possible successor.
\<close>

definition update_outcome ::
  "bool \<Rightarrow> platform \<Rightarrow> uuid \<Rightarrow> uuid \<Rightarrow> update_task_request \<Rightarrow> recurrence_edit_scope option \<Rightarrow> world \<Rightarrow> task \<Rightarrow> world
   \<Rightarrow> task_row \<Rightarrow> task_row \<Rightarrow> world \<Rightarrow> task_row \<Rightarrow> task_row \<Rightarrow> world \<Rightarrow> string list \<Rightarrow> bool" where
  "update_outcome s pf u i req scope w a w' loaded r w1 t t' w3 ls \<longleftrightarrow>
     task_by_id u i w = Some loaded \<and> prepare req scope loaded = Inr r
     \<and> (if t_status r = Completed \<and> ut_status req \<noteq> Completed
        then remove_next_occurrence_for_reopen u i w else Inr w) = Inr w1
     \<and> tasks_ok s w1 \<and> task_by_id u i w1 = Some t \<and> t_version t = ut_expected_version req
     \<and> t' = set_task req ls (if ut_status req = Completed then Some (utc_now pf) else None) r (now w1) t
     \<and> validate_labels pf (ut_labels req) = Inr ls
     \<and> a = task.truncate t' \<and> tasks w3 = replace_row i t' (tasks w1) \<and> tasks_ok s w3
     \<and> task_by_id u i w3 = Some t'
     \<and> (if t_status r \<noteq> Completed \<and> t_status t' = Completed \<and> t_recurrence t' \<noteq> NoRecurrence
        then create_next_recurring_task pf u i w3 else Inr w3) = Inr w'"

lemma update_task_outcome:
  assumes ok: "tasks_ok s w" and res: "update_task_scoped pf u i req scope w = Inr (a, w')"
  shows "\<exists>loaded r w1 t t' w3 ls. update_outcome s pf u i req scope w a w' loaded r w1 t t' w3 ls"
proof (rule update_task_stages [OF res])
  fix ls loaded r t t' and w1 w3 :: world
  let ?hit = "\<lambda>t. t_id t = i \<and> t_user_id t = u \<and> t_version t = ut_expected_version req"
  let ?set = "set_task req ls (if ut_status req = Completed then Some (utc_now pf) else None) r (now w1)"
  assume fields: "validate_task_fields (ut_title req) (ut_description req) (ut_due_at req)
       (ut_scheduled_start req) (ut_scheduled_end req) (ut_recurrence req) (ut_parent_task_id req) = Inr ()"
    and labs: "validate_labels pf (ut_labels req) = Inr ls"
    and rel: "validate_task_relationships u (ut_project_id req) (ut_parent_task_id req) w = Inr ()"
    and upd: "validate_task_update_relationships u i (ut_project_id req) (ut_parent_task_id req) (ut_recurrence req) w = Inr ()"
    and loaded: "task_by_id u i w = Some loaded" and prep: "prepare req scope loaded = Inr r"
    and w1: "(if t_status r = Completed \<and> ut_status req \<noteq> Completed
      then remove_next_occurrence_for_reopen u i w else Inr w) = Inr w1"
    and row: "row_by ?hit (tasks w1) = Some t" and t': "t' = ?set t"
    and sync: "sync_task_calendar_event u t' (ensure_labels u (t_labels t') (update_tasks ?hit ?set w1)) = Inr w3"
    and next': "(if t_status r \<noteq> Completed \<and> t_status t' = Completed \<and> t_recurrence t' \<noteq> NoRecurrence
      then create_next_recurring_task pf u i w3 else Inr w3) = Inr w'" and a: "a = task.truncate t'"
  have lok: "task_ok loaded"
    using ok loaded by (auto simp: tasks_ok_def rows_ok_def task_by_id_def dest: row_by_Some)
  note mid = reopened_world [OF ok loaded prepare_ok(2) [OF prep lok] w1]
  have t: "t \<in> set (tasks w1)" "t_id t = i" "t_user_id t = u" "t_version t = ut_expected_version req"
    using row_by_Some [OF row] by auto
  have ids1: "distinct (map t_id (tasks w1))" and tok: "task_ok t"
    using mid(1) t(1) by (simp_all add: tasks_ok_def rows_ok_def)
  have "update_where ?hit ?set (tasks w1) = replace_row i t' (tasks w1)"
    using update_where_replace [OF ids1 t(1), of ?hit ?set] row_by_Some [OF row] t' t(2) by simp
  then have tasks3: "tasks w3 = replace_row i t' (tasks w1)"
    using sync_task_calendar_event_frame [OF sync] by (simp add: ensure_labels_def)
  have "grows w1 w3"
    by (rule grows_trans [OF grows_after(11) [OF grows_update_tasks] grows_sync_event [OF sync]])
  moreover have "task_ok t'" unfolding t' by (rule set_task_ok [OF fields tok prepare_ok(3) [OF prep lok] refl])
  ultimately have ok3: "tasks_ok s w3"
    using rel upd t t' mid(3) tasks3
    by (intro tasks_ok_set_task [OF ok mid(1) loaded mid(5,4), where t' = t' and t = t]) simp_all
  have "t' \<in> set (tasks w3)" unfolding tasks3 replace_row_def set_update_where using t t' by force
  moreover have "distinct (map t_id (tasks w3))" using ok3 by (simp add: tasks_ok_def rows_ok_def)
  ultimately have "task_by_id u i w3 = Some t'"
    unfolding task_by_id_def using t t' by (intro row_by_key [where k = t_id]) simp_all
  moreover have "task_by_id u i w1 = Some t"
    unfolding task_by_id_def using ids1 t by (intro row_by_key [where k = t_id]) simp_all
  ultimately have "update_outcome s pf u i req scope w a w' loaded r w1 t t' w3 ls"
    unfolding update_outcome_def using loaded prep w1 mid(1) t t' a tasks3 ok3 next' labs by simp
  then show ?thesis by blast
qed

lemma tasks_ok_update:
  assumes ok: "tasks_ok s w" and res: "update_task_scoped pf u i req scope w = Inr (a, w')"
  shows "tasks_ok s w'"
proof -
  obtain loaded r w1 t t' w3 ls where o: "update_outcome s pf u i req scope w a w' loaded r w1 t t' w3 ls"
    using update_task_outcome [OF assms] by blast
  then have ok3: "tasks_ok s w3" and row: "task_by_id u i w3 = Some t'"
    and next': "(if t_status r \<noteq> Completed \<and> t_status t' = Completed \<and> t_recurrence t' \<noteq> NoRecurrence
        then create_next_recurring_task pf u i w3 else Inr w3) = Inr w'"
    unfolding update_outcome_def by blast+
  show ?thesis
  proof (cases "t_status r \<noteq> Completed \<and> t_status t' = Completed \<and> t_recurrence t' \<noteq> NoRecurrence")
    case True
    with next' row show ?thesis by (intro tasks_ok_create_next [OF ok3]) auto
  next
    case False
    then show ?thesis using next' ok3 by (simp split: if_splits)
  qed
qed

text \<open>The import: parents come first, so every link points to a row that is there.\<close>

fun imports_ok :: "nat \<Rightarrow> (todoist_import_task \<times> string list) list \<Rightarrow> bool" where
  "imports_ok n [] = True"
| "imports_ok n ((t, ls) # ts) \<longleftrightarrow>
     (case ti_parent_index t of None \<Rightarrow> True | Some p \<Rightarrow> p < n)
     \<and> (ti_recurrence t \<noteq> NoRecurrence \<longrightarrow> ti_due_at t \<noteq> None \<and> ti_parent_index t = None)
     \<and> schedule_ok (ti_scheduled_start t) (ti_scheduled_end t) \<and> imports_ok (Suc n) ts"

lemma prepare_imports_ok: "prepare_imports pf n ts = Inr ps \<Longrightarrow> imports_ok n ps \<and> map fst ps = ts"
proof (induction pf n ts arbitrary: ps rule: prepare_imports.induct)
  case (2 pf n t ts)
  then obtain ls rest where ps: "ps = (t, ls) # rest" "prepare_imports pf (Suc n) ts = Inr rest"
    and "case ti_parent_index t of None \<Rightarrow> True | Some p \<Rightarrow> p < n"
    and fields: "validate_task_fields (ti_title t) (ti_description t) (ti_due_at t) (ti_scheduled_start t)
       (ti_scheduled_end t) (ti_recurrence t) (map_option (\<lambda>_. 0) (ti_parent_index t)) = Inr ()"
    by auto
  moreover have "imports_ok (Suc n) rest \<and> map fst rest = ts" using 2 ps(2) by auto
  ultimately show ?case using validate_task_fields_ok(1,2) [OF fields] by auto
qed simp

definition imported_row :: "uuid \<Rightarrow> uuid \<Rightarrow> uuid list \<Rightarrow> todoist_import_task \<times> string list \<Rightarrow> uuid \<Rightarrow> task_row \<Rightarrow> bool" where
  "imported_row user project ids x i t \<longleftrightarrow>
     t_id t = i \<and> t_user_id t = user \<and> t_project_id t = Some project
     \<and> t_parent_task_id t = map_option (\<lambda>p. ids ! p) (ti_parent_index (fst x))
     \<and> t_title t = trim (ti_title (fst x)) \<and> t_recurrence t = ti_recurrence (fst x) \<and> t_labels t = snd x
     \<and> t_status t = Todo \<and> t_recurrence_source_id t = None"

lemma import_tasks_effect:
  assumes "import_tasks user project ps ids pos w = Inr (ids', w')" and "tasks_ok False w"
    and "imports_ok (length ids) ps"
    and "\<forall>i \<in> set ids. \<exists>q \<in> set (tasks w). t_id q = i \<and> t_user_id q = user \<and> t_project_id q = Some project
      \<and> t_recurrence_source_id q = None"
  shows "\<exists>is rows. ids' = ids @ is \<and> tasks w' = tasks w @ rows \<and> length is = length ps
    \<and> list_all2 (\<lambda>(x, i) t. imported_row user project ids' x i t) (zip ps is) rows
    \<and> tasks_ok False w' \<and> grows w w' \<and> projects w' = projects w"
  using assms
proof (induction ps arbitrary: ids pos w)
  case Nil
  then show ?case by simp
next
  case (Cons x ps)
  obtain t ls where x: "x = (t, ls)" by (cases x)
  define row where "row = new_task (uuid_supply w (drawn w)) user (Some project) (map_option (\<lambda>p. ids ! p) (ti_parent_index t))
     (trim (ti_title t)) (trim (ti_description t)) (ti_due_at t) (ti_scheduled_start t)
     (ti_scheduled_end t) Todo (ti_priority t) (ti_recurrence t) ls None pos None None (now w)"
  let ?i = "uuid_supply w (drawn w)"
  from Cons.prems(1) obtain w1 where
    sync: "sync_task_calendar_event user row (ensure_labels user (t_labels row) (insert_task row (snd (new_uuid w)))) = Inr w1"
    and rest: "import_tasks user project ps (ids @ [?i]) (pos + 1024) w1 = Inr (ids', w')"
    by (auto simp: x row_def new_uuid_def Let_def)
  have frame: "tasks w1 = tasks w @ [row]" "projects w1 = projects w"
    using sync_task_calendar_event_frame [OF sync] by (simp_all add: ensure_labels_def)
  have "grows (snd (new_uuid w)) w1"
    by (rule grows_trans [OF grows_after(11) [OF grows_after(4) [OF grows_refl]] grows_sync_event [OF sync]])
  then have grows: "grows w w1" "drawn w < drawn w1" by (auto simp: grows_def)
  have idx: "ti_parent_index t = Some p \<Longrightarrow> p < length ids" for p
    using Cons.prems(3) by (auto simp: x split: option.splits)
  have "parent_ok False (tasks w) row"
    using Cons.prems(4) idx by (force simp: row_def new_task_def parent_ok_def may_parent_def)
  moreover have "task_ok row" using Cons.prems(3) by (auto simp: x row_def new_task_def task_ok_def)
  ultimately have ok1: "tasks_ok False w1"
    using frame(1) grows by (intro tasks_ok_append [OF Cons.prems(2)]) (auto simp: row_def new_task_def)
  have "\<forall>i \<in> set (ids @ [?i]). \<exists>q \<in> set (tasks w1). t_id q = i \<and> t_user_id q = user \<and> t_project_id q = Some project
      \<and> t_recurrence_source_id q = None"
    using Cons.prems(4) by (auto simp: frame(1) row_def new_task_def)
  from Cons.IH [OF rest ok1 _ this] Cons.prems(3) obtain "is" rows where
    step: "ids' = (ids @ [?i]) @ is" "tasks w' = tasks w1 @ rows" "length is = length ps"
      "list_all2 (\<lambda>(x, i) t. imported_row user project ids' x i t) (zip ps is) rows"
      "tasks_ok False w'" "grows w1 w'" "projects w' = projects w1"
    by (auto simp: x)
  have "imported_row user project ids' x ?i row"
    using idx by (cases "ti_parent_index t") (simp_all add: imported_row_def x row_def new_task_def step(1) nth_append)
  with step frame grows_trans [OF grows(1) step(6)] show ?case
    by (intro exI [of _ "?i # is"] exI [of _ "row # rows"]) simp
qed

lemma import_effect:
  assumes "import_todoist_project pf u req w = Inr (a, w')"
  obtains ps w1 pos ids where "prepare_imports pf 0 (tir_tasks req) = Inr ps"
    "w1 = w\<lparr>drawn := Suc (drawn w), projects := projects w @ [new_project (uuid_supply w (drawn w)) u
       (trim (tir_project_name req)) (trim (tir_project_description req)) None Active (now w)]\<rparr>"
    "import_tasks u (uuid_supply w (drawn w)) ps [] pos w1 = Inr (ids, w')"
    "tr_imported_tasks a = length ids" "length (tir_tasks req) \<le> 5000"
  using assms by (auto simp: import_todoist_project_def new_uuid_def Let_def)

lemma tasks_ok_import:
  assumes "tasks_ok False w" and "import_todoist_project pf u req w = Inr (a, w')"
  shows "tasks_ok False w'"
  using assms(2)
proof (rule import_effect)
  fix ps w1 pos ids
  assume prep: "prepare_imports pf 0 (tir_tasks req) = Inr ps"
    and w1: "w1 = w\<lparr>drawn := Suc (drawn w), projects := projects w @ [new_project (uuid_supply w (drawn w)) u
       (trim (tir_project_name req)) (trim (tir_project_description req)) None Active (now w)]\<rparr>"
    and run: "import_tasks u (uuid_supply w (drawn w)) ps [] pos w1 = Inr (ids, w')"
  have "tasks_ok False w1" using assms(1) by (rule tasks_ok_frame) (simp_all add: w1 grows_def)
  from import_tasks_effect [OF run this] prepare_imports_ok [OF prep] show ?thesis by auto
qed

text \<open>The event operations: they write the schedule of the linked task.\<close>

lemma tasks_ok_create_event:
  assumes "tasks_ok s w" and "create_calendar_event pf u req w = Inr (a, w')"
  shows "tasks_ok s w'"
proof -
  from assms(2) obtain e es where w': "w' = mark_event_for_sync u e False ((snd (new_uuid w))\<lparr>events := es\<rparr>)"
    by (auto simp: create_calendar_event_def new_uuid_def Let_def)
  have "grows w w'" unfolding w' by (intro grows_after grows_refl)
  then show ?thesis using assms(1) by (rule tasks_ok_frame [rotated 2]) (simp add: w')
qed

lemma validate_event_times:
  "validate_event_request title d a b z l as r x = Inr y \<Longrightarrow> a < b"
  by (auto simp: validate_event_request_def)

lemma update_event_effect:
  assumes "update_calendar_event pf u i req w = Inr (a, w')"
  obtains e c as e' where
    "ue_starts_at req < ue_ends_at req"
    "row_by (\<lambda>e. e_id e = i \<and> e_user_id e = u \<and> e_version e = ue_expected_version req) (events w) = Some e"
    "row_by (takes_writes u (ue_calendar_id req)) (calendars w) = Some c"
    "e' = set_event req (c_id c) as (now w) e" "a = calendar_event.truncate e'"
    "w' = mark_event_for_sync u e' False (leave_calendar u (e_calendar_id e') (event_by_id u i w)
        (let v = w\<lparr>events := update_where (\<lambda>e. e_id e = i \<and> e_user_id e = u \<and> e_version e = ue_expected_version req)
               (set_event req (c_id c) as (now w)) (events w)\<rparr>
         in case e_linked_task_id e' of None \<Rightarrow> v
            | Some t \<Rightarrow> set_task_schedule u t (Some (e_starts_at e')) (Some (e_ends_at e')) v))"
proof -
  let ?hit = "\<lambda>e. e_id e = i \<and> e_user_id e = u \<and> e_version e = ue_expected_version req"
  from assms obtain as where valid: "validate_event_request (ue_title req) (ue_description req) (ue_starts_at req)
       (ue_ends_at req) (ue_timezone req) (ue_location req) (ue_attendees req) (ue_recurrence req)
       (ue_recurrence_until req) = Inr ()"
    and res: "(case (row_by ?hit (events w), row_by (takes_writes u (ue_calendar_id req)) (calendars w)) of
             (Some e, Some c) \<Rightarrow>
               (let set = set_event req (c_id c) as (now w);
                    e' = set e;
                    v = w\<lparr>events := update_where ?hit set (events w)\<rparr>;
                    v = (case e_linked_task_id e' of
                           None \<Rightarrow> v
                         | Some task \<Rightarrow> set_task_schedule u task (Some (e_starts_at e')) (Some (e_ends_at e')) v);
                    v = leave_calendar u (e_calendar_id e') (event_by_id u i w) v
                in Inr (calendar_event.truncate e', mark_event_for_sync u e' False v))
           | _ \<Rightarrow> Inl (event_error u i (ue_expected_version req) w)) = Inr (a, w')"
    unfolding update_calendar_event_def Let_def bind_res_eq_Inr by (elim exE conjE) (rule that, simp, unfold Let_def, assumption)
  from res obtain e where e: "row_by ?hit (events w) = Some e" by (cases "row_by ?hit (events w)") auto
  from res e obtain c where c: "row_by (takes_writes u (ue_calendar_id req)) (calendars w) = Some c"
    by (cases "row_by (takes_writes u (ue_calendar_id req)) (calendars w)") auto
  show ?thesis
    by (rule that [OF validate_event_times [OF valid] e c refl, of as]) (use res in \<open>simp_all add: e c Let_def\<close>)
qed

lemma tasks_ok_update_event:
  assumes "tasks_ok s w" and "update_calendar_event pf u i req w = Inr (a, w')"
  shows "tasks_ok s w'"
  using assms(2)
proof (rule update_event_effect)
  fix e c as and e' :: event_row
  let ?es = "update_where (\<lambda>e. e_id e = i \<and> e_user_id e = u \<and> e_version e = ue_expected_version req)
               (set_event req (c_id c) as (now w)) (events w)"
  let ?v = "case e_linked_task_id e' of None \<Rightarrow> w\<lparr>events := ?es\<rparr>
            | Some t \<Rightarrow> set_task_schedule u t (Some (e_starts_at e')) (Some (e_ends_at e')) (w\<lparr>events := ?es\<rparr>)"
  assume times: "ue_starts_at req < ue_ends_at req" and e': "e' = set_event req (c_id c) as (now w) e"
    and w': "w' = mark_event_for_sync u e' False (leave_calendar u (e_calendar_id e') (event_by_id u i w)
        (let v = w\<lparr>events := ?es\<rparr>
         in case e_linked_task_id e' of None \<Rightarrow> v
            | Some t \<Rightarrow> set_task_schedule u t (Some (e_starts_at e')) (Some (e_ends_at e')) v))"
  have "e_starts_at e' < e_ends_at e'" using times by (simp add: e' set_event_def)
  moreover have "tasks_ok s (w\<lparr>events := ?es\<rparr>)" using assms(1) by (rule tasks_ok_frame) (simp_all add: grows_def)
  ultimately have "tasks_ok s ?v" by (auto intro: tasks_ok_schedule split: option.split)
  then show ?thesis unfolding w' Let_def by (rule tasks_ok_frame) (simp, intro grows_after grows_refl)
qed

lemma tasks_ok_delete_event:
  assumes "tasks_ok s w" and "delete_calendar_event u i n w = Inr (a, w')"
  shows "tasks_ok s w'"
proof (cases "row_by (\<lambda>e. e_id e = i \<and> e_user_id e = u \<and> e_version e = n) (events w)")
  case None
  with assms show ?thesis by (simp add: delete_calendar_event_def)
next
  case (Some e)
  let ?v = "delete_events (\<lambda>e. e_id e = i \<and> e_user_id e = u \<and> e_version e = n) (mark_event_for_sync u e True w)"
  have w': "w' = (case e_linked_task_id e of None \<Rightarrow> ?v | Some t \<Rightarrow> set_task_schedule u t None None ?v)"
    using assms(2) Some by (simp add: delete_calendar_event_def Let_def)
  have "tasks_ok s ?v" using assms(1) by (rule tasks_ok_frame) (simp, intro grows_after grows_refl)
  then show ?thesis unfolding w' by (auto intro: tasks_ok_schedule split: option.split)
qed

section \<open>Runs\<close>

text \<open>
  The operations of the stores for projects, tasks and events that write the task table, and the Todoist import, which
  the flag of the first argument allows. Not among them are the restoring transaction of \<open>undo_task_delete\<close>, the imports and
  merges of the Google Tasks synchronization, the updates the Google Calendar synchronization makes to a task with
  a time block, calendar moves with their undo, and the decisions of a daily review; apart from the first two these change
  only times, titles and descriptions of existing rows.
\<close>

inductive task_step :: "bool \<Rightarrow> world \<Rightarrow> unit list \<Rightarrow> world \<Rightarrow> bool" for imp where
  clock: "task_step imp w [] (w\<lparr>now := t\<rparr>)"
| create: "create_task pf u req w = Inr (a, w') \<Longrightarrow> task_step imp w [] w'"
| update: "update_task_scoped pf u i req scope w = Inr (a, w') \<Longrightarrow> task_step imp w [] w'"
| delete: "delete_task u i n w = Inr (b, w') \<Longrightarrow> task_step imp w [] w'"
| reorder: "reorder_tasks u rreq w = Inr (b, w') \<Longrightarrow> task_step imp w [] w'"
| project: "create_project u preq w = Inr (c, w') \<Longrightarrow> task_step imp w [] w'"
| update_project: "update_project u i ureq w = Inr (c, w') \<Longrightarrow> task_step imp w [] w'"
| delete_project: "delete_project u i n w = Inr (b, w') \<Longrightarrow> task_step imp w [] w'"
| event: "create_calendar_event pf u ereq w = Inr (d, w') \<Longrightarrow> task_step imp w [] w'"
| update_event: "update_calendar_event pf u i xreq w = Inr (d, w') \<Longrightarrow> task_step imp w [] w'"
| delete_event: "delete_calendar_event u i n w = Inr (b, w') \<Longrightarrow> task_step imp w [] w'"
| import_project: "imp \<Longrightarrow> import_todoist_project pf u ireq w = Inr (f, w') \<Longrightarrow> task_step imp w [] w'"

lemma create_project_frame:
  "create_project u req w = Inr (a, w') \<Longrightarrow> tasks w' = tasks w \<and> grows w w'"
  by (auto simp: create_project_def new_uuid_def Let_def grows_def)

lemma update_project_frame:
  "update_project u i req w = Inr (a, w') \<Longrightarrow> tasks w' = tasks w \<and> grows w w'"
  by (auto simp: update_project_def Let_def grows_def split: option.splits)

lemma task_step_ok: "task_step imp w ls w' \<Longrightarrow> tasks_ok (\<not> imp) w \<Longrightarrow> tasks_ok (\<not> imp) w'"
proof (induction rule: task_step.induct)
  case (clock w t)
  then show ?case by (rule tasks_ok_frame) (simp_all add: grows_def)
next
  case (project u preq w c w')
  from project.prems create_project_frame [OF project.hyps] show ?case by (auto intro: tasks_ok_frame)
next
  case (update_project u i ureq w c w')
  from update_project.prems update_project_frame [OF update_project.hyps] show ?case by (auto intro: tasks_ok_frame)
next
  case (import_project pf u ireq w f w')
  then show ?case using tasks_ok_import [of w] by simp
qed (blast intro: tasks_ok_create tasks_ok_update tasks_ok_delete_task tasks_ok_reorder tasks_ok_delete_project
      tasks_ok_create_event tasks_ok_update_event tasks_ok_delete_event)+

lemma tasks_ok_clock: "tasks_ok s (w\<lparr>now := k\<rparr>) \<longleftrightarrow> tasks_ok s w"
  by (simp add: tasks_ok_def drawn_ids_def)

lemma task_by_id_clock [simp]: "task_by_id u i (w\<lparr>now := k\<rparr>) = task_by_id u i w"
  by (simp add: task_by_id_def)

end
