(* ===== verification/TaskExamples.thy ===== *)
theory TaskExamples
  imports TaskInvariant
begin

text \<open>
  Small concrete requests and worlds of user 7, and what the operations of \<open>TaskStore\<close> compute on them.
  The properties are applied to these.
\<close>

definition example_create :: "uuid option \<Rightarrow> task_recurrence \<Rightarrow> create_task_request" where
  "example_create parent recurrence =
     \<lparr>ct_project_id = None, ct_parent_task_id = parent, ct_title = ''t'', ct_description = [],
      ct_due_at = (if recurrence = NoRecurrence then None else Some 0), ct_scheduled_start = None,
      ct_scheduled_end = None, ct_status = Todo, ct_priority = Medium, ct_recurrence = recurrence,
      ct_labels = [], ct_remind_at = None\<rparr>"

definition example_update :: "uuid option \<Rightarrow> task_status \<Rightarrow> task_recurrence \<Rightarrow> int \<Rightarrow> update_task_request" where
  "example_update parent status recurrence version =
     \<lparr>ut_project_id = None, ut_parent_task_id = parent, ut_title = ''t'', ut_description = [],
      ut_due_at = (if recurrence = NoRecurrence then None else Some 0), ut_scheduled_start = None,
      ut_scheduled_end = None, ut_status = status, ut_priority = Medium, ut_recurrence = recurrence,
      ut_labels = [], ut_remind_at = None, ut_expected_version = version\<rparr>"

definition example_row :: "uuid \<Rightarrow> uuid option \<Rightarrow> task_recurrence \<Rightarrow> int \<Rightarrow> task_row" where
  "example_row i parent recurrence position =
     new_task i 7 None parent ''t'' [] (if recurrence = NoRecurrence then None else Some 0) None None Todo Medium
       recurrence [] None position None None 0"

definition one_task :: "task_recurrence \<Rightarrow> world" where
  "one_task recurrence = empty_world\<lparr>drawn := 1, tasks := [example_row 0 None recurrence 1024]\<rparr>"

lemma trim_t [simp]: "trim ''t'' = ''t''"
  by (simp add: trim_visible visible_def)

lemma chars_count_example [simp]: "chars_count [] = 0" "chars_count ''t'' = 1"
  by (simp_all add: chars_count_def)

lemmas run_simps = validate_task_fields_def validate_labels_def validate_schedule_def require_def
  validate_task_relationships_def validate_task_update_relationships_def task_by_id_def load_def row_by_def
  has_subtasks_def prepare_def sync_task_calendar_event_def remove_task_calendar_event_def task_calendar_event_def
  ensure_labels_def new_uuid_def next_task_position_def new_task_def tasks_change_def update_where_def delete_where_def Let_def

lemmas example_simps = example_create_def example_update_def example_row_def empty_world_def one_task_def

lemma tasks_ok_empty: "tasks_ok s empty_world"
  by (simp add: tasks_ok_def rows_ok_def sources_ok_def links_def empty_world_def acyclic_def)

lemma create_one_task:
  "create_task pf 7 (example_create None recurrence) empty_world
   = Inr (task.truncate (example_row 0 None recurrence 1024), one_task recurrence)"
  by (simp add: create_task_def run_simps example_simps insert_task_def)

lemma tasks_ok_one_task: "tasks_ok s (one_task recurrence)"
  by (rule tasks_ok_create [OF tasks_ok_empty create_one_task])

end
