(* ===== verification/Versions.thy ===== *)
theory Versions
  imports TaskExamples
begin

text \<open>
  Optimistic concurrency. Every editable row carries a version, an update names the version it was
  made for. The locale \<open>versioned\<close> is the contract: an accepted update found exactly that version and
  left the next one. It is interpreted on the updates of tasks, projects, calendars and events.
\<close>

locale versioned =
  fixes update :: "'k \<Rightarrow> 'q \<Rightarrow> world \<Rightarrow> ('a \<times> world) app_result" and expected :: "'q \<Rightarrow> int"
    and version :: "'k \<Rightarrow> world \<Rightarrow> int option" and inv :: "world \<Rightarrow> bool"
  assumes accepted: "inv w \<Longrightarrow> update k q w = Inr (a, w') \<Longrightarrow>
    version k w = Some (expected q) \<and> version k w' = Some (expected q + 1) \<and> inv w'"
begin

lemma stale_refused:
  assumes "inv w" and "update k q w = Inr (a, w')" and "expected q' = expected q"
  shows "\<exists>e. update k q' w' = Inl e"
proof (cases "update k q' w'")
  case (Inr r)
  then obtain a2 w2 where "update k q' w' = Inr (a2, w2)" by (cases r) simp
  with accepted [OF assms(1,2)] accepted [of w' k q' a2 w2] assms(3) show ?thesis by simp
qed blast

text \<open>A sequence of accepted updates names consecutive versions: each was made for the one before it.\<close>

lemma accepted_in_sequence:
  assumes "fold_res (\<lambda>q w. bind_res (update k q w) (\<lambda>(_, w). Inr w)) qs w = Inr w'" and "inv w"
    and "version k w = Some v"
  shows "map expected qs = map (\<lambda>n. v + int n) [0..<length qs] \<and> version k w' = Some (v + int (length qs)) \<and> inv w'"
  using assms
proof (induction qs arbitrary: w v)
  case (Cons q qs)
  then obtain a w1 where u: "update k q w = Inr (a, w1)"
    and rest: "fold_res (\<lambda>q w. bind_res (update k q w) (\<lambda>(_, w). Inr w)) qs w1 = Inr w'" by auto
  from accepted [OF Cons.prems(2) u] Cons.prems(3) have v: "expected q = v" "version k w1 = Some (v + 1)" "inv w1" by auto
  have "map (\<lambda>n. v + int n) [0..<length (q # qs)] = v # map (\<lambda>n. v + 1 + int n) [0..<length qs]"
    by (simp add: upt_conv_Cons map_Suc_upt [symmetric] algebra_simps del: upt_Suc)
  with Cons.IH [OF rest v(3,2)] v(1) show ?case by (simp add: algebra_simps)
qed simp

end

section \<open>Interpretations\<close>

text \<open>A versioned row in its table.\<close>

lemma versioned_row:
  assumes ids: "distinct (map key rows)"
    and hit: "row_by (\<lambda>r. key r = i \<and> owner r = u \<and> ver r = n) rows = Some r"
    and f: "\<And>r. key (f r) = key r" "\<And>r. owner (f r) = owner r" "\<And>r. ver (f r) = ver r + 1"
  shows "map_option ver (row_by (\<lambda>r. key r = i \<and> owner r = u) rows) = Some n"
    and "map_option ver (row_by (\<lambda>r. key r = i \<and> owner r = u)
           (update_where (\<lambda>r. key r = i \<and> owner r = u \<and> ver r = n) f rows)) = Some (n + 1)"
    and "distinct (map key (update_where (\<lambda>r. key r = i \<and> owner r = u \<and> ver r = n) f rows))"
proof -
  let ?hit = "\<lambda>r. key r = i \<and> owner r = u \<and> ver r = n"
  have r: "r \<in> set rows" "?hit r" using row_by_Some [OF hit] by auto
  have "row_by (\<lambda>r. key r = i \<and> owner r = u) rows = Some r"
    using ids r by (intro row_by_key [where k = key]) auto
  then show "map_option ver (row_by (\<lambda>r. key r = i \<and> owner r = u) rows) = Some n" using r by simp
  have keys: "map key (update_where ?hit f rows) = map key rows" by (rule map_update_where) (simp add: f)
  then show ids': "distinct (map key (update_where ?hit f rows))" using ids by simp
  have "f r \<in> set (update_where ?hit f rows)" unfolding set_update_where using r by force
  then have "row_by (\<lambda>r. key r = i \<and> owner r = u) (update_where ?hit f rows) = Some (f r)"
    using ids' r f by (intro row_by_key [where k = key]) auto
  then show "map_option ver (row_by (\<lambda>r. key r = i \<and> owner r = u) (update_where ?hit f rows)) = Some (n + 1)"
    using r f by simp
qed

lemma project_accepted:
  assumes ids: "distinct (map pr_id (projects w))" and res: "update_project u i req w = Inr (a, w')"
  shows "map_option pr_version (project_by_id u i w) = Some (upr_expected_version req)
    \<and> map_option pr_version (project_by_id u i w') = Some (upr_expected_version req + 1) \<and> distinct (map pr_id (projects w'))"
proof -
  let ?hit = "\<lambda>p. pr_id p = i \<and> pr_user_id p = u \<and> pr_version p = upr_expected_version req"
  from res obtain p where p: "row_by ?hit (projects w) = Some p"
    and w': "projects w' = update_where ?hit (set_project req (now w)) (projects w)"
    by (auto simp: update_project_def Let_def split: option.splits)
  from versioned_row [OF ids p, of "set_project req (now w)"] show ?thesis
    by (simp add: project_by_id_def w' set_project_def)
qed

lemma calendar_accepted:
  assumes ids: "distinct (map c_id (calendars w))" and res: "update_calendar pf u i req w = Inr (a, w')"
  shows "map_option c_version (calendar_by_id u i w) = Some (uc_expected_version req)
    \<and> map_option c_version (calendar_by_id u i w') = Some (uc_expected_version req + 1) \<and> distinct (map c_id (calendars w'))"
proof -
  let ?hit = "\<lambda>c. c_id c = i \<and> c_user_id c = u \<and> c_version c = uc_expected_version req"
  have enq: "enqueue_sync u' c k key v = Inr (x, v') \<Longrightarrow> calendars v' = calendars v" for u' c k key v x v'
    by (auto simp: enqueue_sync_def new_uuid_def Let_def split: option.splits)
  from res obtain c where c: "row_by ?hit (calendars w) = Some c"
    and w': "calendars w' = update_where ?hit (set_calendar pf req (now w)) (calendars w)"
    by (auto simp: update_calendar_def Let_def dest!: enq split: option.splits if_splits)
  from versioned_row [OF ids c, of "set_calendar pf req (now w)"] show ?thesis
    by (simp add: calendar_by_id_def w' set_calendar_def)
qed

lemma event_accepted:
  assumes ids: "distinct (map e_id (events w))" and res: "update_calendar_event pf u i req w = Inr (a, w')"
  shows "map_option e_version (event_by_id u i w) = Some (ue_expected_version req)
    \<and> map_option e_version (event_by_id u i w') = Some (ue_expected_version req + 1) \<and> distinct (map e_id (events w'))"
proof -
  let ?hit = "\<lambda>e. e_id e = i \<and> e_user_id e = u \<and> e_version e = ue_expected_version req"
  from res obtain e c as where e: "row_by ?hit (events w) = Some e"
    and w': "events w' = update_where ?hit (set_event req c as (now w)) (events w)"
    by (rule update_event_effect) (rule that, assumption, simp add: Let_def split: option.splits)
  from versioned_row [OF ids e, of "set_event req c as (now w)"] show ?thesis
    by (simp add: event_by_id_def w' set_event_def)
qed

lemma task_by_id_append:
  "task_by_id u i w = Some t \<Longrightarrow> tasks w' = tasks w @ rows \<Longrightarrow> task_by_id u i w' = Some t"
  by (simp add: task_by_id_def row_by_append)

lemma task_after_next:
  assumes "(if b then create_next_recurring_task pf u i w else Inr w) = Inr w'" and "task_by_id u i w = Some t"
  shows "task_by_id u i w' = Some t"
proof (cases b)
  case True
  with assms(1) have "create_next_recurring_task pf u i w = Inr w'" by simp
  from create_next_effect [OF this] obtain n where "tasks w' = tasks w @ [n]" by blast
  with assms(2) show ?thesis by (rule task_by_id_append)
qed (use assms in simp)

lemma task_accepted:
  assumes ok: "tasks_ok s w" and res: "update_task_scoped pf u i req scope w = Inr (a, w')"
  shows "map_option t_version (task_by_id u i w) = Some (ut_expected_version req)
    \<and> map_option t_version (task_by_id u i w') = Some (ut_expected_version req + 1) \<and> tasks_ok s w'"
proof -
  obtain loaded r w1 t t' w3 ls where o: "update_outcome s pf u i req scope w a w' loaded r w1 t t' w3 ls"
    using update_task_outcome [OF assms] by blast
  then have l: "task_by_id u i w = Some loaded" and prep: "prepare req scope loaded = Inr r"
    and t: "t_version t = ut_expected_version req" and row3: "task_by_id u i w3 = Some t'"
    and next': "(if t_status r \<noteq> Completed \<and> t_status t' = Completed \<and> t_recurrence t' \<noteq> NoRecurrence
        then create_next_recurring_task pf u i w3 else Inr w3) = Inr w'"
    unfolding update_outcome_def by blast+
  have t': "t_version t' = t_version t + 1" using o by (auto simp: update_outcome_def)
  have "task_ok loaded" using ok l by (auto simp: tasks_ok_def rows_ok_def task_by_id_def dest: row_by_Some)
  with prepare_ok(1) [OF prep] l task_after_next [OF next' row3] t t' tasks_ok_update [OF assms] show ?thesis by simp
qed

interpretation task_version: versioned "\<lambda>k q. update_task_scoped pf (fst k) (snd k) (fst q) (snd q)"
  "\<lambda>q. ut_expected_version (fst q)" "\<lambda>k w. map_option t_version (task_by_id (fst k) (snd k) w)" "tasks_ok s" for pf s
  by unfold_locales (rule task_accepted)

interpretation project_version: versioned "\<lambda>k. update_project (fst k) (snd k)" upr_expected_version
  "\<lambda>k w. map_option pr_version (project_by_id (fst k) (snd k) w)" "\<lambda>w. distinct (map pr_id (projects w))"
  by unfold_locales (rule project_accepted)

interpretation calendar_version: versioned "\<lambda>k. update_calendar pf (fst k) (snd k)" uc_expected_version
  "\<lambda>k w. map_option c_version (calendar_by_id (fst k) (snd k) w)" "\<lambda>w. distinct (map c_id (calendars w))" for pf
  by unfold_locales (rule calendar_accepted)

interpretation event_version: versioned "\<lambda>k. update_calendar_event pf (fst k) (snd k)" ue_expected_version
  "\<lambda>k w. map_option e_version (event_by_id (fst k) (snd k) w)" "\<lambda>w. distinct (map e_id (events w))" for pf
  by unfold_locales (rule event_accepted)

section \<open>Properties\<close>

text \<open>
  C8. Task edits are never lost. When a sequence of updates of one task is accepted, their expected
  versions are the consecutive versions of the task, so each edit was made on the result of the
  one before, and after an accepted update every update made for the same version is refused.
\<close>

theorem task_updates_are_serial:
  assumes "tasks_ok s w" and "map_option t_version (task_by_id u i w) = Some v"
    and "fold_res (\<lambda>(req, scope) w. bind_res (update_task_scoped pf u i req scope w) (\<lambda>(_, w). Inr w)) qs w = Inr w'"
  shows "map (ut_expected_version \<circ> fst) qs = map (\<lambda>n. v + int n) [0..<length qs]
    \<and> map_option t_version (task_by_id u i w') = Some (v + int (length qs))
    \<and> (\<forall>req scope. ut_expected_version req < v + int (length qs) \<longrightarrow>
         (\<exists>e. update_task_scoped pf u i req scope w' = Inl e))"
proof -
  have run: "fold_res (\<lambda>q w. bind_res (update_task_scoped pf (fst (u, i)) (snd (u, i)) (fst q) (snd q) w) (\<lambda>(_, w). Inr w)) qs w = Inr w'"
    using assms(3) by (simp add: case_prod_unfold)
  note seq = task_version.accepted_in_sequence [OF run assms(1)]
  from seq assms(2) have ok': "tasks_ok s w'" and v': "map_option t_version (task_by_id u i w') = Some (v + int (length qs))"
    by simp_all
  have "\<exists>e. update_task_scoped pf u i req scope w' = Inl e" if "ut_expected_version req < v + int (length qs)" for req scope
  proof (cases "update_task_scoped pf u i req scope w'")
    case (Inr r)
    then obtain a w2 where "update_task_scoped pf u i req scope w' = Inr (a, w2)" by (cases r) simp
    from task_accepted [OF ok' this] v' that show ?thesis by simp
  qed blast
  with seq assms(2) show ?thesis by (simp add: comp_def)
qed

theorem task_updates_are_serial_witness:
  "\<exists>w'. map_option t_version (task_by_id 7 0 w') = Some 3
    \<and> (\<exists>e. update_task_scoped (ascii_platform 0) 7 0 (example_update None Todo NoRecurrence 2) None w' = Inl e)"
proof -
  let ?qs = "[(example_update None InProgress NoRecurrence 1, None), (example_update None Blocked NoRecurrence 2, None)]"
  obtain w' where "fold_res (\<lambda>(req, scope) w. bind_res (update_task_scoped (ascii_platform 0) 7 0 req scope w)
      (\<lambda>(_, w). Inr w)) ?qs (one_task NoRecurrence) = Inr w'"
    by (simp add: update_task_scoped_def run_simps example_simps set_task_def update_tasks_def shared_fields_changed_def)
  from task_updates_are_serial [OF tasks_ok_one_task [of True] _ this, of 1] show ?thesis
    by (auto simp: example_simps task_by_id_def row_by_def new_task_def)
qed

text \<open>
  The same for projects, calendars and events: after an accepted update a second one made
  for the same version is refused, whatever it changes.
\<close>

theorem concurrent_edits_conflict:
  "(\<forall>u i q q' a w w'. distinct (map pr_id (projects w)) \<longrightarrow> update_project u i q w = Inr (a, w')
      \<longrightarrow> upr_expected_version q' = upr_expected_version q \<longrightarrow> (\<exists>e. update_project u i q' w' = Inl e))
   \<and> (\<forall>pf u i q q' a w w'. distinct (map c_id (calendars w)) \<longrightarrow> update_calendar pf u i q w = Inr (a, w')
      \<longrightarrow> uc_expected_version q' = uc_expected_version q \<longrightarrow> (\<exists>e. update_calendar pf u i q' w' = Inl e))
   \<and> (\<forall>pf u i q q' a w w'. distinct (map e_id (events w)) \<longrightarrow> update_calendar_event pf u i q w = Inr (a, w')
      \<longrightarrow> ue_expected_version q' = ue_expected_version q \<longrightarrow> (\<exists>e. update_calendar_event pf u i q' w' = Inl e))"
proof (intro conjI allI impI)
  show "\<exists>e. update_project u i q' w' = Inl e"
    if "distinct (map pr_id (projects w))" "update_project u i q w = Inr (a, w')"
      "upr_expected_version q' = upr_expected_version q" for u i q q' a w w'
    using project_version.stale_refused [of w "(u, i)" q a w' q'] that by simp
  show "\<exists>e. update_calendar pf u i q' w' = Inl e"
    if "distinct (map c_id (calendars w))" "update_calendar pf u i q w = Inr (a, w')"
      "uc_expected_version q' = uc_expected_version q" for pf u i q q' a w w'
    using calendar_version.stale_refused [of w pf "(u, i)" q a w' q'] that by simp
  show "\<exists>e. update_calendar_event pf u i q' w' = Inl e"
    if "distinct (map e_id (events w))" "update_calendar_event pf u i q w = Inr (a, w')"
      "ue_expected_version q' = ue_expected_version q" for pf u i q q' a w w'
    using event_version.stale_refused [of w pf "(u, i)" q a w' q'] that by simp
qed

theorem concurrent_edits_conflict_witness:
  "\<exists>a w' e. update_project 7 1 \<lparr>upr_name = ''t'', upr_outcome = [], upr_target_date = None, upr_status = Paused,
      upr_expected_version = 1\<rparr> (empty_world\<lparr>projects := [new_project 1 7 ''t'' [] None Active 0]\<rparr>) = Inr (a, w')
    \<and> update_project 7 1 \<lparr>upr_name = ''t'', upr_outcome = [], upr_target_date = None, upr_status = Archived,
      upr_expected_version = 1\<rparr> w' = Inl e"
proof -
  let ?q = "\<lparr>upr_name = ''t'', upr_outcome = [], upr_target_date = None, upr_status = Paused, upr_expected_version = 1\<rparr>"
  let ?w = "empty_world\<lparr>projects := [new_project 1 7 ''t'' [] None Active 0]\<rparr>"
  obtain a w' where r: "update_project 7 1 ?q ?w = Inr (a, w')"
    by (simp add: update_project_def validate_project_fields_def new_project_def row_by_def Let_def require_def)
  then show ?thesis
    using conjunct1 [OF concurrent_edits_conflict, rule_format, OF _ r, of "?q\<lparr>upr_status := Archived\<rparr>"] by auto
qed

end
