(* ===== verification/TaskProperties.thy ===== *)
theory TaskProperties
  imports Versions
begin

text \<open>
  What \<open>TaskStore\<close> promises its clients: the subtask forest over whole runs, the exactness of the cycle
  check, completion and reopening of recurring tasks, reordering, labels and imports.
\<close>

section \<open>The subtask forest\<close>

definition task_run :: "bool \<Rightarrow> world \<Rightarrow> bool" where
  "task_run imp w \<longleftrightarrow> (\<exists>w0 ls. steps (task_step imp) w0 ls w \<and> tasks w0 = [] \<and> inj (uuid_supply w0))"

lemma task_run_ok:
  assumes "task_run imp w"
  shows "tasks_ok (\<not> imp) w"
proof -
  from assms obtain w0 ls where run: "steps (task_step imp) w0 ls w" "tasks w0 = []" "inj (uuid_supply w0)"
    unfolding task_run_def by blast
  then have "tasks_ok (\<not> imp) w0"
    by (simp add: tasks_ok_def rows_ok_def sources_ok_def links_def acyclic_def)
  with run(1) show ?thesis by (rule steps_invariant) (rule task_step_ok)
qed

lemma filter_map_on:
  "(\<And>x. P (g x) = P x) \<Longrightarrow> (\<And>x. P x \<Longrightarrow> g x = h x) \<Longrightarrow> filter P (map g xs) = map h (filter P xs)"
  by (induction xs) auto

lemma distinct_filter_single:
  assumes "distinct xs" and "x \<in> set xs" and "P x" and unique: "\<And>y. y \<in> set xs \<Longrightarrow> P y \<Longrightarrow> y = x"
  shows "filter P xs = [x]"
proof -
  obtain ys zs where xs: "xs = ys @ x # zs" using assms(2) by (meson split_list)
  have "filter P ys = []" "filter P zs = []"
    using assms(1) unique unfolding xs by (force simp: filter_empty_conv)+
  with assms(3) show ?thesis by (simp add: xs)
qed

text \<open>
  C9. Whatever the API's operations do to the tasks, in any order, by any number of users and with every
  refused request in between, the parent links are a forest: no chain of parents returns to its
  task, every parent is a task of the same user and project, and identifiers are unique. Without
  Todoist imports no parent recurs. A completed task is one with a completion time, schedules end after
  they start, recurring tasks have a deadline and no parent, and at most one successor of a
  recurring task exists, of the same user and only while the task it follows is completed.
\<close>

theorem tasks_form_a_forest:
  assumes "task_run imp w"
  shows "acyclic (links (tasks w)) \<and> distinct (map t_id (tasks w))
    \<and> (\<forall>t \<in> set (tasks w).
         (case t_parent_task_id t of None \<Rightarrow> True
          | Some p \<Rightarrow> \<exists>q \<in> set (tasks w). t_id q = p \<and> t_user_id q = t_user_id t \<and> t_project_id q = t_project_id t
              \<and> (imp \<or> t_recurrence q = NoRecurrence))
         \<and> ((t_status t = Completed) = (t_completed_at t \<noteq> None))
         \<and> (case (t_scheduled_start t, t_scheduled_end t) of
              (Some a, Some b) \<Rightarrow> a < b | (a, b) \<Rightarrow> a = None \<and> b = None)
         \<and> (t_recurrence t \<noteq> NoRecurrence \<longrightarrow> t_due_at t \<noteq> None \<and> t_parent_task_id t = None)
         \<and> (case t_recurrence_source_id t of None \<Rightarrow> True
            | Some i \<Rightarrow> (\<exists>s \<in> set (tasks w). t_id s = i \<and> t_user_id s = t_user_id t \<and> t_status s = Completed)
                \<and> filter (\<lambda>t. t_recurrence_source_id t = Some i) (tasks w) = [t]))"
proof -
  from task_run_ok [OF assms] have rows: "rows_ok (\<not> imp) (tasks w)" and src: "sources_ok (tasks w)"
    by (simp_all add: tasks_ok_def)
  have one: "filter (\<lambda>t. t_recurrence_source_id t = Some i) (tasks w) = [t]"
    if "t \<in> set (tasks w)" "t_recurrence_source_id t = Some i" for t i
  proof (rule distinct_filter_single)
    show "distinct (tasks w)" using rows by (simp add: rows_ok_def distinct_map)
    show "u = t" if "u \<in> set (tasks w)" "t_recurrence_source_id u = Some i" for u
      using src that \<open>t \<in> set (tasks w)\<close> \<open>t_recurrence_source_id t = Some i\<close> unfolding sources_ok_def
      by (metis option.discI)
  qed (use that in simp_all)
  show ?thesis
  proof (intro conjI ballI)
    show "acyclic (links (tasks w))" "distinct (map t_id (tasks w))" using rows by (simp_all add: rows_ok_def)
    fix t assume t: "t \<in> set (tasks w)"
    then have ok: "task_ok t" and par: "parent_ok (\<not> imp) (tasks w) t" using rows by (simp_all add: rows_ok_def)
    show "case t_parent_task_id t of None \<Rightarrow> True
          | Some p \<Rightarrow> \<exists>q \<in> set (tasks w). t_id q = p \<and> t_user_id q = t_user_id t \<and> t_project_id q = t_project_id t
              \<and> (imp \<or> t_recurrence q = NoRecurrence)"
      using par by (auto simp: parent_ok_def may_parent_def split: option.split)
    show "(t_status t = Completed) = (t_completed_at t \<noteq> None)"
      "t_recurrence t \<noteq> NoRecurrence \<longrightarrow> t_due_at t \<noteq> None \<and> t_parent_task_id t = None"
      using ok by (simp_all add: task_ok_def)
    show "case (t_scheduled_start t, t_scheduled_end t) of (Some a, Some b) \<Rightarrow> a < b | (a, b) \<Rightarrow> a = None \<and> b = None"
      using ok by (cases "t_scheduled_start t"; cases "t_scheduled_end t") (simp_all add: task_ok_def)
    show "case t_recurrence_source_id t of None \<Rightarrow> True
            | Some i \<Rightarrow> (\<exists>s \<in> set (tasks w). t_id s = i \<and> t_user_id s = t_user_id t \<and> t_status s = Completed)
                \<and> filter (\<lambda>t. t_recurrence_source_id t = Some i) (tasks w) = [t]"
      using one t src by (auto simp: sources_ok_def split: option.split)
  qed
qed

theorem tasks_form_a_forest_witness:
  "\<exists>w. task_run False w \<and> tasks w = [example_row 0 None NoRecurrence 1024, example_row 1 (Some 0) NoRecurrence 2048]
    \<and> acyclic (links (tasks w))"
proof -
  let ?w = "empty_world\<lparr>drawn := 2, tasks := [example_row 0 None NoRecurrence 1024, example_row 1 (Some 0) NoRecurrence 2048]\<rparr>"
  have "task_step False empty_world [] (one_task NoRecurrence)"
    by (rule task_step.create [OF create_one_task])
  moreover have "task_step False (one_task NoRecurrence) [] ?w"
    by (rule task_step.create [of "ascii_platform 0" 7 "example_create (Some 0) NoRecurrence"])
      (simp add: create_task_def run_simps example_simps insert_task_def)
  ultimately have "steps (task_step False) empty_world ([] @ []) ?w"
    by (intro steps_step [OF steps_one])
  then have "task_run False ?w" unfolding task_run_def by (force simp: empty_world_def)
  with tasks_form_a_forest [OF this] show ?thesis by auto
qed

section \<open>Moving a task below another\<close>

lemma rtrancl_first_hit: "(p, i) \<in> r\<^sup>* \<Longrightarrow> (p, i) \<in> (r - {i} \<times> UNIV)\<^sup>*"
proof (induction rule: converse_rtrancl_induct)
  case (step y z)
  then show ?case by (cases "y = i") (auto intro: converse_rtrancl_into_rtrancl)
qed simp

text \<open>The parent link of one task set to another one.\<close>

definition below :: "uuid \<Rightarrow> uuid \<Rightarrow> task_row list \<Rightarrow> task_row list" where
  "below i p rows = update_where (\<lambda>t. t_id t = i) (\<lambda>t. t\<lparr>t_parent_task_id := Some p\<rparr>) rows"

lemma links_below:
  assumes "t \<in> set rows" and "t_id t = i"
  shows "links (below i p rows) = insert (i, p) (links rows - {i} \<times> UNIV)"
proof (intro equalityI subsetI)
  fix e assume "e \<in> insert (i, p) (links rows - {i} \<times> UNIV)"
  then consider "e = (i, p)" | r q where "e = (t_id r, q)" "r \<in> set rows" "t_parent_task_id r = Some q" "t_id r \<noteq> i"
    by (auto simp: links_def)
  then show "e \<in> links (below i p rows)"
  proof cases
    case 1
    have "t\<lparr>t_parent_task_id := Some p\<rparr> \<in> set (below i p rows)" using assms by (force simp: below_def update_where_def)
    with assms(2) show ?thesis
      unfolding links_def 1 by (intro CollectI exI [of _ "t\<lparr>t_parent_task_id := Some p\<rparr>"] exI [of _ p]) simp
  next
    case 2
    then have "r \<in> set (below i p rows)" by (force simp: below_def update_where_def)
    with 2 show ?thesis by (auto simp: links_def)
  qed
qed (auto simp: links_def below_def update_where_def split: if_splits)

lemma acyclic_below:
  assumes "rows_ok strict rows" and "t \<in> set rows" and "t_id t = i"
  shows "acyclic (links (below i p rows)) \<longleftrightarrow> (p, i) \<notin> (links rows)\<^sup>*"
proof -
  have "acyclic (links rows - {i} \<times> UNIV)"
    using assms(1) by (auto simp: rows_ok_def intro: acyclic_subset)
  moreover have "(p, i) \<in> (links rows - {i} \<times> UNIV)\<^sup>* \<longleftrightarrow> (p, i) \<in> (links rows)\<^sup>*"
    using rtrancl_first_hit [of p i "links rows"] rtrancl_mono [of "links rows - {i} \<times> UNIV" "links rows"] by blast
  ultimately show ?thesis by (simp add: links_below [OF assms(2,3)] acyclic_insert)
qed

text \<open>
  C10. The cycle check of an update is exact. For an existing task and an existing parent of the
  same user the recursive query refuses the new parent link exactly when the table with that link
  would have a cycle, and the other two checks refuse exactly a recurrence or another project for a
  task with subtasks. The query ends on every table, also on one whose links are cyclic.
\<close>

theorem cycle_check_is_exact:
  assumes ok: "tasks_ok strict w" and t: "task_by_id u i w = Some t" and p: "task_by_id u p w = Some q"
  shows "validate_task_update_relationships u i project (Some p) recurrence w =
    (if recurrence \<noteq> NoRecurrence \<and> has_subtasks u i w then Inl (Validation ''a task with subtasks cannot recur'')
     else if t_project_id t \<noteq> project \<and> has_subtasks u i w
       then Inl (Validation ''a task with subtasks cannot change its project assignment'')
     else if \<not> acyclic (links (below i p (tasks w)))
       then Inl (Validation ''parent_task_id would create a subtask cycle'')
     else Inr ())"
proof -
  have rows: "rows_ok strict (tasks w)" using ok by (simp add: tasks_ok_def)
  have "t \<in> set (tasks w)" "t_id t = i" using t by (auto simp: task_by_id_def dest: row_by_Some)
  note acyclic_below [OF rows this]
  moreover have "\<exists>q \<in> set (tasks w). t_id q = p \<and> t_user_id q = u" using p by (auto simp: task_by_id_def dest: row_by_Some)
  ultimately have "acyclic (links (below i p (tasks w))) \<longleftrightarrow> i \<notin> set (parent_chain u (tasks w) p)"
    by (simp add: chain_decides [OF rows])
  with t show ?thesis by (simp add: validate_task_update_relationships_def require_def)
qed

theorem cycle_check_is_exact_witness:
  "validate_task_update_relationships 7 0 None (Some 0) NoRecurrence (one_task NoRecurrence)
   = Inl (Validation ''parent_task_id would create a subtask cycle'')"
proof -
  let ?t = "example_row 0 None NoRecurrence 1024"
  have t: "task_by_id 7 0 (one_task NoRecurrence) = Some ?t"
    by (simp add: task_by_id_def row_by_def one_task_def example_row_def new_task_def)
  have "(0, 0) \<in> links (below 0 0 (tasks (one_task NoRecurrence)))"
    by (simp add: links_def below_def update_where_def one_task_def example_row_def new_task_def)
  then have "\<not> acyclic (links (below 0 0 (tasks (one_task NoRecurrence))))" by (auto simp: acyclic_def)
  moreover have "\<not> has_subtasks 7 0 (one_task NoRecurrence)"
    by (simp add: has_subtasks_def one_task_def example_row_def new_task_def)
  ultimately show ?thesis
    using cycle_check_is_exact [OF tasks_ok_one_task [of True] t t, of None NoRecurrence] by simp
qed

section \<open>Completing and reopening\<close>

text \<open>
  \<open>n\<close> is the occurrence after \<open>s\<close> of the series of task \<open>i\<close>, moved from deadline \<open>d\<close> to \<open>d'\<close>.
\<close>

definition next_occurrence :: "uuid \<Rightarrow> uuid \<Rightarrow> task_row \<Rightarrow> timestamp \<Rightarrow> timestamp \<Rightarrow> task_row \<Rightarrow> bool" where
  "next_occurrence u i s d d' n \<longleftrightarrow>
     t_user_id n = u \<and> t_parent_task_id n = None \<and> t_recurrence_source_id n = Some i
     \<and> t_status n = Todo \<and> t_version n = 1 \<and> t_completed_at n = None \<and> t_due_at n = Some d'
     \<and> t_scheduled_start n = map_option (\<lambda>v. v + (d' - d)) (t_scheduled_start s)
     \<and> t_scheduled_end n = map_option (\<lambda>v. v + (d' - d)) (t_scheduled_end s)
     \<and> t_remind_at n = map_option (\<lambda>v. v + (d' - d)) (t_remind_at s)
     \<and> t_title n = t_title s \<and> t_description n = t_description s \<and> t_project_id n = t_project_id s
     \<and> t_priority n = t_priority s \<and> t_labels n = t_labels s \<and> t_recurrence n = t_recurrence s"

lemma completion_effect:
  assumes ok: "tasks_ok s w" and res: "update_task_scoped pf u i req scope w = Inr (a, w')"
    and t: "task_by_id u i w = Some t" "t_status t \<noteq> Completed"
    and req: "ut_status req = Completed" "ut_recurrence req \<noteq> NoRecurrence"
  obtains t' n d d' where "tasks w' = replace_row i t' (tasks w) @ [n]" "a = task.truncate t'"
    "t_id t' = i" "t_status t' = Completed" "t_version t' = t_version t + 1"
    "t_due_at (successor_source t') = Some d"
    "next_recurrence_date pf d (t_recurrence (successor_source t')) = Inr d'"
    "next_occurrence u i (successor_source t') d d' n"
    "t_id n \<notin> t_id ` set (tasks w)" "\<forall>x \<in> set (replace_row i t' (tasks w)). t_recurrence_source_id x \<noteq> Some i"
    "tasks_ok s w'"
proof -
  obtain loaded r w1 t1 t' w3 ls where o: "update_outcome s pf u i req scope w a w' loaded r w1 t1 t' w3 ls"
    using update_task_outcome [OF ok res] by blast
  have l: "loaded = t" using o t(1) by (simp add: update_outcome_def)
  have "task_ok t" using ok t(1) by (auto simp: tasks_ok_def rows_ok_def task_by_id_def dest: row_by_Some)
  with o l have st: "t_status r = t_status t" using prepare_ok [of req scope t r] by (auto simp: update_outcome_def)
  then have w1: "w1 = w" using o t(2) by (simp add: update_outcome_def)
  then have t1: "t1 = t" using o t(1) by (auto simp: update_outcome_def)
  have t': "t_id t' = i" "t_status t' = Completed" "t_recurrence t' \<noteq> NoRecurrence" "t_version t' = t_version t + 1"
    using o req t1 t(1) by (auto simp: update_outcome_def task_by_id_def dest: row_by_Some)
  with o st t(2) have "create_next_recurring_task pf u i w3 = Inr w'" by (simp add: update_outcome_def)
  from create_next_effect [OF this] o obtain n d d' where n: "tasks w' = tasks w3 @ [n]"
    "t_due_at (successor_source t') = Some d"
    "next_recurrence_date pf d (t_recurrence (successor_source t')) = Inr d'"
    "n = new_task (uuid_supply w3 (drawn w3)) u (t_project_id (successor_source t')) None
              (t_title (successor_source t')) (t_description (successor_source t')) (Some d')
              (map_option (\<lambda>v. v + (d' - d)) (t_scheduled_start (successor_source t')))
              (map_option (\<lambda>v. v + (d' - d)) (t_scheduled_end (successor_source t'))) Todo
              (t_priority (successor_source t')) (t_recurrence (successor_source t')) (t_labels (successor_source t'))
              (map_option (\<lambda>v. v + (d' - d)) (t_remind_at (successor_source t')))
              (next_task_position u w3) None (Some i) (now w3)"
    "\<forall>x \<in> set (tasks w3). t_recurrence_source_id x \<noteq> Some i"
    unfolding update_outcome_def by auto
  have w3: "tasks w3 = replace_row i t' (tasks w)" using o w1 by (simp add: update_outcome_def)
  have "tasks_ok s w'" using ok res by (rule tasks_ok_update)
  then have "distinct (map t_id (tasks w'))" by (simp add: tasks_ok_def rows_ok_def)
  moreover have "map t_id (replace_row i t' (tasks w)) = map t_id (tasks w)"
    unfolding replace_row_def update_where_def using t' by (auto simp: comp_def)
  ultimately have fresh: "t_id n \<notin> t_id ` set (tasks w)"
    unfolding n(1) w3 by (metis distinct_append list.set_map map_append disjoint_iff list.set_intros(1) list.simps(9))
  show ?thesis
    by (rule that [OF n(1) [unfolded w3] _ t'(1,2,4) n(2,3) _ fresh n(5) [unfolded w3] \<open>tasks_ok s w'\<close>])
      (use o in \<open>simp add: update_outcome_def\<close>, simp add: n(4) new_task_def next_occurrence_def)
qed

text \<open>
  C11. Completing a recurring task changes its row and appends exactly one row, the next occurrence:
  an unfinished top-level task of the same user at version 1 that names the completed task as its source, due one
  period later, with schedule and reminder moved by the same amount. Title, project, labels and repeat
  rule are those of the series: the task's own unless the occurrence was edited on its own.
  The completed task had no other successor. Every other row stays as it is.
\<close>

theorem completion_creates_the_next_occurrence:
  assumes "tasks_ok s w" and "update_task_scoped pf u i req scope w = Inr (a, w')"
    and "task_by_id u i w = Some t" and "t_status t \<noteq> Completed"
    and "ut_status req = Completed" and "ut_recurrence req \<noteq> NoRecurrence"
  shows "\<exists>t' n d d'. tasks w' = replace_row i t' (tasks w) @ [n] \<and> task.truncate t' = a
    \<and> t_status t' = Completed \<and> t_version t' = t_version t + 1
    \<and> t_due_at (successor_source t') = Some d
    \<and> next_recurrence_date pf d (t_recurrence (successor_source t')) = Inr d'
    \<and> t_id n \<notin> t_id ` set (tasks w) \<and> next_occurrence u i (successor_source t') d d' n
    \<and> (t_recurrence_defaults t' = None \<longrightarrow> successor_source t' = t')
    \<and> filter (\<lambda>x. t_recurrence_source_id x = Some i) (tasks w') = [n]"
proof (rule completion_effect [OF assms])
  fix t' n :: task_row and d d'
  let ?s = "successor_source t'"
  assume rows: "tasks w' = replace_row i t' (tasks w) @ [n]"
    and n: "next_occurrence u i ?s d d' n"
    and only: "\<forall>x \<in> set (replace_row i t' (tasks w)). t_recurrence_source_id x \<noteq> Some i"
    and rest: "a = task.truncate t'" "t_status t' = Completed" "t_version t' = t_version t + 1"
      "t_due_at ?s = Some d" "next_recurrence_date pf d (t_recurrence ?s) = Inr d'" "t_id n \<notin> t_id ` set (tasks w)"
  have "filter (\<lambda>x. t_recurrence_source_id x = Some i) (tasks w') = [n]"
    using only n by (simp add: rows next_occurrence_def filter_empty_conv)
  moreover have "t_recurrence_defaults t' = None \<longrightarrow> ?s = t'" by (simp add: successor_source_def)
  ultimately show ?thesis
    using rows rest n by (intro exI [of _ t'] exI [of _ n] exI [of _ d] exI [of _ d']) simp
qed

lemmas update_simps = update_task_scoped_def create_next_recurring_task_def next_recurrence_date_def ascii_platform_def
  day_def second_def successor_source_def set_task_def update_tasks_def shared_fields_changed_def insert_task_def

theorem completion_creates_the_next_occurrence_witness:
  "\<exists>a w' n. update_task_scoped (ascii_platform 0) 7 0 (example_update None Completed Daily 1) None (one_task Daily) = Inr (a, w')
    \<and> last (tasks w') = n \<and> t_due_at n = Some (86400 * 1000000) \<and> t_recurrence_source_id n = Some 0"
proof -
  obtain a w' where r: "update_task_scoped (ascii_platform 0) 7 0 (example_update None Completed Daily 1) None (one_task Daily) = Inr (a, w')"
    and due: "map t_due_at (tasks w') = [Some 0, Some (86400 * 1000000)]"
    by (simp add: update_simps run_simps example_simps)
  have t: "task_by_id 7 0 (one_task Daily) = Some (example_row 0 None Daily 1024)" "t_status (example_row 0 None Daily 1024) \<noteq> Completed"
    by (simp_all add: task_by_id_def row_by_def one_task_def example_row_def new_task_def)
  have "ut_status (example_update None Completed Daily 1) = Completed" "ut_recurrence (example_update None Completed Daily 1) \<noteq> NoRecurrence"
    by (simp_all add: example_update_def)
  from completion_creates_the_next_occurrence [OF tasks_ok_one_task [of True] r t this] obtain t' n
    where "tasks w' = replace_row 0 t' (tasks (one_task Daily)) @ [n]" "t_recurrence_source_id n = Some 0"
    unfolding next_occurrence_def by blast
  with r due show ?thesis
    by (intro exI [of _ a] exI [of _ w'] exI [of _ n]) (auto simp: map_eq_Cons_conv Cons_eq_append_conv append_eq_Cons_conv)
qed

lemma kept_last:
  assumes "p n" and "\<forall>x \<in> set rows. \<not> p x" and "\<forall>x \<in> set rows. t_recurrence_source_id x \<noteq> Some (t_id n)"
  shows "kept p (rows @ [n]) = rows"
proof -
  have "{r \<in> set (rows @ [n]). p r} = {n}" using assms by auto
  moreover have "delete_where p (rows @ [n]) = rows" using assms(1,2) by (simp add: delete_where_def filter_id_conv)
  ultimately show ?thesis unfolding kept_def
    by (simp, intro map_idI) (use assms(3) in \<open>auto simp: unlink_def split: option.split\<close>)
qed

lemma replace_row_again: "t_id t' = i \<Longrightarrow> replace_row i t'' (replace_row i t' rows) = replace_row i t'' rows"
  by (simp add: replace_row_def update_where_def comp_def)

lemma reopening_effect:
  assumes ok: "tasks_ok s w" and rows: "tasks w = rows @ [n]"
    and n: "t_recurrence_source_id n = Some i" "t_user_id n = u" "t_status n = Todo" "t_version n = 1"
    and only: "\<forall>x \<in> set rows. t_recurrence_source_id x \<noteq> Some i"
    and t': "task_by_id u i w = Some t'" "t_status t' = Completed" and row: "t' \<in> set rows"
    and res: "update_task_scoped pf u i req scope w = Inr (a, w')" and req: "ut_status req \<noteq> Completed"
  obtains t'' where "tasks w' = replace_row i t'' rows" "a = task.truncate t''" "t_id t'' = i"
    "t_status t'' = ut_status req" "t_completed_at t'' = None" "t_version t'' = t_version t' + 1"
proof -
  obtain loaded r w1 t1 t'' w3 ls where o: "update_outcome s pf u i req scope w a w' loaded r w1 t1 t'' w3 ls"
    using update_task_outcome [OF ok res] by blast
  have ids: "distinct (map t_id (tasks w))" using ok by (simp add: tasks_ok_def rows_ok_def)
  have "task_ok t'" using ok t'(1) by (auto simp: tasks_ok_def rows_ok_def task_by_id_def dest: row_by_Some)
  then have st: "t_status r = Completed" using o t' prepare_ok(2) by (auto simp: update_outcome_def)
  have "\<forall>x \<in> set rows. t_recurrence_source_id x \<noteq> Some (t_id n)"
    using no_successor_of_unfinished [OF ok, of n] rows n(3) by simp
  moreover have "\<forall>x \<in> set rows. \<not> (t_id x = t_id n \<and> t_user_id x = u)" using ids by (simp add: rows) (metis imageI)
  ultimately have "kept (\<lambda>t. t_id t = t_id n \<and> t_user_id t = u) (rows @ [n]) = rows"
    using n(2) by (intro kept_last) simp_all
  moreover have "row_by (\<lambda>t. t_recurrence_source_id t = Some i \<and> t_user_id t = u) (tasks w) = Some n"
  proof -
    have "row_by (\<lambda>t. t_recurrence_source_id t = Some i \<and> t_user_id t = u) rows = None" using only by (simp add: row_by_None)
    with n show ?thesis unfolding rows row_by_append by (simp add: row_by_def [of _ "[n]"])
  qed
  ultimately have w1: "tasks w1 = rows"
    using o st req n by (auto simp: update_outcome_def remove_next_occurrence_for_reopen_def tasks_delete_kept rows)
  have "t_id t' = i" "t_user_id t' = u" using t'(1) by (auto simp: task_by_id_def dest: row_by_Some)
  then have "task_by_id u i w1 = Some t'"
    unfolding task_by_id_def w1 using ids row rows by (intro row_by_key [where k = t_id]) auto
  then have t1: "t1 = t'" using o by (simp add: update_outcome_def)
  have t'': "t'' = set_task req ls None r (now w1) t'" using o req t1 by (auto simp: update_outcome_def)
  have "tasks w' = replace_row i t'' rows" using o req w1 t'' by (auto simp: update_outcome_def)
  moreover have "a = task.truncate t''" using o by (simp add: update_outcome_def)
  ultimately show ?thesis
    by (rule that) (use req t'' \<open>t_id t' = i\<close> in \<open>simp_all add: set_task_def\<close>)
qed

text \<open>
  C12. Reopening undoes completing. When a recurring task is completed and, at any later time, an update reopens it
  before its next occurrence was touched, that occurrence is gone again: the task table is the
  one before, row for row, except for the reopened row, which is two versions on, has no completion
  time and the status and fields of the second request.
\<close>

theorem reopening_undoes_completion:
  assumes ok: "tasks_ok s w" and complete: "update_task_scoped pf u i req scope w = Inr (a, w')"
    and t: "task_by_id u i w = Some t" "t_status t \<noteq> Completed"
    and req: "ut_status req = Completed" "ut_recurrence req \<noteq> NoRecurrence"
    and reopen: "update_task_scoped pf' u i req' scope' (w'\<lparr>now := k\<rparr>) = Inr (b, w'')" and req': "ut_status req' \<noteq> Completed"
  shows "\<exists>t''. tasks w'' = replace_row i t'' (tasks w) \<and> task.truncate t'' = b \<and> t_id t'' = i
    \<and> t_status t'' = ut_status req' \<and> t_completed_at t'' = None \<and> t_version t'' = t_version t + 2"
proof (rule completion_effect [OF ok complete t req])
  fix t' n :: task_row and d d'
  let ?rows = "replace_row i t' (tasks w)"
  assume rows: "tasks w' = ?rows @ [n]" and t': "t_id t' = i" "t_status t' = Completed" "t_version t' = t_version t + 1"
    and n: "next_occurrence u i (successor_source t') d d' n" and ok': "tasks_ok s w'"
    and only: "\<forall>x \<in> set ?rows. t_recurrence_source_id x \<noteq> Some i" and a: "a = task.truncate t'"
  have i: "t \<in> set (tasks w)" "t_id t = i" using t(1) by (auto simp: task_by_id_def dest: row_by_Some)
  then have row: "t' \<in> set ?rows" by (force simp: replace_row_def update_where_def)
  have "task_by_id u i w' \<noteq> None" using task_accepted [OF ok complete] by auto
  then obtain x where x: "task_by_id u i w' = Some x" by blast
  then have "x \<in> set (tasks w')" "t_id x = i" by (auto simp: task_by_id_def dest: row_by_Some)
  moreover have "distinct (map t_id (tasks w'))" using ok' by (simp add: tasks_ok_def rows_ok_def)
  ultimately have "x = t'" using row rows t'(1) by (metis Un_iff distinct_map_inj set_append)
  with x have cur: "task_by_id u i (w'\<lparr>now := k\<rparr>) = Some t'" by simp
  from ok' have ok'': "tasks_ok s (w'\<lparr>now := k\<rparr>)" by (simp add: tasks_ok_clock)
  show ?thesis
    by (rule reopening_effect [OF ok'' _ _ _ _ _ only cur t'(2) row reopen req'])
      (use rows n t' in \<open>auto simp: next_occurrence_def replace_row_again\<close>)
qed

theorem reopening_undoes_completion_witness:
  "\<exists>a w' b w''. update_task_scoped (ascii_platform 0) 7 0 (example_update None Completed Daily 1) None (one_task Daily) = Inr (a, w')
    \<and> length (tasks w') = 2
    \<and> update_task_scoped (ascii_platform 5) 7 0 (example_update None Todo Daily 2) None (w'\<lparr>now := 5\<rparr>) = Inr (b, w'')
    \<and> length (tasks w'') = 1"
proof -
  obtain a w' b w'' where r:
    "update_task_scoped (ascii_platform 0) 7 0 (example_update None Completed Daily 1) None (one_task Daily) = Inr (a, w')"
    "length (tasks w') = 2"
    "update_task_scoped (ascii_platform 5) 7 0 (example_update None Todo Daily 2) None (w'\<lparr>now := 5\<rparr>) = Inr (b, w'')"
    by (simp add: update_simps run_simps example_simps remove_next_occurrence_for_reopen_def delete_tasks_def
        delete_events_def delete_focus_def delete_notes_def)
  have t: "task_by_id 7 0 (one_task Daily) = Some (example_row 0 None Daily 1024)" "t_status (example_row 0 None Daily 1024) \<noteq> Completed"
    by (simp_all add: task_by_id_def row_by_def one_task_def example_row_def new_task_def)
  have "\<exists>t. tasks w'' = replace_row 0 t (tasks (one_task Daily))"
    using reopening_undoes_completion [OF tasks_ok_one_task [of True] r(1) t _ _ r(3)] by (auto simp: example_update_def)
  then have "length (tasks w'') = 1" by (auto simp: replace_row_def update_where_def one_task_def)
  with r show ?thesis by blast
qed

end
