(* ===== verification/Listings.thy ===== *)
theory Listings
  imports TaskProperties
begin

text \<open>
  What a client sees of the task table: keyset pages, the order a reordering leaves, and the normal form
  of labels.
\<close>

section \<open>Keyset pages\<close>

text \<open>A client that follows the cursors; the fuel bounds the number of requests.\<close>

fun collect :: "(uuid option \<Rightarrow> 'a list \<times> uuid option) \<Rightarrow> nat \<Rightarrow> uuid option \<Rightarrow> 'a list option" where
  "collect page 0 cursor = None"
| "collect page (Suc n) cursor =
     (case page cursor of
        (items, None) \<Rightarrow> Some items
      | (items, Some c) \<Rightarrow> map_option ((@) items) (collect page n (Some c)))"

definition after_cursor :: "('a \<Rightarrow> uuid) \<Rightarrow> uuid option \<Rightarrow> 'a list \<Rightarrow> 'a list" where
  "after_cursor key cursor rows = filter (\<lambda>r. case cursor of None \<Rightarrow> True | Some c \<Rightarrow> key r < c) rows"

text \<open>What a listing promises: a page is the next rows in descending order, the cursor its last key.\<close>

locale keyset_listing =
  fixes page :: "'w \<Rightarrow> int \<Rightarrow> uuid option \<Rightarrow> 'a list \<times> uuid option" and key :: "'a \<Rightarrow> uuid"
    and rows :: "'w \<Rightarrow> 'a list" and keyed :: "'w \<Rightarrow> bool"
  assumes descending: "keyed w \<Longrightarrow> sorted_wrt (\<lambda>x y. key y < key x) (rows w)"
    and page: "1 \<le> limit \<Longrightarrow> page w limit cursor = (take (nat limit) (after_cursor key cursor (rows w)),
       if nat limit < length (after_cursor key cursor (rows w))
       then Some (key (after_cursor key cursor (rows w) ! (nat limit - 1))) else None)"
begin

lemma after_next:
  assumes "keyed w" and positive: "0 < limit" and more: "limit < length (after_cursor key cursor (rows w))"
  shows "after_cursor key (Some (key (after_cursor key cursor (rows w) ! (limit - 1)))) (rows w)
    = drop limit (after_cursor key cursor (rows w))"
proof -
  let ?rest = "after_cursor key cursor (rows w)"
  let ?x = "?rest ! (limit - 1)"
  have x: "?x \<in> set ?rest" using more by simp
  have sorted: "sorted_wrt (\<lambda>x y. key y < key x) ?rest"
    unfolding after_cursor_def by (rule sorted_wrt_filter [OF descending [OF assms(1)]])
  have "\<not> key y < key ?x" if "y \<in> set (take limit ?rest)" for y
  proof -
    from that obtain j where j: "j < limit" "y = ?rest ! j" using more by (auto simp: in_set_conv_nth)
    show ?thesis
    proof (cases "j = limit - 1")
      case False
      then have "key ?x < key y" unfolding j(2) using more j(1) by (intro sorted_wrt_nth_less [OF sorted]) simp_all
      then show ?thesis by simp
    qed (simp add: j(2))
  qed
  moreover have "key y < key ?x" if "y \<in> set (drop limit ?rest)" for y
  proof -
    from that obtain j where "j < length ?rest - limit" "y = ?rest ! (limit + j)" by (auto simp: in_set_conv_nth)
    then show ?thesis using sorted_wrt_nth_less [OF sorted, of "limit - 1" "limit + j"] positive by simp
  qed
  ultimately have "filter (\<lambda>r. key r < key ?x) (take limit ?rest @ drop limit ?rest) = drop limit ?rest"
    by (subst filter_append) (simp add: filter_empty_conv filter_id_conv)
  moreover have "after_cursor key (Some (key ?x)) (rows w) = filter (\<lambda>r. key r < key ?x) ?rest"
    using x unfolding after_cursor_def filter_filter by (intro filter_cong) (auto split: option.splits)
  ultimately show ?thesis by simp
qed

lemma collect_rest:
  assumes "keyed w" and limit: "1 \<le> limit"
  shows "length (after_cursor key cursor (rows w)) < n
    \<Longrightarrow> collect (page w limit) n cursor = Some (after_cursor key cursor (rows w))"
proof (induction n arbitrary: cursor)
  case (Suc n)
  let ?rest = "after_cursor key cursor (rows w)"
  show ?case
  proof (cases "nat limit < length ?rest")
    case True
    have "0 < nat limit" using limit by simp
    note rest = after_next [OF assms(1) this True]
    have "length (drop (nat limit) ?rest) < n" using Suc.prems limit True by simp
    then have "collect (page w limit) n (Some (key (?rest ! (nat limit - 1)))) = Some (drop (nat limit) ?rest)"
      using Suc.IH [of "Some (key (?rest ! (nat limit - 1)))", unfolded rest] by simp
    with True show ?thesis by (simp add: page [OF limit, of w cursor])
  qed (simp add: page [OF limit, of w cursor])
qed simp

lemma collect_all: "keyed w \<Longrightarrow> 1 \<le> limit \<Longrightarrow> length (rows w) < n \<Longrightarrow> collect (page w limit) n None = Some (rows w)"
  using collect_rest [of w limit None n] by (simp add: after_cursor_def)

end

lemma keyset_page_eq:
  assumes "1 \<le> limit"
  shows "keyset_page key rows cursor limit =
    (let rest = after_cursor key cursor (rev (sort_key key rows))
     in (take (nat limit) rest, if nat limit < length rest then Some (key (rest ! (nat limit - 1))) else None))"
proof -
  let ?p = "\<lambda>r. case cursor of None \<Rightarrow> True | Some c \<Rightarrow> key r < c"
  let ?rest = "after_cursor key cursor (rev (sort_key key rows))"
  obtain l where l: "nat limit = Suc l" "nat (limit + 1) = Suc (Suc l)" using assms by (cases "nat limit") auto
  have rest: "rev (sort_key key (filter ?p rows)) = ?rest"
    by (simp add: after_cursor_def filter_sort [symmetric] rev_filter)
  show ?thesis
  proof (cases "Suc l < length ?rest")
    case True
    have "butlast (take (Suc (Suc l)) ?rest) = take (Suc l) ?rest"
      using True by (simp add: butlast_take)
    moreover have "take (Suc l) ?rest \<noteq> []" "last (take (Suc l) ?rest) = ?rest ! l"
      using True by (auto simp: take_Suc_conv_app_nth)
    ultimately show ?thesis using True unfolding keyset_page_def l rest by (simp add: Let_def)
  qed (unfold keyset_page_def l rest, simp add: Let_def)
qed

lemma sorted_wrt_rev_sort_key:
  assumes "distinct (map key rows)"
  shows "sorted_wrt (\<lambda>x y. (key y :: uuid) < key x) (rev (sort_key key rows))"
proof -
  have "distinct (map key (sort_key key rows))"
    using assms by (simp add: distinct_map)
  then have "sorted_wrt (<) (map key (sort_key key rows))" by (simp add: strict_sorted_iff)
  then show ?thesis by (simp add: sorted_wrt_rev sorted_wrt_map)
qed


text \<open>The rows of the two listings.\<close>

definition listed_tasks :: "uuid \<Rightarrow> uuid option \<Rightarrow> world \<Rightarrow> task_row list" where
  "listed_tasks user project w =
     rev (sort_key t_id (filter (\<lambda>t. t_user_id t = user
       \<and> (case project of None \<Rightarrow> True | Some p \<Rightarrow> t_project_id t = Some p)) (tasks w)))"

definition listed_projects :: "uuid \<Rightarrow> world \<Rightarrow> project_row list" where
  "listed_projects user w = rev (sort_key pr_id (filter (\<lambda>p. pr_user_id p = user) (projects w)))"

lemma after_cursor_map: "after_cursor key c (map f rows) = map f (after_cursor (key \<circ> f) c rows)"
  by (simp add: after_cursor_def filter_map comp_def)

definition task_pages :: "uuid \<Rightarrow> uuid option \<Rightarrow> int \<Rightarrow> world \<Rightarrow> uuid option \<Rightarrow> task list \<times> uuid option" where
  "task_pages user project limit w cursor =
     (let page = list_tasks user project cursor limit w in (tp_items page, tp_next_cursor page))"

definition project_pages :: "uuid \<Rightarrow> int \<Rightarrow> world \<Rightarrow> uuid option \<Rightarrow> project list \<times> uuid option" where
  "project_pages user limit w cursor =
     (let page = list_projects user cursor limit w in (pp_items page, pp_next_cursor page))"

lemma truncate_id: "t_id (task.truncate t) = t_id t"
  by (simp add: task.truncate_def)

lemma project_of_id: "p_id (project_of w p) = pr_id p"
  by (simp add: project_of_def Let_def)

lemma keyset_page_map:
  assumes "1 \<le> limit" and "\<And>r. key' (f r) = key r"
  shows "(case keyset_page key rows c limit of (items, next) \<Rightarrow> (map f items, next)) =
    (take (nat limit) (after_cursor key' c (map f (rev (sort_key key rows)))),
       if nat limit < length (after_cursor key' c (map f (rev (sort_key key rows))))
       then Some (key' (after_cursor key' c (map f (rev (sort_key key rows))) ! (nat limit - 1))) else None)"
proof -
  have k: "key' \<circ> f = key" using assms(2) by (simp add: comp_def)
  show ?thesis unfolding keyset_page_eq [OF assms(1)] after_cursor_map k by (simp add: Let_def take_map assms(2))
qed

interpretation task_listing: keyset_listing "\<lambda>w limit. task_pages u project limit w" t_id
  "\<lambda>w. map task.truncate (listed_tasks u project w)" "\<lambda>w. distinct (map t_id (tasks w))" for u project
proof
  show "sorted_wrt (\<lambda>x y. t_id y < t_id x) (map task.truncate (listed_tasks u project w))"
    if "distinct (map t_id (tasks w))" for w
    unfolding listed_tasks_def sorted_wrt_map truncate_id
    by (rule sorted_wrt_rev_sort_key) (use that in \<open>auto simp: distinct_map intro: inj_on_subset\<close>)
  show "task_pages u project limit w c = (take (nat limit) (after_cursor t_id c (map task.truncate (listed_tasks u project w))),
       if nat limit < length (after_cursor t_id c (map task.truncate (listed_tasks u project w)))
       then Some (t_id (after_cursor t_id c (map task.truncate (listed_tasks u project w)) ! (nat limit - 1))) else None)"
    if "1 \<le> limit" for limit w c
    unfolding listed_tasks_def keyset_page_map [OF that, where key = t_id and key' = t_id, OF truncate_id, symmetric]
    by (simp add: task_pages_def list_tasks_def Let_def split: prod.split)
qed

interpretation project_listing: keyset_listing "\<lambda>w limit. project_pages u limit w" p_id
  "\<lambda>w. map (project_of w) (listed_projects u w)" "\<lambda>w. distinct (map pr_id (projects w))" for u
proof
  show "sorted_wrt (\<lambda>x y. p_id y < p_id x) (map (project_of w) (listed_projects u w))"
    if "distinct (map pr_id (projects w))" for w
    unfolding listed_projects_def sorted_wrt_map project_of_id
    by (rule sorted_wrt_rev_sort_key) (use that in \<open>auto simp: distinct_map intro: inj_on_subset\<close>)
  show "project_pages u limit w c = (take (nat limit) (after_cursor p_id c (map (project_of w) (listed_projects u w))),
       if nat limit < length (after_cursor p_id c (map (project_of w) (listed_projects u w)))
       then Some (p_id (after_cursor p_id c (map (project_of w) (listed_projects u w)) ! (nat limit - 1))) else None)"
    if "1 \<le> limit" for limit w c
    unfolding listed_projects_def keyset_page_map [OF that, where key = pr_id and key' = p_id, OF project_of_id, symmetric]
    by (simp add: project_pages_def list_projects_def Let_def split: prod.split)
qed

text \<open>
  C13. A client that follows the cursors ends, after at most one request per row and one more, whatever page
  size it asks for (the service brings every request into 1 to 100), and has then every
  task, or project, of the user exactly once, newest identifier first.
\<close>

theorem pages_visit_every_row_once:
  assumes "distinct (map t_id (tasks w))" and "distinct (map pr_id (projects w))"
  shows "collect (task_pages u project (task_list_query_normalized_limit q) w) (Suc (length (listed_tasks u project w))) None
      = Some (map task.truncate (listed_tasks u project w))
    \<and> collect (project_pages u (page_query_normalized_limit q') w) (Suc (length (listed_projects u w))) None
      = Some (map (project_of w) (listed_projects u w))
    \<and> distinct (map t_id (listed_tasks u project w))
    \<and> set (listed_tasks u project w) = {t \<in> set (tasks w). t_user_id t = u \<and> (project = None \<or> t_project_id t = project)}
    \<and> distinct (map pr_id (listed_projects u w)) \<and> set (listed_projects u w) = {p \<in> set (projects w). pr_user_id p = u}"
proof -
  have q: "1 \<le> task_list_query_normalized_limit q" "1 \<le> page_query_normalized_limit q'"
    using task_list_query_limit_bounds page_query_limit_bounds by simp_all
  show ?thesis
  proof (intro conjI)
    show "collect (task_pages u project (task_list_query_normalized_limit q) w) (Suc (length (listed_tasks u project w))) None
      = Some (map task.truncate (listed_tasks u project w))"
      by (rule task_listing.collect_all [OF assms(1) q(1)]) simp
    show "collect (project_pages u (page_query_normalized_limit q') w) (Suc (length (listed_projects u w))) None
      = Some (map (project_of w) (listed_projects u w))"
      by (rule project_listing.collect_all [OF assms(2) q(2)]) simp
    show "distinct (map t_id (listed_tasks u project w))" "distinct (map pr_id (listed_projects u w))"
      using assms by (auto simp: listed_tasks_def listed_projects_def distinct_map intro: inj_on_subset)
    show "set (listed_tasks u project w) = {t \<in> set (tasks w). t_user_id t = u \<and> (project = None \<or> t_project_id t = project)}"
      by (cases project) (auto simp: listed_tasks_def)
    show "set (listed_projects u w) = {p \<in> set (projects w). pr_user_id p = u}" by (auto simp: listed_projects_def)
  qed
qed

theorem pages_visit_every_row_once_witness:
  "collect (task_pages 7 None (task_list_query_normalized_limit \<lparr>tlq_project_id = None, tlq_cursor = None, tlq_limit = Some 1\<rparr>)
     (empty_world\<lparr>tasks := [example_row 4 None Daily 1, example_row 9 None Weekly 2]\<rparr>)) 3 None
   = Some [task.truncate (example_row 9 None Weekly 2), task.truncate (example_row 4 None Daily 1)]"
proof -
  let ?w = "empty_world\<lparr>tasks := [example_row 4 None Daily 1, example_row 9 None Weekly 2]\<rparr>"
  have l: "listed_tasks 7 None ?w = [example_row 9 None Weekly 2, example_row 4 None Daily 1]"
    by (simp add: listed_tasks_def example_row_def new_task_def)
  show ?thesis
    using pages_visit_every_row_once [of ?w 7 None "\<lparr>tlq_project_id = None, tlq_cursor = None, tlq_limit = Some 1\<rparr>"]
    by (simp add: l) (simp add: numeral_3_eq_3 empty_world_def example_row_def new_task_def)
qed

section \<open>Reordering\<close>

lemma assign_positions_rows:
  "distinct ids \<Longrightarrow> tasks (assign_positions u ids n w) =
     map (\<lambda>t. case map_of (zip ids [n..<n + length ids]) (t_id t) of
        Some k \<Rightarrow> if t_user_id t = u then t\<lparr>t_position := (int k + 1) * 1024\<rparr> else t | None \<Rightarrow> t) (tasks w)"
proof (induction ids arbitrary: n w)
  case (Cons i ids)
  let ?w = "update_tasks (\<lambda>t. t_id t = i \<and> t_user_id t = u) (\<lambda>t. t\<lparr>t_position := (int n + 1) * 1024\<rparr>) w"
  have z: "zip (i # ids) [n..<n + length (i # ids)] = (i, n) # zip ids [Suc n..<Suc n + length ids]"
    by (simp add: upt_conv_Cons del: upt_Suc)
  have "map_of (zip ids [Suc n..<Suc n + length ids]) i = None" using Cons.prems by (auto simp: map_of_eq_None_iff dest: set_zip_leftD)
  with Cons.IH [of "Suc n" ?w] Cons.prems show ?case
    unfolding z by (auto simp: update_where_def split: option.split)
qed simp

lemma map_of_zip_upt: "distinct ids \<Longrightarrow> k < length ids \<Longrightarrow> map_of (zip ids [0..<length ids]) (ids ! k) = Some k"
  by (simp add: map_of_zip_nth)

lemma reorder_accepts_iff:
  assumes "distinct (map t_id (tasks w))"
  shows "(\<exists>w'. reorder_tasks u req w = Inr ((), w')) \<longleftrightarrow>
    distinct (rt_task_ids req) \<and> set (rt_task_ids req) = t_id ` {t \<in> set (tasks w). t_user_id t = u}"
proof -
  let ?ids = "rt_task_ids req"
  let ?mine = "filter (\<lambda>t. t_user_id t = u) (tasks w)"
  have mine: "distinct (map t_id ?mine)" "set ?mine = {t \<in> set (tasks w). t_user_id t = u}"
    using assms by (auto simp: distinct_map intro: inj_on_subset)
  have card: "card (t_id ` set ?mine) = length ?mine" using mine(1) by (metis distinct_card length_map list.set_map)
  have all: "length (filter (\<lambda>t. t_id t \<in> set ?ids) ?mine) = length ?mine \<longleftrightarrow> t_id ` set ?mine \<subseteq> set ?ids"
    by (metis (mono_tags, lifting) filter_id_conv image_subset_iff length_filter_less less_irrefl)
  have "(\<exists>w'. reorder_tasks u req w = Inr ((), w')) \<longleftrightarrow> card (set ?ids) = length ?ids
      \<and> length ?mine = length ?ids \<and> length (filter (\<lambda>t. t_id t \<in> set ?ids) ?mine) = length ?mine"
    by (simp add: reorder_tasks_def Let_def)
  also have "\<dots> \<longleftrightarrow> card (set ?ids) = length ?ids \<and> length ?mine = length ?ids \<and> t_id ` set ?mine \<subseteq> set ?ids"
    by (simp only: all)
  also have "\<dots> \<longleftrightarrow> distinct ?ids \<and> set ?ids = t_id ` set ?mine"
    using card card_distinct [of ?ids] distinct_card [of ?ids] card_subset_eq [of "set ?ids" "t_id ` set ?mine"] by auto
  finally show ?thesis by (simp only: mine(2))
qed

lemma sorted_by_index:
  assumes ids: "distinct ids" and idx: "\<And>k. k < length ids \<Longrightarrow> idx (ids ! k) = k"
    and rows: "distinct (map t_id rows)" "t_id ` set rows = set ids"
    and pos: "\<And>t. t \<in> set rows \<Longrightarrow> t_position t = (int (idx (t_id t)) + 1) * 1024"
  shows "map t_id (sort_key t_position rows) = ids"
proof (rule map_sorted_distinct_set_unique [where f = idx])
  let ?xs = "sort_key t_position rows"
  have map: "map idx ids = [0..<length ids]" by (rule nth_equalityI) (simp_all add: idx)
  then show "sorted (map idx ids)" "distinct (map idx ids)" by simp_all
  have "sorted_wrt (\<lambda>x y. t_position x \<le> t_position y) ?xs" using sorted_sort_key [of t_position rows] by (simp add: sorted_map)
  then have "sorted_wrt (\<lambda>x y. idx (t_id x) \<le> idx (t_id y)) ?xs"
    by (rule sorted_wrt_mono_rel [rotated]) (simp add: pos)
  then show "sorted (map idx (map t_id ?xs))" by (simp add: sorted_map)
  have inj: "inj_on idx (set ids)" using map ids by (metis distinct_map distinct_upt)
  have set: "set (map t_id ?xs) = set ids" using rows(2) by simp
  then show "inj_on idx (set (map t_id ?xs) \<union> set ids)" using inj by simp
  have "distinct (map t_id ?xs)" using rows(1) by (simp add: distinct_map)
  then show "distinct (map idx (map t_id ?xs))" using inj set by (simp only: distinct_map)
  show "set (map t_id ?xs) = set ids" by (rule set)
qed

text \<open>
  A reordering is accepted exactly when it names every task of the user once, and nothing else.
  Afterwards the user's tasks sorted by position have the requested order, and nothing but the
  positions has changed: no other user's task, no version and no other field.
\<close>

theorem reorder_gives_the_requested_order:
  assumes ids: "distinct (map t_id (tasks w))"
  shows "case reorder_tasks u req w of
      Inl e \<Rightarrow> \<not> (distinct (rt_task_ids req) \<and> set (rt_task_ids req) = t_id ` {t \<in> set (tasks w). t_user_id t = u})
    | Inr (_, w') \<Rightarrow> distinct (rt_task_ids req) \<and> set (rt_task_ids req) = t_id ` {t \<in> set (tasks w). t_user_id t = u}
        \<and> map t_id (sort_key t_position (filter (\<lambda>t. t_user_id t = u) (tasks w'))) = rt_task_ids req
        \<and> map (\<lambda>t. t\<lparr>t_position := 0\<rparr>) (tasks w') = map (\<lambda>t. t\<lparr>t_position := 0\<rparr>) (tasks w)
        \<and> filter (\<lambda>t. t_user_id t \<noteq> u) (tasks w') = filter (\<lambda>t. t_user_id t \<noteq> u) (tasks w)"
proof (cases "reorder_tasks u req w")
  case (Inl e)
  with reorder_accepts_iff [OF ids, of u req] show ?thesis by simp
next
  case (Inr r)
  then obtain w' where r: "reorder_tasks u req w = Inr ((), w')" by (cases r) simp
  let ?ids = "rt_task_ids req"
  from r reorder_accepts_iff [OF ids, of u req] have acc: "distinct ?ids"
    "set ?ids = t_id ` {t \<in> set (tasks w). t_user_id t = u}" by auto
  define idx where "idx = (\<lambda>i. the (map_of (zip ?ids [0..<length ?ids]) i))"
  have idx: "k < length ?ids \<Longrightarrow> idx (?ids ! k) = k" for k using acc(1) by (simp add: idx_def map_of_zip_upt)
  have w': "w' = assign_positions u ?ids 0 w" using r by (simp add: reorder_tasks_def Let_def)
  define f :: "task_row \<Rightarrow> task_row" where "f = (\<lambda>t. case map_of (zip ?ids [0..<length ?ids]) (t_id t) of
        Some k \<Rightarrow> if t_user_id t = u then t\<lparr>t_position := (int k + 1) * 1024\<rparr> else t | None \<Rightarrow> t)"
  have rows: "tasks w' = map f (tasks w)" using assign_positions_rows [OF acc(1), of u 0 w] by (simp add: w' f_def)
  have f: "t_id (f t) = t_id t" "t_user_id (f t) = t_user_id t" "(f t)\<lparr>t_position := 0\<rparr> = t\<lparr>t_position := 0\<rparr>"
    "t_user_id t \<noteq> u \<Longrightarrow> f t = t" for t by (simp_all add: f_def split: option.split)
  have pos: "t_position t = (int (idx (t_id t)) + 1) * 1024" if "t \<in> set (tasks w')" "t_user_id t = u" for t
  proof -
    from that obtain t0 where t0: "t0 \<in> set (tasks w)" "t = f t0" "t_user_id t0 = u"
      unfolding rows set_map by (metis (no_types, lifting) f(2) imageE)
    then have "t_id t0 \<in> set ?ids" by (simp add: acc(2))
    then obtain k where "k < length ?ids" "?ids ! k = t_id t0" by (auto simp: in_set_conv_nth)
    then have "map_of (zip ?ids [0..<length ?ids]) (t_id t0) = Some k" using map_of_zip_upt [OF acc(1)] by metis
    with t0 show ?thesis by (simp add: f_def idx_def)
  qed
  have same: "map t_id (tasks w') = map t_id (tasks w)" by (simp add: rows f(1) comp_def)
  have mine: "t_id ` set (filter (\<lambda>t. t_user_id t = u) (tasks w')) = set ?ids"
    unfolding acc(2) rows by (auto simp: f(1,2) filter_map image_image comp_def)
  have "map t_id (sort_key t_position (filter (\<lambda>t. t_user_id t = u) (tasks w'))) = ?ids"
  proof (rule sorted_by_index [OF acc(1) idx _ mine])
    show "distinct (map t_id (filter (\<lambda>t. t_user_id t = u) (tasks w')))"
      using ids unfolding same [symmetric] by (auto simp: distinct_map intro: inj_on_subset)
  qed (use pos in simp_all)
  moreover have "map (\<lambda>t. t\<lparr>t_position := 0\<rparr>) (tasks w') = map (\<lambda>t. t\<lparr>t_position := 0\<rparr>) (tasks w)"
    by (simp add: rows f(3) comp_def)
  moreover have "filter (\<lambda>t. t_user_id t \<noteq> u) (tasks w') = filter (\<lambda>t. t_user_id t \<noteq> u) (tasks w)"
    using filter_map_on [of _ f "\<lambda>t. t"] by (simp add: rows f)
  ultimately show ?thesis using r acc by simp
qed

theorem reorder_gives_the_requested_order_witness:
  "\<exists>w'. reorder_tasks 7 \<lparr>rt_task_ids = [9, 4]\<rparr>
      (empty_world\<lparr>tasks := [example_row 4 None Daily 1, example_row 9 None Weekly 2]\<rparr>) = Inr ((), w')
    \<and> map t_id (sort_key t_position (filter (\<lambda>t. t_user_id t = 7) (tasks w'))) = [9, 4]"
proof -
  let ?w = "empty_world\<lparr>tasks := [example_row 4 None Daily 1, example_row 9 None Weekly 2]\<rparr>"
  have ids: "distinct (map t_id (tasks ?w))" by (simp add: example_row_def new_task_def)
  obtain w' where "reorder_tasks 7 \<lparr>rt_task_ids = [9, 4]\<rparr> ?w = Inr ((), w')"
    by (simp add: reorder_tasks_def example_row_def new_task_def)
  with reorder_gives_the_requested_order [OF ids, where u = 7 and req = "\<lparr>rt_task_ids = [9, 4]\<rparr>"] show ?thesis by simp
qed

section \<open>Labels\<close>

text \<open>The normal form: trimmed, lower case, no empty label, the first of equal labels kept.\<close>

definition normal_labels :: "(string \<Rightarrow> string) \<Rightarrow> string list \<Rightarrow> string list" where
  "normal_labels lc ls = rev (remdups (rev (filter (\<lambda>l. l \<noteq> []) (map (\<lambda>l. lc (trim l)) ls))))"

lemma rev_remdups_snoc: "rev (remdups (rev (xs @ [x]))) = (if x \<in> set xs then rev (remdups (rev xs)) else rev (remdups (rev xs)) @ [x])"
  by simp

lemma validate_labels_loop_eq:
  "validate_labels_loop lc ls (rev (remdups (rev xs))) =
     (if \<exists>l \<in> set ls. \<not> chars_count (lc (trim l)) \<le> 32 then Inl (Validation ''task labels cannot exceed 32 characters'')
      else Inr (rev (remdups (rev (xs @ filter (\<lambda>l. l \<noteq> []) (map (\<lambda>l. lc (trim l)) ls))))))"
proof (induction ls arbitrary: xs)
  case (Cons l ls)
  show ?case
  proof (cases "lc (trim l) = []")
    case True
    then show ?thesis using Cons.IH [of xs] by (simp add: Let_def chars_count_def)
  next
    case False
    have "(if lc (trim l) \<in> set (rev (remdups (rev xs))) then rev (remdups (rev xs)) else rev (remdups (rev xs)) @ [lc (trim l)])
        = rev (remdups (rev (xs @ [lc (trim l)])))" by simp
    with False Cons.IH [of "xs @ [lc (trim l)]"] show ?thesis by (simp add: Let_def require_def)
  qed
qed simp

lemma validate_labels_eq:
  "validate_labels pf ls =
     (if \<exists>l \<in> set ls. \<not> chars_count (to_lowercase pf (trim l)) \<le> 32 then Inl (Validation ''task labels cannot exceed 32 characters'')
      else if 10 < length (normal_labels (to_lowercase pf) ls) then Inl (Validation ''a task cannot have more than 10 labels'')
      else Inr (normal_labels (to_lowercase pf) ls))"
  using validate_labels_loop_eq [of "to_lowercase pf" ls "[]"]
  by (auto simp: validate_labels_def normal_labels_def require_def)

lemma normal_labels_fixed:
  assumes "\<forall>l \<in> set ls. lc (trim l) = l \<and> l \<noteq> []" and "distinct ls"
  shows "normal_labels lc ls = ls"
proof -
  have "map (\<lambda>l. lc (trim l)) ls = ls" using assms(1) by (intro map_idI) simp
  moreover have "filter (\<lambda>l. l \<noteq> []) ls = ls" using assms(1) by (simp add: filter_id_conv)
  ultimately show ?thesis using assms(2) by (simp add: normal_labels_def distinct_remdups_id)
qed

text \<open>
  C14. The labels the validation of a task request answers are the normal form of the request's: every label that is left
  after trimming and lower-casing, once, in the order of first appearance. They are accepted exactly when
  none is longer than 32 characters and at most ten are left. Validating them again changes nothing, so an
  edit that sends back such labels keeps them. Of the platform's lower-casing this needs that it is
  idempotent and turns trimmed text into trimmed text.
\<close>

theorem labels_are_normalised:
  assumes "\<forall>l. to_lowercase pf (trim (to_lowercase pf (trim l))) = to_lowercase pf (trim l)"
  shows "(case validate_labels pf ls of
      Inl e \<Rightarrow> (\<exists>l \<in> set ls. \<not> chars_count (to_lowercase pf (trim l)) \<le> 32)
        \<or> 10 < length (normal_labels (to_lowercase pf) ls)
    | Inr ls' \<Rightarrow> ls' = normal_labels (to_lowercase pf) ls \<and> distinct ls' \<and> length ls' \<le> 10
        \<and> (\<forall>l \<in> set ls'. l \<noteq> [] \<and> chars_count l \<le> 32)
        \<and> set ls' = (\<lambda>l. to_lowercase pf (trim l)) ` set ls - {[]}
        \<and> validate_labels pf ls' = Inr ls')"
proof (cases "validate_labels pf ls")
  case (Inl e)
  then show ?thesis by (auto simp: validate_labels_eq split: if_splits)
next
  case (Inr ls')
  let ?n = "\<lambda>l. to_lowercase pf (trim l)"
  have ls': "ls' = normal_labels (to_lowercase pf) ls" "length ls' \<le> 10" "\<forall>l \<in> set ls. chars_count (?n l) \<le> 32"
    using Inr by (auto simp: validate_labels_eq split: if_splits)
  have set: "set ls' = ?n ` set ls - {[]}" by (auto simp: ls'(1) normal_labels_def)
  have dist: "distinct ls'" by (simp add: ls'(1) normal_labels_def)
  have each: "\<forall>l \<in> set ls'. ?n l = l \<and> l \<noteq> [] \<and> chars_count l \<le> 32" unfolding set using assms ls'(3) by blast
  then have "normal_labels (to_lowercase pf) ls' = ls'" using dist by (intro normal_labels_fixed) auto
  with each ls'(2) have "validate_labels pf ls' = Inr ls'" by (simp add: validate_labels_eq)
  with ls' dist each set show ?thesis unfolding Inr sum.case by blast
qed

text \<open>The lower-casing of ASCII text meets this: it leaves white space alone.\<close>

lemma map_eq_fixed: "\<forall>x \<in> set c. \<forall>y. f y = x \<longleftrightarrow> y = x \<Longrightarrow> map f s = c \<longleftrightarrow> s = c"
  by (induction c arbitrary: s) (auto simp: map_eq_Cons_conv)

lemma strip_map:
  assumes "\<forall>c \<in> set cs. \<forall>x \<in> set c. \<forall>y. f y = x \<longleftrightarrow> y = x"
  shows "strip cs (map f s) = map f (strip cs s)"
proof (induction "length s" arbitrary: s rule: less_induct)
  case less
  have lead: "leading cs (map f s) = leading cs s"
    unfolding leading_def using assms by (intro find_cong) (simp_all add: take_map map_eq_fixed)
  show ?case
  proof (cases "leading cs s")
    case None
    then show ?thesis using lead by (simp add: strip_id)
  next
    case (Some c)
    then have "c \<noteq> []" and "s = c @ drop (length c) s" using leading_Some by blast+
    then have "0 < length c" "s \<noteq> []" by auto
    then have "length (drop (length c) s) < length s" by simp
    from less [OF this] Some lead show ?thesis
      by (simp add: strip.simps [of cs "map f s"] strip.simps [of cs s] drop_map)
  qed
qed

lemma ascii_lower_fixed: "(of_char x :: nat) < 65 \<or> 122 < (of_char x :: nat) \<Longrightarrow>
  (let n = (of_char y :: nat) in if 65 \<le> n \<and> n \<le> 90 then char_of (n + 32) else y) = x \<longleftrightarrow> y = x"
  by (auto simp: Let_def)

lemma whitespace_not_letter: "c \<in> set whitespace_chars \<Longrightarrow> x \<in> set c \<Longrightarrow> (of_char x :: nat) < 65 \<or> 122 < (of_char x :: nat)"
  by (auto simp: whitespace_chars_def)

lemma trim_ascii_lower: "trim (ascii_lower s) = ascii_lower (trim s)"
proof -
  have 1: "\<forall>c \<in> set whitespace_chars. \<forall>x \<in> set c. \<forall>y. (let n = (of_char y :: nat) in if 65 \<le> n \<and> n \<le> 90 then char_of (n + 32) else y) = x \<longleftrightarrow> y = x"
    using whitespace_not_letter ascii_lower_fixed by blast
  then have 2: "\<forall>c \<in> set (map rev whitespace_chars). \<forall>x \<in> set c. \<forall>y. (let n = (of_char y :: nat) in if 65 \<le> n \<and> n \<le> 90 then char_of (n + 32) else y) = x \<longleftrightarrow> y = x"
    by simp
  show ?thesis
    unfolding trim_def trim_start_def trim_end_def ascii_lower_def strip_map [OF 1] rev_map strip_map [OF 2] by simp
qed

lemma ascii_lower_idem: "ascii_lower (ascii_lower s) = ascii_lower s"
  by (simp add: ascii_lower_def Let_def)

theorem labels_are_normalised_witness:
  "\<exists>ls'. validate_labels (ascii_platform 0) [''Home'', ''urgent'', ''HOME''] = Inr ls' \<and> ls' = [''home'', ''urgent'']
    \<and> validate_labels (ascii_platform 0) ls' = Inr ls'"
proof -
  have lower: "to_lowercase (ascii_platform 0) = ascii_lower" by (simp add: ascii_platform_def)
  have trim: "trim ''Home'' = ''Home''" "trim ''urgent'' = ''urgent''" "trim ''HOME'' = ''HOME''"
    by (simp_all add: trim_visible visible_def)
  have v: "validate_labels (ascii_platform 0) [''Home'', ''urgent'', ''HOME''] = Inr [''home'', ''urgent'']"
    by (simp add: validate_labels_eq lower trim normal_labels_def ascii_lower_def chars_count_def char_of_def bit_iff_odd)
  have "\<forall>l. to_lowercase (ascii_platform 0) (trim (to_lowercase (ascii_platform 0) (trim l))) = to_lowercase (ascii_platform 0) (trim l)"
    by (simp add: lower trim_ascii_lower ascii_lower_idem)
  from labels_are_normalised [OF this, of "[''Home'', ''urgent'', ''HOME'']"]
  have "validate_labels (ascii_platform 0) [''home'', ''urgent''] = Inr [''home'', ''urgent'']"
    unfolding v sum.case by blast
  with v show ?thesis by blast
qed

end
