(* ===== verification/TimeBlocks.thy ===== *)
theory TimeBlocks
  imports TaskProperties
begin

text \<open>
  The calendar side of tasks: the time block of a scheduled task, the tombstones that tell the provider
  about deleted events, and the Todoist import.
\<close>

section \<open>Time blocks\<close>

definition linked :: "uuid \<Rightarrow> world \<Rightarrow> event_row list" where
  "linked i w = filter (\<lambda>e. e_linked_task_id e = Some i) (events w)"

text \<open>
  The unique index on \<open>linked_task_id\<close>, the primary key of events and the composite foreign key to the
  owner's tasks, as far as task \<open>i\<close> of user \<open>u\<close> is concerned.
\<close>

definition block_ok :: "uuid \<Rightarrow> uuid \<Rightarrow> world \<Rightarrow> bool" where
  "block_ok u i w \<longleftrightarrow> distinct (map e_id (events w)) \<and> length (linked i w) \<le> 1
     \<and> (\<forall>e \<in> set (linked i w). e_user_id e = u)"

lemma linked_cases:
  assumes "block_ok u i w"
  obtains "linked i w = []" "task_calendar_event u i w = None" "\<And>e. e \<in> set (events w) \<Longrightarrow> e_linked_task_id e \<noteq> Some i"
  | e where "linked i w = [e]" "task_calendar_event u i w = Some e" "e \<in> set (events w)" "e_user_id e = u"
      "e_linked_task_id e = Some i" "\<And>x. x \<in> set (events w) \<Longrightarrow> e_linked_task_id x = Some i \<Longrightarrow> x = e"
proof (cases "linked i w")
  case Nil
  then have no: "\<And>e. e \<in> set (events w) \<Longrightarrow> e_linked_task_id e \<noteq> Some i" by (simp add: linked_def filter_empty_conv)
  then have none: "task_calendar_event u i w = None" by (auto simp: task_calendar_event_def row_by_None)
  show ?thesis using Nil none no by (rule that(1))
next
  case (Cons e es)
  with assms have l: "linked i w = [e]" "e_user_id e = u" by (simp_all add: block_ok_def)
  have mem: "x \<in> set (events w) \<and> e_linked_task_id x = Some i \<longleftrightarrow> x = e" for x
    using arg_cong [OF l(1), of set] by (auto simp: linked_def)
  have "task_calendar_event u i w = Some e"
    unfolding task_calendar_event_def by (rule row_by_unique) (use mem l(2) in blast)+
  with l mem show ?thesis by (intro that(2)) blast+
qed

text \<open>The events after a synchronization of the time block.\<close>

lemma events_remove:
  assumes ok: "block_ok u i w"
  shows "events (remove_task_calendar_event u i w) = filter (\<lambda>e. e_linked_task_id e \<noteq> Some i) (events w)"
  using ok
proof (cases rule: linked_cases)
  case 1
  then show ?thesis by (simp add: remove_task_calendar_event_def filter_id_conv)
next
  case (2 e)
  have ids: "distinct (map e_id (events w))" using ok by (simp add: block_ok_def)
  have "(e_user_id x = u \<and> e_id x = e_id e) \<longleftrightarrow> e_linked_task_id x = Some i" if "x \<in> set (events w)" for x
    using 2 that distinct_map_inj [OF ids] by metis
  then show ?thesis
    unfolding remove_task_calendar_event_def 2(2) by (auto simp: delete_where_def intro!: filter_cong)
qed

lemma filter_linked_update_where:
  "(\<And>e. q (f e) = q e) \<Longrightarrow> filter q (update_where q f xs) = map f (filter q xs)
   \<and> filter (\<lambda>e. \<not> q e) (update_where q f xs) = filter (\<lambda>e. \<not> q e) xs"
  by (induction xs) (auto simp: update_where_def)

lemma sync_events_scheduled:
  assumes ok: "block_ok u (t_id t) w" and t: "t_scheduled_start t = Some a" "t_scheduled_end t = Some b"
    and res: "sync_task_calendar_event u t w = Inr w'"
  obtains e where "linked (t_id t) w' = [e]" "e_user_id e = u" "e_starts_at e = a" "e_ends_at e = b"
    "e_title e = t_title t" "e_description e = t_description t"
    "e_calendar_id e = fst (preferred_time_block_calendar u w)"
    "case linked (t_id t) w of [] \<Rightarrow> e_version e = 1 | old # _ \<Rightarrow> e_id e = e_id old \<and> e_version e = e_version old + 1"
    "filter (\<lambda>e. e_linked_task_id e \<noteq> Some (t_id t)) (events w') = filter (\<lambda>e. e_linked_task_id e \<noteq> Some (t_id t)) (events w)"
proof -
  let ?q = "\<lambda>e. e_linked_task_id e = Some (t_id t)"
  let ?cal = "fst (preferred_time_block_calendar u w)"
  let ?w1 = "leave_calendar u ?cal (task_calendar_event u (t_id t) w) (snd (preferred_time_block_calendar u w))"
  from res obtain usr where usr: "row_by (\<lambda>x. u_id x = u) (users w) = Some usr"
    by (auto simp: sync_scheduled [OF t] Let_def split: option.splits)
  define new where "new = time_block (uuid_supply ?w1 (drawn ?w1)) u ?cal t a b (u_timezone usr) (now w)"
  have new: "e_linked_task_id new = Some (t_id t)" "e_user_id new = u" "e_starts_at new = a" "e_ends_at new = b"
    "e_title new = t_title t" "e_description new = t_description t" "e_calendar_id new = ?cal" "e_version new = 1"
    by (simp_all add: new_def time_block_def)
  have ev: "events w' = events (snd (upsert_time_block new (snd (new_uuid ?w1))))"
    using res usr by (auto simp: sync_scheduled [OF t] Let_def new_def)
  define set' where "set' = (\<lambda>e. e\<lparr>e_calendar_id := e_calendar_id new, e_title := e_title new,
                       e_description := e_description new, e_starts_at := e_starts_at new,
                       e_ends_at := e_ends_at new, e_timezone := e_timezone new,
                       e_updated_at := now w, e_version := e_version e + 1\<rparr> :: event_row)"
  have ev: "events w' = (case row_by ?q (events w) of None \<Rightarrow> events w @ [new] | Some _ \<Rightarrow> update_where ?q set' (events w))"
    unfolding ev upsert_time_block_def by (simp add: Let_def new(1) set'_def split: option.split)
  from ok show ?thesis
  proof (cases rule: linked_cases)
    case 1
    then have "row_by ?q (events w) = None" by (simp add: row_by_None)
    then have "events w' = events w @ [new]" using ev by simp
    with 1 new show ?thesis by (intro that [of new]) (simp_all add: linked_def)
  next
    case (2 e)
    have "row_by ?q (events w) = Some e" by (rule row_by_unique) (rule 2(3), rule 2(5), rule 2(6))
    then have ev: "events w' = update_where ?q set' (events w)" using ev by simp
    have "?q (set' x) = ?q x" for x by (simp add: set'_def)
    note filter_linked_update_where [of ?q set' "events w", OF this]
    with 2(1) have "linked (t_id t) w' = [set' e]"
      "filter (\<lambda>e. \<not> ?q e) (events w') = filter (\<lambda>e. \<not> ?q e) (events w)" by (simp_all add: linked_def ev)
    with 2(1,4,5) new show ?thesis by (intro that [of "set' e"]) (simp_all add: set'_def)
  qed
qed

text \<open>
  After every write of a task its time block shows the task: a scheduled task has exactly one linked event,
  in the user's preferred calendar, with the task's title, description and times, and an
  existing block is moved in place (same identifier, next version); an unscheduled task has
  none. All other events are left as they are.
\<close>

theorem time_block_follows_the_task:
  assumes ok: "block_ok u (t_id t) w" and res: "sync_task_calendar_event u t w = Inr w'"
  shows "filter (\<lambda>e. e_linked_task_id e \<noteq> Some (t_id t)) (events w') = filter (\<lambda>e. e_linked_task_id e \<noteq> Some (t_id t)) (events w)
    \<and> (case (t_scheduled_start t, t_scheduled_end t) of
         (Some a, Some b) \<Rightarrow> \<exists>e. linked (t_id t) w' = [e] \<and> e_user_id e = u \<and> e_starts_at e = a \<and> e_ends_at e = b
           \<and> e_title e = t_title t \<and> e_description e = t_description t
           \<and> e_calendar_id e = fst (preferred_time_block_calendar u w)
           \<and> (case linked (t_id t) w of [] \<Rightarrow> e_version e = 1
              | old # _ \<Rightarrow> e_id e = e_id old \<and> e_version e = e_version old + 1)
       | _ \<Rightarrow> linked (t_id t) w' = [])"
proof (cases "t_scheduled_start t = None \<or> t_scheduled_end t = None")
  case True
  have "w' = remove_task_calendar_event u (t_id t) w" using sync_unscheduled [OF True, of u w] res by simp
  then have "events w' = filter (\<lambda>e. e_linked_task_id e \<noteq> Some (t_id t)) (events w)" using events_remove [OF ok] by simp
  then show ?thesis using True by (auto simp: linked_def split: option.split)
next
  case False
  then obtain a b where t: "t_scheduled_start t = Some a" "t_scheduled_end t = Some b" by auto
  show ?thesis by (rule sync_events_scheduled [OF ok t res]) (simp add: t)
qed

text \<open>A world with one scheduled task and its block in a calendar that is native or Google's.\<close>

definition scheduled_row :: task_row where
  "scheduled_row = (example_row 0 None NoRecurrence 1024)\<lparr>t_scheduled_start := Some 10, t_scheduled_end := Some 20\<rparr>"

definition example_mapping :: mapping_row where
  "example_mapping = \<lparr>m_id = 3, m_user_id = 7, m_calendar_id = 1, m_canonical_event_id = Some 2, m_external_calendar_id = ''c'',
     m_external_event_id = ''e'', m_external_etag = None, m_base_fingerprint = None, m_local_dirty = False,
     m_local_deleted = False, m_conflict_state = ''none'', m_pending_resolution = None, m_last_synced_at = None,
     m_deletion_hold_until = None, m_reversible_tombstone = False, m_delete_resolution_pending = False\<rparr>"

definition example_block :: "calendar_source \<Rightarrow> world" where
  "example_block source =
     empty_world\<lparr>drawn := 4, tasks := [scheduled_row],
       users := [\<lparr>u_id = 7, u_email = ''a'', u_display_name = ''a'', u_avatar_url = None, u_timezone = ''UTC'',
                  u_google_subject = None, u_updated_at = 0\<rparr>],
       calendars := [(new_calendar 1 7 ''c'' ''#000000'' True 0)\<lparr>c_source := source, c_access_role := ''owner''\<rparr>],
       events := [time_block 2 7 1 scheduled_row 10 20 ''UTC'' 0], mappings := [example_mapping]\<rparr>"

lemmas block_simps = example_block_def scheduled_row_def time_block_def example_row_def new_task_def new_calendar_def
  example_mapping_def empty_world_def

theorem time_block_follows_the_task_witness:
  "\<exists>w' e. sync_task_calendar_event 7 (scheduled_row\<lparr>t_scheduled_end := Some 30\<rparr>) (example_block Native) = Inr w'
    \<and> linked 0 w' = [e] \<and> e_id e = 2 \<and> e_version e = 2 \<and> e_ends_at e = 30"
proof -
  let ?t = "scheduled_row\<lparr>t_scheduled_end := Some 30\<rparr>"
  have l: "linked 0 (example_block Native) = [time_block 2 7 1 scheduled_row 10 20 ''UTC'' 0]"
    by (simp add: linked_def block_simps)
  have "block_ok 7 (t_id ?t) (example_block Native)"
    by (simp add: block_ok_def linked_def block_simps)
  moreover obtain w' where r: "sync_task_calendar_event 7 ?t (example_block Native) = Inr w'"
    by (simp add: sync_task_calendar_event_def block_simps Let_def row_by_def split_beta)
  moreover have "t_id ?t = 0" "t_scheduled_start ?t = Some 10" "t_scheduled_end ?t = Some 30"
    by (simp_all add: block_simps)
  ultimately show ?thesis
    using time_block_follows_the_task [of 7 ?t "example_block Native" w'] l by (auto simp: time_block_def)
qed

section \<open>Tombstones\<close>

lemma mappings_delete_tasks:
  "mappings (delete_tasks p w) = map (\<lambda>m. m\<lparr>m_canonical_event_id :=
     unlink (\<lambda>i. i \<in> e_id ` {e \<in> set (events w). \<exists>t \<in> set (tasks w). p t \<and> e_linked_task_id e = Some (t_id t)
       \<and> e_user_id e = t_user_id t}) (m_canonical_event_id m)\<rparr>) (mappings w)"
proof -
  have "{e \<in> set (events w). \<exists>i. e_linked_task_id e = Some i
        \<and> (i, e_user_id e) \<in> (\<lambda>t. (t_id t, t_user_id t)) ` {t \<in> set (tasks w). p t}}
     = {e \<in> set (events w). \<exists>t \<in> set (tasks w). p t \<and> e_linked_task_id e = Some (t_id t) \<and> e_user_id e = t_user_id t}" by auto
  then show ?thesis by (simp add: delete_tasks_def delete_events_def Let_def)
qed

lemma linked_single:
  assumes "block_ok u i w" and "linked i w = [e]"
  shows "task_calendar_event u i w = Some e \<and> e \<in> set (events w) \<and> e_user_id e = u"
  using assms(1)
proof (cases rule: linked_cases)
  case (2 e')
  have "e' = e" using assms(2) 2(1) by simp
  with 2(2-4) show ?thesis by simp
qed (simp add: assms(2))

lemma jobs_fold_tasks_change: "set (sync_jobs w) \<subseteq> set (sync_jobs (fold tasks_change us w))"
proof (induction us arbitrary: w)
  case (Cons u us)
  have "set (sync_jobs w) \<subseteq> set (sync_jobs (tasks_change u w))"
    by (auto simp: tasks_change_def new_uuid_def Let_def)
  with Cons [of "tasks_change u w"] show ?case by simp
qed simp

lemma jobs_delete_tasks: "set (sync_jobs w) \<subseteq> set (sync_jobs (delete_tasks p w))"
  unfolding delete_tasks_def Let_def by (rule subset_trans [OF _ jobs_fold_tasks_change]) simp

lemma calendar_jobs_fold_tasks_change:
  "filter (\<lambda>j. j_kind j \<noteq> ''tasks_sync'') (sync_jobs (fold tasks_change us w)) = filter (\<lambda>j. j_kind j \<noteq> ''tasks_sync'') (sync_jobs w)"
proof (induction us arbitrary: w)
  case (Cons u us)
  have "filter (\<lambda>j. j_kind j \<noteq> ''tasks_sync'') (sync_jobs (tasks_change u w)) = filter (\<lambda>j. j_kind j \<noteq> ''tasks_sync'') (sync_jobs w)"
    by (auto simp: tasks_change_def new_uuid_def new_job_def Let_def)
  with Cons show ?case by simp
qed simp

text \<open>Deleting tasks queues no job but those of the Google Tasks trigger.\<close>

lemma calendar_jobs_delete_tasks:
  "filter (\<lambda>j. j_kind j \<noteq> ''tasks_sync'') (sync_jobs (delete_tasks p w)) = filter (\<lambda>j. j_kind j \<noteq> ''tasks_sync'') (sync_jobs w)"
  unfolding delete_tasks_def Let_def calendar_jobs_fold_tasks_change by simp

lemma unlink_none: "unlink (\<lambda>i. i \<in> A) x = x \<longleftrightarrow> (\<forall>i. x = Some i \<longrightarrow> i \<notin> A)"
  by (auto simp: unlink_def split: option.split)

lemma mappings_remove_event:
  assumes "block_ok u i w" and "linked i w = [e]" and "calendar_by_id u (e_calendar_id e) w = Some c" and "c_source c = Google"
  shows "mappings (remove_task_calendar_event u i w) = map (\<lambda>m. if m_canonical_event_id m = Some (e_id e)
      then if m_user_id m = u then mark_mapping True m else m\<lparr>m_canonical_event_id := None\<rparr> else m) (mappings w)"
    and "\<exists>j \<in> set (sync_jobs (remove_task_calendar_event u i w)). j_user_id j = u
      \<and> j_idempotency_key j = ''calendar-event:'' @ show_uuid (e_id e) @ '':'' @ show_int (e_version e) @ '':deleted''"
proof -
  have e: "task_calendar_event u i w = Some e" "e \<in> set (events w)" "e_user_id e = u"
    using linked_single [OF assms(1,2)] by simp_all
  have ids: "e_id ` {x \<in> set (events w). e_user_id x = u \<and> e_id x = e_id e} = {e_id e}" using e by auto
  show "mappings (remove_task_calendar_event u i w) = map (\<lambda>m. if m_canonical_event_id m = Some (e_id e)
      then if m_user_id m = u then mark_mapping True m else m\<lparr>m_canonical_event_id := None\<rparr> else m) (mappings w)"
    using assms(3,4) ids
    by (auto simp: remove_task_calendar_event_def e(1) mark_event_for_sync_def delete_events_def delete_notes_def
        insert_job_def new_uuid_def Let_def update_where_def mark_mapping_def unlink_def split: option.split)
  show "\<exists>j \<in> set (sync_jobs (remove_task_calendar_event u i w)). j_user_id j = u
      \<and> j_idempotency_key j = ''calendar-event:'' @ show_uuid (e_id e) @ '':'' @ show_int (e_version e) @ '':deleted''"
    using assms(3,4)
    by (auto simp: remove_task_calendar_event_def e(1) mark_event_for_sync_def insert_job_def new_job_def new_uuid_def Let_def)
qed

text \<open>
  Deleting a task tells the provider. When the time block of a deleted task lies in a Google calendar, every
  mapping of the user to that event becomes a tombstone (marked deleted, not dirty and detached from the
  event), a synchronization job with the event's identifier and version is in the queue, the event
  and the task are gone, and every other mapping of the user is untouched.
\<close>

theorem deleted_tasks_leave_tombstones:
  assumes ok: "block_ok u i w" and res: "delete_task u i n w = Inr ((), w')"
    and e: "linked i w = [e]" and c: "calendar_by_id u (e_calendar_id e) w = Some c" "c_source c = Google"
    and ids: "distinct (map t_id (tasks w))"
  shows "linked i w' = [] \<and> task_by_id u i w' = None
    \<and> filter (\<lambda>m. m_user_id m = u) (mappings w') = map (\<lambda>m. if m_canonical_event_id m = Some (e_id e)
        then m\<lparr>m_local_dirty := False, m_local_deleted := True, m_canonical_event_id := None\<rparr> else m)
        (filter (\<lambda>m. m_user_id m = u) (mappings w))
    \<and> (\<exists>j \<in> set (sync_jobs w'). j_user_id j = u
        \<and> j_idempotency_key j = ''calendar-event:'' @ show_uuid (e_id e) @ '':'' @ show_int (e_version e) @ '':deleted'')"
proof -
  let ?w = "remove_task_calendar_event u i w"
  let ?hit = "\<lambda>t. t_id t = i \<and> t_user_id t = u \<and> t_version t = n"
  have w': "w' = delete_tasks ?hit ?w" and t: "\<exists>t \<in> set (tasks w). ?hit t"
    using res by (auto simp: delete_task_def Let_def split: if_splits)
  have ev: "\<forall>x \<in> set (events ?w). e_linked_task_id x \<noteq> Some i" by (simp add: events_remove [OF ok])
  have "set (events w') \<subseteq> set (events ?w)" by (auto simp: w' delete_tasks_def Let_def)
  with ev have "linked i w' = []" by (auto simp: linked_def filter_empty_conv)
  moreover have "task_by_id u i w' = None"
  proof -
    have "?hit x" if "x \<in> set (tasks w)" "t_id x = i" "t_user_id x = u" for x
      using t that distinct_map_inj [OF ids] by metis
    then show ?thesis by (auto simp: w' task_by_id_def row_by_None tasks_delete_kept kept_def)
  qed
  moreover have "mappings w' = mappings ?w"
    unfolding w' mappings_delete_tasks using ev by (intro map_idI) (auto simp: unlink_def split: option.split)
  then have "filter (\<lambda>m. m_user_id m = u) (mappings w') = map (\<lambda>m. if m_canonical_event_id m = Some (e_id e)
        then m\<lparr>m_local_dirty := False, m_local_deleted := True, m_canonical_event_id := None\<rparr> else m)
        (filter (\<lambda>m. m_user_id m = u) (mappings w))"
    unfolding mappings_remove_event(1) [OF ok e c] by (simp only:) (rule filter_map_on, simp_all add: mark_mapping_def)
  moreover have "set (sync_jobs ?w) \<subseteq> set (sync_jobs w')" by (simp add: w' jobs_delete_tasks)
  ultimately show ?thesis using mappings_remove_event(2) [OF ok e c] by blast
qed

theorem deleted_tasks_leave_tombstones_witness:
  "\<exists>w' m. delete_task 7 0 1 (example_block Google) = Inr ((), w') \<and> m \<in> set (mappings w')
    \<and> m_local_deleted m \<and> m_canonical_event_id m = None"
proof -
  let ?w = "example_block Google"
  have ok: "block_ok 7 0 ?w" "linked 0 ?w = [time_block 2 7 1 scheduled_row 10 20 ''UTC'' 0]" "distinct (map t_id (tasks ?w))"
    by (simp_all add: block_ok_def linked_def block_simps)
  obtain w' where res: "delete_task 7 0 1 ?w = Inr ((), w')"
    by (simp add: delete_task_def has_subtasks_def block_simps Let_def)
  obtain c where c: "calendar_by_id 7 (e_calendar_id (time_block 2 7 1 scheduled_row 10 20 ''UTC'' 0)) ?w = Some c" "c_source c = Google"
    by (simp add: calendar_by_id_def row_by_def block_simps)
  from deleted_tasks_leave_tombstones [OF ok(1) res ok(2) c ok(3)]
  have "filter (\<lambda>m. m_user_id m = 7) (mappings w') = [example_mapping\<lparr>m_local_dirty := False, m_local_deleted := True, m_canonical_event_id := None\<rparr>]"
    by (simp add: block_simps)
  then have "example_mapping\<lparr>m_local_dirty := False, m_local_deleted := True, m_canonical_event_id := None\<rparr> \<in> set (mappings w')"
    by (metis filter_is_subset list.set_intros(1) subsetD)
  with res show ?thesis
    by (intro exI [of _ w'] exI [of _ "example_mapping\<lparr>m_local_dirty := False, m_local_deleted := True, m_canonical_event_id := None\<rparr>"]) simp
qed

text \<open>
  C15. Reopening a recurring task takes its next occurrence away without that: exactly the row of the next occurrence leaves the task
  table and its block the events, the mapping of the block is detached but not marked as deleted, and no job other than the
  one of the Google Tasks trigger is queued, so the copy in the Google calendar stays.
\<close>

theorem reopening_leaves_no_tombstone:
  assumes n: "row_by (\<lambda>t. t_recurrence_source_id t = Some i \<and> t_user_id t = u) (tasks w) = Some n" "t_status n = Todo" "t_version n = 1"
    and ok: "block_ok u (t_id n) w" "linked (t_id n) w = [e]" and ids: "distinct (map t_id (tasks w))"
  shows "\<exists>w'. remove_next_occurrence_for_reopen u i w = Inr w'
    \<and> map t_id (tasks w') = filter (\<lambda>k. k \<noteq> t_id n) (map t_id (tasks w)) \<and> linked (t_id n) w' = []
    \<and> filter (\<lambda>j. j_kind j \<noteq> ''tasks_sync'') (sync_jobs w') = filter (\<lambda>j. j_kind j \<noteq> ''tasks_sync'') (sync_jobs w)
    \<and> mappings w' = map (\<lambda>m. if m_canonical_event_id m = Some (e_id e) then m\<lparr>m_canonical_event_id := None\<rparr> else m) (mappings w)"
proof -
  let ?hit = "\<lambda>t. t_id t = t_id n \<and> t_user_id t = u"
  have e: "e \<in> set (events w)" "e_user_id e = u" using linked_single [OF ok] by simp_all
  have nu: "n \<in> set (tasks w)" "t_user_id n = u" using n(1) by (auto dest: row_by_Some)
  have "set (linked (t_id n) w) = {e}" using ok(2) by simp
  then have link: "x \<in> set (events w) \<and> e_linked_task_id x = Some (t_id n) \<longleftrightarrow> x = e" for x by (auto simp: linked_def)
  have gone: "{x \<in> set (events w). \<exists>t \<in> set (tasks w). ?hit t \<and> e_linked_task_id x = Some (t_id t) \<and> e_user_id x = t_user_id t} = {e}"
  proof (intro equalityI subsetI)
    fix x
    assume "x \<in> {e}"
    then have "x \<in> set (events w)" "e_linked_task_id x = Some (t_id n)" "e_user_id x = t_user_id n"
      using link [of x] e(2) nu(2) by simp_all
    with nu show "x \<in> {x \<in> set (events w). \<exists>t \<in> set (tasks w). ?hit t \<and> e_linked_task_id x = Some (t_id t) \<and> e_user_id x = t_user_id t}"
      by blast
  next
    fix x
    assume "x \<in> {x \<in> set (events w). \<exists>t \<in> set (tasks w). ?hit t \<and> e_linked_task_id x = Some (t_id t) \<and> e_user_id x = t_user_id t}"
    then show "x \<in> {e}" using link [of x] by auto
  qed
  have "mappings (delete_tasks ?hit w) = map (\<lambda>m. if m_canonical_event_id m = Some (e_id e) then m\<lparr>m_canonical_event_id := None\<rparr> else m) (mappings w)"
    unfolding mappings_delete_tasks gone by (auto simp: unlink_def split: option.split)
  moreover have "linked (t_id n) (delete_tasks ?hit w) = []"
  proof -
    have "\<forall>x \<in> set (events (delete_tasks ?hit w)). e_linked_task_id x \<noteq> Some (t_id n)"
    proof
      fix x
      assume "x \<in> set (events (delete_tasks ?hit w))"
      then have x: "x \<in> set (events w)" "\<not> (e_linked_task_id x = Some (t_id n) \<and> e_user_id x = u)"
        using nu by (auto simp: delete_tasks_def Let_def)
      with link [of x] e(2) show "e_linked_task_id x \<noteq> Some (t_id n)" by blast
    qed
    then show ?thesis by (simp add: linked_def filter_empty_conv)
  qed
  moreover have "?hit t \<longleftrightarrow> t_id t = t_id n" if "t \<in> set (tasks w)" for t
    using that nu ids by (auto simp: distinct_map inj_on_def)
  then have "map t_id (tasks (delete_tasks ?hit w)) = filter (\<lambda>k. k \<noteq> t_id n) (map t_id (tasks w))"
    by (auto simp: tasks_delete_tasks delete_where_def filter_map comp_def cong: filter_cong)
  ultimately show ?thesis using n calendar_jobs_delete_tasks by (simp add: remove_next_occurrence_for_reopen_def)
qed

theorem reopening_leaves_no_tombstone_witness:
  "\<exists>w' m. remove_next_occurrence_for_reopen 7 5 ((example_block Google)\<lparr>tasks := [scheduled_row\<lparr>t_recurrence_source_id := Some 5\<rparr>]\<rparr>) = Inr w'
    \<and> m \<in> set (mappings w') \<and> \<not> m_local_deleted m \<and> m_canonical_event_id m = None"
proof -
  let ?n = "scheduled_row\<lparr>t_recurrence_source_id := Some 5\<rparr>"
  let ?w = "(example_block Google)\<lparr>tasks := [?n]\<rparr>"
  have n: "row_by (\<lambda>t. t_recurrence_source_id t = Some 5 \<and> t_user_id t = 7) (tasks ?w) = Some ?n" "t_status ?n = Todo" "t_version ?n = 1"
    by (simp_all add: row_by_def block_simps)
  have ok: "block_ok 7 (t_id ?n) ?w" "linked (t_id ?n) ?w = [time_block 2 7 1 scheduled_row 10 20 ''UTC'' 0]" "distinct (map t_id (tasks ?w))"
    by (simp_all add: block_ok_def linked_def block_simps)
  from reopening_leaves_no_tombstone [OF n ok] obtain w' where "remove_next_occurrence_for_reopen 7 5 ?w = Inr w'"
    "mappings w' = [example_mapping\<lparr>m_canonical_event_id := None\<rparr>]"
    by (auto simp: example_block_def time_block_def example_mapping_def)
  then show ?thesis
    by (intro exI [of _ w'] exI [of _ "example_mapping\<lparr>m_canonical_event_id := None\<rparr>"]) (simp add: example_mapping_def)
qed

section \<open>Imports\<close>

lemma imports_ok_parent:
  "imports_ok n ps \<Longrightarrow> k < length ps \<Longrightarrow> ti_parent_index (fst (ps ! k)) = Some p \<Longrightarrow> p < n + k"
  by (induction n ps arbitrary: k rule: imports_ok.induct) (fastforce simp: nth_Cons split: nat.splits)+

text \<open>
  An accepted Todoist import adds one project and, in the order of the request, one open task per imported task: in
  that project, with its trimmed title, repeat rule and normalised labels, below the row of the task
  its parent index names, which the request lists earlier. Nothing else is added to the task table, no
  existing task changes, and the answer counts the tasks.
\<close>

theorem import_adds_the_tasks_in_order:
  assumes ok: "tasks_ok False w" and res: "import_todoist_project pf u req w = Inr (a, w')"
  shows "\<exists>project ids rows ls.
      projects w' = projects w @ [new_project project u (trim (tir_project_name req)) (trim (tir_project_description req)) None Active (now w)]
    \<and> tasks w' = tasks w @ rows \<and> tr_imported_tasks a = length (tir_tasks req) \<and> length rows = length (tir_tasks req)
    \<and> length ls = length rows \<and> map t_id rows = ids
    \<and> (\<forall>k < length rows. imported_row u project ids (tir_tasks req ! k, ls ! k) (ids ! k) (rows ! k)
         \<and> (\<forall>p. ti_parent_index (tir_tasks req ! k) = Some p \<longrightarrow> p < k))"
  using res
proof (rule import_effect)
  fix ps w1 pos ids
  let ?p = "uuid_supply w (drawn w)"
  assume prep: "prepare_imports pf 0 (tir_tasks req) = Inr ps" and n: "tr_imported_tasks a = length ids"
    and w1: "w1 = w\<lparr>drawn := Suc (drawn w), projects := projects w @ [new_project ?p u
       (trim (tir_project_name req)) (trim (tir_project_description req)) None Active (now w)]\<rparr>"
    and run: "import_tasks u ?p ps [] pos w1 = Inr (ids, w')"
  have ok1: "tasks_ok False w1" using ok by (rule tasks_ok_frame) (simp_all add: w1 grows_def)
  from prepare_imports_ok [OF prep] have ps: "imports_ok 0 ps" "map fst ps = tir_tasks req" by simp_all
  from import_tasks_effect [OF run ok1] ps(1) obtain rows where rows: "tasks w' = tasks w1 @ rows" "length ids = length ps"
    "list_all2 (\<lambda>(x, i) t. imported_row u ?p ids x i t) (zip ps ids) rows" "projects w' = projects w1" by auto
  have len: "length rows = length ps" using list_all2_lengthD [OF rows(3)] rows(2) by simp
  have row: "imported_row u ?p ids (ps ! k) (ids ! k) (rows ! k)" if "k < length rows" for k
    using list_all2_nthD2 [OF rows(3) that] that len rows(2) by simp
  have pair: "ps ! k = (tir_tasks req ! k, map snd ps ! k)" if "k < length rows" for k
    using that len arg_cong [OF ps(2), of "\<lambda>xs. xs ! k"] by (simp add: prod_eq_iff)
  have row': "imported_row u ?p ids (tir_tasks req ! k, map snd ps ! k) (ids ! k) (rows ! k)" if "k < length rows" for k
    using row [OF that] by (simp only: pair [OF that])
  have "map t_id rows = ids" by (rule nth_equalityI) (use len rows(2) row in \<open>auto simp: imported_row_def\<close>)
  moreover have "length ps = length (tir_tasks req)" using arg_cong [OF ps(2), of length] by simp
  moreover have "p < k" if "k < length rows" "ti_parent_index (tir_tasks req ! k) = Some p" for k p
    using imports_ok_parent [OF ps(1), of k p] that len arg_cong [OF pair [OF that(1)], of fst] by simp
  ultimately show ?thesis
    using rows(1,2,4) len row' n by (intro exI [of _ ?p] exI [of _ ids] exI [of _ rows] exI [of _ "map snd ps"]) (auto simp: w1)
qed

definition example_import :: "task_recurrence \<Rightarrow> todoist_import_request" where
  "example_import recurrence =
     (let task = (\<lambda>r p. \<lparr>ti_title = ''t'', ti_description = [], ti_due_at = Some 0, ti_scheduled_start = None,
            ti_scheduled_end = None, ti_priority = Medium, ti_recurrence = r, ti_labels = [], ti_parent_index = p\<rparr>)
      in \<lparr>tir_project_name = ''t'', tir_project_description = [], tir_tasks = [task recurrence None, task NoRecurrence (Some 0)]\<rparr>)"

lemma example_import_runs:
  obtains a w' where "import_todoist_project (ascii_platform 0) 7 (example_import r) empty_world = Inr (a, w')"
    "map (\<lambda>t. (t_id t, t_user_id t, t_parent_task_id t, t_recurrence t, t_project_id t)) (tasks w')
       = [(1, 7, None, r, Some 0), (2, 7, Some 1, NoRecurrence, Some 0)]"
    "map (\<lambda>p. (pr_id p, pr_user_id p)) (projects w') = [(0, 7)]"
  by (simp add: import_todoist_project_def example_import_def validate_project_fields_def run_simps example_simps
      new_project_def project_by_id_def insert_task_def)

theorem import_adds_the_tasks_in_order_witness:
  "\<exists>a w'. import_todoist_project (ascii_platform 0) 7 (example_import NoRecurrence) empty_world = Inr (a, w') \<and> tr_imported_tasks a = 2"
proof (rule example_import_runs [of NoRecurrence])
  fix a w'
  assume r: "import_todoist_project (ascii_platform 0) 7 (example_import NoRecurrence) empty_world = Inr (a, w')"
  have "tr_imported_tasks a = length (tir_tasks (example_import NoRecurrence))"
    using import_adds_the_tasks_in_order [OF tasks_ok_empty r] by blast
  with r show ?thesis by (simp add: example_import_def Let_def)
qed

text \<open>
  The import checks the repeat rule of subtasks only. A recurring task with subtasks, which creating and updating
  tasks refuse, is imported, and it can then not be completed while it keeps its repeat rule.
\<close>

theorem import_admits_recurring_parents:
  "\<exists>a w' t c. import_todoist_project (ascii_platform 0) 7 (example_import Daily) empty_world = Inr (a, w')
    \<and> tasks w' = [t, c] \<and> t_recurrence t = Daily \<and> t_parent_task_id c = Some (t_id t)
    \<and> update_task pf 7 (t_id t) ((example_update None Completed Daily 1)\<lparr>ut_project_id := Some 0\<rparr>) w'
        = Inl (Validation ''a task with subtasks cannot recur'')"
proof (rule example_import_runs [of Daily])
  fix a w'
  assume r: "import_todoist_project (ascii_platform 0) 7 (example_import Daily) empty_world = Inr (a, w')"
    and rows: "map (\<lambda>t. (t_id t, t_user_id t, t_parent_task_id t, t_recurrence t, t_project_id t)) (tasks w')
       = [(1, 7, None, Daily, Some 0), (2, 7, Some 1, NoRecurrence, Some 0)]"
    and pr: "map (\<lambda>p. (pr_id p, pr_user_id p)) (projects w') = [(0, 7)]"
  from rows obtain t c where tc: "tasks w' = [t, c]" "t_id t = 1" "t_user_id t = 7" "t_user_id c = 7"
    "t_recurrence t = Daily" "t_parent_task_id c = Some 1"
    by (auto simp: map_eq_Cons_conv)
  from pr obtain p where p: "projects w' = [p]" "pr_id p = 0" "pr_user_id p = 7" by (auto simp: map_eq_Cons_conv)
  have "update_task pf 7 (t_id t) ((example_update None Completed Daily 1)\<lparr>ut_project_id := Some 0\<rparr>) w'
        = Inl (Validation ''a task with subtasks cannot recur'')"
    by (simp add: update_task_def update_task_scoped_def example_update_def run_simps tc p)
  with r tc show ?thesis by auto
qed

end
