(* ===== verification/CalendarMove.thy ===== *)
theory CalendarMove
  imports TaskProperties
begin

text \<open>
  \<open>calendar_move_store.rs\<close>: moving a calendar item in time with a receipt that undoes the move for
  60 seconds. The transactions read the wall clock several times (\<open>clock\<close> gives the readings in order)
  and never wait for a lock: which locks are free is an argument.
\<close>

section \<open>Model\<close>

record move_locks =
  lk_sync :: bool
  lk_owner :: bool
  lk_task :: bool
  lk_event :: bool
  lk_calendar :: bool
  lk_mapping :: bool
  lk_receipt :: bool
  lk_skipped :: "uuid list"

definition changed :: app_error where
  "changed = Conflict ''Calendar item changed. Refresh before trying another move; Undo cannot overwrite a later change.''"

definition undo_expired :: app_error where
  "undo_expired = Conflict ''Undo expired. Calendar moves can be undone for 60 seconds.''"

definition lock_error :: "sqlx_error \<Rightarrow> app_error" where
  "lock_error e =
     (case e of
        DatabaseError _ (Some code) \<Rightarrow>
          if code = ''55P03'' then Conflict ''Calendar item is busy. Try again shortly.'' else Database e
      | _ \<Rightarrow> Database e)"

text \<open>\<open>FOR UPDATE NOWAIT\<close>: a lock held elsewhere is the database error 55P03.\<close>

definition nowait :: "bool \<Rightarrow> unit app_result" where
  "nowait free = require free (lock_error (DatabaseError None (Some ''55P03'')))"

definition lock_move :: "move_locks \<Rightarrow> unit app_result" where
  "lock_move lk =
     bind_res (require (lk_sync lk)
       (Conflict ''Calendar synchronization is in progress. Try again shortly.'')) (\<lambda>_.
     nowait (lk_owner lk))"

definition cleanup :: "uuid \<Rightarrow> timestamp \<Rightarrow> uuid list \<Rightarrow> world \<Rightarrow> world" where
  "cleanup user clock skipped w =
     (let ids = map mr_id (take 100 (sort_key mr_expires_at (filter (\<lambda>m. mr_user_id m = user
            \<and> mr_expires_at m \<le> clock \<and> mr_id m \<notin> set skipped) (move_undos w))))
      in w\<lparr>move_undos := delete_where (\<lambda>m. mr_user_id m = user \<and> mr_id m \<in> set ids) (move_undos w)\<rparr>)"

definition lock_item ::
  "move_locks \<Rightarrow> uuid \<Rightarrow> uuid \<Rightarrow> world \<Rightarrow> (event_row \<times> task_row option) app_result" where
  "lock_item lk user event_id w =
     bind_res (ok_or (map_option e_linked_task_id (event_by_id user event_id w)) (NotFound ''calendar item'')) (\<lambda>task_id.
     bind_res
       (case task_id of
          None \<Rightarrow> Inr None
        | Some i \<Rightarrow>
            (case task_by_id user i w of
               None \<Rightarrow> Inl (NotFound ''task'')
             | Some t \<Rightarrow> bind_res (nowait (lk_task lk)) (\<lambda>_. Inr (Some t)))) (\<lambda>task.
     bind_res (nowait (lk_event lk)) (\<lambda>_.
     bind_res (ok_or (event_by_id user event_id w) (NotFound ''calendar item'')) (\<lambda>event.
     bind_res (require (e_linked_task_id event = task_id) changed) (\<lambda>_.
     bind_res (nowait (lk_calendar lk)) (\<lambda>_. Inr (event, task)))))))"

definition guard_of :: "mapping_row \<Rightarrow> guard_value" where
  "guard_of m = \<lparr>mg_id = m_id m, mg_calendar_id = m_calendar_id m, mg_event_id = m_canonical_event_id m,
     mg_external_calendar_id = m_external_calendar_id m, mg_external_event_id = m_external_event_id m,
     mg_conflict_state = m_conflict_state m, mg_pending_resolution = m_pending_resolution m,
     mg_local_deleted = m_local_deleted m\<rparr>"

definition mapping_guard ::
  "move_locks \<Rightarrow> uuid \<Rightarrow> uuid \<Rightarrow> world \<Rightarrow> guard_value option app_result" where
  "mapping_guard lk user event_id w =
     (case row_by (\<lambda>m. m_user_id m = user \<and> m_canonical_event_id m = Some event_id) (mappings w) of
        None \<Rightarrow> Inr None
      | Some m \<Rightarrow>
          bind_res (nowait (lk_mapping lk)) (\<lambda>_.
          bind_res (require (m_conflict_state m = ''none'' \<and> m_pending_resolution m = None \<and> \<not> m_local_deleted m)
            changed) (\<lambda>_.
          Inr (Some (guard_of m)))))"

text \<open>One reading of the clock stands for the two that \<open>write_schedule\<close> takes one after the other.\<close>

definition write_schedule ::
  "uuid \<Rightarrow> uuid \<Rightarrow> timestamp \<Rightarrow> timestamp \<Rightarrow> (uuid \<times> timestamp option \<times> timestamp option) option \<Rightarrow> timestamp
   \<Rightarrow> world \<Rightarrow> event_row store_result" where
  "write_schedule user event_id starts_at ends_at task clock w =
     (let w = (case task of
                 None \<Rightarrow> w
               | Some (i, start, end) \<Rightarrow>
                   update_tasks (\<lambda>t. t_id t = i \<and> t_user_id t = user)
                     (\<lambda>t. t\<lparr>t_scheduled_start := start, t_scheduled_end := end, t_updated_at := clock,
                            t_version := t_version t + 1\<rparr>) w);
          hit = (\<lambda>e. e_id e = event_id \<and> e_user_id e = user);
          set = (\<lambda>e. e\<lparr>e_starts_at := starts_at, e_ends_at := ends_at, e_updated_at := clock,
                       e_version := e_version e + 1\<rparr>)
      in case row_by hit (events w) of
           None \<Rightarrow> Inl (Database (OtherSqlxError ''RowNotFound''))
         | Some e \<Rightarrow> Inr (set e, w\<lparr>events := update_where hit set (events w)\<rparr>))"

definition live_undos :: "uuid \<Rightarrow> timestamp \<Rightarrow> world \<Rightarrow> move_undo_row list" where
  "live_undos user clock w = filter (\<lambda>m. mr_user_id m = user \<and> clock < mr_expires_at m) (move_undos w)"

definition receipt_of :: "move_undo_row \<Rightarrow> calendar_move_undo" where
  "receipt_of m = \<lparr>mu_id = mr_id m, mu_event_id = mr_event_id m, mu_task_id = mr_task_id m, mu_expires_at = mr_expires_at m\<rparr>"

definition list_calendar_move_undos ::
  "move_locks \<Rightarrow> (nat \<Rightarrow> timestamp) \<Rightarrow> uuid \<Rightarrow> world \<Rightarrow> calendar_move_undo list \<times> world" where
  "list_calendar_move_undos lk clock user w =
     (let w = cleanup user (clock 0) (lk_skipped lk) w;
          usable = filter (\<lambda>m. case event_by_id user (mr_event_id m) w of
                       None \<Rightarrow> False
                     | Some e \<Rightarrow> e_version e = mr_event_version m
                         \<and> map_option t_version (Option.bind (mr_task_id m) (\<lambda>i. task_by_id user i w)) = mr_task_version m)
                     (live_undos user (clock 1) w)
      in (map receipt_of (take 100 (rev (sort_key (\<lambda>m. (mr_expires_at m, mr_id m)) usable))), w))"

text \<open>The end of a move: the event is marked for synchronization and the receipt stored.\<close>

definition insert_receipt ::
  "uuid \<Rightarrow> uuid \<Rightarrow> event_row \<Rightarrow> task_row option \<Rightarrow> event_row \<Rightarrow> guard_value option \<Rightarrow> timestamp \<Rightarrow> world
   \<Rightarrow> calendar_move_undo \<times> world" where
  "insert_receipt user event_id event task updated guard clock w =
     (let w = mark_event_for_sync user updated False w;
          (i, w) = new_uuid w;
          m = \<lparr>mr_id = i, mr_user_id = user, mr_event_id = event_id, mr_task_id = e_linked_task_id event,
               mr_starts_at = e_starts_at event, mr_ends_at = e_ends_at event,
               mr_task_starts_at = Option.bind task t_scheduled_start,
               mr_task_ends_at = Option.bind task t_scheduled_end, mr_event_version = e_version updated,
               mr_task_version = map_option (\<lambda>t. t_version t + 1) task, mr_mapping_guard = guard,
               mr_expires_at = clock + 60 * second\<rparr>
      in (receipt_of m, w\<lparr>move_undos := move_undos w @ [m]\<rparr>))"

definition move_calendar_item ::
  "move_locks \<Rightarrow> (nat \<Rightarrow> timestamp) \<Rightarrow> uuid \<Rightarrow> uuid \<Rightarrow> bool \<Rightarrow> move_calendar_item_request \<Rightarrow> world
   \<Rightarrow> calendar_move_undo store_result" where
  "move_calendar_item lk clock user item_id is_task req w =
     bind_res (require (\<not> (mv_expected_version req < 1 \<or> mv_ends_at req \<le> mv_starts_at req))
       (Validation ''a move needs a positive version and an end after its start'')) (\<lambda>_.
     bind_res (lock_move lk) (\<lambda>_.
     let w = cleanup user (clock 0) (lk_skipped lk) w
     in bind_res (require (length (live_undos user (clock 1) w) < 100)
          (InvalidRequest 429 ''Too many recent calendar moves. Wait for Undo to expire before moving again.'')) (\<lambda>_.
        bind_res
          (if is_task
           then ok_or (map_option e_id (row_by (\<lambda>e. e_user_id e = user \<and> e_linked_task_id e = Some item_id) (events w)))
                  (NotFound ''scheduled task'')
           else Inr item_id) (\<lambda>event_id.
        bind_res (lock_item lk user event_id w) (\<lambda>(event, task).
        bind_res (require ((if is_task then map_option t_version task else Some (e_version event)) = Some (mv_expected_version req))
          changed) (\<lambda>_.
        bind_res (require (\<not> (e_starts_at event = mv_starts_at req \<and> e_ends_at event = mv_ends_at req))
          (Validation ''calendar item has not moved'')) (\<lambda>_.
        bind_res (require (case e_recurrence_until event of None \<Rightarrow> True | Some until \<Rightarrow> mv_starts_at req < until)
          (Validation ''recurrence_until must be after the event start'')) (\<lambda>_.
        bind_res (ensure_calendar_writable user (e_calendar_id event) w) (\<lambda>_.
        bind_res (mapping_guard lk user event_id w) (\<lambda>guard.
        bind_res (write_schedule user event_id (mv_starts_at req) (mv_ends_at req)
          (map_option (\<lambda>t. (t_id t, Some (mv_starts_at req), Some (mv_ends_at req))) task) (clock 2) w) (\<lambda>(updated, w).
        Inr (insert_receipt user event_id event task updated guard (clock 3) w))))))))))))"

definition undo_calendar_move ::
  "move_locks \<Rightarrow> (nat \<Rightarrow> timestamp) \<Rightarrow> uuid \<Rightarrow> uuid \<Rightarrow> world \<Rightarrow> unit store_result" where
  "undo_calendar_move lk clock user receipt_id w =
     bind_res (lock_move lk) (\<lambda>_.
     let mine = (\<lambda>m. mr_id m = receipt_id \<and> mr_user_id m = user)
     in bind_res (ok_or (row_by mine (move_undos w)) (NotFound ''calendar move Undo'')) (\<lambda>inverse.
        bind_res (lock_item lk user (mr_event_id inverse) w) (\<lambda>(event, task).
        bind_res (nowait (lk_receipt lk)) (\<lambda>_.
        bind_res (require (clock 0 < mr_expires_at inverse) undo_expired) (\<lambda>_.
        bind_res (require (\<not> (e_version event \<noteq> mr_event_version inverse
            \<or> e_linked_task_id event \<noteq> mr_task_id inverse
            \<or> map_option t_version task \<noteq> mr_task_version inverse)) changed) (\<lambda>_.
        bind_res (ensure_calendar_writable user (e_calendar_id event) w) (\<lambda>_.
        bind_res (mapping_guard lk user (e_id event) w) (\<lambda>guard.
        bind_res (require (guard = mr_mapping_guard inverse) changed) (\<lambda>_.
        bind_res (write_schedule user (e_id event) (mr_starts_at inverse) (mr_ends_at inverse)
          (map_option (\<lambda>i. (i, mr_task_starts_at inverse, mr_task_ends_at inverse)) (mr_task_id inverse)) (clock 1) w)
          (\<lambda>(restored, w).
        let w = mark_event_for_sync user restored False w;
            consumed = filter (\<lambda>m. mine m \<and> clock 2 < mr_expires_at m) (move_undos w);
            w = w\<lparr>move_undos := delete_where (\<lambda>m. mine m \<and> clock 2 < mr_expires_at m) (move_undos w)\<rparr>
        in bind_res (require (length consumed = 1) undo_expired) (\<lambda>_.
           Inr ((), cleanup user (clock 3) (lk_skipped lk) w))))))))))))"

section \<open>Effects\<close>

lemma cleanup_frame [simp]:
  "events (cleanup u c sk w) = events w" "tasks (cleanup u c sk w) = tasks w" "calendars (cleanup u c sk w) = calendars w"
  "mappings (cleanup u c sk w) = mappings w" "uuid_supply (cleanup u c sk w) = uuid_supply w" "drawn (cleanup u c sk w) = drawn w"
  by (simp_all add: cleanup_def Let_def)

lemma cleanup_subset: "set (move_undos (cleanup u c sk w)) \<subseteq> set (move_undos w)"
  by (auto simp: cleanup_def Let_def)

lemma lock_item_eq:
  assumes "lock_item lk u i w = Inr (e, t)"
  shows "event_by_id u i w = Some e" "t = Option.bind (e_linked_task_id e) (\<lambda>j. task_by_id u j w)"
    "e_linked_task_id e = None \<longleftrightarrow> t = None"
proof -
  from assms obtain l where l: "map_option e_linked_task_id (event_by_id u i w) = Some l"
    and t: "(case l of None \<Rightarrow> Inr None | Some j \<Rightarrow> (case task_by_id u j w of None \<Rightarrow> Inl (NotFound ''task'')
             | Some t \<Rightarrow> bind_res (nowait (lk_task lk)) (\<lambda>_. Inr (Some t)))) = Inr t"
    and e: "event_by_id u i w = Some e"
    unfolding lock_item_def by auto
  with e have l': "l = e_linked_task_id e" by simp
  show "event_by_id u i w = Some e" by (rule e)
  show "t = Option.bind (e_linked_task_id e) (\<lambda>j. task_by_id u j w)" "e_linked_task_id e = None \<longleftrightarrow> t = None"
    using t unfolding l' by (auto simp: nowait_def split: option.splits dest: sym)
qed

lemma lock_item_free:
  assumes "event_by_id u i w = Some e" and "t = Option.bind (e_linked_task_id e) (\<lambda>j. task_by_id u j w)"
    and "e_linked_task_id e = None \<longleftrightarrow> t = None" and "lk_task lk" "lk_event lk" "lk_calendar lk"
  shows "lock_item lk u i w = Inr (e, t)"
  using assms by (auto simp: lock_item_def nowait_def split: option.splits)

definition reschedule :: "timestamp \<Rightarrow> timestamp \<Rightarrow> timestamp \<Rightarrow> event_row \<Rightarrow> event_row" where
  "reschedule a b c e = e\<lparr>e_starts_at := a, e_ends_at := b, e_updated_at := c, e_version := e_version e + 1\<rparr>"

definition replan :: "timestamp option \<Rightarrow> timestamp option \<Rightarrow> timestamp \<Rightarrow> task_row \<Rightarrow> task_row" where
  "replan a b c t = t\<lparr>t_scheduled_start := a, t_scheduled_end := b, t_updated_at := c, t_version := t_version t + 1\<rparr>"

lemma write_schedule_eq:
  "write_schedule u i a b task c w =
     (case event_by_id u i w of
        None \<Rightarrow> Inl (Database (OtherSqlxError ''RowNotFound''))
      | Some e \<Rightarrow>
          let w' = (case task of None \<Rightarrow> w | Some (j, x, y) \<Rightarrow> update_tasks (\<lambda>t. t_id t = j \<and> t_user_id t = u) (replan x y c) w)
          in Inr (reschedule a b c e, w'\<lparr>events := update_where (\<lambda>e. e_id e = i \<and> e_user_id e = u) (reschedule a b c) (events w)\<rparr>))"
  by (auto simp: write_schedule_def event_by_id_def reschedule_def [abs_def] replan_def [abs_def] Let_def split: option.split)

lemma move_effect:
  assumes "move_calendar_item lk clock u item is_task req w = Inr (r, w')"
  obtains e t guard wm wn m where
    "event_by_id u (e_id e) w = Some e" "t = Option.bind (e_linked_task_id e) (\<lambda>j. task_by_id u j w)"
    "e_linked_task_id e = None \<longleftrightarrow> t = None" "is_task \<or> e_id e = item"
    "length (live_undos u (clock 1) (cleanup u (clock 0) (lk_skipped lk) w)) < 100"
    "ensure_calendar_writable u (e_calendar_id e) w = Inr ()" "mapping_guard lk u (e_id e) w = Inr guard"
    "wm = (case t of None \<Rightarrow> cleanup u (clock 0) (lk_skipped lk) w | Some t \<Rightarrow> update_tasks (\<lambda>x. t_id x = t_id t \<and> t_user_id x = u)
        (replan (Some (mv_starts_at req)) (Some (mv_ends_at req)) (clock 2)) (cleanup u (clock 0) (lk_skipped lk) w))
       \<lparr>events := update_where (\<lambda>x. e_id x = e_id e \<and> e_user_id x = u) (reschedule (mv_starts_at req) (mv_ends_at req) (clock 2)) (events w)\<rparr>"
    "wn = mark_event_for_sync u (reschedule (mv_starts_at req) (mv_ends_at req) (clock 2) e) False wm"
    "m = \<lparr>mr_id = uuid_supply wn (drawn wn), mr_user_id = u, mr_event_id = e_id e, mr_task_id = e_linked_task_id e,
       mr_starts_at = e_starts_at e, mr_ends_at = e_ends_at e, mr_task_starts_at = Option.bind t t_scheduled_start,
       mr_task_ends_at = Option.bind t t_scheduled_end, mr_event_version = e_version e + 1,
       mr_task_version = map_option (\<lambda>t. t_version t + 1) t, mr_mapping_guard = guard, mr_expires_at = clock 3 + 60 * second\<rparr>"
    "r = receipt_of m" "w' = (snd (new_uuid wn))\<lparr>move_undos := move_undos wn @ [m]\<rparr>"
proof -
  let ?w = "cleanup u (clock 0) (lk_skipped lk) w"
  from assms obtain i et guard uw where
    i: "(if is_task then ok_or (map_option e_id (row_by (\<lambda>e. e_user_id e = u \<and> e_linked_task_id e = Some item) (events ?w)))
                  (NotFound ''scheduled task'') else Inr item) = Inr i"
    and live: "length (live_undos u (clock 1) ?w) < 100"
    and et: "lock_item lk u i ?w = Inr et" and wr: "ensure_calendar_writable u (e_calendar_id (fst et)) ?w = Inr ()"
    and guard: "mapping_guard lk u i ?w = Inr guard"
    and uw: "write_schedule u i (mv_starts_at req) (mv_ends_at req)
          (map_option (\<lambda>t. (t_id t, Some (mv_starts_at req), Some (mv_ends_at req))) (snd et)) (clock 2) ?w = Inr uw"
    and ir: "Inr (insert_receipt u i (fst et) (snd et) (fst uw) guard (clock 3) (snd uw)) = (Inr (r, w') :: calendar_move_undo store_result)"
    unfolding move_calendar_item_def Let_def case_prod_beta bind_res_eq_Inr require_eq_Inr
    by (elim exE conjE) (rule that, assumption, assumption, assumption, simp, assumption+)
  obtain e t where "et = (e, t)" by (cases et)
  moreover obtain updated w1 where "uw = (updated, w1)" by (cases uw)
  ultimately have lock: "lock_item lk u i ?w = Inr (e, t)" and wr: "ensure_calendar_writable u (e_calendar_id e) ?w = Inr ()"
    and ws: "write_schedule u i (mv_starts_at req) (mv_ends_at req)
          (map_option (\<lambda>t. (t_id t, Some (mv_starts_at req), Some (mv_ends_at req))) t) (clock 2) ?w = Inr (updated, w1)"
    and res: "insert_receipt u i e t updated guard (clock 3) w1 = (r, w')"
    using et wr uw ir by simp_all
  note item = lock_item_eq [OF lock]
  have ei: "e_id e = i" using item(1) by (auto simp: event_by_id_def dest: row_by_Some)
  have ev: "event_by_id u i w = Some e" using item(1) by (simp add: event_by_id_def)
  from ws item(1) have upd: "updated = reschedule (mv_starts_at req) (mv_ends_at req) (clock 2) e"
    and w1: "w1 = (case t of None \<Rightarrow> ?w | Some t \<Rightarrow> update_tasks (\<lambda>x. t_id x = t_id t \<and> t_user_id x = u)
        (replan (Some (mv_starts_at req)) (Some (mv_ends_at req)) (clock 2)) ?w)
       \<lparr>events := update_where (\<lambda>x. e_id x = e_id e \<and> e_user_id x = u) (reschedule (mv_starts_at req) (mv_ends_at req) (clock 2)) (events w)\<rparr>"
    by (auto simp: write_schedule_eq Let_def ei split: option.splits)
  have vers: "e_version updated = e_version e + 1" by (simp add: upd reschedule_def)
  show ?thesis
    by (rule that [of e t guard w1 "mark_event_for_sync u updated False w1"])
      (use ev item wr guard res live w1 i ei in
        \<open>auto simp: upd vers [unfolded upd] task_by_id_def event_by_id_def ensure_calendar_writable_def calendar_by_id_def
          mapping_guard_def insert_receipt_def Let_def new_uuid_def split: if_splits\<close>)
qed

section \<open>Undoing a move\<close>

text \<open>Marking an event dirty keeps the guard of its mapping.\<close>

lemma guard_after_mark:
  assumes "mapping_guard lk u i w = Inr g" and "mappings v = mappings (mark_event_for_sync u e False w')"
    and "mappings w' = mappings w" and "e_id e = i" and "lk_mapping lk'"
  shows "mapping_guard lk' u i v = Inr g"
proof -
  let ?p = "\<lambda>m. m_user_id m = u \<and> m_canonical_event_id m = Some i"
  have "mappings v = mappings w \<or> mappings v = update_where ?p (mark_mapping False) (mappings w)"
    unfolding assms(2) mark_event_for_sync_def using assms(3,4) by (auto simp: insert_job_def new_uuid_def Let_def split: option.split)
  moreover have "row_by ?p (update_where ?p (mark_mapping False) (mappings w)) = map_option (mark_mapping False) (row_by ?p (mappings w))"
    by (rule row_by_update_same) (simp add: mark_mapping_def)
  ultimately show ?thesis
    using assms(1,5) by (auto simp: mapping_guard_def nowait_def mark_mapping_def guard_of_def split: option.splits)
qed

lemma update_where_twice:
  "(\<And>r. p (f r) = p r) \<Longrightarrow> update_where p g (update_where p f rs) = update_where p (\<lambda>r. g (f r)) rs"
  by (simp add: update_where_def)

lemma update_where_row:
  assumes "distinct (map k rs)" and "row_by p rs = Some r" and "\<And>x. p x \<Longrightarrow> k x = k r" and "f r = g r"
  shows "update_where p f rs = update_where p g rs"
proof -
  have r: "r \<in> set rs" using row_by_Some [OF assms(2)] by simp
  have "x = r" if "x \<in> set rs" "p x" for x using distinct_map_inj [OF assms(1) that(1) r] assms(3) [OF that(2)] by simp
  then show ?thesis using assms(4) by (auto simp: update_where_def)
qed

definition all_free :: "move_locks \<Rightarrow> bool" where
  "all_free lk \<longleftrightarrow> lk_sync lk \<and> lk_owner lk \<and> lk_task lk \<and> lk_event lk \<and> lk_calendar lk \<and> lk_mapping lk \<and> lk_receipt lk"

lemma lock_move_free: "all_free lk \<Longrightarrow> lock_move lk = Inr ()"
  by (simp add: all_free_def lock_move_def nowait_def)

lemma undo_accepted:
  assumes free: "all_free lk" and m: "row_by (\<lambda>m. mr_id m = i \<and> mr_user_id m = u) (move_undos w) = Some m"
    and unique: "filter (\<lambda>m. mr_id m = i \<and> mr_user_id m = u) (move_undos w) = [m]"
    and e: "event_by_id u (mr_event_id m) w = Some e" "e_version e = mr_event_version m" "e_linked_task_id e = mr_task_id m"
    and t: "map_option t_version (Option.bind (mr_task_id m) (\<lambda>j. task_by_id u j w)) = mr_task_version m"
      "mr_task_id m = None \<longleftrightarrow> Option.bind (mr_task_id m) (\<lambda>j. task_by_id u j w) = None"
    and cal: "ensure_calendar_writable u (e_calendar_id e) w = Inr ()"
    and guard: "mapping_guard lk u (mr_event_id m) w = Inr (mr_mapping_guard m)"
    and time: "clock 0 < mr_expires_at m" "clock 2 < mr_expires_at m"
  obtains w' where "undo_calendar_move lk clock u i w = Inr ((), w')"
    "events w' = update_where (\<lambda>x. e_id x = mr_event_id m \<and> e_user_id x = u) (reschedule (mr_starts_at m) (mr_ends_at m) (clock 1)) (events w)"
    "tasks w' = (case mr_task_id m of None \<Rightarrow> tasks w | Some j \<Rightarrow> update_where (\<lambda>x. t_id x = j \<and> t_user_id x = u)
       (replan (mr_task_starts_at m) (mr_task_ends_at m) (clock 1)) (tasks w))"
    "\<forall>x \<in> set (move_undos w'). \<not> (mr_id x = i \<and> mr_user_id x = u)"
proof -
  let ?mine = "\<lambda>m. mr_id m = i \<and> mr_user_id m = u"
  let ?t = "Option.bind (mr_task_id m) (\<lambda>j. task_by_id u j w)"
  have ei: "e_id e = mr_event_id m" using e(1) by (auto simp: event_by_id_def dest: row_by_Some)
  have item: "lock_item lk u (mr_event_id m) w = Inr (e, ?t)"
    using e t(2) free by (intro lock_item_free) (auto simp: all_free_def)
  let ?wm = "(case mr_task_id m of None \<Rightarrow> w | Some j \<Rightarrow> update_tasks (\<lambda>x. t_id x = j \<and> t_user_id x = u)
       (replan (mr_task_starts_at m) (mr_task_ends_at m) (clock 1)) w)
      \<lparr>events := update_where (\<lambda>x. e_id x = mr_event_id m \<and> e_user_id x = u) (reschedule (mr_starts_at m) (mr_ends_at m) (clock 1)) (events w)\<rparr>"
  let ?wn = "mark_event_for_sync u (reschedule (mr_starts_at m) (mr_ends_at m) (clock 1) e) False ?wm"
  have ws: "write_schedule u (e_id e) (mr_starts_at m) (mr_ends_at m)
          (map_option (\<lambda>i. (i, mr_task_starts_at m, mr_task_ends_at m)) (mr_task_id m)) (clock 1) w
      = Inr (reschedule (mr_starts_at m) (mr_ends_at m) (clock 1) e, ?wm)"
    unfolding write_schedule_eq ei e(1) by (simp add: Let_def split: option.split)
  have undos: "move_undos ?wn = move_undos w" by (simp split: option.split)
  have "filter (\<lambda>m. ?mine m \<and> clock 2 < mr_expires_at m) (move_undos w) = [m]"
  proof -
    have "filter (\<lambda>m. ?mine m \<and> clock 2 < mr_expires_at m) (move_undos w) = filter (\<lambda>m. clock 2 < mr_expires_at m) (filter ?mine (move_undos w))"
      unfolding filter_filter by meson
    then show ?thesis using unique time(2) by simp
  qed
  then have "undo_calendar_move lk clock u i w = Inr ((), cleanup u (clock 3) (lk_skipped lk)
      (?wn\<lparr>move_undos := delete_where (\<lambda>m. ?mine m \<and> clock 2 < mr_expires_at m) (move_undos w)\<rparr>))"
    unfolding undo_calendar_move_def
    using lock_move_free [OF free] m item free time(1) e(2,3) t(1) cal guard ws undos
    by (simp add: Let_def ei nowait_def all_free_def)
  then show ?thesis
  proof (rule that)
    have "\<forall>x \<in> set (filter ?mine (move_undos w)). x = m" by (simp only: unique) simp
    then have "\<forall>x \<in> set (move_undos w). ?mine x \<longrightarrow> x = m" by simp
    then show "\<forall>x \<in> set (move_undos (cleanup u (clock 3) (lk_skipped lk)
      (?wn\<lparr>move_undos := delete_where (\<lambda>m. ?mine m \<and> clock 2 < mr_expires_at m) (move_undos w)\<rparr>))). \<not> ?mine x"
      using cleanup_subset time(2) by fastforce
  qed (simp_all split: option.split)
qed

lemma receipt_fresh:
  assumes "inj (uuid_supply w)" and "mr_id ` set (move_undos w) \<subseteq> drawn_ids w" and "grows w wn"
    and "set (move_undos wn) \<subseteq> set (move_undos w)" and "x \<in> set (move_undos wn)"
  shows "mr_id x \<noteq> uuid_supply wn (drawn wn)"
proof -
  have "mr_id x \<in> drawn_ids w" using assms(2,4,5) by blast
  then show ?thesis using assms(1,3) by (auto simp: drawn_ids_def grows_def inj_eq)
qed

lemma row_only:
  assumes "\<forall>x \<in> set xs. \<not> p x" and "p m"
  shows "row_by p (xs @ [m]) = Some m" and "filter p (xs @ [m]) = [m]"
proof -
  have "row_by p xs = None" using assms(1) by (simp add: row_by_None)
  then show "row_by p (xs @ [m]) = Some m" using assms(2) unfolding row_by_append by (simp add: row_by_def [of _ "[m]"])
  show "filter p (xs @ [m]) = [m]" using assms by (simp add: filter_empty_conv)
qed

text \<open>
  C16. A move can be undone, and undoing restores the schedule. For 60 seconds after an accepted move, if the item was not
  touched and its locks are free, the undo with the receipt is accepted and gives the event and its task the times
  they had before; nothing else changes but their versions, which count both
  writes. The receipt is used up: a second undo finds nothing. Receipts are identified by fresh identifiers.
\<close>

theorem undo_restores_the_schedule:
  assumes move: "move_calendar_item lk clock u item is_task req w = Inr (r, w')"
    and ids: "distinct (map e_id (events w))" "distinct (map t_id (tasks w))"
    and uuids: "inj (uuid_supply w)" "mr_id ` set (move_undos w) \<subseteq> drawn_ids w"
    and free: "all_free lk'" and time: "clock' 0 < clock 3 + 60 * second" "clock' 2 < clock 3 + 60 * second"
  shows "\<exists>w''. undo_calendar_move lk' clock' u (mu_id r) (w'\<lparr>now := k\<rparr>) = Inr ((), w'')
    \<and> events w'' = update_where (\<lambda>e. e_id e = mu_event_id r \<and> e_user_id e = u)
         (\<lambda>e. e\<lparr>e_updated_at := clock' 1, e_version := e_version e + 2\<rparr>) (events w)
    \<and> tasks w'' = (case mu_task_id r of None \<Rightarrow> tasks w
         | Some i \<Rightarrow> update_where (\<lambda>t. t_id t = i \<and> t_user_id t = u)
             (\<lambda>t. t\<lparr>t_updated_at := clock' 1, t_version := t_version t + 2\<rparr>) (tasks w))
    \<and> undo_calendar_move lk' clock' u (mu_id r) w'' = Inl (NotFound ''calendar move Undo'')"
proof (rule move_effect [OF move])
  fix e t guard wm wn m
  let ?e' = "reschedule (mv_starts_at req) (mv_ends_at req) (clock 2)"
  let ?t' = "replan (Some (mv_starts_at req)) (Some (mv_ends_at req)) (clock 2)"
  let ?c = "cleanup u (clock 0) (lk_skipped lk) w"
  let ?v = "w'\<lparr>now := k\<rparr>"
  assume e: "event_by_id u (e_id e) w = Some e" and t: "t = Option.bind (e_linked_task_id e) (\<lambda>j. task_by_id u j w)"
      "e_linked_task_id e = None \<longleftrightarrow> t = None"
    and cal: "ensure_calendar_writable u (e_calendar_id e) w = Inr ()" and guard: "mapping_guard lk u (e_id e) w = Inr guard"
    and wm: "wm = (case t of None \<Rightarrow> ?c | Some t \<Rightarrow> update_tasks (\<lambda>x. t_id x = t_id t \<and> t_user_id x = u) ?t' ?c)
       \<lparr>events := update_where (\<lambda>x. e_id x = e_id e \<and> e_user_id x = u) ?e' (events w)\<rparr>"
    and wn: "wn = mark_event_for_sync u (?e' e) False wm"
    and m: "m = \<lparr>mr_id = uuid_supply wn (drawn wn), mr_user_id = u, mr_event_id = e_id e, mr_task_id = e_linked_task_id e,
       mr_starts_at = e_starts_at e, mr_ends_at = e_ends_at e, mr_task_starts_at = Option.bind t t_scheduled_start,
       mr_task_ends_at = Option.bind t t_scheduled_end, mr_event_version = e_version e + 1,
       mr_task_version = map_option (\<lambda>t. t_version t + 1) t, mr_mapping_guard = guard, mr_expires_at = clock 3 + 60 * second\<rparr>"
    and r: "r = receipt_of m" and w': "w' = (snd (new_uuid wn))\<lparr>move_undos := move_undos wn @ [m]\<rparr>"
  have mappings: "mappings ?v = mappings (mark_event_for_sync u (?e' e) False wm)" "mappings wm = mappings w"
    by (simp_all add: w' wn wm split: option.split)
  have frame: "events ?v = update_where (\<lambda>x. e_id x = e_id e \<and> e_user_id x = u) ?e' (events w)" "calendars ?v = calendars w"
    "tasks ?v = (case t of None \<Rightarrow> tasks w | Some t \<Rightarrow> update_where (\<lambda>x. t_id x = t_id t \<and> t_user_id x = u) ?t' (tasks w))"
    by (simp_all add: w' wn wm split: option.split)
  have undos: "set (move_undos wn) \<subseteq> set (move_undos w)"
    using cleanup_subset [of u "clock 0" "lk_skipped lk" w] by (auto simp: wn wm split: option.splits)
  have "grows w ?c" by (simp add: grows_def)
  then have grows: "grows w wn" unfolding wn wm by (cases t) (auto intro!: grows_after)
  let ?mine = "\<lambda>x. mr_id x = mr_id m \<and> mr_user_id x = u"
  have "\<forall>x \<in> set (move_undos wn). \<not> ?mine x" using receipt_fresh [OF uuids grows undos] by (simp add: m)
  note only = row_only [of "move_undos wn" ?mine m, OF this]
  have mv: "move_undos ?v = move_undos wn @ [m]" by (simp add: w')
  have p: "?mine m" by (simp add: m)
  have e': "event_by_id u (mr_event_id m) ?v = Some (?e' e)"
    unfolding event_by_id_def frame m using e by (simp add: row_by_update_same reschedule_def event_by_id_def)
  have t': "Option.bind (mr_task_id m) (\<lambda>j. task_by_id u j ?v) = map_option ?t' t"
  proof (cases t)
    case (Some x)
    with t obtain j where j: "e_linked_task_id e = Some j" "task_by_id u j w = Some x" by (cases "e_linked_task_id e") auto
    then have "t_id x = j" by (auto simp: task_by_id_def dest: row_by_Some)
    then show ?thesis unfolding task_by_id_def frame using Some j
      by (simp add: m row_by_update_same replan_def task_by_id_def)
  qed (use t in \<open>simp add: m\<close>)
  have g: "mapping_guard lk' u (mr_event_id m) ?v = Inr (mr_mapping_guard m)"
    using guard_after_mark [OF guard mappings] free by (simp add: m reschedule_def all_free_def)
  have c: "ensure_calendar_writable u (e_calendar_id (?e' e)) ?v = Inr ()"
    using cal frame(2) by (simp add: ensure_calendar_writable_def calendar_by_id_def reschedule_def)
  obtain w'' where un: "undo_calendar_move lk' clock' u (mr_id m) ?v = Inr ((), w'')"
    and ev: "events w'' = update_where (\<lambda>x. e_id x = mr_event_id m \<and> e_user_id x = u) (reschedule (mr_starts_at m) (mr_ends_at m) (clock' 1)) (events ?v)"
    and ta: "tasks w'' = (case mr_task_id m of None \<Rightarrow> tasks ?v | Some j \<Rightarrow> update_where (\<lambda>x. t_id x = j \<and> t_user_id x = u)
       (replan (mr_task_starts_at m) (mr_task_ends_at m) (clock' 1)) (tasks ?v))"
    and gone: "\<forall>x \<in> set (move_undos w''). \<not> (mr_id x = mr_id m \<and> mr_user_id x = u)"
    by (rule undo_accepted [OF free _ _ e' _ _ _ _ c g, of "mr_id m" clock'])
      (use only p time t(2) t' in \<open>auto simp: mv m reschedule_def replan_def option.map_comp comp_def\<close>)
  have "events w'' = update_where (\<lambda>x. e_id x = e_id e \<and> e_user_id x = u)
         (\<lambda>e. e\<lparr>e_updated_at := clock' 1, e_version := e_version e + 2\<rparr>) (events w)"
    unfolding ev frame m move_undo_row.simps
    by (subst update_where_twice, simp add: reschedule_def, rule update_where_row [OF ids(1), of _ e])
      (use e in \<open>auto simp: event_by_id_def reschedule_def\<close>)
  moreover have "tasks w'' = (case e_linked_task_id e of None \<Rightarrow> tasks w
         | Some i \<Rightarrow> update_where (\<lambda>t. t_id t = i \<and> t_user_id t = u)
             (\<lambda>t. t\<lparr>t_updated_at := clock' 1, t_version := t_version t + 2\<rparr>) (tasks w))"
  proof (cases t)
    case (Some x)
    with t obtain j where j: "e_linked_task_id e = Some j" "task_by_id u j w = Some x" by (cases "e_linked_task_id e") auto
    then have "t_id x = j" by (auto simp: task_by_id_def dest: row_by_Some)
    with Some j show ?thesis
      unfolding ta frame m move_undo_row.simps
      by simp (subst update_where_twice, simp add: replan_def, rule update_where_row [OF ids(2), of _ x],
          auto simp: task_by_id_def replan_def)
  qed (use t(2) frame in \<open>simp add: ta m\<close>)
  moreover have "undo_calendar_move lk' clock' u (mr_id m) w'' = Inl (NotFound ''calendar move Undo'')"
    using gone lock_move_free [OF free] by (simp add: undo_calendar_move_def row_by_None [THEN iffD2])
  ultimately show ?thesis using un by (simp add: r receipt_of_def m)
qed

lemmas move_simps = move_calendar_item_def undo_calendar_move_def lock_move_def lock_item_def nowait_def cleanup_def live_undos_def
  mapping_guard_def write_schedule_def insert_receipt_def receipt_of_def ensure_calendar_writable_def calendar_by_id_def
  event_by_id_def task_by_id_def mark_event_for_sync_def row_by_def new_uuid_def

definition locks_free :: move_locks where
  "locks_free = \<lparr>lk_sync = True, lk_owner = True, lk_task = True, lk_event = True, lk_calendar = True,
     lk_mapping = True, lk_receipt = True, lk_skipped = []\<rparr>"

definition move_example :: world where
  "move_example = empty_world\<lparr>drawn := 3, calendars := [new_calendar 1 7 ''c'' ''#000000'' True 0],
     events := [time_block 2 7 1 (example_row 0 None NoRecurrence 1024) 10 20 ''UTC'' 0\<lparr>e_linked_task_id := None\<rparr>]\<rparr>"

theorem undo_restores_the_schedule_witness:
  "\<exists>r w' w''. move_calendar_item locks_free (\<lambda>_. 0) 7 2 False \<lparr>mv_starts_at = 30, mv_ends_at = 40, mv_expected_version = 1\<rparr> move_example = Inr (r, w')
    \<and> map e_starts_at (events w') = [30]
    \<and> undo_calendar_move locks_free (\<lambda>_. 5) 7 (mu_id r) (w'\<lparr>now := 5\<rparr>) = Inr ((), w'') \<and> map e_starts_at (events w'') = [10]"
proof -
  let ?req = "\<lparr>mv_starts_at = 30, mv_ends_at = 40, mv_expected_version = 1\<rparr>"
  obtain r w' where r: "move_calendar_item locks_free (\<lambda>_. 0) 7 2 False ?req move_example = Inr (r, w')"
    "map e_starts_at (events w') = [30]"
    by (simp add: move_simps locks_free_def move_example_def empty_world_def time_block_def new_calendar_def
        example_row_def new_task_def delete_where_def update_where_def Let_def)
  have "\<exists>w''. undo_calendar_move locks_free (\<lambda>_. 5) 7 (mu_id r) (w'\<lparr>now := 5\<rparr>) = Inr ((), w'')
      \<and> events w'' = update_where (\<lambda>e. e_id e = mu_event_id r \<and> e_user_id e = 7)
         (\<lambda>e. e\<lparr>e_updated_at := 5, e_version := e_version e + 2\<rparr>) (events move_example)"
    using undo_restores_the_schedule [OF r(1), of locks_free "\<lambda>_. 5" 5]
    by (simp add: move_example_def empty_world_def all_free_def locks_free_def second_def) blast
  then obtain w'' where "undo_calendar_move locks_free (\<lambda>_. 5) 7 (mu_id r) (w'\<lparr>now := 5\<rparr>) = Inr ((), w'')"
    "map e_starts_at (events w'') = [10]"
    by (auto simp: update_where_def move_example_def time_block_def)
  with r show ?thesis by (intro exI [of _ r] exI [of _ w'] exI [of _ w'']) simp
qed

section \<open>Bounds\<close>

text \<open>
  Moves, undos and listings in the order of the wall clock; \<open>cascade\<close> stands for every operation that
  only deletes receipts, such as the deletion of an event.
\<close>

inductive move_step :: "timestamp \<times> world \<Rightarrow> unit list \<Rightarrow> timestamp \<times> world \<Rightarrow> bool" where
  move: "mono clock \<Longrightarrow> T \<le> clock 0 \<Longrightarrow> move_calendar_item lk clock u i b req w = Inr (r, w')
    \<Longrightarrow> move_step (T, w) [] (clock 3, w')"
| undo: "mono clock \<Longrightarrow> T \<le> clock 0 \<Longrightarrow> undo_calendar_move lk clock u i w = Inr (x, w') \<Longrightarrow> move_step (T, w) [] (clock 3, w')"
| list: "mono clock \<Longrightarrow> T \<le> clock 0 \<Longrightarrow> list_calendar_move_undos lk clock u w = (rs, w') \<Longrightarrow> move_step (T, w) [] (clock 1, w')"
| cascade: "T \<le> T' \<Longrightarrow> move_undos w' = filter p (move_undos w) \<Longrightarrow> move_step (T, w) [] (T', w')"

definition undos_bounded :: "timestamp \<times> world \<Rightarrow> bool" where
  "undos_bounded s \<longleftrightarrow> (\<forall>u c. fst s \<le> c \<longrightarrow> length (live_undos u c (snd s)) \<le> 100)"

lemma live_undos_filter:
  assumes "move_undos w' = filter p (move_undos w)" and "c \<le> c'"
  shows "length (live_undos u c' w') \<le> length (live_undos u c w)"
  unfolding live_undos_def assms(1) filter_filter by (rule length_filter_mono) (use assms(2) in auto)

lemma undos_bounded_filter:
  assumes "undos_bounded (T, w)" and "T \<le> T'" and "move_undos w' = filter p (move_undos w)"
  shows "undos_bounded (T', w')"
  unfolding undos_bounded_def fst_conv snd_conv
proof (intro allI impI)
  fix u c
  assume "T' \<le> c"
  then have "length (live_undos u c w) \<le> 100" using assms(1,2) by (simp add: undos_bounded_def)
  with live_undos_filter [OF assms(3), of c c u] show "length (live_undos u c w') \<le> 100" by simp
qed

lemma cleanup_filter: "\<exists>p. move_undos (cleanup u c sk w) = filter p (move_undos w)"
  by (auto simp: cleanup_def Let_def delete_where_def)

lemma write_schedule_undos: "write_schedule u i a b t c w = Inr (e, w') \<Longrightarrow> move_undos w' = move_undos w"
  by (auto simp: write_schedule_eq Let_def split: option.splits)

lemma undo_filter:
  assumes "undo_calendar_move lk clock u i w = Inr (x, w')"
  shows "\<exists>p. move_undos w' = filter p (move_undos w)"
proof -
  let ?d = "\<lambda>m. (mr_id m = i \<and> mr_user_id m = u) \<and> clock 2 < mr_expires_at m"
  from assms obtain c s f q uw where uw: "write_schedule u c s f q (clock 1) w = Inr uw"
    and w': "Inr ((), cleanup u (clock 3) (lk_skipped lk) (mark_event_for_sync u (fst uw) False (snd uw)
      \<lparr>move_undos := delete_where ?d (move_undos (mark_event_for_sync u (fst uw) False (snd uw)))\<rparr>)) = (Inr (x, w') :: unit store_result)"
    unfolding undo_calendar_move_def Let_def case_prod_beta bind_res_eq_Inr require_eq_Inr
    by (elim exE conjE) (rule that, assumption, assumption)
  have "move_undos (snd uw) = move_undos w" using uw write_schedule_undos by (cases uw) simp
  then have undos: "move_undos (mark_event_for_sync u (fst uw) False (snd uw)) = move_undos w" by simp
  obtain p where "move_undos w' = filter p (delete_where ?d (move_undos w))"
    using w' cleanup_filter [of u "clock 3" "lk_skipped lk" "mark_event_for_sync u (fst uw) False (snd uw)
      \<lparr>move_undos := delete_where ?d (move_undos w)\<rparr>"] unfolding undos by auto
  then show ?thesis unfolding delete_where_def filter_filter by blast
qed

lemma undos_bounded_move:
  assumes bounded: "undos_bounded (T, w)" and clock: "mono clock" "T \<le> clock 0"
    and res: "move_calendar_item lk clock u i b req w = Inr (r, w')"
  shows "undos_bounded (clock 3, w')"
  using res
proof (rule move_effect)
  fix e t guard wm wn m
  let ?c = "cleanup u (clock 0) (lk_skipped lk) w"
  assume live: "length (live_undos u (clock 1) ?c) < 100" and w': "w' = (snd (new_uuid wn))\<lparr>move_undos := move_undos wn @ [m]\<rparr>"
    and wn: "wn = mark_event_for_sync u (reschedule (mv_starts_at req) (mv_ends_at req) (clock 2) e) False wm"
    and wm: "wm = (case t of None \<Rightarrow> ?c | Some t \<Rightarrow> update_tasks (\<lambda>x. t_id x = t_id t \<and> t_user_id x = u)
        (replan (Some (mv_starts_at req)) (Some (mv_ends_at req)) (clock 2)) ?c)
       \<lparr>events := update_where (\<lambda>x. e_id x = e_id e \<and> e_user_id x = u) (reschedule (mv_starts_at req) (mv_ends_at req) (clock 2)) (events w)\<rparr>"
    and m: "m = \<lparr>mr_id = uuid_supply wn (drawn wn), mr_user_id = u, mr_event_id = e_id e, mr_task_id = e_linked_task_id e,
       mr_starts_at = e_starts_at e, mr_ends_at = e_ends_at e, mr_task_starts_at = Option.bind t t_scheduled_start,
       mr_task_ends_at = Option.bind t t_scheduled_end, mr_event_version = e_version e + 1,
       mr_task_version = map_option (\<lambda>t. t_version t + 1) t, mr_mapping_guard = guard, mr_expires_at = clock 3 + 60 * second\<rparr>"
  have rows: "move_undos w' = move_undos ?c @ [m]" by (simp add: w' wn wm split: option.split)
  have le: "T \<le> clock 3" "clock 1 \<le> clock 3" using clock monoD [OF clock(1), of 0 3] monoD [OF clock(1), of 1 3] by simp_all
  obtain p where "move_undos ?c = filter p (move_undos w)" using cleanup_filter by blast
  from undos_bounded_filter [OF bounded le(1) this] have b: "undos_bounded (clock 3, ?c)" .
  show "undos_bounded (clock 3, w')"
    unfolding undos_bounded_def fst_conv snd_conv
  proof (intro allI impI)
    fix v c
    assume c: "clock 3 \<le> c"
    have "length (live_undos u c ?c) \<le> length (live_undos u (clock 1) ?c)"
      by (rule live_undos_filter [of _ "\<lambda>_. True"]) (use le(2) c in simp_all)
    with live have u: "length (live_undos u c ?c) < 100" by simp
    have "length (live_undos v c ?c) \<le> 100" using b c by (simp add: undos_bounded_def)
    then show "length (live_undos v c w') \<le> 100"
      using u by (cases "v = u") (auto simp: live_undos_def rows m)
  qed
qed

text \<open>
  In every run of moves, undos, listings and deletions, at every moment, no user has more than one hundred
  usable receipts.
\<close>

theorem at_most_hundred_undos:
  assumes "steps move_step (T0, w0) ls (T, w)" and "move_undos w0 = []"
  shows "\<forall>u c. T \<le> c \<longrightarrow> length (live_undos u c w) \<le> 100"
proof -
  have "undos_bounded (T, w)"
  proof (rule steps_invariant [OF assms(1)])
    show "undos_bounded (T0, w0)" using assms(2) by (simp add: undos_bounded_def live_undos_def)
    show "undos_bounded t" if "move_step s ys t" "undos_bounded s" for s ys t
      using that
    proof cases
      case (move clock T lk u i b req w r w')
      then show ?thesis using that(2) undos_bounded_move by blast
    next
      case (undo clock T lk u i w x w')
      moreover obtain p where "move_undos w' = filter p (move_undos w)" using undo undo_filter by blast
      moreover have "T \<le> clock 3" using undo monoD [of clock 0 3] by simp
      ultimately show ?thesis using that(2) undos_bounded_filter by metis
    next
      case (list clock T lk u w rs w')
      then have "w' = cleanup u (clock 0) (lk_skipped lk) w" by (simp add: list_calendar_move_undos_def Let_def)
      then obtain p where "move_undos w' = filter p (move_undos w)" using cleanup_filter by blast
      moreover have "T \<le> clock 1" using list monoD [of clock 0 1] by simp
      ultimately show ?thesis using list that(2) undos_bounded_filter by metis
    next
      case (cascade T T' w' p w)
      then show ?thesis using that(2) undos_bounded_filter by blast
    qed
  qed
  then show ?thesis by (simp add: undos_bounded_def)
qed

theorem at_most_hundred_undos_witness:
  "\<exists>w. steps move_step (0, move_example) [] (0, w) \<and> move_undos w \<noteq> [] \<and> length (live_undos 7 1 w) \<le> 100"
proof -
  let ?req = "\<lparr>mv_starts_at = 30, mv_ends_at = 40, mv_expected_version = 1\<rparr>"
  obtain r w where r: "move_calendar_item locks_free (\<lambda>_. 0) 7 2 False ?req move_example = Inr (r, w)"
    "move_undos w \<noteq> []"
    by (simp add: move_simps locks_free_def move_example_def empty_world_def time_block_def new_calendar_def
        example_row_def new_task_def delete_where_def update_where_def Let_def)
  have "move_step (0, move_example) [] (0, w)"
    by (rule move_step.move [OF _ _ r(1), of 0, simplified]) (simp_all add: mono_def)
  then have run: "steps move_step (0, move_example) [] (0, w)" by (rule steps_one)
  have "length (live_undos 7 1 w) \<le> 100"
    using at_most_hundred_undos [OF run] by (simp add: move_example_def empty_world_def)
  with run r(2) show ?thesis by blast
qed

end
