(* ===== verification/Accounts.thy ===== *)
theory Accounts
  imports SyncStore
begin

text \<open>
  Users, sessions, settings and sign-in of \<open>store.rs\<close>: sessions and OAuth login attempts are stored under
  the SHA-256 of their secrets, accounts are created up to a capacity, and the Google credentials of a
  user survive sign-ins that do not carry the calendar scope.
\<close>

section \<open>Model\<close>

definition new_user :: "uuid \<Rightarrow> string option \<Rightarrow> string \<Rightarrow> string \<Rightarrow> string option \<Rightarrow> timestamp \<Rightarrow> user_row" where
  "new_user i subject email name avatar t =
     \<lparr>u_id = i, u_email = email, u_display_name = name, u_avatar_url = avatar, u_timezone = ''UTC'',
      u_google_subject = subject, u_updated_at = t\<rparr>"

definition ensure_development_user :: "uuid \<Rightarrow> world \<Rightarrow> user_profile \<times> world" where
  "ensure_development_user user w =
     (case row_by (\<lambda>u. u_id u = user) (users w) of
        Some u \<Rightarrow> (user_profile.truncate u,
                    w\<lparr>users := update_where (\<lambda>u. u_id u = user) (\<lambda>u. u\<lparr>u_updated_at := now w\<rparr>) (users w)\<rparr>)
      | None \<Rightarrow> (let u = new_user user None (show_uuid user @ ''@development.invalid'') [] None (now w)
                 in (user_profile.truncate u, w\<lparr>users := users w @ [u]\<rparr>)))"

record created_session =
  cs_token :: string
  cs_response :: session_response

definition random_token :: "world \<Rightarrow> string \<times> world" where
  "random_token w = (let (a, w) = new_uuid w; (b, w) = new_uuid w in (hex_pad 32 a @ hex_pad 32 b, w))"

definition token_hash :: "platform \<Rightarrow> string \<Rightarrow> string" where
  "token_hash pf token = sha256 pf token"

definition create_session :: "platform \<Rightarrow> user_profile \<Rightarrow> world \<Rightarrow> created_session store_result" where
  "create_session pf user w =
     (let (token, w) = random_token w;
          (csrf_token, w) = random_token w;
          expires_at = utc_now pf + 30 * 86400 * second
      in bind_res (require (\<not> (\<exists>s \<in> set (sessions w). se_token_hash s = token_hash pf token))
           (unique_violation ''sessions_pkey'')) (\<lambda>_.
         Inr (\<lparr>cs_token = token, cs_response = \<lparr>sr_user = user, sr_csrf_token = csrf_token\<rparr>\<rparr>,
              w\<lparr>sessions := sessions w @ [\<lparr>se_token_hash = token_hash pf token, se_user_id = u_id user,
                 se_csrf_token = csrf_token, se_expires_at = expires_at, se_last_seen_at = now w\<rparr>]\<rparr>)))"

record session_authentication =
  sa_user_id :: uuid
  sa_csrf_token :: string

definition authenticate_session :: "platform \<Rightarrow> string \<Rightarrow> world \<Rightarrow> session_authentication store_result" where
  "authenticate_session pf token w =
     (let hit = (\<lambda>s. se_token_hash s = token_hash pf token \<and> now w < se_expires_at s)
      in bind_res (ok_or (row_by hit (sessions w)) Unauthorized) (\<lambda>s.
         Inr (\<lparr>sa_user_id = se_user_id s, sa_csrf_token = se_csrf_token s\<rparr>,
              w\<lparr>sessions := update_where hit (\<lambda>s. s\<lparr>se_last_seen_at := now w\<rparr>) (sessions w)\<rparr>)))"

definition store_user_profile :: "uuid \<Rightarrow> world \<Rightarrow> user_profile app_result" where
  "store_user_profile user w =
     ok_or (map_option user_profile.truncate (row_by (\<lambda>u. u_id u = user) (users w))) Unauthorized"

definition default_settings :: "uuid \<Rightarrow> timestamp \<Rightarrow> settings_row" where
  "default_settings user t =
     \<lparr>us_theme = System, us_automatic_daily_review = True, us_sync_conflict_policy = Ask,
      us_sidebar_visible = True, us_updated_at = t, us_version = 1, us_user_id = user\<rparr>"

text \<open>INSERT with ON CONFLICT into \<open>user_settings\<close>: the row of the user, made when there is none.\<close>

definition ensure_settings :: "uuid \<Rightarrow> world \<Rightarrow> settings_row \<times> world" where
  "ensure_settings user w =
     (case row_by (\<lambda>s. us_user_id s = user) (settings w) of
        Some s \<Rightarrow> (s, w)
      | None \<Rightarrow> (let s = default_settings user (now w) in (s, w\<lparr>settings := settings w @ [s]\<rparr>)))"

definition store_user_settings :: "uuid \<Rightarrow> world \<Rightarrow> user_settings \<times> world" where
  "store_user_settings user w = (let (s, w) = ensure_settings user w in (user_settings.truncate s, w))"

definition set_settings :: "update_user_settings_request \<Rightarrow> timestamp \<Rightarrow> settings_row \<Rightarrow> settings_row" where
  "set_settings req t s =
     s\<lparr>us_theme := uu_theme req, us_automatic_daily_review := uu_automatic_daily_review req,
       us_sync_conflict_policy := uu_sync_conflict_policy req, us_sidebar_visible := uu_sidebar_visible req,
       us_updated_at := t, us_version := us_version s + 1\<rparr>"

definition update_user_settings :: "uuid \<Rightarrow> update_user_settings_request \<Rightarrow> world \<Rightarrow> user_settings store_result" where
  "update_user_settings user req w =
     (let (_, w) = store_user_settings user w;
          hit = (\<lambda>s. us_user_id s = user \<and> us_version s = uu_expected_version req)
      in case row_by hit (settings w) of
           Some s \<Rightarrow> Inr (user_settings.truncate (set_settings req (now w) s),
                          w\<lparr>settings := update_where hit (set_settings req (now w)) (settings w)\<rparr>)
         | None \<Rightarrow>
             (case row_by (\<lambda>s. us_user_id s = user) (settings w) of
                Some s \<Rightarrow> Inl (Conflict (''settings changed since version '' @ show_int (uu_expected_version req)
                            @ ''; current version is '' @ show_int (us_version s)))
              | None \<Rightarrow> Inl (NotFound ''settings'')))"

definition email_can_sign_in :: "platform \<Rightarrow> string \<Rightarrow> world \<Rightarrow> bool" where
  "email_can_sign_in pf email w \<longleftrightarrow>
     (\<exists>u \<in> set (users w). to_lowercase pf (u_email u) = to_lowercase pf email)
     \<or> (\<exists>i \<in> set (invites w). to_lowercase pf (iv_email i) = to_lowercase pf email \<and> iv_used_at i = None)"

definition consume_account_invite :: "platform \<Rightarrow> string \<Rightarrow> uuid \<Rightarrow> world \<Rightarrow> world" where
  "consume_account_invite pf email user w =
     w\<lparr>invites := update_where (\<lambda>i. to_lowercase pf (iv_email i) = to_lowercase pf email \<and> iv_used_at i = None)
         (\<lambda>i. i\<lparr>iv_used_at := Some (now w), iv_used_by := Some user\<rparr>) (invites w)\<rparr>"

definition delete_session :: "platform \<Rightarrow> string \<Rightarrow> world \<Rightarrow> world" where
  "delete_session pf token w =
     w\<lparr>sessions := delete_where (\<lambda>s. se_token_hash s = token_hash pf token) (sessions w)\<rparr>"

record google_login_start =
  gs_authorization_url :: string
  gs_state :: string
  gs_nonce :: string
  gs_pkce_verifier :: string

definition save_google_login_attempt ::
  "platform \<Rightarrow> google_login_start \<Rightarrow> uuid option \<Rightarrow> string \<Rightarrow> (string \<times> string) option \<Rightarrow> string \<Rightarrow> world
   \<Rightarrow> unit store_result" where
  "save_google_login_attempt pf login user purpose legal_versions browser_secret w =
     bind_res
       (case legal_versions of
          Some (terms, privacy) \<Rightarrow>
            if purpose = ''login'' then Inr (Some terms, Some privacy, True)
            else Inl (Validation ''invalid OAuth purpose'')
        | None \<Rightarrow>
            if purpose = ''calendar_connect'' \<or> purpose = ''tasks_connect'' then Inr (None, None, False)
            else Inl (Validation ''invalid OAuth purpose'')) (\<lambda>(terms_version, privacy_version, age_confirmed).
     let w = w\<lparr>login_attempts := delete_where (\<lambda>a. la_expires_at a \<le> now w) (login_attempts w)\<rparr>
     in bind_res (require (\<not> (\<exists>a \<in> set (login_attempts w). la_state_hash a = token_hash pf (gs_state login)))
          (unique_violation ''oauth_login_attempts_pkey'')) (\<lambda>_.
        Inr ((), w\<lparr>login_attempts := login_attempts w @
          [\<lparr>la_state_hash = token_hash pf (gs_state login), la_nonce = gs_nonce login,
            la_pkce_verifier = gs_pkce_verifier login, la_expires_at = now w + 600 * second, la_user_id = user,
            la_purpose = purpose, la_terms_version = terms_version, la_privacy_version = privacy_version,
            la_age_confirmed = age_confirmed, la_browser_binding_hash = Some (token_hash pf browser_secret)\<rparr>]\<rparr>)))"

record oauth_login_attempt =
  oa_nonce :: string
  oa_pkce_verifier :: string
  oa_user_id :: "uuid option"
  oa_purpose :: string
  oa_terms_version :: "string option"
  oa_privacy_version :: "string option"
  oa_age_confirmed :: bool

definition attempt_of :: "login_attempt_row \<Rightarrow> oauth_login_attempt" where
  "attempt_of a =
     \<lparr>oa_nonce = la_nonce a, oa_pkce_verifier = la_pkce_verifier a, oa_user_id = la_user_id a,
      oa_purpose = la_purpose a, oa_terms_version = la_terms_version a,
      oa_privacy_version = la_privacy_version a, oa_age_confirmed = la_age_confirmed a\<rparr>"

definition consume_google_login_attempt ::
  "platform \<Rightarrow> string \<Rightarrow> string \<Rightarrow> world \<Rightarrow> oauth_login_attempt store_result" where
  "consume_google_login_attempt pf state browser_secret w =
     (let hit = (\<lambda>a. la_state_hash a = token_hash pf state
                    \<and> la_browser_binding_hash a = Some (token_hash pf browser_secret) \<and> now w < la_expires_at a)
      in bind_res (ok_or (row_by hit (login_attempts w))
           (Forbidden ''the Google sign-in request expired or is invalid'')) (\<lambda>a.
         Inr (attempt_of a, w\<lparr>login_attempts := delete_where hit (login_attempts w)\<rparr>)))"

definition record_legal_acceptance :: "uuid \<Rightarrow> string \<Rightarrow> string \<Rightarrow> bool \<Rightarrow> world \<Rightarrow> world" where
  "record_legal_acceptance user terms privacy age w =
     (let (i, w) = new_uuid w
      in if \<exists>l \<in> set (legal_acceptances w). lg_user_id l = user \<and> lg_terms_version l = terms
              \<and> lg_privacy_version l = privacy then w
         else w\<lparr>legal_acceptances := legal_acceptances w @ [\<lparr>lg_id = i, lg_user_id = user, lg_terms_version = terms,
                  lg_privacy_version = privacy, lg_age_confirmed = age\<rparr>]\<rparr>)"

record google_login_result =
  gr_subject :: string
  gr_email :: string
  gr_display_name :: string
  gr_avatar_url :: "string option"
  gr_encrypted_access_token :: string
  gr_encrypted_refresh_token :: "string option"
  gr_access_token_expires_at :: "timestamp option"
  gr_scopes :: "string list"

definition account_row :: "uuid \<Rightarrow> google_login_result \<Rightarrow> timestamp \<Rightarrow> google_account_row" where
  "account_row user login t =
     \<lparr>ga_user_id = user, ga_encrypted_access_token = gr_encrypted_access_token login,
      ga_encrypted_refresh_token = gr_encrypted_refresh_token login,
      ga_access_token_expires_at = gr_access_token_expires_at login, ga_scopes = gr_scopes login,
      ga_connected_at = t, ga_updated_at = t\<rparr>"

text \<open>The upserts of \<open>google_accounts\<close>: COALESCE keeps the refresh token when the login has none.\<close>

definition set_credentials :: "google_login_result \<Rightarrow> timestamp \<Rightarrow> google_account_row \<Rightarrow> google_account_row" where
  "set_credentials login t a =
     a\<lparr>ga_encrypted_access_token := gr_encrypted_access_token login,
       ga_encrypted_refresh_token := (case gr_encrypted_refresh_token login of
          None \<Rightarrow> ga_encrypted_refresh_token a | Some r \<Rightarrow> Some r),
       ga_access_token_expires_at := gr_access_token_expires_at login, ga_scopes := gr_scopes login,
       ga_updated_at := t\<rparr>"

definition upsert_account :: "uuid \<Rightarrow> google_login_result \<Rightarrow> (google_account_row \<Rightarrow> google_account_row) \<Rightarrow> world \<Rightarrow> world" where
  "upsert_account user login f w =
     w\<lparr>google_accounts :=
        (if \<exists>a \<in> set (google_accounts w). ga_user_id a = user
         then update_where (\<lambda>a. ga_user_id a = user) f (google_accounts w)
         else google_accounts w @ [account_row user login (now w)])\<rparr>"

definition carries_calendar :: "google_login_result \<Rightarrow> bool" where
  "carries_calendar login \<longleftrightarrow> (\<exists>s \<in> set (gr_scopes login). contains_str s ''/auth/calendar'')"

definition set_login_credentials :: "google_login_result \<Rightarrow> timestamp \<Rightarrow> google_account_row \<Rightarrow> google_account_row" where
  "set_login_credentials login t a =
     (if carries_calendar login then set_credentials login t a else a\<lparr>ga_updated_at := t\<rparr>)"

definition upsert_user :: "google_login_result \<Rightarrow> world \<Rightarrow> user_row \<times> world" where
  "upsert_user login w =
     (let (i, w) = new_uuid w;
          same = (\<lambda>u. u_google_subject u = Some (gr_subject login));
          touch = (\<lambda>u. u\<lparr>u_email := gr_email login, u_display_name := gr_display_name login,
                         u_avatar_url := gr_avatar_url login, u_updated_at := now w\<rparr>)
      in case row_by same (users w) of
           Some u \<Rightarrow> (touch u, w\<lparr>users := update_where same touch (users w)\<rparr>)
         | None \<Rightarrow> (let u = new_user i (Some (gr_subject login)) (gr_email login)
                          (gr_display_name login) (gr_avatar_url login) (now w)
                    in (u, w\<lparr>users := users w @ [u]\<rparr>)))"

definition upsert_google_user :: "google_login_result \<Rightarrow> int option \<Rightarrow> world \<Rightarrow> user_profile store_result" where
  "upsert_google_user login max_user_accounts w =
     bind_res
       (case max_user_accounts of
          None \<Rightarrow> Inr ()
        | Some m \<Rightarrow>
            require (\<not> (\<not> (\<exists>u \<in> set (users w). u_google_subject u = Some (gr_subject login)) \<and> m \<le> int (length (users w))))
              (Forbidden ''new registrations are temporarily paused because service capacity has been reached'')) (\<lambda>_.
     let (user, w) = upsert_user login w
     in Inr (user_profile.truncate user, upsert_account (u_id user) login (set_login_credentials login (now w)) w))"

definition update_google_credentials :: "platform \<Rightarrow> uuid \<Rightarrow> google_login_result \<Rightarrow> world \<Rightarrow> unit store_result" where
  "update_google_credentials pf user login w =
     bind_res (require (\<exists>u \<in> set (users w). u_id u = user \<and> u_google_subject u = Some (gr_subject login)
         \<and> to_lowercase pf (u_email u) = to_lowercase pf (gr_email login))
       (Forbidden ''Google Calendar must be connected with the signed-in account'')) (\<lambda>_.
     Inr ((), upsert_account user login (set_credentials login (now w)) w))"

section \<open>Sessions\<close>

text \<open>
  C17. A session is usable until it expires or is ended. After a sign-in the new token authenticates as that user, with the
  CSRF token of the answer, at every moment of the next 30 days, and at no later one; ending the session makes the token useless
  at once. Another token is not affected, as SHA-256 has no collision on the two.
\<close>

theorem sessions_last_until_they_end:
  assumes "create_session pf user w = Inr (s, w')"
  shows "(case authenticate_session pf (cs_token s) (w'\<lparr>now := t\<rparr>) of
      Inr (a, _) \<Rightarrow> t < utc_now pf + 30 * 86400 * second \<and> sa_user_id a = u_id user
        \<and> sa_csrf_token a = sr_csrf_token (cs_response s)
    | Inl e \<Rightarrow> utc_now pf + 30 * 86400 * second \<le> t \<and> e = Unauthorized)
    \<and> authenticate_session pf (cs_token s) ((delete_session pf (cs_token s) w')\<lparr>now := t\<rparr>) = Inl Unauthorized
    \<and> (\<forall>token. sha256 pf token \<noteq> sha256 pf (cs_token s) \<longrightarrow>
         map_sum id fst (authenticate_session pf token ((delete_session pf (cs_token s) w')\<lparr>now := t\<rparr>))
         = map_sum id fst (authenticate_session pf token (w\<lparr>now := t\<rparr>)))"
proof -
  let ?h = "sha256 pf (cs_token s)"
  from assms obtain c where w': "sessions w' = sessions w @ [\<lparr>se_token_hash = ?h, se_user_id = u_id user,
       se_csrf_token = c, se_expires_at = utc_now pf + 30 * 86400 * second, se_last_seen_at = now w\<rparr>]"
    and c: "sr_csrf_token (cs_response s) = c" and fresh: "\<forall>x \<in> set (sessions w). se_token_hash x \<noteq> ?h"
    by (auto simp: create_session_def random_token_def new_uuid_def token_hash_def Let_def)
  have none: "row_by (\<lambda>x. se_token_hash x = ?h \<and> t < se_expires_at x) (sessions w) = None"
    using fresh by (simp add: row_by_None)
  have 1: "case authenticate_session pf (cs_token s) (w'\<lparr>now := t\<rparr>) of
      Inr (a, _) \<Rightarrow> t < utc_now pf + 30 * 86400 * second \<and> sa_user_id a = u_id user
        \<and> sa_csrf_token a = sr_csrf_token (cs_response s)
    | Inl e \<Rightarrow> utc_now pf + 30 * 86400 * second \<le> t \<and> e = Unauthorized"
    by (simp add: authenticate_session_def token_hash_def w' row_by_append none c Let_def)
      (simp add: row_by_def ok_or_def c)
  have del: "delete_where (\<lambda>x. se_token_hash x = ?h) (sessions w') = sessions w"
    using fresh by (simp add: w' delete_where_def filter_id_conv)
  have 2: "authenticate_session pf (cs_token s) ((delete_session pf (cs_token s) w')\<lparr>now := t\<rparr>) = Inl Unauthorized"
    by (simp add: authenticate_session_def delete_session_def token_hash_def del none Let_def)
  have 3: "map_sum id fst (authenticate_session pf token ((delete_session pf (cs_token s) w')\<lparr>now := t\<rparr>))
         = map_sum id fst (authenticate_session pf token (w\<lparr>now := t\<rparr>))" for token
    by (simp add: authenticate_session_def delete_session_def token_hash_def del Let_def bind_res_def split: sum.split)
  from 1 2 3 show ?thesis by simp
qed

theorem sessions_last_until_they_end_witness:
  "\<exists>s w'. create_session (ascii_platform 0) (user_profile.truncate (new_user 7 None ''a'' ''a'' None 0)) empty_world = Inr (s, w')
    \<and> authenticate_session (ascii_platform 0) (cs_token s) ((delete_session (ascii_platform 0) (cs_token s) w')\<lparr>now := 5\<rparr>) = Inl Unauthorized"
proof -
  obtain s w' where "create_session (ascii_platform 0) (user_profile.truncate (new_user 7 None ''a'' ''a'' None 0)) empty_world = Inr (s, w')"
    by (simp add: create_session_def random_token_def new_uuid_def empty_world_def Let_def)
  with sessions_last_until_they_end [OF this, of 5] show ?thesis by blast
qed

section \<open>Login attempts\<close>

text \<open>
  C18. A sign-in started in one browser is completed at most once, within ten minutes, and in that browser. The first
  callback with the state and the browser's secret gets exactly what was stored; every further one, every one with another
  secret and every one from ten minutes on is refused. Of SHA-256 this needs that the two secrets do not collide.
\<close>

theorem login_attempts_are_used_once:
  assumes save: "save_google_login_attempt pf login user purpose legal secret w = Inr ((), w')"
  shows "(case consume_google_login_attempt pf (gs_state login) secret (w'\<lparr>now := t\<rparr>) of
      Inr (a, w'') \<Rightarrow> t < now w + 600 * second \<and> oa_nonce a = gs_nonce login \<and> oa_pkce_verifier a = gs_pkce_verifier login
        \<and> oa_user_id a = user \<and> oa_purpose a = purpose \<and> oa_terms_version a = map_option fst legal
        \<and> oa_privacy_version a = map_option snd legal \<and> oa_age_confirmed a = (purpose = ''login'')
        \<and> (\<forall>secret' t'. \<exists>m. consume_google_login_attempt pf (gs_state login) secret' (w''\<lparr>now := t'\<rparr>) = Inl (Forbidden m))
    | Inl e \<Rightarrow> now w + 600 * second \<le> t)
    \<and> (\<forall>secret'. sha256 pf secret' \<noteq> sha256 pf secret \<longrightarrow>
         (\<exists>m. consume_google_login_attempt pf (gs_state login) secret' (w'\<lparr>now := t\<rparr>) = Inl (Forbidden m)))"
proof -
  let ?s = "sha256 pf (gs_state login)"
  let ?old = "delete_where (\<lambda>a. la_expires_at a \<le> now w) (login_attempts w)"
  define row where "row = \<lparr>la_state_hash = ?s, la_nonce = gs_nonce login, la_pkce_verifier = gs_pkce_verifier login,
      la_expires_at = now w + 600 * second, la_user_id = user, la_purpose = purpose, la_terms_version = map_option fst legal,
      la_privacy_version = map_option snd legal, la_age_confirmed = (purpose = ''login''),
      la_browser_binding_hash = Some (sha256 pf secret)\<rparr>"
  have rows: "login_attempts w' = ?old @ [row]" and fresh: "\<forall>a \<in> set ?old. la_state_hash a \<noteq> ?s"
    using save by (auto simp: save_google_login_attempt_def token_hash_def row_def Let_def split: option.splits if_splits)
  have row: "la_state_hash row = ?s" by (simp add: row_def)
  have old: "row_by (\<lambda>a. la_state_hash a = ?s \<and> q a) ?old = None" for q using fresh by (simp add: row_by_None)
  have "delete_where (\<lambda>a. la_state_hash a = ?s \<and> q a) ?old = ?old" for q
    unfolding delete_where_def [of "\<lambda>a. la_state_hash a = ?s \<and> q a"] using fresh by (simp add: filter_id_conv)
  then have gone: "delete_where (\<lambda>a. la_state_hash a = ?s \<and> q a) (login_attempts w') = (if q row then ?old else ?old @ [row])" for q
    using rows row by (simp add: delete_where_def)
  show ?thesis
  proof (intro conjI allI impI)
    fix secret'
    assume "sha256 pf secret' \<noteq> sha256 pf secret"
    then show "\<exists>m. consume_google_login_attempt pf (gs_state login) secret' (w'\<lparr>now := t\<rparr>) = Inl (Forbidden m)"
      by (simp add: consume_google_login_attempt_def token_hash_def rows row_by_append old Let_def) (simp add: row_by_def row_def)
  next
    have second': "consume_google_login_attempt pf (gs_state login) secret' (w''\<lparr>now := t'\<rparr>)
        = Inl (Forbidden ''the Google sign-in request expired or is invalid'')" if "login_attempts w'' = ?old" for w'' secret' t'
      by (simp add: consume_google_login_attempt_def token_hash_def that old Let_def)
    show "case consume_google_login_attempt pf (gs_state login) secret (w'\<lparr>now := t\<rparr>) of
      Inr (a, w'') \<Rightarrow> t < now w + 600 * second \<and> oa_nonce a = gs_nonce login \<and> oa_pkce_verifier a = gs_pkce_verifier login
        \<and> oa_user_id a = user \<and> oa_purpose a = purpose \<and> oa_terms_version a = map_option fst legal
        \<and> oa_privacy_version a = map_option snd legal \<and> oa_age_confirmed a = (purpose = ''login'')
        \<and> (\<forall>secret' t'. \<exists>m. consume_google_login_attempt pf (gs_state login) secret' (w''\<lparr>now := t'\<rparr>) = Inl (Forbidden m))
    | Inl e \<Rightarrow> now w + 600 * second \<le> t"
    proof (cases "t < now w + 600 * second")
      case True
      have "consume_google_login_attempt pf (gs_state login) secret (w'\<lparr>now := t\<rparr>) =
          Inr (attempt_of row, w'\<lparr>now := t, login_attempts := ?old\<rparr>)"
        using True by (simp add: consume_google_login_attempt_def token_hash_def row_by_append rows old gone [unfolded rows] Let_def)
          (simp add: row_by_def row_def)
      with True show ?thesis by (simp add: second') (simp add: attempt_of_def row_def)
    next
      case False
      then have "consume_google_login_attempt pf (gs_state login) secret (w'\<lparr>now := t\<rparr>)
          = Inl (Forbidden ''the Google sign-in request expired or is invalid'')"
        by (simp add: consume_google_login_attempt_def token_hash_def rows row_by_append old Let_def) (simp add: row_by_def row_def)
      with False show ?thesis by simp
    qed
  qed
qed

definition example_login :: google_login_start where
  "example_login = \<lparr>gs_authorization_url = [], gs_state = ''s'', gs_nonce = ''n'', gs_pkce_verifier = ''v''\<rparr>"

theorem login_attempts_are_used_once_witness:
  "\<exists>w'. save_google_login_attempt (ascii_platform 0) example_login None ''login'' (Some (''1'', ''1'')) ''secret'' empty_world = Inr ((), w')
    \<and> (\<exists>m. consume_google_login_attempt (ascii_platform 0) ''s'' ''other'' (w'\<lparr>now := 5\<rparr>) = Inl (Forbidden m))"
proof -
  obtain w' where r: "save_google_login_attempt (ascii_platform 0) example_login None ''login'' (Some (''1'', ''1'')) ''secret'' empty_world = Inr ((), w')"
    by (simp add: save_google_login_attempt_def empty_world_def delete_where_def Let_def)
  have "\<exists>m. consume_google_login_attempt (ascii_platform 0) ''s'' ''other'' (w'\<lparr>now := 5\<rparr>) = Inl (Forbidden m)"
    using login_attempts_are_used_once [OF r, of 5] by (simp add: example_login_def ascii_platform_def)
  with r show ?thesis by blast
qed

section \<open>Capacity\<close>

definition subjects :: "world \<Rightarrow> string list" where
  "subjects w = List.map_filter u_google_subject (users w)"

lemma map_filter_append: "List.map_filter f (xs @ ys) = List.map_filter f xs @ List.map_filter f ys"
  by (simp add: List.map_filter_def)

lemma in_subjects: "x \<in> set (subjects w) \<longleftrightarrow> (\<exists>u \<in> set (users w). u_google_subject u = Some x)"
  by (force simp: subjects_def List.map_filter_def)

lemma subjects_cong: "map u_google_subject us = map u_google_subject us' \<Longrightarrow> List.map_filter u_google_subject us = List.map_filter u_google_subject us'"
proof (induction us arbitrary: us')
  case (Cons u us)
  then obtain v vs where "us' = v # vs" by (cases us') simp_all
  with Cons show ?case by (simp add: List.map_filter_simps split: option.split)
qed (simp add: List.map_filter_def)

lemma upsert_google_user_users:
  assumes "upsert_google_user login cap w = Inr (p, w')"
  shows "if gr_subject login \<in> set (subjects w)
    then map u_google_subject (users w') = map u_google_subject (users w) \<and> map u_id (users w') = map u_id (users w)
      \<and> (\<exists>u \<in> set (users w). u_google_subject u = Some (gr_subject login) \<and> u_id p = u_id u)
    else \<exists>u. users w' = users w @ [u] \<and> u_google_subject u = Some (gr_subject login) \<and> u_id p = u_id u
      \<and> (case cap of None \<Rightarrow> True | Some m \<Rightarrow> int (length (users w)) < m)"
proof (cases "row_by (\<lambda>u. u_google_subject u = Some (gr_subject login)) (users w)")
  case None
  then have "gr_subject login \<notin> set (subjects w)" by (simp add: in_subjects row_by_None)
  moreover have "\<not> (\<exists>u \<in> set (users w). u_google_subject u = Some (gr_subject login))" using None by (simp add: row_by_None)
  ultimately show ?thesis using None assms
    by (auto simp: upsert_google_user_def upsert_user_def upsert_account_def new_uuid_def new_user_def user_profile.truncate_def Let_def
        split: option.splits)
next
  case (Some u)
  then have u: "u \<in> set (users w)" "u_google_subject u = Some (gr_subject login)" by (auto dest: row_by_Some)
  then have "gr_subject login \<in> set (subjects w)" by (auto simp: in_subjects)
  with Some assms u show ?thesis
    by (auto simp: upsert_google_user_def upsert_user_def upsert_account_def new_uuid_def user_profile.truncate_def Let_def update_where_def
        split: option.splits)
qed

text \<open>
  C19. The configured capacity bounds the accounts. Whatever sequence of Google sign-ins is accepted, it never leaves more accounts than
  the capacity, or than there were before; a Google subject never gets a second account; and someone who has an
  account is let in also when the service is full, with the same account.
\<close>

theorem capacity_bounds_the_accounts:
  assumes unique: "distinct (subjects w)"
    and run: "fold_res (\<lambda>login w. bind_res (upsert_google_user login (Some m) w) (\<lambda>(_, w). Inr w)) logins w = Inr w'"
  shows "int (length (users w')) \<le> max m (int (length (users w))) \<and> distinct (subjects w')
    \<and> (\<forall>u \<in> set (users w'). \<forall>login. u_google_subject u = Some (gr_subject login) \<longrightarrow>
        (\<exists>p w''. upsert_google_user login (Some m) w' = Inr (p, w'') \<and> length (users w'') = length (users w')))"
proof -
  let ?P = "\<lambda>v. int (length (users v)) \<le> max m (int (length (users w))) \<and> distinct (subjects v)"
  have "?P w'"
  proof (rule fold_res_invariant [OF run, of ?P])
    show "?P w" using unique by simp
    fix login v v'
    assume v: "?P v" and "bind_res (upsert_google_user login (Some m) v) (\<lambda>(_, w). Inr w) = Inr v'"
    then obtain p where "upsert_google_user login (Some m) v = Inr (p, v')" by (auto simp: split_beta)
    note up = upsert_google_user_users [OF this]
    show "?P v'"
    proof (cases "gr_subject login \<in> set (subjects v)")
      case True
      with up have same: "map u_google_subject (users v') = map u_google_subject (users v)" by simp
      then have "length (users v') = length (users v)" by (metis length_map)
      moreover have "subjects v' = subjects v" unfolding subjects_def by (rule subjects_cong [OF same])
      ultimately show ?thesis using v by simp
    next
      case False
      with up obtain u where u: "users v' = users v @ [u]" "u_google_subject u = Some (gr_subject login)" "int (length (users v)) < m" by auto
      then have "subjects v' = subjects v @ [gr_subject login]"
        by (simp add: subjects_def map_filter_append List.map_filter_simps)
      with u v False show ?thesis by simp
    qed
  qed
  moreover have "\<exists>p w''. upsert_google_user login (Some m) w' = Inr (p, w'') \<and> length (users w'') = length (users w')"
    if "u \<in> set (users w')" "u_google_subject u = Some (gr_subject login)" for u login
  proof -
    have sub: "gr_subject login \<in> set (subjects w')" using that by (auto simp: in_subjects)
    obtain p w'' where r: "upsert_google_user login (Some m) w' = Inr (p, w'')"
      using sub by (auto simp: in_subjects upsert_google_user_def upsert_user_def new_uuid_def Let_def split_beta require_def)
    with upsert_google_user_users [OF r] sub have "length (users w'') = length (users w')" by (metis length_map)
    with r show ?thesis by blast
  qed
  ultimately show ?thesis by blast
qed

definition example_google :: "string \<Rightarrow> google_login_result" where
  "example_google subject = \<lparr>gr_subject = subject, gr_email = ''a'', gr_display_name = ''a'', gr_avatar_url = None,
     gr_encrypted_access_token = ''x'', gr_encrypted_refresh_token = None, gr_access_token_expires_at = None, gr_scopes = []\<rparr>"

theorem capacity_bounds_the_accounts_witness:
  "\<exists>w'. fold_res (\<lambda>login w. bind_res (upsert_google_user login (Some 2) w) (\<lambda>(_, w). Inr w))
      [example_google ''a'', example_google ''b'', example_google ''a''] empty_world = Inr w' \<and> int (length (users w')) \<le> 2"
proof -
  obtain w' where r: "fold_res (\<lambda>login w. bind_res (upsert_google_user login (Some 2) w) (\<lambda>(_, w). Inr w))
      [example_google ''a'', example_google ''b'', example_google ''a''] empty_world = Inr w'"
    by (simp add: upsert_google_user_def upsert_user_def upsert_account_def example_google_def empty_world_def new_uuid_def new_user_def
        row_by_def Let_def require_def)
  with capacity_bounds_the_accounts [OF _ r] show ?thesis
    by (auto simp: subjects_def empty_world_def List.map_filter_def)
qed

section \<open>Credentials\<close>

lemma account_of_upsert:
  assumes "\<And>a. ga_user_id (f a) = ga_user_id a"
  shows "account_of u (upsert_account u login f w) = (case account_of u w of
      Some a \<Rightarrow> Some (f a) | None \<Rightarrow> Some (account_row u login (now w)))"
proof (cases "account_of u w")
  case None
  then have "\<not> (\<exists>a \<in> set (google_accounts w). ga_user_id a = u)" by (simp add: account_of_def row_by_None)
  with None show ?thesis by (auto simp: account_of_def upsert_account_def row_by_append) (simp add: row_by_def account_row_def)
next
  case (Some a)
  then have "\<exists>a \<in> set (google_accounts w). ga_user_id a = u" by (auto simp: account_of_def dest: row_by_Some)
  with Some show ?thesis by (simp add: account_of_def upsert_account_def row_by_update_same assms)
qed

lemma account_of_other:
  assumes "\<And>a. ga_user_id (f a) = ga_user_id a" and "v \<noteq> u"
  shows "account_of v (upsert_account u login f w) = account_of v w"
  unfolding account_of_def upsert_account_def
proof (cases "\<exists>a \<in> set (google_accounts w). ga_user_id a = u")
  case True
  have "row_by (\<lambda>a. ga_user_id a = v) (update_where (\<lambda>a. ga_user_id a = u) f xs) = row_by (\<lambda>a. ga_user_id a = v) xs" for xs
    using assms by (induction xs) (auto simp: row_by_def update_where_def)
  with True show "row_by (\<lambda>a. ga_user_id a = v) (google_accounts (w\<lparr>google_accounts := if \<exists>a \<in> set (google_accounts w). ga_user_id a = u
      then update_where (\<lambda>a. ga_user_id a = u) f (google_accounts w) else google_accounts w @ [account_row u login (now w)]\<rparr>))
    = row_by (\<lambda>a. ga_user_id a = v) (google_accounts w)" by simp
next
  case False
  with assms(2) show "row_by (\<lambda>a. ga_user_id a = v) (google_accounts (w\<lparr>google_accounts := if \<exists>a \<in> set (google_accounts w). ga_user_id a = u
      then update_where (\<lambda>a. ga_user_id a = u) f (google_accounts w) else google_accounts w @ [account_row u login (now w)]\<rparr>))
    = row_by (\<lambda>a. ga_user_id a = v) (google_accounts w)"
    by (simp add: row_by_append row_by_def [of _ "[_]"] account_row_def split: option.split)
qed

lemma upsert_google_user_account:
  assumes "upsert_google_user login cap w = Inr (p, w')"
  obtains w1 where "google_accounts w1 = google_accounts w" "now w1 = now w"
    "w' = upsert_account (u_id p) login (set_login_credentials login (now w)) w1"
proof (rule that [of "snd (upsert_user login w)"])
  show frame: "google_accounts (snd (upsert_user login w)) = google_accounts w" "now (snd (upsert_user login w)) = now w"
    by (simp_all add: upsert_user_def new_uuid_def Let_def split: option.split)
  show "w' = upsert_account (u_id p) login (set_login_credentials login (now w)) (snd (upsert_user login w))"
    using assms frame by (auto simp: upsert_google_user_def user_profile.truncate_def split_beta Let_def)
qed

text \<open>
  Signing in does not disturb the calendar connection. A sign-in without the calendar scope leaves tokens, expiry and scopes of an
  existing connection as they are; one with it replaces them, but a stored refresh token is never lost, as it is kept
  when Google sends none. No other user's connection changes.
\<close>

theorem sign_in_keeps_the_calendar_connection:
  assumes a: "account_of (u_id p) w = Some a" and res: "upsert_google_user login cap w = Inr (p, w')"
  shows "\<exists>b. account_of (u_id p) w' = Some b
    \<and> (if carries_calendar login
       then ga_encrypted_access_token b = gr_encrypted_access_token login \<and> ga_scopes b = gr_scopes login
       else b\<lparr>ga_updated_at := 0\<rparr> = a\<lparr>ga_updated_at := 0\<rparr>)
    \<and> (ga_encrypted_refresh_token a \<noteq> None \<longrightarrow> ga_encrypted_refresh_token b \<noteq> None)
    \<and> (\<forall>v. v \<noteq> u_id p \<longrightarrow> account_of v w' = account_of v w)"
proof (rule upsert_google_user_account [OF res])
  fix w1
  assume w1: "google_accounts w1 = google_accounts w" "now w1 = now w"
    and w': "w' = upsert_account (u_id p) login (set_login_credentials login (now w)) w1"
  have id: "ga_user_id (set_login_credentials login t x) = ga_user_id x" for t x
    by (simp add: set_login_credentials_def set_credentials_def)
  have same: "account_of v w1 = account_of v w" for v by (simp add: account_of_def w1)
  have "account_of (u_id p) w' = Some (set_login_credentials login (now w) a)"
    unfolding w' account_of_upsert [OF id] same a by simp
  moreover have "\<forall>v. v \<noteq> u_id p \<longrightarrow> account_of v w' = account_of v w"
    by (simp add: w' account_of_other [OF id] same)
  ultimately show ?thesis
    by (auto simp: set_login_credentials_def set_credentials_def split: option.split)
qed

theorem sign_in_keeps_the_calendar_connection_witness:
  "\<exists>p w' b. upsert_google_user (example_google ''s'') None
      (empty_world\<lparr>users := [new_user 7 (Some ''s'') ''a'' ''a'' None 0],
        google_accounts := [\<lparr>ga_user_id = 7, ga_encrypted_access_token = ''t'', ga_encrypted_refresh_token = Some ''r'',
          ga_access_token_expires_at = None, ga_scopes = [''/auth/calendar''], ga_connected_at = 0, ga_updated_at = 0\<rparr>]\<rparr>) = Inr (p, w')
    \<and> account_of 7 w' = Some b \<and> ga_encrypted_refresh_token b \<noteq> None"
proof -
  let ?a = "\<lparr>ga_user_id = 7, ga_encrypted_access_token = ''t'', ga_encrypted_refresh_token = Some ''r'',
          ga_access_token_expires_at = None, ga_scopes = [''/auth/calendar''], ga_connected_at = 0, ga_updated_at = 0\<rparr>"
  let ?w = "empty_world\<lparr>users := [new_user 7 (Some ''s'') ''a'' ''a'' None 0], google_accounts := [?a]\<rparr>"
  obtain p w' where r: "upsert_google_user (example_google ''s'') None ?w = Inr (p, w')" "u_id p = 7"
    by (simp add: upsert_google_user_def upsert_user_def example_google_def empty_world_def new_uuid_def new_user_def row_by_def Let_def
        user_profile.truncate_def)
  have "account_of (u_id p) ?w = Some ?a" by (simp add: account_of_def row_by_def r(2))
  from sign_in_keeps_the_calendar_connection [OF this r(1)] r show ?thesis by auto
qed

end
