(* ===== verification/DailyReview.thy ===== *)
theory DailyReview
  imports Accounts
begin

text \<open>
  The daily plan of \<open>store.rs\<close> and \<open>daily_review_store.rs\<close>: up to three focus tasks a day, and
  the review that decides about the unfinished focus tasks of the last planned day.
\<close>

section \<open>Model\<close>

definition focus_of :: "uuid \<Rightarrow> date \<Rightarrow> world \<Rightarrow> focus_row list" where
  "focus_of user date w =
     sort_key fo_position (filter (\<lambda>f. fo_user_id f = user \<and> fo_focus_date f = date) (focus_tasks w))"

definition focus_task :: "world \<Rightarrow> focus_row \<Rightarrow> task_row option" where
  "focus_task w f = row_by (\<lambda>t. t_id t = fo_task_id f \<and> t_user_id t = fo_user_id f) (tasks w)"

definition store_daily_plan :: "uuid \<Rightarrow> date \<Rightarrow> world \<Rightarrow> daily_plan" where
  "store_daily_plan user date w =
     \<lparr>dp_date = date, dp_focus_tasks = map task.truncate (List.map_filter (focus_task w) (focus_of user date w))\<rparr>"

text \<open>The rows of a day replaced by the given tasks, at positions 1, 2, \<open>\<dots>\<close>\<close>

fun insert_focus_rows :: "uuid \<Rightarrow> date \<Rightarrow> uuid list \<Rightarrow> nat \<Rightarrow> world \<Rightarrow> world" where
  "insert_focus_rows user date [] index w = w"
| "insert_focus_rows user date (i # is) index w =
     insert_focus_rows user date is (Suc index)
       (insert_focus \<lparr>fo_user_id = user, fo_focus_date = date, fo_task_id = i, fo_position = int index + 1\<rparr> w)"

definition replace_focus :: "uuid \<Rightarrow> date \<Rightarrow> uuid list \<Rightarrow> world \<Rightarrow> world" where
  "replace_focus user date task_ids w =
     insert_focus_rows user date task_ids 0
       (delete_focus (\<lambda>f. fo_user_id f = user \<and> fo_focus_date f = date) w)"

definition update_daily_focus :: "uuid \<Rightarrow> date \<Rightarrow> update_daily_focus_request \<Rightarrow> world \<Rightarrow> daily_plan store_result" where
  "update_daily_focus user date req w =
     bind_res (require (length (uf_task_ids req) \<le> 3)
       (Validation ''a daily plan cannot contain more than three focus tasks'')) (\<lambda>_.
     bind_res (require (card (set (uf_task_ids req)) = length (uf_task_ids req))
       (Validation ''focus task identifiers must be unique'')) (\<lambda>_.
     bind_res (require (user_exists user w) Unauthorized) (\<lambda>_.
     bind_res (require (length (filter (\<lambda>t. t_user_id t = user \<and> t_id t \<in> set (uf_task_ids req)
         \<and> t_status t \<noteq> Completed) (tasks w)) = length (uf_task_ids req))
       (Validation ''focus tasks must reference the user's incomplete tasks'')) (\<lambda>_.
     let w = bump_revision user (focus_scope date) w;
         w = replace_focus user date (uf_task_ids req) w
     in Inr (store_daily_plan user date w, w)))))"

definition lock_review_selection :: "uuid \<Rightarrow> world \<Rightarrow> world" where
  "lock_review_selection user w =
     (if \<exists>g \<in> set (guard_revisions w). gr_user_id g = user \<and> gr_scope g = ''review-selection'' then w
      else w\<lparr>guard_revisions := guard_revisions w @ [\<lparr>gr_user_id = user, gr_scope = ''review-selection'', gr_revision = 0\<rparr>]\<rparr>)"

definition open_focus :: "uuid \<Rightarrow> world \<Rightarrow> focus_row \<Rightarrow> bool" where
  "open_focus user w f \<longleftrightarrow>
     fo_user_id f = user \<and> (case focus_task w f of None \<Rightarrow> False | Some t \<Rightarrow> t_status t \<noteq> Completed)"

definition previous_unfinished_focus_date :: "uuid \<Rightarrow> date \<Rightarrow> world \<Rightarrow> date option" where
  "previous_unfinished_focus_date user review_date w =
     (case map fo_focus_date (filter (\<lambda>f. open_focus user w f \<and> fo_focus_date f < review_date) (focus_tasks w)) of
        [] \<Rightarrow> None
      | d # ds \<Rightarrow> Some (fold max ds d))"

definition focus_tasks_for_date :: "uuid \<Rightarrow> date \<Rightarrow> world \<Rightarrow> task_row list" where
  "focus_tasks_for_date user date w =
     List.map_filter (focus_task w) (filter (open_focus user w) (focus_of user date w))"

definition with_tasks :: "review_row \<Rightarrow> task_row list \<Rightarrow> daily_review" where
  "with_tasks r ts =
     \<lparr>dr_id = rv_id r, dr_review_date = rv_review_date r, dr_status = rv_status r,
      dr_unfinished_tasks = map task.truncate ts, dr_started_at = rv_started_at r,
      dr_completed_at = rv_completed_at r, dr_version = rv_version r\<rparr>"

definition review_by_date :: "uuid \<Rightarrow> date \<Rightarrow> world \<Rightarrow> review_row option" where
  "review_by_date user date w = row_by (\<lambda>r. rv_user_id r = user \<and> rv_review_date r = date) (reviews w)"

text \<open>The trigger on \<open>daily_reviews\<close>: both guard revisions advance.\<close>

definition review_written :: "uuid \<Rightarrow> date \<Rightarrow> world \<Rightarrow> world" where
  "review_written user date w = trigger_revision user (focus_scope date) (trigger_revision user ''review-selection'' w)"

definition open_review :: "uuid \<Rightarrow> date \<Rightarrow> world \<Rightarrow> review_row \<times> world" where
  "open_review user date w =
     (let (i, w) = new_uuid w
      in case review_by_date user date w of
           Some r \<Rightarrow> (r, w)
         | None \<Rightarrow>
             (let r = \<lparr>rv_id = i, rv_user_id = user, rv_review_date = date, rv_status = Open,
                       rv_started_at = now w, rv_completed_at = None, rv_version = 1\<rparr>
              in (r, review_written user date (w\<lparr>reviews := reviews w @ [r]\<rparr>))))"

definition start_daily_review :: "uuid \<Rightarrow> date \<Rightarrow> bool \<Rightarrow> world \<Rightarrow> daily_review option \<times> world" where
  "start_daily_review user review_date manual w =
     (let (s, w) = ensure_settings user w
      in if \<not> manual \<and> \<not> us_automatic_daily_review s then (None, w)
         else
           (let w = lock_review_selection user w
            in case previous_unfinished_focus_date user review_date w of
                 None \<Rightarrow> (None, w)
               | Some previous_date \<Rightarrow>
                   (let (row, w) = open_review user review_date w
                    in (Some (with_tasks row (focus_tasks_for_date user previous_date w)), w))))"

text \<open>The loop over the decisions: tasks to carry forward are collected, rescheduled ones get their deadline.\<close>

fun apply_decisions :: "uuid \<Rightarrow> review_task_decision list \<Rightarrow> uuid list \<Rightarrow> world \<Rightarrow> uuid list store_result" where
  "apply_decisions user [] carry_ids w = Inr (carry_ids, w)"
| "apply_decisions user (d # ds) carry_ids w =
     (case rd_action d of
        CarryForward \<Rightarrow> apply_decisions user ds (carry_ids @ [rd_task_id d]) w
      | Reschedule \<Rightarrow>
          bind_res (ok_or (rd_due_at d) (Validation ''rescheduled review tasks require a new deadline'')) (\<lambda>due_at.
          apply_decisions user ds carry_ids
            (update_tasks (\<lambda>t. t_id t = rd_task_id d \<and> t_user_id t = user)
               (\<lambda>t. t\<lparr>t_due_at := Some due_at, t_updated_at := now w, t_version := t_version t + 1\<rparr>) w))
      | Remove \<Rightarrow> apply_decisions user ds carry_ids w)"

definition prepend_existing :: "uuid list \<Rightarrow> uuid list \<Rightarrow> uuid list" where
  "prepend_existing existing_ids carry_ids =
     remdups_adj (fold (\<lambda>i ids. if i \<in> set ids then ids else i # ids) existing_ids carry_ids)"

definition finish_review :: "uuid \<Rightarrow> review_row \<Rightarrow> int \<Rightarrow> world \<Rightarrow> review_row store_result" where
  "finish_review user review expected w =
     (let hit = (\<lambda>r. rv_id r = rv_id review \<and> rv_user_id r = user \<and> rv_version r = expected);
          close = (\<lambda>r. r\<lparr>rv_status := ReviewCompleted, rv_completed_at := Some (now w), rv_version := rv_version r + 1\<rparr>)
      in case row_by hit (reviews w) of
           None \<Rightarrow> Inl (Database (OtherSqlxError ''RowNotFound''))
         | Some r \<Rightarrow> Inr (close r, review_written user (rv_review_date r)
                                     (w\<lparr>reviews := update_where hit close (reviews w)\<rparr>)))"

definition complete_daily_review ::
  "uuid \<Rightarrow> date \<Rightarrow> complete_daily_review_request \<Rightarrow> world \<Rightarrow> daily_review store_result" where
  "complete_daily_review user review_date req w =
     (let w = bump_revision user ''review-selection'' (lock_review_selection user w)
      in bind_res (ok_or (review_by_date user review_date w) (NotFound ''daily review'')) (\<lambda>review.
         bind_res (require (rv_status review \<noteq> ReviewCompleted) (Conflict ''daily review is already completed'')) (\<lambda>_.
         bind_res (require (rv_version review = cd_expected_version req)
           (Conflict (''daily review changed since version '' @ show_int (cd_expected_version req)
              @ ''; current version is '' @ show_int (rv_version review)))) (\<lambda>_.
         bind_res (ok_or (previous_unfinished_focus_date user review_date w)
           (Conflict ''there are no unfinished focus tasks'')) (\<lambda>previous_date.
         let w = bump_revision user (focus_scope previous_date) w;
             w = bump_revision user (focus_scope review_date) w;
             unfinished_tasks = focus_tasks_for_date user previous_date w;
             decided = map rd_task_id (cd_decisions req)
         in bind_res (require (card (set decided) = length decided \<and> set decided = set (map t_id unfinished_tasks))
              (Validation ''a decision is required for every unfinished focus task'')) (\<lambda>_.
            bind_res (apply_decisions user (cd_decisions req) [] w) (\<lambda>(carry_ids, w).
            let existing_ids = map fo_task_id (focus_of user review_date w);
                carry_ids = prepend_existing existing_ids carry_ids
            in bind_res (require (length carry_ids \<le> 3)
                 (Validation ''carrying these tasks forward would exceed three focus tasks'')) (\<lambda>_.
               bind_res (finish_review user review (cd_expected_version req) (replace_focus user review_date carry_ids w)) (\<lambda>(completed, w).
               Inr (with_tasks completed unfinished_tasks, w))))))))))"

section \<open>Focus rows\<close>

abbreviation focus_day :: "uuid \<Rightarrow> date \<Rightarrow> focus_row \<Rightarrow> bool" where
  "focus_day u d f \<equiv> fo_user_id f = u \<and> fo_focus_date f = d"

definition focus_rows :: "uuid \<Rightarrow> date \<Rightarrow> uuid list \<Rightarrow> nat \<Rightarrow> focus_row list" where
  "focus_rows u d ids n = map (\<lambda>(i, k). \<lparr>fo_user_id = u, fo_focus_date = d, fo_task_id = i, fo_position = int k + 1\<rparr>)
     (zip ids [n..<n + length ids])"

lemma insert_focus_rows_effect:
  "focus_tasks (insert_focus_rows u d ids n w) = focus_tasks w @ focus_rows u d ids n
   \<and> tasks (insert_focus_rows u d ids n w) = tasks w \<and> reviews (insert_focus_rows u d ids n w) = reviews w
   \<and> now (insert_focus_rows u d ids n w) = now w"
proof (induction ids arbitrary: n w)
  case (Cons i ids)
  then show ?case by (simp add: focus_rows_def upt_conv_Cons del: upt_Suc)
qed (simp add: focus_rows_def)

lemma replace_focus_effect [simp]:
  "focus_tasks (replace_focus u d ids w) = delete_where (focus_day u d) (focus_tasks w) @ focus_rows u d ids 0"
  "tasks (replace_focus u d ids w) = tasks w" "reviews (replace_focus u d ids w) = reviews w" "now (replace_focus u d ids w) = now w"
  by (simp_all add: replace_focus_def insert_focus_rows_effect)

lemma focus_rows_fields:
  "length (focus_rows u d ids n) = length ids" "map fo_task_id (focus_rows u d ids n) = ids"
  "map fo_position (focus_rows u d ids n) = map (\<lambda>k. int k + 1) [n..<n + length ids]"
  "\<forall>f \<in> set (focus_rows u d ids n). focus_day u d f"
  by (auto simp: focus_rows_def split_beta comp_def map_nth dest: set_zip_rightD intro: nth_equalityI)

lemma focus_of_replace:
  "map fo_task_id (focus_of u d (replace_focus u d ids w)) = ids"
  "(u', d') \<noteq> (u, d) \<Longrightarrow> focus_of u' d' (replace_focus u d ids w) = focus_of u' d' w"
proof -
  have "filter (focus_day u d) (focus_rows u d ids 0) = focus_rows u d ids 0"
    using focus_rows_fields(4) [of u d ids 0] by (simp add: filter_id_conv)
  moreover have "sort_key fo_position (focus_rows u d ids 0) = focus_rows u d ids 0"
  proof (rule sort_key_id_if_sorted)
    show "sorted (map fo_position (focus_rows u d ids 0))"
      unfolding focus_rows_fields(3) by (auto simp: sorted_map sorted_wrt_iff_nth_less)
  qed
  ultimately show "map fo_task_id (focus_of u d (replace_focus u d ids w)) = ids"
    by (simp add: focus_of_def delete_where_def focus_rows_fields(2))
  assume other: "(u', d') \<noteq> (u, d)"
  have "filter (focus_day u' d') (focus_rows u d ids 0) = []"
    using focus_rows_fields(4) [of u d ids 0] other by (auto simp: filter_empty_conv)
  moreover have "filter (focus_day u' d') (delete_where (focus_day u d) xs) = filter (focus_day u' d') xs" for xs
    unfolding delete_where_def filter_filter using other by (intro filter_cong) auto
  ultimately show "focus_of u' d' (replace_focus u d ids w) = focus_of u' d' w" by (simp add: focus_of_def)
qed

section \<open>At most three focus tasks\<close>

definition day_ok :: "focus_row list \<Rightarrow> bool" where
  "day_ok fs \<longleftrightarrow> length fs \<le> 3 \<and> distinct (map fo_task_id fs) \<and> distinct (map fo_position fs)
     \<and> (\<forall>f \<in> set fs. 1 \<le> fo_position f \<and> fo_position f \<le> 3)"

definition focus_ok :: "world \<Rightarrow> bool" where
  "focus_ok w \<longleftrightarrow> (\<forall>u d. day_ok (filter (focus_day u d) (focus_tasks w)))"

lemma day_ok_filter:
  assumes "day_ok fs"
  shows "day_ok (filter p fs)"
proof -
  have "length (filter p fs) \<le> 3" using assms le_trans [OF length_filter_le] by (auto simp: day_ok_def)
  with assms show ?thesis by (auto simp: day_ok_def distinct_map intro: inj_on_subset)
qed

lemma focus_ok_filter:
  assumes "focus_ok w" and "focus_tasks w' = filter p (focus_tasks w)"
  shows "focus_ok w'"
  unfolding focus_ok_def
proof (intro allI)
  fix u d
  have "filter (focus_day u d) (focus_tasks w') = filter p (filter (focus_day u d) (focus_tasks w))"
    unfolding assms(2) filter_filter by (rule filter_cong) auto
  then show "day_ok (filter (focus_day u d) (focus_tasks w'))"
    using assms(1) day_ok_filter by (simp only: focus_ok_def)
qed

lemma focus_ok_same: "focus_ok w \<Longrightarrow> focus_tasks w' = focus_tasks w \<Longrightarrow> focus_ok w'"
  by (simp add: focus_ok_def)

lemma focus_ok_replace:
  assumes "focus_ok w" and "length ids \<le> 3" and "distinct ids"
  shows "focus_ok (replace_focus u d ids w)"
  unfolding focus_ok_def
proof (intro allI)
  fix u' d'
  show "day_ok (filter (focus_day u' d') (focus_tasks (replace_focus u d ids w)))"
  proof (cases "(u', d') = (u, d)")
    case True
    have "day_ok (focus_rows u d ids 0)"
      unfolding day_ok_def focus_rows_fields(1-3)
    proof (intro conjI ballI)
      show "distinct (map (\<lambda>k. int k + 1) [0..<0 + length ids])" by (simp add: distinct_map inj_on_def)
      fix f assume "f \<in> set (focus_rows u d ids 0)"
      then have "fo_position f \<in> set (map (\<lambda>k. int k + 1) [0..<0 + length ids])"
        unfolding focus_rows_fields(3) [of u d ids 0, symmetric] by simp
      then show "1 \<le> fo_position f" "fo_position f \<le> 3" using assms(2) by auto
    qed (use assms in simp_all)
    then show ?thesis using True focus_rows_fields(4) [of u d ids 0]
      by (simp add: delete_where_def filter_id_conv)
  next
    case False
    then have "filter (focus_day u' d') (focus_rows u d ids 0) = []"
      using focus_rows_fields(4) [of u d ids 0] by (auto simp: filter_empty_conv)
    moreover have "filter (focus_day u' d') (delete_where (focus_day u d) (focus_tasks w)) = filter (focus_day u' d') (focus_tasks w)"
      unfolding delete_where_def filter_filter using False by (intro filter_cong) auto
    ultimately show ?thesis using assms(1) by (simp add: focus_ok_def)
  qed
qed

section \<open>Decisions\<close>

lemma prepend_existing_eq:
  assumes "distinct existing" and "distinct carry"
  shows "prepend_existing existing carry = rev (filter (\<lambda>i. i \<notin> set carry) existing) @ carry" and "distinct (prepend_existing existing carry)"
proof -
  have fold: "fold (\<lambda>i ids. if i \<in> set ids then ids else i # ids) xs ids = rev (filter (\<lambda>i. i \<notin> set ids) xs) @ ids"
    if "distinct xs" for xs ids :: "uuid list"
    using that
  proof (induction xs arbitrary: ids)
    case (Cons x xs)
    have "filter (\<lambda>i. i \<notin> set (x # ids)) xs = filter (\<lambda>i. i \<notin> set ids) xs"
      using Cons.prems by (intro filter_cong) auto
    with Cons show ?case by simp
  qed simp
  have d: "distinct (rev (filter (\<lambda>i. i \<notin> set carry) existing) @ carry)" using assms by auto
  show eq: "prepend_existing existing carry = rev (filter (\<lambda>i. i \<notin> set carry) existing) @ carry"
    unfolding prepend_existing_def fold [OF assms(1)] using d by (intro remdups_adj_distinct)
  show "distinct (prepend_existing existing carry)" unfolding eq by (rule d)
qed

text \<open>The tasks that the decisions carry forward, and the tasks they leave with a new deadline.\<close>

definition carried :: "review_task_decision list \<Rightarrow> uuid list" where
  "carried ds = map rd_task_id (filter (\<lambda>d. rd_action d = CarryForward) ds)"

definition rescheduled :: "uuid \<Rightarrow> review_task_decision list \<Rightarrow> timestamp \<Rightarrow> task_row \<Rightarrow> task_row" where
  "rescheduled u ds t r =
     (case row_by (\<lambda>d. rd_task_id d = t_id r \<and> rd_action d = Reschedule) ds of
        Some d \<Rightarrow> if t_user_id r = u then r\<lparr>t_due_at := rd_due_at d, t_updated_at := t, t_version := t_version r + 1\<rparr> else r
      | None \<Rightarrow> r)"

lemma apply_decisions_effect:
  assumes "apply_decisions u ds ids w = Inr (ids', w')" and "distinct (map rd_task_id ds)"
  shows "ids' = ids @ carried ds \<and> tasks w' = map (rescheduled u ds (now w)) (tasks w) \<and> now w' = now w
    \<and> focus_tasks w' = focus_tasks w \<and> reviews w' = reviews w
    \<and> (\<forall>d \<in> set ds. rd_action d = Reschedule \<longrightarrow> rd_due_at d \<noteq> None)"
  using assms
proof (induction u ds ids w rule: apply_decisions.induct)
  case (1 u ids w)
  then show ?case by (simp add: carried_def rescheduled_def row_by_def)
next
  case (2 u d ds ids w)
  have skip: "rescheduled u (d # ds) t = rescheduled u ds t" if "rd_action d \<noteq> Reschedule" for t
    using that by (simp add: rescheduled_def row_by_def fun_eq_iff)
  show ?case
  proof (cases "rd_action d")
    case CarryForward
    with 2 skip show ?thesis by (simp add: carried_def)
  next
    case Remove
    with 2 skip show ?thesis by (simp add: carried_def)
  next
    case Reschedule
    then obtain due where due: "rd_due_at d = Some due" using 2(4) by auto
    let ?w = "update_tasks (\<lambda>t. t_id t = rd_task_id d \<and> t_user_id t = u)
               (\<lambda>t. t\<lparr>t_due_at := Some due, t_updated_at := now w, t_version := t_version t + 1\<rparr>) w"
    have "apply_decisions u ds ids ?w = Inr (ids', w')" using 2(4) Reschedule due by simp
    with 2(2) [OF Reschedule] due 2(5) have IH: "ids' = ids @ carried ds \<and> tasks w' = map (rescheduled u ds (now w)) (tasks ?w) \<and> now w' = now w
      \<and> focus_tasks w' = focus_tasks w \<and> reviews w' = reviews w \<and> (\<forall>d \<in> set ds. rd_action d = Reschedule \<longrightarrow> rd_due_at d \<noteq> None)"
      by auto
    have other: "row_by (\<lambda>x. rd_task_id x = rd_task_id d \<and> rd_action x = Reschedule) ds = None"
      using 2(5) by (auto simp: row_by_None image_iff)
    have "rescheduled u ds (now w) (if t_id r = rd_task_id d \<and> t_user_id r = u
        then r\<lparr>t_due_at := Some due, t_updated_at := now w, t_version := t_version r + 1\<rparr> else r) = rescheduled u (d # ds) (now w) r" for r
      using Reschedule due other by (auto simp: rescheduled_def row_by_def split: option.split)
    then have "map (rescheduled u ds (now w)) (tasks ?w) = map (rescheduled u (d # ds) (now w)) (tasks w)"
      by (simp add: update_where_def)
    with IH Reschedule due show ?thesis by (simp add: carried_def)
  qed
qed

section \<open>Reviews\<close>

lemma lock_review_selection_frame [simp]:
  "focus_tasks (lock_review_selection u w) = focus_tasks w" "tasks (lock_review_selection u w) = tasks w"
  "reviews (lock_review_selection u w) = reviews w" "now (lock_review_selection u w) = now w"
  by (simp_all add: lock_review_selection_def)

lemma review_written_frame [simp]:
  "focus_tasks (review_written u d w) = focus_tasks w" "tasks (review_written u d w) = tasks w"
  "reviews (review_written u d w) = reviews w"
  by (simp_all add: review_written_def)

lemma focus_cong:
  assumes "focus_tasks w' = focus_tasks w" and "tasks w' = tasks w"
  shows "focus_of u d w' = focus_of u d w" "previous_unfinished_focus_date u d w' = previous_unfinished_focus_date u d w"
    "focus_tasks_for_date u d w' = focus_tasks_for_date u d w"
proof -
  have t: "focus_task w' = focus_task w" using assms by (simp add: focus_task_def fun_eq_iff)
  then have "open_focus u w' = open_focus u w" by (simp add: open_focus_def fun_eq_iff)
  with t assms show "focus_of u d w' = focus_of u d w"
    "previous_unfinished_focus_date u d w' = previous_unfinished_focus_date u d w"
    "focus_tasks_for_date u d w' = focus_tasks_for_date u d w"
    by (simp_all add: focus_of_def previous_unfinished_focus_date_def focus_tasks_for_date_def)
qed

lemma complete_effect:
  assumes "complete_daily_review u date req w = Inr (dr, w')"
  obtains r prev carry w2 completed where
    "review_by_date u date w = Some r" "rv_status r \<noteq> ReviewCompleted" "rv_version r = cd_expected_version req"
    "previous_unfinished_focus_date u date w = Some prev" "distinct (map rd_task_id (cd_decisions req))"
    "set (map rd_task_id (cd_decisions req)) = t_id ` set (focus_tasks_for_date u prev w)"
    "carry = prepend_existing (map fo_task_id (focus_of u date w)) (carried (cd_decisions req))" "length carry \<le> 3"
    "tasks w2 = map (rescheduled u (cd_decisions req) (now w)) (tasks w)" "focus_tasks w2 = focus_tasks w" "reviews w2 = reviews w"
    "finish_review u r (cd_expected_version req) (replace_focus u date carry w2) = Inr (completed, w')"
    "dr = with_tasks completed (focus_tasks_for_date u prev w)"
    "\<forall>d \<in> set (cd_decisions req). rd_action d = Reschedule \<longrightarrow> rd_due_at d \<noteq> None"
proof -
  let ?w1 = "bump_revision u ''review-selection'' (lock_review_selection u w)"
  let ?w3 = "\<lambda>prev. bump_revision u (focus_scope date) (bump_revision u (focus_scope prev) ?w1)"
  let ?ds = "cd_decisions req"
  from assms obtain r prev cw fw where
    r: "review_by_date u date ?w1 = Some r" "rv_status r \<noteq> ReviewCompleted" "rv_version r = cd_expected_version req"
    and prev: "previous_unfinished_focus_date u date ?w1 = Some prev"
    and dec: "card (set (map rd_task_id ?ds)) = length (map rd_task_id ?ds)
       \<and> set (map rd_task_id ?ds) = set (map t_id (focus_tasks_for_date u prev (?w3 prev)))"
    and app: "apply_decisions u ?ds [] (?w3 prev) = Inr cw"
    and len: "length (prepend_existing (map fo_task_id (focus_of u date (snd cw))) (fst cw)) \<le> 3"
    and fin: "finish_review u r (cd_expected_version req) (replace_focus u date
          (prepend_existing (map fo_task_id (focus_of u date (snd cw))) (fst cw)) (snd cw)) = Inr fw"
    and dr: "Inr (with_tasks (fst fw) (focus_tasks_for_date u prev (?w3 prev)), snd fw) = (Inr (dr, w') :: daily_review store_result)"
    unfolding complete_daily_review_def Let_def case_prod_beta bind_res_eq_Inr require_eq_Inr ok_or_eq_Inr
    by (elim exE conjE) (rule that, assumption, assumption, assumption, assumption, simp, assumption+)
  obtain ids w2 where cw: "cw = (ids, w2)" by (cases cw)
  obtain completed w4 where fw: "fw = (completed, w4)" by (cases fw)
  have dist: "distinct (map rd_task_id ?ds)" using dec by (intro card_distinct) blast
  have eff: "ids = carried ?ds" "tasks w2 = map (rescheduled u ?ds (now w)) (tasks w)" "focus_tasks w2 = focus_tasks w" "reviews w2 = reviews w"
    "\<forall>d \<in> set ?ds. rd_action d = Reschedule \<longrightarrow> rd_due_at d \<noteq> None"
    using apply_decisions_effect [OF app [unfolded cw] dist] by simp_all
  have fo: "focus_of u date w2 = focus_of u date w" using eff(3) by (simp add: focus_of_def)
  have c1: "previous_unfinished_focus_date u date ?w1 = previous_unfinished_focus_date u date w"
    "focus_tasks_for_date u prev (?w3 prev) = focus_tasks_for_date u prev w" by (rule focus_cong; simp)+
  have rv: "review_by_date u date ?w1 = review_by_date u date w" by (simp add: review_by_date_def)
  show ?thesis
    by (rule that [of r prev "prepend_existing (map fo_task_id (focus_of u date w)) (carried ?ds)" w2 completed])
      (use r prev dec dist len fin dr eff fo c1 rv in \<open>simp_all add: cw fw\<close>)
qed

lemma row_by_update_other:
  "(\<And>r. q r \<Longrightarrow> p (f r) = p r) \<Longrightarrow> row_by p (update_where q f rs) = map_option (\<lambda>r. if q r then f r else r) (row_by p rs)"
  by (induction rs) (auto simp: row_by_def update_where_def)

text \<open>
  C21. A completed review does what was decided. It is accepted only for an open review at the expected version, with exactly one
  decision for every unfinished focus task of the last planned day. Then the tasks carried forward
  follow the focus tasks the day already had, those in reverse order, all together at most three; the rescheduled tasks have their
  new deadlines and no other task changes; the review is closed, and completing it
  again is refused.
\<close>

theorem completed_reviews_apply_the_decisions:
  assumes ok: "focus_ok w" and res: "complete_daily_review u date req w = Inr (dr, w')"
  shows "(\<exists>r prev. review_by_date u date w = Some r \<and> rv_status r = Open \<and> rv_version r = cd_expected_version req
        \<and> previous_unfinished_focus_date u date w = Some prev \<and> distinct (map rd_task_id (cd_decisions req))
        \<and> set (map rd_task_id (cd_decisions req)) = t_id ` set (focus_tasks_for_date u prev w))
    \<and> map fo_task_id (focus_of u date w') = rev (filter (\<lambda>i. i \<notin> set (carried (cd_decisions req))) (map fo_task_id (focus_of u date w)))
        @ carried (cd_decisions req)
    \<and> length (focus_of u date w') \<le> 3
    \<and> tasks w' = map (rescheduled u (cd_decisions req) (now w)) (tasks w)
    \<and> complete_daily_review u date req' w' = Inl (Conflict ''daily review is already completed'')"
proof (rule complete_effect [OF res])
  fix r prev carry w2 completed
  assume r: "review_by_date u date w = Some r" "rv_status r \<noteq> ReviewCompleted" "rv_version r = cd_expected_version req"
    and prev: "previous_unfinished_focus_date u date w = Some prev" and dist: "distinct (map rd_task_id (cd_decisions req))"
    and dec: "set (map rd_task_id (cd_decisions req)) = t_id ` set (focus_tasks_for_date u prev w)"
    and carry: "carry = prepend_existing (map fo_task_id (focus_of u date w)) (carried (cd_decisions req))" "length carry \<le> 3"
    and w2: "tasks w2 = map (rescheduled u (cd_decisions req) (now w)) (tasks w)" "focus_tasks w2 = focus_tasks w" "reviews w2 = reviews w"
    and fin: "finish_review u r (cd_expected_version req) (replace_focus u date carry w2) = Inr (completed, w')"
  let ?hit = "\<lambda>x. rv_id x = rv_id r \<and> rv_user_id x = u \<and> rv_version x = cd_expected_version req"
  let ?close = "\<lambda>x. x\<lparr>rv_status := ReviewCompleted, rv_completed_at := Some (now w2), rv_version := rv_version x + 1\<rparr>"
  have w': "tasks w' = tasks w2" "focus_tasks w' = focus_tasks (replace_focus u date carry w2)" "reviews w' = update_where ?hit ?close (reviews w)"
    using fin w2 by (auto simp: finish_review_def Let_def split: option.splits)
  have day: "distinct (map fo_task_id (focus_of u date w))"
    using ok unfolding focus_ok_def day_ok_def focus_of_def by (simp add: distinct_map)
  have cd: "distinct (carried (cd_decisions req))" using dist by (auto simp: carried_def distinct_map intro: inj_on_subset)
  note carry' = carry(1) [unfolded prepend_existing_eq(1) [OF day cd]]
  have "focus_of u date w' = focus_of u date (replace_focus u date carry w2)" using w'(2) by (simp add: focus_of_def)
  then have focus: "map fo_task_id (focus_of u date w') = carry" by (simp only: focus_of_replace(1))
  then have "length (focus_of u date w') = length carry" by (metis length_map)
  moreover have "review_by_date u date w' = Some (?close r)"
  proof -
    have "rv_user_id r = u" using r(1) by (auto simp: review_by_date_def dest: row_by_Some)
    then have "?hit r" using r(3) by simp
    moreover have "row_by (\<lambda>x. rv_user_id x = u \<and> rv_review_date x = date) (update_where ?hit ?close (reviews w))
       = map_option (\<lambda>x. if ?hit x then ?close x else x) (row_by (\<lambda>x. rv_user_id x = u \<and> rv_review_date x = date) (reviews w))"
      by (rule row_by_update_other) simp
    ultimately show ?thesis using r(1) by (simp add: review_by_date_def w')
  qed
  then have "complete_daily_review u date req' w' = Inl (Conflict ''daily review is already completed'')"
    by (simp add: complete_daily_review_def review_by_date_def Let_def)
  moreover have "rv_status r = Open" using r(2) by (cases "rv_status r") simp_all
  ultimately show ?thesis using r prev dist dec carry(2) focus carry' w'(1) w2(1) by auto
qed

definition example_review :: world where
  "example_review =
     (let task = (\<lambda>i. \<lparr>t_id = i, t_project_id = None, t_parent_task_id = None, t_title = ''t'', t_description = [],
            t_due_at = None, t_scheduled_start = None, t_scheduled_end = None, t_status = Todo, t_priority = Medium,
            t_recurrence = NoRecurrence, t_labels = [], t_remind_at = None, t_position = 1024, t_completed_at = None,
            t_created_at = 0, t_updated_at = 0, t_version = 1, t_user_id = 7, t_recurrence_source_id = None,
            t_recurrence_defaults = None, t_recurrence_project_id = None\<rparr>)
      in empty_world\<lparr>tasks := [task 1, task 2, task 3],
           focus_tasks := [\<lparr>fo_user_id = 7, fo_focus_date = 10, fo_task_id = 1, fo_position = 1\<rparr>,
             \<lparr>fo_user_id = 7, fo_focus_date = 11, fo_task_id = 2, fo_position = 1\<rparr>,
             \<lparr>fo_user_id = 7, fo_focus_date = 11, fo_task_id = 3, fo_position = 2\<rparr>],
           reviews := [\<lparr>rv_id = 5, rv_user_id = 7, rv_review_date = 11, rv_status = Open, rv_started_at = 0,
             rv_completed_at = None, rv_version = 1\<rparr>]\<rparr>)"

definition example_decisions :: complete_daily_review_request where
  "example_decisions = \<lparr>cd_decisions = [\<lparr>rd_task_id = 1, rd_action = CarryForward, rd_due_at = None\<rparr>], cd_expected_version = 1\<rparr>"

lemma example_review_runs:
  obtains dr w' where "complete_daily_review 7 11 example_decisions example_review = Inr (dr, w')"
proof -
  have "case complete_daily_review 7 11 example_decisions example_review of Inl _ \<Rightarrow> False | Inr _ \<Rightarrow> True" by code_simp
  then show ?thesis using that by (auto split: sum.splits)
qed

lemma example_review_ok: "focus_ok example_review"
  by (auto simp: focus_ok_def day_ok_def example_review_def Let_def)

theorem completed_reviews_apply_the_decisions_witness:
  "\<exists>dr w'. complete_daily_review 7 11 example_decisions example_review = Inr (dr, w')
    \<and> map fo_task_id (focus_of 7 11 w') = [3, 2, 1]"
proof (rule example_review_runs)
  fix dr w'
  assume r: "complete_daily_review 7 11 example_decisions example_review = Inr (dr, w')"
  have "map fo_task_id (focus_of 7 11 w') = [3, 2, 1]"
    using completed_reviews_apply_the_decisions [OF example_review_ok r]
    by (simp add: example_decisions_def carried_def focus_of_def example_review_def Let_def)
  with r show ?thesis by (intro exI [of _ dr] exI [of _ w']) simp
qed

section \<open>Runs\<close>

text \<open>
  The operations of planning and reviewing on the focus tasks; \<open>cascade\<close> is the deletion of tasks or users. The rows
  that an undone task deletion inserts again (\<open>restore_focus\<close>) are not a step here: they are checked by the same
  UNIQUE and CHECK constraints of the table.
\<close>

inductive focus_step :: "world \<Rightarrow> unit list \<Rightarrow> world \<Rightarrow> bool" where
  plan: "update_daily_focus u d req w = Inr (p, w') \<Longrightarrow> focus_step w [] w'"
| start: "start_daily_review u d manual w = (r, w') \<Longrightarrow> focus_step w [] w'"
| complete: "complete_daily_review u d creq w = Inr (dr, w') \<Longrightarrow> focus_step w [] w'"
| cascade: "focus_tasks w' = filter p (focus_tasks w) \<Longrightarrow> focus_step w [] w'"

lemma start_focus_tasks: "start_daily_review u d manual w = (r, w') \<Longrightarrow> focus_tasks w' = focus_tasks w"
  by (auto simp: start_daily_review_def ensure_settings_def open_review_def new_uuid_def Let_def split: option.splits if_splits prod.splits)

lemma focus_ok_complete:
  assumes ok: "focus_ok w" and res: "complete_daily_review u d req w = Inr (dr, w')"
  shows "focus_ok w'"
  using res
proof (rule complete_effect)
  fix r prev carry w2 completed
  assume dist: "distinct (map rd_task_id (cd_decisions req))"
    and carry: "carry = prepend_existing (map fo_task_id (focus_of u d w)) (carried (cd_decisions req))" "length carry \<le> 3"
    and w2: "focus_tasks w2 = focus_tasks w"
    and fin: "finish_review u r (cd_expected_version req) (replace_focus u d carry w2) = Inr (completed, w')"
  have day: "distinct (map fo_task_id (focus_of u d w))"
    using ok unfolding focus_ok_def day_ok_def focus_of_def by (simp add: distinct_map)
  have cd: "distinct (carried (cd_decisions req))" using dist by (auto simp: carried_def distinct_map intro: inj_on_subset)
  have "focus_ok (replace_focus u d carry w2)"
    by (rule focus_ok_replace [OF focus_ok_same [OF ok w2] carry(2)]) (simp only: carry(1) prepend_existing_eq(2) [OF day cd])
  moreover have "focus_tasks w' = focus_tasks (replace_focus u d carry w2)"
    using fin by (auto simp: finish_review_def Let_def split: option.splits)
  ultimately show ?thesis by (rule focus_ok_same)
qed

text \<open>
  C20. In every run of planning, reviewing and deleting, every day of every user has at most three focus tasks, no task
  twice, at distinct positions between one and three, so that the constraints of the table are never violated.
\<close>

theorem at_most_three_focus_tasks:
  assumes "steps focus_step w0 ls w" and "focus_tasks w0 = []"
  shows "length (focus_of u d w) \<le> 3 \<and> distinct (map fo_task_id (focus_of u d w)) \<and> distinct (map fo_position (focus_of u d w))
    \<and> (\<forall>f \<in> set (focus_of u d w). 1 \<le> fo_position f \<and> fo_position f \<le> 3)"
proof -
  have "focus_ok w"
  proof (rule steps_invariant [OF assms(1)])
    show "focus_ok w0" using assms(2) by (simp add: focus_ok_def day_ok_def)
    show "focus_ok t" if "focus_step s ys t" "focus_ok s" for s ys t
      using that
    proof cases
      case (plan u d req p)
      then have t: "t = replace_focus u d (uf_task_ids req) (bump_revision u (focus_scope d) s)" "length (uf_task_ids req) \<le> 3" "distinct (uf_task_ids req)"
        by (auto simp: update_daily_focus_def Let_def card_distinct)
      show ?thesis unfolding t(1) by (rule focus_ok_replace [OF focus_ok_same [OF that(2)] t(2,3)]) simp
    next
      case (start u d manual r)
      then show ?thesis using start_focus_tasks focus_ok_same that(2) by blast
    next
      case (complete u d creq dr)
      then show ?thesis using focus_ok_complete that(2) by blast
    next
      case (cascade p)
      then show ?thesis using focus_ok_filter that(2) by blast
    qed
  qed
  then have "day_ok (filter (focus_day u d) (focus_tasks w))" by (simp add: focus_ok_def)
  then show ?thesis by (simp add: day_ok_def focus_of_def distinct_map)
qed

theorem at_most_three_focus_tasks_witness:
  "\<exists>w. steps focus_step (example_review\<lparr>focus_tasks := [], users := [new_user 7 None ''a'' ''a'' None 0]\<rparr>) [] w
    \<and> length (focus_of 7 11 w) = 2 \<and> distinct (map fo_task_id (focus_of 7 11 w))"
proof -
  let ?w = "example_review\<lparr>focus_tasks := [], users := [new_user 7 None ''a'' ''a'' None 0]\<rparr>"
  obtain p w where r: "update_daily_focus 7 11 \<lparr>uf_task_ids = [3, 1]\<rparr> ?w = Inr (p, w)" "w = replace_focus 7 11 [3, 1] (bump_revision 7 (focus_scope 11) ?w)"
    by (simp add: update_daily_focus_def example_review_def user_exists_def new_user_def Let_def)
  then have run: "steps focus_step ?w [] w" by (intro steps_one focus_step.plan)
  have "map fo_task_id (focus_of 7 11 w) = [3, 1]" unfolding r(2) by (rule focus_of_replace(1))
  then have "length (focus_of 7 11 w) = 2" by (metis length_map length_Cons list.size(3) numeral_2_eq_2)
  with run at_most_three_focus_tasks [OF run, of 7 11] show ?thesis by auto
qed

end
