(* ===== verification/RateLimit.thy ===== *)
theory RateLimit
  imports Errors "HOL-Library.AList"
begin

text \<open>
  \<open>rate_limit.rs\<close>: the sliding-window limiter behind login attempts, reads, writes and user
  actions. The shared \<open>HashMap\<close> of attempt queues is an association list with distinct keys;
  an \<open>Instant\<close> is an integer number of nanoseconds; a check returns its verdict and the new
  state, because the code prunes the queue even when it refuses. The mutex is taken for the
  whole check and nothing panics under it, so a check is one atomic step. The code reads the clock before
  it takes the mutex; the properties assume the checks in the order of these readings.

  The contract is the locale \<open>sliding_window\<close>; its two client theorems (decisions equal those
  of an unbounded log, no window holds more than \<open>limit\<close> accepted attempts) are proved once
  there and reach the code through the interpretation \<open>login_limiter\<close>.
\<close>

section \<open>The limiter\<close>

record login_rate_limiter =
  rl_attempts :: "(string \<times> int list) list"
  rl_limit :: nat
  rl_window :: int
  rl_message :: string

definition window_60s :: int where
  "window_60s = 60 * 1000000000"

definition default_limiter :: login_rate_limiter where
  "default_limiter =
     \<lparr>rl_attempts = [], rl_limit = 10, rl_window = window_60s,
      rl_message = ''too many authentication attempts; try again shortly''\<rparr>"

definition with_limit :: "nat \<Rightarrow> login_rate_limiter" where
  "with_limit n =
     \<lparr>rl_attempts = [], rl_limit = n, rl_window = window_60s,
      rl_message = ''too many requests; try again shortly''\<rparr>"

definition entries_of :: "(string \<times> int list) list \<Rightarrow> string \<Rightarrow> int list" where
  "entries_of as k = (case map_of as k of None \<Rightarrow> [] | Some es \<Rightarrow> es)"

definition retain_live :: "int \<Rightarrow> (string \<times> int list) list \<Rightarrow> (string \<times> int list) list" where
  "retain_live cutoff as = filter (\<lambda>(k, es). es \<noteq> [] \<and> cutoff < last es) as"

definition check_key ::
  "int \<Rightarrow> string \<Rightarrow> login_rate_limiter \<Rightarrow> unit app_result \<times> login_rate_limiter" where
  "check_key now key l =
     (let cutoff = now - rl_window l;
          entries = dropWhile (\<lambda>t. t \<le> cutoff) (entries_of (rl_attempts l) key)
      in if rl_limit l \<le> length entries
         then (Inl (InvalidRequest 429 (rl_message l)),
               l\<lparr>rl_attempts := AList.update key entries (rl_attempts l)\<rparr>)
         else (let as = AList.update key (entries @ [now]) (rl_attempts l)
               in (Inr (), l\<lparr>rl_attempts := if length as > 10000 then retain_live cutoff as else as\<rparr>)))"

text \<open>
  The key of a client. \<open>headers\<close> gives the first value of a header as raw bytes, \<open>to_str\<close>
  is \<open>HeaderValue::to_str(..).ok()\<close> of the http crate, \<open>peer\<close> the printed peer address.
\<close>

fun split_first :: "char \<Rightarrow> string \<Rightarrow> string" where
  "split_first c [] = []"
| "split_first c (x # xs) = (if x = c then [] else x # split_first c xs)"

definition nonempty :: "string option \<Rightarrow> string option" where
  "nonempty v = (case v of Some (c # s) \<Rightarrow> Some (c # s) | _ \<Rightarrow> None)"

definition client_key ::
  "(string \<Rightarrow> string option) \<Rightarrow> (string \<rightharpoonup> string) \<Rightarrow> string option \<Rightarrow> bool \<Rightarrow> string" where
  "client_key to_str headers peer trust_proxy_headers =
     (let direct = (case peer of Some ip \<Rightarrow> ip | None \<Rightarrow> ''unknown-peer'')
      in if trust_proxy_headers then
           (case nonempty (map_option (\<lambda>v. trim (split_first (CHR '','') v))
                    (Option.bind (headers ''x-forwarded-for'') to_str)) of
              Some v \<Rightarrow> v
            | None \<Rightarrow>
                (case nonempty (Option.bind (headers ''x-real-ip'') to_str) of
                   Some v \<Rightarrow> v
                 | None \<Rightarrow> direct))
         else direct)"

definition check ::
  "(string \<Rightarrow> string option) \<Rightarrow> int \<Rightarrow> (string \<rightharpoonup> string) \<Rightarrow> string option \<Rightarrow> bool
   \<Rightarrow> login_rate_limiter \<Rightarrow> unit app_result \<times> login_rate_limiter" where
  "check to_str now headers peer trust l = check_key now (client_key to_str headers peer trust) l"

section \<open>The contract of a sliding-window limiter\<close>

text \<open>The reference: an unbounded log of the accepted attempts.\<close>

fun run_checks :: "(int \<Rightarrow> 'k \<Rightarrow> 's \<Rightarrow> bool \<times> 's) \<Rightarrow> (int \<times> 'k) list \<Rightarrow> 's \<Rightarrow> bool list" where
  "run_checks step [] s = []"
| "run_checks step ((t, k) # es) s =
     fst (step t k s) # run_checks step es (snd (step t k s))"

definition in_window :: "int \<Rightarrow> int \<Rightarrow> 'k \<Rightarrow> (int \<times> 'k) list \<Rightarrow> int list" where
  "in_window w t k log = map fst (filter (\<lambda>(x, j). j = k \<and> t - w < x) log)"

fun spec_checks :: "nat \<Rightarrow> int \<Rightarrow> (int \<times> 'k) list \<Rightarrow> (int \<times> 'k) list \<Rightarrow> bool list" where
  "spec_checks n w log [] = []"
| "spec_checks n w log ((t, k) # es) =
     (let b = length (in_window w t k log) < n
      in b # spec_checks n w (if b then log @ [(t, k)] else log) es)"

fun accepted :: "(int \<times> 'k) list \<Rightarrow> bool list \<Rightarrow> (int \<times> 'k) list" where
  "accepted (e # es) (b # bs) = (if b then e # accepted es bs else accepted es bs)"
| "accepted _ _ = []"

fun times_from :: "int \<Rightarrow> (int \<times> 'k) list \<Rightarrow> bool" where
  "times_from t [] = True"
| "times_from t ((x, k) # es) = (t \<le> x \<and> times_from x es)"

definition window_count :: "int \<Rightarrow> int \<Rightarrow> 'k \<Rightarrow> (int \<times> 'k) list \<Rightarrow> nat" where
  "window_count w t k log = length (filter (\<lambda>(x, j). j = k \<and> t - w < x \<and> x \<le> t) log)"

lemma in_window_append:
  "in_window w t k (log @ [(x, j)]) = in_window w t k log @ (if j = k \<and> t - w < x then [x] else [])"
  by (simp add: in_window_def)

lemma window_count_shrink:
  assumes "\<forall>(x, j) \<in> set log. x \<le> t" and "t \<le> t'"
  shows "window_count w t' k log \<le> length (in_window w t k log)"
  unfolding window_count_def in_window_def using assms
  by (auto intro!: length_filter_mono)

text \<open>Appending an attempt that fits the window keeps every window within the limit.\<close>

lemma window_bound_snoc:
  assumes bound: "\<forall>t'. window_count w t' k log \<le> n"
    and past: "\<forall>(x, j) \<in> set log. x \<le> t"
    and room: "length (in_window w t j log) < n"
  shows "window_count w t' k (log @ [(t, j)]) \<le> n"
proof (cases "j = k \<and> t' - w < t \<and> t \<le> t'")
  case True
  then have "window_count w t' k (log @ [(t, j)]) = Suc (window_count w t' k log)"
    by (simp add: window_count_def)
  moreover have "window_count w t' k log < n"
    using window_count_shrink [OF past, of t' w j] room True by force
  ultimately show ?thesis by simp
next
  case False
  then have "window_count w t' k (log @ [(t, j)]) = window_count w t' k log"
    by (auto simp: window_count_def)
  with bound show ?thesis by simp
qed

lemma spec_checks_bounded:
  assumes "\<forall>t' k. window_count w t' k log \<le> n" and "\<forall>(x, j) \<in> set log. x \<le> t"
    and "times_from t es"
  shows "window_count w t' k (log @ accepted es (spec_checks n w log es)) \<le> n"
  using assms
proof (induction es arbitrary: log t)
  case Nil
  then show ?case by simp
next
  case (Cons e es)
  obtain x j where e: "e = (x, j)" by (cases e)
  from Cons.prems(3) e have tx: "t \<le> x" and rest: "times_from x es" by auto
  have past: "\<forall>(y, i) \<in> set log. y \<le> x" using Cons.prems(2) tx by fastforce
  show ?case
  proof (cases "length (in_window w x j log) < n")
    case True
    have "\<forall>t' k. window_count w t' k (log @ [(x, j)]) \<le> n"
      using window_bound_snoc [OF _ past True] Cons.prems(1) by blast
    from Cons.IH [OF this _ rest] past True show ?thesis by (simp add: e)
  next
    case False
    from Cons.IH [OF Cons.prems(1) past rest] False show ?thesis by (simp add: e)
  qed
qed

locale sliding_window =
  fixes step :: "int \<Rightarrow> 'k \<Rightarrow> 's \<Rightarrow> bool \<times> 's"
    and live :: "int \<Rightarrow> 's \<Rightarrow> 'k \<Rightarrow> int list"
    and ok :: "int \<Rightarrow> 's \<Rightarrow> bool"
    and limit :: nat
    and window :: int
  assumes accept_iff: "ok t s \<Longrightarrow> fst (step t k s) \<longleftrightarrow> length (live t s k) < limit"
    and live_step: "ok t s \<Longrightarrow> live t (snd (step t k s)) j =
          live t s j @ (if j = k \<and> fst (step t k s) then [t] else [])"
    and live_later: "ok t s \<Longrightarrow> t \<le> t' \<Longrightarrow>
          live t' s k = filter (\<lambda>x. t' - window < x) (live t s k)"
    and ok_step: "ok t s \<Longrightarrow> ok t (snd (step t k s))"
    and ok_later: "ok t s \<Longrightarrow> t \<le> t' \<Longrightarrow> ok t' s"
    and window_pos: "0 < window"
begin

definition agrees :: "int \<Rightarrow> 's \<Rightarrow> (int \<times> 'k) list \<Rightarrow> bool" where
  "agrees t s log \<longleftrightarrow> (\<forall>k. live t s k = in_window window t k log)"

lemma in_window_later:
  "t \<le> t' \<Longrightarrow> in_window window t' k log = filter (\<lambda>x. t' - window < x) (in_window window t k log)"
  by (induction log) (auto simp: in_window_def)

lemma agrees_later: "ok t s \<Longrightarrow> agrees t s log \<Longrightarrow> t \<le> t' \<Longrightarrow> agrees t' s log"
  unfolding agrees_def by (metis live_later in_window_later)

lemma agrees_step:
  assumes "ok t s" and "agrees t s log"
  shows "agrees t (snd (step t k s)) (if fst (step t k s) then log @ [(t, k)] else log)"
  using assms window_pos by (auto simp: agrees_def live_step in_window_append)

lemma decisions_refine:
  assumes "ok t s" and "agrees t s log" and "times_from t es"
  shows "run_checks step es s = spec_checks limit window log es"
  using assms
proof (induction es arbitrary: s log t)
  case Nil
  then show ?case by simp
next
  case (Cons e es)
  obtain x k where e: "e = (x, k)" by (cases e)
  from Cons.prems e have x: "t \<le> x" and rest: "times_from x es" by auto
  have ok: "ok x s" using Cons.prems(1) x by (rule ok_later)
  have ag: "agrees x s log" using Cons.prems(1,2) x by (rule agrees_later)
  have b: "fst (step x k s) \<longleftrightarrow> length (in_window window x k log) < limit"
    using accept_iff [OF ok] ag by (simp add: agrees_def)
  from Cons.IH [OF ok_step [OF ok] agrees_step [OF ok ag] rest] b show ?case
    by (auto simp: e Let_def)
qed

lemma windows_bounded:
  assumes "ok t s" and "agrees t s []" and "times_from t es"
  shows "window_count window t' k (accepted es (run_checks step es s)) \<le> limit"
  using spec_checks_bounded [of window "[]" limit t es t' k] decisions_refine [OF assms] assms(3)
  by (simp add: window_count_def)

end

section \<open>The code meets the contract\<close>

definition limiter_step ::
  "int \<Rightarrow> string \<Rightarrow> login_rate_limiter \<Rightarrow> bool \<times> login_rate_limiter" where
  "limiter_step t k l = (let (r, l') = check_key t k l in (r = Inr (), l'))"

definition live_attempts :: "int \<Rightarrow> login_rate_limiter \<Rightarrow> string \<Rightarrow> int list" where
  "live_attempts t l k = filter (\<lambda>x. t - rl_window l < x) (entries_of (rl_attempts l) k)"

definition limiter_ok :: "nat \<Rightarrow> int \<Rightarrow> login_rate_limiter \<Rightarrow> bool" where
  "limiter_ok n t l \<longleftrightarrow>
     rl_limit l = n \<and> rl_window l = window_60s \<and> distinct (map fst (rl_attempts l))
     \<and> (\<forall>(k, es) \<in> set (rl_attempts l). sorted es \<and> (\<forall>x \<in> set es. x \<le> t))"

lemma dropWhile_sorted_filter:
  "sorted (xs :: int list) \<Longrightarrow> dropWhile (\<lambda>x. x \<le> c) xs = filter (\<lambda>x. c < x) xs"
proof (induction xs)
  case (Cons x xs)
  show ?case
  proof (cases "x \<le> c")
    case True
    with Cons show ?thesis by simp
  next
    case False
    with Cons.prems have "\<forall>y \<in> set (x # xs). c < y" by auto
    then have "filter (\<lambda>y. c < y) (x # xs) = x # xs" by (rule filter_True)
    with False show ?thesis by simp
  qed
qed simp

lemma entries_of_sorted:
  assumes "limiter_ok n t l"
  shows "sorted (entries_of (rl_attempts l) k) \<and> (\<forall>x \<in> set (entries_of (rl_attempts l) k). x \<le> t)"
proof (cases "map_of (rl_attempts l) k")
  case None
  then show ?thesis by (simp add: entries_of_def)
next
  case (Some es)
  then have "(k, es) \<in> set (rl_attempts l)" by (rule map_of_SomeD)
  with assms Some show ?thesis by (auto simp: limiter_ok_def entries_of_def)
qed

lemma entries_of_update [simp]:
  "entries_of (AList.update k es as) j = (if j = k then es else entries_of as j)"
  by (simp add: entries_of_def update_conv)

lemma entries_of_retain:
  assumes "distinct (map fst as)"
  shows "entries_of (retain_live c as) k =
           (if entries_of as k \<noteq> [] \<and> c < last (entries_of as k) then entries_of as k else [])"
proof (cases "map_of as k")
  case None
  then have "map_of (retain_live c as) k = None"
    by (auto simp: map_of_eq_None_iff retain_live_def)
  with None show ?thesis by (simp add: entries_of_def)
next
  case (Some es)
  have d: "distinct (map fst (retain_live c as))"
    using assms by (simp add: retain_live_def distinct_map_filter)
  from Some have mem: "(k, es) \<in> set as" by (rule map_of_SomeD)
  show ?thesis
  proof (cases "es \<noteq> [] \<and> c < last es")
    case True
    with mem have "(k, es) \<in> set (retain_live c as)" by (simp add: retain_live_def)
    then have "map_of (retain_live c as) k = Some es" using d by simp
    with Some True show ?thesis by (simp add: entries_of_def)
  next
    case False
    have "k \<notin> fst ` set (retain_live c as)"
    proof
      assume "k \<in> fst ` set (retain_live c as)"
      then obtain es' where "(k, es') \<in> set as" and "es' \<noteq> [] \<and> c < last es'"
        by (auto simp: retain_live_def)
      with mem assms False show False by (metis map_of_is_SomeI option.inject)
    qed
    then have "map_of (retain_live c as) k = None" by (simp add: map_of_eq_None_iff)
    with Some False show ?thesis by (auto simp: entries_of_def)
  qed
qed

text \<open>Dropping a queue whose last attempt is stale drops no live attempt.\<close>

lemma stale_queue:
  assumes "sorted es" and "\<not> (es \<noteq> [] \<and> c < last es)"
  shows "filter (\<lambda>x. c < x) es = []"
  using assms sorted_le_last [OF assms(1)] by (fastforce simp: filter_empty_conv)

lemma live_after_retain:
  assumes "limiter_ok n t l" and "c \<le> t - rl_window l"
  shows "filter (\<lambda>x. t - rl_window l < x) (entries_of (retain_live c (rl_attempts l)) k) =
         filter (\<lambda>x. t - rl_window l < x) (entries_of (rl_attempts l) k)"
proof -
  let ?es = "entries_of (rl_attempts l) k"
  have d: "distinct (map fst (rl_attempts l))" using assms(1) by (simp add: limiter_ok_def)
  have s: "sorted ?es" using entries_of_sorted [OF assms(1)] by blast
  show ?thesis
  proof (cases "?es \<noteq> [] \<and> c < last ?es")
    case False
    then have "\<not> (?es \<noteq> [] \<and> t - rl_window l < last ?es)" using assms(2) by auto
    from stale_queue [OF s this] False show ?thesis by (auto simp: entries_of_retain [OF d])
  qed (simp add: entries_of_retain [OF d])
qed

lemma limiter_ok_update:
  assumes "limiter_ok n t l" and "sorted es" and "\<forall>x \<in> set es. x \<le> t"
  shows "limiter_ok n t (l\<lparr>rl_attempts := AList.update k es (rl_attempts l)\<rparr>)"
proof -
  have "set (AList.update k es as) \<subseteq> insert (k, es) (set as)" for as :: "(string \<times> int list) list"
    by (induction as) auto
  then have "\<forall>(j, xs) \<in> set (AList.update k es (rl_attempts l)). sorted xs \<and> (\<forall>x \<in> set xs. x \<le> t)"
    using assms unfolding limiter_ok_def by blast
  with assms show ?thesis by (auto simp: limiter_ok_def distinct_update)
qed

lemma limiter_ok_retain:
  "limiter_ok n t l \<Longrightarrow> limiter_ok n t (l\<lparr>rl_attempts := retain_live c (rl_attempts l)\<rparr>)"
  by (auto simp: limiter_ok_def retain_live_def distinct_map_filter)

lemma check_key_cases:
  assumes "limiter_ok n t l"
  shows "check_key t k l =
    (if n \<le> length (live_attempts t l k)
     then (Inl (InvalidRequest 429 (rl_message l)),
           l\<lparr>rl_attempts := AList.update k (live_attempts t l k) (rl_attempts l)\<rparr>)
     else (let as = AList.update k (live_attempts t l k @ [t]) (rl_attempts l)
           in (Inr (), l\<lparr>rl_attempts :=
                 if length as > 10000 then retain_live (t - rl_window l) as else as\<rparr>)))"
proof -
  have "rl_limit l = n" using assms by (simp add: limiter_ok_def)
  moreover have "dropWhile (\<lambda>x. x \<le> t - rl_window l) (entries_of (rl_attempts l) k)
      = live_attempts t l k"
    unfolding live_attempts_def
    using entries_of_sorted [OF assms] by (simp add: dropWhile_sorted_filter)
  ultimately show ?thesis unfolding check_key_def by (simp add: Let_def)
qed

lemma live_attempts_sorted:
  "limiter_ok n t l \<Longrightarrow> sorted (live_attempts t l k) \<and> (\<forall>x \<in> set (live_attempts t l k). x \<le> t)"
  using entries_of_sorted [of n t l k] by (auto simp: live_attempts_def sorted_wrt_filter)

text \<open>The state after a check, whatever its verdict.\<close>

lemma check_key_state:
  assumes ok: "limiter_ok n t l"
  shows "limiter_ok n t (snd (check_key t k l))"
    and "live_attempts t (snd (check_key t k l)) j =
           live_attempts t l j @ (if j = k \<and> fst (check_key t k l) = Inr () then [t] else [])"
proof -
  let ?es = "live_attempts t l k"
  let ?new = "?es @ [t]"
  let ?u = "l\<lparr>rl_attempts := AList.update k ?new (rl_attempts l)\<rparr>"
  have w: "0 < rl_window l" using ok by (simp add: limiter_ok_def window_60s_def)
  have s: "sorted ?es" "\<forall>x \<in> set ?es. x \<le> t" using live_attempts_sorted [OF ok] by blast+
  then have s': "sorted ?new" "\<forall>x \<in> set ?new. x \<le> t" by (auto simp: sorted_append)
  have u: "limiter_ok n t ?u" by (rule limiter_ok_update [OF ok s'])
  have f: "filter (\<lambda>x. t - rl_window l < x) ?es = ?es" by (simp add: live_attempts_def)
  have lu: "live_attempts t ?u j = live_attempts t l j @ (if j = k then [t] else [])"
    using w f by (simp add: live_attempts_def)
  show "limiter_ok n t (snd (check_key t k l))"
    using limiter_ok_update [OF ok s, of k] u limiter_ok_retain [OF u, of "t - rl_window l"]
    by (simp add: check_key_cases [OF ok] Let_def)
  show "live_attempts t (snd (check_key t k l)) j =
           live_attempts t l j @ (if j = k \<and> fst (check_key t k l) = Inr () then [t] else [])"
  proof (cases "n \<le> length ?es")
    case True
    then show ?thesis using f by (simp add: check_key_cases [OF ok] live_attempts_def)
  next
    case False
    have "live_attempts t (?u\<lparr>rl_attempts := retain_live (t - rl_window l) (rl_attempts ?u)\<rparr>) j
        = live_attempts t ?u j"
      using live_after_retain [OF u, of "t - rl_window l" j] by (simp add: live_attempts_def)
    with False lu show ?thesis by (cases "j = k") (simp_all add: check_key_cases [OF ok] Let_def)
  qed
qed

lemma check_key_accept:
  "limiter_ok n t l \<Longrightarrow> fst (check_key t k l) = Inr () \<longleftrightarrow> length (live_attempts t l k) < n"
  by (auto simp: check_key_cases Let_def)

interpretation login_limiter: sliding_window limiter_step live_attempts "limiter_ok n" n window_60s
  for n
proof
  show "0 < window_60s" by (simp add: window_60s_def)
next
  fix t s k
  assume ok: "limiter_ok n t s"
  then show "fst (limiter_step t k s) \<longleftrightarrow> length (live_attempts t s k) < n"
    by (simp add: limiter_step_def case_prod_beta check_key_accept)
  show "limiter_ok n t (snd (limiter_step t k s))"
    using check_key_state(1) [OF ok] by (simp add: limiter_step_def case_prod_beta)
  show "live_attempts t (snd (limiter_step t k s)) j =
          live_attempts t s j @ (if j = k \<and> fst (limiter_step t k s) then [t] else [])" for j
    using check_key_state(2) [OF ok] by (simp add: limiter_step_def case_prod_beta)
next
  fix t t' s k
  assume ok: "limiter_ok n t s" and le: "t \<le> t'"
  then show "live_attempts t' s k = filter (\<lambda>x. t' - window_60s < x) (live_attempts t s k)"
    by (auto simp: live_attempts_def limiter_ok_def intro!: filter_cong)
  from ok le show "limiter_ok n t' s" unfolding limiter_ok_def by fastforce
qed

section \<open>Properties\<close>

lemma with_limit_ok: "limiter_ok n t (with_limit n) \<and> limiter_ok 10 t default_limiter"
  by (simp add: limiter_ok_def with_limit_def default_limiter_def)

lemma with_limit_agrees: "login_limiter.agrees t (with_limit n) []"
  by (simp add: login_limiter.agrees_def live_attempts_def with_limit_def entries_of_def in_window_def)

text \<open>
  C1. The limiter decides as an unbounded log of the accepted attempts would: over any sequence
  of checks whose instants do not go back, a fresh limiter accepts an attempt exactly when fewer
  than \<open>limit\<close> attempts of the same key were accepted in the last 60 seconds, although it
  prunes the queue of the key it checks and, beyond 10000 keys, drops whole queues.
\<close>

theorem limiter_equals_log:
  assumes "times_from t0 es"
  shows "run_checks limiter_step es (with_limit n) = spec_checks n window_60s [] es"
  using login_limiter.decisions_refine [OF conjunct1 [OF with_limit_ok] with_limit_agrees assms] .

theorem limiter_equals_log_witness:
  "run_checks limiter_step [(0, ''a''), (1, ''a''), (2, ''a''), (70000000000, ''a'')] (with_limit 2)
   = [True, True, False, True]"
proof -
  have "times_from 0 [(0, ''a''), (1, ''a''), (2, ''a''), (70000000000, ''a'')]" by simp
  from limiter_equals_log [OF this, of 2] show ?thesis
    by (simp add: in_window_def window_60s_def)
qed

text \<open>
  Whatever the clients do, no interval of 60 seconds holds more than \<open>limit\<close> accepted
  attempts of one key.
\<close>

theorem limiter_bounds_every_window:
  assumes "times_from t0 es"
  shows "window_count window_60s t k (accepted es (run_checks limiter_step es (with_limit n))) \<le> n"
  using login_limiter.windows_bounded [OF conjunct1 [OF with_limit_ok] with_limit_agrees assms] .

theorem limiter_bounds_every_window_witness:
  "window_count window_60s 5 ''a''
     (accepted [(0, ''a''), (1, ''a'')] (run_checks limiter_step [(0, ''a''), (1, ''a'')] (with_limit 1)))
   \<le> 1"
proof -
  have "times_from 0 [(0, ''a''), (1, ''a'')]" by simp
  from limiter_bounds_every_window [OF this, of 5 "''a''" 1] show ?thesis by simp
qed

end
