(* ===== verification/RequestLimits.thy ===== *)
theory RequestLimits
  imports RateLimit
begin

text \<open>
  The state of \<open>request_limits.rs\<close>: two rate limiters, three global semaphores and, per account with a
  request under way, three semaphores of its own. A semaphore is its number of free permits; a permit
  is the name of the semaphore it came from. The \<open>AccountSlots\<close> of an account live at an address,
  as behind their \<open>Arc\<close>: the table of accounts and the requests under way refer to that address.
\<close>

datatype semaphore =
    Requests
  | Authentication
  | Large
  | AccountRequests nat
  | AccountWrites nat
  | AccountLarge nat

fun capacity :: "semaphore \<Rightarrow> nat" where
  "capacity Requests = 32"
| "capacity Authentication = 4"
| "capacity Large = 2"
| "capacity (AccountRequests _) = 8"
| "capacity (AccountWrites _) = 4"
| "capacity (AccountLarge _) = 1"

record request_limits =
  lm_writes :: login_rate_limiter
  lm_reads :: login_rate_limiter
  lm_free :: "semaphore \<Rightarrow> nat"
  lm_accounts :: "(uuid \<times> nat) list"
  lm_next_address :: nat

definition default_limits :: request_limits where
  "default_limits =
     \<lparr>lm_writes = with_limit 240, lm_reads = with_limit 600,
      lm_free = (\<lambda>_. 0)(Requests := 32, Authentication := 4, Large := 2),
      lm_accounts = [], lm_next_address = 0\<rparr>"

definition busy :: app_error where
  "busy = InvalidRequest 429 ''the server is busy; try again shortly''"

definition check_write :: "int \<Rightarrow> uuid \<Rightarrow> request_limits \<Rightarrow> unit app_result \<times> request_limits" where
  "check_write t user l =
     (let (verdict, writes) = check_key t (show_uuid user) (lm_writes l)
      in (verdict, l\<lparr>lm_writes := writes\<rparr>))"

text \<open>
  \<open>acquire_owned\<close> waits while there is no permit: \<open>None\<close>. Which of several waiting requests takes a permit that
  becomes free is left open (tokio serves them in the order of their arrival).
\<close>

definition try_acquire :: "semaphore \<Rightarrow> request_limits \<Rightarrow> request_limits option" where
  "try_acquire sem l =
     (if 0 < lm_free l sem then Some (l\<lparr>lm_free := (lm_free l)(sem := lm_free l sem - 1)\<rparr>) else None)"

definition large_request :: "request_limits \<Rightarrow> request_limits app_result" where
  "large_request l = ok_or (try_acquire Large l) busy"

definition free_permit :: "semaphore \<Rightarrow> request_limits \<Rightarrow> request_limits" where
  "free_permit sem l = l\<lparr>lm_free := (lm_free l)(sem := lm_free l sem + 1)\<rparr>"

text \<open>
  The slots of an account: entries that no request refers to are dropped first, so \<open>held\<close>, the
  addresses of the requests under way, is what \<open>Arc::strong_count\<close> counts beside the table itself.
\<close>

definition account_slots :: "nat list \<Rightarrow> uuid \<Rightarrow> request_limits \<Rightarrow> nat \<times> request_limits" where
  "account_slots held user l =
     (let accounts = filter (\<lambda>(_, a). a \<in> set held) (lm_accounts l)
      in case map_of accounts user of
           Some a \<Rightarrow> (a, l\<lparr>lm_accounts := accounts\<rparr>)
         | None \<Rightarrow>
             (let a = lm_next_address l
              in (a, l\<lparr>lm_free := (lm_free l)(AccountRequests a := 8, AccountWrites a := 4, AccountLarge a := 1),
                       lm_accounts := accounts @ [(user, a)], lm_next_address := a + 1\<rparr>)))"

end
