(* ===== verification/Auth.thy ===== *)
theory Auth
  imports Accounts RequestLimits
begin

text \<open>
  \<open>auth.rs\<close>: the extractor \<open>CurrentUser\<close>. A header map is the list of its (name, raw value) pairs in
  order; \<open>HeaderValue::to_str\<close> of the http crate and the parser of the uuid crate are the arguments
  \<open>to_str\<close> and \<open>parse_uuid\<close>. The extractor returns its verdict together with the request parts, the
  database and the limiters it leaves behind, because a refused request may have touched its session
  and its write quota already.
\<close>

section \<open>Requests and their cookies\<close>

fun split_on :: "char \<Rightarrow> string \<Rightarrow> string list" where
  "split_on c [] = [[]]"
| "split_on c (x # xs) =
     (if x = c then [] # split_on c xs
      else (case split_on c xs of p # ps \<Rightarrow> (x # p) # ps | [] \<Rightarrow> [[x]]))"

fun split_once :: "char \<Rightarrow> string \<Rightarrow> (string \<times> string) option" where
  "split_once c [] = None"
| "split_once c (x # xs) =
     (if x = c then Some ([], xs) else map_option (\<lambda>(a, b). (x # a, b)) (split_once c xs))"

definition strip_prefix :: "string \<Rightarrow> string \<Rightarrow> string option" where
  "strip_prefix p s = (if starts_with s p then Some (drop (length p) s) else None)"

definition trim_start_matches :: "string \<Rightarrow> string \<Rightarrow> string" where
  "trim_start_matches p s = strip [p] s"

definition is_ascii_alphanumeric :: "char \<Rightarrow> bool" where
  "is_ascii_alphanumeric c =
     (let n = (of_char c :: nat) in 48 \<le> n \<and> n \<le> 57 \<or> 65 \<le> n \<and> n \<le> 90 \<or> 97 \<le> n \<and> n \<le> 122)"

type_synonym headers = "(string \<times> string) list"

record parts =
  pt_method :: string
  pt_path :: string
  pt_headers :: headers
  pt_authenticated_user :: "(uuid \<times> string) option"
  pt_session_csrf :: "string option"

definition DEVELOPMENT_USER_HEADER :: string where
  "DEVELOPMENT_USER_HEADER = ''x-prosepect-user-id''"

definition SESSION_COOKIE :: string where
  "SESSION_COOKIE = ''prosepect_session''"

definition CSRF_HEADER :: string where
  "CSRF_HEADER = ''x-csrf-token''"

definition oauth_cookie_name :: "bool \<Rightarrow> string" where
  "oauth_cookie_name secure = (if secure then ''__Host-prosepect_oauth'' else ''prosepect_oauth'')"

definition oauth_browser_secret :: "(string \<Rightarrow> string option) \<Rightarrow> headers \<Rightarrow> bool \<Rightarrow> string option" where
  "oauth_browser_secret to_str headers secure =
     (let name = oauth_cookie_name secure;
          texts = List.map_filter (\<lambda>(k, v). if k = ''cookie'' then to_str v else None) headers;
          cookies = List.map_filter (\<lambda>c. split_once (CHR ''='') (trim c)) (concat (map (split_on (CHR '';'')) texts))
      in map_option snd (find (\<lambda>(key, value).
           key = name \<and> length value = 43
           \<and> list_all (\<lambda>b. is_ascii_alphanumeric b \<or> b = CHR ''-'' \<or> b = CHR ''_'') value) cookies))"

definition session_token :: "(string \<Rightarrow> string option) \<Rightarrow> headers \<Rightarrow> string option" where
  "session_token to_str headers =
     Option.bind (map_of headers ''cookie'') (\<lambda>v.
     Option.bind (to_str v) (\<lambda>text.
     nonempty (case List.map_filter (\<lambda>c. strip_prefix (SESSION_COOKIE @ ''='') (trim c)) (split_on (CHR '';'') text) of
         value # _ \<Rightarrow> Some value
       | [] \<Rightarrow> None)))"

definition requires_csrf :: "string \<Rightarrow> bool" where
  "requires_csrf method \<longleftrightarrow> method \<notin> {''GET'', ''HEAD'', ''OPTIONS''}"

section \<open>The extractor\<close>

definition is_logout :: "parts \<Rightarrow> bool" where
  "is_logout p \<longleftrightarrow> pt_method p = ''POST'' \<and> trim_start_matches ''/api/v1'' (pt_path p) = ''/session/logout''"

definition limit_write :: "int \<Rightarrow> parts \<Rightarrow> uuid \<Rightarrow> request_limits \<Rightarrow> unit app_result \<times> request_limits" where
  "limit_write t p user l =
     (if requires_csrf (pt_method p) \<and> \<not> is_logout p then check_write t user l else (Inr (), l))"

definition no_csrf :: app_error where
  "no_csrf = Forbidden ''a valid CSRF token is required''"

text \<open>The development branch: the user named by a header, where the server runs with it enabled.\<close>

definition development_user ::
  "(string \<Rightarrow> string option) \<Rightarrow> (string \<Rightarrow> uuid option) \<Rightarrow> int \<Rightarrow> string \<Rightarrow> parts \<Rightarrow> request_limits
   \<Rightarrow> uuid app_result \<times> parts \<times> request_limits" where
  "development_user to_str parse_uuid t value p l =
     (case Option.bind (to_str value) parse_uuid of
        None \<Rightarrow> (Inl Unauthorized, p, l)
      | Some user \<Rightarrow>
          (case limit_write t p user l of
             (Inl e, l) \<Rightarrow> (Inl e, p, l)
           | (Inr _, l) \<Rightarrow> (Inr user, p\<lparr>pt_authenticated_user := Some (user, pt_method p)\<rparr>, l)))"

definition check_csrf :: "(string \<Rightarrow> string option) \<Rightarrow> parts \<Rightarrow> session_authentication \<Rightarrow> unit app_result" where
  "check_csrf to_str p session =
     (if requires_csrf (pt_method p)
      then bind_res (ok_or (Option.bind (map_of (pt_headers p) CSRF_HEADER) to_str) no_csrf) (\<lambda>supplied.
           require (supplied = sa_csrf_token session) no_csrf)
      else Inr ())"

definition session_user ::
  "platform \<Rightarrow> (string \<Rightarrow> string option) \<Rightarrow> int \<Rightarrow> string \<Rightarrow> parts \<Rightarrow> world \<Rightarrow> request_limits
   \<Rightarrow> uuid app_result \<times> parts \<times> world \<times> request_limits" where
  "session_user pf to_str t token p w l =
     (case authenticate_session pf token w of
        Inl e \<Rightarrow> (Inl e, p, w, l)
      | Inr (session, w) \<Rightarrow>
          (case check_csrf to_str p session of
             Inl e \<Rightarrow> (Inl e, p, w, l)
           | Inr _ \<Rightarrow>
               (case limit_write t p (sa_user_id session) l of
                  (Inl e, l) \<Rightarrow> (Inl e, p, w, l)
                | (Inr _, l) \<Rightarrow>
                    (Inr (sa_user_id session),
                     p\<lparr>pt_authenticated_user := Some (sa_user_id session, pt_method p),
                       pt_session_csrf := Some (sa_csrf_token session)\<rparr>, w, l))))"

definition extract_user ::
  "platform \<Rightarrow> (string \<Rightarrow> string option) \<Rightarrow> (string \<Rightarrow> uuid option) \<Rightarrow> bool \<Rightarrow> int \<Rightarrow> parts \<Rightarrow> world \<Rightarrow> request_limits
   \<Rightarrow> uuid app_result \<times> parts \<times> world \<times> request_limits" where
  "extract_user pf to_str parse_uuid allow_insecure_dev_auth t p w l =
     (case (if allow_insecure_dev_auth then map_of (pt_headers p) DEVELOPMENT_USER_HEADER else None) of
        Some value \<Rightarrow> (let (r, p, l) = development_user to_str parse_uuid t value p l in (r, p, w, l))
      | None \<Rightarrow>
          (case session_token to_str (pt_headers p) of
             Some token \<Rightarrow> session_user pf to_str t token p w l
           | None \<Rightarrow> (Inl Unauthorized, p, w, l)))"

definition current_user ::
  "platform \<Rightarrow> (string \<Rightarrow> string option) \<Rightarrow> (string \<Rightarrow> uuid option) \<Rightarrow> bool \<Rightarrow> int \<Rightarrow> parts \<Rightarrow> world \<Rightarrow> request_limits
   \<Rightarrow> uuid app_result \<times> parts \<times> world \<times> request_limits" where
  "current_user pf to_str parse_uuid allow_insecure_dev_auth t p w l =
     (case pt_authenticated_user p of
        Some (user, method) \<Rightarrow>
          if method = pt_method p then (Inr user, p, w, l)
          else extract_user pf to_str parse_uuid allow_insecure_dev_auth t p w l
      | None \<Rightarrow> extract_user pf to_str parse_uuid allow_insecure_dev_auth t p w l)"

section \<open>Properties\<close>

lemma session_user_accepts:
  assumes "session_user pf to_str t token p w l = (Inr u, p', w', l')"
  obtains s where "authenticate_session pf token w = Inr (s, w')" and "sa_user_id s = u"
    and "check_csrf to_str p s = Inr ()" and "limit_write t p u l = (Inr (), l')"
    and "p' = p\<lparr>pt_authenticated_user := Some (u, pt_method p), pt_session_csrf := Some (sa_csrf_token s)\<rparr>"
  using assms that by (auto simp: session_user_def split: sum.splits prod.splits)

lemma check_csrf_accepts:
  "check_csrf to_str p s = Inr () \<Longrightarrow> requires_csrf (pt_method p) \<Longrightarrow>
     Option.bind (map_of (pt_headers p) CSRF_HEADER) to_str = Some (sa_csrf_token s)"
  by (auto simp: check_csrf_def)

text \<open>
  C22. Outside development every request acts as the user of a live session. The extractor accepts a request that is
  not authenticated yet only with the cookie of a session that authenticates as that user; a method that changes
  state must carry the CSRF token of that very session and, unless it signs out, must fit the user's write
  quota. Extracting again, as the handler does behind the middleware, gives the same user and charges nothing.
\<close>

theorem requests_act_as_their_session_user:
  assumes "current_user pf to_str parse_uuid False t p w l = (Inr u, p', w', l')"
    and "pt_authenticated_user p = None"
  shows "(\<exists>token s. session_token to_str (pt_headers p) = Some token
            \<and> authenticate_session pf token w = Inr (s, w') \<and> sa_user_id s = u
            \<and> (requires_csrf (pt_method p) \<longrightarrow>
                 Option.bind (map_of (pt_headers p) CSRF_HEADER) to_str = Some (sa_csrf_token s))
            \<and> (requires_csrf (pt_method p) \<and> \<not> is_logout p \<longrightarrow> check_write t u l = (Inr (), l'))
            \<and> (\<not> requires_csrf (pt_method p) \<or> is_logout p \<longrightarrow> l' = l)
            \<and> pt_session_csrf p' = Some (sa_csrf_token s))
     \<and> current_user pf to_str parse_uuid dev t' p' w'' l'' = (Inr u, p', w'', l'')"
proof -
  from assms obtain token where tok: "session_token to_str (pt_headers p) = Some token"
    and run: "session_user pf to_str t token p w l = (Inr u, p', w', l')"
    by (auto simp: current_user_def extract_user_def split: option.splits)
  from run obtain s where auth: "authenticate_session pf token w = Inr (s, w')" "sa_user_id s = u"
    and csrf: "check_csrf to_str p s = Inr ()" and quota: "limit_write t p u l = (Inr (), l')"
    and p': "p' = p\<lparr>pt_authenticated_user := Some (u, pt_method p), pt_session_csrf := Some (sa_csrf_token s)\<rparr>"
    by (rule session_user_accepts)
  have again: "current_user pf to_str parse_uuid dev t' p' w'' l'' = (Inr u, p', w'', l'')"
    by (simp add: p' current_user_def)
  have "requires_csrf (pt_method p) \<and> \<not> is_logout p \<longrightarrow> check_write t u l = (Inr (), l')"
    and "\<not> requires_csrf (pt_method p) \<or> is_logout p \<longrightarrow> l' = l"
    using quota by (auto simp: limit_write_def)
  with tok auth check_csrf_accepts [OF csrf] p' again show ?thesis by auto
qed

text \<open>A session of user 7 and a request that writes under it.\<close>

definition example_session_world :: world where
  "example_session_world = empty_world\<lparr>sessions := [\<lparr>se_token_hash = sha256 (ascii_platform 0) ''secret'',
     se_user_id = 7, se_csrf_token = ''csrf'', se_expires_at = 10, se_last_seen_at = 0\<rparr>]\<rparr>"

definition example_parts :: parts where
  "example_parts = \<lparr>pt_method = ''POST'', pt_path = ''/api/v1/tasks'',
     pt_headers = [(''cookie'', ''a=b; prosepect_session=secret''), (''x-csrf-token'', ''csrf'')],
     pt_authenticated_user = None, pt_session_csrf = None\<rparr>"

lemma example_request_accepted:
  "fst (current_user (ascii_platform 0) Some (\<lambda>_. None) False 0 example_parts example_session_world default_limits) = Inr 7"
  by code_simp

theorem requests_act_as_their_session_user_witness:
  "\<exists>p' w' l'. current_user (ascii_platform 0) Some (\<lambda>_. None) False 0 example_parts example_session_world default_limits
       = (Inr 7, p', w', l')
     \<and> current_user (ascii_platform 0) Some (\<lambda>_. None) False 1 p' w' l' = (Inr 7, p', w', l')
     \<and> check_write 0 7 default_limits = (Inr (), l')"
proof -
  obtain p' w' l' where run: "current_user (ascii_platform 0) Some (\<lambda>_. None) False 0 example_parts
      example_session_world default_limits = (Inr 7, p', w', l')"
    using example_request_accepted by (metis prod.collapse)
  have "pt_authenticated_user example_parts = None" by (simp add: example_parts_def)
  note r = requests_act_as_their_session_user [OF run this]
  have "requires_csrf (pt_method example_parts)" "\<not> is_logout example_parts" by code_simp+
  with r [of False 1 w' l'] run show ?thesis by blast
qed

end
