(* ===== verification/Admission.thy ===== *)
theory Admission
  imports Auth
begin

text \<open>
  The middleware \<open>limit_requests\<close> with \<open>account_request\<close> of \<open>request_limits.rs\<close>. A request under way is
  its parts, the point of the middleware it has reached, and what it owns there: the user it was
  authenticated as, the address of its account's slots, its permits (newest first). Every await is a
  point where other requests may run, so a run is any interleaving of the requests' steps. Dropping a request,
  at whatever point it is, frees what it owns: that is the end of a handler, the two-second time-out of a
  wait and a client that goes away.
\<close>

section \<open>Kinds of requests\<close>

definition request_path :: "parts \<Rightarrow> string" where
  "request_path p = trim_start_matches ''/api/v1'' (pt_path p)"

definition is_sign_in :: "parts \<Rightarrow> bool" where
  "is_sign_in p \<longleftrightarrow>
     request_path p \<in> {''/auth/google/start'', ''/auth/google/callback'', ''/development/session''}"

definition is_upload :: "parts \<Rightarrow> bool" where
  "is_upload p \<longleftrightarrow> pt_method p = ''POST'' \<and> request_path p = ''/files''"

definition is_large :: "parts \<Rightarrow> bool" where
  "is_large p \<longleftrightarrow>
     is_upload p
     \<or> starts_with (request_path p) ''/exports/''
     \<or> starts_with (request_path p) ''/imports/''
     \<or> pt_method p = ''GET'' \<and> request_path p = ''/notes''
     \<or> starts_with (request_path p) ''/files/'' \<and> ends_with (request_path p) ''/download''"

definition is_write :: "parts \<Rightarrow> bool" where
  "is_write p \<longleftrightarrow> pt_method p \<notin> {''GET'', ''HEAD'', ''OPTIONS''}"

section \<open>The middleware\<close>

datatype phase =
    AuthenticationWait
  | AdmissionWait
  | Identify
  | AccountEntry
  | AccountRequestWait
  | AccountWriteWait
  | AccountLargeWait
  | GlobalWait
  | GlobalLargeWait
  | UploadStart
  | Run

record request =
  rq_parts :: parts
  rq_phase :: phase
  rq_user :: "uuid option"
  rq_account :: "nat option"
  rq_permits :: "semaphore list"

definition new_request :: "parts \<Rightarrow> request" where
  "new_request p =
     \<lparr>rq_parts = p, rq_phase = (if is_sign_in p then AuthenticationWait else AdmissionWait),
      rq_user = None, rq_account = None, rq_permits = []\<rparr>"

definition acquire :: "semaphore \<Rightarrow> phase \<Rightarrow> request \<Rightarrow> request_limits \<Rightarrow> (request \<times> request_limits) option" where
  "acquire sem ph r l =
     map_option (\<lambda>l. (r\<lparr>rq_permits := sem # rq_permits r, rq_phase := ph\<rparr>, l)) (try_acquire sem l)"

text \<open>After \<open>CurrentUser\<close>: a logout runs at once, any other request gives its admission back.\<close>

definition identified :: "uuid \<Rightarrow> parts \<Rightarrow> request \<Rightarrow> request_limits \<Rightarrow> request \<times> request_limits" where
  "identified user p r l =
     (if is_logout p then (r\<lparr>rq_parts := p, rq_user := Some user, rq_phase := Run\<rparr>, l)
      else (r\<lparr>rq_parts := p, rq_user := Some user, rq_phase := AccountEntry,
              rq_permits := remove1 Requests (rq_permits r)\<rparr>, free_permit Requests l))"

definition enter_account ::
  "int \<Rightarrow> nat list \<Rightarrow> uuid \<Rightarrow> request \<Rightarrow> request_limits \<Rightarrow> request app_result \<times> request_limits" where
  "enter_account t held user r l =
     (let (verdict, reads) = (if is_write (rq_parts r) then (Inr (), lm_reads l)
                              else check_key t (show_uuid user) (lm_reads l));
          l = l\<lparr>lm_reads := reads\<rparr>
      in case verdict of
           Inl e \<Rightarrow> (Inl e, l)
         | Inr _ \<Rightarrow> (let (a, l) = account_slots held user l
                     in (Inr (r\<lparr>rq_account := Some a, rq_phase := AccountRequestWait\<rparr>), l)))"

definition after_writes :: "parts \<Rightarrow> phase" where
  "after_writes p = (if is_large p then AccountLargeWait else GlobalWait)"

definition after_requests :: "parts \<Rightarrow> phase" where
  "after_requests p = (if is_write p then AccountWriteWait else after_writes p)"

definition after_global :: "parts \<Rightarrow> phase" where
  "after_global p = (if is_upload p then UploadStart else if is_large p then GlobalLargeWait else Run)"

definition keep_world :: "world \<Rightarrow> (request \<times> request_limits) option
    \<Rightarrow> (request app_result \<times> world \<times> request_limits) option" where
  "keep_world w x = map_option (\<lambda>(r, l). (Inr r, w, l)) x"

text \<open>One step of a request: \<open>None\<close> where it has to wait.\<close>

definition advance ::
  "platform \<Rightarrow> (string \<Rightarrow> string option) \<Rightarrow> (string \<Rightarrow> uuid option) \<Rightarrow> bool \<Rightarrow> int \<Rightarrow> nat list \<Rightarrow> request
   \<Rightarrow> world \<Rightarrow> request_limits \<Rightarrow> (request app_result \<times> world \<times> request_limits) option" where
  "advance pf to_str parse_uuid dev t held r w l =
     (let p = rq_parts r in
      case rq_phase r of
        AuthenticationWait \<Rightarrow> keep_world w (acquire Authentication Run r l)
      | AdmissionWait \<Rightarrow> keep_world w (acquire Requests Identify r l)
      | Identify \<Rightarrow>
          (case current_user pf to_str parse_uuid dev t p w l of
             (Inl e, _, w, l) \<Rightarrow> Some (Inl e, w, l)
           | (Inr user, p, w, l) \<Rightarrow> keep_world w (Some (identified user p r l)))
      | AccountEntry \<Rightarrow>
          map_option (\<lambda>user. let (v, l) = enter_account t held user r l in (v, w, l)) (rq_user r)
      | AccountRequestWait \<Rightarrow>
          Option.bind (rq_account r) (\<lambda>a. keep_world w (acquire (AccountRequests a) (after_requests p) r l))
      | AccountWriteWait \<Rightarrow>
          Option.bind (rq_account r) (\<lambda>a. keep_world w (acquire (AccountWrites a) (after_writes p) r l))
      | AccountLargeWait \<Rightarrow>
          Option.bind (rq_account r) (\<lambda>a. keep_world w (acquire (AccountLarge a) GlobalWait r l))
      | GlobalWait \<Rightarrow> keep_world w (acquire Requests (after_global p) r l)
      | GlobalLargeWait \<Rightarrow> keep_world w (acquire Large Run r l)
      | UploadStart \<Rightarrow>
          (case large_request l of
             Inl e \<Rightarrow> Some (Inl e, w, l)
           | Inr l \<Rightarrow> Some (Inr (r\<lparr>rq_permits := Large # rq_permits r, rq_phase := Run\<rparr>), w, l))
      | Run \<Rightarrow> None)"

definition release :: "request \<Rightarrow> request_limits \<Rightarrow> request_limits" where
  "release r l = foldr free_permit (rq_permits r) l"

definition waiting :: "request \<Rightarrow> bool" where
  "waiting r \<longleftrightarrow> rq_phase r \<in> {AuthenticationWait, AdmissionWait, AccountRequestWait, AccountWriteWait,
                             AccountLargeWait, GlobalWait, GlobalLargeWait}"

definition held_addresses :: "request list \<Rightarrow> nat list" where
  "held_addresses rs = List.map_filter rq_account rs"

type_synonym server = "request list \<times> world \<times> request_limits"

text \<open>
  The steps of the server; a step is labelled with the errors it answers. \<open>other_step\<close> is what handlers do to
  the database.
\<close>

inductive limit_step ::
  "platform \<Rightarrow> (string \<Rightarrow> string option) \<Rightarrow> (string \<Rightarrow> uuid option) \<Rightarrow> bool \<Rightarrow> server \<Rightarrow> app_error list \<Rightarrow> server \<Rightarrow> bool"
  for pf to_str parse_uuid dev where
  arrive_step: "pt_authenticated_user p = None \<Longrightarrow>
    limit_step pf to_str parse_uuid dev (rs, w, l) [] (rs @ [new_request p], w, l)"
| advance_step: "advance pf to_str parse_uuid dev t (held_addresses (xs @ ys)) r w l = Some (Inr r', w', l') \<Longrightarrow>
    limit_step pf to_str parse_uuid dev (xs @ r # ys, w, l) [] (xs @ r' # ys, w', l')"
| refuse_step: "advance pf to_str parse_uuid dev t (held_addresses (xs @ ys)) r w l = Some (Inl e, w', l') \<Longrightarrow>
    limit_step pf to_str parse_uuid dev (xs @ r # ys, w, l) [e] (xs @ ys, w', release r l')"
| time_out_step: "waiting r \<Longrightarrow>
    limit_step pf to_str parse_uuid dev (xs @ r # ys, w, l) [busy] (xs @ ys, w, release r l)"
| leave_step: "limit_step pf to_str parse_uuid dev (xs @ r # ys, w, l) [] (xs @ ys, w, release r l)"
| other_step: "limit_step pf to_str parse_uuid dev (rs, w, l) [] (rs, w', l)"

section \<open>What a request owns at each point\<close>

definition account_permits :: "nat \<Rightarrow> parts \<Rightarrow> semaphore list" where
  "account_permits a p =
     (if is_large p then [AccountLarge a] else []) @ (if is_write p then [AccountWrites a] else []) @ [AccountRequests a]"

definition owns :: "request \<Rightarrow> semaphore list" where
  "owns r =
     (let p = rq_parts r; a = the (rq_account r) in
      case rq_phase r of
        Identify \<Rightarrow> [Requests]
      | AccountWriteWait \<Rightarrow> [AccountRequests a]
      | AccountLargeWait \<Rightarrow> (if is_write p then [AccountWrites a] else []) @ [AccountRequests a]
      | GlobalWait \<Rightarrow> account_permits a p
      | GlobalLargeWait \<Rightarrow> Requests # account_permits a p
      | UploadStart \<Rightarrow> Requests # account_permits a p
      | Run \<Rightarrow>
          if is_sign_in p then [Authentication] else if is_logout p then [Requests]
          else (if is_large p then [Large] else []) @ Requests # account_permits a p
      | _ \<Rightarrow> [])"

definition request_ok :: "request \<Rightarrow> bool" where
  "request_ok r \<longleftrightarrow>
     (let p = rq_parts r; ph = rq_phase r in
      rq_permits r = owns r
      \<and> (rq_account r \<noteq> None \<longleftrightarrow>
           ph \<notin> {AuthenticationWait, AdmissionWait, Identify, AccountEntry} \<and> \<not> is_sign_in p \<and> \<not> is_logout p)
      \<and> (rq_account r \<noteq> None \<or> ph = AccountEntry \<longrightarrow> rq_user r \<noteq> None)
      \<and> (ph = AuthenticationWait \<longrightarrow> is_sign_in p)
      \<and> (ph \<notin> {AuthenticationWait, Run} \<longrightarrow> \<not> is_sign_in p)
      \<and> (ph \<notin> {AuthenticationWait, AdmissionWait, Identify, Run} \<longrightarrow> \<not> is_logout p)
      \<and> (ph = AccountWriteWait \<longrightarrow> is_write p)
      \<and> (ph \<in> {AccountLargeWait, GlobalLargeWait, UploadStart} \<longrightarrow> is_large p))"

lemma new_request_ok: "request_ok (new_request p)"
  by (simp add: request_ok_def new_request_def owns_def)

text \<open>The kind of a request depends on its method and path, which authentication keeps.\<close>

lemma kind_cong:
  assumes "pt_method p' = pt_method p" and "pt_path p' = pt_path p"
  shows "is_sign_in p' = is_sign_in p" and "is_upload p' = is_upload p" and "is_large p' = is_large p"
    and "is_write p' = is_write p" and "is_logout p' = is_logout p"
  using assms
  by (simp_all add: is_sign_in_def is_upload_def is_large_def is_write_def is_logout_def request_path_def)

lemma is_upload_large: "is_upload p \<Longrightarrow> is_large p"
  by (simp add: is_large_def)

definition same_slots :: "request_limits \<Rightarrow> request_limits \<Rightarrow> bool" where
  "same_slots l' l \<longleftrightarrow> lm_free l' = lm_free l \<and> lm_accounts l' = lm_accounts l \<and> lm_next_address l' = lm_next_address l"

lemma limit_write_slots: "limit_write t p u l = (v, l') \<Longrightarrow> same_slots l' l"
  by (auto simp: limit_write_def check_write_def same_slots_def split: if_splits prod.splits)

lemma current_user_keeps:
  assumes "current_user pf to_str parse_uuid dev t p w l = (v, p', w', l')"
  shows "pt_method p' = pt_method p \<and> pt_path p' = pt_path p \<and> same_slots l' l"
  using assms limit_write_slots
  unfolding current_user_def extract_user_def session_user_def development_user_def
  by (fastforce split: option.splits sum.splits prod.splits if_splits simp: same_slots_def)

text \<open>What a step of a request does to its permits and to the slots.\<close>

definition took :: "semaphore \<Rightarrow> request \<Rightarrow> request \<Rightarrow> request_limits \<Rightarrow> request_limits \<Rightarrow> bool" where
  "took sem r r' l l' \<longleftrightarrow>
     rq_permits r' = sem # rq_permits r \<and> rq_account r' = rq_account r \<and> rq_user r' = rq_user r
     \<and> 0 < lm_free l sem \<and> same_slots l' (l\<lparr>lm_free := (lm_free l)(sem := lm_free l sem - 1)\<rparr>)"

lemma try_acquire_Some:
  "try_acquire sem l = Some l' \<longleftrightarrow> 0 < lm_free l sem \<and> l' = l\<lparr>lm_free := (lm_free l)(sem := lm_free l sem - 1)\<rparr>"
  by (auto simp: try_acquire_def)

lemma acquire_Some:
  "acquire sem ph r l = Some (r', l') \<longleftrightarrow>
     0 < lm_free l sem \<and> r' = r\<lparr>rq_permits := sem # rq_permits r, rq_phase := ph\<rparr>
     \<and> l' = l\<lparr>lm_free := (lm_free l)(sem := lm_free l sem - 1)\<rparr>"
  by (auto simp: acquire_def try_acquire_Some)

lemma keep_world_Some [simp]:
  "keep_world w x = Some (v, w', l') \<longleftrightarrow> w' = w \<and> (\<exists>r. v = Inr r \<and> x = Some (r, l'))"
  by (auto simp: keep_world_def)

lemmas phase_simps = request_ok_def owns_def account_permits_def after_requests_def after_writes_def
  after_global_def Let_def

text \<open>The permits of a request in one of the waiting points, once it got the one it waits for.\<close>

lemma wait_step:
  assumes "advance pf to_str parse_uuid dev t held r w l = Some (Inr r', w', l')"
    and "rq_phase r \<notin> {Identify, AccountEntry}" and ok: "request_ok r"
  shows "\<exists>sem. took sem r r' l l' \<and> (sem \<in> {Requests, Authentication, Large}
           \<or> (\<exists>a. rq_account r = Some a \<and> sem \<in> {AccountRequests a, AccountWrites a, AccountLarge a}))"
  using assms
  by (cases "rq_phase r")
    (auto simp: advance_def Let_def acquire_Some took_def same_slots_def bind_eq_Some_conv large_request_def
      try_acquire_Some split: sum.splits option.splits)

definition with_permit :: "semaphore \<Rightarrow> phase \<Rightarrow> request \<Rightarrow> request" where
  "with_permit sem ph r = r\<lparr>rq_permits := sem # rq_permits r, rq_phase := ph\<rparr>"

lemma wait_step_request:
  assumes "advance pf to_str parse_uuid dev t held r w l = Some (Inr r', w', l')"
    and "rq_phase r \<notin> {Identify, AccountEntry}" and ok: "request_ok r"
  shows "r' = (let p = rq_parts r; a = the (rq_account r) in
    case rq_phase r of
      AuthenticationWait \<Rightarrow> with_permit Authentication Run r
    | AdmissionWait \<Rightarrow> with_permit Requests Identify r
    | AccountRequestWait \<Rightarrow> with_permit (AccountRequests a) (after_requests p) r
    | AccountWriteWait \<Rightarrow> with_permit (AccountWrites a) (after_writes p) r
    | AccountLargeWait \<Rightarrow> with_permit (AccountLarge a) GlobalWait r
    | GlobalWait \<Rightarrow> with_permit Requests (after_global p) r
    | _ \<Rightarrow> with_permit Large Run r)"
  using assms
  by (cases "rq_phase r")
    (auto simp: advance_def Let_def acquire_Some with_permit_def bind_eq_Some_conv large_request_def
      try_acquire_Some split: sum.splits option.splits)

lemma with_permit_ok:
  assumes "request_ok r"
  shows "rq_phase r = AuthenticationWait \<Longrightarrow> request_ok (with_permit Authentication Run r)"
    and "rq_phase r = AdmissionWait \<Longrightarrow> request_ok (with_permit Requests Identify r)"
    and "rq_phase r = AccountRequestWait \<Longrightarrow>
          request_ok (with_permit (AccountRequests (the (rq_account r))) (after_requests (rq_parts r)) r)"
    and "rq_phase r = AccountWriteWait \<Longrightarrow>
          request_ok (with_permit (AccountWrites (the (rq_account r))) (after_writes (rq_parts r)) r)"
    and "rq_phase r = AccountLargeWait \<Longrightarrow>
          request_ok (with_permit (AccountLarge (the (rq_account r))) GlobalWait r)"
    and "rq_phase r = GlobalWait \<Longrightarrow> request_ok (with_permit Requests (after_global (rq_parts r)) r)"
    and "rq_phase r = GlobalLargeWait \<Longrightarrow> request_ok (with_permit Large Run r)"
    and "rq_phase r = UploadStart \<Longrightarrow> request_ok (with_permit Large Run r)"
  using assms is_upload_large [of "rq_parts r"]
  by (cases "is_write (rq_parts r)"; cases "is_large (rq_parts r)"; cases "is_upload (rq_parts r)";
      simp add: with_permit_def phase_simps)+

lemma wait_step_ok:
  assumes "advance pf to_str parse_uuid dev t held r w l = Some (Inr r', w', l')"
    and "rq_phase r \<notin> {Identify, AccountEntry}" and "request_ok r"
  shows "request_ok r'"
proof -
  have "rq_phase r \<noteq> Run" using assms(1) by (auto simp: advance_def Let_def)
  with assms(2) wait_step_request [OF assms] with_permit_ok [OF assms(3)] show ?thesis
    by (cases "rq_phase r") (simp_all add: Let_def)
qed

lemma identify_step:
  assumes "advance pf to_str parse_uuid dev t held r w l = Some (Inr r', w', l')"
    and "rq_phase r = Identify" and "request_ok r"
  shows "request_ok r' \<and> rq_account r = None \<and> rq_account r' = None
    \<and> ((rq_permits r' = rq_permits r \<and> same_slots l' l)
       \<or> (rq_permits r = [Requests] \<and> rq_permits r' = [] \<and> same_slots l' (free_permit Requests l)))"
proof -
  have own: "rq_permits r = [Requests]" "rq_account r = None" "\<not> is_sign_in (rq_parts r)"
    using assms(2,3) by (simp_all add: request_ok_def owns_def Let_def)
  from assms obtain user p' l1 where cu: "current_user pf to_str parse_uuid dev t (rq_parts r) w l = (Inr user, p', w', l1)"
    and id: "identified user p' r l1 = (r', l')"
    by (auto simp: advance_def Let_def split: prod.splits sum.splits)
  note keep = current_user_keeps [OF cu]
  have kind: "\<not> is_sign_in p'" using kind_cong(1) [of p' "rq_parts r"] keep own by simp
  show ?thesis
  proof (cases "is_logout p'")
    case True
    with id have "r' = r\<lparr>rq_parts := p', rq_user := Some user, rq_phase := Run\<rparr>" "l' = l1"
      by (simp_all add: identified_def)
    with True kind own keep show ?thesis by (simp add: request_ok_def owns_def Let_def)
  next
    case False
    with id own have "r' = r\<lparr>rq_parts := p', rq_user := Some user, rq_phase := AccountEntry, rq_permits := []\<rparr>"
      and "l' = free_permit Requests l1"
      by (simp_all add: identified_def)
    with False kind own keep show ?thesis
      by (simp add: request_ok_def owns_def Let_def same_slots_def free_permit_def)
  qed
qed

lemma entry_step:
  assumes "advance pf to_str parse_uuid dev t held r w l = Some (Inr r', w', l')"
    and "rq_phase r = AccountEntry" and "request_ok r"
  obtains u a l1 where "rq_user r = Some u" and "same_slots l1 l" and "account_slots held u l1 = (a, l')"
    and "r' = r\<lparr>rq_account := Some a, rq_phase := AccountRequestWait\<rparr>" and "rq_permits r = []" and "rq_permits r' = []"
    and "request_ok r'" and "rq_account r = None"
proof -
  from assms obtain u where u: "rq_user r = Some u" and e: "enter_account t held u r l = (Inr r', l')"
    by (auto simp: advance_def Let_def case_prod_beta) (metis prod.collapse)
  from e obtain a reads where slots: "account_slots held u (l\<lparr>lm_reads := reads\<rparr>) = (a, l')"
    and r': "r' = r\<lparr>rq_account := Some a, rq_phase := AccountRequestWait\<rparr>"
    by (auto simp: enter_account_def Let_def split: prod.splits sum.splits if_splits)
  have "same_slots (l\<lparr>lm_reads := reads\<rparr>) l" by (simp add: same_slots_def)
  moreover have "rq_permits r = []" "request_ok r'" "rq_account r = None"
    using assms(2,3) u r' by (simp_all add: request_ok_def owns_def Let_def)
  ultimately show ?thesis using that u slots r' by simp
qed

lemma refused_step:
  assumes "advance pf to_str parse_uuid dev t held r w l = Some (Inl e, w', l')"
  shows "same_slots l' l"
proof (cases "rq_phase r")
  case Identify
  with assms current_user_keeps show ?thesis
    by (fastforce simp: advance_def Let_def keep_world_def split: prod.splits sum.splits)
next
  case AccountEntry
  with assms show ?thesis
    by (auto simp: advance_def enter_account_def Let_def same_slots_def split: prod.splits sum.splits if_splits)
qed (use assms in \<open>auto simp: advance_def Let_def bind_eq_Some_conv same_slots_def split: sum.splits\<close>)

section \<open>Permits are conserved\<close>

definition held :: "request list \<Rightarrow> semaphore \<Rightarrow> nat" where
  "held rs sem = sum_list (map (\<lambda>r. count_list (rq_permits r) sem) rs)"

definition made :: "request_limits \<Rightarrow> semaphore \<Rightarrow> bool" where
  "made l sem =
     (case sem of AccountRequests a \<Rightarrow> a < lm_next_address l | AccountWrites a \<Rightarrow> a < lm_next_address l
      | AccountLarge a \<Rightarrow> a < lm_next_address l | _ \<Rightarrow> True)"

definition conserved :: "request list \<Rightarrow> request_limits \<Rightarrow> bool" where
  "conserved rs l \<longleftrightarrow> (\<forall>sem. made l sem \<longrightarrow> lm_free l sem + held rs sem = capacity sem)"

definition accounts_ok :: "request list \<Rightarrow> request_limits \<Rightarrow> bool" where
  "accounts_ok rs l \<longleftrightarrow>
     distinct (map fst (lm_accounts l)) \<and> distinct (map snd (lm_accounts l))
     \<and> (\<forall>(u, a) \<in> set (lm_accounts l). a < lm_next_address l)
     \<and> (\<forall>r \<in> set rs. \<forall>a. rq_account r = Some a \<longrightarrow> (\<exists>u. rq_user r = Some u \<and> (u, a) \<in> set (lm_accounts l)))"

definition limits_ok :: "request list \<Rightarrow> request_limits \<Rightarrow> bool" where
  "limits_ok rs l \<longleftrightarrow> (\<forall>r \<in> set rs. request_ok r) \<and> conserved rs l \<and> accounts_ok rs l"

lemma held_append [simp]: "held (xs @ ys) sem = held xs sem + held ys sem"
  and held_Cons [simp]: "held (r # rs) sem = count_list (rq_permits r) sem + held rs sem"
  and held_Nil [simp]: "held [] sem = 0"
  by (simp_all add: held_def)

lemma same_slots_made: "same_slots l' l \<Longrightarrow> made l' sem = made l sem"
  by (simp add: same_slots_def made_def split: semaphore.split)

lemma made_update [simp]: "made (l\<lparr>lm_free := f\<rparr>) sem = made l sem"
  by (simp add: made_def split: semaphore.split)

lemma made_free_permit [simp]: "made (free_permit x l) sem = made l sem"
  by (simp add: free_permit_def)

lemma conserved_same: "same_slots l' l \<Longrightarrow> conserved rs l' = conserved rs l"
  by (simp add: conserved_def same_slots_made) (simp add: same_slots_def)

lemma accounts_ok_same: "same_slots l' l \<Longrightarrow> accounts_ok rs l' = accounts_ok rs l"
  by (simp add: accounts_ok_def same_slots_def)

lemma accounts_ok_free [simp]: "accounts_ok rs (free_permit sem l) = accounts_ok rs l"
  "accounts_ok rs (l\<lparr>lm_free := f\<rparr>) = accounts_ok rs l"
  by (simp_all add: accounts_ok_def free_permit_def)

lemma accounts_ok_subset: "accounts_ok rs l \<Longrightarrow> set rs' \<subseteq> set rs \<Longrightarrow> accounts_ok rs' l"
  unfolding accounts_ok_def by blast

lemma conserved_took:
  assumes "took sem r r' l l'" and c: "conserved (xs @ r # ys) l"
  shows "conserved (xs @ r' # ys) l'"
proof -
  let ?l = "l\<lparr>lm_free := (lm_free l)(sem := lm_free l sem - 1)\<rparr>"
  have "conserved (xs @ r' # ys) ?l"
    unfolding conserved_def
  proof (intro allI impI)
    fix s
    assume "made ?l s"
    then have "lm_free l s + held (xs @ r # ys) s = capacity s" using c by (simp add: conserved_def)
    then show "lm_free ?l s + held (xs @ r' # ys) s = capacity s"
      using assms(1) by (auto simp: took_def)
  qed
  moreover have "same_slots l' ?l" using assms(1) unfolding took_def by blast
  ultimately show ?thesis using conserved_same by blast
qed

lemma conserved_free:
  assumes "conserved (xs @ r # ys) l" and "rq_permits r = sem # rq_permits r'"
  shows "conserved (xs @ r' # ys) (free_permit sem l)"
  using assms by (auto simp: conserved_def free_permit_def)

lemma conserved_release: "conserved (xs @ r # ys) l \<Longrightarrow> conserved (xs @ ys) (release r l)"
proof (induction "rq_permits r" arbitrary: r l)
  case Nil
  then show ?case by (simp add: release_def conserved_def flip: Nil(1))
next
  case (Cons sem ps)
  let ?r = "r\<lparr>rq_permits := ps\<rparr>"
  have eq: "release r l = free_permit sem (release ?r l)" by (simp add: release_def flip: Cons(2))
  have "conserved (xs @ ?r # ys) (free_permit sem l)"
    using Cons by (intro conserved_free [of _ r]) simp_all
  moreover have "release ?r (free_permit sem l) = free_permit sem (release ?r l)"
  proof -
    have "foldr free_permit qs (free_permit sem l) = free_permit sem (foldr free_permit qs l)" for qs
      by (induction qs) (auto simp: free_permit_def fun_upd_twist)
    then show ?thesis by (simp add: release_def)
  qed
  ultimately show ?case using Cons(1) [of ?r "free_permit sem l"] eq by simp
qed

lemma accounts_ok_release [simp]: "accounts_ok rs (release r l) = accounts_ok rs l"
proof -
  have "accounts_ok rs (foldr free_permit qs l) = accounts_ok rs l" for qs
    by (induction qs) simp_all
  then show ?thesis by (simp add: release_def)
qed

lemma limits_ok_drop:
  assumes "limits_ok (xs @ r # ys) l"
  shows "limits_ok (xs @ ys) (release r l)"
  using assms conserved_release accounts_ok_subset [of "xs @ r # ys" l "xs @ ys"]
  by (auto simp: limits_ok_def)

text \<open>A request only owns permits of slots that were made.\<close>

lemma owned_made:
  assumes "request_ok r" and "accounts_ok rs l" and "r \<in> set rs" and "\<not> made l sem"
  shows "sem \<notin> set (rq_permits r)"
proof
  assume "sem \<in> set (rq_permits r)"
  with assms(1,4) have "rq_account r \<noteq> None \<and> sem \<in>
      {AccountRequests (the (rq_account r)), AccountWrites (the (rq_account r)), AccountLarge (the (rq_account r))}"
    by (cases "rq_phase r")
      (auto simp: request_ok_def owns_def Let_def account_permits_def made_def split: if_splits)
  with assms show False by (fastforce simp: accounts_ok_def made_def)
qed

lemma held_zero:
  assumes "limits_ok rs l" and "\<not> made l sem"
  shows "held rs sem = 0"
proof -
  have "\<forall>r \<in> set rs. sem \<notin> set (rq_permits r)"
    using assms owned_made unfolding limits_ok_def by blast
  then show ?thesis by (induction rs) simp_all
qed

lemma conserved_entry:
  assumes "limits_ok rs l" and "account_slots addrs u l = (a, l')"
  shows "conserved rs l'"
  unfolding conserved_def
proof (intro allI impI)
  fix sem
  assume m: "made l' sem"
  show "lm_free l' sem + held rs sem = capacity sem"
  proof (cases "made l sem")
    case True
    then have "lm_free l sem + held rs sem = capacity sem"
      using assms(1) by (simp add: limits_ok_def conserved_def)
    then show ?thesis using assms(2) True
      by (auto simp: account_slots_def Let_def made_def split: option.splits semaphore.splits)
  next
    case False
    note held_zero [OF assms(1) False]
    then show ?thesis using assms(2) m False
      by (cases sem) (auto simp: account_slots_def Let_def made_def split: option.splits)
  qed
qed

lemma held_addresses_iff: "a \<in> set (held_addresses rs) \<longleftrightarrow> (\<exists>r \<in> set rs. rq_account r = Some a)"
  by (force simp: held_addresses_def List.map_filter_def)

text \<open>Entering an account keeps the entries of the requests under way, and makes no second one for a user.\<close>

lemma accounts_ok_entry:
  assumes ok: "accounts_ok (xs @ r # ys) l" and none: "rq_account r = None" and u: "rq_user r = Some u"
    and slots: "account_slots (held_addresses (xs @ ys)) u l = (a, l')"
  shows "accounts_ok (xs @ r\<lparr>rq_account := Some a, rq_phase := ph\<rparr> # ys) l'"
proof -
  let ?kept = "filter (\<lambda>(_, b). b \<in> set (held_addresses (xs @ ys))) (lm_accounts l)"
  have kept: "\<exists>v. rq_user q = Some v \<and> (v, b) \<in> set ?kept" if "q \<in> set (xs @ ys)" "rq_account q = Some b" for q b
    using ok that held_addresses_iff [of b "xs @ ys"] by (fastforce simp: accounts_ok_def)
  have below: "\<forall>(v, b) \<in> set ?kept. b < lm_next_address l" using ok by (auto simp: accounts_ok_def)
  have d: "distinct (map fst ?kept)" "distinct (map snd ?kept)"
    using ok by (simp_all add: accounts_ok_def distinct_map_filter)
  show ?thesis
  proof (cases "map_of ?kept u")
    case (Some b)
    then have eq: "b = a" "lm_accounts l' = ?kept" "lm_next_address l' = lm_next_address l"
      using slots by (auto simp: account_slots_def Let_def)
    with map_of_SomeD [OF Some] have "(u, a) \<in> set ?kept" by simp
    with kept below d u show ?thesis unfolding accounts_ok_def eq by fastforce
  next
    case None
    then have eq: "a = lm_next_address l" "lm_accounts l' = ?kept @ [(u, a)]" "lm_next_address l' = Suc (lm_next_address l)"
      using slots by (auto simp: account_slots_def Let_def)
    have "u \<notin> fst ` set ?kept" using None by (simp add: map_of_eq_None_iff)
    moreover have "a \<notin> snd ` set ?kept" using below eq(1) by fastforce
    ultimately have "distinct (map fst (lm_accounts l')) \<and> distinct (map snd (lm_accounts l'))"
      using d by (simp add: eq(2))
    moreover have "\<forall>(v, b) \<in> set (lm_accounts l'). b < lm_next_address l'" using below eq by fastforce
    moreover have "\<exists>v. rq_user q = Some v \<and> (v, b) \<in> set (lm_accounts l')"
      if "q \<in> set (xs @ r\<lparr>rq_account := Some a, rq_phase := ph\<rparr> # ys)" "rq_account q = Some b" for q b
      using kept [of q b] that u by (auto simp: eq(2))
    ultimately show ?thesis unfolding accounts_ok_def by blast
  qed
qed

lemma accounts_ok_replace:
  assumes "accounts_ok (xs @ r # ys) l" and "rq_account r' = None \<or> rq_account r' = rq_account r \<and> rq_user r' = rq_user r"
  shows "accounts_ok (xs @ r' # ys) l"
  using assms unfolding accounts_ok_def by auto

lemma limits_ok_advance:
  assumes ok: "limits_ok (xs @ r # ys) l"
    and step: "advance pf to_str parse_uuid dev t (held_addresses (xs @ ys)) r w l = Some (Inr r', w', l')"
  shows "limits_ok (xs @ r' # ys) l'"
proof -
  have r: "request_ok r" and rest: "\<forall>q \<in> set (xs @ ys). request_ok q" and c: "conserved (xs @ r # ys) l"
    and acc: "accounts_ok (xs @ r # ys) l"
    using ok by (simp_all add: limits_ok_def)
  consider "rq_phase r \<notin> {Identify, AccountEntry}" | "rq_phase r = Identify" | "rq_phase r = AccountEntry" by blast
  then have "request_ok r' \<and> conserved (xs @ r' # ys) l' \<and> accounts_ok (xs @ r' # ys) l'"
  proof cases
    case 1
    obtain sem where t: "took sem r r' l l'" using wait_step [OF step 1 r] by blast
    then have "same_slots l' (l\<lparr>lm_free := (lm_free l)(sem := lm_free l sem - 1)\<rparr>)"
      and "rq_account r' = rq_account r \<and> rq_user r' = rq_user r" unfolding took_def by blast+
    with accounts_ok_replace [OF acc, of r'] have "accounts_ok (xs @ r' # ys) l'"
      using accounts_ok_same accounts_ok_free(2) by blast
    with wait_step_ok [OF step 1 r] conserved_took [OF t c] show ?thesis by simp
  next
    case 2
    from identify_step [OF step 2 r] have r': "request_ok r'" "rq_account r' = None" by simp_all
    from identify_step [OF step 2 r] consider
        "rq_permits r' = rq_permits r" "same_slots l' l"
      | "rq_permits r = [Requests]" "rq_permits r' = []" "same_slots l' (free_permit Requests l)" by blast
    then show ?thesis
    proof cases
      case 1
      with c r' accounts_ok_replace [OF acc, of r'] show ?thesis
        by (simp add: conserved_same accounts_ok_same) (simp add: conserved_def)
    next
      case 2
      with conserved_free [OF c, of Requests r'] r' accounts_ok_replace [OF acc, of r'] show ?thesis
        by (simp add: conserved_same accounts_ok_same)
    qed
  next
    case 3
    from step 3 r obtain u a l1 where u: "rq_user r = Some u" and l1: "same_slots l1 l"
      and slots: "account_slots (held_addresses (xs @ ys)) u l1 = (a, l')"
      and r': "r' = r\<lparr>rq_account := Some a, rq_phase := AccountRequestWait\<rparr>" and p: "rq_permits r = []" "rq_permits r' = []"
      and ok': "request_ok r'" and none: "rq_account r = None"
      by (rule entry_step)
    have "limits_ok (xs @ r # ys) l1"
      using ok l1 by (simp add: limits_ok_def conserved_same accounts_ok_same)
    then have "conserved (xs @ r # ys) l'" using slots by (rule conserved_entry)
    then have "conserved (xs @ r' # ys) l'" using p by (simp add: conserved_def)
    moreover have "accounts_ok (xs @ r' # ys) l'"
      unfolding r' by (rule accounts_ok_entry [OF _ none u slots]) (simp add: accounts_ok_same [OF l1] acc)
    ultimately show ?thesis using ok' by simp
  qed
  with rest show ?thesis by (auto simp: limits_ok_def)
qed

lemma limits_ok_refuse:
  "limits_ok (xs @ r # ys) l \<Longrightarrow> same_slots l' l \<Longrightarrow> limits_ok (xs @ ys) (release r l')"
  by (rule limits_ok_drop) (simp add: limits_ok_def conserved_same accounts_ok_same)

lemma limits_ok_step:
  "limit_step pf to_str parse_uuid dev s es s' \<Longrightarrow> limits_ok (fst s) (snd (snd s)) \<Longrightarrow> limits_ok (fst s') (snd (snd s'))"
proof (induction rule: limit_step.induct)
  case (arrive_step p rs w l)
  then show ?case
    by (auto simp: limits_ok_def new_request_ok conserved_def accounts_ok_def) (simp_all add: new_request_def)
next
  case (advance_step t xs ys r w l r' w' l')
  then show ?case using limits_ok_advance by fastforce
next
  case (refuse_step t xs ys r w l e w' l')
  then show ?case using limits_ok_refuse refused_step by fastforce
next
  case (time_out_step r xs ys w l)
  then show ?case using limits_ok_drop by fastforce
next
  case (leave_step xs r ys w l)
  then show ?case using limits_ok_drop by fastforce
qed simp

lemma limits_ok_default: "limits_ok [] default_limits"
  by (auto simp: limits_ok_def conserved_def accounts_ok_def default_limits_def made_def split: semaphore.splits)

lemma limits_ok_reachable:
  assumes "steps (limit_step pf to_str parse_uuid dev) ([], w, default_limits) es (rs, w', l)"
  shows "limits_ok rs l"
proof -
  from assms have "limits_ok (fst (rs, w', l)) (snd (snd (rs, w', l)))"
    by (rule steps_invariant [where P = "\<lambda>s. limits_ok (fst s) (snd (snd s))"])
      (auto intro: limits_ok_step simp: limits_ok_default)
  then show ?thesis by simp
qed

section \<open>Properties\<close>

definition handling :: "request \<Rightarrow> bool" where
  "handling r \<longleftrightarrow> rq_phase r \<in> {UploadStart, Run}"

lemma owners_le_held:
  "(\<And>r. r \<in> set rs \<Longrightarrow> P r \<Longrightarrow> sem \<in> set (rq_permits r)) \<Longrightarrow> length (filter P rs) \<le> held rs sem"
proof (induction rs)
  case (Cons r rs)
  then have "length (filter P rs) \<le> held rs sem" by simp
  moreover have "P r \<Longrightarrow> 0 < count_list (rq_permits r) sem" using Cons.prems [of r] by (metis count_list_0_iff gr0I list.set_intros(1))
  ultimately show ?case by fastforce
qed simp

lemma owners_bounded:
  assumes "limits_ok rs l" and "made l sem" and "\<And>r. r \<in> set rs \<Longrightarrow> P r \<Longrightarrow> sem \<in> set (rq_permits r)"
  shows "length (filter P rs) \<le> capacity sem"
proof -
  have "lm_free l sem + held rs sem = capacity sem" using assms(1,2) by (simp add: limits_ok_def conserved_def)
  with owners_le_held [of rs P sem, OF assms(3)] show ?thesis by simp
qed

lemma logout_small: "is_logout p \<Longrightarrow> \<not> is_large p"
  unfolding is_large_def is_upload_def is_logout_def request_path_def
  by (simp add: starts_with_def)

lemma sign_in_small: "is_sign_in p \<Longrightarrow> \<not> is_large p"
  unfolding is_large_def is_upload_def is_sign_in_def by (auto simp: starts_with_def)

lemma account_owner:
  assumes "request_ok r" and "handling r" and "\<not> is_sign_in (rq_parts r)" and "\<not> is_logout (rq_parts r)"
  obtains a where "rq_account r = Some a" and "AccountRequests a \<in> set (rq_permits r)"
    and "is_write (rq_parts r) \<Longrightarrow> AccountWrites a \<in> set (rq_permits r)"
    and "is_large (rq_parts r) \<Longrightarrow> AccountLarge a \<in> set (rq_permits r)"
  using assms that by (auto simp: handling_def request_ok_def owns_def account_permits_def Let_def)

text \<open>The requests a user's account runs are bounded by what its slots have.\<close>

lemma account_bounded:
  assumes ok: "limits_ok rs l"
    and P: "\<And>r. r \<in> set rs \<Longrightarrow> P r \<Longrightarrow>
      rq_user r = Some u \<and> (\<exists>a. rq_account r = Some a \<and> f a \<in> set (rq_permits r))"
    and f: "\<And>a. capacity (f a) = n \<and> made l (f a) = (a < lm_next_address l)"
  shows "length (filter P rs) \<le> n"
proof (cases "filter P rs")
  case (Cons q qs)
  then have q: "q \<in> set rs" "P q" by (auto simp: filter_eq_Cons_iff)
  with P obtain a where a: "rq_user q = Some u" "rq_account q = Some a" by blast
  have acc: "accounts_ok rs l" using ok by (simp add: limits_ok_def)
  with a q have mem: "(u, a) \<in> set (lm_accounts l)" by (force simp: accounts_ok_def)
  have same: "f a \<in> set (rq_permits r)" if r: "r \<in> set rs" "P r" for r
  proof -
    from P [OF r] obtain b where b: "rq_user r = Some u" "rq_account r = Some b" "f b \<in> set (rq_permits r)" by blast
    with acc r have "(u, b) \<in> set (lm_accounts l)" by (force simp: accounts_ok_def)
    with mem acc have "b = a" by (auto simp: accounts_ok_def dest: eq_key_imp_eq_value)
    with b show ?thesis by simp
  qed
  have "made l (f a)" using mem acc f by (auto simp: accounts_ok_def)
  from owners_bounded [OF ok this same] f show ?thesis by simp
qed simp

text \<open>
  C23. Concurrency stays within its limits in every run of the server, whatever requests arrive, fail, time out or are
  abandoned: at most 4 sign-ins and 32 other requests are being handled, at most 2 of them with a large body,
  and of one user at most 8, of which at most 4 write and at most 1 is large (signing out apart, which no
  account limit can block).
\<close>

theorem concurrency_is_bounded:
  assumes "steps (limit_step pf to_str parse_uuid dev) ([], w, default_limits) es (rs, w', l)"
  shows "length (filter (\<lambda>r. handling r \<and> is_sign_in (rq_parts r)) rs) \<le> 4
    \<and> length (filter (\<lambda>r. handling r \<and> \<not> is_sign_in (rq_parts r)) rs) \<le> 32
    \<and> length (filter (\<lambda>r. rq_phase r = Run \<and> is_large (rq_parts r)) rs) \<le> 2
    \<and> length (filter (\<lambda>r. handling r \<and> rq_user r = Some u \<and> \<not> is_sign_in (rq_parts r) \<and> \<not> is_logout (rq_parts r)) rs) \<le> 8
    \<and> length (filter (\<lambda>r. handling r \<and> rq_user r = Some u \<and> \<not> is_sign_in (rq_parts r) \<and> \<not> is_logout (rq_parts r)
                        \<and> is_write (rq_parts r)) rs) \<le> 4
    \<and> length (filter (\<lambda>r. handling r \<and> rq_user r = Some u \<and> is_large (rq_parts r)) rs) \<le> 1"
proof (intro conjI)
  note ok = limits_ok_reachable [OF assms]
  have ro: "request_ok r" if "r \<in> set rs" for r using ok that by (simp add: limits_ok_def)
  have made: "made l Requests" "made l Authentication" "made l Large" by (simp_all add: made_def)
  show "length (filter (\<lambda>r. handling r \<and> is_sign_in (rq_parts r)) rs) \<le> 4"
    by (rule owners_bounded [OF ok made(2), simplified])
      (use ro in \<open>auto simp: handling_def request_ok_def owns_def Let_def split: if_splits\<close>)
  show "length (filter (\<lambda>r. handling r \<and> \<not> is_sign_in (rq_parts r)) rs) \<le> 32"
    by (rule owners_bounded [OF ok made(1), simplified])
      (use ro in \<open>auto simp: handling_def request_ok_def owns_def Let_def split: if_splits\<close>)
  show "length (filter (\<lambda>r. rq_phase r = Run \<and> is_large (rq_parts r)) rs) \<le> 2"
    by (rule owners_bounded [OF ok made(3), simplified])
      (use ro logout_small sign_in_small in \<open>fastforce simp: request_ok_def owns_def Let_def split: if_splits\<close>)
  show "length (filter (\<lambda>r. handling r \<and> rq_user r = Some u \<and> \<not> is_sign_in (rq_parts r) \<and> \<not> is_logout (rq_parts r)) rs) \<le> 8"
    by (rule account_bounded [OF ok, where f = AccountRequests and u = u])
      (use ro account_owner in \<open>auto simp: made_def, metis\<close>)
  show "length (filter (\<lambda>r. handling r \<and> rq_user r = Some u \<and> \<not> is_sign_in (rq_parts r) \<and> \<not> is_logout (rq_parts r)
                        \<and> is_write (rq_parts r)) rs) \<le> 4"
    by (rule account_bounded [OF ok, where f = AccountWrites and u = u])
      (use ro account_owner in \<open>auto simp: made_def, metis\<close>)
  show "length (filter (\<lambda>r. handling r \<and> rq_user r = Some u \<and> is_large (rq_parts r)) rs) \<le> 1"
    by (rule account_bounded [OF ok, where f = AccountLarge and u = u])
      (use ro account_owner logout_small sign_in_small in \<open>auto simp: made_def, metis\<close>)
qed

text \<open>A request arrives, and another one gets its admission.\<close>

definition admitted_limits :: request_limits where
  "admitted_limits = default_limits\<lparr>lm_free := (lm_free default_limits)(Requests := 31)\<rparr>"

definition admitted_request :: request where
  "admitted_request = (new_request example_parts)\<lparr>rq_permits := [Requests], rq_phase := Identify\<rparr>"

lemma example_run:
  "steps (limit_step (ascii_platform 0) Some (\<lambda>_. None) False) ([], empty_world, default_limits) []
     ([admitted_request, new_request example_parts], empty_world, admitted_limits)"
proof -
  let ?step = "limit_step (ascii_platform 0) Some (\<lambda>_. None) False"
  have none: "pt_authenticated_user example_parts = None" by (simp add: example_parts_def)
  have ph: "rq_phase (new_request example_parts) = AdmissionWait" by code_simp
  have "acquire Requests Identify (new_request example_parts) default_limits = Some (admitted_request, admitted_limits)"
    by (simp add: acquire_Some admitted_request_def admitted_limits_def default_limits_def new_request_def)
  then have adv: "advance (ascii_platform 0) Some (\<lambda>_. None) False 0 (held_addresses ([] @ [])) (new_request example_parts)
      empty_world default_limits = Some (Inr admitted_request, empty_world, admitted_limits)"
    by (simp add: advance_def ph Let_def)
  have 1: "?step ([], empty_world, default_limits) [] ([new_request example_parts], empty_world, default_limits)"
    using limit_step.arrive_step [OF none, of _ _ _ _ "[]"] by simp
  have 2: "?step ([new_request example_parts], empty_world, default_limits) [] ([admitted_request], empty_world, admitted_limits)"
    using limit_step.advance_step [OF adv] by simp
  have 3: "?step ([admitted_request], empty_world, admitted_limits) []
      ([admitted_request, new_request example_parts], empty_world, admitted_limits)"
    using limit_step.arrive_step [OF none, of _ _ _ _ "[admitted_request]"] by simp
  show ?thesis using steps_step [OF steps_step [OF steps_one [of ?step, OF 1] 2] 3] by simp
qed

theorem concurrency_is_bounded_witness:
  "\<exists>rs w l. steps (limit_step (ascii_platform 0) Some (\<lambda>_. None) False) ([], empty_world, default_limits) [] (rs, w, l)
     \<and> length rs = 2 \<and> length (filter (\<lambda>r. handling r \<and> \<not> is_sign_in (rq_parts r)) rs) \<le> 32"
  using example_run concurrency_is_bounded [OF example_run]
  by (intro exI [of _ "[admitted_request, new_request example_parts]"] exI [of _ empty_world] exI [of _ admitted_limits]) simp

text \<open>The semaphore a waiting request waits for.\<close>

definition waits_for :: "request \<Rightarrow> semaphore option" where
  "waits_for r =
     (case rq_phase r of
        AuthenticationWait \<Rightarrow> Some Authentication
      | AdmissionWait \<Rightarrow> Some Requests
      | AccountRequestWait \<Rightarrow> map_option AccountRequests (rq_account r)
      | AccountWriteWait \<Rightarrow> map_option AccountWrites (rq_account r)
      | AccountLargeWait \<Rightarrow> map_option AccountLarge (rq_account r)
      | GlobalWait \<Rightarrow> Some Requests
      | GlobalLargeWait \<Rightarrow> Some Large
      | _ \<Rightarrow> None)"

lemma waits_for_advance:
  assumes "waits_for r = Some sem"
  shows "advance pf to_str parse_uuid dev t addrs r w l \<noteq> None \<longleftrightarrow> 0 < lm_free l sem"
  using assms
  by (cases "rq_phase r")
    (auto simp: waits_for_def advance_def Let_def keep_world_def acquire_def try_acquire_def split: if_splits)

lemma count_list_distinct: "distinct xs \<Longrightarrow> count_list xs x = (if x \<in> set xs then 1 else 0)"
  by (induction xs) auto

lemma owns_once: "request_ok r \<Longrightarrow> distinct (rq_permits r)"
  by (cases "rq_phase r") (simp_all add: request_ok_def owns_def account_permits_def Let_def)

lemma waits_not_owned: "request_ok r \<Longrightarrow> waits_for r = Some sem \<Longrightarrow> sem \<notin> set (rq_permits r)"
  by (cases "rq_phase r") (auto simp: waits_for_def request_ok_def owns_def account_permits_def Let_def)

lemma held_counts_owners:
  assumes "\<forall>r \<in> set rs. request_ok r"
  shows "held rs sem = length (filter (\<lambda>q. sem \<in> set (rq_permits q)) rs)"
  using assms
proof (induction rs)
  case (Cons r rs)
  then have "count_list (rq_permits r) sem = (if sem \<in> set (rq_permits r) then 1 else 0)"
    using owns_once [of r] by (simp add: count_list_distinct)
  with Cons show ?case by simp
qed simp

lemma owned_slots:
  assumes "request_ok q" and "sem \<in> set (rq_permits q)" and "sem \<in> {AccountRequests a, AccountWrites a, AccountLarge a}"
  shows "rq_account q = Some a"
  using assms
  by (cases "rq_phase q") (auto simp: request_ok_def owns_def account_permits_def Let_def split: if_splits)

text \<open>
  C24. No capacity is lost and no account takes another's. In every run a waiting request may go on exactly when fewer
  requests than the semaphore's capacity own one of its permits, so every permit of a request that ended, failed,
  timed out or went away is back; and the slots of an account are owned by requests of that user only.
\<close>

theorem waits_end_when_capacity_is_free:
  assumes run: "steps (limit_step pf to_str parse_uuid dev) ([], w, default_limits) es (xs @ r # ys, w', l)"
    and wait: "waits_for r = Some sem"
  shows "(advance pf to_str parse_uuid dev t (held_addresses (xs @ ys)) r w' l \<noteq> None \<longleftrightarrow>
            length (filter (\<lambda>q. sem \<in> set (rq_permits q)) (xs @ ys)) < capacity sem)
    \<and> (sem \<notin> {Requests, Authentication, Large} \<longrightarrow>
         (\<forall>q \<in> set (xs @ ys). sem \<in> set (rq_permits q) \<longrightarrow> rq_user q = rq_user r))"
proof
  note ok = limits_ok_reachable [OF run]
  have r: "request_ok r" and all: "\<forall>q \<in> set (xs @ r # ys). request_ok q" and acc: "accounts_ok (xs @ r # ys) l"
    and c: "conserved (xs @ r # ys) l"
    using ok by (auto simp: limits_ok_def)
  have own: "\<exists>a u. rq_account r = Some a \<and> sem \<in> {AccountRequests a, AccountWrites a, AccountLarge a}
      \<and> rq_user r = Some u \<and> (u, a) \<in> set (lm_accounts l)"
    if "sem \<notin> {Requests, Authentication, Large}"
  proof -
    from wait that obtain a where "rq_account r = Some a" "sem \<in> {AccountRequests a, AccountWrites a, AccountLarge a}"
      by (cases "rq_phase r") (auto simp: waits_for_def)
    with acc show ?thesis by (fastforce simp: accounts_ok_def)
  qed
  have "made l sem"
    using own acc by (cases "sem \<in> {Requests, Authentication, Large}") (fastforce simp: made_def accounts_ok_def)+
  then have "lm_free l sem + held (xs @ r # ys) sem = capacity sem" using c by (simp add: conserved_def)
  moreover have "held (xs @ r # ys) sem = length (filter (\<lambda>q. sem \<in> set (rq_permits q)) (xs @ ys))"
    using held_counts_owners [OF all, of sem] waits_not_owned [OF r wait] by (simp del: held_append held_Cons)
  ultimately show "advance pf to_str parse_uuid dev t (held_addresses (xs @ ys)) r w' l \<noteq> None \<longleftrightarrow>
      length (filter (\<lambda>q. sem \<in> set (rq_permits q)) (xs @ ys)) < capacity sem"
    using waits_for_advance [OF wait] by auto
  show "sem \<notin> {Requests, Authentication, Large} \<longrightarrow>
      (\<forall>q \<in> set (xs @ ys). sem \<in> set (rq_permits q) \<longrightarrow> rq_user q = rq_user r)"
  proof (intro impI ballI)
    fix q
    assume "sem \<notin> {Requests, Authentication, Large}" and q: "q \<in> set (xs @ ys)" "sem \<in> set (rq_permits q)"
    then obtain a u where a: "sem \<in> {AccountRequests a, AccountWrites a, AccountLarge a}" "rq_user r = Some u"
      "(u, a) \<in> set (lm_accounts l)" using own by blast
    with q all have "rq_account q = Some a" by (intro owned_slots) auto
    with acc q obtain v where v: "rq_user q = Some v" "(v, a) \<in> set (lm_accounts l)" by (fastforce simp: accounts_ok_def)
    have "distinct (map snd (lm_accounts l))" using acc by (simp add: accounts_ok_def)
    from distinct_map_inj [OF this v(2) a(3)] v a show "rq_user q = rq_user r" by simp
  qed
qed

theorem waits_end_when_capacity_is_free_witness:
  "advance (ascii_platform 0) Some (\<lambda>_. None) False 5 (held_addresses [admitted_request]) (new_request example_parts)
     empty_world admitted_limits \<noteq> None"
proof -
  have "steps (limit_step (ascii_platform 0) Some (\<lambda>_. None) False) ([], empty_world, default_limits) []
     ([admitted_request] @ new_request example_parts # [], empty_world, admitted_limits)"
    using example_run by simp
  moreover have "waits_for (new_request example_parts) = Some Requests" by code_simp
  ultimately have "advance (ascii_platform 0) Some (\<lambda>_. None) False 5 (held_addresses ([admitted_request] @ []))
     (new_request example_parts) empty_world admitted_limits \<noteq> None \<longleftrightarrow>
     length (filter (\<lambda>q. Requests \<in> set (rq_permits q)) ([admitted_request] @ [])) < capacity Requests"
    by (rule conjunct1 [OF waits_end_when_capacity_is_free])
  then show ?thesis by simp
qed

end
