(* ===== verification/EventExchange.thy ===== *)
theory EventExchange
  imports CalendarStore Auth
begin

text \<open>
  How \<open>sync_service.rs\<close> reads and writes Google Calendar events: the JSON shapes, the recurrence rule, and the
  fingerprint that tells whether an event still is what the provider was given. The text forms chrono and
  serde\_json produce and read are the functions of a \<open>codec\<close>.
\<close>

section \<open>Shapes\<close>

record google_event_time =
  et_date_time :: "timestamp option"
  et_date :: "date option"
  et_time_zone :: "string option"

record google_event =
  gv_id :: "string option"
  gv_etag :: "string option"
  gv_status :: "string option"
  gv_summary :: "string option"
  gv_description :: string
  gv_start :: "google_event_time option"
  gv_end :: "google_event_time option"
  gv_location :: string
  gv_attendees :: "string list"
  gv_recurrence :: "string list"
  gv_updated :: "timestamp option"

record google_event_write =
  gw_id :: "string option"
  gw_summary :: string
  gw_description :: string
  gw_start :: google_event_time
  gw_end :: google_event_time
  gw_location :: string
  gw_attendees :: "string list"
  gw_recurrence :: "string list"

record codec =
  until_text :: "timestamp \<Rightarrow> string"
  parse_until :: "string \<Rightarrow> timestamp option"
  write_json :: "google_event_write \<Rightarrow> string"
  show_datetime :: "timestamp \<Rightarrow> string"
  parse_millis :: "string \<Rightarrow> timestamp option"

record normalized_event =
  ne_title :: string
  ne_description :: string
  ne_starts_at :: timestamp
  ne_ends_at :: timestamp
  ne_all_day :: bool
  ne_timezone :: string
  ne_location :: string
  ne_attendees :: "string list"
  ne_recurrence :: event_recurrence
  ne_recurrence_until :: "timestamp option"

record local_event = normalized_event +
  le_id :: uuid

section \<open>Conversions\<close>

definition date_naive :: "timestamp \<Rightarrow> date" where
  "date_naive t = t div (86400 * second)"

definition midnight :: "date \<Rightarrow> timestamp" where
  "midnight d = d * (86400 * second)"

fun debug_recurrence :: "event_recurrence \<Rightarrow> string" where
  "debug_recurrence EvNone = ''None''"
| "debug_recurrence EvDaily = ''Daily''"
| "debug_recurrence EvWeekly = ''Weekly''"
| "debug_recurrence EvMonthly = ''Monthly''"
| "debug_recurrence EvYearly = ''Yearly''"

definition ascii_upper :: "string \<Rightarrow> string" where
  "ascii_upper s = map (\<lambda>c. let n = (of_char c :: nat)
                            in if 97 \<le> n \<and> n \<le> 122 then char_of (n - 32) else c) s"

definition recurrence_rule :: "codec \<Rightarrow> event_recurrence \<Rightarrow> timestamp option \<Rightarrow> string list" where
  "recurrence_rule cd r until =
     (if r = EvNone then []
      else [''RRULE:FREQ='' @ ascii_upper (debug_recurrence r)
            @ (case until of None \<Rightarrow> [] | Some t \<Rightarrow> '';UNTIL='' @ until_text cd t)])"

definition parse_recurrence :: "codec \<Rightarrow> string list \<Rightarrow> event_recurrence \<times> timestamp option" where
  "parse_recurrence cd values =
     (case find (\<lambda>v. starts_with v ''RRULE:'') values of
        None \<Rightarrow> (EvNone, None)
      | Some rule \<Rightarrow>
          (if contains_str rule ''FREQ=DAILY'' then EvDaily
           else if contains_str rule ''FREQ=WEEKLY'' then EvWeekly
           else if contains_str rule ''FREQ=MONTHLY'' then EvMonthly
           else if contains_str rule ''FREQ=YEARLY'' then EvYearly
           else EvNone,
           Option.bind
             (case List.map_filter (strip_prefix ''UNTIL='') (split_on (CHR '';'') rule) of
                value # _ \<Rightarrow> Some value
              | [] \<Rightarrow> None)
             (parse_until cd)))"

definition time_write :: "bool \<Rightarrow> timestamp \<Rightarrow> string \<Rightarrow> google_event_time" where
  "time_write all_day t timezone =
     \<lparr>et_date_time = (if all_day then None else Some t),
      et_date = (if all_day then Some (date_naive t) else None),
      et_time_zone = (if all_day then None else Some timezone)\<rparr>"

definition from_local :: "codec \<Rightarrow> local_event \<Rightarrow> google_event_write" where
  "from_local cd e =
     \<lparr>gw_id = None, gw_summary = ne_title e, gw_description = ne_description e,
      gw_start = time_write (ne_all_day e) (ne_starts_at e) (ne_timezone e),
      gw_end = time_write (ne_all_day e) (ne_ends_at e) (ne_timezone e),
      gw_location = ne_location e, gw_attendees = ne_attendees e,
      gw_recurrence = recurrence_rule cd (ne_recurrence e) (ne_recurrence_until e)\<rparr>"

definition event_time :: "google_event_time \<Rightarrow> (string, timestamp) res" where
  "event_time v =
     (case et_date_time v of
        Some t \<Rightarrow> Inr t
      | None \<Rightarrow> (case et_date v of
                   Some d \<Rightarrow> Inr (midnight d)
                 | None \<Rightarrow> Inl ''Google event time is empty''))"

definition normalize_event :: "codec \<Rightarrow> google_event \<Rightarrow> (string, normalized_event) res" where
  "normalize_event cd event =
     bind_res (ok_or (gv_start event) ''Google event has no start'') (\<lambda>start.
     bind_res (ok_or (gv_end event) ''Google event has no end'') (\<lambda>end.
     bind_res (event_time start) (\<lambda>starts_at.
     bind_res (event_time end) (\<lambda>ends_at.
     let (recurrence, until) = parse_recurrence cd (gv_recurrence event)
     in Inr \<lparr>ne_title = (case gv_summary event of Some s \<Rightarrow> s | None \<Rightarrow> ''Untitled event''),
             ne_description = gv_description event, ne_starts_at = starts_at, ne_ends_at = ends_at,
             ne_all_day = (et_date_time start = None),
             ne_timezone = (case et_time_zone start of Some z \<Rightarrow> z | None \<Rightarrow> ''UTC''),
             ne_location = gv_location event, ne_attendees = gv_attendees event,
             ne_recurrence = recurrence, ne_recurrence_until = until\<rparr>))))"

section \<open>Fingerprints\<close>

definition hex_bytes :: "string \<Rightarrow> string" where
  "hex_bytes s = concat (map (\<lambda>c. hex_pad 2 (of_char c)) s)"

definition fingerprint :: "platform \<Rightarrow> string \<Rightarrow> string" where
  "fingerprint pf value = hex_bytes (sha256 pf value)"

definition local_fingerprint :: "platform \<Rightarrow> codec \<Rightarrow> local_event \<Rightarrow> string" where
  "local_fingerprint pf cd e = fingerprint pf (write_json cd (from_local cd e))"

definition event_fingerprint :: "platform \<Rightarrow> codec \<Rightarrow> normalized_event \<Rightarrow> string" where
  "event_fingerprint pf cd e = local_fingerprint pf cd (normalized_event.extend e \<lparr>le_id = 0\<rparr>)"

definition local_of :: "event_row \<Rightarrow> local_event" where
  "local_of e =
     \<lparr>ne_title = e_title e, ne_description = e_description e, ne_starts_at = e_starts_at e, ne_ends_at = e_ends_at e,
      ne_all_day = e_all_day e, ne_timezone = e_timezone e, ne_location = e_location e, ne_attendees = e_attendees e,
      ne_recurrence = e_recurrence e, ne_recurrence_until = e_recurrence_until e, le_id = e_id e\<rparr>"

definition snapshot_event_fingerprint :: "platform \<Rightarrow> codec \<Rightarrow> event_row \<Rightarrow> string" where
  "snapshot_event_fingerprint pf cd e = local_fingerprint pf cd (local_of e)"

definition legacy_snapshot_event_fingerprint :: "platform \<Rightarrow> codec \<Rightarrow> event_row \<Rightarrow> string" where
  "legacy_snapshot_event_fingerprint pf cd e =
     fingerprint pf (e_title e @ ''|'' @ e_description e @ ''|'' @ show_datetime cd (e_starts_at e) @ ''|''
       @ show_datetime cd (e_ends_at e) @ ''|'' @ e_location e @ ''|'' @ debug_recurrence (e_recurrence e))"

definition google_event_id :: "uuid \<Rightarrow> string" where
  "google_event_id i = hex_pad 32 i"

section \<open>Reading back what was written\<close>

text \<open>
  \<open>reads_back\<close>: the event resource shows the fields the write carried. \<open>codec_ok\<close>: a formatted end of a
  recurrence has only digits and the letters T and Z, and parsing it gives a time that formats alike. (chrono does so for
  the years 0 to 9999, beyond which it writes a sign; no date of the application is that far away.)
\<close>

definition reads_back :: "google_event_write \<Rightarrow> google_event \<Rightarrow> bool" where
  "reads_back b ev \<longleftrightarrow>
     gv_summary ev = Some (gw_summary b) \<and> gv_description ev = gw_description b \<and> gv_start ev = Some (gw_start b)
     \<and> gv_end ev = Some (gw_end b) \<and> gv_location ev = gw_location b \<and> gv_attendees ev = gw_attendees b
     \<and> gv_recurrence ev = gw_recurrence b"

definition codec_ok :: "codec \<Rightarrow> bool" where
  "codec_ok cd \<longleftrightarrow>
     (\<forall>t. set (until_text cd t) \<subseteq> set ''0123456789TZ'')
     \<and> (\<forall>t. \<exists>t'. parse_until cd (until_text cd t) = Some t' \<and> until_text cd t' = until_text cd t)"

lemma contains_str_absent: "p \<noteq> [] \<Longrightarrow> hd p \<notin> set s \<Longrightarrow> \<not> contains_str s p"
  by (induction s) (auto simp: neq_Nil_conv)

lemma split_on_absent: "c \<notin> set s \<Longrightarrow> split_on c s = [s]"
  by (induction s) auto

lemma split_on_append: "c \<notin> set s \<Longrightarrow> split_on c (s @ c # r) = s # split_on c r"
  by (induction s) auto

lemma frequency_text:
  "ascii_upper ''Daily'' = ''DAILY''" "ascii_upper ''Weekly'' = ''WEEKLY''"
  "ascii_upper ''Monthly'' = ''MONTHLY''" "ascii_upper ''Yearly'' = ''YEARLY''"
  by code_simp+

text \<open>The recurrence of a written rule, and the formatted end, are what reading it gives.\<close>

lemma parse_rule_frequency:
  assumes "codec_ok cd" and "r \<noteq> EvNone"
  shows "fst (parse_recurrence cd (recurrence_rule cd r until)) = r"
proof (cases until)
  case None
  with assms(2) show ?thesis
    by (cases r) (simp_all add: parse_recurrence_def recurrence_rule_def frequency_text starts_with_def)
next
  case (Some t)
  have "set (until_text cd t) \<subseteq> set ''0123456789TZ''" using assms(1) unfolding codec_ok_def by blast
  then have "CHR ''F'' \<notin> set (until_text cd t)" by auto
  then have "\<not> contains_str (until_text cd t) (CHR ''F'' # p)" for p by (simp add: contains_str_absent)
  with Some assms(2) show ?thesis
    by (cases r) (simp_all add: parse_recurrence_def recurrence_rule_def frequency_text starts_with_def)
qed

lemma rule_parts:
  assumes "codec_ok cd" and "r \<noteq> EvNone"
  shows "split_on (CHR '';'') (hd (recurrence_rule cd r until)) =
    (''RRULE:FREQ='' @ ascii_upper (debug_recurrence r)) # (case until of None \<Rightarrow> [] | Some t \<Rightarrow> [''UNTIL='' @ until_text cd t])"
proof (cases until)
  case None
  with assms(2) show ?thesis by (cases r) (simp_all add: recurrence_rule_def frequency_text)
next
  case (Some t)
  have "set (until_text cd t) \<subseteq> set ''0123456789TZ''" using assms(1) unfolding codec_ok_def by blast
  then have "CHR '';'' \<notin> set (until_text cd t)" by auto
  then have "split_on (CHR '';'') (until_text cd t) = [until_text cd t]" by (rule split_on_absent)
  with Some assms(2) show ?thesis by (cases r) (simp_all add: recurrence_rule_def frequency_text)
qed

lemma parse_rule_until:
  assumes "codec_ok cd" and "r \<noteq> EvNone"
  shows "snd (parse_recurrence cd (recurrence_rule cd r until)) = Option.bind until (\<lambda>t. parse_until cd (until_text cd t))"
proof -
  obtain rule where rule: "recurrence_rule cd r until = [rule]" using assms(2) by (simp add: recurrence_rule_def)
  then have "starts_with rule ''RRULE:''" using assms(2) by (auto simp: recurrence_rule_def starts_with_def)
  moreover have "strip_prefix ''UNTIL='' (''RRULE:FREQ='' @ x) = None" for x
    by (simp add: strip_prefix_def starts_with_def)
  ultimately show ?thesis using rule_parts [OF assms, of until] rule
    by (simp add: parse_recurrence_def List.map_filter_def strip_prefix_def starts_with_def split: option.split)
qed

lemma rule_again:
  assumes "codec_ok cd"
  shows "(case parse_recurrence cd (recurrence_rule cd r until) of (r', u') \<Rightarrow> recurrence_rule cd r' u') = recurrence_rule cd r until"
proof (cases "r = EvNone")
  case True
  then show ?thesis by (simp add: recurrence_rule_def parse_recurrence_def)
next
  case False
  note f = parse_rule_frequency [OF assms False, of until] and u = parse_rule_until [OF assms False, of until]
  show ?thesis
  proof (cases until)
    case None
    with f u show ?thesis by (simp add: case_prod_beta)
  next
    case (Some t)
    obtain t' where "parse_until cd (until_text cd t) = Some t'" "until_text cd t' = until_text cd t"
      using assms unfolding codec_ok_def by blast
    moreover have "recurrence_rule cd r (Some t') = recurrence_rule cd r (Some t)"
      using calculation by (simp add: recurrence_rule_def)
    ultimately show ?thesis using Some f u by (simp add: case_prod_beta)
  qed
qed

lemma date_midnight [simp]: "date_naive (midnight d) = d"
  by (simp add: date_naive_def midnight_def second_def)

section \<open>Properties\<close>

text \<open>
  C25. An event that was written to Google and is read back unchanged is recognised as unchanged. Whatever the event (all-day
  or not, recurring or not, with or without an end of its recurrence), normalising the resource that shows the
  written fields succeeds and has the fingerprint stored for the local event, the one deletion Undo compares;
  title, texts, attendees, repeat rule and, for an event that is not all-day, times and time zone are those of the
  local event.
\<close>

theorem written_events_keep_their_fingerprint:
  assumes "codec_ok cd" and "reads_back (from_local cd e) ev"
  shows "\<exists>n. normalize_event cd ev = Inr n \<and> event_fingerprint pf cd n = local_fingerprint pf cd e
    \<and> ne_title n = ne_title e \<and> ne_description n = ne_description e \<and> ne_location n = ne_location e
    \<and> ne_attendees n = ne_attendees e \<and> ne_all_day n = ne_all_day e \<and> ne_recurrence n = ne_recurrence e
    \<and> (\<not> ne_all_day e \<longrightarrow> ne_starts_at n = ne_starts_at e \<and> ne_ends_at n = ne_ends_at e \<and> ne_timezone n = ne_timezone e)
    \<and> (ne_all_day e \<longrightarrow> ne_starts_at n = midnight (date_naive (ne_starts_at e))
                        \<and> ne_ends_at n = midnight (date_naive (ne_ends_at e)))"
proof -
  obtain r u where ru: "parse_recurrence cd (recurrence_rule cd (ne_recurrence e) (ne_recurrence_until e)) = (r, u)"
    by fastforce
  have r: "r = ne_recurrence e"
    using parse_rule_frequency [OF assms(1), of "ne_recurrence e" "ne_recurrence_until e"] ru
    by (cases "ne_recurrence e = EvNone") (auto simp: recurrence_rule_def parse_recurrence_def)
  have rule: "recurrence_rule cd r u = recurrence_rule cd (ne_recurrence e) (ne_recurrence_until e)"
    using rule_again [OF assms(1), of "ne_recurrence e" "ne_recurrence_until e"] ru by simp
  let ?n = "\<lparr>ne_title = ne_title e, ne_description = ne_description e,
      ne_starts_at = (if ne_all_day e then midnight (date_naive (ne_starts_at e)) else ne_starts_at e),
      ne_ends_at = (if ne_all_day e then midnight (date_naive (ne_ends_at e)) else ne_ends_at e),
      ne_all_day = ne_all_day e, ne_timezone = (if ne_all_day e then ''UTC'' else ne_timezone e),
      ne_location = ne_location e, ne_attendees = ne_attendees e, ne_recurrence = r, ne_recurrence_until = u\<rparr>"
  have "normalize_event cd ev = Inr ?n"
    using assms(2) ru
    by (simp add: normalize_event_def reads_back_def from_local_def time_write_def event_time_def)
  moreover have "event_fingerprint pf cd ?n = local_fingerprint pf cd e"
    by (simp add: event_fingerprint_def local_fingerprint_def from_local_def time_write_def rule
        normalized_event.extend_def)
  ultimately show ?thesis using r by auto
qed

text \<open>A codec that computes, and a recurring all-day event.\<close>

definition unary_codec :: codec where
  "unary_codec =
     \<lparr>until_text = (\<lambda>t. replicate (nat (t div second)) (CHR ''0'')), parse_until = (\<lambda>s. Some (int (length s) * second)),
      write_json = (\<lambda>b. gw_summary b @ concat (gw_recurrence b)), show_datetime = show_int, parse_millis = (\<lambda>_. None)\<rparr>"

lemma unary_codec_ok: "codec_ok unary_codec"
  unfolding codec_ok_def
proof (intro conjI allI)
  show "set (until_text unary_codec t) \<subseteq> set ''0123456789TZ''" for t by (auto simp: unary_codec_def)
  show "\<exists>t'. parse_until unary_codec (until_text unary_codec t) = Some t'
      \<and> until_text unary_codec t' = until_text unary_codec t" for t
    by (simp add: unary_codec_def second_def)
qed

definition example_local :: local_event where
  "example_local = \<lparr>ne_title = ''Retrospective'', ne_description = [], ne_starts_at = 5, ne_ends_at = 86400 * second,
     ne_all_day = True, ne_timezone = ''Europe/Rome'', ne_location = [], ne_attendees = [''a@b''],
     ne_recurrence = EvWeekly, ne_recurrence_until = Some (3 * second + 7), le_id = 1\<rparr>"

definition example_resource :: google_event where
  "example_resource = (let b = from_local unary_codec example_local in
     \<lparr>gv_id = Some ''x'', gv_etag = Some ''1'', gv_status = Some ''confirmed'', gv_summary = Some (gw_summary b),
      gv_description = gw_description b, gv_start = Some (gw_start b), gv_end = Some (gw_end b),
      gv_location = gw_location b, gv_attendees = gw_attendees b, gv_recurrence = gw_recurrence b, gv_updated = None\<rparr>)"

theorem written_events_keep_their_fingerprint_witness:
  "\<exists>n. normalize_event unary_codec example_resource = Inr n \<and> ne_recurrence n = EvWeekly
     \<and> event_fingerprint (ascii_platform 0) unary_codec n = local_fingerprint (ascii_platform 0) unary_codec example_local"
proof -
  have "reads_back (from_local unary_codec example_local) example_resource"
    by (simp add: reads_back_def example_resource_def Let_def)
  from written_events_keep_their_fingerprint [OF unary_codec_ok this, of "ascii_platform 0"]
  show ?thesis by (auto simp: example_local_def)
qed

end
