(* ===== verification/RemoteEvents.thy ===== *)
theory RemoteEvents
  imports EventExchange
begin

text \<open>
  \<open>apply_remote_event\<close> of \<open>sync_service.rs\<close>: what one event of a Google calendar does to the local calendar. The
  statements are transactions of their own, so a failure keeps what was written before it: a step returns its
  outcome together with the world in both cases. The CHECK constraints of \<open>calendar_events\<close> are modelled here,
  because the provider's events are stored without a validation before.
\<close>

section \<open>Canonical events\<close>

fun display_error :: "app_error \<Rightarrow> string" where
  "display_error (Validation m) = m"
| "display_error (InvalidRequest s m) = m"
| "display_error Unauthorized = ''authentication is required''"
| "display_error (Forbidden m) = m"
| "display_error (NotFound r) = r @ '' was not found''"
| "display_error RouteNotFound = ''route was not found''"
| "display_error MethodNotAllowed = ''method is not allowed for this route''"
| "display_error (Conflict m) = m"
| "display_error (NotConfigured i) = i @ '' is not configured''"
| "display_error (Integration e) = ''external integration failed''"
| "display_error (Database e) = ''database operation failed''"

type_synonym 'a outcome = "(string, 'a) res \<times> world"

definition check_violation :: string where
  "check_violation = ''new row violates check constraint''"

definition sql_trim :: "string \<Rightarrow> string" where
  "sql_trim s = rev (dropWhile (\<lambda>c. c = CHR '' '') (rev (dropWhile (\<lambda>c. c = CHR '' '') s)))"

definition event_checks :: "normalized_event \<Rightarrow> bool" where
  "event_checks n \<longleftrightarrow>
     1 \<le> chars_count (sql_trim (ne_title n)) \<and> chars_count (sql_trim (ne_title n)) \<le> 240
     \<and> chars_count (ne_description n) \<le> 10000
     \<and> 1 \<le> chars_count (ne_timezone n) \<and> chars_count (ne_timezone n) \<le> 64
     \<and> chars_count (ne_location n) \<le> 500
     \<and> ne_starts_at n < ne_ends_at n
     \<and> (ne_recurrence n \<noteq> EvNone \<or> ne_recurrence_until n = None)"

definition canonical_row :: "uuid \<Rightarrow> uuid \<Rightarrow> uuid \<Rightarrow> normalized_event \<Rightarrow> timestamp \<Rightarrow> event_row" where
  "canonical_row user i calendar n t =
     \<lparr>e_id = i, e_calendar_id = calendar, e_linked_task_id = None, e_title = ne_title n, e_description = ne_description n,
      e_starts_at = ne_starts_at n, e_ends_at = ne_ends_at n, e_all_day = ne_all_day n, e_timezone = ne_timezone n,
      e_location = ne_location n, e_attendees = ne_attendees n, e_recurrence = ne_recurrence n,
      e_recurrence_until = ne_recurrence_until n, e_created_at = t, e_updated_at = t, e_version = 1, e_user_id = user\<rparr>"

text \<open>
  The calendar of the row is one the synchronization job has just read; that it may be deleted before the row is inserted
  (a violated foreign key) is not modelled.
\<close>

definition insert_canonical_event :: "uuid \<Rightarrow> uuid \<Rightarrow> uuid \<Rightarrow> normalized_event \<Rightarrow> world \<Rightarrow> unit outcome" where
  "insert_canonical_event user i calendar n w =
     (if event_checks n then (Inr (), w\<lparr>events := events w @ [canonical_row user i calendar n (now w)]\<rparr>)
      else (Inl check_violation, w))"

definition set_canonical :: "uuid \<Rightarrow> normalized_event \<Rightarrow> timestamp \<Rightarrow> event_row \<Rightarrow> event_row" where
  "set_canonical calendar n t e =
     e\<lparr>e_calendar_id := calendar, e_title := ne_title n, e_description := ne_description n,
       e_starts_at := ne_starts_at n, e_ends_at := ne_ends_at n, e_all_day := ne_all_day n,
       e_timezone := ne_timezone n, e_location := ne_location n, e_attendees := ne_attendees n,
       e_recurrence := ne_recurrence n, e_recurrence_until := ne_recurrence_until n, e_updated_at := t,
       e_version := e_version e + 1\<rparr>"

definition retitle_task :: "normalized_event \<Rightarrow> timestamp \<Rightarrow> task_row \<Rightarrow> task_row" where
  "retitle_task n t r =
     r\<lparr>t_title := ne_title n, t_description := ne_description n, t_scheduled_start := Some (ne_starts_at n),
       t_scheduled_end := Some (ne_ends_at n), t_updated_at := t, t_version := t_version r + 1\<rparr>"

definition unschedule_task :: "timestamp \<Rightarrow> task_row \<Rightarrow> task_row" where
  "unschedule_task t r =
     r\<lparr>t_scheduled_start := None, t_scheduled_end := None, t_updated_at := t, t_version := t_version r + 1\<rparr>"

definition linked_task :: "uuid \<Rightarrow> uuid \<Rightarrow> world \<Rightarrow> uuid option" where
  "linked_task user i w = Option.bind (event_by_id user i w) e_linked_task_id"

definition update_canonical_event :: "uuid \<Rightarrow> uuid \<Rightarrow> uuid \<Rightarrow> normalized_event \<Rightarrow> world \<Rightarrow> unit outcome" where
  "update_canonical_event user i calendar n w =
     (case event_by_id user i w of
        None \<Rightarrow> (Inr (), w)
      | Some e \<Rightarrow>
          if \<not> event_checks n then (Inl check_violation, w)
          else (let w' = w\<lparr>events := update_where (\<lambda>e. e_id e = i \<and> e_user_id e = user)
                              (set_canonical calendar n (now w)) (events w)\<rparr>
                in (Inr (), case e_linked_task_id e of
                      None \<Rightarrow> w'
                    | Some t \<Rightarrow> update_tasks (\<lambda>r. t_id r = t \<and> t_user_id r = user) (retitle_task n (now w)) w')))"

definition delete_canonical_event :: "uuid \<Rightarrow> uuid \<Rightarrow> world \<Rightarrow> world" where
  "delete_canonical_event user i w =
     (let task = linked_task user i w;
          w = delete_events (\<lambda>e. e_id e = i \<and> e_user_id e = user) w
      in case task of
           None \<Rightarrow> w
         | Some t \<Rightarrow> update_tasks (\<lambda>r. t_id r = t \<and> t_user_id r = user) (unschedule_task (now w)) w)"

section \<open>Mappings\<close>

definition update_mapping :: "uuid \<Rightarrow> (mapping_row \<Rightarrow> mapping_row) \<Rightarrow> world \<Rightarrow> world" where
  "update_mapping i f w = w\<lparr>mappings := update_where (\<lambda>m. m_id m = i) f (mappings w)\<rparr>"

definition set_baseline :: "string option \<Rightarrow> string \<Rightarrow> timestamp \<Rightarrow> mapping_row \<Rightarrow> mapping_row" where
  "set_baseline etag fp t m =
     m\<lparr>m_external_etag := etag, m_base_fingerprint := Some fp, m_local_dirty := False, m_local_deleted := False,
       m_pending_resolution := None, m_delete_resolution_pending := False, m_last_synced_at := Some t\<rparr>"

definition update_mapping_baseline ::
  "platform \<Rightarrow> codec \<Rightarrow> uuid \<Rightarrow> google_event \<Rightarrow> normalized_event \<Rightarrow> world \<Rightarrow> world" where
  "update_mapping_baseline pf cd i remote n w =
     update_mapping i (set_baseline (gv_etag remote) (event_fingerprint pf cd n) (now w)) w"

definition new_mapping ::
  "uuid \<Rightarrow> uuid \<Rightarrow> uuid \<Rightarrow> uuid \<Rightarrow> string \<Rightarrow> string \<Rightarrow> string option \<Rightarrow> string \<Rightarrow> timestamp \<Rightarrow> mapping_row" where
  "new_mapping i user calendar event external_calendar external_event etag fp t =
     \<lparr>m_id = i, m_user_id = user, m_calendar_id = calendar, m_canonical_event_id = Some event,
      m_external_calendar_id = external_calendar, m_external_event_id = external_event, m_external_etag = etag,
      m_base_fingerprint = Some fp, m_local_dirty = False, m_local_deleted = False, m_conflict_state = ''none'',
      m_pending_resolution = None, m_last_synced_at = Some t, m_deletion_hold_until = None,
      m_reversible_tombstone = False, m_delete_resolution_pending = False\<rparr>"

text \<open>The two UNIQUE constraints of the table.\<close>

definition insert_mapping :: "mapping_row \<Rightarrow> world \<Rightarrow> unit outcome" where
  "insert_mapping m w =
     (if \<exists>x \<in> set (mappings w).
           (m_user_id x = m_user_id m \<and> m_external_calendar_id x = m_external_calendar_id m
            \<and> m_external_event_id x = m_external_event_id m)
           \<or> (m_canonical_event_id m \<noteq> None \<and> m_canonical_event_id x = m_canonical_event_id m)
      then (Inl (display_error (unique_violation ''external_event_mappings_key'')), w)
      else (Inr (), w\<lparr>mappings := mappings w @ [m]\<rparr>))"

definition create_conflict :: "uuid \<Rightarrow> mapping_row \<Rightarrow> string \<Rightarrow> world \<Rightarrow> world" where
  "create_conflict user m title w =
     (let (i, w) = new_uuid w;
          w = (if \<exists>k \<in> set (conflicts w). k_mapping_id k = m_id m \<and> k_status k = ''unresolved'' then w
               else w\<lparr>conflicts := conflicts w @ [\<lparr>k_id = i, k_user_id = user, k_mapping_id = m_id m,
                       k_canonical_event_id = m_canonical_event_id m, k_title = title, k_status = ''unresolved'',
                       k_resolution = None, k_created_at = now w, k_resolved_at = None\<rparr>]\<rparr>);
          w = update_mapping (m_id m) (\<lambda>m. m\<lparr>m_conflict_state := ''unresolved''\<rparr>) w
      in record_activity user ''synchronization_conflict'' ''A calendar event needs a conflict decision'' w)"

definition drop_receipts :: "uuid \<Rightarrow> uuid \<Rightarrow> world \<Rightarrow> world" where
  "drop_receipts user mapping w =
     w\<lparr>delete_undos := delete_where (\<lambda>u. du_user_id u = user
         \<and> map_option m_id (sn_mapping (du_snapshot u)) = Some mapping) (delete_undos w)\<rparr>"

section \<open>The decision\<close>

record sync_calendar =
  sc_id :: uuid
  sc_external_id :: string
  sc_sync_token :: "string option"

fun policy_text :: "sync_conflict_policy \<Rightarrow> string" where
  "policy_text Ask = ''ask''"
| "policy_text Latest = ''latest''"
| "policy_text PolicyGoogle = ''google''"
| "policy_text PolicyProsepect = ''prosepect''"

definition conflict_policy :: "uuid \<Rightarrow> mapping_row \<Rightarrow> world \<Rightarrow> string" where
  "conflict_policy user m w =
     (case m_pending_resolution m of
        Some r \<Rightarrow> r
      | None \<Rightarrow> (case row_by (\<lambda>s. us_user_id s = user) (settings w) of
                   Some s \<Rightarrow> policy_text (us_sync_conflict_policy s)
                 | None \<Rightarrow> ''ask''))"

definition local_updated_at :: "mapping_row \<Rightarrow> world \<Rightarrow> timestamp option" where
  "local_updated_at m w =
     Option.bind (m_canonical_event_id m) (\<lambda>i. map_option e_updated_at (row_by (\<lambda>e. e_id e = i) (events w)))"

definition keep_local :: "string \<Rightarrow> google_event \<Rightarrow> mapping_row \<Rightarrow> world \<Rightarrow> bool" where
  "keep_local policy event m w \<longleftrightarrow>
     policy = ''prosepect''
     \<or> policy = ''latest'' \<and> (case (gv_updated event, local_updated_at m w) of
          (Some remote, Some local) \<Rightarrow> remote \<le> local | _ \<Rightarrow> False)"

definition mapping_of :: "uuid \<Rightarrow> string \<Rightarrow> string \<Rightarrow> world \<Rightarrow> mapping_row option" where
  "mapping_of user calendar event w =
     row_by (\<lambda>m. m_user_id m = user \<and> m_external_calendar_id m = calendar \<and> m_external_event_id m = event) (mappings w)"

definition title_or :: "string \<Rightarrow> google_event \<Rightarrow> string" where
  "title_or d event = (case gv_summary event of Some s \<Rightarrow> s | None \<Rightarrow> d)"

text \<open>A mapping that waits for an Undo to expire.\<close>

definition apply_to_tombstone :: "uuid \<Rightarrow> mapping_row \<Rightarrow> google_event \<Rightarrow> world \<Rightarrow> world" where
  "apply_to_tombstone user m event w =
     (if gv_status event = Some ''cancelled''
      then delete_mappings (\<lambda>x. m_id x = m_id m) (drop_receipts user (m_id m) w)
      else if gv_etag event = None \<or> m_external_etag m \<noteq> gv_etag event
      then drop_receipts user (m_id m) (create_conflict user m (title_or ''Deleted task event'' event) w)
      else w)"

definition apply_cancelled :: "uuid \<Rightarrow> mapping_row \<Rightarrow> google_event \<Rightarrow> world \<Rightarrow> world" where
  "apply_cancelled user m event w =
     (let policy = conflict_policy user m w in
      if m_local_dirty m \<and> policy = ''ask'' then create_conflict user m (title_or ''Deleted event'' event) w
      else if m_local_dirty m \<and> keep_local policy event m w then delete_mappings (\<lambda>x. m_id x = m_id m) w
      else (let w = (case m_canonical_event_id m of None \<Rightarrow> w | Some i \<Rightarrow> delete_canonical_event user i w);
                w = delete_mappings (\<lambda>x. m_id x = m_id m) w
            in record_activity user ''remote_event_deleted'' ''Applied a Google event deletion'' w))"

definition apply_change ::
  "platform \<Rightarrow> codec \<Rightarrow> uuid \<Rightarrow> sync_calendar \<Rightarrow> mapping_row \<Rightarrow> google_event \<Rightarrow> normalized_event \<Rightarrow> world \<Rightarrow> unit outcome" where
  "apply_change pf cd user calendar m event n w =
     (let written = (case m_canonical_event_id m of
            Some i \<Rightarrow> update_canonical_event user i (sc_id calendar) n w
          | None \<Rightarrow>
              (let (i, w) = new_uuid w
               in case insert_canonical_event user i (sc_id calendar) n w of
                    (Inl e, w) \<Rightarrow> (Inl e, w)
                  | (Inr _, w) \<Rightarrow> (Inr (), update_mapping (m_id m) (\<lambda>m. m\<lparr>m_canonical_event_id := Some i\<rparr>) w)))
      in case written of
           (Inl e, w) \<Rightarrow> (Inl e, w)
         | (Inr _, w) \<Rightarrow>
             (Inr (), record_activity user ''remote_event_applied'' ''Applied a Google event change''
                (update_mapping_baseline pf cd (m_id m) event n w)))"

definition apply_to_mapping ::
  "platform \<Rightarrow> codec \<Rightarrow> uuid \<Rightarrow> sync_calendar \<Rightarrow> mapping_row \<Rightarrow> google_event \<Rightarrow> normalized_event \<Rightarrow> world \<Rightarrow> unit outcome" where
  "apply_to_mapping pf cd user calendar m event n w =
     (let policy = conflict_policy user m w; edited = m_local_dirty m \<or> m_local_deleted m in
      if m_external_etag m = gv_etag event then (Inr (), w)
      else if edited \<and> policy = ''ask'' then (Inr (), create_conflict user m (ne_title n) w)
      else if edited \<and> keep_local policy event m w
      then (Inr (), update_mapping (m_id m) (\<lambda>m. m\<lparr>m_pending_resolution := None\<rparr>) w)
      else apply_change pf cd user calendar m event n w)"

definition import_event ::
  "platform \<Rightarrow> codec \<Rightarrow> uuid \<Rightarrow> sync_calendar \<Rightarrow> string \<Rightarrow> google_event \<Rightarrow> normalized_event \<Rightarrow> world \<Rightarrow> unit outcome" where
  "import_event pf cd user calendar external event n w =
     (let (i, w) = new_uuid w
      in case insert_canonical_event user i (sc_id calendar) n w of
           (Inl e, w) \<Rightarrow> (Inl e, w)
         | (Inr _, w) \<Rightarrow>
             (let (k, w) = new_uuid w
              in case insert_mapping (new_mapping k user (sc_id calendar) i (sc_external_id calendar) external
                        (gv_etag event) (event_fingerprint pf cd n) (now w)) w of
                   (Inl e, w) \<Rightarrow> (Inl e, w)
                 | (Inr _, w) \<Rightarrow>
                     (Inr (), record_activity user ''remote_event_imported'' ''Imported an event from Google'' w)))"

definition apply_remote_event ::
  "platform \<Rightarrow> codec \<Rightarrow> uuid \<Rightarrow> sync_calendar \<Rightarrow> google_event \<Rightarrow> world \<Rightarrow> unit outcome" where
  "apply_remote_event pf cd user calendar event w =
     (case gv_id event of
        None \<Rightarrow> (Inr (), w)
      | Some external \<Rightarrow>
          (let mapping = mapping_of user (sc_external_id calendar) external w in
           case mapping of
             Some m \<Rightarrow>
               if m_reversible_tombstone m then (Inr (), apply_to_tombstone user m event w)
               else if gv_status event = Some ''cancelled'' then (Inr (), apply_cancelled user m event w)
               else (case normalize_event cd event of
                       Inl e \<Rightarrow> (Inl e, w)
                     | Inr n \<Rightarrow> apply_to_mapping pf cd user calendar m event n w)
           | None \<Rightarrow>
               if gv_status event = Some ''cancelled'' then (Inr (), w)
               else (case normalize_event cd event of
                       Inl e \<Rightarrow> (Inl e, w)
                     | Inr n \<Rightarrow> import_event pf cd user calendar external event n w)))"

section \<open>Effects\<close>

lemma record_activity_frame [simp]:
  "events (record_activity u k msg w) = events w" "tasks (record_activity u k msg w) = tasks w"
  "mappings (record_activity u k msg w) = mappings w" "conflicts (record_activity u k msg w) = conflicts w"
  "settings (record_activity u k msg w) = settings w" "delete_undos (record_activity u k msg w) = delete_undos w"
  "calendars (record_activity u k msg w) = calendars w" "note_rows (record_activity u k msg w) = note_rows w"
  by (simp_all add: record_activity_def new_uuid_def)

lemma update_mapping_frame [simp]:
  "events (update_mapping i f w) = events w" "tasks (update_mapping i f w) = tasks w"
  "conflicts (update_mapping i f w) = conflicts w" "settings (update_mapping i f w) = settings w"
  "delete_undos (update_mapping i f w) = delete_undos w" "calendars (update_mapping i f w) = calendars w"
  "now (update_mapping i f w) = now w"
  "mappings (update_mapping i f w) = update_where (\<lambda>m. m_id m = i) f (mappings w)"
  by (simp_all add: update_mapping_def)

lemma drop_receipts_frame [simp]:
  "events (drop_receipts u i w) = events w" "tasks (drop_receipts u i w) = tasks w"
  "conflicts (drop_receipts u i w) = conflicts w" "mappings (drop_receipts u i w) = mappings w"
  "settings (drop_receipts u i w) = settings w" "calendars (drop_receipts u i w) = calendars w"
  "delete_undos (drop_receipts u i w) = delete_where (\<lambda>x. du_user_id x = u
     \<and> map_option m_id (sn_mapping (du_snapshot x)) = Some i) (delete_undos w)"
  by (simp_all add: drop_receipts_def)

definition disputed :: "uuid \<Rightarrow> world \<Rightarrow> bool" where
  "disputed i w \<longleftrightarrow> (\<exists>k \<in> set (conflicts w). k_mapping_id k = i \<and> k_status k = ''unresolved'')"

lemma create_conflict_effect [simp]:
  "events (create_conflict u m t w) = events w" "tasks (create_conflict u m t w) = tasks w"
  "settings (create_conflict u m t w) = settings w" "delete_undos (create_conflict u m t w) = delete_undos w"
  "calendars (create_conflict u m t w) = calendars w"
  "mappings (create_conflict u m t w) =
     update_where (\<lambda>x. m_id x = m_id m) (\<lambda>x. x\<lparr>m_conflict_state := ''unresolved''\<rparr>) (mappings w)"
  "disputed (m_id m) (create_conflict u m t w)"
  by (auto simp: create_conflict_def disputed_def Let_def new_uuid_def)

lemma create_conflict_again: "disputed (m_id m) w \<Longrightarrow> conflicts (create_conflict u m t w) = conflicts w"
  by (auto simp: create_conflict_def disputed_def Let_def new_uuid_def)

text \<open>The mapping of an external event is found by its key and written by its identifier.\<close>

definition mapping_key :: "mapping_row \<Rightarrow> uuid \<times> string \<times> string" where
  "mapping_key m = (m_user_id m, m_external_calendar_id m, m_external_event_id m)"

definition mappings_unique :: "world \<Rightarrow> bool" where
  "mappings_unique w \<longleftrightarrow> distinct (map m_id (mappings w)) \<and> distinct (map mapping_key (mappings w))"

lemma mapping_of_key: "mapping_of u c x w = row_by (\<lambda>m. mapping_key m = (u, c, x)) (mappings w)"
  by (simp add: mapping_of_def mapping_key_def)

lemma mapping_of_Some: "mapping_of u c x w = Some m \<Longrightarrow> m \<in> set (mappings w) \<and> mapping_key m = (u, c, x)"
  unfolding mapping_of_key by (rule row_by_Some)

lemma mapping_of_update:
  assumes u: "mappings_unique w" and m: "mapping_of u c x w = Some m"
    and v: "mappings v = update_where (\<lambda>y. m_id y = m_id m) f (mappings w)" and k: "\<And>y. mapping_key (f y) = mapping_key y"
  shows "mapping_of u c x v = Some (f m)"
proof -
  note mm = mapping_of_Some [OF m]
  have "y = m" if "y \<in> set (mappings w)" "m_id y = m_id m" for y
    using u distinct_map_inj [of m_id "mappings w" y m] that mm by (simp add: mappings_unique_def)
  then have "mappings v = update_where (\<lambda>y. mapping_key y = mapping_key m) f (mappings w)"
    unfolding v update_where_def using u mm distinct_map_inj [of mapping_key "mappings w" _ m]
    by (auto simp: mappings_unique_def)
  then show ?thesis
    unfolding mapping_of_key
    using row_by_update_key [of mapping_key "mappings w" m f "(u, c, x)"] u mm k by (simp add: mappings_unique_def)
qed

lemma mapping_of_delete:
  assumes "mappings_unique w" and "mapping_of u c x w = Some m"
    and "mappings v = delete_where (\<lambda>y. m_id y = m_id m) (mappings w)"
  shows "mapping_of u c x v = None"
  using assms mapping_of_Some [OF assms(2)] distinct_map_inj [of mapping_key "mappings w" _ m]
  unfolding mapping_of_key row_by_None by (auto simp: mappings_unique_def)

text \<open>Writes to the calendar touch no mapping; deleting an event detaches its mapping.\<close>

lemma update_canonical_mappings [simp]:
  "mappings (snd (update_canonical_event u i c n w)) = mappings w"
  by (auto simp: update_canonical_event_def Let_def split: option.split)

lemma delete_canonical_frame [simp]:
  "mappings (delete_canonical_event u i w) =
     map (\<lambda>m. m\<lparr>m_canonical_event_id := unlink (\<lambda>j. \<exists>e \<in> set (events w). e_id e = i \<and> e_user_id e = u \<and> j = i)
       (m_canonical_event_id m)\<rparr>) (mappings w)"
  "events (delete_canonical_event u i w) = delete_where (\<lambda>e. e_id e = i \<and> e_user_id e = u) (events w)"
proof -
  have "(\<lambda>j. j \<in> set (map e_id (filter (\<lambda>e. e_id e = i \<and> e_user_id e = u) (events w))))
      = (\<lambda>j. \<exists>e \<in> set (events w). e_id e = i \<and> e_user_id e = u \<and> j = i)" by (rule ext) auto
  then show "mappings (delete_canonical_event u i w) =
     map (\<lambda>m. m\<lparr>m_canonical_event_id := unlink (\<lambda>j. \<exists>e \<in> set (events w). e_id e = i \<and> e_user_id e = u \<and> j = i)
       (m_canonical_event_id m)\<rparr>) (mappings w)"
    by (simp add: delete_canonical_event_def Let_def delete_events_def delete_notes_def split: option.split)
  show "events (delete_canonical_event u i w) = delete_where (\<lambda>e. e_id e = i \<and> e_user_id e = u) (events w)"
    by (simp add: delete_canonical_event_def Let_def split: option.split)
qed

lemma mapping_of_gone:
  assumes u: "mappings_unique w" and m: "mapping_of u c x w = Some m"
    and v: "mappings v = delete_where (\<lambda>y. m_id y = m_id m) (map g (mappings w))"
    and g: "\<And>y. m_id (g y) = m_id y" "\<And>y. mapping_key (g y) = mapping_key y"
  shows "mapping_of u c x v = None"
  unfolding mapping_of_key row_by_None
proof
  fix y
  assume "y \<in> set (mappings v)"
  then obtain z where z: "z \<in> set (mappings w)" "y = g z" "m_id z \<noteq> m_id m" unfolding v by (auto simp: g)
  note mm = mapping_of_Some [OF m]
  have "mapping_key z \<noteq> mapping_key m"
    using z mm u distinct_map_inj [of mapping_key "mappings w" z m] unfolding mappings_unique_def by blast
  then show "mapping_key y \<noteq> (u, c, x)" using mm z by (simp add: g)
qed

lemma apply_cancelled_takes_remote:
  assumes "mappings_unique w" and "mapping_of u c x w = Some m"
    and "\<not> (m_local_dirty m \<and> (conflict_policy u m w = ''ask'' \<or> keep_local (conflict_policy u m w) event m w))"
  shows "mapping_of u c x (apply_cancelled u m event w) = None
    \<and> (\<forall>e \<in> set (events (apply_cancelled u m event w)). m_canonical_event_id m = Some (e_id e) \<longrightarrow> e_user_id e \<noteq> u)"
proof (cases "m_canonical_event_id m")
  case None
  then have w': "apply_cancelled u m event w =
      record_activity u ''remote_event_deleted'' ''Applied a Google event deletion'' (delete_mappings (\<lambda>y. m_id y = m_id m) w)"
    using assms(3) by (auto simp: apply_cancelled_def Let_def)
  have "mapping_of u c x (apply_cancelled u m event w) = None"
    by (rule mapping_of_delete [OF assms(1,2)]) (simp add: w')
  then show ?thesis by (simp add: None)
next
  case (Some i)
  then have w': "apply_cancelled u m event w =
      record_activity u ''remote_event_deleted'' ''Applied a Google event deletion''
        (delete_mappings (\<lambda>y. m_id y = m_id m) (delete_canonical_event u i w))"
    using assms(3) by (auto simp: apply_cancelled_def Let_def)
  have "mapping_of u c x (apply_cancelled u m event w) = None"
    by (rule mapping_of_gone [OF assms(1,2), where g = "\<lambda>m. m\<lparr>m_canonical_event_id :=
        unlink (\<lambda>j. \<exists>e \<in> set (events w). e_id e = i \<and> e_user_id e = u \<and> j = i) (m_canonical_event_id m)\<rparr>"])
      (simp_all add: w' mapping_key_def)
  then show ?thesis by (simp add: w' Some)
qed

text \<open>Taking the remote version: the event shows it and the mapping is clean.\<close>

definition takes :: "uuid \<Rightarrow> string \<Rightarrow> string \<Rightarrow> google_event \<Rightarrow> normalized_event \<Rightarrow> world \<Rightarrow> bool" where
  "takes user c x event n w \<longleftrightarrow>
     (\<exists>m. mapping_of user c x w = Some m \<and> \<not> m_local_dirty m \<and> \<not> m_local_deleted m \<and> m_external_etag m = gv_etag event
        \<and> m_pending_resolution m = None
        \<and> (\<exists>e \<in> set (events w). m_canonical_event_id m = Some (e_id e) \<and> e_user_id e = user
             \<and> normalized_event.truncate (local_of e) = n))"

lemma truncate_canonical [simp]:
  "normalized_event.truncate (local_of (canonical_row u i c n t)) = n"
  "normalized_event.truncate (local_of (set_canonical c n t e)) = n"
  by (simp_all add: local_of_def canonical_row_def set_canonical_def normalized_event.truncate_def)

lemma apply_change_takes:
  assumes u: "mappings_unique w" and m: "mapping_of user c x w = Some m" and n: "event_checks n"
    and fk: "\<forall>i. m_canonical_event_id m = Some i \<longrightarrow> event_by_id user i w \<noteq> None"
  shows "fst (apply_change pf cd user cal m event n w) = Inr ()
    \<and> takes user c x event n (snd (apply_change pf cd user cal m event n w))"
proof (cases "m_canonical_event_id m")
  case None
  let ?i = "uuid_supply w (drawn w)"
  let ?b = "\<lambda>y. set_baseline (gv_etag event) (event_fingerprint pf cd n) (now w) (y\<lparr>m_canonical_event_id := Some ?i\<rparr>)"
  let ?v = "snd (apply_change pf cd user cal m event n w)"
  have r: "fst (apply_change pf cd user cal m event n w) = Inr ()"
    and ev: "events ?v = events w @ [canonical_row user ?i (sc_id cal) n (now w)]"
    and mv: "mappings ?v = update_where (\<lambda>y. m_id y = m_id m) ?b (mappings w)"
    using n None by (simp_all add: apply_change_def insert_canonical_event_def new_uuid_def Let_def
        update_mapping_baseline_def update_where_def set_baseline_def comp_def)
  have "mapping_of user c x ?v = Some (?b m)"
    by (rule mapping_of_update [OF u m mv]) (simp add: mapping_key_def set_baseline_def)
  then show ?thesis
    using r ev by (auto simp: takes_def set_baseline_def) (simp_all add: canonical_row_def)
next
  case (Some i)
  with fk obtain e where e: "event_by_id user i w = Some e" by blast
  then have ei: "e \<in> set (events w)" "e_id e = i" "e_user_id e = user"
    by (auto simp: event_by_id_def dest: row_by_Some)
  let ?v = "snd (apply_change pf cd user cal m event n w)"
  let ?b = "set_baseline (gv_etag event) (event_fingerprint pf cd n) (now w)"
  have r: "fst (apply_change pf cd user cal m event n w) = Inr ()"
    and ev: "events ?v = update_where (\<lambda>e. e_id e = i \<and> e_user_id e = user) (set_canonical (sc_id cal) n (now w)) (events w)"
    and mv: "mappings ?v = update_where (\<lambda>y. m_id y = m_id m) ?b (mappings w)"
    using n Some e by (simp_all add: apply_change_def update_canonical_event_def Let_def update_mapping_baseline_def
        split: option.split)
  have mo: "mapping_of user c x ?v = Some (?b m)"
    by (rule mapping_of_update [OF u m mv]) (simp add: mapping_key_def set_baseline_def)
  have "set_canonical (sc_id cal) n (now w) e \<in> set (events ?v)"
    unfolding ev set_update_where using ei by force
  moreover have "e_id (set_canonical (sc_id cal) n (now w) e) = i" "e_user_id (set_canonical (sc_id cal) n (now w) e) = user"
    using ei by (simp_all add: set_canonical_def)
  ultimately show ?thesis
    using r mo Some unfolding takes_def by (auto simp: set_baseline_def)
qed

section \<open>Properties\<close>

text \<open>
  Who wins when an event changed on both sides, as the settings page explains it and independently of the code: a
  decision taken for the conflict goes before the account's policy, an account without settings is asked, and the
  policy ``latest'' keeps the local version only where both times of change are known and Google's is not later.
\<close>

datatype winner = AskUser | KeepLocal | TakeRemote

definition chosen_policy :: "uuid \<Rightarrow> mapping_row \<Rightarrow> world \<Rightarrow> sync_conflict_policy" where
  "chosen_policy user m w =
     (case m_pending_resolution m of
        Some r \<Rightarrow> (if r = ''prosepect'' then PolicyProsepect else if r = ''latest'' then Latest
                  else if r = ''ask'' then Ask else PolicyGoogle)
      | None \<Rightarrow> (case row_by (\<lambda>s. us_user_id s = user) (settings w) of
                   Some s \<Rightarrow> us_sync_conflict_policy s
                 | None \<Rightarrow> Ask))"

definition winner_of :: "uuid \<Rightarrow> google_event \<Rightarrow> mapping_row \<Rightarrow> world \<Rightarrow> winner" where
  "winner_of user event m w =
     (case chosen_policy user m w of
        Ask \<Rightarrow> AskUser
      | PolicyProsepect \<Rightarrow> KeepLocal
      | PolicyGoogle \<Rightarrow> TakeRemote
      | Latest \<Rightarrow>
          (case (gv_updated event, row_by (\<lambda>e. m_canonical_event_id m = Some (e_id e)) (events w)) of
             (Some remote, Some e) \<Rightarrow> if remote \<le> e_updated_at e then KeepLocal else TakeRemote
           | _ \<Rightarrow> TakeRemote))"

lemma local_updated_at_row:
  "local_updated_at m w = map_option e_updated_at (row_by (\<lambda>e. m_canonical_event_id m = Some (e_id e)) (events w))"
proof (cases "m_canonical_event_id m")
  case None
  have "find (\<lambda>e. False) xs = None" for xs :: "event_row list" by (induction xs) simp_all
  with None show ?thesis by (simp add: local_updated_at_def row_by_def)
next
  case (Some i)
  then show ?thesis by (simp add: local_updated_at_def row_by_def eq_commute)
qed

lemma winner_of_code:
  "winner_of user event m w =
     (let policy = conflict_policy user m w in
      if policy = ''ask'' then AskUser else if keep_local policy event m w then KeepLocal else TakeRemote)"
  by (auto simp: winner_of_def chosen_policy_def conflict_policy_def keep_local_def local_updated_at_row
      split: option.split sync_conflict_policy.split)

lemma apply_remote_event_mapped:
  assumes "gv_id event = Some x" and "mapping_of user (sc_external_id cal) x w = Some m" and "\<not> m_reversible_tombstone m"
    and "gv_status event \<noteq> Some ''cancelled'' \<longrightarrow> normalize_event cd event = Inr n"
  shows "apply_remote_event pf cd user cal event w =
    (if gv_status event = Some ''cancelled'' then (Inr (), apply_cancelled user m event w)
     else apply_to_mapping pf cd user cal m event n w)"
  using assms by (simp add: apply_remote_event_def)

text \<open>
  C26. A Google change never silently overwrites an unsynchronized local edit. For an event that was edited here and changed or
  cancelled at Google, the pending decision or else the account's policy decides, and only it: to ask, which leaves
  events and tasks as they are and keeps a conflict open for the mapping; to keep the local version, which leaves events
  and tasks as they are, the mapping still to be pushed (or forgotten, so that the event is created anew, when
  Google cancelled it); or to take Google's, which makes the event show Google's version with a clean mapping, or
  removes it.
\<close>

theorem conflict_policy_decides:
  assumes u: "mappings_unique w" and id: "gv_id event = Some x"
    and m: "mapping_of user (sc_external_id cal) x w = Some m" "\<not> m_reversible_tombstone m" "m_local_dirty m"
    and fk: "\<forall>i. m_canonical_event_id m = Some i \<longrightarrow> event_by_id user i w \<noteq> None"
    and news: "gv_status event = Some ''cancelled'' \<or> m_external_etag m \<noteq> gv_etag event"
    and n: "gv_status event \<noteq> Some ''cancelled'' \<longrightarrow> normalize_event cd event = Inr n \<and> event_checks n"
    and run: "apply_remote_event pf cd user cal event w = (r, w')"
  shows "r = Inr () \<and>
    (case winner_of user event m w of
       AskUser \<Rightarrow> events w' = events w \<and> tasks w' = tasks w \<and> disputed (m_id m) w'
         \<and> mapping_of user (sc_external_id cal) x w' = Some (m\<lparr>m_conflict_state := ''unresolved''\<rparr>)
     | KeepLocal \<Rightarrow> events w' = events w \<and> tasks w' = tasks w
         \<and> mapping_of user (sc_external_id cal) x w' =
             (if gv_status event = Some ''cancelled'' then None else Some (m\<lparr>m_pending_resolution := None\<rparr>))
     | TakeRemote \<Rightarrow>
         if gv_status event = Some ''cancelled''
         then mapping_of user (sc_external_id cal) x w' = None
           \<and> (\<forall>e \<in> set (events w'). m_canonical_event_id m = Some (e_id e) \<longrightarrow> e_user_id e \<noteq> user)
         else takes user (sc_external_id cal) x event n w')"
proof -
  let ?find = "mapping_of user (sc_external_id cal) x"
  have run': "(r, w') = (if gv_status event = Some ''cancelled'' then (Inr (), apply_cancelled user m event w)
     else apply_to_mapping pf cd user cal m event n w)"
    using apply_remote_event_mapped [OF id m(1,2), of cd n pf] n run by simp
  have dispute: "?find (create_conflict user m t w) = Some (m\<lparr>m_conflict_state := ''unresolved''\<rparr>)" for t
    by (rule mapping_of_update [OF u m(1)]) (simp_all add: mapping_key_def)
  show ?thesis
  proof (cases "winner_of user event m w")
    case AskUser
    then have "conflict_policy user m w = ''ask''" by (auto simp: winner_of_code Let_def split: if_splits)
    with run' m(3) news dispute show ?thesis
      by (auto simp: AskUser apply_cancelled_def apply_to_mapping_def Let_def split: if_splits)
  next
    case KeepLocal
    then have p: "conflict_policy user m w \<noteq> ''ask''" "keep_local (conflict_policy user m w) event m w"
      by (auto simp: winner_of_code Let_def split: if_splits)
    have "?find (delete_mappings (\<lambda>y. m_id y = m_id m) w) = None"
      by (rule mapping_of_delete [OF u m(1)]) simp
    moreover have "?find (update_mapping (m_id m) (\<lambda>m. m\<lparr>m_pending_resolution := None\<rparr>) w) = Some (m\<lparr>m_pending_resolution := None\<rparr>)"
      by (rule mapping_of_update [OF u m(1)]) (simp_all add: mapping_key_def)
    ultimately show ?thesis using run' m(3) news p
      by (auto simp: KeepLocal apply_cancelled_def apply_to_mapping_def Let_def split: if_splits)
  next
    case TakeRemote
    then have p: "conflict_policy user m w \<noteq> ''ask''" "\<not> keep_local (conflict_policy user m w) event m w"
      by (auto simp: winner_of_code Let_def split: if_splits)
    show ?thesis
    proof (cases "gv_status event = Some ''cancelled''")
      case True
      with run' apply_cancelled_takes_remote [OF u m(1), of event] p show ?thesis by (simp add: TakeRemote)
    next
      case False
      with run' p news have "(r, w') = apply_change pf cd user cal m event n w"
        by (simp add: apply_to_mapping_def Let_def split: if_splits)
      with False apply_change_takes [OF u m(1) _ fk, of n pf cd cal event] n show ?thesis
        by (simp add: TakeRemote) (metis fst_conv snd_conv)
    qed
  qed
qed

text \<open>A calendar event edited here, and the same event changed at Google.\<close>

definition example_mapping_row :: mapping_row where
  "example_mapping_row = (new_mapping 4 7 3 5 ''cal'' ''x'' (Some ''0'') ''fp'' 0)\<lparr>m_local_dirty := True\<rparr>"

definition example_normal :: normalized_event where
  "example_normal = \<lparr>ne_title = ''Stand-up'', ne_description = [], ne_starts_at = 10, ne_ends_at = 20, ne_all_day = False,
     ne_timezone = ''UTC'', ne_location = [], ne_attendees = [], ne_recurrence = EvNone, ne_recurrence_until = None\<rparr>"

definition example_synced :: world where
  "example_synced = empty_world\<lparr>events := [canonical_row 7 5 3 example_normal 0], mappings := [example_mapping_row]\<rparr>"

definition example_remote :: google_event where
  "example_remote =
     \<lparr>gv_id = Some ''x'', gv_etag = Some ''1'', gv_status = Some ''confirmed'', gv_summary = Some ''Moved'', gv_description = [],
      gv_start = Some \<lparr>et_date_time = Some 30, et_date = None, et_time_zone = None\<rparr>,
      gv_end = Some \<lparr>et_date_time = Some 40, et_date = None, et_time_zone = None\<rparr>,
      gv_location = [], gv_attendees = [], gv_recurrence = [], gv_updated = None\<rparr>"

definition example_calendar :: sync_calendar where
  "example_calendar = \<lparr>sc_id = 3, sc_external_id = ''cal'', sc_sync_token = None\<rparr>"

definition example_moved :: normalized_event where
  "example_moved = \<lparr>ne_title = ''Moved'', ne_description = [], ne_starts_at = 30, ne_ends_at = 40, ne_all_day = False,
     ne_timezone = ''UTC'', ne_location = [], ne_attendees = [], ne_recurrence = EvNone, ne_recurrence_until = None\<rparr>"

lemmas remote_example_simps = example_mapping_row_def example_synced_def example_remote_def example_calendar_def
  example_moved_def example_normal_def new_mapping_def canonical_row_def

lemma example_mapping_of: "mapping_of 7 (sc_external_id example_calendar) ''x'' example_synced = Some example_mapping_row"
  by (simp add: mapping_of_def row_by_def remote_example_simps)

lemma example_unique: "mappings_unique example_synced"
  by (simp add: mappings_unique_def remote_example_simps empty_world_def)

lemma example_moved_readable: "normalize_event unary_codec example_remote = Inr example_moved \<and> event_checks example_moved"
  by code_simp

theorem conflict_policy_decides_witness:
  "\<exists>w'. apply_remote_event (ascii_platform 0) unary_codec 7 example_calendar example_remote example_synced = (Inr (), w')
     \<and> winner_of 7 example_remote example_mapping_row example_synced = AskUser
     \<and> events w' = events example_synced \<and> disputed 4 w'"
proof -
  obtain r w' where run: "apply_remote_event (ascii_platform 0) unary_codec 7 example_calendar example_remote example_synced = (r, w')"
    by fastforce
  have fk: "\<forall>i. m_canonical_event_id example_mapping_row = Some i \<longrightarrow> event_by_id 7 i example_synced \<noteq> None"
    by (simp add: event_by_id_def row_by_def remote_example_simps)
  have ask: "winner_of 7 example_remote example_mapping_row example_synced = AskUser"
    by (simp add: winner_of_def chosen_policy_def row_by_def remote_example_simps empty_world_def)
  have "gv_id example_remote = Some ''x''" "\<not> m_reversible_tombstone example_mapping_row" "m_local_dirty example_mapping_row"
    "m_external_etag example_mapping_row \<noteq> gv_etag example_remote" "m_id example_mapping_row = 4"
    by (simp_all add: remote_example_simps)
  with conflict_policy_decides [OF example_unique _ example_mapping_of _ _ fk _ _ run, of example_moved] example_moved_readable ask
  show ?thesis using run by simp
qed

lemma apply_change_baseline:
  assumes u: "mappings_unique w" and m: "mapping_of user c x w = Some m"
    and run: "apply_change pf cd user cal m event n w = (Inr (), v)"
  shows "\<exists>m'. mapping_of user c x v = Some m' \<and> m_external_etag m' = gv_etag event
    \<and> m_reversible_tombstone m' = m_reversible_tombstone m"
proof -
  let ?b = "set_baseline (gv_etag event) (event_fingerprint pf cd n) (now w)"
  let ?i = "uuid_supply w (drawn w)"
  let ?f = "if m_canonical_event_id m = None then (\<lambda>y. ?b (y\<lparr>m_canonical_event_id := Some ?i\<rparr>)) else ?b"
  have "mappings v = update_where (\<lambda>y. m_id y = m_id m) ?f (mappings w)"
  proof (cases "m_canonical_event_id m")
    case None
    with run show ?thesis
      by (auto simp: apply_change_def insert_canonical_event_def new_uuid_def Let_def update_mapping_baseline_def
          update_where_def set_baseline_def split: if_splits)
  next
    case (Some i)
    obtain q w1 where q: "update_canonical_event user i (sc_id cal) n w = (q, w1)" by fastforce
    have "mappings w1 = mappings w" "now w1 = now w"
      using update_canonical_mappings [of user i "sc_id cal" n w] q
      by (auto simp: update_canonical_event_def Let_def split: option.splits if_splits)
    with run Some q show ?thesis
      by (auto simp: apply_change_def Let_def update_mapping_baseline_def split: sum.splits)
  qed
  moreover have "mapping_key (?f y) = mapping_key y" for y by (simp add: mapping_key_def set_baseline_def)
  ultimately have "mapping_of user c x v = Some (?f m)" by (rule mapping_of_update [OF u m])
  then show ?thesis by (auto simp: set_baseline_def)
qed

lemma row_by_single: "row_by p [r] = (if p r then Some r else None)"
  by (simp add: row_by_def)

lemma import_event_mapping:
  assumes "mapping_of user (sc_external_id cal) x w = None" and "import_event pf cd user cal x event n w = (Inr (), v)"
  shows "\<exists>m'. mapping_of user (sc_external_id cal) x v = Some m' \<and> m_external_etag m' = gv_etag event
    \<and> \<not> m_reversible_tombstone m'"
  using assms
  by (auto simp: import_event_def insert_canonical_event_def insert_mapping_def new_uuid_def Let_def mapping_of_def
      row_by_append row_by_single new_mapping_def split: if_splits)

text \<open>What a further delivery of an event does when the first one left its mapping up to date, or gone, or in dispute.\<close>

definition settled :: "uuid \<Rightarrow> sync_calendar \<Rightarrow> google_event \<Rightarrow> world \<Rightarrow> bool" where
  "settled user cal event w \<longleftrightarrow>
     (case gv_id event of
        None \<Rightarrow> True
      | Some x \<Rightarrow>
          (case mapping_of user (sc_external_id cal) x w of
             None \<Rightarrow> gv_status event = Some ''cancelled''
           | Some m \<Rightarrow>
               (if m_reversible_tombstone m
                then gv_status event \<noteq> Some ''cancelled'' \<and> gv_etag event \<noteq> None \<and> m_external_etag m = gv_etag event
                else gv_status event \<noteq> Some ''cancelled'' \<and> m_external_etag m = gv_etag event)))"

lemma settled_again:
  assumes "settled user cal event w" and "gv_status event \<noteq> Some ''cancelled'' \<longrightarrow> (\<exists>n. normalize_event cd event = Inr n)"
  shows "apply_remote_event pf cd user cal event w = (Inr (), w)"
  using assms
  by (auto simp: settled_def apply_remote_event_def apply_to_tombstone_def apply_to_mapping_def Let_def
      split: option.splits if_splits)

definition same_tables :: "world \<Rightarrow> world \<Rightarrow> bool" where
  "same_tables v w \<longleftrightarrow> events v = events w \<and> tasks v = tasks w \<and> mappings v = mappings w \<and> conflicts v = conflicts w
     \<and> delete_undos v = delete_undos w"

lemma update_where_idem: "(\<And>r. p r \<Longrightarrow> p (f r) \<and> f (f r) = f r) \<Longrightarrow> update_where p f (update_where p f rs) = update_where p f rs"
  by (auto simp: update_where_def)

lemma dispute_again:
  assumes "m_id m' = m_id m" and "w1 = create_conflict user m t w"
  shows "same_tables (create_conflict user m' t w1) w1"
  using assms create_conflict_again [of m' w1 user t] create_conflict_effect(7) [of m user t w]
  by (simp add: same_tables_def update_where_idem)

definition stable :: "platform \<Rightarrow> codec \<Rightarrow> uuid \<Rightarrow> sync_calendar \<Rightarrow> google_event \<Rightarrow> world \<Rightarrow> bool" where
  "stable pf cd user cal event w \<longleftrightarrow>
     (\<exists>v. apply_remote_event pf cd user cal event w = (Inr (), v) \<and> same_tables v w)"

lemma stable_settled:
  "settled user cal event w \<Longrightarrow> gv_status event = Some ''cancelled'' \<or> (\<exists>n. normalize_event cd event = Inr n)
   \<Longrightarrow> stable pf cd user cal event w"
  using settled_again [of user cal event w cd pf] by (auto simp: stable_def same_tables_def)

text \<open>A mapping in dispute: its row keeps its key, its etag and its flags, and the dispute is not opened again.\<close>

lemma disputed_mapping:
  assumes "mappings_unique w" and "mapping_of user c x w = Some m"
    and "mappings v = mappings (create_conflict user m t w)"
  shows "mapping_of user c x v = Some (m\<lparr>m_conflict_state := ''unresolved''\<rparr>)"
  by (rule mapping_of_update [OF assms(1,2)]) (simp_all add: mapping_key_def assms(3))

lemma conflict_policy_cong:
  "m_pending_resolution m' = m_pending_resolution m \<Longrightarrow> settings v = settings w \<Longrightarrow>
   conflict_policy user m' v = conflict_policy user m w"
  by (simp add: conflict_policy_def split: option.split)

text \<open>
  The deliveries that use a decision up: an event edited here and changed at Google, whose conflict the user decided
  for the local version. The decision is cleared before the local version is pushed.
\<close>

definition uses_decision :: "uuid \<Rightarrow> sync_calendar \<Rightarrow> google_event \<Rightarrow> mapping_row \<Rightarrow> world \<Rightarrow> bool" where
  "uses_decision user cal event m w \<longleftrightarrow>
     (\<exists>x. gv_id event = Some x \<and> mapping_of user (sc_external_id cal) x w = Some m)
     \<and> gv_status event \<noteq> Some ''cancelled'' \<and> \<not> m_reversible_tombstone m \<and> m_external_etag m \<noteq> gv_etag event
     \<and> (m_local_dirty m \<or> m_local_deleted m)
     \<and> m_pending_resolution m \<noteq> None \<and> winner_of user event m w = KeepLocal"

lemma stable_tombstone:
  assumes "mappings_unique w" and "gv_id event = Some x" and "mapping_of user (sc_external_id cal) x w = Some m"
    and "m_reversible_tombstone m"
  shows "stable pf cd user cal event (apply_to_tombstone user m event w)"
proof -
  consider (gone) "gv_status event = Some ''cancelled''"
    | (same) "gv_status event \<noteq> Some ''cancelled''" "gv_etag event \<noteq> None" "m_external_etag m = gv_etag event"
    | (news) "gv_status event \<noteq> Some ''cancelled''" "gv_etag event = None \<or> m_external_etag m \<noteq> gv_etag event" by metis
  then show ?thesis
  proof cases
    case gone
    have "mapping_of user (sc_external_id cal) x (apply_to_tombstone user m event w) = None"
      by (rule mapping_of_delete [OF assms(1,3)]) (simp add: apply_to_tombstone_def gone)
    then show ?thesis using gone assms(2) by (intro stable_settled) (simp_all add: settled_def)
  next
    case same
    then have "apply_to_tombstone user m event w = w" by (auto simp: apply_to_tombstone_def)
    then show ?thesis using same assms by (auto simp: stable_def same_tables_def apply_remote_event_def)
  next
    case news
    let ?t = "title_or ''Deleted task event'' event"
    let ?w1 = "drop_receipts user (m_id m) (create_conflict user m ?t w)"
    let ?m = "m\<lparr>m_conflict_state := ''unresolved''\<rparr>"
    have w1: "apply_to_tombstone user m event w = ?w1" using news by (auto simp: apply_to_tombstone_def)
    have "mapping_of user (sc_external_id cal) x ?w1 = Some ?m"
      by (rule disputed_mapping [OF assms(1,3)]) simp
    then have "apply_remote_event pf cd user cal event ?w1 =
        (Inr (), drop_receipts user (m_id m) (create_conflict user ?m ?t ?w1))"
      using assms news by (auto simp: apply_remote_event_def apply_to_tombstone_def)
    moreover have "disputed (m_id ?m) ?w1"
      using create_conflict_effect(7) [of m user ?t w] by (simp add: disputed_def)
    then have "same_tables (drop_receipts user (m_id m) (create_conflict user ?m ?t ?w1)) ?w1"
      by (simp add: same_tables_def create_conflict_again update_where_idem delete_where_def)
    ultimately show ?thesis unfolding w1 stable_def by blast
  qed
qed

lemma stable_cancelled:
  assumes u: "mappings_unique w" and x: "gv_id event = Some x" and m: "mapping_of user (sc_external_id cal) x w = Some m"
    and t: "\<not> m_reversible_tombstone m" and c: "gv_status event = Some ''cancelled''"
  shows "stable pf cd user cal event (apply_cancelled user m event w)"
proof (cases "m_local_dirty m \<and> conflict_policy user m w = ''ask''")
  case True
  let ?t = "title_or ''Deleted event'' event"
  let ?w1 = "create_conflict user m ?t w"
  let ?m = "m\<lparr>m_conflict_state := ''unresolved''\<rparr>"
  have w1: "apply_cancelled user m event w = ?w1" using True by (simp add: apply_cancelled_def Let_def)
  have "conflict_policy user ?m ?w1 = ''ask''" using True conflict_policy_cong [of ?m m ?w1 w user] by simp
  moreover have "mapping_of user (sc_external_id cal) x ?w1 = Some ?m" by (rule disputed_mapping [OF u m]) simp
  ultimately have "apply_remote_event pf cd user cal event ?w1 = (Inr (), create_conflict user ?m ?t ?w1)"
    using x t c True by (simp add: apply_remote_event_def apply_cancelled_def Let_def)
  then show ?thesis unfolding w1 stable_def using dispute_again [of ?m m ?w1 user ?t w] by simp
next
  case False
  have "mapping_of user (sc_external_id cal) x (apply_cancelled user m event w) = None"
  proof (cases "m_local_dirty m \<and> keep_local (conflict_policy user m w) event m w")
    case True
    show ?thesis by (rule mapping_of_delete [OF u m]) (use True False in \<open>auto simp: apply_cancelled_def Let_def\<close>)
  next
    case no: False
    with False apply_cancelled_takes_remote [OF u m, of event] show ?thesis by blast
  qed
  then show ?thesis using x c by (intro stable_settled) (simp_all add: settled_def)
qed

lemma stable_changed:
  assumes u: "mappings_unique w" and x: "gv_id event = Some x" and m: "mapping_of user (sc_external_id cal) x w = Some m"
    and t: "\<not> m_reversible_tombstone m" and c: "gv_status event \<noteq> Some ''cancelled''"
    and n: "normalize_event cd event = Inr n" and run: "apply_to_mapping pf cd user cal m event n w = (Inr (), w1)"
    and none: "\<not> uses_decision user cal event m w"
  shows "stable pf cd user cal event w1"
proof -
  let ?edited = "m_local_dirty m \<or> m_local_deleted m"
  let ?policy = "conflict_policy user m w"
  consider (same) "m_external_etag m = gv_etag event" | (ask) "m_external_etag m \<noteq> gv_etag event" ?edited "?policy = ''ask''"
    | (keep) "m_external_etag m \<noteq> gv_etag event" ?edited "?policy \<noteq> ''ask''" "keep_local ?policy event m w"
    | (take) "m_external_etag m \<noteq> gv_etag event" "\<not> (?edited \<and> (?policy = ''ask'' \<or> keep_local ?policy event m w))" by blast
  then show ?thesis
  proof cases
    case same
    with run have "w1 = w" by (simp add: apply_to_mapping_def Let_def)
    then show ?thesis using same x m t c n by (intro stable_settled) (simp_all add: settled_def)
  next
    case ask
    let ?m = "m\<lparr>m_conflict_state := ''unresolved''\<rparr>"
    have w1: "w1 = create_conflict user m (ne_title n) w" using run ask by (auto simp: apply_to_mapping_def Let_def)
    have "conflict_policy user ?m w1 = ''ask''" using ask conflict_policy_cong [of ?m m w1 w user] by (simp add: w1)
    moreover have "mapping_of user (sc_external_id cal) x w1 = Some ?m" by (rule disputed_mapping [OF u m]) (simp add: w1)
    ultimately have "apply_remote_event pf cd user cal event w1 = (Inr (), create_conflict user ?m (ne_title n) w1)"
      using x t c n ask by (auto simp: apply_remote_event_def apply_to_mapping_def Let_def)
    then show ?thesis unfolding stable_def using dispute_again [of ?m m w1 user "ne_title n" w] w1 by simp
  next
    case keep
    then have "winner_of user event m w = KeepLocal" by (simp add: winner_of_code Let_def)
    with none keep x m t c have none: "m_pending_resolution m = None" by (auto simp: uses_decision_def)
    have "update_where (\<lambda>y. m_id y = m_id m) (\<lambda>y. y\<lparr>m_pending_resolution := None\<rparr>) (mappings w) = mappings w"
      unfolding update_where_def
    proof (rule map_idI)
      fix y
      assume y: "y \<in> set (mappings w)"
      show "(if m_id y = m_id m then y\<lparr>m_pending_resolution := None\<rparr> else y) = y"
      proof (cases "m_id y = m_id m")
        case True
        with y mapping_of_Some [OF m] u have "y = m"
          using distinct_map_inj [of m_id "mappings w" y m] by (simp add: mappings_unique_def)
        with none show ?thesis by simp
      qed simp
    qed
    then have "w1 = w" using run keep by (auto simp: apply_to_mapping_def Let_def update_mapping_def)
    then show ?thesis using run x m t c n by (simp add: stable_def apply_remote_event_def same_tables_def)
  next
    case take
    then have "apply_change pf cd user cal m event n w = (Inr (), w1)" using run by (auto simp: apply_to_mapping_def Let_def)
    from apply_change_baseline [OF u m this] show ?thesis
      using x t c n by (intro stable_settled) (auto simp: settled_def)
  qed
qed

lemma used_decision_reopens:
  assumes u: "mappings_unique w" and d: "uses_decision user cal event m w"
    and ask: "chosen_policy user (m\<lparr>m_pending_resolution := None\<rparr>) w = Ask"
    and first: "apply_remote_event pf cd user cal event w = (Inr (), w1)"
  shows "events w1 = events w \<and> tasks w1 = tasks w
    \<and> (\<exists>w2. apply_remote_event pf cd user cal event w1 = (Inr (), w2) \<and> events w2 = events w \<and> tasks w2 = tasks w
         \<and> disputed (m_id m) w2)"
proof -
  let ?m = "m\<lparr>m_pending_resolution := None\<rparr>"
  obtain x where x: "gv_id event = Some x" and m: "mapping_of user (sc_external_id cal) x w = Some m"
    using d by (auto simp: uses_decision_def)
  have c: "gv_status event \<noteq> Some ''cancelled''" "\<not> m_reversible_tombstone m" "m_external_etag m \<noteq> gv_etag event"
    "m_local_dirty m \<or> m_local_deleted m" and k: "winner_of user event m w = KeepLocal"
    using d by (auto simp: uses_decision_def)
  from first x m c obtain n where n: "normalize_event cd event = Inr n"
    by (auto simp: apply_remote_event_def split: sum.splits)
  have "conflict_policy user m w \<noteq> ''ask''" "keep_local (conflict_policy user m w) event m w"
    using k by (auto simp: winner_of_code Let_def split: if_splits)
  with first x m c n have w1: "w1 = update_mapping (m_id m) (\<lambda>m. m\<lparr>m_pending_resolution := None\<rparr>) w"
    by (auto simp: apply_remote_event_def apply_to_mapping_def Let_def)
  have m1: "mapping_of user (sc_external_id cal) x w1 = Some ?m"
    by (rule mapping_of_update [OF u m]) (simp_all add: mapping_key_def w1)
  have "winner_of user event ?m w = AskUser" using ask by (simp add: winner_of_def)
  then have "conflict_policy user ?m w = ''ask''" by (auto simp: winner_of_code Let_def split: if_splits)
  then have "conflict_policy user ?m w1 = ''ask''" using conflict_policy_cong [of ?m ?m w1 w user] by (simp add: w1)
  with x m1 c n have "apply_remote_event pf cd user cal event w1 = (Inr (), create_conflict user ?m (ne_title n) w1)"
    by (auto simp: apply_remote_event_def apply_to_mapping_def Let_def)
  moreover have "disputed (m_id m) (create_conflict user ?m (ne_title n) w1)"
    using create_conflict_effect(7) [of ?m user "ne_title n" w1] by simp
  ultimately show ?thesis by (simp add: w1)
qed

text \<open>
  C27. Pulling an event again changes nothing, except that a decision for the local version counts once. When Google
  delivers the same version of an event a second time, as a retried job or a full resynchronization does, the second
  delivery succeeds and leaves events, tasks, mappings, conflicts and deletion receipts as the first one left them: no
  event is imported twice, no edit applied twice, no second conflict opened. The one exception is a delivery that uses
  up a pending decision for the local version: the delivery itself changes no event and no task, and under the policy
  to ask the next one opens the conflict again, still without changing an event or a task.
\<close>

theorem redelivery_changes_nothing:
  assumes u: "mappings_unique w" and first: "apply_remote_event pf cd user cal event w = (Inr (), w1)"
    and again: "apply_remote_event pf cd user cal event w1 = (r, w2)"
  shows "((\<forall>m. \<not> uses_decision user cal event m w) \<longrightarrow>
      r = Inr () \<and> events w2 = events w1 \<and> tasks w2 = tasks w1 \<and> mappings w2 = mappings w1
      \<and> conflicts w2 = conflicts w1 \<and> delete_undos w2 = delete_undos w1)
    \<and> (\<forall>m. uses_decision user cal event m w \<and> chosen_policy user (m\<lparr>m_pending_resolution := None\<rparr>) w = Ask \<longrightarrow>
      r = Inr () \<and> events w1 = events w \<and> tasks w1 = tasks w \<and> events w2 = events w \<and> tasks w2 = tasks w
      \<and> disputed (m_id m) w2)"
proof (intro conjI impI allI)
  assume none: "\<forall>m. \<not> uses_decision user cal event m w"
  have "stable pf cd user cal event w1"
  proof (cases "gv_id event")
    case None
    then show ?thesis by (simp add: stable_def apply_remote_event_def same_tables_def)
  next
    case (Some x)
    show ?thesis
    proof (cases "mapping_of user (sc_external_id cal) x w")
      case None
      show ?thesis
      proof (cases "gv_status event = Some ''cancelled''")
        case True
        with None Some first show ?thesis by (auto simp: stable_def apply_remote_event_def same_tables_def)
      next
        case False
        with None Some first obtain n where n: "normalize_event cd event = Inr n" "import_event pf cd user cal x event n w = (Inr (), w1)"
          by (auto simp: apply_remote_event_def split: sum.splits)
        from import_event_mapping [OF None n(2)] show ?thesis
          using False Some n(1) by (intro stable_settled) (auto simp: settled_def)
      qed
    next
      case m: (Some m)
      with first Some none show ?thesis
        using stable_tombstone [OF u Some m, of pf cd] stable_cancelled [OF u Some m, of pf cd] stable_changed [OF u Some m, of cd _ pf w1]
        by (auto simp: apply_remote_event_def split: if_splits sum.splits)
    qed
  qed
  with again show "r = Inr ()" "events w2 = events w1" "tasks w2 = tasks w1" "mappings w2 = mappings w1"
    "conflicts w2 = conflicts w1" "delete_undos w2 = delete_undos w1" by (auto simp: stable_def same_tables_def)
next
  fix m
  assume "uses_decision user cal event m w \<and> chosen_policy user (m\<lparr>m_pending_resolution := None\<rparr>) w = Ask"
  with used_decision_reopens [OF u _ _ first] again
  show "r = Inr ()" "events w1 = events w" "tasks w1 = tasks w" "events w2 = events w" "tasks w2 = tasks w"
    "disputed (m_id m) w2" by fastforce+
qed

theorem redelivery_changes_nothing_witness:
  "\<exists>w1 w2. apply_remote_event (ascii_platform 0) unary_codec 7 example_calendar example_remote empty_world = (Inr (), w1)
     \<and> apply_remote_event (ascii_platform 0) unary_codec 7 example_calendar example_remote w1 = (Inr (), w2)
     \<and> length (events w1) = 1 \<and> events w2 = events w1"
proof -
  have "apply_remote_event (ascii_platform 0) unary_codec 7 example_calendar example_remote empty_world =
      import_event (ascii_platform 0) unary_codec 7 example_calendar ''x'' example_remote example_moved empty_world"
  proof -
    have "mapping_of 7 (sc_external_id example_calendar) ''x'' empty_world = None"
      by (simp add: mapping_of_def row_by_def empty_world_def)
    moreover have "gv_id example_remote = Some ''x''" "gv_status example_remote \<noteq> Some ''cancelled''"
      by (simp_all add: example_remote_def)
    ultimately show ?thesis using example_moved_readable by (simp add: apply_remote_event_def)
  qed
  moreover obtain w1 where "import_event (ascii_platform 0) unary_codec 7 example_calendar ''x'' example_remote example_moved empty_world
      = (Inr (), w1)" and l: "length (events w1) = 1"
    using example_moved_readable
    by (simp add: import_event_def insert_canonical_event_def insert_mapping_def new_uuid_def Let_def empty_world_def)
  ultimately have w1: "apply_remote_event (ascii_platform 0) unary_codec 7 example_calendar example_remote empty_world = (Inr (), w1)"
    by simp
  obtain r w2 where w2: "apply_remote_event (ascii_platform 0) unary_codec 7 example_calendar example_remote w1 = (r, w2)" by fastforce
  have "mappings_unique empty_world" by (simp add: mappings_unique_def empty_world_def)
  moreover have "\<not> uses_decision 7 example_calendar example_remote m empty_world" for m
    by (simp add: uses_decision_def mapping_of_def row_by_def empty_world_def)
  ultimately show ?thesis using redelivery_changes_nothing [OF _ w1 w2] w1 w2 l by blast
qed

end
