(* ===== verification/CalendarSync.thy ===== *)
theory CalendarSync
  imports RemoteEvents
begin

text \<open>
  The jobs of \<open>sync_service.rs\<close>. The provider is a state machine of its own: \<open>http\<close> maps a request and the
  provider's state to the answer, the time at which it arrives and the new provider state; an answer is its status
  and the JSON value its body holds. A job step runs on the database and the provider and keeps what it did when it
  fails. The loops over the provider's pages have no bound in the code: they take fuel, and running out of it is the
  outcome \<open>no_fuel\<close>, which no answer of the provider gives. The pauses between attempts and the five-second limit of
  a validation are visible as the times at which answers arrive and as failed exchanges.
\<close>

section \<open>Provider and job steps\<close>

datatype json_body =
    NoJson
  | EventJson google_event_write
  | WatchJson string string string string
  | StopJson string string

record google_request =
  hr_method :: string
  hr_segments :: "string list"
  hr_query :: "(string \<times> string) list"
  hr_token :: string
  hr_body :: json_body
  hr_if_match :: "string option"

record google_calendar =
  gk_id :: string
  gk_summary :: string
  gk_background_color :: "string option"
  gk_selected :: "bool option"
  gk_primary :: "bool option"
  gk_access_role :: "string option"

datatype google_body =
    EventBody google_event
  | EventListBody "google_event list" "string option" "string option"
  | CalendarListBody "google_calendar list" "string option"
  | WatchBody string "string option"
  | OtherBody

record google_response =
  gp_status :: nat
  gp_body :: google_body

type_synonym 'p provider = "google_request \<Rightarrow> 'p \<Rightarrow> (string, google_response) res \<times> timestamp \<times> 'p"
type_synonym ('p, 'a) job = "world \<times> 'p \<Rightarrow> (string, 'a) res \<times> world \<times> 'p"

definition job_return :: "'a \<Rightarrow> ('p, 'a) job" where
  "job_return a s = (Inr a, s)"

definition job_fail :: "string \<Rightarrow> ('p, 'a) job" where
  "job_fail e s = (Inl e, s)"

definition job_bind :: "('p, 'a) job \<Rightarrow> ('a \<Rightarrow> ('p, 'b) job) \<Rightarrow> ('p, 'b) job" where
  "job_bind m f s = (case m s of (Inl e, s) \<Rightarrow> (Inl e, s) | (Inr a, s) \<Rightarrow> f a s)"

definition job_store :: "(world \<Rightarrow> 'a outcome) \<Rightarrow> ('p, 'a) job" where
  "job_store f s = (let (r, w) = f (fst s) in (r, w, snd s))"

definition job_update :: "(world \<Rightarrow> world) \<Rightarrow> ('p, unit) job" where
  "job_update f s = (Inr (), f (fst s), snd s)"

definition job_query :: "(world \<Rightarrow> 'a) \<Rightarrow> ('p, 'a) job" where
  "job_query f s = (Inr (f (fst s)), s)"

definition job_op :: "(world \<Rightarrow> 'a store_result) \<Rightarrow> ('p, 'a) job" where
  "job_op f s = (case f (fst s) of Inl e \<Rightarrow> (Inl (display_error e), s) | Inr (a, w) \<Rightarrow> (Inr a, w, snd s))"

definition job_of :: "(string, 'a) res \<Rightarrow> ('p, 'a) job" where
  "job_of r s = (r, s)"

fun job_for :: "('x \<Rightarrow> ('p, unit) job) \<Rightarrow> 'x list \<Rightarrow> ('p, unit) job" where
  "job_for f [] = job_return ()"
| "job_for f (x # xs) = job_bind (f x) (\<lambda>_. job_for f xs)"

definition exchange :: "'p provider \<Rightarrow> google_request \<Rightarrow> ('p, google_response) job" where
  "exchange http req s = (let (r, t, p) = http req (snd s) in (r, (fst s)\<lparr>now := t\<rparr>, p))"

definition retryable :: "nat \<Rightarrow> bool" where
  "retryable status \<longleftrightarrow> status = 429 \<or> 500 \<le> status \<and> status \<le> 599"

fun send_attempts :: "'p provider \<Rightarrow> google_request \<Rightarrow> nat \<Rightarrow> ('p, google_response) job" where
  "send_attempts http req 0 = exchange http req"
| "send_attempts http req (Suc n) =
     job_bind (exchange http req) (\<lambda>response.
     if \<not> retryable (gp_status response) then job_return response else send_attempts http req n)"

definition send :: "'p provider \<Rightarrow> google_request \<Rightarrow> ('p, google_response) job" where
  "send http req = send_attempts http req 3"

definition error_for_status :: "string \<Rightarrow> google_response \<Rightarrow> ('p, google_response) job" where
  "error_for_status context r =
     (if 400 \<le> gp_status r \<and> gp_status r \<le> 599 then job_fail context else job_return r)"

definition event_json :: "google_response \<Rightarrow> ('p, google_event) job" where
  "event_json r =
     (case gp_body r of EventBody e \<Rightarrow> job_return e | _ \<Rightarrow> job_fail ''Google Calendar returned invalid JSON'')"

definition send_event :: "'p provider \<Rightarrow> google_request \<Rightarrow> ('p, google_event) job" where
  "send_event http req =
     job_bind (send http req) (\<lambda>r. job_bind (error_for_status ''Google Calendar request failed'' r) event_json)"

definition call :: "string \<Rightarrow> string list \<Rightarrow> (string \<times> string) list \<Rightarrow> string \<Rightarrow> json_body \<Rightarrow> string option \<Rightarrow> google_request" where
  "call m segments query token body etag =
     \<lparr>hr_method = m, hr_segments = segments, hr_query = query, hr_token = token, hr_body = body, hr_if_match = etag\<rparr>"

section \<open>Pulling\<close>

definition event_query :: "string option \<Rightarrow> string option \<Rightarrow> (string \<times> string) list" where
  "event_query sync_token page_token =
     [(''showDeleted'', ''true''), (''maxResults'', ''2500'')]
     @ (case sync_token of None \<Rightarrow> [] | Some v \<Rightarrow> [(''syncToken'', v)])
     @ (case page_token of None \<Rightarrow> [] | Some v \<Rightarrow> [(''pageToken'', v)])"

definition finish_pull :: "sync_calendar \<Rightarrow> string option \<Rightarrow> world \<Rightarrow> world" where
  "finish_pull calendar next_sync_token w =
     (if \<exists>m \<in> set (mappings w). m_calendar_id m = sc_id calendar \<and> m_conflict_state m = ''unresolved'' then w
      else case next_sync_token of
             None \<Rightarrow> w
           | Some token \<Rightarrow> update_calendars (\<lambda>c. c_id c = sc_id calendar) (\<lambda>c. c\<lparr>c_sync_token := Some token\<rparr>) w)"

definition no_fuel :: string where
  "no_fuel = ''the provider sends pages without end''"

fun pull_pages ::
  "'p provider \<Rightarrow> platform \<Rightarrow> codec \<Rightarrow> uuid \<Rightarrow> sync_calendar \<Rightarrow> string \<Rightarrow> nat \<Rightarrow> string option \<Rightarrow> string option \<Rightarrow> bool
   \<Rightarrow> ('p, unit) job" where
  "pull_pages http pf cd user calendar token 0 sync_token page_token retried = job_fail no_fuel"
| "pull_pages http pf cd user calendar token (Suc fuel) sync_token page_token retried =
     job_bind (send http (call ''GET'' [''calendars'', sc_external_id calendar, ''events'']
       (event_query sync_token page_token) token NoJson None)) (\<lambda>response.
     if gp_status response = 410 \<and> \<not> retried
     then pull_pages http pf cd user calendar token fuel None None True
     else job_bind (error_for_status ''Google event pull failed'' response) (\<lambda>response.
          case gp_body response of
            EventListBody items next_page next_sync \<Rightarrow>
              job_bind (job_for (\<lambda>event. job_store (apply_remote_event pf cd user calendar event)) items) (\<lambda>_.
              case next_page of
                None \<Rightarrow> job_update (finish_pull calendar next_sync)
              | Some page \<Rightarrow> pull_pages http pf cd user calendar token fuel sync_token (Some page) retried)
          | _ \<Rightarrow> job_fail ''invalid Google event list''))"

definition pull_calendar ::
  "'p provider \<Rightarrow> platform \<Rightarrow> codec \<Rightarrow> nat \<Rightarrow> uuid \<Rightarrow> sync_calendar \<Rightarrow> string \<Rightarrow> ('p, unit) job" where
  "pull_calendar http pf cd fuel user calendar token =
     pull_pages http pf cd user calendar token fuel (sc_sync_token calendar) None False"

section \<open>Settling deletions the user gave to Google\<close>

definition settle_deletion ::
  "'p provider \<Rightarrow> platform \<Rightarrow> codec \<Rightarrow> uuid \<Rightarrow> sync_calendar \<Rightarrow> string \<Rightarrow> uuid \<times> string \<Rightarrow> ('p, unit) job" where
  "settle_deletion http pf cd user calendar token pending =
     (let (mapping, identity) = pending in
      job_bind (send http (call ''GET'' [''calendars'', sc_external_id calendar, ''events'', identity] [] token NoJson None))
      (\<lambda>response.
       if gp_status response \<in> {404, 410}
       then job_update (delete_mappings (\<lambda>m. m_id m = mapping \<and> m_delete_resolution_pending m))
       else job_bind (error_for_status ''Google Calendar request failed'' response) (\<lambda>response.
            job_bind (event_json response) (\<lambda>event.
            if gv_id event \<noteq> Some identity then job_fail ''Google resolution returned a different identity''
            else job_store (apply_remote_event pf cd user calendar event)))))"

definition reconcile_deleted_task_resolution ::
  "'p provider \<Rightarrow> platform \<Rightarrow> codec \<Rightarrow> uuid \<Rightarrow> sync_calendar \<Rightarrow> string \<Rightarrow> ('p, unit) job" where
  "reconcile_deleted_task_resolution http pf cd user calendar token =
     job_bind (job_query (\<lambda>w. map (\<lambda>m. (m_id m, m_external_event_id m)) (take 100 (sort_key m_id
       (filter (\<lambda>m. m_user_id m = user \<and> m_calendar_id m = sc_id calendar \<and> m_delete_resolution_pending m
          \<and> \<not> m_local_dirty m \<and> \<not> m_local_deleted m \<and> m_canonical_event_id m = None) (mappings w))))))
     (job_for (settle_deletion http pf cd user calendar token))"

section \<open>Pushing\<close>

definition activity_step :: "uuid \<Rightarrow> string \<Rightarrow> string \<Rightarrow> ('p, unit) job" where
  "activity_step user kind msg = job_update (record_activity user kind msg)"

definition unmapped_events :: "uuid \<Rightarrow> sync_calendar \<Rightarrow> world \<Rightarrow> local_event list" where
  "unmapped_events user calendar w =
     map local_of (filter (\<lambda>e. e_user_id e = user \<and> e_calendar_id e = sc_id calendar
       \<and> \<not> (\<exists>m \<in> set (mappings w). m_canonical_event_id m = Some (e_id e))) (events w))"

definition create_remote ::
  "'p provider \<Rightarrow> codec \<Rightarrow> sync_calendar \<Rightarrow> string \<Rightarrow> local_event \<Rightarrow> ('p, google_event) job" where
  "create_remote http cd calendar token event =
     (let external = google_event_id (le_id event);
          body = (from_local cd event)\<lparr>gw_id := Some external\<rparr>
      in job_bind (send http (call ''POST'' [''calendars'', sc_external_id calendar, ''events''] [] token (EventJson body) None))
         (\<lambda>response.
          if gp_status response = 409
          then send_event http (call ''GET'' [''calendars'', sc_external_id calendar, ''events'', external] [] token NoJson None)
          else job_bind (error_for_status ''Google event creation failed'' response) event_json))"

definition push_created ::
  "'p provider \<Rightarrow> platform \<Rightarrow> codec \<Rightarrow> uuid \<Rightarrow> sync_calendar \<Rightarrow> string \<Rightarrow> local_event \<Rightarrow> ('p, unit) job" where
  "push_created http pf cd user calendar token event =
     job_bind (create_remote http cd calendar token event) (\<lambda>remote.
     let external = (case gv_id remote of Some i \<Rightarrow> i | None \<Rightarrow> google_event_id (le_id event))
     in job_bind (job_store (\<lambda>w. let (i, w) = new_uuid w in
          insert_mapping (new_mapping i user (sc_id calendar) (le_id event) (sc_external_id calendar) external
            (gv_etag remote) (local_fingerprint pf cd event) (now w)) w)) (\<lambda>_.
        activity_step user ''local_event_created'' ''Created a Google event from Prosepect''))"

definition dirty_mappings :: "uuid \<Rightarrow> sync_calendar \<Rightarrow> world \<Rightarrow> (mapping_row \<times> event_row option) list" where
  "dirty_mappings user calendar w =
     map (\<lambda>m. (m, Option.bind (m_canonical_event_id m) (\<lambda>i. row_by (\<lambda>e. e_id e = i) (events w))))
       (filter (\<lambda>m. m_user_id m = user \<and> m_calendar_id m = sc_id calendar \<and> (m_local_dirty m \<or> m_local_deleted m)
          \<and> m_conflict_state m = ''none'' \<and> \<not> m_delete_resolution_pending m
          \<and> (case m_deletion_hold_until m of None \<Rightarrow> True | Some t \<Rightarrow> t \<le> now w)) (mappings w))"

definition push_deleted :: "'p provider \<Rightarrow> uuid \<Rightarrow> sync_calendar \<Rightarrow> string \<Rightarrow> mapping_row \<Rightarrow> ('p, unit) job" where
  "push_deleted http user calendar token m =
     job_bind (send http (call ''DELETE'' [''calendars'', sc_external_id calendar, ''events'', m_external_event_id m] []
       token NoJson (m_external_etag m))) (\<lambda>response.
     job_bind (if gp_status response = 404 then job_return response
               else error_for_status ''Google event deletion failed'' response) (\<lambda>_.
     job_bind (job_update (delete_mappings (\<lambda>x. m_id x = m_id m))) (\<lambda>_.
     activity_step user ''local_event_deleted'' ''Deleted a Google event from Prosepect'')))"

definition set_pushed :: "string option \<Rightarrow> string \<Rightarrow> timestamp \<Rightarrow> mapping_row \<Rightarrow> mapping_row" where
  "set_pushed etag fp t m =
     m\<lparr>m_external_etag := etag, m_base_fingerprint := Some fp, m_local_dirty := False, m_last_synced_at := Some t\<rparr>"

definition push_changed ::
  "'p provider \<Rightarrow> platform \<Rightarrow> codec \<Rightarrow> uuid \<Rightarrow> sync_calendar \<Rightarrow> string \<Rightarrow> mapping_row \<Rightarrow> local_event \<Rightarrow> ('p, unit) job" where
  "push_changed http pf cd user calendar token m event =
     job_bind (send_event http (call ''PUT'' [''calendars'', sc_external_id calendar, ''events'', m_external_event_id m] []
       token (EventJson (from_local cd event)) (m_external_etag m))) (\<lambda>remote.
     job_bind (job_update (\<lambda>w. update_mapping (m_id m)
       (set_pushed (gv_etag remote) (local_fingerprint pf cd event) (now w)) w)) (\<lambda>_.
     activity_step user ''local_event_updated'' ''Updated a Google event from Prosepect''))"

definition push_dirty ::
  "'p provider \<Rightarrow> platform \<Rightarrow> codec \<Rightarrow> uuid \<Rightarrow> sync_calendar \<Rightarrow> string \<Rightarrow> mapping_row \<times> event_row option \<Rightarrow> ('p, unit) job" where
  "push_dirty http pf cd user calendar token d =
     (case d of
        (m, Some e) \<Rightarrow> if m_local_deleted m then push_deleted http user calendar token m
                       else push_changed http pf cd user calendar token m (local_of e)
      | (m, None) \<Rightarrow> push_deleted http user calendar token m)"

definition push_calendar ::
  "'p provider \<Rightarrow> platform \<Rightarrow> codec \<Rightarrow> uuid \<Rightarrow> sync_calendar \<Rightarrow> string \<Rightarrow> ('p, unit) job" where
  "push_calendar http pf cd user calendar token =
     job_bind (job_query (unmapped_events user calendar)) (\<lambda>unmapped.
     job_bind (job_for (push_created http pf cd user calendar token) unmapped) (\<lambda>_.
     job_bind (job_query (dirty_mappings user calendar)) (\<lambda>dirty.
     job_for (push_dirty http pf cd user calendar token) dirty)))"

section \<open>Credentials\<close>

text \<open>
  \<open>GoogleOAuth\<close>: sealing tokens is a library's AES-GCM, refreshing and revoking are calls to Google's token endpoint.
\<close>

record 'p oauth =
  oa_decrypt :: "string \<Rightarrow> string option"
  oa_encrypt :: "string \<Rightarrow> string"
  oa_refresh :: "string \<Rightarrow> 'p \<Rightarrow> (string, string \<times> int) res \<times> timestamp \<times> 'p"
  oa_revoke :: "string \<Rightarrow> 'p \<Rightarrow> (string, nat) res \<times> timestamp \<times> 'p"

record google_access_token =
  gat_token :: string
  gat_encrypted_token :: "string option"
  gat_expires_at :: "timestamp option"

definition decrypted :: "'p oauth \<Rightarrow> string \<Rightarrow> ('p, string) job" where
  "decrypted oauth sealed = job_of (ok_or (oa_decrypt oauth sealed) ''encrypted Google token could not be opened'')"

definition token_call ::
  "(string \<Rightarrow> 'p \<Rightarrow> (string, 'a) res \<times> timestamp \<times> 'p) \<Rightarrow> string \<Rightarrow> ('p, 'a) job" where
  "token_call f token s = (let (r, t, p) = f token (snd s) in (r, (fst s)\<lparr>now := t\<rparr>, p))"

definition oauth_access_token :: "'p oauth \<Rightarrow> google_credentials \<Rightarrow> ('p, google_access_token) job" where
  "oauth_access_token oauth cr =
     job_bind (job_query now) (\<lambda>t.
     if (case cr_access_token_expires_at cr of None \<Rightarrow> True | Some e \<Rightarrow> t + 60 * second < e)
     then job_bind (decrypted oauth (cr_encrypted_access_token cr)) (\<lambda>token.
          job_return \<lparr>gat_token = token, gat_encrypted_token = None, gat_expires_at = cr_access_token_expires_at cr\<rparr>)
     else job_bind (job_of (ok_or (cr_encrypted_refresh_token cr)
            ''Google authorization has expired and cannot be refreshed'')) (\<lambda>sealed.
          job_bind (decrypted oauth sealed) (\<lambda>refresh.
          job_bind (token_call (oa_refresh oauth) refresh) (\<lambda>(token, expires_in).
          job_bind (job_query now) (\<lambda>t.
          job_return \<lparr>gat_token = token, gat_encrypted_token = Some (oa_encrypt oauth token),
            gat_expires_at = Some (t + expires_in * second)\<rparr>)))))"

definition oauth_revoke :: "'p oauth \<Rightarrow> google_credentials \<Rightarrow> ('p, unit) job" where
  "oauth_revoke oauth cr =
     job_bind (decrypted oauth (case cr_encrypted_refresh_token cr of Some r \<Rightarrow> r | None \<Rightarrow> cr_encrypted_access_token cr))
       (\<lambda>token.
     job_bind (token_call (oa_revoke oauth) token) (\<lambda>status.
     if 500 \<le> status \<and> status \<le> 599 then job_fail ''Google credential revocation is unavailable'' else job_return ()))"

definition credentials_of :: "uuid \<Rightarrow> ('p, google_credentials) job" where
  "credentials_of user = job_op (\<lambda>w. bind_res (store_google_credentials user w) (\<lambda>c. Inr (c, w)))"

definition access_token :: "'p oauth \<Rightarrow> uuid \<Rightarrow> ('p, string) job" where
  "access_token oauth user =
     job_bind (credentials_of user) (\<lambda>credentials.
     job_bind (oauth_access_token oauth credentials) (\<lambda>access.
     job_bind (case gat_encrypted_token access of
                 None \<Rightarrow> job_return ()
               | Some sealed \<Rightarrow> job_update (update_google_access_token user sealed (gat_expires_at access))) (\<lambda>_.
     job_return (gat_token access))))"

section \<open>The jobs\<close>

text \<open>The rows of the query; a Google calendar without an external identifier does not decode.\<close>

definition sync_calendars_of :: "uuid \<Rightarrow> uuid option \<Rightarrow> world \<Rightarrow> sync_calendar list store_result" where
  "sync_calendars_of user only w =
     (let rows = filter (\<lambda>c. c_user_id c = user \<and> c_source c = Google \<and> c_selected c
            \<and> (case only of None \<Rightarrow> True | Some i \<Rightarrow> c_id c = i)) (calendars w)
      in if list_all (\<lambda>c. c_external_id c \<noteq> None) rows
         then Inr (map (\<lambda>c. \<lparr>sc_id = c_id c, sc_external_id = the (c_external_id c), sc_sync_token = c_sync_token c\<rparr>) rows, w)
         else Inl (Database (OtherSqlxError ''ColumnDecode'')))"

definition set_sync_error :: "uuid \<Rightarrow> uuid \<Rightarrow> string \<Rightarrow> world \<Rightarrow> world" where
  "set_sync_error user i err =
     update_calendars (\<lambda>c. c_id c = i \<and> c_user_id c = user) (\<lambda>c. c\<lparr>c_last_sync_error := Some (left_chars 2000 err)\<rparr>)"

definition set_synced :: "uuid \<Rightarrow> uuid \<Rightarrow> world \<Rightarrow> world" where
  "set_synced user i w =
     update_calendars (\<lambda>c. c_id c = i \<and> c_user_id c = user)
       (\<lambda>c. c\<lparr>c_last_synced_at := Some (now w), c_last_sync_error := None\<rparr>) w"

definition pull_or_report ::
  "'p provider \<Rightarrow> platform \<Rightarrow> codec \<Rightarrow> nat \<Rightarrow> uuid \<Rightarrow> sync_calendar \<Rightarrow> string \<Rightarrow> ('p, unit) job" where
  "pull_or_report http pf cd fuel user calendar token s =
     (case pull_calendar http pf cd fuel user calendar token s of
        (Inl e, w, p) \<Rightarrow> (Inl e, set_sync_error user (sc_id calendar) e w, p)
      | (Inr u, s) \<Rightarrow> (Inr u, s))"

definition sync_one_calendar ::
  "'p provider \<Rightarrow> platform \<Rightarrow> codec \<Rightarrow> nat \<Rightarrow> uuid \<Rightarrow> string \<Rightarrow> sync_calendar \<Rightarrow> ('p, unit) job" where
  "sync_one_calendar http pf cd fuel user token calendar =
     job_bind (pull_or_report http pf cd fuel user calendar token) (\<lambda>_.
     job_bind (reconcile_deleted_task_resolution http pf cd user calendar token) (\<lambda>_.
     job_bind (push_calendar http pf cd user calendar token) (\<lambda>_.
     job_update (set_synced user (sc_id calendar)))))"

definition sync_calendars ::
  "'p provider \<Rightarrow> 'p oauth \<Rightarrow> platform \<Rightarrow> codec \<Rightarrow> nat \<Rightarrow> uuid \<Rightarrow> uuid option \<Rightarrow> ('p, unit) job" where
  "sync_calendars http oauth pf cd fuel user only =
     job_bind (job_op (sync_calendars_of user only)) (\<lambda>todo.
     job_bind (access_token oauth user) (\<lambda>token.
     job_for (sync_one_calendar http pf cd fuel user token) todo))"

definition calendar_checks :: "google_calendar \<Rightarrow> bool" where
  "calendar_checks g \<longleftrightarrow>
     1 \<le> chars_count (sql_trim (gk_summary g)) \<and> chars_count (sql_trim (gk_summary g)) \<le> 120
     \<and> (case gk_background_color g of None \<Rightarrow> True
          | Some color \<Rightarrow> length color = 7 \<and> starts_with color ''#'' \<and> list_all is_ascii_hexdigit (drop 1 color))
     \<and> (case gk_access_role g of None \<Rightarrow> True
          | Some r \<Rightarrow> r \<in> {''freeBusyReader'', ''reader'', ''writer'', ''owner''})"

definition or_else :: "'a \<Rightarrow> 'a option \<Rightarrow> 'a" where
  "or_else d x = (case x of None \<Rightarrow> d | Some a \<Rightarrow> a)"

definition set_discovered :: "google_calendar \<Rightarrow> timestamp \<Rightarrow> calendar_row \<Rightarrow> calendar_row" where
  "set_discovered g t c =
     c\<lparr>c_name := gk_summary g, c_color := or_else ''#4285f4'' (gk_background_color g),
       c_provider_primary := or_else False (gk_primary g), c_access_role := or_else ''reader'' (gk_access_role g),
       c_updated_at := t\<rparr>"

text \<open>INSERT with ON CONFLICT DO UPDATE: the BEFORE INSERT trigger fires for the proposed row in any case.\<close>

definition upsert_calendar :: "uuid \<Rightarrow> google_calendar \<Rightarrow> world \<Rightarrow> unit outcome" where
  "upsert_calendar user g w =
     (let (i, w) = new_uuid w;
          hit = (\<lambda>c. c_user_id c = user \<and> c_source c = Google \<and> c_external_id c = Some (gk_id g));
          row = \<lparr>c_id = i, c_name = gk_summary g, c_color = or_else ''#4285f4'' (gk_background_color g), c_source = Google,
                 c_external_id = Some (gk_id g),
                 c_selected = (or_else False (gk_selected g) \<or> or_else False (gk_primary g)), c_is_default = False,
                 c_created_at = now w, c_updated_at = now w, c_version = 1, c_user_id = user, c_sync_token = None,
                 c_last_synced_at = None, c_last_sync_error = None, c_provider_primary = or_else False (gk_primary g),
                 c_access_role = or_else ''reader'' (gk_access_role g)\<rparr>
      in if \<not> calendar_checks g then (Inl check_violation, w)
         else if \<exists>c \<in> set (calendars w). hit c
         then (Inr (), update_calendars hit (set_discovered g (now w)) (trigger_revision user ''calendars'' w))
         else (Inr (), insert_calendar row w))"

fun discover_pages ::
  "'p provider \<Rightarrow> uuid \<Rightarrow> string \<Rightarrow> nat \<Rightarrow> string option \<Rightarrow> ('p, unit) job" where
  "discover_pages http user token 0 page_token = job_fail no_fuel"
| "discover_pages http user token (Suc fuel) page_token =
     job_bind (send http (call ''GET'' [''users'', ''me'', ''calendarList'']
       ([(''maxResults'', ''250'')] @ (case page_token of None \<Rightarrow> [] | Some v \<Rightarrow> [(''pageToken'', v)])) token NoJson None)) (\<lambda>r.
     job_bind (error_for_status ''Google Calendar request failed'' r) (\<lambda>r.
     case gp_body r of
       CalendarListBody items next_page \<Rightarrow>
         job_bind (job_for (\<lambda>g. job_store (upsert_calendar user g)) items) (\<lambda>_.
         case next_page of None \<Rightarrow> job_return () | Some page \<Rightarrow> discover_pages http user token fuel (Some page))
     | _ \<Rightarrow> job_fail ''Google Calendar returned invalid JSON''))"

definition discover_calendars ::
  "'p provider \<Rightarrow> 'p oauth \<Rightarrow> platform \<Rightarrow> nat \<Rightarrow> string option \<Rightarrow> uuid \<Rightarrow> ('p, unit) job" where
  "discover_calendars http oauth pf fuel webhook user =
     job_bind (access_token oauth user) (\<lambda>token.
     job_bind (discover_pages http user token fuel None) (\<lambda>_.
     job_bind (job_op (migrate_scheduled_tasks_to_preferred_calendar user)) (\<lambda>_.
     job_bind (if webhook \<noteq> None then job_update (\<lambda>w. snd (enqueue_expiring_calendar_watches pf (Some user) w))
               else job_return ()) (\<lambda>_.
     activity_step user ''calendar_discovery'' ''Google calendars refreshed''))))"

text \<open>A channel that cannot be stopped is only logged.\<close>

definition stop_channel :: "'p provider \<Rightarrow> string \<Rightarrow> uuid \<times> string \<Rightarrow> ('p, unit) job" where
  "stop_channel http token ch s =
     (Inr (), snd (send http (call ''POST'' [''channels'', ''stop''] [] token (StopJson (show_uuid (fst ch)) (snd ch)) None) s))"

text \<open>A channel the database does not take is stopped again before the job fails.\<close>

definition replace_or_stop ::
  "'p provider \<Rightarrow> string \<Rightarrow> uuid \<Rightarrow> uuid \<Rightarrow> uuid \<Rightarrow> string \<Rightarrow> string \<Rightarrow> timestamp \<Rightarrow> ('p, (uuid \<times> string) list) job" where
  "replace_or_stop http token user calendar channel resource hash expires s =
     (case replace_google_watch_channel user calendar channel resource hash expires (fst s) of
        Inl e \<Rightarrow> (Inl (display_error e), snd (stop_channel http token (channel, resource) s))
      | Inr (old, w) \<Rightarrow> (Inr old, w, snd s))"

definition watch_calendar ::
  "'p provider \<Rightarrow> 'p oauth \<Rightarrow> platform \<Rightarrow> codec \<Rightarrow> string option \<Rightarrow> uuid \<Rightarrow> uuid \<Rightarrow> ('p, unit) job" where
  "watch_calendar http oauth pf cd webhook user calendar_id =
     job_bind (job_of (ok_or webhook ''Google Calendar webhook URL is not configured'')) (\<lambda>address.
     job_bind (job_query (\<lambda>w. row_by (\<lambda>c. c_id c = calendar_id \<and> c_user_id c = user \<and> c_source c = Google \<and> c_selected c
       \<and> writable_role (c_access_role c)) (calendars w))) (\<lambda>row.
     case Option.bind row c_external_id of
       None \<Rightarrow> (if row = None then job_return () else job_fail (display_error (Database (OtherSqlxError ''ColumnDecode''))))
     | Some external \<Rightarrow>
         job_bind (access_token oauth user) (\<lambda>token.
         job_bind (job_store (\<lambda>w. let (a, w) = new_uuid w in (Inr a, w))) (\<lambda>channel.
         job_bind (job_store (\<lambda>w. let (a, w) = new_uuid w; (b, w) = new_uuid w in (Inr (hex_pad 32 a @ hex_pad 32 b), w)))
           (\<lambda>channel_token.
         job_bind (send http (call ''POST'' [''calendars'', external, ''events'', ''watch''] [] token
           (WatchJson (show_uuid channel) address channel_token ''604800'') None)) (\<lambda>r.
         job_bind (error_for_status ''Google Calendar request failed'' r) (\<lambda>r.
         case gp_body r of
           WatchBody resource expiration \<Rightarrow>
             job_bind (job_query now) (\<lambda>t.
             let expires_at = or_else (t + 6 * 86400 * second) (Option.bind expiration (parse_millis cd))
             in job_bind (replace_or_stop http token user calendar_id channel resource (sha256 pf channel_token) expires_at)
                  (\<lambda>old.
                job_bind (job_for (stop_channel http token) old) (\<lambda>_.
                job_bind (job_op (enqueue_sync user (Some calendar_id) ''calendar_sync''
                  (''calendar-watch-start:'' @ show_uuid channel))) (\<lambda>_.
                activity_step user ''calendar_watch_enabled'' ''Real-time Google Calendar notifications enabled''))))
         | _ \<Rightarrow> job_fail ''Google Calendar returned invalid JSON'')))))))"

definition stop_all_channels :: "'p provider \<Rightarrow> 'p oauth \<Rightarrow> uuid \<Rightarrow> ('p, unit) job" where
  "stop_all_channels http oauth user s =
     (case access_token oauth user s of
        (Inl _, s) \<Rightarrow> (Inr (), s)
      | (Inr token, s) \<Rightarrow> job_bind (job_query (google_watch_channels_for_user user)) (job_for (stop_channel http token)) s)"

definition revoke :: "'p provider \<Rightarrow> 'p oauth \<Rightarrow> uuid \<Rightarrow> ('p, unit) job" where
  "revoke http oauth user =
     job_bind (credentials_of user) (\<lambda>credentials.
     job_bind (stop_all_channels http oauth user) (\<lambda>_.
     job_bind (oauth_revoke oauth credentials) (\<lambda>_.
     job_bind (job_update (revoke_google_integration user)) (\<lambda>_.
     activity_step user ''integration_revoked'' ''Google Calendar disconnected''))))"

definition execute ::
  "'p provider \<Rightarrow> 'p oauth \<Rightarrow> platform \<Rightarrow> codec \<Rightarrow> nat \<Rightarrow> string option \<Rightarrow> (uuid \<Rightarrow> ('p, unit) job) \<Rightarrow> claimed_sync_job
   \<Rightarrow> ('p, unit) job" where
  "execute http oauth pf cd fuel webhook sync_google_tasks job =
     (if cj_kind job = ''calendar_discovery'' then discover_calendars http oauth pf fuel webhook (cj_user_id job)
      else if cj_kind job = ''tasks_sync'' then sync_google_tasks (cj_user_id job)
      else if cj_kind job = ''calendar_sync'' then sync_calendars http oauth pf cd fuel (cj_user_id job) (cj_calendar_id job)
      else if cj_kind job = ''calendar_watch'' then
        job_bind (job_of (ok_or (cj_calendar_id job) ''calendar watch job requires a calendar'')) (\<lambda>calendar.
        watch_calendar http oauth pf cd webhook (cj_user_id job) calendar)
      else if cj_kind job = ''credential_revoke'' then revoke http oauth (cj_user_id job)
      else job_fail (''unsupported synchronization job kind '' @ cj_kind job))"

definition enqueue_periodic_work :: "platform \<Rightarrow> string option \<Rightarrow> world \<Rightarrow> nat \<times> world" where
  "enqueue_periodic_work pf webhook w =
     (let (n, w) = enqueue_periodic_synchronizations pf w
      in if webhook = None then (n, w)
         else (let (k, w) = enqueue_expiring_calendar_watches pf None w in (n + k, w)))"

section \<open>Validating a deletion against Google\<close>

definition delete_changed :: app_error where
  "delete_changed = Conflict ''Deletion Undo is no longer safe because a dependency changed or the 60-second window expired. Refresh and try again.''"

definition unavailable :: app_error where
  "unavailable = InvalidRequest 503 ''Google could not be freshly validated. Nothing was changed; retry deletion or Undo while it remains eligible.''"

definition or_unavailable ::
  "('p, 'a) job \<Rightarrow> ('a \<Rightarrow> world \<times> 'p \<Rightarrow> unit app_result \<times> world \<times> 'p) \<Rightarrow> world \<times> 'p \<Rightarrow> unit app_result \<times> world \<times> 'p" where
  "or_unavailable m k s = (case m s of (Inl _, s) \<Rightarrow> (Inl unavailable, s) | (Inr a, s) \<Rightarrow> k a s)"

definition same_event :: "platform \<Rightarrow> codec \<Rightarrow> mapping_row \<Rightarrow> google_event \<Rightarrow> unit app_result" where
  "same_event pf cd m event =
     bind_res (require (gv_id event = Some (m_external_event_id m) \<and> gv_status event \<noteq> Some ''cancelled''
       \<and> gv_etag event = m_external_etag m) delete_changed) (\<lambda>_.
     case normalize_event cd event of
       Inl _ \<Rightarrow> Inl unavailable
     | Inr n \<Rightarrow> require (Some (event_fingerprint pf cd n) = m_base_fingerprint m) delete_changed)"

definition validate_task_delete_undo ::
  "'p provider \<Rightarrow> 'p oauth \<Rightarrow> platform \<Rightarrow> codec \<Rightarrow> uuid \<Rightarrow> mapping_row \<Rightarrow> world \<times> 'p \<Rightarrow> unit app_result \<times> world \<times> 'p" where
  "validate_task_delete_undo http oauth pf cd user m =
     or_unavailable (access_token oauth user) (\<lambda>token.
     or_unavailable (send http (call ''GET'' [''calendars'', m_external_calendar_id m, ''events'', m_external_event_id m] []
       token NoJson None)) (\<lambda>response s.
     if gp_status response \<in> {404, 410} then (Inl delete_changed, s)
     else if \<not> (200 \<le> gp_status response \<and> gp_status response \<le> 299) then (Inl unavailable, s)
     else case gp_body response of
            EventBody event \<Rightarrow> (same_event pf cd m event, s)
          | _ \<Rightarrow> (Inl unavailable, s)))"

section \<open>Properties\<close>

named_theorems job_simps "evaluation of job steps"

lemma job_steps [job_simps]:
  "job_return a s = (Inr a, s)" "job_fail e s = (Inl e, s)" "job_update f (w, p) = (Inr (), f w, p)"
  "job_query g (w, p) = (Inr (g w), w, p)"
  by (simp_all add: job_return_def job_fail_def job_update_def job_query_def)

lemma job_bind_Inl [job_simps]: "m s = (Inl e, s') \<Longrightarrow> job_bind m f s = (Inl e, s')"
  by (simp add: job_bind_def)

lemma job_bind_Inr [job_simps]: "m s = (Inr a, s') \<Longrightarrow> job_bind m f s = f a s'"
  by (simp add: job_bind_def)

lemma job_store_eq [job_simps]: "f w = (r, w') \<Longrightarrow> job_store f (w, p) = (r, w', p)"
  by (simp add: job_store_def)

text \<open>An answer that is not worth a retry is the answer of \<open>send\<close>.\<close>

lemma job_bind_eq_Inr: "job_bind m f s = (Inr b, s') \<longleftrightarrow> (\<exists>a t. m s = (Inr a, t) \<and> f a t = (Inr b, s'))"
  by (auto simp: job_bind_def split: prod.split sum.split)

lemma job_pure_eq_Inr:
  "job_return a s = (Inr b, s') \<longleftrightarrow> b = a \<and> s' = s" "job_of r s = (Inr b, s') \<longleftrightarrow> r = Inr b \<and> s' = s"
  "job_query f s = (Inr b, s') \<longleftrightarrow> b = f (fst s) \<and> s' = s" "job_fail e s = (Inr b, s') \<longleftrightarrow> False"
  by (auto simp: job_return_def job_of_def job_query_def job_fail_def)

lemma job_op_eq_Inr: "job_op f (w, p) = (Inr a, s') \<longleftrightarrow> (\<exists>w'. f w = Inr (a, w') \<and> s' = (w', p))"
  by (auto simp: job_op_def split: sum.split)

lemma send_answer [job_simps]:
  assumes "http req p = (Inr r, t, p')" and "\<not> retryable (gp_status r)"
  shows "send http req (w, p) = (Inr r, w\<lparr>now := t\<rparr>, p')"
  using assms by (simp add: send_def numeral_3_eq_3 exchange_def job_bind_def job_return_def)

lemma refused_write:
  assumes "http req p = (Inr r, t, p')" and "gp_status r = 412"
  shows "send_event http req (w, p) = (Inl ''Google Calendar request failed'', w\<lparr>now := t\<rparr>, p')"
proof -
  have "send http req (w, p) = (Inr r, w\<lparr>now := t\<rparr>, p')"
    by (rule send_answer, rule assms(1)) (simp add: retryable_def assms(2))
  then show ?thesis by (simp add: send_event_def job_bind_def error_for_status_def job_fail_def assms(2))
qed

text \<open>
  What HTTP asks of a server for a conditional write: while the event at this address has the version \<open>tag\<close>, a PUT
  to the address whose \<open>If-Match\<close> names another version is answered by 412 and changes nothing. Nothing is said of
  other addresses, of matching tags or of writes without the header.
\<close>

definition honours_if_match :: "'p provider \<Rightarrow> string list \<Rightarrow> string \<Rightarrow> 'p \<Rightarrow> bool" where
  "honours_if_match http address tag p \<longleftrightarrow>
     (\<forall>req old. hr_method req = ''PUT'' \<and> hr_segments req = address \<and> hr_if_match req = Some old \<and> old \<noteq> tag \<longrightarrow>
        (\<exists>body t. http req p = (Inr \<lparr>gp_status = 412, gp_body = body\<rparr>, t, p)))"

text \<open>
  C28. A local version that won cannot be pushed to a provider that honours \<open>If-Match\<close>. When the policy or the user's decision
  keeps the local edit of an event that also changed at Google, the mapping keeps the version tag \<open>old\<close> of before that
  change; pushing the edit names that tag, and a Google that holds the event at its new version \<open>tag\<close> and honours
  \<open>If-Match\<close> refuses it: the push fails, leaves the database (but for the clock) and the event at Google as they
  were, and every later push of the mapping names the same tag again.
\<close>

theorem kept_edits_are_pushed_with_a_stale_tag:
  assumes u: "mappings_unique w" and id: "gv_id event = Some x"
    and m: "mapping_of user (sc_external_id cal) x w = Some m" "\<not> m_reversible_tombstone m" "m_local_dirty m"
    and news: "gv_status event \<noteq> Some ''cancelled''" "gv_etag event = Some tag" "m_external_etag m = Some old" "old \<noteq> tag"
    and n: "normalize_event cd event = Inr n" and keep: "winner_of user event m w = KeepLocal"
    and run: "apply_remote_event pf cd user cal event w = (r, w')"
    and provider: "honours_if_match http [''calendars'', sc_external_id cal, ''events'', x] tag p"
  shows "\<exists>m'. mapping_of user (sc_external_id cal) x w' = Some m' \<and> m_local_dirty m' \<and> m_external_etag m' = Some old
    \<and> (\<exists>t. push_changed http pf cd user cal token m' e (w', p) = (Inl ''Google Calendar request failed'', w'\<lparr>now := t\<rparr>, p))"
proof -
  let ?m = "m\<lparr>m_pending_resolution := None\<rparr>"
  have p: "conflict_policy user m w \<noteq> ''ask''" "keep_local (conflict_policy user m w) event m w"
    using keep by (auto simp: winner_of_code Let_def split: if_splits)
  have "apply_remote_event pf cd user cal event w = apply_to_mapping pf cd user cal m event n w"
    using apply_remote_event_mapped [OF id m(1,2)] n news by simp
  then have w': "w' = update_mapping (m_id m) (\<lambda>m. m\<lparr>m_pending_resolution := None\<rparr>) w"
    using run m(3) news p by (auto simp: apply_to_mapping_def Let_def)
  have find: "mapping_of user (sc_external_id cal) x w' = Some ?m"
    by (rule mapping_of_update [OF u m(1)]) (simp_all add: w' mapping_key_def)
  let ?req = "call ''PUT'' [''calendars'', sc_external_id cal, ''events'', m_external_event_id ?m] [] token
    (EventJson (from_local cd e)) (m_external_etag ?m)"
  have "m_external_event_id m = x" using mapping_of_Some [OF m(1)] by (simp add: mapping_key_def)
  then obtain body t where a: "http ?req p = (Inr \<lparr>gp_status = 412, gp_body = body\<rparr>, t, p)"
    using provider [unfolded honours_if_match_def, rule_format, of ?req old] news by (auto simp: call_def)
  have "send_event http ?req (w', p) = (Inl ''Google Calendar request failed'', w'\<lparr>now := t\<rparr>, p)"
    by (rule refused_write, rule a) simp
  then have "push_changed http pf cd user cal token ?m e (w', p) = (Inl ''Google Calendar request failed'', w'\<lparr>now := t\<rparr>, p)"
    by (simp add: push_changed_def job_bind_def)
  with find m(3) news show ?thesis by (intro exI [of _ ?m]) auto
qed

text \<open>
  A Google that keeps one event, the one changed in the example, with its version tag: a write that names another
  version is refused, every other write is stored as a new version.
\<close>

definition conditional_google :: "string provider" where
  "conditional_google req tag =
     (if hr_method req = ''PUT''
      then case hr_if_match req of
             None \<Rightarrow> (Inr \<lparr>gp_status = 200, gp_body = EventBody (example_remote\<lparr>gv_etag := Some (tag @ ''+'')\<rparr>)\<rparr>, 9, tag @ ''+'')
           | Some t \<Rightarrow> if t = tag
               then (Inr \<lparr>gp_status = 200, gp_body = EventBody (example_remote\<lparr>gv_etag := Some (tag @ ''+'')\<rparr>)\<rparr>, 9, tag @ ''+'')
               else (Inr \<lparr>gp_status = 412, gp_body = OtherBody\<rparr>, 9, tag)
      else (Inr \<lparr>gp_status = 200, gp_body = EventBody (example_remote\<lparr>gv_etag := Some tag\<rparr>)\<rparr>, 9, tag))"

lemma conditional_google_honours: "honours_if_match conditional_google address tag tag"
  by (simp add: honours_if_match_def conditional_google_def)

definition example_kept :: world where
  "example_kept = example_synced\<lparr>mappings := [example_mapping_row\<lparr>m_pending_resolution := Some ''prosepect''\<rparr>]\<rparr>"

theorem kept_edits_are_pushed_with_a_stale_tag_witness:
  "\<exists>w' m' t. apply_remote_event (ascii_platform 0) unary_codec 7 example_calendar example_remote example_kept = (Inr (), w')
     \<and> m_external_etag m' = Some ''0'' \<and> m_local_dirty m'
     \<and> push_changed conditional_google (ascii_platform 0) unary_codec 7 example_calendar
          ''token'' m' example_local (w', ''1'') = (Inl ''Google Calendar request failed'', w'\<lparr>now := t\<rparr>, ''1'')"
proof -
  let ?m = "example_mapping_row\<lparr>m_pending_resolution := Some ''prosepect''\<rparr>"
  have u: "mappings_unique example_kept" by (simp add: mappings_unique_def example_kept_def)
  have m: "mapping_of 7 (sc_external_id example_calendar) ''x'' example_kept = Some ?m"
    by (simp add: mapping_of_def row_by_def example_kept_def remote_example_simps)
  have f: "gv_id example_remote = Some ''x''" "\<not> m_reversible_tombstone ?m" "m_local_dirty ?m"
    "gv_status example_remote \<noteq> Some ''cancelled''" "gv_etag example_remote = Some ''1''" "m_external_etag ?m = Some ''0''"
    "''0'' \<noteq> ''1''"
    by (simp_all add: remote_example_simps)
  have n: "normalize_event unary_codec example_remote = Inr example_moved" using example_moved_readable by simp
  have k: "winner_of 7 example_remote ?m example_kept = KeepLocal"
    by (simp add: winner_of_def chosen_policy_def)
  obtain r w' where run: "apply_remote_event (ascii_platform 0) unary_codec 7 example_calendar example_remote example_kept = (r, w')"
    by fastforce
  have "r = Inr ()"
    using run apply_remote_event_mapped [OF f(1) m f(2), of unary_codec example_moved "ascii_platform 0"] f n k
    by (auto simp: apply_to_mapping_def Let_def winner_of_code split: if_splits)
  moreover note kept_edits_are_pushed_with_a_stale_tag [OF u f(1) m f(2,3,4,5,6,7) n k run conditional_google_honours]
  ultimately show ?thesis using run by blast
qed

section \<open>Events the database cannot hold\<close>

text \<open>The events Google lists for the pull of a calendar, over all pages the pull follows.\<close>

definition page_request :: "sync_calendar \<Rightarrow> string \<Rightarrow> string option \<Rightarrow> string option \<Rightarrow> google_request" where
  "page_request calendar token sync_token page_token =
     call ''GET'' [''calendars'', sc_external_id calendar, ''events''] (event_query sync_token page_token) token NoJson None"

fun listed ::
  "'p provider \<Rightarrow> sync_calendar \<Rightarrow> string \<Rightarrow> nat \<Rightarrow> string option \<Rightarrow> string option \<Rightarrow> bool \<Rightarrow> 'p \<Rightarrow> google_event list" where
  "listed http calendar token 0 sync_token page_token retried p = []"
| "listed http calendar token (Suc fuel) sync_token page_token retried p =
     (case send http (page_request calendar token sync_token page_token) (empty_world, p) of
        (Inl _, _) \<Rightarrow> []
      | (Inr r, _, p') \<Rightarrow>
          if gp_status r = 410 \<and> \<not> retried then listed http calendar token fuel None None True p'
          else if 400 \<le> gp_status r \<and> gp_status r \<le> 599 then []
          else case gp_body r of
                 EventListBody items next_page _ \<Rightarrow>
                   items @ (case next_page of
                              None \<Rightarrow> []
                            | Some page \<Rightarrow> listed http calendar token fuel sync_token (Some page) retried p')
               | _ \<Rightarrow> [])"

text \<open>An event that is not cancelled, can be read, and violates a CHECK of \<open>calendar_events\<close>.\<close>

definition unstorable :: "codec \<Rightarrow> google_event \<Rightarrow> bool" where
  "unstorable cd event \<longleftrightarrow>
     gv_status event \<noteq> Some ''cancelled'' \<and> (\<exists>n. normalize_event cd event = Inr n \<and> \<not> event_checks n)"

lemma send_attempts_clock:
  "\<exists>r t p'. \<forall>w. send_attempts http req k (w, p) = (r, w\<lparr>now := t\<rparr>, p')"
proof (induction k arbitrary: p)
  case 0
  show ?case by (cases "http req p") (auto simp: exchange_def)
next
  case (Suc k)
  obtain r t p1 where a: "http req p = (r, t, p1)" by (cases "http req p") auto
  obtain r' t' p' where b: "send_attempts http req k (w, p1) = (r', w\<lparr>now := t'\<rparr>, p')" for w
    using Suc.IH [of p1] by blast
  show ?case
  proof (cases r)
    case (Inl e)
    then show ?thesis by (auto simp: job_bind_def exchange_def a)
  next
    case (Inr q)
    show ?thesis
    proof (cases "retryable (gp_status q)")
      case True
      with Inr b show ?thesis by (auto simp: job_bind_def exchange_def a)
    next
      case False
      with Inr show ?thesis by (auto simp: job_bind_def exchange_def a job_return_def)
    qed
  qed
qed

text \<open>Only the clock of the world depends on the exchange.\<close>

lemma send_clock: "\<exists>r t p'. \<forall>w. send http req (w, p) = (r, w\<lparr>now := t\<rparr>, p')"
  unfolding send_def by (rule send_attempts_clock)

lemma send_attempts_cong:
  "(\<And>p. http req p = http' req p) \<Longrightarrow> send_attempts http req k = send_attempts http' req k"
proof (induction k)
  case (Suc k)
  moreover have "exchange http req = exchange http' req" using Suc.prems by (auto simp: exchange_def)
  ultimately show ?case by (simp cong: if_cong)
qed (auto simp: exchange_def)

lemma send_cong: "(\<And>p. http req p = http' req p) \<Longrightarrow> send http req = send http' req"
  unfolding send_def by (rule send_attempts_cong)

text \<open>Pulling sends nothing but GET requests.\<close>

lemma pull_pages_reads:
  assumes "\<And>req p. hr_method req = ''GET'' \<Longrightarrow> http' req p = http req p"
  shows "pull_pages http' pf cd user cal token fuel st pt retried = pull_pages http pf cd user cal token fuel st pt retried"
proof (induction fuel arbitrary: st pt retried)
  case (Suc fuel)
  have "send http' (call ''GET'' a b token NoJson None) = send http (call ''GET'' a b token NoJson None)" for a b
    by (rule send_cong) (simp add: assms call_def)
  then show ?case by (simp add: Suc.IH cong: if_cong option.case_cong google_body.case_cong)
qed simp

text \<open>The keys of the mappings: a delivery adds at most the key of the delivered event.\<close>

definition mapping_keys :: "world \<Rightarrow> (uuid \<times> string \<times> string) set" where
  "mapping_keys w = mapping_key ` set (mappings w)"

lemma mapping_of_keys: "mapping_of u c x w = None \<longleftrightarrow> (u, c, x) \<notin> mapping_keys w"
  by (force simp: mapping_of_key row_by_None mapping_keys_def)

lemma image_update_where:
  assumes "\<And>m. f (g m) = f m"
  shows "f ` set (update_where P g xs) = f ` set xs"
  using assms by (metis map_update_where set_map)

lemma keys_of_updates [simp]:
  "mapping_keys (record_activity u kind msg w) = mapping_keys w"
  "mapping_keys (drop_receipts u i w) = mapping_keys w"
  "mapping_keys (create_conflict u m t w) = mapping_keys w"
  "mapping_keys (snd (update_canonical_event u i c n w)) = mapping_keys w"
  "mapping_keys (snd (new_uuid w)) = mapping_keys w"
  "mapping_keys (delete_canonical_event u i w) = mapping_keys w"
  "mapping_keys (update_mapping_baseline pf cd i event n w) = mapping_keys w"
  "mapping_keys (update_mapping i (\<lambda>m. m\<lparr>m_pending_resolution := None\<rparr>) w) = mapping_keys w"
  "mapping_keys (update_mapping i (\<lambda>m. m\<lparr>m_canonical_event_id := k\<rparr>) w) = mapping_keys w"
  by (simp_all add: mapping_keys_def image_update_where mapping_key_def update_mapping_baseline_def set_baseline_def
      image_image new_uuid_def)

lemma keys_of_delete: "mapping_keys (delete_mappings P w) \<subseteq> mapping_keys w"
  by (auto simp: mapping_keys_def)

lemma keys_of_import:
  "mapping_keys (snd (import_event pf cd user cal y e n w)) \<subseteq> insert (user, sc_external_id cal, y) (mapping_keys w)"
  "calendars (snd (import_event pf cd user cal y e n w)) = calendars w"
  by (auto simp: import_event_def insert_canonical_event_def insert_mapping_def new_uuid_def Let_def mapping_keys_def
      mapping_key_def new_mapping_def)

lemma keys_of_change:
  "mapping_keys (snd (apply_change pf cd user cal m e n w)) = mapping_keys w"
  "calendars (snd (apply_change pf cd user cal m e n w)) = calendars w"
proof -
  let ?v = "snd (apply_change pf cd user cal m e n w)"
  have "mapping_keys ?v = mapping_keys w \<and> calendars ?v = calendars w"
  proof (cases "m_canonical_event_id m")
    case None
    then show ?thesis
      by (simp add: apply_change_def insert_canonical_event_def new_uuid_def Let_def)
        (simp add: mapping_keys_def update_mapping_baseline_def)
  next
    case (Some i)
    obtain r v where "update_canonical_event user i (sc_id cal) n w = (r, v)" by fastforce
    moreover from this have "mapping_keys v = mapping_keys w" "calendars v = calendars w"
      using keys_of_updates(4) [of user i "sc_id cal" n w]
      by (auto simp: update_canonical_event_def Let_def split: option.splits if_splits)
    moreover have "calendars (update_mapping_baseline pf cd i e n w) = calendars w" for i w
      by (simp add: update_mapping_baseline_def)
    ultimately show ?thesis
      using Some by (simp add: apply_change_def Let_def split: sum.split)
  qed
  then show "mapping_keys ?v = mapping_keys w" "calendars ?v = calendars w" by simp_all
qed

lemma keys_of_cancelled:
  "mapping_keys (apply_cancelled user m e w) \<subseteq> mapping_keys w"
  "calendars (apply_cancelled user m e w) = calendars w"
proof -
  show "mapping_keys (apply_cancelled user m e w) \<subseteq> mapping_keys w"
    by (auto simp: apply_cancelled_def Let_def split: option.split dest: subsetD [OF keys_of_delete])
  show "calendars (apply_cancelled user m e w) = calendars w"
    by (simp add: apply_cancelled_def Let_def delete_canonical_event_def split: option.split)
qed

lemma keys_of_tombstone:
  "mapping_keys (apply_to_tombstone user m e w) \<subseteq> mapping_keys w"
  "calendars (apply_to_tombstone user m e w) = calendars w"
  by (auto simp: apply_to_tombstone_def dest: subsetD [OF keys_of_delete])

lemma keys_of_mapped:
  "mapping_keys (snd (apply_to_mapping pf cd user cal m e n w)) = mapping_keys w"
  "calendars (snd (apply_to_mapping pf cd user cal m e n w)) = calendars w"
  by (simp_all add: apply_to_mapping_def Let_def keys_of_change)

lemma keys_of_delivery:
  "mapping_keys (snd (apply_remote_event pf cd user cal e w))
     \<subseteq> mapping_keys w \<union> {(user, sc_external_id cal, y) |y. gv_id e = Some y}"
  "calendars (snd (apply_remote_event pf cd user cal e w)) = calendars w"
  using keys_of_import [where w = w]
  by (auto simp: apply_remote_event_def keys_of_mapped keys_of_tombstone keys_of_cancelled Let_def
      dest: subsetD [OF keys_of_tombstone(1)] subsetD [OF keys_of_cancelled(1)]
      split: option.split sum.split)

lemma unstorable_is_refused:
  assumes "unstorable cd e" and "gv_id e = Some x" and "mapping_of user (sc_external_id cal) x w = None"
  shows "apply_remote_event pf cd user cal e w = (Inl check_violation, snd (new_uuid w))"
  using assms by (auto simp: unstorable_def apply_remote_event_def import_event_def insert_canonical_event_def case_prod_beta Let_def)

lemma pull_stores_up_to_the_event:
  assumes "event \<in> set items" and "gv_id event = Some x" and "mapping_of user (sc_external_id cal) x w = None"
    and "\<And>e. e \<in> set items \<Longrightarrow> gv_id e = Some x \<Longrightarrow> unstorable cd e"
  shows "\<exists>err w'. job_for (\<lambda>event. job_store (apply_remote_event pf cd user cal event)) items (w, p) = (Inl err, w', p)
    \<and> mapping_of user (sc_external_id cal) x w' = None \<and> calendars w' = calendars w"
  using assms
proof (induction items arbitrary: w)
  case (Cons e items)
  obtain r v where run: "apply_remote_event pf cd user cal e w = (r, v)" by fastforce
  have v: "mapping_of user (sc_external_id cal) x v = None" "calendars v = calendars w"
    "gv_id e = Some x \<Longrightarrow> \<exists>err. r = Inl err"
  proof -
    show "calendars v = calendars w" using keys_of_delivery(2) [of pf cd user cal e w] run by simp
    show "gv_id e = Some x \<Longrightarrow> \<exists>err. r = Inl err"
      using unstorable_is_refused [of cd e x user cal w pf] Cons.prems(3,4) run by auto
    show "mapping_of user (sc_external_id cal) x v = None"
    proof (cases "gv_id e = Some x")
      case True
      then show ?thesis
        using unstorable_is_refused [of cd e x user cal w pf] Cons.prems(3) Cons.prems(4) [of e] run by (auto simp: mapping_of_keys)
    next
      case False
      then show ?thesis using keys_of_delivery(1) [of pf cd user cal e w] run Cons.prems(3) by (auto simp: mapping_of_keys)
    qed
  qed
  show ?case
  proof (cases r)
    case (Inl err)
    with run v show ?thesis by (simp add: job_bind_def job_store_def)
  next
    case (Inr u)
    with v(3) Cons.prems(1,2) have "event \<in> set items" by auto
    from Cons.IH [OF this Cons.prems(2) v(1)] Cons.prems(4) obtain err w' where
      "job_for (\<lambda>event. job_store (apply_remote_event pf cd user cal event)) items (v, p) = (Inl err, w', p)"
      "mapping_of user (sc_external_id cal) x w' = None" "calendars w' = calendars v" by auto
    with Inr v show ?thesis by (simp add: job_bind_def job_store_eq [of "apply_remote_event pf cd user cal e", OF run])
  qed
qed simp

lemma pulled_items:
  "\<exists>r w'. job_for (\<lambda>event. job_store (apply_remote_event pf cd user cal event)) items (w, p) = (r, w', p)
    \<and> mapping_keys w' \<subseteq> mapping_keys w \<union> {(user, sc_external_id cal, y) |y. \<exists>e \<in> set items. gv_id e = Some y}
    \<and> calendars w' = calendars w"
proof (induction items arbitrary: w)
  case Nil
  show ?case by (simp add: job_return_def)
next
  case (Cons e items)
  obtain r v where run: "apply_remote_event pf cd user cal e w = (r, v)" by fastforce
  note v = keys_of_delivery [of pf cd user cal e w, unfolded run snd_conv]
  show ?case
  proof (cases r)
    case (Inl err)
    with v show ?thesis by (auto simp: job_bind_def job_store_eq [of "apply_remote_event pf cd user cal e", OF run])
  next
    case (Inr u)
    from Cons.IH [of v] obtain r' w' where "job_for (\<lambda>event. job_store (apply_remote_event pf cd user cal event)) items (v, p) = (r', w', p)"
      and "mapping_keys w' \<subseteq> mapping_keys v \<union> {(user, sc_external_id cal, y) |y. \<exists>e \<in> set items. gv_id e = Some y}"
      and "calendars w' = calendars v" by blast
    moreover from this(2) v(1)
    have "mapping_keys w' \<subseteq> mapping_keys w \<union> {(user, sc_external_id cal, y) |y. \<exists>e \<in> set (e # items). gv_id e = Some y}"
      by fastforce
    ultimately show ?thesis using v(2) Inr by (simp add: job_bind_def job_store_eq [of "apply_remote_event pf cd user cal e", OF run])
  qed
qed

lemma pull_pages_meets_the_event:
  assumes "event \<in> set (listed http cal token fuel st pt retried p)" and "gv_id event = Some x"
    and "\<And>e. e \<in> set (listed http cal token fuel st pt retried p) \<Longrightarrow> gv_id e = Some x \<Longrightarrow> unstorable cd e"
    and "mapping_of user (sc_external_id cal) x w = None"
  shows "\<exists>err w' p'. pull_pages http pf cd user cal token fuel st pt retried (w, p) = (Inl err, w', p')
    \<and> mapping_of user (sc_external_id cal) x w' = None \<and> calendars w' = calendars w"
  using assms
proof (induction fuel arbitrary: st pt retried p w)
  case (Suc fuel)
  obtain r t p' where sent: "\<And>w. send http (page_request cal token st pt) (w, p) = (r, w\<lparr>now := t\<rparr>, p')"
    using send_clock [of http "page_request cal token st pt" p] by blast
  note sent' = sent [unfolded page_request_def]
  let ?w = "w\<lparr>now := t\<rparr>"
  have new: "mapping_of user (sc_external_id cal) x ?w = None" using Suc.prems(4) by (simp add: mapping_of_def)
  from Suc.prems(1) obtain q where r: "r = Inr q" by (auto simp: sent split: sum.splits)
  show ?case
  proof (cases "gp_status q = 410 \<and> \<not> retried")
    case True
    then have l: "listed http cal token (Suc fuel) st pt retried p = listed http cal token fuel None None True p'"
      by (simp add: sent r)
    from Suc.IH [of None None True p' ?w] Suc.prems(1-3) new show ?thesis
      unfolding l using True by (simp add: job_bind_def sent' r)
  next
    case no: False
    with Suc.prems(1) obtain items next_page next_sync where b: "gp_body q = EventListBody items next_page next_sync"
      and ok: "\<not> (400 \<le> gp_status q \<and> gp_status q \<le> 599)"
      by (auto simp: sent r split: google_body.splits if_splits)
    let ?go = "case next_page of None \<Rightarrow> [] | Some page \<Rightarrow> listed http cal token fuel st (Some page) retried p'"
    have l: "listed http cal token (Suc fuel) st pt retried p = items @ ?go" using no b ok by (auto simp: sent r)
    let ?for = "job_for (\<lambda>event. job_store (apply_remote_event pf cd user cal event)) items"
    let ?then = "\<lambda>_. case next_page of None \<Rightarrow> job_update (finish_pull cal next_sync)
        | Some page \<Rightarrow> pull_pages http pf cd user cal token fuel st (Some page) retried"
    have pull: "pull_pages http pf cd user cal token (Suc fuel) st pt retried (w, p) = job_bind ?for ?then (?w, p')"
      using no b ok by (auto simp: job_bind_def sent' r error_for_status_def job_return_def)
    have bad: "unstorable cd e" if "e \<in> set items \<or> e \<in> set ?go" "gv_id e = Some x" for e
      using Suc.prems(3) [of e] that unfolding l by simp
    show ?thesis
    proof (cases "\<exists>e \<in> set items. gv_id e = Some x")
      case True
      then obtain e where "e \<in> set items" "gv_id e = Some x" by blast
      from pull_stores_up_to_the_event [OF this new, of cd pf p'] bad show ?thesis
        unfolding pull by (auto simp: job_bind_def)
    next
      case False
      then have "event \<in> set ?go" using Suc.prems(1,2) unfolding l by auto
      then obtain page where page: "next_page = Some page" by (cases next_page) auto
      obtain r' w1 where items: "?for (?w, p') = (r', w1, p')"
        and k: "mapping_keys w1 \<subseteq> mapping_keys ?w \<union> {(user, sc_external_id cal, y) |y. \<exists>e \<in> set items. gv_id e = Some y}"
        and c: "calendars w1 = calendars ?w"
        using pulled_items [of pf cd user cal items ?w p'] by blast
      have w1: "mapping_of user (sc_external_id cal) x w1 = None" "calendars w1 = calendars w"
        using subsetD [OF k] False new c by (auto simp: mapping_of_keys)
      show ?thesis
      proof (cases r')
        case (Inl err)
        with items w1 show ?thesis unfolding pull by (simp add: job_bind_def)
      next
        case (Inr u)
        from Suc.IH [of st "Some page" retried p' w1] \<open>event \<in> set ?go\<close> Suc.prems(2) bad w1 page
        show ?thesis unfolding pull by (simp add: job_bind_def items Inr)
      qed
    qed
  qed
qed simp

text \<open>
  C29. One event the database cannot hold stops its calendar. Let Google list, on any page and at any place of it, an
  event that is new here and violates a CHECK of \<open>calendar_events\<close> (no duration, a title over 240 characters, an end
  without a recurrence the server knows), and list no other version of it. Then the synchronization of the calendar fails:
  the event stays unknown, no calendar's synchronization token moves, so the next attempt meets the same event, and
  nothing but GET requests is sent, so no local change of the calendar is pushed. (What was listed before the event may
  have been stored.)
\<close>

theorem unstorable_events_stop_the_calendar:
  assumes event: "event \<in> set (listed http cal token fuel (sc_sync_token cal) None False p)" "gv_id event = Some x"
    and versions: "\<forall>e \<in> set (listed http cal token fuel (sc_sync_token cal) None False p). gv_id e = Some x \<longrightarrow> unstorable cd e"
    and new: "mapping_of user (sc_external_id cal) x w = None"
  shows "\<exists>err w' p'. sync_one_calendar http pf cd fuel user token cal (w, p) = (Inl err, w', p')
    \<and> mapping_of user (sc_external_id cal) x w' = None
    \<and> map c_sync_token (calendars w') = map c_sync_token (calendars w)
    \<and> (\<forall>http'. (\<forall>req p. hr_method req = ''GET'' \<longrightarrow> http' req p = http req p) \<longrightarrow>
         sync_one_calendar http' pf cd fuel user token cal (w, p) = (Inl err, w', p'))"
proof -
  obtain err w' p' where pull: "pull_pages http pf cd user cal token fuel (sc_sync_token cal) None False (w, p) = (Inl err, w', p')"
    and w': "mapping_of user (sc_external_id cal) x w' = None" "calendars w' = calendars w"
    using pull_pages_meets_the_event [OF event _ new, of cd pf] versions by blast
  let ?v = "set_sync_error user (sc_id cal) err w'"
  have run: "sync_one_calendar h pf cd fuel user token cal (w, p) = (Inl err, ?v, p')"
    if "\<forall>req p. hr_method req = ''GET'' \<longrightarrow> h req p = http req p" for h
    using pull pull_pages_reads [of h http] that
    by (simp add: sync_one_calendar_def job_bind_def pull_or_report_def pull_calendar_def)
  have "mapping_of user (sc_external_id cal) x ?v = None" "map c_sync_token (calendars ?v) = map c_sync_token (calendars w)"
    using w' by (simp_all add: set_sync_error_def mapping_of_def)
  with run show ?thesis by blast
qed

text \<open>A reminder without duration, on the second page after an event that is stored.\<close>

definition example_instant :: google_event where
  "example_instant = example_remote\<lparr>gv_id := Some ''y'', gv_end := gv_start example_remote\<rparr>"

definition paging_google :: "unit provider" where
  "paging_google req p =
     (if (''pageToken'', ''2'') \<in> set (hr_query req)
      then (Inr \<lparr>gp_status = 200, gp_body = EventListBody [example_instant] None (Some ''next'')\<rparr>, 9, p)
      else (Inr \<lparr>gp_status = 200, gp_body = EventListBody [example_remote] (Some ''2'') None\<rparr>, 9, p))"

lemma paging_google_lists: "listed paging_google example_calendar ''token'' 2 None None False () = [example_remote, example_instant]"
  by (simp add: numeral_2_eq_2 send_def numeral_3_eq_3 exchange_def job_bind_def job_return_def retryable_def paging_google_def
      page_request_def call_def event_query_def)

theorem unstorable_events_stop_the_calendar_witness:
  "\<exists>err w'. sync_one_calendar paging_google (ascii_platform 0) unary_codec 2 7 ''token'' example_calendar (empty_world, ()) = (Inl err, w', ())
     \<and> mapping_of 7 (sc_external_id example_calendar) ''y'' w' = None"
proof -
  have n: "normalize_event unary_codec example_instant = Inr (example_moved\<lparr>ne_ends_at := 30\<rparr>)"
    and c: "\<not> event_checks (example_moved\<lparr>ne_ends_at := 30\<rparr>)"
    by code_simp+
  have u: "unstorable unary_codec example_instant"
    using n c by (simp add: unstorable_def) (simp add: example_instant_def example_remote_def)
  have i: "gv_id example_instant = Some ''y''" "gv_id example_remote \<noteq> Some ''y''"
    by (simp_all add: example_instant_def example_remote_def)
  have l: "listed paging_google example_calendar ''token'' 2 (sc_sync_token example_calendar) None False () = [example_remote, example_instant]"
    using paging_google_lists by (simp add: example_calendar_def)
  have "mapping_of 7 (sc_external_id example_calendar) ''y'' empty_world = None"
    by (simp add: mapping_of_def row_by_def empty_world_def)
  then show ?thesis
    using unstorable_events_stop_the_calendar [of example_instant paging_google example_calendar "''token''" 2 "()" "''y''"
        unary_codec 7 empty_world "ascii_platform 0"] u i unfolding l by auto
qed

end
