(* ===== verification/TaskDelete.thy ===== *)
theory TaskDelete
  imports CalendarSync TaskStore
begin

text \<open>
  \<open>task_delete_store.rs\<close>: deleting a task with a receipt that brings it back for 60 seconds. The receipt holds the rows
  the deletion removes or detaches and the rows it depends on; undoing compares what it depends on with the
  database and puts the rest back. The transactions never wait: which locks are free is an argument, as are the
  readings of the wall clock and the size PostgreSQL gives the JSON text of a snapshot.
\<close>

section \<open>Locks and guards\<close>

datatype lock_key = Row string uuid | Scope string

record delete_locks =
  dl_sync :: bool
  dl_graph :: bool
  dl_free :: "lock_key \<Rightarrow> bool"

record task_delete_undo =
  td_id :: uuid
  td_task_id :: uuid
  td_task_title :: string
  td_expires_at :: timestamp

datatype delete_preparation = Deleted task_delete_undo | Legacy snapshot

definition SNAPSHOT_BYTES :: int where
  "SNAPSHOT_BYTES = 1024 * 1024"

definition OWNER_BYTES :: int where
  "OWNER_BYTES = 4 * 1024 * 1024"

definition over_capacity :: app_error where
  "over_capacity = Validation ''Reversible deletion exceeds its safety limits (100 active receipts, 4 MiB per owner, 1 MiB per snapshot, 64 notes, 128 attachments, 32 focus dates). Nothing was deleted.''"

definition google_refusal :: app_error where
  "google_refusal = Conflict ''This Google-linked task cannot be reversibly deleted. Synchronize it, resolve conflicts, and use the selected writable preferred time-block calendar before retrying. Nothing was deleted.''"

definition db_error :: "string \<Rightarrow> app_error" where
  "db_error code = Database (DatabaseError None (Some code))"

definition retry_error :: "app_error \<Rightarrow> app_error" where
  "retry_error e =
     (case e of
        Database (DatabaseError _ (Some code)) \<Rightarrow>
          if code \<in> {''55P03'', ''23505'', ''23503''} then delete_changed else e
      | _ \<Rightarrow> e)"

definition map_err :: "(app_error \<Rightarrow> app_error) \<Rightarrow> 'a app_result \<Rightarrow> 'a app_result" where
  "map_err f r = (case r of Inl e \<Rightarrow> Inl (f e) | Inr a \<Rightarrow> Inr a)"

definition take_lock :: "delete_locks \<Rightarrow> lock_key \<Rightarrow> unit app_result" where
  "take_lock lk k = require (dl_free lk k) (db_error ''55P03'')"

definition lock_row :: "delete_locks \<Rightarrow> string \<Rightarrow> ('r \<Rightarrow> uuid) \<Rightarrow> 'r option \<Rightarrow> 'r option app_result" where
  "lock_row lk table key r =
     (case r of None \<Rightarrow> Inr None | Some x \<Rightarrow> bind_res (take_lock lk (Row table (key x))) (\<lambda>_. Inr (Some x)))"

definition lock_rows :: "delete_locks \<Rightarrow> string \<Rightarrow> ('r \<Rightarrow> uuid) \<Rightarrow> 'r list \<Rightarrow> 'r list app_result" where
  "lock_rows lk table key rs =
     bind_res (require (list_all (\<lambda>r. dl_free lk (Row table (key r))) rs) (db_error ''55P03'')) (\<lambda>_. Inr rs)"

definition cap :: "'r list \<Rightarrow> nat \<Rightarrow> unit app_result" where
  "cap rows most = require (length rows \<le> most) over_capacity"

definition lock_delete :: "delete_locks \<Rightarrow> uuid \<Rightarrow> world \<Rightarrow> unit app_result" where
  "lock_delete lk user w =
     bind_res (require (dl_sync lk \<and> dl_graph lk) delete_changed) (\<lambda>_.
     bind_res (lock_row lk ''users'' u_id (row_by (\<lambda>u. u_id u = user) (users w))) (\<lambda>owner.
     require (owner \<noteq> None) Unauthorized))"

definition ensure_revision :: "uuid \<Rightarrow> string \<Rightarrow> world \<Rightarrow> world" where
  "ensure_revision user scope w =
     (if \<exists>g \<in> set (guard_revisions w). gr_user_id g = user \<and> gr_scope g = scope then w
      else w\<lparr>guard_revisions := guard_revisions w @ [\<lparr>gr_user_id = user, gr_scope = scope, gr_revision = 0\<rparr>]\<rparr>)"

definition revision_of :: "uuid \<Rightarrow> string \<Rightarrow> world \<Rightarrow> int" where
  "revision_of user scope w =
     (case row_by (\<lambda>g. gr_user_id g = user \<and> gr_scope g = scope) (guard_revisions w) of
        Some g \<Rightarrow> gr_revision g | None \<Rightarrow> 0)"

definition revision :: "delete_locks \<Rightarrow> uuid \<Rightarrow> string \<Rightarrow> world \<Rightarrow> int store_result" where
  "revision lk user scope w =
     bind_res (take_lock lk (Scope scope)) (\<lambda>_.
     let w = ensure_revision user scope w in Inr (revision_of user scope w, w))"

fun revisions :: "delete_locks \<Rightarrow> uuid \<Rightarrow> string list \<Rightarrow> world \<Rightarrow> (string \<times> int) list store_result" where
  "revisions lk user [] w = Inr ([], w)"
| "revisions lk user (scope # scopes) w =
     bind_res (revision lk user scope w) (\<lambda>(v, w).
     bind_res (revisions lk user scopes w) (\<lambda>(vs, w). Inr ((scope, v) # vs, w)))"

definition calendar_guard :: "calendar_row \<Rightarrow> calendar_row" where
  "calendar_guard c = c\<lparr>c_sync_token := None, c_last_synced_at := None, c_last_sync_error := None, c_updated_at := 0\<rparr>"

definition google_account_guard :: "delete_locks \<Rightarrow> uuid \<Rightarrow> world \<Rightarrow> (uuid \<times> timestamp \<times> string list) app_result" where
  "google_account_guard lk user w =
     bind_res (lock_row lk ''google_accounts'' ga_user_id (row_by (\<lambda>a. ga_user_id a = user) (google_accounts w))) (\<lambda>a.
     ok_or (map_option (\<lambda>a. (ga_user_id a, ga_connected_at a, ga_scopes a)) a) delete_changed)"

section \<open>Deleting\<close>

definition preferred_google :: "uuid \<Rightarrow> world \<Rightarrow> uuid option" where
  "preferred_google user w =
     (case sort_key id (map c_id (filter (\<lambda>c. c_user_id c = user \<and> c_source c = Google \<and> c_selected c
         \<and> c_provider_primary c \<and> writable_role (c_access_role c)) (calendars w))) of
        [] \<Rightarrow> None | i # _ \<Rightarrow> Some i)"

definition clean_mapping :: "uuid \<Rightarrow> calendar_row \<Rightarrow> mapping_row \<Rightarrow> world \<Rightarrow> bool" where
  "clean_mapping user calendar m w \<longleftrightarrow>
     preferred_google user w = Some (c_id calendar) \<and> m_user_id m = user \<and> m_calendar_id m = c_id calendar
     \<and> Some (m_external_calendar_id m) = c_external_id calendar \<and> m_external_event_id m \<noteq> []
     \<and> m_external_etag m \<noteq> None \<and> m_external_etag m \<noteq> Some []
     \<and> \<not> m_local_dirty m \<and> \<not> m_local_deleted m \<and> m_conflict_state m = ''none'' \<and> m_pending_resolution m = None
     \<and> \<not> m_delete_resolution_pending m \<and> \<not> m_reversible_tombstone m \<and> m_deletion_hold_until m = None
     \<and> \<not> disputed (m_id m) w"

text \<open>The event of the task with its calendar and mapping; the flag says that the stored fingerprint is of the old kind.\<close>

definition snapshot_event ::
  "platform \<Rightarrow> codec \<Rightarrow> delete_locks \<Rightarrow> uuid \<Rightarrow> event_row \<Rightarrow> world
   \<Rightarrow> (calendar_row \<times> mapping_row option \<times> (uuid \<times> timestamp \<times> string list) option \<times> bool) app_result" where
  "snapshot_event pf cd lk user event w =
     bind_res (lock_row lk ''calendars'' c_id (calendar_by_id user (e_calendar_id event) w)) (\<lambda>calendar.
     bind_res (ok_or calendar delete_changed) (\<lambda>calendar.
     bind_res (lock_row lk ''external_event_mappings'' m_id
       (row_by (\<lambda>m. m_canonical_event_id m = Some (e_id event)) (mappings w))) (\<lambda>mapping.
     if c_source calendar = Google then
       bind_res (google_account_guard lk user w) (\<lambda>account.
       bind_res (ok_or mapping google_refusal) (\<lambda>m.
       bind_res (require (clean_mapping user calendar m w) google_refusal) (\<lambda>_.
       let current = (m_base_fingerprint m = Some (snapshot_event_fingerprint pf cd event))
       in bind_res (require (current \<or> m_base_fingerprint m = Some (legacy_snapshot_event_fingerprint pf cd event))
            google_refusal) (\<lambda>_.
          Inr (calendar, Some m, Some account, \<not> current)))))
     else bind_res (require (mapping = None) google_refusal) (\<lambda>_. Inr (calendar, None, None, False)))))"

definition locked_project :: "delete_locks \<Rightarrow> uuid \<Rightarrow> world \<Rightarrow> uuid option \<Rightarrow> project_row list app_result" where
  "locked_project lk user w i =
     (case i of
        None \<Rightarrow> Inr []
      | Some i \<Rightarrow> bind_res (lock_row lk ''projects'' pr_id (project_by_id user i w)) (\<lambda>p.
                  bind_res (ok_or p delete_changed) (\<lambda>p. Inr [p])))"

definition locked_task :: "delete_locks \<Rightarrow> uuid \<Rightarrow> world \<Rightarrow> uuid option \<Rightarrow> task_row list app_result" where
  "locked_task lk user w i =
     (case i of
        None \<Rightarrow> Inr []
      | Some i \<Rightarrow> bind_res (lock_row lk ''tasks'' t_id (task_by_id user i w)) (\<lambda>t.
                  bind_res (ok_or t delete_changed) (\<lambda>t. Inr [t])))"

definition event_of_task :: "uuid \<Rightarrow> uuid \<Rightarrow> world \<Rightarrow> event_row option" where
  "event_of_task user task w = row_by (\<lambda>e. e_user_id e = user \<and> e_linked_task_id e = Some task) (events w)"

definition notes_of :: "uuid \<Rightarrow> uuid \<Rightarrow> uuid option \<Rightarrow> world \<Rightarrow> note_row list" where
  "notes_of user task event w =
     sort_key n_id (filter (\<lambda>n. n_user_id n = user
       \<and> (n_task_id n = Some task \<or> (event \<noteq> None \<and> n_event_id n = event))) (note_rows w))"

definition files_of :: "uuid \<Rightarrow> uuid \<Rightarrow> uuid option \<Rightarrow> uuid list \<Rightarrow> world \<Rightarrow> file_row list" where
  "files_of user task event note_ids w =
     sort_key f_id (filter (\<lambda>f. f_user_id f = user
       \<and> (f_task_id f = Some task \<or> (event \<noteq> None \<and> f_event_id f = event)
          \<or> (\<exists>i \<in> set note_ids. f_note_id f = Some i))) (files w))"

definition focus_of_task :: "uuid \<Rightarrow> uuid \<Rightarrow> world \<Rightarrow> focus_row list" where
  "focus_of_task user task w =
     sort_key fo_focus_date (filter (\<lambda>f. fo_user_id f = user \<and> fo_task_id f = task) (focus_tasks w))"

definition successors_of :: "uuid \<Rightarrow> uuid \<Rightarrow> world \<Rightarrow> task_row list" where
  "successors_of user task w =
     sort_key t_id (filter (\<lambda>t. t_user_id t = user \<and> t_recurrence_source_id t = Some task) (tasks w))"

text \<open>The rows of the snapshot that have to do with the task itself.\<close>

definition snapshot_rows :: "delete_locks \<Rightarrow> uuid \<Rightarrow> task_row \<Rightarrow> world \<Rightarrow> snapshot app_result" where
  "snapshot_rows lk user task w =
     bind_res (lock_row lk ''calendar_events'' e_id (event_of_task user (t_id task) w)) (\<lambda>event.
     bind_res (lock_rows lk ''notes'' n_id (take 65 (notes_of user (t_id task) (map_option e_id event) w))) (\<lambda>notes.
     bind_res (cap notes 64) (\<lambda>_.
     bind_res (lock_rows lk ''files'' f_id
       (take 129 (files_of user (t_id task) (map_option e_id event) (map n_id notes) w))) (\<lambda>files.
     bind_res (cap files 128) (\<lambda>_.
     bind_res (lock_rows lk ''daily_focus_tasks'' fo_task_id (take 33 (focus_of_task user (t_id task) w))) (\<lambda>focus.
     bind_res (cap focus 32) (\<lambda>_.
     bind_res (lock_rows lk ''tasks'' t_id (take 2 (successors_of user (t_id task) w))) (\<lambda>successors.
     bind_res (cap successors 1) (\<lambda>_.
     bind_res (locked_project lk user w (t_project_id task)) (\<lambda>p.
     bind_res (locked_project lk user w (t_recurrence_project_id task)) (\<lambda>q.
     bind_res (locked_task lk user w (t_parent_task_id task)) (\<lambda>parent.
     bind_res (locked_task lk user w (t_recurrence_source_id task)) (\<lambda>source.
     Inr \<lparr>sn_task = task, sn_event = event, sn_notes = notes, sn_files = files, sn_focus = focus,
          sn_successors = successors, sn_projects = p @ q, sn_task_dependencies = parent @ source, sn_calendar = None,
          sn_mapping = None, sn_google_account = None, sn_revisions = []\<rparr>)))))))))))))"

definition snapshot_scopes :: "snapshot \<Rightarrow> string list" where
  "snapshot_scopes sn =
     (if sn_focus sn = [] then [] else ''review-selection'' # map (\<lambda>f. focus_scope (fo_focus_date f)) (sn_focus sn))
     @ (if sn_event sn = None then [] else [''calendars''])"

definition take_snapshot ::
  "platform \<Rightarrow> codec \<Rightarrow> delete_locks \<Rightarrow> uuid \<Rightarrow> task_row \<Rightarrow> world \<Rightarrow> (snapshot \<times> bool) store_result" where
  "take_snapshot pf cd lk user task w =
     bind_res (snapshot_rows lk user task w) (\<lambda>sn.
     bind_res (revisions lk user (snapshot_scopes sn) w) (\<lambda>(revs, w).
     case sn_event sn of
       None \<Rightarrow> Inr ((sn\<lparr>sn_revisions := revs\<rparr>, False), w)
     | Some event \<Rightarrow>
         bind_res (snapshot_event pf cd lk user event w) (\<lambda>(calendar, mapping, account, legacy).
         Inr ((sn\<lparr>sn_revisions := revs, sn_calendar := Some (calendar_guard calendar), sn_mapping := mapping,
                 sn_google_account := account\<rparr>, legacy), w))))"

definition live_receipts :: "uuid \<Rightarrow> timestamp \<Rightarrow> world \<Rightarrow> delete_undo_row list" where
  "live_receipts user clock w = filter (\<lambda>u. du_user_id u = user \<and> clock < du_expires_at u) (delete_undos w)"

definition set_tombstone :: "timestamp \<Rightarrow> mapping_row \<Rightarrow> mapping_row" where
  "set_tombstone t m =
     m\<lparr>m_canonical_event_id := None, m_local_deleted := True, m_local_dirty := False, m_reversible_tombstone := True,
       m_deletion_hold_until := Some t\<rparr>"

definition hold_mapping :: "uuid \<Rightarrow> uuid \<Rightarrow> timestamp \<Rightarrow> mapping_row \<Rightarrow> world \<Rightarrow> world store_result" where
  "hold_mapping user receipt expires m w =
     (let w = update_mapping (m_id m) (set_tombstone expires) w;
          (i, w) = new_uuid w;
          key = ''task-delete-expiry:'' @ show_uuid receipt
      in bind_res (require (\<not> (\<exists>j \<in> set (sync_jobs w). j_user_id j = user \<and> j_idempotency_key j = key)) (db_error ''23505'')) (\<lambda>_.
         let w = w\<lparr>sync_jobs := sync_jobs w @
               [(new_job user (Some (m_calendar_id m)) ''calendar_sync'' key i (now w))\<lparr>j_available_at := expires\<rparr>]\<rparr>
         in Inr (w, w)))"

text \<open>The receipt is stored, the Google event held back, the task deleted with its cascades, the guards re-read.\<close>

definition delete_with_receipt ::
  "delete_locks \<Rightarrow> (nat \<Rightarrow> timestamp) \<Rightarrow> (snapshot \<Rightarrow> int) \<Rightarrow> uuid \<Rightarrow> snapshot \<Rightarrow> world \<Rightarrow> task_delete_undo store_result" where
  "delete_with_receipt lk clock size_of user sn w =
     (let (i, w) = new_uuid w;
          expires = clock 1 + 60 * second;
          task = sn_task sn;
          receipt = \<lparr>td_id = i, td_task_id = t_id task, td_task_title = t_title task, td_expires_at = expires\<rparr>;
          undo = \<lparr>du_id = i, du_user_id = user, du_task_id = t_id task, du_task_title = t_title task, du_snapshot = sn,
                  du_expires_at = expires\<rparr>
      in bind_res (require (\<not> (\<exists>u \<in> set (delete_undos w). du_id u = i)) (db_error ''23505'')) (\<lambda>_.
         let w = w\<lparr>delete_undos := delete_undos w @ [undo]\<rparr>
         in bind_res (case sn_mapping sn of None \<Rightarrow> Inr (w, w) | Some m \<Rightarrow> hold_mapping user i expires m w) (\<lambda>(w, _).
            let w = delete_tasks (\<lambda>t. t_id t = t_id task \<and> t_user_id t = user) w
            in bind_res (revisions lk user (map fst (sn_revisions sn)) w) (\<lambda>(revs, w).
               bind_res (require (size_of (sn\<lparr>sn_revisions := revs\<rparr>) \<le> SNAPSHOT_BYTES) (db_error ''23514'')) (\<lambda>_.
               Inr (receipt, w\<lparr>delete_undos := update_where (\<lambda>u. du_id u = i)
                 (\<lambda>u. u\<lparr>du_snapshot := sn\<lparr>sn_revisions := revs\<rparr>\<rparr>) (delete_undos w)\<rparr>))))))"

definition repair_fingerprint :: "platform \<Rightarrow> codec \<Rightarrow> snapshot \<Rightarrow> world \<Rightarrow> snapshot store_result" where
  "repair_fingerprint pf cd sn w =
     bind_res (ok_or (sn_event sn) delete_changed) (\<lambda>event.
     bind_res (ok_or (sn_mapping sn) delete_changed) (\<lambda>m.
     let fp = Some (snapshot_event_fingerprint pf cd event)
     in Inr (sn\<lparr>sn_mapping := Some (m\<lparr>m_base_fingerprint := fp\<rparr>)\<rparr>,
             update_mapping (m_id m) (\<lambda>m. m\<lparr>m_base_fingerprint := fp\<rparr>) w)))"

definition delete_task_with_undo_inner ::
  "platform \<Rightarrow> codec \<Rightarrow> delete_locks \<Rightarrow> (nat \<Rightarrow> timestamp) \<Rightarrow> (snapshot \<Rightarrow> int) \<Rightarrow> uuid \<Rightarrow> uuid \<Rightarrow> int \<Rightarrow> snapshot option
   \<Rightarrow> world \<Rightarrow> delete_preparation store_result" where
  "delete_task_with_undo_inner pf cd lk clock size_of user task_id expected validated w =
     bind_res (require (1 \<le> expected) (Validation ''expected_version must be greater than zero'')) (\<lambda>_.
     bind_res (lock_delete lk user w) (\<lambda>_.
     bind_res (lock_row lk ''tasks'' t_id (task_by_id user task_id w)) (\<lambda>task.
     bind_res (ok_or task (NotFound ''task'')) (\<lambda>task.
     bind_res (require (t_version task = expected) delete_changed) (\<lambda>_.
     bind_res (require (\<not> (\<exists>t \<in> set (tasks w). t_user_id t = user \<and> t_parent_task_id t = Some task_id))
       (Conflict ''task cannot be deleted while it has subtasks'')) (\<lambda>_.
     let live = live_receipts user (clock 0) w
     in bind_res (require (length live < 100) over_capacity) (\<lambda>_.
        bind_res (take_snapshot pf cd lk user task w) (\<lambda>((sn, legacy), w1).
        let size = size_of sn
        in bind_res (require (size + 512 \<le> SNAPSHOT_BYTES
             \<and> sum_list (map (\<lambda>u. size_of (du_snapshot u)) live) + size + 512 \<le> OWNER_BYTES) over_capacity) (\<lambda>_.
           case validated of
             Some v \<Rightarrow>
               bind_res (require (sn = v \<and> legacy) delete_changed) (\<lambda>_.
               bind_res (repair_fingerprint pf cd sn w1) (\<lambda>(sn, w1).
               bind_res (delete_with_receipt lk clock size_of user sn w1) (\<lambda>(receipt, w1). Inr (Deleted receipt, w1))))
           | None \<Rightarrow>
               if legacy then Inr (Legacy sn, w)
               else bind_res (delete_with_receipt lk clock size_of user sn w1) (\<lambda>(receipt, w1).
                    Inr (Deleted receipt, w1)))))))))))"

text \<open>A call of the synchronization service, which may refresh a token on the way.\<close>

type_synonym 'p validation = "uuid \<Rightarrow> mapping_row \<Rightarrow> world \<times> 'p \<Rightarrow> unit app_result \<times> world \<times> 'p"

definition validated_by :: "'p validation option \<Rightarrow> uuid \<Rightarrow> mapping_row \<Rightarrow> world \<times> 'p \<Rightarrow> unit app_result \<times> world \<times> 'p" where
  "validated_by service user m s =
     (case service of None \<Rightarrow> (Inl (NotConfigured ''Google Calendar validation''), s) | Some v \<Rightarrow> v user m s)"

definition delete_task_with_undo_validated ::
  "platform \<Rightarrow> codec \<Rightarrow> delete_locks \<Rightarrow> (nat \<Rightarrow> timestamp) \<Rightarrow> delete_locks \<Rightarrow> (nat \<Rightarrow> timestamp) \<Rightarrow> (snapshot \<Rightarrow> int)
   \<Rightarrow> 'p validation option \<Rightarrow> uuid \<Rightarrow> uuid \<Rightarrow> int \<Rightarrow> world \<times> 'p \<Rightarrow> task_delete_undo app_result \<times> world \<times> 'p" where
  "delete_task_with_undo_validated pf cd lk clock lk' clock' size_of service user task expected s =
     (case map_err retry_error (delete_task_with_undo_inner pf cd lk clock size_of user task expected None (fst s)) of
        Inl e \<Rightarrow> (Inl e, s)
      | Inr (Deleted receipt, w) \<Rightarrow> (Inr receipt, w, snd s)
      | Inr (Legacy sn, _) \<Rightarrow>
          (case (sn_mapping sn, sn_event sn) of
             (Some m, Some event) \<Rightarrow>
               (case validated_by service user (m\<lparr>m_base_fingerprint := Some (snapshot_event_fingerprint pf cd event)\<rparr>) s of
                  (Inl e, s) \<Rightarrow> (Inl e, s)
                | (Inr _, s) \<Rightarrow>
                    (case map_err retry_error
                       (delete_task_with_undo_inner pf cd lk' clock' size_of user task expected (Some sn) (fst s)) of
                       Inl e \<Rightarrow> (Inl e, s)
                     | Inr (Deleted receipt, w) \<Rightarrow> (Inr receipt, w, snd s)
                     | Inr (Legacy _, _) \<Rightarrow> (Inl delete_changed, s)))
           | _ \<Rightarrow> (Inl delete_changed, s)))"

definition delete_task_with_undo ::
  "platform \<Rightarrow> codec \<Rightarrow> delete_locks \<Rightarrow> (nat \<Rightarrow> timestamp) \<Rightarrow> (snapshot \<Rightarrow> int) \<Rightarrow> uuid \<Rightarrow> uuid \<Rightarrow> int \<Rightarrow> world
   \<Rightarrow> task_delete_undo app_result \<times> world" where
  "delete_task_with_undo pf cd lk clock size_of user task expected w =
     (let (r, w, _) = delete_task_with_undo_validated pf cd lk clock lk clock size_of None user task expected (w, ())
      in (r, w))"

definition list_task_delete_undos :: "timestamp \<Rightarrow> uuid \<Rightarrow> world \<Rightarrow> task_delete_undo list" where
  "list_task_delete_undos clock user w =
     map (\<lambda>u. \<lparr>td_id = du_id u, td_task_id = du_task_id u, td_task_title = du_task_title u, td_expires_at = du_expires_at u\<rparr>)
       (take 100 (rev (sort_key (\<lambda>u. (du_expires_at u, du_id u)) (live_receipts user clock w))))"

section \<open>Undoing\<close>

definition guard :: "delete_locks \<Rightarrow> string \<Rightarrow> ('r \<Rightarrow> uuid) \<Rightarrow> 'r option \<Rightarrow> 'r \<Rightarrow> unit app_result" where
  "guard lk table key current expected =
     bind_res (lock_row lk table key current) (\<lambda>r. require (r = Some expected) delete_changed)"

fun check_revisions :: "delete_locks \<Rightarrow> uuid \<Rightarrow> (string \<times> int) list \<Rightarrow> world \<Rightarrow> world app_result" where
  "check_revisions lk user [] w = Inr w"
| "check_revisions lk user ((scope, expected) # rs) w =
     bind_res (revision lk user scope w) (\<lambda>(v, w).
     bind_res (require (v = expected) delete_changed) (\<lambda>_. check_revisions lk user rs w))"

fun check_all :: "('r \<Rightarrow> unit app_result) \<Rightarrow> 'r list \<Rightarrow> unit app_result" where
  "check_all f [] = Inr ()"
| "check_all f (r # rs) = bind_res (f r) (\<lambda>_. check_all f rs)"

definition file_by_id :: "uuid \<Rightarrow> uuid \<Rightarrow> world \<Rightarrow> file_row option" where
  "file_by_id user i w = row_by (\<lambda>f. f_user_id f = user \<and> f_id f = i) (files w)"

definition check_calendar :: "delete_locks \<Rightarrow> uuid \<Rightarrow> world \<Rightarrow> calendar_row \<Rightarrow> unit app_result" where
  "check_calendar lk user w c =
     bind_res (lock_row lk ''calendars'' c_id (calendar_by_id user (c_id c) w)) (\<lambda>r.
     require (map_option calendar_guard r = Some c) delete_changed)"

definition check_held :: "delete_locks \<Rightarrow> uuid \<Rightarrow> timestamp \<Rightarrow> world \<Rightarrow> mapping_row \<Rightarrow> unit app_result" where
  "check_held lk user expiry w m =
     bind_res (lock_row lk ''external_event_mappings'' m_id
       (row_by (\<lambda>x. m_id x = m_id m \<and> m_user_id x = user \<and> m_deletion_hold_until x = Some expiry) (mappings w))) (\<lambda>r.
     bind_res (require (map_option (\<lambda>x. x\<lparr>m_deletion_hold_until := None\<rparr>) r =
         Some (m\<lparr>m_canonical_event_id := None, m_local_deleted := True, m_reversible_tombstone := True,
                 m_deletion_hold_until := None\<rparr>)) delete_changed) (\<lambda>_.
     require (\<not> disputed (m_id m) w) delete_changed))"

definition for_option :: "('a \<Rightarrow> unit app_result) \<Rightarrow> 'a option \<Rightarrow> unit app_result" where
  "for_option f x = (case x of None \<Rightarrow> Inr () | Some a \<Rightarrow> f a)"

definition check_dependencies :: "delete_locks \<Rightarrow> uuid \<Rightarrow> timestamp \<Rightarrow> snapshot \<Rightarrow> world \<Rightarrow> unit app_result" where
  "check_dependencies lk user expiry sn w =
     bind_res (check_all (\<lambda>p. guard lk ''projects'' pr_id (project_by_id user (pr_id p) w) p) (sn_projects sn)) (\<lambda>_.
     bind_res (check_all (\<lambda>t. guard lk ''tasks'' t_id (task_by_id user (t_id t) w) t) (sn_task_dependencies sn)) (\<lambda>_.
     bind_res (for_option (check_calendar lk user w) (sn_calendar sn)) (\<lambda>_.
     bind_res (for_option (\<lambda>a. bind_res (google_account_guard lk user w) (\<lambda>b. require (b = a) delete_changed))
       (sn_google_account sn)) (\<lambda>_.
     bind_res (check_all (\<lambda>f. guard lk ''files'' f_id (file_by_id user (f_id f) w)
       (f\<lparr>f_task_id := None, f_event_id := None, f_note_id := None\<rparr>)) (sn_files sn)) (\<lambda>_.
     bind_res (check_all (\<lambda>t. guard lk ''tasks'' t_id (task_by_id user (t_id t) w) (t\<lparr>t_recurrence_source_id := None\<rparr>))
       (sn_successors sn)) (\<lambda>_.
     for_option (check_held lk user expiry w) (sn_mapping sn)))))))"

definition insert_versioned_task :: "timestamp \<Rightarrow> task_row \<Rightarrow> world \<Rightarrow> world app_result" where
  "insert_versioned_task t r w =
     bind_res (require (\<not> (\<exists>x \<in> set (tasks w). t_id x = t_id r
         \<or> t_recurrence_source_id r \<noteq> None \<and> t_recurrence_source_id x = t_recurrence_source_id r)) (db_error ''23505'')) (\<lambda>_.
     Inr (insert_task (r\<lparr>t_version := t_version r + 1, t_updated_at := t\<rparr>) w))"

definition insert_versioned_event :: "timestamp \<Rightarrow> event_row \<Rightarrow> world \<Rightarrow> world app_result" where
  "insert_versioned_event t r w =
     bind_res (require (\<not> (\<exists>x \<in> set (events w). e_id x = e_id r
         \<or> e_linked_task_id r \<noteq> None \<and> e_linked_task_id x = e_linked_task_id r)) (db_error ''23505'')) (\<lambda>_.
     Inr (w\<lparr>events := events w @ [r\<lparr>e_version := e_version r + 1, e_updated_at := t\<rparr>]\<rparr>))"

definition insert_versioned_note :: "timestamp \<Rightarrow> note_row \<Rightarrow> world \<Rightarrow> world app_result" where
  "insert_versioned_note t r w =
     bind_res (require (\<not> (\<exists>x \<in> set (note_rows w). n_id x = n_id r)) (db_error ''23505'')) (\<lambda>_.
     Inr (w\<lparr>note_rows := note_rows w @ [r\<lparr>n_version := n_version r + 1, n_updated_at := t\<rparr>]\<rparr>))"

definition relink_file :: "uuid \<Rightarrow> file_row \<Rightarrow> world \<Rightarrow> world" where
  "relink_file user f w =
     w\<lparr>files := update_where (\<lambda>x. f_user_id x = user \<and> f_id x = f_id f)
         (\<lambda>x. x\<lparr>f_task_id := f_task_id f, f_event_id := f_event_id f, f_note_id := f_note_id f\<rparr>) (files w)\<rparr>"

definition relink_successor :: "uuid \<Rightarrow> uuid \<Rightarrow> timestamp \<Rightarrow> task_row \<Rightarrow> world \<Rightarrow> world" where
  "relink_successor user task t s w =
     update_tasks (\<lambda>x. t_user_id x = user \<and> t_id x = t_id s)
       (\<lambda>x. x\<lparr>t_recurrence_source_id := Some task, t_version := t_version x + 1, t_updated_at := t\<rparr>) w"

definition restore_focus :: "focus_row \<Rightarrow> world \<Rightarrow> world app_result" where
  "restore_focus f w =
     bind_res (require (\<not> (\<exists>x \<in> set (focus_tasks w). fo_user_id x = fo_user_id f \<and> fo_focus_date x = fo_focus_date f
         \<and> (fo_task_id x = fo_task_id f \<or> fo_position x = fo_position f))) (db_error ''23505'')) (\<lambda>_.
     Inr (insert_focus f w))"

definition release_mapping :: "uuid \<Rightarrow> mapping_row \<Rightarrow> mapping_row" where
  "release_mapping event m =
     m\<lparr>m_canonical_event_id := Some event, m_local_deleted := False, m_local_dirty := False,
       m_reversible_tombstone := False, m_deletion_hold_until := None\<rparr>"

definition restore_rows :: "uuid \<Rightarrow> timestamp \<Rightarrow> snapshot \<Rightarrow> world \<Rightarrow> world app_result" where
  "restore_rows user t sn w =
     bind_res (insert_versioned_task t (sn_task sn) w) (\<lambda>w.
     bind_res (case sn_event sn of None \<Rightarrow> Inr w | Some e \<Rightarrow> insert_versioned_event t e w) (\<lambda>w.
     bind_res (fold_res (insert_versioned_note t) (sn_notes sn) w) (\<lambda>w.
     let w = fold (relink_file user) (sn_files sn) w;
         w = fold (relink_successor user (t_id (sn_task sn)) t) (sn_successors sn) w
     in bind_res (fold_res restore_focus (sn_focus sn) w) (\<lambda>w.
        case sn_mapping sn of
          None \<Rightarrow> Inr w
        | Some m \<Rightarrow> bind_res (ok_or (sn_event sn) delete_changed) (\<lambda>e.
                    Inr (update_mapping (m_id m) (release_mapping (e_id e)) w))))))"

definition undo_transaction ::
  "delete_locks \<Rightarrow> (nat \<Rightarrow> timestamp) \<Rightarrow> uuid \<Rightarrow> uuid \<Rightarrow> snapshot \<Rightarrow> timestamp \<Rightarrow> world \<Rightarrow> unit store_result" where
  "undo_transaction lk clock user receipt sn expiry w =
     bind_res (lock_delete lk user w) (\<lambda>_.
     bind_res (lock_row lk ''task_delete_undos'' du_id (row_by (\<lambda>u. du_id u = receipt \<and> du_user_id u = user
         \<and> clock 1 < du_expires_at u) (delete_undos w))) (\<lambda>current.
     bind_res (require (map_option du_snapshot current = Some sn) delete_changed) (\<lambda>_.
     bind_res (check_revisions lk user (sn_revisions sn) w) (\<lambda>w.
     bind_res (check_dependencies lk user expiry sn w) (\<lambda>_.
     bind_res (restore_rows user (clock 2) sn w) (\<lambda>w.
     let hit = (\<lambda>u. du_id u = receipt \<and> du_user_id u = user \<and> clock 3 < du_expires_at u)
     in bind_res (require (length (filter hit (delete_undos w)) = 1) delete_changed) (\<lambda>_.
        Inr ((), w\<lparr>delete_undos := delete_where hit (delete_undos w)\<rparr>))))))))"

definition undo_task_delete ::
  "delete_locks \<Rightarrow> (nat \<Rightarrow> timestamp) \<Rightarrow> 'p validation option \<Rightarrow> uuid \<Rightarrow> uuid \<Rightarrow> world \<times> 'p
   \<Rightarrow> unit app_result \<times> world \<times> 'p" where
  "undo_task_delete lk clock service user receipt s =
     (case row_by (\<lambda>u. du_id u = receipt \<and> du_user_id u = user) (delete_undos (fst s)) of
        None \<Rightarrow> (Inl (NotFound ''task deletion Undo''), s)
      | Some u \<Rightarrow>
          if \<not> clock 0 < du_expires_at u then (Inl delete_changed, s)
          else (case (case sn_mapping (du_snapshot u) of
                        None \<Rightarrow> (Inr (), s)
                      | Some m \<Rightarrow> validated_by service user m s) of
                  (Inl e, s) \<Rightarrow> (Inl (retry_error e), s)
                | (Inr _, s) \<Rightarrow>
                    (case map_err retry_error
                       (undo_transaction lk clock user receipt (du_snapshot u) (du_expires_at u) (fst s)) of
                       Inl e \<Rightarrow> (Inl e, s)
                     | Inr (_, w) \<Rightarrow> (Inr (), w, snd s))))"

end
