(* ===== verification/TaskRestore.thy ===== *)
theory TaskRestore
  imports TaskDelete TaskExamples "HOL-Library.Multiset"
begin

text \<open>
  Deleting a task and taking the deletion back. \<open>restorable\<close> collects what the schema and the operations that write
  the rows around a task keep (keys, UNIQUE and CHECK constraints, owners of linked rows); \<open>snapshot_of\<close> says what a
  snapshot holds. The property is that an undo within the 60 seconds, with nothing else in between, is accepted and
  brings back every row. It is not so for every task: \<open>apart\<close> excludes the tasks whose own next occurrence became
  their parent or source, which nothing in the schema or the code prevents and whose undo is refused.
\<close>

section \<open>What the schema and the code keep\<close>

definition unique_nullable :: "('r \<Rightarrow> 'a option) \<Rightarrow> 'r list \<Rightarrow> bool" where
  "unique_nullable k rs \<longleftrightarrow> distinct (map k (filter (\<lambda>r. k r \<noteq> None) rs))"

definition keys_ok :: "world \<Rightarrow> bool" where
  "keys_ok w \<longleftrightarrow>
     distinct (map t_id (tasks w)) \<and> distinct (map e_id (events w)) \<and> distinct (map n_id (note_rows w))
     \<and> distinct (map f_id (files w)) \<and> distinct (map m_id (mappings w))
     \<and> distinct (map (\<lambda>f. (fo_user_id f, fo_focus_date f, fo_task_id f)) (focus_tasks w))
     \<and> distinct (map (\<lambda>f. (fo_user_id f, fo_focus_date f, fo_position f)) (focus_tasks w))
     \<and> unique_nullable t_recurrence_source_id (tasks w) \<and> unique_nullable e_linked_task_id (events w)
     \<and> unique_nullable m_canonical_event_id (mappings w)"

definition files_ok :: "world \<Rightarrow> bool" where
  "files_ok w \<longleftrightarrow>
     list_all (\<lambda>f.
       length (filter (\<lambda>l. l \<noteq> None) [f_project_id f, f_task_id f, f_note_id f, f_event_id f]) \<le> 1
       \<and> list_all (\<lambda>t. f_task_id f = Some (t_id t) \<longrightarrow> t_user_id t = f_user_id f) (tasks w)
       \<and> list_all (\<lambda>e. f_event_id f = Some (e_id e) \<longrightarrow> e_user_id e = f_user_id f) (events w)
       \<and> list_all (\<lambda>n. f_note_id f = Some (n_id n) \<longrightarrow> n_user_id n = f_user_id f) (note_rows w)) (files w)"

text \<open>
  The task and its next occurrence belong to the user (the next occurrence is inserted for the owner of the completed
  task), and the task is neither its own parent (a CHECK) nor its own source (an occurrence has a new identifier).
\<close>

definition lineage_ok :: "uuid \<Rightarrow> uuid \<Rightarrow> world \<Rightarrow> bool" where
  "lineage_ok user i w \<longleftrightarrow>
     list_all (\<lambda>s. (t_id s = i \<or> t_recurrence_source_id s = Some i \<longrightarrow> t_user_id s = user)
       \<and> (t_id s = i \<longrightarrow> t_parent_task_id s \<noteq> Some i \<and> t_recurrence_source_id s \<noteq> Some i)) (tasks w)"

text \<open>
  A restriction of the property, not a guarantee of the program: the task's next occurrence is neither its parent nor
  its source. Moving a finished task under its next occurrence, once neither recurs, violates it.
\<close>

definition apart :: "uuid \<Rightarrow> world \<Rightarrow> bool" where
  "apart i w \<longleftrightarrow>
     list_all (\<lambda>s. t_recurrence_source_id s = Some i \<longrightarrow>
       list_all (\<lambda>t. t_id t = i \<longrightarrow> t_parent_task_id t \<noteq> Some (t_id s) \<and> t_recurrence_source_id t \<noteq> Some (t_id s))
         (tasks w)) (tasks w)"

text \<open>The foreign keys of events and notes hold the owner of the task beside its identifier.\<close>

definition owners_ok :: "uuid \<Rightarrow> uuid \<Rightarrow> world \<Rightarrow> bool" where
  "owners_ok user i w \<longleftrightarrow>
     list_all (\<lambda>e. e_linked_task_id e = Some i \<longrightarrow> e_user_id e = user) (events w)
     \<and> list_all (\<lambda>n. (n_task_id n = Some i \<longrightarrow> n_user_id n = user)
          \<and> list_all (\<lambda>e. n_event_id n = Some (e_id e) \<longrightarrow> n_user_id n = e_user_id e) (events w)) (note_rows w)"

definition restorable :: "uuid \<Rightarrow> uuid \<Rightarrow> world \<Rightarrow> bool" where
  "restorable user i w \<longleftrightarrow> keys_ok w \<and> files_ok w \<and> lineage_ok user i w \<and> owners_ok user i w"

lemma unique_nullableD:
  "unique_nullable k rs \<Longrightarrow> r \<in> set rs \<Longrightarrow> r' \<in> set rs \<Longrightarrow> k r = Some a \<Longrightarrow> k r' = Some a \<Longrightarrow> r = r'"
  unfolding unique_nullable_def by (rule distinct_map_inj [of k "filter (\<lambda>r. k r \<noteq> None) rs"]) auto

lemma restorable_update:
  assumes "restorable user i w" and "map m_id ms = map m_id (mappings w)"
    and "map m_canonical_event_id ms = map m_canonical_event_id (mappings w)"
  shows "restorable user i (w\<lparr>guard_revisions := g, mappings := ms\<rparr>)"
proof -
  have "unique_nullable m_canonical_event_id ms = unique_nullable m_canonical_event_id (mappings w)"
    unfolding unique_nullable_def
    using arg_cong [OF assms(3), of "filter (\<lambda>x. x \<noteq> None)"] by (simp add: filter_map comp_def)
  with assms show ?thesis by (simp add: restorable_def keys_ok_def files_ok_def lineage_ok_def owners_ok_def)
qed

section \<open>Guards and revisions\<close>

lemma lock_row_eq: "lock_row lk t k r = Inr x \<Longrightarrow> r = x"
  by (auto simp: lock_row_def split: option.splits)

lemma lock_rows_eq: "lock_rows lk t k rs = Inr xs \<Longrightarrow> rs = xs"
  by (auto simp: lock_rows_def)

lemma free_locks [simp]:
  assumes "\<And>k. dl_free lk k"
  shows "take_lock lk k = Inr ()" "lock_row lk t key r = Inr r"
  using assms by (auto simp: take_lock_def lock_row_def split: option.splits)

lemma ensure_revision_frame:
  "ensure_revision u s w = w\<lparr>guard_revisions := guard_revisions (ensure_revision u s w)\<rparr>"
  by (simp add: ensure_revision_def)

definition has_revision :: "uuid \<Rightarrow> string \<Rightarrow> world \<Rightarrow> bool" where
  "has_revision u s w \<longleftrightarrow> (\<exists>g \<in> set (guard_revisions w). gr_user_id g = u \<and> gr_scope g = s)"

lemma ensure_revision_id: "has_revision u s w \<Longrightarrow> ensure_revision u s w = w"
  by (simp add: ensure_revision_def has_revision_def)

lemma ensure_revision_has: "has_revision u s (ensure_revision u s w)"
  by (auto simp: ensure_revision_def has_revision_def)

lemma ensure_revision_mono: "has_revision u s w \<Longrightarrow> has_revision u s (ensure_revision u' s' w)"
  by (auto simp: ensure_revision_def has_revision_def)

lemma ensure_revision_keeps:
  "has_revision u s w \<Longrightarrow> revision_of u s (ensure_revision u' s' w) = revision_of u s w"
  by (auto simp: ensure_revision_def has_revision_def revision_of_def row_by_append row_by_None
      split: option.split)

lemma revisions_result:
  assumes "revisions lk u scopes w = Inr (vs, w')"
  shows "w' = w\<lparr>guard_revisions := guard_revisions w'\<rparr>"
    and "\<And>s. has_revision u s w \<Longrightarrow> has_revision u s w' \<and> revision_of u s w' = revision_of u s w"
    and "list_all (\<lambda>(s, v). has_revision u s w' \<and> revision_of u s w' = v) vs"
    and "map fst vs = scopes"
  using assms
proof (induction scopes arbitrary: w vs)
  case Nil
  {
    case 1 then show ?case by simp
  next
    case 2 then show ?case by simp
  next
    case 3 then show ?case by simp
  next
    case 4 then show ?case by simp
  }
next
  case (Cons s scopes)
  {
    case 1
    then show ?case using Cons.IH(1) ensure_revision_frame [of u s w]
      by (auto simp: revision_def Let_def) (metis world.surjective world.update_convs(26))
  next
    case 2
    then show ?case using Cons.IH(2) ensure_revision_mono ensure_revision_keeps
      by (auto simp: revision_def Let_def) metis+
  next
    case 3
    then show ?case using Cons.IH(2,3) ensure_revision_has [of u s w]
      by (auto simp: revision_def Let_def)
  next
    case 4
    then show ?case using Cons.IH(4) by (auto simp: revision_def Let_def)
  }
qed

lemma check_revisions_pass:
  assumes "\<And>k. dl_free lk k" and "list_all (\<lambda>(s, v). has_revision u s w \<and> revision_of u s w = v) vs"
  shows "check_revisions lk u vs w = Inr w"
  using assms(2)
proof (induction vs)
  case (Cons p vs)
  then show ?case by (cases p) (simp add: revision_def assms(1) ensure_revision_id Let_def)
qed simp

lemma check_all_pass: "list_all (\<lambda>r. f r = Inr ()) rs \<Longrightarrow> check_all f rs = Inr ()"
  by (induction rs) simp_all

section \<open>What a snapshot holds\<close>

definition clean :: "uuid \<Rightarrow> mapping_row \<Rightarrow> world \<Rightarrow> bool" where
  "clean user m w \<longleftrightarrow> m_user_id m = user \<and> \<not> m_local_dirty m \<and> \<not> m_local_deleted m \<and> \<not> m_reversible_tombstone m
     \<and> m_deletion_hold_until m = None \<and> \<not> disputed (m_id m) w"

definition event_mapping :: "event_row option \<Rightarrow> world \<Rightarrow> mapping_row option" where
  "event_mapping event w = (case event of None \<Rightarrow> None
     | Some e \<Rightarrow> row_by (\<lambda>m. m_canonical_event_id m = Some (e_id e)) (mappings w))"

definition rows_of :: "uuid \<Rightarrow> snapshot \<Rightarrow> world \<Rightarrow> bool" where
  "rows_of user sn w \<longleftrightarrow>
     task_by_id user (t_id (sn_task sn)) w = Some (sn_task sn)
     \<and> sn_event sn = event_of_task user (t_id (sn_task sn)) w
     \<and> sn_notes sn = notes_of user (t_id (sn_task sn)) (map_option e_id (sn_event sn)) w
     \<and> sn_files sn = files_of user (t_id (sn_task sn)) (map_option e_id (sn_event sn)) (map n_id (sn_notes sn)) w
     \<and> sn_focus sn = focus_of_task user (t_id (sn_task sn)) w
     \<and> sn_successors sn = successors_of user (t_id (sn_task sn)) w
     \<and> list_all (\<lambda>p. project_by_id user (pr_id p) w = Some p) (sn_projects sn)
     \<and> list_all (\<lambda>d. task_by_id user (t_id d) w = Some d \<and> (t_parent_task_id (sn_task sn) = Some (t_id d)
          \<or> t_recurrence_source_id (sn_task sn) = Some (t_id d))) (sn_task_dependencies sn)"

definition calendar_of :: "uuid \<Rightarrow> snapshot \<Rightarrow> world \<Rightarrow> bool" where
  "calendar_of user sn w \<longleftrightarrow>
     (\<forall>c. sn_calendar sn = Some c \<longrightarrow> map_option calendar_guard (calendar_by_id user (c_id c) w) = Some c)
     \<and> (\<forall>a. sn_google_account sn = Some a \<longrightarrow>
          map_option (\<lambda>a. (ga_user_id a, ga_connected_at a, ga_scopes a)) (row_by (\<lambda>a. ga_user_id a = user) (google_accounts w)) = Some a)
     \<and> sn_mapping sn = event_mapping (sn_event sn) w
     \<and> (\<forall>m. sn_mapping sn = Some m \<longrightarrow> clean user m w)"

definition snapshot_of :: "uuid \<Rightarrow> snapshot \<Rightarrow> world \<Rightarrow> bool" where
  "snapshot_of user sn w \<longleftrightarrow> rows_of user sn w \<and> calendar_of user sn w"

lemma capped_rows:
  assumes "lock_rows lk t k (take (Suc n) rs) = Inr xs" and "cap xs n = Inr ()"
  shows "xs = rs"
proof -
  have "take (Suc n) rs = xs" using assms(1) by (rule lock_rows_eq)
  with assms(2) show ?thesis by (auto simp: cap_def)
qed

lemma found_by_key:
  "project_by_id u i w = Some p \<Longrightarrow> project_by_id u (pr_id p) w = Some p"
  "task_by_id u i w = Some t \<Longrightarrow> t_id t = i"
  "calendar_by_id u j w = Some c \<Longrightarrow> c_id c = j"
  by (auto simp: project_by_id_def task_by_id_def calendar_by_id_def dest: row_by_Some)

lemma locked_project_found:
  "locked_project lk user w i = Inr ps \<Longrightarrow> list_all (\<lambda>p. project_by_id user (pr_id p) w = Some p) ps"
  by (auto simp: locked_project_def split: option.splits dest!: lock_row_eq intro: found_by_key)

lemma locked_task_found:
  "locked_task lk user w i = Inr ts \<Longrightarrow> list_all (\<lambda>t. task_by_id user (t_id t) w = Some t \<and> i = Some (t_id t)) ts"
  by (auto simp: locked_task_def split: option.splits dest!: lock_row_eq simp: found_by_key(2))

text \<open>The rows of the snapshot and what its synchronization part adds.\<close>

lemmas finders = task_by_id_def project_by_id_def event_of_task_def notes_of_def files_of_def focus_of_task_def successors_of_def

lemma rows_of_revisions [simp]:
  "rows_of user sn (w\<lparr>guard_revisions := g\<rparr>) = rows_of user sn w" "rows_of user sn (w\<lparr>mappings := ms\<rparr>) = rows_of user sn w"
  "rows_of user (sn\<lparr>sn_mapping := m\<rparr>) w = rows_of user sn w"
  by (simp_all add: rows_of_def finders)

lemma snapshot_rows_hold:
  assumes res: "snapshot_rows lk user task w = Inr sn" and task: "task_by_id user i w = Some task"
  shows "rows_of user sn w" and "sn_calendar sn = None" and "sn_google_account sn = None" and "sn_mapping sn = None"
    and "sn_task sn = task"
proof -
  obtain event ns fs os ss p q parent source where
    e: "lock_row lk ''calendar_events'' e_id (event_of_task user (t_id task) w) = Inr event"
    and n: "lock_rows lk ''notes'' n_id (take (Suc 64) (notes_of user (t_id task) (map_option e_id event) w)) = Inr ns" "cap ns 64 = Inr ()"
    and f: "lock_rows lk ''files'' f_id (take (Suc 128) (files_of user (t_id task) (map_option e_id event) (map n_id ns) w)) = Inr fs"
      "cap fs 128 = Inr ()"
    and o: "lock_rows lk ''daily_focus_tasks'' fo_task_id (take (Suc 32) (focus_of_task user (t_id task) w)) = Inr os" "cap os 32 = Inr ()"
    and s: "lock_rows lk ''tasks'' t_id (take (Suc 1) (successors_of user (t_id task) w)) = Inr ss" "cap ss 1 = Inr ()"
    and p: "locked_project lk user w (t_project_id task) = Inr p" "locked_project lk user w (t_recurrence_project_id task) = Inr q"
    and d: "locked_task lk user w (t_parent_task_id task) = Inr parent" "locked_task lk user w (t_recurrence_source_id task) = Inr source"
    and sn: "sn = \<lparr>sn_task = task, sn_event = event, sn_notes = ns, sn_files = fs, sn_focus = os,
          sn_successors = ss, sn_projects = p @ q, sn_task_dependencies = parent @ source, sn_calendar = None,
          sn_mapping = None, sn_google_account = None, sn_revisions = []\<rparr>"
    using res by (auto simp: snapshot_rows_def eval_nat_numeral)
  have "t_id task = i" by (rule found_by_key(2)) fact
  then show "rows_of user sn w"
    using task lock_row_eq [OF e] capped_rows [OF n] capped_rows [OF f] capped_rows [OF o] capped_rows [OF s]
      locked_project_found [OF p(1)] locked_project_found [OF p(2)] locked_task_found [OF d(1)] locked_task_found [OF d(2)]
    by (auto simp: rows_of_def sn list_all_iff)
  show "sn_calendar sn = None" "sn_google_account sn = None" "sn_mapping sn = None" "sn_task sn = task" by (simp_all add: sn)
qed

lemma snapshot_event_holds:
  assumes "snapshot_event pf cd lk user event w = Inr (calendar, mapping, account, legacy)"
  shows "calendar_of user (sn\<lparr>sn_event := Some event, sn_revisions := revs, sn_calendar := Some (calendar_guard calendar), sn_mapping := mapping,
                 sn_google_account := account\<rparr>) w"
  using assms
  by (auto simp: snapshot_event_def calendar_of_def event_mapping_def clean_def clean_mapping_def google_account_guard_def Let_def
      calendar_guard_def found_by_key(3) split: if_splits dest!: lock_row_eq)

lemma take_snapshot_holds:
  assumes res: "take_snapshot pf cd lk user task w = Inr ((sn, legacy), w')" and task: "task_by_id user i w = Some task"
  shows "snapshot_of user sn w'" and "w' = w\<lparr>guard_revisions := guard_revisions w'\<rparr>" and "sn_task sn = task"
proof -
  obtain sn0 revs w0 where rows: "snapshot_rows lk user task w = Inr sn0" and revs0: "revisions lk user (snapshot_scopes sn0) w = Inr (revs, w0)"
    and body: "(case sn_event sn0 of
       None \<Rightarrow> Inr ((sn0\<lparr>sn_revisions := revs\<rparr>, False), w0)
     | Some event \<Rightarrow>
         bind_res (snapshot_event pf cd lk user event w0) (\<lambda>(calendar, mapping, account, legacy).
         Inr ((sn0\<lparr>sn_revisions := revs, sn_calendar := Some (calendar_guard calendar), sn_mapping := mapping,
                 sn_google_account := account\<rparr>, legacy), w0))) = Inr ((sn, legacy), w')"
    using res unfolding take_snapshot_def bind_res_eq_Inr by force
  have revs: "revisions lk user (snapshot_scopes sn0) w = Inr (revs, w')" using revs0 body by (cases "sn_event sn0") auto
  have rest: "sn = sn0\<lparr>sn_revisions := revs\<rparr> \<and> sn_event sn0 = None \<or> (\<exists>event calendar mapping account. sn_event sn0 = Some event
      \<and> snapshot_event pf cd lk user event w' = Inr (calendar, mapping, account, legacy)
      \<and> sn = sn0\<lparr>sn_revisions := revs, sn_calendar := Some (calendar_guard calendar), sn_mapping := mapping, sn_google_account := account\<rparr>)"
    using body by (cases "sn_event sn0") auto
  show frame: "w' = w\<lparr>guard_revisions := guard_revisions w'\<rparr>" by (rule revisions_result(1)) fact
  have sn0: "rows_of user sn0 w'" using snapshot_rows_hold(1) [OF rows task] by (subst frame) simp
  show "snapshot_of user sn w'"
    using rest
  proof (elim disjE exE conjE)
    assume "sn = sn0\<lparr>sn_revisions := revs\<rparr>" and "sn_event sn0 = None"
    with sn0 snapshot_rows_hold(2-4) [OF rows task] show ?thesis
      by (simp add: snapshot_of_def rows_of_def calendar_of_def event_mapping_def)
  next
    fix event calendar mapping account
    assume e: "sn_event sn0 = Some event" and sn: "sn = sn0\<lparr>sn_revisions := revs, sn_calendar := Some (calendar_guard calendar), sn_mapping := mapping, sn_google_account := account\<rparr>"
      and r: "snapshot_event pf cd lk user event w' = Inr (calendar, mapping, account, legacy)"
    have "sn0\<lparr>sn_event := Some event\<rparr> = sn0" using e by simp
    with snapshot_event_holds [OF r, where sn = sn0 and revs = revs] sn have "calendar_of user sn w'" by simp
    with sn0 sn show ?thesis by (simp add: snapshot_of_def rows_of_def)
  qed
  show "sn_task sn = task" using rest snapshot_rows_hold(5) [OF rows task] by auto
qed

text \<open>A repaired fingerprint is repaired in the row and in the snapshot.\<close>

abbreviation unfingered :: "mapping_row \<Rightarrow> mapping_row" where
  "unfingered m \<equiv> m\<lparr>m_base_fingerprint := None\<rparr>"

lemma row_by_update_where:
  assumes "\<And>r. p (f r) = p r"
  shows "row_by p (update_where q f rs) = map_option (\<lambda>r. if q r then f r else r) (row_by p rs)"
  by (induction rs) (simp_all add: row_by_def update_where_def assms)

lemma repair_fingerprint_holds:
  assumes sn: "snapshot_of user sn w" and res: "repair_fingerprint pf cd sn w = Inr (sn', w')"
  shows "snapshot_of user sn' w'" and "sn_task sn' = sn_task sn"
    and "\<exists>ms. w' = w\<lparr>mappings := ms\<rparr> \<and> map unfingered ms = map unfingered (mappings w)"
proof -
  obtain e m where e: "sn_event sn = Some e" and m: "sn_mapping sn = Some m"
    and sn': "sn' = sn\<lparr>sn_mapping := Some (m\<lparr>m_base_fingerprint := Some (snapshot_event_fingerprint pf cd e)\<rparr>)\<rparr>"
    and w': "w' = update_mapping (m_id m) (\<lambda>m. m\<lparr>m_base_fingerprint := Some (snapshot_event_fingerprint pf cd e)\<rparr>) w"
    using res by (auto simp: repair_fingerprint_def Let_def)
  have "rows_of user sn' w'" using sn by (simp add: snapshot_of_def sn' w' update_mapping_def)
  moreover have "row_by (\<lambda>m. m_canonical_event_id m = Some (e_id e)) (mappings w) = Some m"
    using sn by (simp add: snapshot_of_def calendar_of_def e m event_mapping_def)
  then have "calendar_of user sn' w'"
    using sn unfolding snapshot_of_def calendar_of_def sn' w' update_mapping_def
    by (auto simp: e m event_mapping_def row_by_update_where clean_def disputed_def calendar_by_id_def)
  ultimately show "snapshot_of user sn' w'" by (simp add: snapshot_of_def)
  show "sn_task sn' = sn_task sn" by (simp add: sn')
  show "\<exists>ms. w' = w\<lparr>mappings := ms\<rparr> \<and> map unfingered ms = map unfingered (mappings w)"
    by (intro exI [of _ "mappings w'"]) (simp add: w' update_mapping_def)
qed

lemma delete_inner_result:
  assumes res: "delete_task_with_undo_inner pf cd lk clock size_of user i expected validated w = Inr (Deleted receipt, w1)"
  obtains sn w' g ms where "snapshot_of user sn w'" "t_id (sn_task sn) = i"
    "delete_with_receipt lk clock size_of user sn w' = Inr (receipt, w1)"
    "w' = w\<lparr>guard_revisions := g, mappings := ms\<rparr>" "map unfingered ms = map unfingered (mappings w)"
    "validated = None \<Longrightarrow> ms = mappings w" "row_by (\<lambda>u. u_id u = user) (users w) \<noteq> None"
proof -
  obtain task sn legacy w0 where task: "task_by_id user i w = Some task" and owner: "row_by (\<lambda>u. u_id u = user) (users w) \<noteq> None"
    and snap: "take_snapshot pf cd lk user task w = Inr ((sn, legacy), w0)"
    and body: "(case validated of
             Some v \<Rightarrow>
               bind_res (require (sn = v \<and> legacy) delete_changed) (\<lambda>_.
               bind_res (repair_fingerprint pf cd sn w0) (\<lambda>(sn, w1).
               bind_res (delete_with_receipt lk clock size_of user sn w1) (\<lambda>(receipt, w1). Inr (Deleted receipt, w1))))
           | None \<Rightarrow>
               if legacy then Inr (Legacy sn, w)
               else bind_res (delete_with_receipt lk clock size_of user sn w0) (\<lambda>(receipt, w1).
                    Inr (Deleted receipt, w1))) = Inr (Deleted receipt, w1)"
    using res by (auto simp: delete_task_with_undo_inner_def Let_def lock_delete_def dest!: lock_row_eq)
  note held = take_snapshot_holds [OF snap task]
  have i: "t_id (sn_task sn) = i" using held(3) found_by_key(2) [OF task] by simp
  show ?thesis
  proof (cases validated)
    case None
    then have "delete_with_receipt lk clock size_of user sn w0 = Inr (receipt, w1)" using body by (auto split: if_splits)
    moreover have "w0 = w\<lparr>guard_revisions := guard_revisions w0, mappings := mappings w\<rparr>" by (subst held(2)) simp
    ultimately show ?thesis using held(1) i owner by (intro that [of sn w0 "mappings w" "guard_revisions w0"]) (assumption | rule refl)+
  next
    case (Some v)
    then obtain sn' w' where rep: "repair_fingerprint pf cd sn w0 = Inr (sn', w')"
      and del: "delete_with_receipt lk clock size_of user sn' w' = Inr (receipt, w1)" using body by auto
    obtain ms where ms: "w' = w0\<lparr>mappings := ms\<rparr>" "map unfingered ms = map unfingered (mappings w0)"
      using repair_fingerprint_holds(3) [OF held(1) rep] by blast
    have "mappings w0 = mappings w" by (subst held(2)) simp
    with ms have "map unfingered ms = map unfingered (mappings w)" by simp
    moreover have "w' = w\<lparr>guard_revisions := guard_revisions w0, mappings := ms\<rparr>" unfolding ms(1) by (subst held(2)) simp
    ultimately show ?thesis
      using repair_fingerprint_holds(1,2) [OF held(1) rep] del i owner Some by (intro that [of sn' w' ms "guard_revisions w0"]) simp_all
  qed
qed

section \<open>The world after the deletion\<close>

definition detach :: "uuid \<Rightarrow> uuid set \<Rightarrow> uuid set \<Rightarrow> file_row \<Rightarrow> file_row" where
  "detach i es ns f = f\<lparr>f_task_id := unlink (\<lambda>j. j = i) (f_task_id f), f_event_id := unlink (\<lambda>j. j \<in> es) (f_event_id f),
     f_note_id := unlink (\<lambda>j. j \<in> ns) (f_note_id f)\<rparr>"

definition hits_event :: "uuid \<Rightarrow> uuid \<Rightarrow> event_row \<Rightarrow> bool" where
  "hits_event user i e \<longleftrightarrow> e_linked_task_id e = Some i \<and> e_user_id e = user"

definition hits_note :: "uuid \<Rightarrow> uuid \<Rightarrow> uuid set \<Rightarrow> note_row \<Rightarrow> bool" where
  "hits_note user i es n \<longleftrightarrow> n_user_id n = user \<and> (n_task_id n = Some i \<or> (\<exists>j \<in> es. n_event_id n = Some j))"

lemma unlink_unlink: "unlink p (unlink q x) = unlink (\<lambda>i. q i \<or> p i) x"
  by (simp add: unlink_def split: option.split)

lemma delete_where_append: "delete_where p (xs @ ys) = delete_where p xs @ delete_where p ys"
  by (simp add: delete_where_def)

lemma delete_where_twice: "delete_where p (delete_where q rs) = delete_where (\<lambda>r. q r \<or> p r) rs"
  by (simp add: delete_where_def conj_commute)

lemma delete_notes_twice: "delete_notes p (delete_notes q w) = delete_notes (\<lambda>n. q n \<or> p n) w"
proof -
  have "(i \<in> n_id ` {x \<in> S. q x} \<or> i \<in> n_id ` {x \<in> S. \<not> q x \<and> p x}) = (i \<in> n_id ` {x \<in> S. q x \<or> p x})" for i S by auto
  then show ?thesis by (simp add: delete_notes_def Let_def delete_where_twice unlink_unlink)
qed

lemma delete_one_task:
  assumes "filter (\<lambda>t. t_id t = i \<and> t_user_id t = user) (tasks w) = [T]"
  defines "w' \<equiv> delete_tasks (\<lambda>t. t_id t = i \<and> t_user_id t = user) w"
  defines "es \<equiv> e_id ` {e \<in> set (events w). hits_event user i e}"
  shows "tasks w' = map (\<lambda>t. t\<lparr>t_recurrence_source_id := unlink (\<lambda>j. j = i) (t_recurrence_source_id t)\<rparr>)
       (delete_where (\<lambda>t. t_id t = i \<and> t_user_id t = user) (tasks w))"
    and "events w' = delete_where (hits_event user i) (events w)"
    and "note_rows w' = delete_where (hits_note user i es) (note_rows w)"
    and "focus_tasks w' = delete_where (\<lambda>f. fo_task_id f = i \<and> fo_user_id f = user) (focus_tasks w)"
    and "files w' = map (detach i es (n_id ` {n \<in> set (note_rows w). hits_note user i es n})) (files w)"
    and "mappings w' = map (\<lambda>m. m\<lparr>m_canonical_event_id := unlink (\<lambda>j. j \<in> es) (m_canonical_event_id m)\<rparr>) (mappings w)"
    and "disputed j w' = disputed j w"
proof -
  have T: "t_id T = i" "t_user_id T = user" using assms(1) by (auto dest: filter_eq_ConsD)
  have ev: "(\<lambda>e. refers (e_linked_task_id e) (\<lambda>j. (j, e_user_id e) \<in> set (map (\<lambda>t. (t_id t, t_user_id t)) [T]))) = hits_event user i"
    using T by (auto simp: hits_event_def fun_eq_iff)
  have nt: "((\<exists>j. n_event_id n = Some j \<and> (j, n_user_id n) \<in> (\<lambda>e. (e_id e, e_user_id e)) ` {e \<in> set (events w). hits_event user i e})
      \<or> n_task_id n = Some i \<and> n_user_id n = user) = hits_note user i es n" for n
    by (auto simp: hits_event_def hits_note_def es_def)
  show "tasks w' = map (\<lambda>t. t\<lparr>t_recurrence_source_id := unlink (\<lambda>j. j = i) (t_recurrence_source_id t)\<rparr>)
       (delete_where (\<lambda>t. t_id t = i \<and> t_user_id t = user) (tasks w))"
    using T by (simp add: w'_def delete_tasks_def Let_def assms(1))
  show "events w' = delete_where (hits_event user i) (events w)"
    unfolding w'_def delete_tasks_def Let_def assms(1) ev by simp
  show "note_rows w' = delete_where (hits_note user i es) (note_rows w)"
    unfolding w'_def delete_tasks_def delete_events_def Let_def assms(1) ev delete_notes_twice by (simp add: T nt)
  show "focus_tasks w' = delete_where (\<lambda>f. fo_task_id f = i \<and> fo_user_id f = user) (focus_tasks w)"
    using T by (simp add: w'_def delete_tasks_def Let_def assms(1))
  show "mappings w' = map (\<lambda>m. m\<lparr>m_canonical_event_id := unlink (\<lambda>j. j \<in> es) (m_canonical_event_id m)\<rparr>) (mappings w)"
    unfolding w'_def delete_tasks_def Let_def assms(1) ev by (simp add: delete_events_def Let_def es_def)
  show "disputed j w' = disputed j w"
    unfolding w'_def delete_tasks_def Let_def assms(1) ev by (simp add: delete_events_def Let_def disputed_def)
  show "files w' = map (detach i es (n_id ` {n \<in> set (note_rows w). hits_note user i es n})) (files w)"
    unfolding w'_def delete_tasks_def delete_events_def Let_def assms(1) ev delete_notes_twice
    by (simp add: T nt delete_notes_def Let_def detach_def) (simp add: es_def)
qed

lemma filter_single: "distinct xs \<Longrightarrow> x \<in> set xs \<Longrightarrow> filter ((=) x) xs = [x]"
  by (induction xs) (auto simp: filter_empty_conv)

text \<open>The rows the deletion touches are the rows of the snapshot.\<close>

lemma snapshot_sets:
  assumes keys: "keys_ok w" and rows: "rows_of user sn w"
  defines "i \<equiv> t_id (sn_task sn)"
  shows "filter (\<lambda>t. t_id t = i \<and> t_user_id t = user) (tasks w) = [sn_task sn]"
    and "{e \<in> set (events w). hits_event user i e} = set_option (sn_event sn)"
    and "{n \<in> set (note_rows w). hits_note user i (e_id ` set_option (sn_event sn)) n} = set (sn_notes sn)"
proof -
  have T: "sn_task sn \<in> set (tasks w)" "t_user_id (sn_task sn) = user"
    using rows by (auto simp: rows_of_def task_by_id_def dest: row_by_Some)
  have d: "distinct (map t_id (tasks w))" using keys by (simp add: keys_ok_def)
  have "filter (\<lambda>t. t_id t = i \<and> t_user_id t = user) (tasks w) = filter ((=) (sn_task sn)) (tasks w)"
    using T by (intro filter_cong) (auto simp: i_def dest: distinct_map_inj [OF d])
  also have "\<dots> = [sn_task sn]" using T(1) d by (simp add: distinct_map filter_single)
  finally show "filter (\<lambda>t. t_id t = i \<and> t_user_id t = user) (tasks w) = [sn_task sn]" .
  have e: "sn_event sn = row_by (\<lambda>e. e_user_id e = user \<and> e_linked_task_id e = Some i) (events w)"
    using rows by (simp add: rows_of_def event_of_task_def i_def)
  have u: "e' = e" if "e' \<in> set (events w)" "hits_event user i e'" "e \<in> set (events w)" "hits_event user i e" for e e'
    using keys that by (auto simp: keys_ok_def hits_event_def dest: unique_nullableD)
  show "{e \<in> set (events w). hits_event user i e} = set_option (sn_event sn)"
  proof (cases "sn_event sn")
    case None
    with e [symmetric] show ?thesis by (auto simp: row_by_None hits_event_def)
  next
    case (Some a)
    with e [symmetric] have "a \<in> set (events w)" "hits_event user i a" by (auto simp: hits_event_def dest: row_by_Some)
    with u Some show ?thesis by auto
  qed
  show "{n \<in> set (note_rows w). hits_note user i (e_id ` set_option (sn_event sn)) n} = set (sn_notes sn)"
    using rows by (cases "sn_event sn") (auto simp: rows_of_def notes_of_def hits_note_def i_def)
qed

text \<open>Setting the mapping of the event aside, then dropping the event, is the tombstone alone.\<close>

lemma tombstone_unlink:
  assumes keys: "unique_nullable m_canonical_event_id (mappings w)" "distinct (map m_id (mappings w))"
    and m: "event_mapping event w = Some m"
  shows "map (\<lambda>m. m\<lparr>m_canonical_event_id := unlink (\<lambda>j. j \<in> e_id ` set_option event) (m_canonical_event_id m)\<rparr>)
      (update_where (\<lambda>x. m_id x = m_id m) (set_tombstone t) (mappings w))
    = update_where (\<lambda>x. m_id x = m_id m) (set_tombstone t) (mappings w)"
proof -
  obtain e where e: "event = Some e" "m \<in> set (mappings w)" "m_canonical_event_id m = Some (e_id e)"
    using m by (auto simp: event_mapping_def split: option.splits dest: row_by_Some)
  have "x = m" if "x \<in> set (mappings w)" "m_canonical_event_id x = Some (e_id e)" for x
    using unique_nullableD [OF keys(1) that(1) e(2) that(2) e(3)] .
  then show ?thesis
    by (intro map_idI) (auto simp: set_update_where set_tombstone_def unlink_def e(1) split: option.split)
qed

lemma no_mapping_unlink:
  assumes "event_mapping event w = None"
  shows "map (\<lambda>m. m\<lparr>m_canonical_event_id := unlink (\<lambda>j. j \<in> e_id ` set_option event) (m_canonical_event_id m)\<rparr>) (mappings w) = mappings w"
  using assms by (intro map_idI) (auto simp: event_mapping_def row_by_None unlink_def split: option.splits)

text \<open>How the tables of \<open>w'\<close> follow from those of \<open>w\<close> and the snapshot.\<close>

definition gone_task :: "uuid \<Rightarrow> snapshot \<Rightarrow> task_row \<Rightarrow> bool" where
  "gone_task user sn t \<longleftrightarrow> t_id t = t_id (sn_task sn) \<and> t_user_id t = user"

definition unsource :: "snapshot \<Rightarrow> task_row \<Rightarrow> task_row" where
  "unsource sn t = t\<lparr>t_recurrence_source_id := unlink (\<lambda>j. j = t_id (sn_task sn)) (t_recurrence_source_id t)\<rparr>"

definition deleted_rows :: "uuid \<Rightarrow> snapshot \<Rightarrow> timestamp \<Rightarrow> world \<Rightarrow> world \<Rightarrow> bool" where
  "deleted_rows user sn expiry w w' \<longleftrightarrow>
     tasks w' = map (unsource sn) (delete_where (gone_task user sn) (tasks w))
     \<and> events w' = delete_where (hits_event user (t_id (sn_task sn))) (events w)
     \<and> note_rows w' = delete_where (hits_note user (t_id (sn_task sn)) (e_id ` set_option (sn_event sn))) (note_rows w)
     \<and> focus_tasks w' = delete_where (\<lambda>f. fo_task_id f = t_id (sn_task sn) \<and> fo_user_id f = user) (focus_tasks w)
     \<and> files w' = map (detach (t_id (sn_task sn)) (e_id ` set_option (sn_event sn)) (n_id ` set (sn_notes sn))) (files w)
     \<and> mappings w' = (case sn_mapping sn of None \<Rightarrow> mappings w
          | Some m \<Rightarrow> update_where (\<lambda>x. m_id x = m_id m) (set_tombstone expiry) (mappings w))
     \<and> (\<forall>j. disputed j w' = disputed j w)
     \<and> users w' = users w \<and> projects w' = projects w \<and> calendars w' = calendars w \<and> google_accounts w' = google_accounts w"

lemma hold_mapping_result:
  assumes "hold_mapping user r t m w = Inr (w1, w2)"
  shows "mappings w1 = update_where (\<lambda>x. m_id x = m_id m) (set_tombstone t) (mappings w)" "delete_undos w1 = delete_undos w"
    "tasks w1 = tasks w" "events w1 = events w" "note_rows w1 = note_rows w" "focus_tasks w1 = focus_tasks w" "files w1 = files w"
    "users w1 = users w" "projects w1 = projects w" "calendars w1 = calendars w" "google_accounts w1 = google_accounts w"
    "conflicts w1 = conflicts w"
  using assms by (auto simp: hold_mapping_def Let_def update_mapping_def new_uuid_def)

lemma delete_with_receipt_result:
  assumes keys: "keys_ok w" and sn: "snapshot_of user sn w"
    and res: "delete_with_receipt lk clock size_of user sn w = Inr (receipt, w1)"
  obtains revs where "deleted_rows user sn (td_expires_at receipt) w w1"
    "delete_undos w1 = delete_undos w @ [\<lparr>du_id = td_id receipt, du_user_id = user, du_task_id = t_id (sn_task sn),
       du_task_title = t_title (sn_task sn), du_snapshot = sn\<lparr>sn_revisions := revs\<rparr>, du_expires_at = td_expires_at receipt\<rparr>]"
    "td_id receipt \<notin> du_id ` set (delete_undos w)"
    "list_all (\<lambda>(s, v). has_revision user s w1 \<and> revision_of user s w1 = v) revs"
proof -
  let ?u = "\<lparr>du_id = uuid_supply w (drawn w), du_user_id = user, du_task_id = t_id (sn_task sn),
       du_task_title = t_title (sn_task sn), du_snapshot = sn, du_expires_at = clock 1 + 60 * second\<rparr>"
  let ?w0 = "w\<lparr>drawn := Suc (drawn w), delete_undos := delete_undos w @ [?u]\<rparr>"
  let ?del = "delete_tasks (\<lambda>t. t_id t = t_id (sn_task sn) \<and> t_user_id t = user)"
  obtain wh wx revs w2 where fresh: "\<forall>u \<in> set (delete_undos w). du_id u \<noteq> uuid_supply w (drawn w)"
    and held: "(case sn_mapping sn of None \<Rightarrow> Inr (?w0, ?w0) | Some m \<Rightarrow> hold_mapping user (uuid_supply w (drawn w)) (clock 1 + 60 * second) m ?w0) = Inr (wh, wx)"
    and revs: "revisions lk user (map fst (sn_revisions sn)) (?del wh) = Inr (revs, w2)"
    and r: "receipt = \<lparr>td_id = uuid_supply w (drawn w), td_task_id = t_id (sn_task sn), td_task_title = t_title (sn_task sn),
        td_expires_at = clock 1 + 60 * second\<rparr>"
    and w1: "w1 = w2\<lparr>delete_undos := update_where (\<lambda>u. du_id u = uuid_supply w (drawn w)) (\<lambda>u. u\<lparr>du_snapshot := sn\<lparr>sn_revisions := revs\<rparr>\<rparr>) (delete_undos w2)\<rparr>"
    using res unfolding delete_with_receipt_def new_uuid_def Let_def
    by (auto cong: option.case_cong)
  let ?frame = "\<lambda>w w'. tasks w' = tasks w \<and> events w' = events w \<and> note_rows w' = note_rows w \<and> focus_tasks w' = focus_tasks w
    \<and> files w' = files w \<and> users w' = users w \<and> projects w' = projects w \<and> calendars w' = calendars w
    \<and> google_accounts w' = google_accounts w \<and> conflicts w' = conflicts w"
  have h: "?frame w wh" "delete_undos wh = delete_undos w @ [?u]"
    "mappings wh = (case sn_mapping sn of None \<Rightarrow> mappings w
          | Some m \<Rightarrow> update_where (\<lambda>x. m_id x = m_id m) (set_tombstone (clock 1 + 60 * second)) (mappings w))"
    using held by (auto split: option.splits simp: hold_mapping_result)
  have w2: "w2 = (?del wh)\<lparr>guard_revisions := guard_revisions w2\<rparr>" by (rule revisions_result(1)) fact
  note sets = snapshot_sets [OF keys sn [unfolded snapshot_of_def, THEN conjunct1]]
  have one: "filter (\<lambda>t. t_id t = t_id (sn_task sn) \<and> t_user_id t = user) (tasks wh) = [sn_task sn]" using h(1) sets(1) by simp
  have m: "sn_mapping sn = event_mapping (sn_event sn) w" using sn by (simp add: snapshot_of_def calendar_of_def)
  note del = delete_one_task [OF one]
  have canon: "map (\<lambda>m. m\<lparr>m_canonical_event_id := unlink (\<lambda>j. j \<in> e_id ` set_option (sn_event sn)) (m_canonical_event_id m)\<rparr>) (mappings wh) = mappings wh"
    using keys no_mapping_unlink [of "sn_event sn" w] tombstone_unlink [of w "sn_event sn"]
    unfolding h(3) m keys_ok_def by (cases "event_mapping (sn_event sn) w") simp_all
  have ev: "{e \<in> set (events wh). hits_event user (t_id (sn_task sn)) e} = set_option (sn_event sn)" using h(1) sets(2) by simp
  have nt: "{n \<in> set (note_rows wh). hits_note user (t_id (sn_task sn)) (e_id ` set_option (sn_event sn)) n} = set (sn_notes sn)"
    using h(1) sets(3) by simp
  have "deleted_rows user sn (clock 1 + 60 * second) w (?del wh)"
    unfolding deleted_rows_def del(1-6) del(7) ev nt canon
    by (simp add: h gone_task_def [abs_def] unsource_def [abs_def]) (simp add: disputed_def h)
  moreover have same: "tasks w1 = tasks (?del wh)" "events w1 = events (?del wh)" "note_rows w1 = note_rows (?del wh)"
      "focus_tasks w1 = focus_tasks (?del wh)" "files w1 = files (?del wh)" "mappings w1 = mappings (?del wh)"
      "conflicts w1 = conflicts (?del wh)" "users w1 = users (?del wh)" "projects w1 = projects (?del wh)"
      "calendars w1 = calendars (?del wh)" "google_accounts w1 = google_accounts (?del wh)"
    unfolding w1 by (subst w2, simp)+
  ultimately have "deleted_rows user sn (td_expires_at receipt) w w1" by (simp add: deleted_rows_def r disputed_def)
  moreover have "delete_undos w2 = delete_undos w @ [?u]" by (subst w2) (simp add: h(2))
  then have "delete_undos w1 = delete_undos w @ [?u\<lparr>du_snapshot := sn\<lparr>sn_revisions := revs\<rparr>\<rparr>]"
    using fresh unfolding w1 by (auto simp: update_where_def image_iff intro!: map_idI)
  moreover have "list_all (\<lambda>(s, v). has_revision user s w1 \<and> revision_of user s w1 = v) revs"
    using revisions_result(3) [OF revs] by (simp add: w1 has_revision_def revision_of_def)
  ultimately show ?thesis using fresh by (intro that [of revs]) (auto simp: r)
qed

section \<open>The checks of the undo\<close>

lemma detach_all:
  assumes "length (filter (\<lambda>l. l \<noteq> None) [f_project_id f, f_task_id f, f_note_id f, f_event_id f]) \<le> 1"
    and "f_task_id f = Some i \<or> (\<exists>j \<in> es. f_event_id f = Some j) \<or> (\<exists>j \<in> ns. f_note_id f = Some j)"
  shows "detach i es ns f = f\<lparr>f_task_id := None, f_event_id := None, f_note_id := None\<rparr>"
  using assms by (auto simp: detach_def unlink_def split: if_splits option.splits)

lemma detach_none:
  assumes "\<not> (f_task_id f = Some i \<or> (\<exists>j \<in> es. f_event_id f = Some j) \<or> (\<exists>j \<in> ns. f_note_id f = Some j))"
  shows "detach i es ns f = f"
  using assms by (auto simp: detach_def unlink_def split: option.split)

text \<open>The files of the snapshot are the files with a link to a deleted row.\<close>

lemma linked_files:
  assumes ok: "files_ok w" "keys_ok w" and rows: "rows_of user sn w" and f: "f \<in> set (files w)"
  shows "f \<in> set (sn_files sn) \<longleftrightarrow> f_task_id f = Some (t_id (sn_task sn)) \<or> (\<exists>j \<in> e_id ` set_option (sn_event sn). f_event_id f = Some j)
     \<or> (\<exists>j \<in> n_id ` set (sn_notes sn). f_note_id f = Some j)" (is "_ \<longleftrightarrow> ?l")
proof -
  have "sn_task sn \<in> set (tasks w)" "t_user_id (sn_task sn) = user"
    using rows by (auto simp: rows_of_def task_by_id_def dest: row_by_Some)
  moreover have "e \<in> set (events w) \<and> e_user_id e = user" if "sn_event sn = Some e" for e
    using that snapshot_sets(2) [OF ok(2) rows] by (auto simp: hits_event_def)
  moreover have "n \<in> set (note_rows w) \<and> n_user_id n = user" if "n \<in> set (sn_notes sn)" for n
    using that snapshot_sets(3) [OF ok(2) rows] by (auto simp: hits_note_def)
  ultimately have "f_user_id f = user" if ?l
    using that ok(1) f unfolding files_ok_def list_all_iff by (elim disjE) fastforce+
  then show ?thesis using rows f by (cases "sn_event sn") (auto simp: rows_of_def files_of_def)
qed

lemma file_guard_passes:
  assumes ok: "files_ok w" "keys_ok w" and rows: "rows_of user sn w" and del: "deleted_rows user sn t w w'"
    and f: "f \<in> set (sn_files sn)"
  shows "file_by_id user (f_id f) w' = Some (f\<lparr>f_task_id := None, f_event_id := None, f_note_id := None\<rparr>)"
proof -
  let ?d = "detach (t_id (sn_task sn)) (e_id ` set_option (sn_event sn)) (n_id ` set (sn_notes sn))"
  have mem: "f \<in> set (files w)" "f_user_id f = user" using rows f by (auto simp: rows_of_def files_of_def)
  have d: "?d f = f\<lparr>f_task_id := None, f_event_id := None, f_note_id := None\<rparr>"
    using ok(1) mem f linked_files [OF ok rows mem(1)] by (intro detach_all) (auto simp: files_ok_def list_all_iff)
  have "distinct (map f_id (files w'))" using ok(2) del by (simp add: keys_ok_def deleted_rows_def detach_def comp_def)
  moreover have "?d f \<in> set (files w')" using del mem(1) by (simp add: deleted_rows_def)
  ultimately show ?thesis unfolding file_by_id_def d using mem(2) by (intro row_by_key [of f_id]) auto
qed

text \<open>A task that the deletion leaves is found, without its source if that was the deleted task.\<close>

lemma task_guard_passes:
  assumes keys: "keys_ok w" and del: "deleted_rows user sn t w w'" and s: "s \<in> set (tasks w)" "t_user_id s = user" "t_id s \<noteq> t_id (sn_task sn)"
  shows "task_by_id user (t_id s) w' = Some (unsource sn s)"
proof -
  have "distinct (map t_id (tasks w'))"
    using keys del distinct_map_delete_where [of t_id "tasks w"] by (simp add: keys_ok_def deleted_rows_def unsource_def comp_def)
  moreover have "unsource sn s \<in> set (tasks w')" using del s by (auto simp: deleted_rows_def gone_task_def)
  ultimately show ?thesis unfolding task_by_id_def using s by (intro row_by_key [of t_id]) (auto simp: unsource_def)
qed

lemma held_guard_passes:
  assumes keys: "keys_ok w" and sn: "calendar_of user sn w" and del: "deleted_rows user sn t w w'" and m: "sn_mapping sn = Some m"
    and free: "\<And>k. dl_free lk k"
  shows "check_held lk user t w' m = Inr ()"
proof -
  have "event_mapping (sn_event sn) w = Some m" using sn m by (simp add: calendar_of_def)
  then have c: "clean user m w" "m \<in> set (mappings w)"
    using sn m by (auto simp: calendar_of_def event_mapping_def split: option.splits dest: row_by_Some)
  let ?ms = "update_where (\<lambda>x. m_id x = m_id m) (set_tombstone t) (mappings w)"
  have ms: "mappings w' = ?ms" using del m by (simp add: deleted_rows_def)
  have "distinct (map m_id ?ms)" using keys by (simp add: keys_ok_def set_tombstone_def)
  moreover have "set_tombstone t m \<in> set ?ms" using c(2) by (auto simp: set_update_where)
  ultimately have "row_by (\<lambda>x. m_id x = m_id m \<and> m_user_id x = user \<and> m_deletion_hold_until x = Some t) ?ms = Some (set_tombstone t m)"
    using c(1) by (intro row_by_key [of m_id]) (auto simp: set_tombstone_def clean_def)
  moreover have "\<not> disputed (m_id m) w'" using del c(1) by (simp add: deleted_rows_def clean_def)
  ultimately show ?thesis using c(1) by (simp add: check_held_def free ms set_tombstone_def clean_def)
qed

lemma check_dependencies_pass:
  assumes free: "\<And>k. dl_free lk k" and ok: "restorable user (t_id (sn_task sn)) w" and ap: "apart (t_id (sn_task sn)) w"
    and sn: "snapshot_of user sn w" and del: "deleted_rows user sn t w w'"
  shows "check_dependencies lk user t sn w' = Inr ()"
proof -
  have keys: "keys_ok w" and fs: "files_ok w" and li: "lineage_ok user (t_id (sn_task sn)) w" using ok by (simp_all add: restorable_def)
  have rows: "rows_of user sn w" and cal: "calendar_of user sn w" using sn by (simp_all add: snapshot_of_def)
  have same: "projects w' = projects w" "calendars w' = calendars w" "google_accounts w' = google_accounts w" using del by (simp_all add: deleted_rows_def)
  have T: "sn_task sn \<in> set (tasks w)" using rows by (auto simp: rows_of_def task_by_id_def dest: row_by_Some)
  have lineage: "t_parent_task_id t \<noteq> Some (t_id s) \<and> t_recurrence_source_id t \<noteq> Some (t_id s)"
    if "s \<in> set (tasks w)" "t_id s = t_id (sn_task sn) \<or> t_recurrence_source_id s = Some (t_id (sn_task sn))"
      "t \<in> set (tasks w)" "t_id t = t_id (sn_task sn)" for s t
    using li ap that unfolding lineage_ok_def apart_def list_all_iff by metis
  have "check_all (\<lambda>p. guard lk ''projects'' pr_id (project_by_id user (pr_id p) w') p) (sn_projects sn) = Inr ()"
    using rows by (intro check_all_pass) (auto simp: rows_of_def list_all_iff guard_def free project_by_id_def same)
  moreover have "task_by_id user (t_id d) w' = Some d" if d: "d \<in> set (sn_task_dependencies sn)" for d
  proof -
    have "task_by_id user (t_id d) w = Some d" "t_parent_task_id (sn_task sn) = Some (t_id d) \<or> t_recurrence_source_id (sn_task sn) = Some (t_id d)"
      using rows d by (auto simp: rows_of_def list_all_iff)
    then have "d \<in> set (tasks w)" "t_user_id d = user" and "t_id d \<noteq> t_id (sn_task sn)" "t_recurrence_source_id d \<noteq> Some (t_id (sn_task sn))"
      using T lineage [of d "sn_task sn"] by (auto simp: task_by_id_def dest!: row_by_Some)
    then show ?thesis using task_guard_passes [OF keys del] by (simp add: unsource_def unlink_def split: option.split)
  qed
  then have "check_all (\<lambda>t. guard lk ''tasks'' t_id (task_by_id user (t_id t) w') t) (sn_task_dependencies sn) = Inr ()"
    by (intro check_all_pass) (simp add: list_all_iff guard_def free)
  moreover have "for_option (check_calendar lk user w') (sn_calendar sn) = Inr ()"
    using cal by (cases "sn_calendar sn") (auto simp: for_option_def check_calendar_def free calendar_of_def calendar_by_id_def same)
  moreover have "for_option (\<lambda>a. bind_res (google_account_guard lk user w') (\<lambda>b. require (b = a) delete_changed)) (sn_google_account sn) = Inr ()"
    using cal by (cases "sn_google_account sn") (auto simp: for_option_def google_account_guard_def free calendar_of_def same)
  moreover have "check_all (\<lambda>f. guard lk ''files'' f_id (file_by_id user (f_id f) w')
       (f\<lparr>f_task_id := None, f_event_id := None, f_note_id := None\<rparr>)) (sn_files sn) = Inr ()"
    by (intro check_all_pass) (simp add: list_all_iff guard_def free file_guard_passes [OF fs keys rows del])
  moreover have "task_by_id user (t_id s) w' = Some (s\<lparr>t_recurrence_source_id := None\<rparr>)" if s: "s \<in> set (sn_successors sn)" for s
  proof -
    have "s \<in> set (tasks w)" "t_user_id s = user" and src: "t_recurrence_source_id s = Some (t_id (sn_task sn))"
      using rows s by (auto simp: rows_of_def successors_of_def)
    moreover have "t_id s \<noteq> t_id (sn_task sn)" using lineage [of s s] calculation by metis
    ultimately show ?thesis using task_guard_passes [OF keys del] by (simp add: unsource_def unlink_def)
  qed
  then have "check_all (\<lambda>t. guard lk ''tasks'' t_id (task_by_id user (t_id t) w') (t\<lparr>t_recurrence_source_id := None\<rparr>)) (sn_successors sn) = Inr ()"
    by (intro check_all_pass) (simp add: list_all_iff guard_def free)
  moreover have "for_option (check_held lk user t w') (sn_mapping sn) = Inr ()"
    using held_guard_passes [OF keys cal del _ free] by (cases "sn_mapping sn") (simp_all add: for_option_def)
  ultimately show ?thesis by (simp add: check_dependencies_def)
qed

section \<open>Restoring the rows\<close>

definition renewed_task :: "timestamp \<Rightarrow> task_row \<Rightarrow> task_row" where
  "renewed_task t r = r\<lparr>t_version := t_version r + 1, t_updated_at := t\<rparr>"

definition renewed_event :: "timestamp \<Rightarrow> event_row \<Rightarrow> event_row" where
  "renewed_event t r = r\<lparr>e_version := e_version r + 1, e_updated_at := t\<rparr>"

definition renewed_note :: "timestamp \<Rightarrow> note_row \<Rightarrow> note_row" where
  "renewed_note t r = r\<lparr>n_version := n_version r + 1, n_updated_at := t\<rparr>"

text \<open>A loop of updates, each of the row with its own key.\<close>

lemma fold_update_where:
  "fold (\<lambda>s. update_where (p s) (g s)) ss rs = map (\<lambda>x. fold (\<lambda>s x. if p s x then g s x else x) ss x) rs"
  by (induction ss arbitrary: rs) (simp_all add: update_where_def comp_def)

lemma fold_keyed_other:
  "(\<And>s. s \<in> set ss \<Longrightarrow> \<not> p s x) \<Longrightarrow> fold (\<lambda>s x. if p s x then g s x else x) ss x = x"
  by (induction ss) simp_all

lemma fold_keyed:
  assumes "distinct (map k ss)" and "s \<in> set ss" and "p s x" and "\<And>s y. p s y \<Longrightarrow> k' y = k s" and "\<And>s y. k' (g s y) = k' y"
  shows "fold (\<lambda>s x. if p s x then g s x else x) ss x = g s x"
  using assms(1,2)
proof (induction ss)
  case (Cons a ss)
  show ?case
  proof (cases "a = s")
    case True
    have "\<not> p b (g s x)" if "b \<in> set ss" for b
      using Cons.prems(1) True that assms(3-5) by (metis distinct.simps(2) image_eqI list.simps(9) list.set_map)
    then show ?thesis using assms(3) True by (simp add: fold_keyed_other)
  next
    case False
    with Cons.prems have "s \<in> set ss" "k s \<noteq> k a" by (auto simp: image_iff)
    moreover have "\<not> p a x" using assms(3,4) \<open>k s \<noteq> k a\<close> by metis
    ultimately show ?thesis using Cons by simp
  qed
qed simp

lemma restore_notes:
  assumes "distinct (map n_id (note_rows w @ ns))"
  shows "fold_res (insert_versioned_note t) ns w = Inr (w\<lparr>note_rows := note_rows w @ map (renewed_note t) ns\<rparr>)"
  using assms
proof (induction ns arbitrary: w)
  case (Cons n ns)
  let ?w = "w\<lparr>note_rows := note_rows w @ [renewed_note t n]\<rparr>"
  have "insert_versioned_note t n w = Inr ?w" using Cons.prems by (auto simp: insert_versioned_note_def renewed_note_def image_iff)
  moreover have "distinct (map n_id (note_rows ?w @ ns))" using Cons.prems by (auto simp: renewed_note_def)
  ultimately show ?case using Cons.IH [of ?w] by simp
qed simp

definition focus_keys :: "focus_row list \<Rightarrow> bool" where
  "focus_keys fs \<longleftrightarrow> distinct (map (\<lambda>f. (fo_user_id f, fo_focus_date f, fo_task_id f)) fs)
     \<and> distinct (map (\<lambda>f. (fo_user_id f, fo_focus_date f, fo_position f)) fs)"

lemma restore_focuses:
  assumes "focus_keys (focus_tasks w @ fs)"
  shows "\<exists>w'. fold_res restore_focus fs w = Inr w' \<and> focus_tasks w' = focus_tasks w @ fs \<and> tasks w' = tasks w \<and> events w' = events w
    \<and> note_rows w' = note_rows w \<and> files w' = files w \<and> mappings w' = mappings w \<and> delete_undos w' = delete_undos w"
  using assms
proof (induction fs arbitrary: w)
  case (Cons f fs)
  have ins: "restore_focus f w = Inr (insert_focus f w)" using Cons.prems by (auto simp: restore_focus_def focus_keys_def image_iff)
  have "focus_keys (focus_tasks (insert_focus f w) @ fs)" using Cons.prems by simp
  from Cons.IH [OF this] ins show ?case by simp
qed simp

lemma relink_files:
  "fold (relink_file user) fs w = w\<lparr>files := fold (\<lambda>f. update_where (\<lambda>x. f_user_id x = user \<and> f_id x = f_id f)
     (\<lambda>x. x\<lparr>f_task_id := f_task_id f, f_event_id := f_event_id f, f_note_id := f_note_id f\<rparr>)) fs (files w)\<rparr>"
  by (induction fs arbitrary: w) (simp_all add: relink_file_def)

lemma relink_successors:
  "tasks (fold (relink_successor user i t) ss w) = fold (\<lambda>s. update_where (\<lambda>x. t_user_id x = user \<and> t_id x = t_id s)
     (\<lambda>x. x\<lparr>t_recurrence_source_id := Some i, t_version := t_version x + 1, t_updated_at := t\<rparr>)) ss (tasks w)"
  "events (fold (relink_successor user i t) ss w) = events w" "note_rows (fold (relink_successor user i t) ss w) = note_rows w"
  "files (fold (relink_successor user i t) ss w) = files w" "focus_tasks (fold (relink_successor user i t) ss w) = focus_tasks w"
  "mappings (fold (relink_successor user i t) ss w) = mappings w" "delete_undos (fold (relink_successor user i t) ss w) = delete_undos w"
  by (induction ss arbitrary: w) (simp_all add: relink_successor_def)

lemma restored_files:
  assumes ok: "files_ok w" "keys_ok w" and rows: "rows_of user sn w" and del: "deleted_rows user sn t w w'"
  shows "files (fold (relink_file user) (sn_files sn) w') = files w"
proof -
  let ?d = "detach (t_id (sn_task sn)) (e_id ` set_option (sn_event sn)) (n_id ` set (sn_notes sn))"
  let ?p = "\<lambda>f x. f_user_id x = user \<and> f_id x = f_id f"
  let ?g = "\<lambda>f x. x\<lparr>f_task_id := f_task_id f, f_event_id := f_event_id f, f_note_id := f_note_id f\<rparr>"
  have sub: "f \<in> set (files w) \<and> f_user_id f = user" if "f \<in> set (sn_files sn)" for f
    using rows that by (auto simp: rows_of_def files_of_def)
  have keys: "distinct (map f_id (files w))" using ok(2) by (simp add: keys_ok_def)
  have fs: "distinct (map f_id (sn_files sn))"
    using rows keys by (simp add: rows_of_def files_of_def distinct_map_filter distinct_map inj_on_def)
  have one: "fold (\<lambda>f x. if ?p f x then ?g f x else x) (sn_files sn) (?d f) = f" if f: "f \<in> set (files w)" for f
  proof (cases "f \<in> set (sn_files sn)")
    case True
    have "fold (\<lambda>f x. if ?p f x then ?g f x else x) (sn_files sn) (?d f) = ?g f (?d f)"
      using sub [OF True] by (intro fold_keyed [where k = f_id and k' = f_id]) (auto simp: fs True detach_def)
    then show ?thesis by (simp add: detach_def)
  next
    case False
    then have "?d f = f" using linked_files [OF ok rows f] by (intro detach_none) simp
    moreover have "\<not> ?p g f" if "g \<in> set (sn_files sn)" for g
      using sub [OF that] that False f distinct_map_inj [OF keys, of f g] by auto
    ultimately show ?thesis by (simp add: fold_keyed_other)
  qed
  have "files w' = map ?d (files w)" using del by (simp add: deleted_rows_def)
  then show ?thesis using one by (simp add: relink_files fold_update_where map_idI)
qed

lemma restored_tasks:
  assumes ok: "restorable user (t_id (sn_task sn)) w" and rows: "rows_of user sn w" and del: "deleted_rows user sn t' w w'"
  shows "set (fold (\<lambda>s. update_where (\<lambda>x. t_user_id x = user \<and> t_id x = t_id s)
     (\<lambda>x. x\<lparr>t_recurrence_source_id := Some (t_id (sn_task sn)), t_version := t_version x + 1, t_updated_at := t\<rparr>)) (sn_successors sn)
       (tasks w' @ [renewed_task t (sn_task sn)]))
    = (\<lambda>r. if t_id r = t_id (sn_task sn) \<or> t_recurrence_source_id r = Some (t_id (sn_task sn)) then renewed_task t r else r) ` set (tasks w)"
proof -
  let ?i = "t_id (sn_task sn)" and ?p = "\<lambda>s x. t_user_id x = user \<and> t_id x = t_id s"
  let ?g = "\<lambda>x. x\<lparr>t_recurrence_source_id := Some (t_id (sn_task sn)), t_version := t_version x + 1, t_updated_at := t\<rparr>"
  let ?f = "fold (\<lambda>s x. if ?p s x then ?g x else x) (sn_successors sn)"
  let ?r = "\<lambda>r. if t_id r = ?i \<or> t_recurrence_source_id r = Some ?i then renewed_task t r else r"
  have keys: "distinct (map t_id (tasks w))" and li: "lineage_ok user ?i w" using ok by (simp_all add: restorable_def keys_ok_def)
  have T: "sn_task sn \<in> set (tasks w)" "t_user_id (sn_task sn) = user"
    using rows by (auto simp: rows_of_def task_by_id_def dest: row_by_Some)
  have owner: "t_user_id r = user" if "r \<in> set (tasks w)" "t_id r = ?i \<or> t_recurrence_source_id r = Some ?i" for r
    using li that unfolding lineage_ok_def list_all_iff by blast
  have succ: "r \<in> set (sn_successors sn) \<longleftrightarrow> r \<in> set (tasks w) \<and> t_recurrence_source_id r = Some ?i" for r
    using rows owner by (auto simp: rows_of_def successors_of_def)
  have not_self: "t_id s \<noteq> ?i" if "s \<in> set (tasks w)" "t_recurrence_source_id s = Some ?i" for s
    using li that unfolding lineage_ok_def list_all_iff by metis
  have ds: "distinct (map t_id (sn_successors sn))"
    using rows keys by (simp add: rows_of_def successors_of_def distinct_map inj_on_def)
  have other: "?f (unsource sn r) = ?r r" if r: "r \<in> set (tasks w)" "t_id r \<noteq> ?i" for r
  proof (cases "t_recurrence_source_id r = Some ?i")
    case True
    then have "?f (unsource sn r) = ?g (unsource sn r)"
      using owner [OF r(1)] succ [of r] r(1) by (intro fold_keyed [where k = t_id and k' = t_id and s = r]) (auto simp: ds unsource_def)
    also have "\<dots> = renewed_task t r" using True by (simp add: unsource_def renewed_task_def)
    finally show ?thesis using True by simp
  next
    case False
    then have "unsource sn r = r" by (simp add: unsource_def unlink_def split: option.split)
    moreover have "\<not> ?p s r" if "s \<in> set (sn_successors sn)" for s
      using that succ [of s] False r(1) distinct_map_inj [OF keys, of r s] by auto
    ultimately show ?thesis using False r(2) by (simp add: fold_keyed_other)
  qed
  have "\<not> ?p s (renewed_task t (sn_task sn))" if "s \<in> set (sn_successors sn)" for s
    using that succ [of s] not_self [of s] by (auto simp: renewed_task_def)
  then have self: "?f (renewed_task t (sn_task sn)) = ?r (sn_task sn)" by (simp add: fold_keyed_other)
  have "{r \<in> set (tasks w). \<not> gone_task user sn r} = {r \<in> set (tasks w). t_id r \<noteq> ?i}"
    using owner by (auto simp: gone_task_def)
  then have "set (tasks w') = unsource sn ` {r \<in> set (tasks w). t_id r \<noteq> ?i}" using del by (simp add: deleted_rows_def)
  then have "?f ` set (tasks w' @ [renewed_task t (sn_task sn)]) = insert (?r (sn_task sn)) (?r ` {r \<in> set (tasks w). t_id r \<noteq> ?i})"
    using other self by (auto simp: image_image)
  also have "\<dots> = ?r ` insert (sn_task sn) {r \<in> set (tasks w). t_id r \<noteq> ?i}" by (rule image_insert [symmetric])
  also have "insert (sn_task sn) {r \<in> set (tasks w). t_id r \<noteq> ?i} = set (tasks w)"
    using T(1) distinct_map_inj [OF keys, of _ "sn_task sn"] by blast
  finally show ?thesis by (simp add: fold_update_where)
qed

lemma restored_mappings:
  assumes keys: "distinct (map m_id (mappings w))" and sn: "calendar_of user sn w" and m: "sn_mapping sn = Some m" and e: "sn_event sn = Some e"
  shows "update_where (\<lambda>x. m_id x = m_id m) (release_mapping (e_id e)) (update_where (\<lambda>x. m_id x = m_id m) (set_tombstone t) (mappings w)) = mappings w"
proof -
  have "row_by (\<lambda>x. m_canonical_event_id x = Some (e_id e)) (mappings w) = Some m" and c: "clean user m w"
    using sn m e by (auto simp: calendar_of_def event_mapping_def)
  then have in_w: "m \<in> set (mappings w)" "m_canonical_event_id m = Some (e_id e)" by (auto dest: row_by_Some)
  have "release_mapping (e_id e) (set_tombstone t m) = m"
    using c in_w(2) by (simp add: release_mapping_def set_tombstone_def clean_def)
  then have "x \<in> set (mappings w) \<Longrightarrow> m_id x = m_id m \<Longrightarrow> release_mapping (e_id e) (set_tombstone t x) = x" for x
    using distinct_map_inj [OF keys, of x m] in_w(1) by auto
  then show ?thesis by (simp add: update_where_def comp_def) (intro map_idI, auto simp: set_tombstone_def)
qed

text \<open>What is the same after the deletion and its undo.\<close>

definition rows_restored :: "uuid \<Rightarrow> timestamp \<Rightarrow> world \<Rightarrow> world \<Rightarrow> bool" where
  "rows_restored i t w w' \<longleftrightarrow>
     set (tasks w') = (\<lambda>r. if t_id r = i \<or> t_recurrence_source_id r = Some i then renewed_task t r else r) ` set (tasks w)
     \<and> set (events w') = (\<lambda>e. if e_linked_task_id e = Some i then renewed_event t e else e) ` set (events w)
     \<and> set (note_rows w') = (\<lambda>n. if n_task_id n = Some i \<or> n_event_id n \<in> {Some (e_id e) | e. e \<in> set (events w) \<and> e_linked_task_id e = Some i}
          then renewed_note t n else n) ` set (note_rows w)
     \<and> set (focus_tasks w') = set (focus_tasks w) \<and> files w' = files w \<and> map unfingered (mappings w') = map unfingered (mappings w)"

lemma split_restore:
  assumes "set ys = {r \<in> S. \<not> p r} \<union> f ` {r \<in> S. p r}"
  shows "set ys = (\<lambda>r. if p r then f r else r) ` S"
  using assms by auto

lemma restored_events:
  assumes keys: "keys_ok w" and own: "owners_ok user (t_id (sn_task sn)) w" and rows: "rows_of user sn w" and del: "deleted_rows user sn t' w w'"
    and frame: "events w1 = events w'"
  shows "\<exists>w2. (case sn_event sn of None \<Rightarrow> Inr w1 | Some e \<Rightarrow> insert_versioned_event t e w1) = Inr w2 \<and> w2 = w1\<lparr>events := events w2\<rparr>
    \<and> set (events w2) = (\<lambda>e. if e_linked_task_id e = Some (t_id (sn_task sn)) then renewed_event t e else e) ` set (events w)"
proof -
  let ?i = "t_id (sn_task sn)"
  have hit: "{e \<in> set (events w). hits_event user ?i e} = set_option (sn_event sn)" by (rule snapshot_sets(2) [OF keys rows])
  have p: "e \<in> set (events w) \<Longrightarrow> hits_event user ?i e \<longleftrightarrow> e_linked_task_id e = Some ?i" for e
    using own by (auto simp: owners_ok_def list_all_iff hits_event_def)
  have hit': "{e \<in> set (events w). e_linked_task_id e = Some ?i} = set_option (sn_event sn)"
    unfolding hit [symmetric] using p by (intro Collect_cong) (simp cong: conj_cong)
  have ev: "set (events w1) = {e \<in> set (events w). \<not> e_linked_task_id e = Some ?i}"
    using del frame p by (auto simp: deleted_rows_def)
  show ?thesis
  proof (cases "sn_event sn")
    case None
    then have "set (events w1) = {e \<in> set (events w). \<not> e_linked_task_id e = Some ?i} \<union> renewed_event t ` {e \<in> set (events w). e_linked_task_id e = Some ?i}"
      using hit ev p by auto
    from split_restore [OF this] None show ?thesis by simp
  next
    case (Some e)
    then have e: "e \<in> set (events w)" "e_linked_task_id e = Some ?i" using hit p by auto
    have no: "e_id x \<noteq> e_id e" "e_linked_task_id x \<noteq> e_linked_task_id e" if "x \<in> set (events w1)" for x
    proof -
      have x: "x \<in> set (events w)" "x \<noteq> e" using that ev e(2) by auto
      then show "e_id x \<noteq> e_id e" using keys e(1) distinct_map_inj [of e_id "events w" x e] by (auto simp: keys_ok_def)
      show "e_linked_task_id x \<noteq> e_linked_task_id e" using that ev e(2) by simp
    qed
    then have ins: "insert_versioned_event t e w1 = Inr (w1\<lparr>events := events w1 @ [renewed_event t e]\<rparr>)"
      by (auto simp: insert_versioned_event_def renewed_event_def)
    have "set (events w1 @ [renewed_event t e]) = {e \<in> set (events w). \<not> e_linked_task_id e = Some ?i} \<union> renewed_event t ` {e \<in> set (events w). e_linked_task_id e = Some ?i}"
      unfolding hit' using ev Some by simp
    from split_restore [OF this] ins Some show ?thesis by simp
  qed
qed

lemma restored_notes:
  assumes keys: "keys_ok w" and own: "owners_ok user (t_id (sn_task sn)) w" and rows: "rows_of user sn w" and del: "deleted_rows user sn t' w w'"
    and frame: "note_rows w1 = note_rows w'"
  shows "fold_res (insert_versioned_note t) (sn_notes sn) w1 = Inr (w1\<lparr>note_rows := note_rows w1 @ map (renewed_note t) (sn_notes sn)\<rparr>)"
    and "set (note_rows w1 @ map (renewed_note t) (sn_notes sn)) = (\<lambda>n. if n_task_id n = Some (t_id (sn_task sn))
       \<or> n_event_id n \<in> {Some (e_id e) | e. e \<in> set (events w) \<and> e_linked_task_id e = Some (t_id (sn_task sn))}
       then renewed_note t n else n) ` set (note_rows w)"
proof -
  let ?i = "t_id (sn_task sn)" and ?h = "hits_note user (t_id (sn_task sn)) (e_id ` set_option (sn_event sn))"
  have hit: "{n \<in> set (note_rows w). ?h n} = set (sn_notes sn)" by (rule snapshot_sets(3) [OF keys rows])
  have n1: "note_rows w1 = delete_where ?h (note_rows w)" using del frame by (simp add: deleted_rows_def)
  have d: "distinct (map n_id (note_rows w))" using keys by (simp add: keys_ok_def)
  have "distinct (map n_id (sn_notes sn))" using rows d by (simp add: rows_of_def notes_of_def distinct_map inj_on_def)
  moreover have "n_id ` set (note_rows w1) \<inter> n_id ` set (sn_notes sn) = {}"
    unfolding hit [symmetric] n1 by (auto dest: distinct_map_inj [OF d])
  ultimately show "fold_res (insert_versioned_note t) (sn_notes sn) w1 = Inr (w1\<lparr>note_rows := note_rows w1 @ map (renewed_note t) (sn_notes sn)\<rparr>)"
    using d by (intro restore_notes) (auto simp: n1)
  have es: "set_option (sn_event sn) = {e \<in> set (events w). e_linked_task_id e = Some ?i}"
    unfolding snapshot_sets(2) [OF keys rows, symmetric] using own by (auto simp: hits_event_def owners_ok_def list_all_iff)
  have h: "?h n \<longleftrightarrow> n_task_id n = Some ?i \<or> n_event_id n \<in> {Some (e_id e) | e. e \<in> set (events w) \<and> e_linked_task_id e = Some ?i}"
    if "n \<in> set (note_rows w)" for n
    using own that unfolding es hits_note_def owners_ok_def list_all_iff by auto
  have "set (note_rows w1 @ map (renewed_note t) (sn_notes sn)) = {n \<in> set (note_rows w). \<not> ?h n} \<union> renewed_note t ` {n \<in> set (note_rows w). ?h n}"
    by (simp add: n1 hit)
  from split_restore [OF this]
  show "set (note_rows w1 @ map (renewed_note t) (sn_notes sn)) = (\<lambda>n. if n_task_id n = Some (t_id (sn_task sn))
       \<or> n_event_id n \<in> {Some (e_id e) | e. e \<in> set (events w) \<and> e_linked_task_id e = Some (t_id (sn_task sn))}
       then renewed_note t n else n) ` set (note_rows w)"
    using h by (simp cong: image_cong)
qed

lemma task_insertable:
  assumes keys: "keys_ok w" and rows: "rows_of user sn w" and del: "deleted_rows user sn t' w w'"
  shows "insert_versioned_task t (sn_task sn) w' = Inr (insert_task (renewed_task t (sn_task sn)) w')"
proof -
  have T: "sn_task sn \<in> set (tasks w)" "t_user_id (sn_task sn) = user"
    using rows by (auto simp: rows_of_def task_by_id_def dest: row_by_Some)
  have "t_id x \<noteq> t_id (sn_task sn) \<and> (t_recurrence_source_id (sn_task sn) \<noteq> None \<longrightarrow> t_recurrence_source_id x \<noteq> t_recurrence_source_id (sn_task sn))"
    if x: "x \<in> set (tasks w')" for x
  proof -
    obtain y where y: "y \<in> set (tasks w)" "\<not> gone_task user sn y" "x = unsource sn y" using x del by (auto simp: deleted_rows_def)
    then have "y \<noteq> sn_task sn" using T(2) by (auto simp: gone_task_def)
    moreover have "t_id y = t_id (sn_task sn) \<Longrightarrow> y = sn_task sn" using keys y(1) T(1) by (auto simp: keys_ok_def dest: distinct_map_inj)
    moreover have "y = sn_task sn" if "t_recurrence_source_id (sn_task sn) = Some k" "t_recurrence_source_id y = Some k" for k
      using keys y(1) T(1) that by (auto simp: keys_ok_def dest: unique_nullableD)
    ultimately show ?thesis by (auto simp: y(3) unsource_def unlink_def split: option.splits if_splits)
  qed
  then show ?thesis by (auto simp: insert_versioned_task_def renewed_task_def)
qed

lemma distinct_map_mset: "mset xs = mset ys \<Longrightarrow> distinct (map k xs) = distinct (map k ys)"
  by (intro mset_eq_imp_distinct_iff) (metis mset_map)

lemma restored_focus:
  assumes keys: "keys_ok w" and rows: "rows_of user sn w" and del: "deleted_rows user sn t' w w'"
  shows "focus_keys (focus_tasks w' @ sn_focus sn)" and "set (focus_tasks w' @ sn_focus sn) = set (focus_tasks w)"
proof -
  let ?h = "\<lambda>f. fo_task_id f = t_id (sn_task sn) \<and> fo_user_id f = user"
  have f: "focus_tasks w' = delete_where ?h (focus_tasks w)" using del by (simp add: deleted_rows_def)
  have o: "sn_focus sn = sort_key fo_focus_date (filter ?h (focus_tasks w))"
    using rows by (simp add: rows_of_def focus_of_task_def conj_commute)
  show "set (focus_tasks w' @ sn_focus sn) = set (focus_tasks w)" by (auto simp: f o)
  have m: "mset (focus_tasks w' @ sn_focus sn) = mset (focus_tasks w)"
    using multiset_partition [of "mset (focus_tasks w)" ?h] by (simp add: f o delete_where_def union_commute)
  show "focus_keys (focus_tasks w' @ sn_focus sn)"
    unfolding focus_keys_def distinct_map_mset [OF m] using keys by (simp add: keys_ok_def)
qed

lemma restore_rows_result:
  assumes ok: "restorable user (t_id (sn_task sn)) w" and sn: "snapshot_of user sn w" and del: "deleted_rows user sn t' w w'"
  shows "\<exists>w2. restore_rows user t sn w' = Inr w2 \<and> rows_restored (t_id (sn_task sn)) t w w2 \<and> mappings w2 = mappings w \<and> delete_undos w2 = delete_undos w'"
proof -
  have keys: "keys_ok w" and fs: "files_ok w" and own: "owners_ok user (t_id (sn_task sn)) w" using ok by (simp_all add: restorable_def)
  have rows: "rows_of user sn w" and cal: "calendar_of user sn w" using sn by (simp_all add: snapshot_of_def)
  let ?w1 = "insert_task (renewed_task t (sn_task sn)) w'"
  obtain w2 where w2: "(case sn_event sn of None \<Rightarrow> Inr ?w1 | Some e \<Rightarrow> insert_versioned_event t e ?w1) = Inr w2" "w2 = ?w1\<lparr>events := events w2\<rparr>"
    "set (events w2) = (\<lambda>e. if e_linked_task_id e = Some (t_id (sn_task sn)) then renewed_event t e else e) ` set (events w)"
    using restored_events [OF keys own rows del, of ?w1 t] by auto
  have f2: "tasks w2 = tasks w' @ [renewed_task t (sn_task sn)]" "note_rows w2 = note_rows w'" "focus_tasks w2 = focus_tasks w'"
    "files w2 = files w'" "mappings w2 = mappings w'" "delete_undos w2 = delete_undos w'"
    by (subst w2(2), simp)+
  note nt = restored_notes [OF keys own rows del f2(2), of t]
  let ?w3 = "w2\<lparr>note_rows := note_rows w2 @ map (renewed_note t) (sn_notes sn)\<rparr>"
  let ?w4 = "fold (relink_file user) (sn_files sn) ?w3"
  let ?w5 = "fold (relink_successor user (t_id (sn_task sn)) t) (sn_successors sn) ?w4"
  note rf = restored_files [OF fs keys rows del, unfolded relink_files, simplified]
  have t5: "set (tasks ?w5) = (\<lambda>r. if t_id r = t_id (sn_task sn) \<or> t_recurrence_source_id r = Some (t_id (sn_task sn)) then renewed_task t r else r) ` set (tasks w)"
    using restored_tasks [OF ok rows del] by (simp add: relink_successors(1) relink_files f2)
  have f5: "focus_tasks ?w5 = focus_tasks w'" "mappings ?w5 = mappings w'" "delete_undos ?w5 = delete_undos w'" "events ?w5 = events w2"
    "note_rows ?w5 = note_rows w2 @ map (renewed_note t) (sn_notes sn)" "files ?w5 = files w"
    by (simp_all add: relink_successors relink_files f2 rf)
  obtain w6 where w6: "fold_res restore_focus (sn_focus sn) ?w5 = Inr w6" "focus_tasks w6 = focus_tasks ?w5 @ sn_focus sn"
    "tasks w6 = tasks ?w5" "events w6 = events ?w5" "note_rows w6 = note_rows ?w5" "files w6 = files ?w5" "mappings w6 = mappings ?w5" "delete_undos w6 = delete_undos ?w5"
    using restore_focuses [of ?w5 "sn_focus sn"] restored_focus(1) [OF keys rows del] f5(1) by auto
  let ?w7 = "case sn_mapping sn of None \<Rightarrow> w6 | Some m \<Rightarrow> update_mapping (m_id m) (release_mapping (e_id (the (sn_event sn)))) w6"
  have ev: "sn_event sn \<noteq> None" if "sn_mapping sn \<noteq> None" using cal that by (auto simp: calendar_of_def event_mapping_def split: option.splits)
  have m7: "mappings ?w7 = mappings w"
    using restored_mappings [OF _ cal] keys del ev
    by (cases "sn_mapping sn") (auto simp: w6 f5 deleted_rows_def update_mapping_def keys_ok_def)
  have "restore_rows user t sn w' = Inr ?w7"
    using w2(1) nt(1) w6(1) ev by (cases "sn_mapping sn") (auto simp: restore_rows_def task_insertable [OF keys rows del] Let_def)
  moreover have "rows_restored (t_id (sn_task sn)) t w ?w7"
    unfolding rows_restored_def m7
    using t5 w2(3) nt(2) restored_focus(2) [OF keys rows del]
    by (cases "sn_mapping sn") (simp_all add: w6 f5 update_mapping_def)
  moreover have "delete_undos ?w7 = delete_undos w'" by (cases "sn_mapping sn") (simp_all add: w6 f5 update_mapping_def)
  ultimately show ?thesis using m7 by blast
qed

section \<open>A deletion taken back\<close>

lemma undo_transaction_result:
  assumes free: "dl_sync lk" "dl_graph lk" "\<And>k. dl_free lk k" and user: "row_by (\<lambda>u. u_id u = user) (users w1) \<noteq> None"
    and undos: "delete_undos w1 = us @ [u]" "du_id u \<notin> du_id ` set us" "du_user_id u = user" "du_id u = r"
    and time: "clock 1 < du_expires_at u" "clock 3 < du_expires_at u"
    and revs: "list_all (\<lambda>(s, v). has_revision user s w1 \<and> revision_of user s w1 = v) (sn_revisions (du_snapshot u))"
    and deps: "check_dependencies lk user (du_expires_at u) (du_snapshot u) w1 = Inr ()"
    and rest: "restore_rows user (clock 2) (du_snapshot u) w1 = Inr w2" "delete_undos w2 = delete_undos w1"
  shows "undo_transaction lk clock user r (du_snapshot u) (du_expires_at u) w1 = Inr ((), w2\<lparr>delete_undos := us\<rparr>)"
proof -
  have "du_id x \<noteq> r" if "x \<in> set us" for x using undos(2,4) that by (metis image_eqI)
  then have none: "filter (\<lambda>x. du_id x = r \<and> q x) us = []" "row_by (\<lambda>x. du_id x = r \<and> q x) us = None"
    "delete_where (\<lambda>x. du_id x = r \<and> q x) us = us" for q
    by (auto simp: filter_empty_conv row_by_None delete_where_def intro!: filter_True)
  have "row_by (\<lambda>x. du_id x = r \<and> du_user_id x = user \<and> clock 1 < du_expires_at x) (delete_undos w1) = Some u"
    using undos time by (simp add: row_by_append none) (simp add: row_by_def)
  moreover have "filter (\<lambda>x. du_id x = r \<and> du_user_id x = user \<and> clock 3 < du_expires_at x) (delete_undos w2) = [u]"
    using undos time rest(2) by (simp add: none)
  moreover have "delete_where (\<lambda>x. du_id x = r \<and> du_user_id x = user \<and> clock 3 < du_expires_at x) (delete_undos w2) = us"
    using undos time rest(2) by (simp add: delete_where_append none) (simp add: delete_where_def)
  moreover have "lock_delete lk user w1 = Inr ()" using free user by (simp add: lock_delete_def)
  ultimately show ?thesis
    using deps rest(1) check_revisions_pass [OF free(3) revs] by (simp add: undo_transaction_def free(3) Let_def)
qed

text \<open>
  C30. A deletion can be taken back, unless the task's own next occurrence is its parent or source. When such a task
  was deleted reversibly, an undo within the 60 seconds, before
  anything else happens and with every lock free, is accepted (for a task with a Google event: once the provider
  confirms that the remote event is unchanged). It brings back the task, its time block, the notes of both and the
  next occurrence's link, each with its version increased, every attachment link, focus row and event mapping
  exactly as it was, and uses up the receipt, so a second undo finds nothing.
\<close>

theorem deletion_can_be_undone:
  assumes ok: "restorable user task w" and ap: "apart task w"
    and del: "delete_task_with_undo_inner pf cd lk clock size_of user task expected validated w = Inr (Deleted receipt, w1)"
    and free: "dl_sync lk' \<and> dl_graph lk' \<and> (\<forall>k. dl_free lk' k)"
    and time: "clock' 0 < td_expires_at receipt \<and> clock' 1 < td_expires_at receipt \<and> clock' 3 < td_expires_at receipt"
    and google: "\<And>u m. u \<in> set (delete_undos w1) \<Longrightarrow> du_id u = td_id receipt \<Longrightarrow> sn_mapping (du_snapshot u) = Some m
      \<Longrightarrow> \<exists>p1. validated_by service user m (w1, p) = (Inr (), w1, p1)"
  shows "\<exists>w2 p2. undo_task_delete lk' clock' service user (td_id receipt) (w1, p) = (Inr (), w2, p2)
    \<and> rows_restored task (clock' 2) w w2 \<and> (validated = None \<longrightarrow> mappings w2 = mappings w) \<and> delete_undos w2 = delete_undos w
    \<and> undo_task_delete lk' clock' service user (td_id receipt) (w2, p2) = (Inl (NotFound ''task deletion Undo''), w2, p2)"
proof -
  obtain sn w' ms g where sn: "snapshot_of user sn w'" and i: "t_id (sn_task sn) = task"
    and res: "delete_with_receipt lk clock size_of user sn w' = Inr (receipt, w1)"
    and w': "w' = w\<lparr>guard_revisions := g, mappings := ms\<rparr>" and ms: "map unfingered ms = map unfingered (mappings w)" "validated = None \<Longrightarrow> ms = mappings w"
    and owner: "row_by (\<lambda>u. u_id u = user) (users w) \<noteq> None"
    by (rule delete_inner_result [OF del]) blast
  have ids: "map m_id ms = map m_id (mappings w)" "map m_canonical_event_id ms = map m_canonical_event_id (mappings w)"
    using arg_cong [OF ms(1), of "map m_id"] arg_cong [OF ms(1), of "map m_canonical_event_id"] by (simp_all add: comp_def)
  have ok': "restorable user (t_id (sn_task sn)) w'" unfolding w' i by (rule restorable_update [OF ok ids])
  then have keys: "keys_ok w'" by (simp add: restorable_def)
  have ap': "apart (t_id (sn_task sn)) w'" using ap by (simp add: apart_def w' i)
  obtain revs where gone: "deleted_rows user sn (td_expires_at receipt) w' w1"
    and undos: "delete_undos w1 = delete_undos w' @ [\<lparr>du_id = td_id receipt, du_user_id = user, du_task_id = t_id (sn_task sn),
       du_task_title = t_title (sn_task sn), du_snapshot = sn\<lparr>sn_revisions := revs\<rparr>, du_expires_at = td_expires_at receipt\<rparr>]"
    and fresh: "td_id receipt \<notin> du_id ` set (delete_undos w')"
    and revs: "list_all (\<lambda>(s, v). has_revision user s w1 \<and> revision_of user s w1 = v) revs"
    by (rule delete_with_receipt_result [OF keys sn res])
  let ?sn = "sn\<lparr>sn_revisions := revs\<rparr>"
  let ?u = "\<lparr>du_id = td_id receipt, du_user_id = user, du_task_id = t_id (sn_task sn), du_task_title = t_title (sn_task sn), du_snapshot = ?sn, du_expires_at = td_expires_at receipt\<rparr>"
  have f: "\<And>k. dl_free lk' k" using free by simp
  have sn': "snapshot_of user ?sn w'" using sn by (simp add: snapshot_of_def rows_of_def calendar_of_def)
  have gone': "deleted_rows user ?sn (td_expires_at receipt) w' w1"
    using gone by (simp add: deleted_rows_def gone_task_def [abs_def] unsource_def [abs_def])
  obtain w2 where w2: "restore_rows user (clock' 2) ?sn w1 = Inr w2" "rows_restored task (clock' 2) w' w2" "delete_undos w2 = delete_undos w1" "mappings w2 = ms"
    using restore_rows_result [OF _ sn' gone', of "clock' 2"] ok' i by (auto simp: w')
  have u1: "row_by (\<lambda>u. u_id u = user) (users w1) \<noteq> None" using owner gone by (simp add: deleted_rows_def w')
  have tx: "undo_transaction lk' clock' user (td_id receipt) ?sn (td_expires_at receipt) w1 = Inr ((), w2\<lparr>delete_undos := delete_undos w'\<rparr>)"
    using undo_transaction_result [of lk' user w1 "delete_undos w'" ?u "td_id receipt" clock' w2] free f u1 undos fresh time revs w2
      check_dependencies_pass [OF f _ _ sn' gone'] ok' ap' by simp
  have none: "row_by (\<lambda>u. du_id u = td_id receipt \<and> du_user_id u = user) (delete_undos w') = None"
    unfolding row_by_None using fresh by (metis image_eqI)
  have found: "row_by (\<lambda>u. du_id u = td_id receipt \<and> du_user_id u = user) (delete_undos w1) = Some ?u"
    by (simp add: undos row_by_append none) (simp add: row_by_def)
  obtain p2 where p2: "(case sn_mapping sn of None \<Rightarrow> (Inr (), w1, p) | Some m \<Rightarrow> validated_by service user m (w1, p)) = (Inr (), w1, p2)"
    using google [of ?u] undos by (cases "sn_mapping sn") auto
  let ?w2 = "w2\<lparr>delete_undos := delete_undos w'\<rparr>"
  have "undo_task_delete lk' clock' service user (td_id receipt) (w1, p) = (Inr (), ?w2, p2)"
    using found time p2 tx by (simp add: undo_task_delete_def map_err_def)
  moreover have "rows_restored task (clock' 2) w ?w2" using w2(2) ms(1) by (simp add: rows_restored_def w')
  moreover have "validated = None \<longrightarrow> mappings ?w2 = mappings w" using w2(4) ms(2) by simp
  moreover have "undo_task_delete lk' clock' service user (td_id receipt) (?w2, p2) = (Inl (NotFound ''task deletion Undo''), ?w2, p2)"
    by (simp add: undo_task_delete_def none)
  moreover have "delete_undos ?w2 = delete_undos w" by (simp add: w')
  ultimately show ?thesis by blast
qed

text \<open>A task with a note, a file on the note, a place in the daily focus and a next occurrence.\<close>

definition example_noted :: world where
  "example_noted = empty_world\<lparr>drawn := 5,
     users := [\<lparr>u_id = 7, u_email = ''a@b'', u_display_name = ''A'', u_avatar_url = None, u_timezone = ''UTC'', u_google_subject = None, u_updated_at = 0\<rparr>],
     tasks := [example_row 0 None Daily 1024, (example_row 1 None Daily 2048)\<lparr>t_recurrence_source_id := Some 0\<rparr>],
     note_rows := [\<lparr>n_id = 2, n_user_id = 7, n_project_id = None, n_task_id = Some 0, n_event_id = None, n_title = ''n'', n_markdown = [],
       n_created_at = 0, n_updated_at = 0, n_version = 1\<rparr>],
     files := [\<lparr>f_id = 3, f_user_id = 7, f_project_id = None, f_task_id = None, f_note_id = Some 2, f_event_id = None, f_object_key = ''k'',
       f_filename = ''f'', f_content_type = ''c'', f_byte_size = 1, f_created_at = 0\<rparr>],
     focus_tasks := [\<lparr>fo_user_id = 7, fo_focus_date = 1, fo_task_id = 0, fo_position = 0\<rparr>]\<rparr>"

definition free_locks_of :: delete_locks where
  "free_locks_of = \<lparr>dl_sync = True, dl_graph = True, dl_free = (\<lambda>_. True)\<rparr>"

definition example_snapshot :: snapshot where
  "example_snapshot =
     \<lparr>sn_task = example_row 0 None Daily 1024, sn_event = None, sn_notes = note_rows example_noted, sn_files = files example_noted,
      sn_focus = focus_tasks example_noted, sn_successors = [(example_row 1 None Daily 2048)\<lparr>t_recurrence_source_id := Some 0\<rparr>],
      sn_projects = [], sn_task_dependencies = [], sn_calendar = None, sn_mapping = None, sn_google_account = None, sn_revisions = []\<rparr>"

lemma free_example [simp]: "dl_free free_locks_of k" "dl_sync free_locks_of" "dl_graph free_locks_of"
  "lock_rows free_locks_of t key rs = Inr rs"
  by (simp_all add: free_locks_of_def lock_rows_def list_all_iff)

lemma example_fields [simp]:
  "t_id (example_row i p r q) = i" "t_user_id (example_row i p r q) = 7" "t_recurrence_source_id (example_row i p r q) = None"
  "t_project_id (example_row i p r q) = None" "t_recurrence_project_id (example_row i p r q) = None" "t_version (example_row i p r q) = 1"
  "t_parent_task_id (example_row i p r q) = p" "t_title (example_row i p r q) = ''t''"
  by (simp_all add: example_row_def new_task_def)

lemma example_tables [simp]:
  "events example_noted = []" "tasks example_noted = [example_row 0 None Daily 1024, (example_row 1 None Daily 2048)\<lparr>t_recurrence_source_id := Some 0\<rparr>]"
  "delete_undos example_noted = []" "guard_revisions example_noted = []" "mappings example_noted = []" "drawn example_noted = 5" "uuid_supply example_noted = id"
  by (simp_all add: example_noted_def empty_world_def)

lemma example_rows:
  "snapshot_rows free_locks_of 7 (example_row 0 None Daily 1024) example_noted = Inr example_snapshot"
  by (simp add: snapshot_rows_def finders cap_def locked_project_def locked_task_def row_by_def example_snapshot_def)
    (simp add: example_noted_def)

lemma revisions_free:
  assumes "\<And>k. dl_free lk k"
  shows "\<exists>vs w'. revisions lk u scopes w = Inr (vs, w')"
  by (induction scopes arbitrary: w) (auto simp: revision_def assms Let_def split_def, metis surj_pair)

lemma example_deleted:
  obtains receipt w1 where "delete_task_with_undo_inner pf cd free_locks_of (\<lambda>_. 0) (\<lambda>_. 1) 7 0 1 None example_noted = Inr (Deleted receipt, w1)"
    "td_expires_at receipt = 60 * second" "\<And>u. u \<in> set (delete_undos w1) \<Longrightarrow> sn_mapping (du_snapshot u) = None"
proof -
  let ?row = "example_row 0 None Daily 1024"
  obtain revs w0 where revs: "revisions free_locks_of 7 (snapshot_scopes example_snapshot) example_noted = Inr (revs, w0)"
    using revisions_free [OF free_example(1)] by blast
  let ?sn = "example_snapshot\<lparr>sn_revisions := revs\<rparr>"
  have taken: "take_snapshot pf cd free_locks_of 7 ?row example_noted = Inr ((?sn, False), w0)"
    by (simp add: take_snapshot_def example_rows revs) (simp add: example_snapshot_def)
  have w0: "w0 = example_noted\<lparr>guard_revisions := guard_revisions w0\<rparr>" by (rule revisions_result(1)) fact
  have undos: "delete_undos w0 = []" by (subst w0) simp
  have task: "task_by_id 7 0 example_noted = Some ?row" by (simp add: task_by_id_def row_by_def)
  let ?w2 = "w0\<lparr>drawn := Suc (drawn w0), delete_undos := [\<lparr>du_id = uuid_supply w0 (drawn w0), du_user_id = 7, du_task_id = 0, du_task_title = ''t'',
    du_snapshot = ?sn, du_expires_at = 60 * second\<rparr>]\<rparr>"
  let ?w3 = "delete_tasks (\<lambda>t. t_id t = 0 \<and> t_user_id t = 7) ?w2"
  obtain revs' w4 where revs': "revisions free_locks_of 7 (map fst revs) ?w3 = Inr (revs', w4)" using revisions_free [OF free_example(1)] by blast
  have w4: "w4 = ?w3\<lparr>guard_revisions := guard_revisions w4\<rparr>" by (rule revisions_result(1)) fact
  have undos': "delete_undos w4 = delete_undos ?w2" by (subst w4) simp
  have sn: "sn_task ?sn = ?row" "sn_mapping ?sn = None" "sn_revisions ?sn = revs" by (simp_all add: example_snapshot_def)
  let ?r = "\<lparr>td_id = uuid_supply w0 (drawn w0), td_task_id = 0, td_task_title = ''t'', td_expires_at = 60 * second\<rparr>"
  obtain w5 where "delete_with_receipt free_locks_of (\<lambda>_. 0) (\<lambda>_. 1) 7 ?sn w0 = Inr (?r, w5)"
    and "\<And>u. u \<in> set (delete_undos w5) \<Longrightarrow> sn_mapping (du_snapshot u) = None"
    by (simp add: delete_with_receipt_def sn undos new_uuid_def Let_def revs' SNAPSHOT_BYTES_def undos' update_where_def)
      (simp add: example_snapshot_def)
  moreover have "lock_delete free_locks_of 7 example_noted = Inr ()"
    by (simp add: lock_delete_def example_noted_def empty_world_def row_by_def)
  ultimately show ?thesis
    by (intro that [of ?r w5]) (simp_all add: delete_task_with_undo_inner_def task taken live_receipts_def SNAPSHOT_BYTES_def OWNER_BYTES_def)
qed

theorem deletion_can_be_undone_witness:
  "\<exists>receipt w1 w2 p2. delete_task_with_undo_inner (ascii_platform 0) unary_codec free_locks_of (\<lambda>_. 0) (\<lambda>_. 1) 7 0 1 None example_noted = Inr (Deleted receipt, w1)
    \<and> undo_task_delete free_locks_of (\<lambda>_. 1) None 7 (td_id receipt) (w1, ()) = (Inr (), w2, p2)
    \<and> rows_restored 0 1 example_noted w2"
proof -
  obtain receipt w1 where del: "delete_task_with_undo_inner (ascii_platform 0) unary_codec free_locks_of (\<lambda>_. 0) (\<lambda>_. 1) 7 0 1 None example_noted = Inr (Deleted receipt, w1)"
    and t: "td_expires_at receipt = 60 * second" and m: "\<And>u. u \<in> set (delete_undos w1) \<Longrightarrow> sn_mapping (du_snapshot u) = None"
    by (rule example_deleted [of "ascii_platform 0" unary_codec]) blast
  have ok: "restorable 7 0 example_noted"
    by (simp add: restorable_def keys_ok_def files_ok_def lineage_ok_def owners_ok_def unique_nullable_def) (simp add: example_noted_def)
  have ap: "apart 0 example_noted" by (simp add: apart_def example_noted_def)
  have free: "dl_sync free_locks_of \<and> dl_graph free_locks_of \<and> (\<forall>k. dl_free free_locks_of k)" by simp
  have time: "1 < td_expires_at receipt \<and> 1 < td_expires_at receipt \<and> 1 < td_expires_at receipt" by (simp add: t second_def)
  from deletion_can_be_undone [OF ok ap del free, where clock' = "\<lambda>_. 1" and service = None and p = "()"] time m del
  show ?thesis by fastforce
qed

end
