(* ===== verification/TasksClient.thy ===== *)
theory TasksClient
  imports CalendarSync
begin

text \<open>
  \<open>google_tasks_client.rs\<close>: the requests the server sends to Google Tasks. The provider is a state machine as in
  \<open>CalendarSync\<close>: an exchange gives no answer, or a status with the bytes that arrived and the JSON value they hold.
  \<open>due_date\<close> is chrono's \<open>parse_from_rfc3339\<close> with \<open>date_naive\<close>; the body of a write is the fields it carries
  (\<open>google_body\<close>) and the notes of a creation. The loop over pages ends on its own: it stops at a page token it has
  seen and after a thousand of them, which is its termination proof.
\<close>

section \<open>Requests and answers\<close>

datatype tasks_error =
    Authorization | NotFoundError | ConflictError | RateLimited | Unavailable | InvalidResponse | InvalidInput
  | CapacityError | AmbiguousCreate

fun show_tasks_error :: "tasks_error \<Rightarrow> string" where
  "show_tasks_error Authorization = ''Google Tasks access is unavailable. Check permission and API enablement.''"
| "show_tasks_error NotFoundError = ''The Google task or list no longer exists.''"
| "show_tasks_error ConflictError = ''The Google task changed. Refresh before trying again.''"
| "show_tasks_error RateLimited = ''Google Tasks is rate limited. Try again later.''"
| "show_tasks_error Unavailable = ''Google Tasks is temporarily unavailable.''"
| "show_tasks_error InvalidResponse = ''Google Tasks returned an incomplete or invalid response.''"
| "show_tasks_error InvalidInput = ''The task cannot be represented safely in Google Tasks.''"
| "show_tasks_error CapacityError = ''The Google task list exceeds the supported synchronization size.''"
| "show_tasks_error AmbiguousCreate = ''Google may have created the task or list. Reconcile it before creating another copy.''"

record google_task =
  gtk_id :: string
  gtk_etag :: "string option"
  gtk_title :: string
  gtk_due :: "string option"
  gtk_status :: "string option"
  gtk_deleted :: bool
  gtk_hidden :: bool
  gtk_notes :: "string option"
  gtk_assigned :: bool

record google_task_list =
  gtl_id :: string
  gtl_title :: string

datatype tasks_body = NoTasksBody | ListTitleBody string | TaskBody task_fields "string option"

record tasks_request =
  tq_method :: string
  tq_segments :: "string list"
  tq_query :: "(string \<times> string) list"
  tq_token :: string
  tq_body :: tasks_body
  tq_if_match :: "string option"

datatype tasks_content =
    TaskContent google_task
  | TaskPage "google_task list" "string option"
  | ListContent google_task_list
  | ListPage "google_task_list list" "string option"
  | Garbage

record tasks_response =
  tr_status :: nat
  tr_size :: int
  tr_complete :: bool
  tr_content :: tasks_content

type_synonym 'p tasks_provider = "tasks_request \<Rightarrow> 'p \<Rightarrow> tasks_response option \<times> timestamp \<times> 'p"
type_synonym ('p, 'a) client = "world \<times> 'p \<Rightarrow> (tasks_error, 'a) res \<times> world \<times> 'p"

definition MAX_PAGE_BYTES :: int where
  "MAX_PAGE_BYTES = 2 * 1024 * 1024"

definition MAX_LIST_BYTES :: int where
  "MAX_LIST_BYTES = 32 * 1024 * 1024"

definition MAX_ITEMS :: nat where
  "MAX_ITEMS = 20000"

definition client_bind :: "('p, 'a) client \<Rightarrow> ('a \<Rightarrow> ('p, 'b) client) \<Rightarrow> ('p, 'b) client" where
  "client_bind m f s = (case m s of (Inl e, s) \<Rightarrow> (Inl e, s) | (Inr a, s) \<Rightarrow> f a s)"

definition client_of :: "(tasks_error, 'a) res \<Rightarrow> ('p, 'a) client" where
  "client_of r s = (r, s)"

text \<open>The fields of a task at Google.\<close>

definition google_fields :: "(string \<Rightarrow> date option) \<Rightarrow> google_task \<Rightarrow> (tasks_error, task_fields) res" where
  "google_fields due_date t =
     bind_res (require (\<not> (gtk_id t = [] \<or> gtk_deleted t \<or> gtk_assigned t)) InvalidInput) (\<lambda>_.
     bind_res (if gtk_status t = Some ''completed'' then Inr True
               else if gtk_status t = Some ''needsAction'' then Inr False
               else Inl InvalidResponse) (\<lambda>completed.
     bind_res (case gtk_due t of
                 None \<Rightarrow> Inr None
               | Some due \<Rightarrow> bind_res (ok_or (due_date due) InvalidResponse) (\<lambda>d. Inr (Some d))) (\<lambda>date.
     let f = \<lparr>tf_title = trim (gtk_title t), tf_date = date, tf_completed = completed\<rparr>
     in bind_res (require (valid_fields f) InvalidInput) (\<lambda>_. Inr f))))"

definition safe_segments :: "string list \<Rightarrow> bool" where
  "safe_segments segments \<longleftrightarrow> list_all (\<lambda>s. s \<noteq> [] \<and> s \<noteq> ''.'' \<and> s \<noteq> ''..'') segments"

definition url :: "string list \<Rightarrow> (tasks_error, string list) res" where
  "url segments = bind_res (require (safe_segments segments) InvalidInput) (\<lambda>_. Inr segments)"

definition status_error :: "bool \<Rightarrow> nat \<Rightarrow> tasks_error" where
  "status_error creating status =
     (if status \<in> {401, 403} then Authorization
      else if status \<in> {404, 410} then NotFoundError
      else if status \<in> {412, 409} then ConflictError
      else if status = 429 then RateLimited
      else if 400 \<le> status \<and> status \<le> 499 then InvalidInput
      else if creating then AmbiguousCreate
      else Unavailable)"

definition send_tasks :: "'p tasks_provider \<Rightarrow> tasks_request \<Rightarrow> ('p, tasks_response) client" where
  "send_tasks http req s =
     (if tq_token req = [] then (Inl Authorization, s)
      else let creating = (tq_method req = ''POST'');
               (answer, t, p) = http req (snd s);
               s = ((fst s)\<lparr>now := t\<rparr>, p)
           in case answer of
                None \<Rightarrow> (Inl (if creating then AmbiguousCreate else Unavailable), s)
              | Some r \<Rightarrow>
                  if \<not> (200 \<le> tr_status r \<and> tr_status r \<le> 299) then (Inl (status_error creating (tr_status r)), s)
                  else if MAX_PAGE_BYTES < tr_size r then (Inl (if creating then AmbiguousCreate else CapacityError), s)
                  else if \<not> tr_complete r then (Inl (if creating then AmbiguousCreate else Unavailable), s)
                  else (Inr r, s))"

section \<open>Lists\<close>

function pages_inner ::
  "'p tasks_provider \<Rightarrow> (tasks_content \<Rightarrow> ('a list \<times> string option) option) \<Rightarrow> timestamp \<Rightarrow> string \<Rightarrow> string list
   \<Rightarrow> (string \<times> string) list \<Rightarrow> 'a list \<Rightarrow> string list \<Rightarrow> int \<Rightarrow> ('p, 'a list) client" where
  "pages_inner http decode deadline token segments query items seen bytes_read s =
     (case send_tasks http \<lparr>tq_method = ''GET'', tq_segments = segments,
             tq_query = query @ [(''maxResults'', ''100'')] @ (case seen of [] \<Rightarrow> [] | cursor # _ \<Rightarrow> [(''pageToken'', cursor)]),
             tq_token = token, tq_body = NoTasksBody, tq_if_match = None\<rparr> s of
        (answer, s) \<Rightarrow>
          if deadline < now (fst s) then (Inl Unavailable, s)
          else case answer of
            Inl e \<Rightarrow> (Inl e, s)
          | Inr r \<Rightarrow>
              (let bytes_read = bytes_read + tr_size r in
               if MAX_LIST_BYTES < bytes_read then (Inl CapacityError, s)
               else case decode (tr_content r) of
                 None \<Rightarrow> (Inl InvalidResponse, s)
               | Some (page, next_page_token) \<Rightarrow>
                   if MAX_ITEMS < length items + length page then (Inl CapacityError, s)
                   else case next_page_token of
                     None \<Rightarrow> (Inr (items @ page), s)
                   | Some cursor \<Rightarrow>
                       if \<not> (cursor \<noteq> [] \<and> cursor \<notin> set seen) then (Inl InvalidResponse, s)
                       else if 1000 < length (cursor # seen) then (Inl CapacityError, s)
                       else pages_inner http decode deadline token segments query (items @ page) (cursor # seen) bytes_read s))"
  by pat_completeness auto

termination
  by (relation "measure (\<lambda>(http, decode, deadline, token, segments, query, items, seen, bytes_read, s). 1001 - length seen)") auto

declare pages_inner.simps [simp del]

definition pages ::
  "'p tasks_provider \<Rightarrow> (tasks_content \<Rightarrow> ('a list \<times> string option) option) \<Rightarrow> string \<Rightarrow> string list
   \<Rightarrow> (string \<times> string) list \<Rightarrow> ('p, 'a list) client" where
  "pages http decode token segments query s =
     pages_inner http decode (now (fst s) + 120 * second) token segments query [] [] 0 s"

definition list_page :: "tasks_content \<Rightarrow> (google_task_list list \<times> string option) option" where
  "list_page c = (case c of ListPage items cursor \<Rightarrow> Some (items, cursor) | _ \<Rightarrow> None)"

definition tasks_page :: "tasks_content \<Rightarrow> (google_task list \<times> string option) option" where
  "tasks_page c = (case c of TaskPage items cursor \<Rightarrow> Some (items, cursor) | _ \<Rightarrow> None)"

definition client_lists :: "'p tasks_provider \<Rightarrow> string \<Rightarrow> ('p, google_task_list list) client" where
  "client_lists http token =
     client_bind (client_of (url [''users'', ''@me'', ''lists''])) (\<lambda>segments. pages http list_page token segments [])"

definition client_tasks :: "'p tasks_provider \<Rightarrow> string \<Rightarrow> string \<Rightarrow> ('p, google_task list) client" where
  "client_tasks http token list =
     client_bind (client_of (url [''lists'', list, ''tasks''])) (\<lambda>segments.
     client_bind (pages http tasks_page token segments
       [(''showCompleted'', ''true''), (''showHidden'', ''true''), (''showDeleted'', ''true''), (''showAssigned'', ''false'')]) (\<lambda>ts.
     client_of (bind_res (require ([] \<notin> set (map gtk_id ts) \<and> distinct (map gtk_id ts)) InvalidResponse) (\<lambda>_. Inr ts))))"

section \<open>Single tasks\<close>

definition task_content :: "tasks_error \<Rightarrow> tasks_response \<Rightarrow> (tasks_error, google_task) res" where
  "task_content e r = (case tr_content r of TaskContent t \<Rightarrow> Inr t | _ \<Rightarrow> Inl e)"

definition no_etag :: "google_task \<Rightarrow> bool" where
  "no_etag t \<longleftrightarrow> gtk_etag t = None \<or> gtk_etag t = Some []"

definition client_get :: "'p tasks_provider \<Rightarrow> string \<Rightarrow> string \<Rightarrow> string \<Rightarrow> ('p, google_task) client" where
  "client_get http token list task =
     client_bind (client_of (url [''lists'', list, ''tasks'', task])) (\<lambda>segments.
     client_bind (send_tasks http \<lparr>tq_method = ''GET'', tq_segments = segments, tq_query = [], tq_token = token,
       tq_body = NoTasksBody, tq_if_match = None\<rparr>) (\<lambda>r.
     client_of (bind_res (task_content InvalidResponse r) (\<lambda>remote.
       bind_res (require (gtk_id remote = task) InvalidResponse) (\<lambda>_. Inr remote)))))"

definition client_create_list :: "'p tasks_provider \<Rightarrow> string \<Rightarrow> ('p, google_task_list) client" where
  "client_create_list http token =
     client_bind (client_of (url [''users'', ''@me'', ''lists''])) (\<lambda>segments.
     client_bind (send_tasks http \<lparr>tq_method = ''POST'', tq_segments = segments, tq_query = [], tq_token = token,
       tq_body = ListTitleBody ''rakkio'', tq_if_match = None\<rparr>) (\<lambda>r.
     client_of (case tr_content r of
                  ListContent l \<Rightarrow> bind_res (require (gtl_id l \<noteq> []) AmbiguousCreate) (\<lambda>_. Inr l)
                | _ \<Rightarrow> Inl AmbiguousCreate)))"

definition client_create ::
  "'p tasks_provider \<Rightarrow> string \<Rightarrow> string \<Rightarrow> task_fields \<Rightarrow> string \<Rightarrow> ('p, google_task) client" where
  "client_create http token list f reference =
     client_bind (client_of (require (valid_fields f \<and> chars_count reference \<le> 8192) InvalidInput)) (\<lambda>_.
     client_bind (client_of (url [''lists'', list, ''tasks''])) (\<lambda>segments.
     client_bind (send_tasks http \<lparr>tq_method = ''POST'', tq_segments = segments, tq_query = [], tq_token = token,
       tq_body = TaskBody f (Some reference), tq_if_match = None\<rparr>) (\<lambda>r.
     client_of (bind_res (task_content AmbiguousCreate r) (\<lambda>remote.
       bind_res (require (\<not> (gtk_id remote = [] \<or> no_etag remote)) AmbiguousCreate) (\<lambda>_. Inr remote))))))"

definition client_update ::
  "'p tasks_provider \<Rightarrow> string \<Rightarrow> string \<Rightarrow> string \<Rightarrow> string \<Rightarrow> task_fields \<Rightarrow> ('p, google_task) client" where
  "client_update http token list task etag f =
     client_bind (client_of (require (\<not> (trim etag = [] \<or> trim etag = ''*'' \<or> \<not> valid_fields f)) InvalidInput)) (\<lambda>_.
     client_bind (client_of (url [''lists'', list, ''tasks'', task])) (\<lambda>segments.
     client_bind (send_tasks http \<lparr>tq_method = ''PATCH'', tq_segments = segments, tq_query = [], tq_token = token,
       tq_body = TaskBody f None, tq_if_match = Some etag\<rparr>) (\<lambda>r.
     client_of (bind_res (task_content InvalidResponse r) (\<lambda>remote.
       bind_res (require (\<not> (gtk_id remote \<noteq> task \<or> no_etag remote)) InvalidResponse) (\<lambda>_. Inr remote))))))"

end
