(* ===== verification/TasksStore.thy ===== *)
theory TasksStore
  imports TaskStore TasksClient
begin

text \<open>
  \<open>google_tasks_store.rs\<close>: the connection to a Google task list, the choices of the user about conflicts and uncertain
  creations, and the translation between a deadline and a day. The time zones of PostgreSQL are a parameter:
  \<open>tz_local\<close> is \<open>timestamptz AT TIME ZONE z\<close>, \<open>tz_instant\<close> is \<open>timestamp AT TIME ZONE z\<close>. Whether the advisory lock and
  the row lock are free is an argument, as the statements do not wait for them.
\<close>

record tasks_env =
  tz_local :: "string \<Rightarrow> timestamp \<Rightarrow> int"
  tz_instant :: "string \<Rightarrow> int \<Rightarrow> timestamp"
  tz_known :: "string \<Rightarrow> bool"
  due_date :: "string \<Rightarrow> date option"

record tasks_status =
  gs_authorized :: bool
  gs_enabled :: bool
  gs_task_list_id :: "string option"
  gs_timezone :: "string option"
  gs_list_create_attempted :: bool
  gs_last_synced_at :: "timestamp option"
  gs_last_error :: "string option"
  gs_version :: int

record google_task_recovery =
  gy_link_id :: uuid
  gy_task_id :: uuid
  gy_title :: string

section \<open>The connection\<close>

definition google_task_recoveries :: "uuid \<Rightarrow> world \<Rightarrow> google_task_recovery list app_result" where
  "google_task_recoveries user w =
     (let rows = take 100 (sort_key gl_id (filter (\<lambda>l. gl_user_id l = user \<and> gl_phase l = Creating) (gt_links w)))
      in if list_all (\<lambda>l. gl_baseline l \<noteq> None) rows
         then Inr (map (\<lambda>l. \<lparr>gy_link_id = gl_id l, gy_task_id = gl_task_id l, gy_title = tf_title (the (gl_baseline l))\<rparr>) rows)
         else Inl (Database (OtherSqlxError ''ColumnDecode'')))"

definition sync_active :: app_error where
  "sync_active = Conflict ''Synchronization is active. Try again shortly.''"

definition config_busy :: app_error where
  "config_busy = Conflict ''Google Tasks settings are busy. Try again shortly.''"

definition update_links :: "(gt_link_row \<Rightarrow> bool) \<Rightarrow> (gt_link_row \<Rightarrow> gt_link_row) \<Rightarrow> world \<Rightarrow> world" where
  "update_links p f w = w\<lparr>gt_links := update_where p f (gt_links w)\<rparr>"

definition set_detached :: "gt_link_row \<Rightarrow> gt_link_row" where
  "set_detached l = l\<lparr>gl_phase := Detached, gl_last_error := None, gl_conflict := None, gl_resolution := None\<rparr>"

definition deletion_held :: "uuid \<Rightarrow> uuid \<Rightarrow> timestamp \<Rightarrow> world \<Rightarrow> bool" where
  "deletion_held user task clock w \<longleftrightarrow>
     (\<exists>u \<in> set (delete_undos w). du_user_id u = user \<and> du_task_id u = task \<and> clock < du_expires_at u)"

definition leave_google_task_unlinked ::
  "bool \<Rightarrow> bool \<Rightarrow> timestamp \<Rightarrow> uuid \<Rightarrow> uuid \<Rightarrow> world \<Rightarrow> unit store_result" where
  "leave_google_task_unlinked sync_free row_free clock user link w =
     bind_res (require sync_free sync_active) (\<lambda>_.
     let hit = (\<lambda>l. gl_user_id l = user \<and> gl_id l = link \<and> gl_phase l = Creating
                    \<and> \<not> deletion_held (gl_user_id l) (gl_task_id l) clock w)
     in bind_res (require (filter hit (gt_links w) = [] \<or> row_free) config_busy) (\<lambda>_.
        bind_res (require (length (filter hit (gt_links w)) = 1)
          (Conflict ''Recovery changed or deletion Undo is active. Refresh before choosing.'')) (\<lambda>_.
        Inr ((), update_links hit set_detached w))))"

definition tasks_authorized :: "uuid \<Rightarrow> world \<Rightarrow> bool" where
  "tasks_authorized user w \<longleftrightarrow> (\<exists>g \<in> set (google_accounts w). ga_user_id g = user \<and> TASKS_SCOPE \<in> set (ga_scopes g))"

definition connection_of :: "uuid \<Rightarrow> world \<Rightarrow> gt_connection_row option" where
  "connection_of user w = row_by (\<lambda>c. gc_user_id c = user) (gt_connections w)"

definition google_tasks_status :: "uuid \<Rightarrow> world \<Rightarrow> tasks_status app_result" where
  "google_tasks_status user w =
     bind_res (require (user_exists user w) (NotFound ''user'')) (\<lambda>_.
     Inr (case connection_of user w of
            None \<Rightarrow> \<lparr>gs_authorized = tasks_authorized user w, gs_enabled = False, gs_task_list_id = None, gs_timezone = None,
                     gs_list_create_attempted = False, gs_last_synced_at = None, gs_last_error = None, gs_version = 0\<rparr>
          | Some c \<Rightarrow> \<lparr>gs_authorized = tasks_authorized user w, gs_enabled = gc_enabled c, gs_task_list_id = gc_task_list_id c,
                       gs_timezone = gc_timezone c, gs_list_create_attempted = gc_list_create_attempted c,
                       gs_last_synced_at = gc_last_synced_at c, gs_last_error = gc_last_error c, gs_version = gc_version c\<rparr>))"

text \<open>The checks of an enabled connection: what is stored as list and time zone.\<close>

definition selected_list ::
  "tasks_env \<Rightarrow> uuid \<Rightarrow> (string \<times> string) option \<Rightarrow> gt_connection_row option \<Rightarrow> world \<Rightarrow> (string \<times> string) app_result" where
  "selected_list env user selected previous w =
     bind_res (ok_or selected (Validation ''Choose a Google Tasks list and timezone.'')) (\<lambda>(list, timezone).
     bind_res (require (\<not> (trim list = [] \<or> 2048 < length list \<or> 128 < length timezone))
       (Validation ''Invalid Google Tasks list or timezone.'')) (\<lambda>_.
     bind_res (require (tasks_authorized user w) (Forbidden ''Google Tasks permission is required'')) (\<lambda>_.
     bind_res (require (tz_known env timezone) (Validation ''Choose a valid IANA timezone.'')) (\<lambda>_.
     bind_res (require (\<not> ((case previous of None \<Rightarrow> False
           | Some c \<Rightarrow> (gc_timezone c \<noteq> None \<and> gc_timezone c \<noteq> Some timezone)
                       \<or> (gc_task_list_id c \<noteq> None \<and> gc_task_list_id c \<noteq> Some list))
         \<and> (\<exists>l \<in> set (gt_links w). gl_user_id l = user)))
       (Conflict ''Keep the current sync list and timezone while tasks are linked.'')) (\<lambda>_.
     Inr (list, timezone))))))"

definition new_connection :: "uuid \<Rightarrow> bool \<Rightarrow> string option \<Rightarrow> string option \<Rightarrow> gt_connection_row" where
  "new_connection user enabled list timezone =
     \<lparr>gc_user_id = user, gc_enabled = enabled, gc_task_list_id = list, gc_timezone = timezone, gc_list_create_attempted = False,
      gc_last_synced_at = None, gc_last_error = None, gc_change_revision = 0, gc_scan_revision = None,
      gc_scan_link_cursor = None, gc_scan_import_cursor = None, gc_scan_had_errors = False, gc_version = 1\<rparr>"

definition set_connection :: "bool \<Rightarrow> string option \<Rightarrow> string option \<Rightarrow> gt_connection_row \<Rightarrow> gt_connection_row" where
  "set_connection enabled list timezone c =
     c\<lparr>gc_enabled := enabled, gc_task_list_id := (case list of None \<Rightarrow> gc_task_list_id c | Some l \<Rightarrow> Some l),
       gc_timezone := (case timezone of None \<Rightarrow> gc_timezone c | Some z \<Rightarrow> Some z), gc_scan_revision := None,
       gc_scan_link_cursor := None, gc_scan_import_cursor := None, gc_scan_had_errors := False,
       gc_version := gc_version c + 1\<rparr>"

definition configure_google_tasks ::
  "tasks_env \<Rightarrow> bool \<Rightarrow> bool \<Rightarrow> uuid \<Rightarrow> bool \<Rightarrow> (string \<times> string) option \<Rightarrow> int \<Rightarrow> world \<Rightarrow> tasks_status store_result" where
  "configure_google_tasks env sync_free row_free user enabled selected expected w =
     bind_res (require sync_free sync_active) (\<lambda>_.
     let previous = connection_of user w
     in bind_res (require (previous = None \<or> row_free) config_busy) (\<lambda>_.
        bind_res (require ((case previous of None \<Rightarrow> 0 | Some c \<Rightarrow> gc_version c) = expected)
          (Conflict ''Google Tasks settings changed. Refresh before saving.'')) (\<lambda>_.
        bind_res (if enabled then bind_res (selected_list env user selected previous w) (\<lambda>(l, z). Inr (Some l, Some z))
                  else Inr (None, None)) (\<lambda>(list, timezone).
        bind_res (require (user_exists user w) (Database (DatabaseError None (Some ''23503'')))) (\<lambda>_.
        let w = (case previous of
                   None \<Rightarrow> w\<lparr>gt_connections := gt_connections w @ [new_connection user enabled list timezone]\<rparr>
                 | Some _ \<Rightarrow> w\<lparr>gt_connections := update_where (\<lambda>c. gc_user_id c = user)
                                (set_connection enabled list timezone) (gt_connections w)\<rparr>)
        in bind_res (google_tasks_status user w) (\<lambda>s. Inr (s, w)))))))"

section \<open>Conflicts\<close>

definition google_task_conflicts :: "uuid \<Rightarrow> world \<Rightarrow> google_task_conflict list" where
  "google_task_conflicts user w =
     map (\<lambda>l. the (gl_conflict l)) (take 100 (sort_key gl_id
       (filter (\<lambda>l. gl_user_id l = user \<and> gl_conflict l \<noteq> None \<and> gl_resolution l = None) (gt_links w))))"

definition resolvable :: "uuid \<Rightarrow> uuid \<Rightarrow> uuid \<Rightarrow> world \<Rightarrow> gt_link_row \<Rightarrow> bool" where
  "resolvable user link conflict w l \<longleftrightarrow>
     gl_id l = link \<and> gl_user_id l = user \<and> gl_resolution l = None \<and> gl_phase l = Linked
     \<and> (case gl_conflict l of None \<Rightarrow> False
          | Some x \<Rightarrow> gx_id x = conflict
              \<and> (\<exists>t \<in> set (tasks w). t_id t = gl_task_id l \<and> t_user_id t = user \<and> t_version t = gx_task_version x))
     \<and> (\<exists>c \<in> set (gt_connections w). gc_user_id c = user \<and> gc_enabled c \<and> gc_task_list_id c = Some (gl_task_list_id l))
     \<and> tasks_authorized user w"

definition resolve_google_task_conflict ::
  "bool \<Rightarrow> bool \<Rightarrow> uuid \<Rightarrow> uuid \<Rightarrow> uuid \<Rightarrow> task_conflict_choice \<Rightarrow> world \<Rightarrow> unit store_result" where
  "resolve_google_task_conflict sync_free row_free user link conflict choice w =
     bind_res (require sync_free sync_active) (\<lambda>_.
     let hit = resolvable user link conflict w
     in bind_res (require (filter hit (gt_links w) = [] \<or> row_free) config_busy) (\<lambda>_.
        bind_res (require (length (filter hit (gt_links w)) = 1)
          (Conflict ''This conflict changed or Tasks sync is disabled. Refresh before choosing.'')) (\<lambda>_.
        let w = update_links hit (\<lambda>l. l\<lparr>gl_resolution := Some choice\<rparr>) w;
            w = w\<lparr>gt_connections := update_where (\<lambda>c. gc_user_id c = user)
                    (\<lambda>c. c\<lparr>gc_change_revision := gc_change_revision c + 1\<rparr>) (gt_connections w)\<rparr>
        in Inr ((), insert_job user None ''tasks_sync'' (''tasks-conflict:'' @ show_uuid conflict) w))))"

section \<open>Days and deadlines\<close>

definition deadline_wall :: "tasks_env \<Rightarrow> string \<Rightarrow> timestamp option \<Rightarrow> date \<Rightarrow> int" where
  "deadline_wall env z existing date =
     date * day + (case existing of None \<Rightarrow> 86399 * second | Some e \<Rightarrow> tz_local env z e mod day)"

definition chosen_instant :: "tasks_env \<Rightarrow> string \<Rightarrow> timestamp option \<Rightarrow> int \<Rightarrow> timestamp" where
  "chosen_instant env z existing wall =
     (case existing of
        None \<Rightarrow> tz_instant env z wall
      | Some e \<Rightarrow>
          (let same_offset = wall - (tz_local env z e - e)
           in if tz_local env z same_offset = wall then same_offset else tz_instant env z wall))"

definition google_task_deadline ::
  "tasks_env \<Rightarrow> date option \<Rightarrow> timestamp option \<Rightarrow> string \<Rightarrow> timestamp option app_result" where
  "google_task_deadline env date existing z =
     (case date of
        None \<Rightarrow> Inr None
      | Some d \<Rightarrow>
          (let wall = deadline_wall env z existing d; instant = chosen_instant env z existing wall
           in bind_res (require (tz_local env z instant = wall)
                (Conflict ''That date has no matching local deadline time. Choose a deadline in prosepect.'')) (\<lambda>_.
              Inr (Some instant))))"

definition local_date :: "tasks_env \<Rightarrow> string \<Rightarrow> timestamp option \<Rightarrow> date option" where
  "local_date env z due_at = map_option (\<lambda>t. tz_local env z t div day) due_at"

definition google_task_fields :: "tasks_env \<Rightarrow> string \<Rightarrow> task_row \<Rightarrow> task_fields" where
  "google_task_fields env z t =
     \<lparr>tf_title = t_title t, tf_date = local_date env z (t_due_at t), tf_completed = (t_status t = Completed)\<rparr>"

end
