(* ===== verification/TasksSync.thy ===== *)
theory TasksSync
  imports TasksStore TaskInvariant
begin

text \<open>
  \<open>google_tasks_sync.rs\<close>: one run of the synchronization with Google Tasks. A link joins a task with its copy at
  Google and is prepared, being created, linked or detached. A run reads the whole list, prepares links for tasks that
  have none, works through at most ten links and ten imports and queues a continuation when more is left. Job steps are
  those of \<open>CalendarSync\<close>; an error of a link is recorded at the link and the run goes on.
\<close>

definition BATCH_SIZE :: nat where
  "BATCH_SIZE = 10"

record batch_progress =
  bp_revision :: int
  bp_link_cursor :: "uuid option"
  bp_import_cursor :: "string option"
  bp_more :: bool
  bp_had_errors :: bool

record task_sync_context =
  tx_user :: uuid
  tx_list :: string
  tx_timezone :: string
  tx_token :: string
  tx_remote :: "google_task list"

section \<open>Steps\<close>

definition job_client :: "('p, 'a) client \<Rightarrow> ('p, 'a) job" where
  "job_client m s = (case m s of (Inl e, s) \<Rightarrow> (Inl (show_tasks_error e), s) | (Inr a, s) \<Rightarrow> (Inr a, s))"

definition job_try :: "('p, 'a) client \<Rightarrow> ('p, (tasks_error, 'a) res) job" where
  "job_try m s = (case m s of (r, s) \<Rightarrow> (Inr r, s))"

definition tasks_result :: "(tasks_error, 'a) res \<Rightarrow> ('p, 'a) job" where
  "tasks_result r = (case r of Inl e \<Rightarrow> job_fail (show_tasks_error e) | Inr a \<Rightarrow> job_return a)"

definition job_context :: "'a option \<Rightarrow> string \<Rightarrow> ('p, 'a) job" where
  "job_context x msg = job_of (ok_or x msg)"

definition this_link :: "uuid \<Rightarrow> uuid \<Rightarrow> gt_link_row \<Rightarrow> bool" where
  "this_link user i l \<longleftrightarrow> gl_id l = i \<and> gl_user_id l = user"

definition set_linked :: "google_task \<Rightarrow> string \<Rightarrow> task_fields \<Rightarrow> gt_link_row \<Rightarrow> gt_link_row" where
  "set_linked task etag f l =
     l\<lparr>gl_phase := Linked, gl_external_task_id := Some (gtk_id task), gl_external_etag := Some etag, gl_baseline := Some f,
       gl_conflict := None, gl_resolution := None, gl_last_error := None\<rparr>"

text \<open>UNIQUE (user\_id, task\_list\_id, external\_task\_id)\<close>

definition identity_taken :: "uuid \<Rightarrow> uuid \<Rightarrow> string \<Rightarrow> world \<Rightarrow> bool" where
  "identity_taken user i external w \<longleftrightarrow>
     (\<exists>l \<in> set (gt_links w). this_link user i l
        \<and> (\<exists>k \<in> set (gt_links w). gl_id k \<noteq> i \<and> gl_user_id k = user \<and> gl_task_list_id k = gl_task_list_id l
             \<and> gl_external_task_id k = Some external))"

definition record_google_task_link :: "uuid \<Rightarrow> uuid \<Rightarrow> google_task \<Rightarrow> task_fields \<Rightarrow> ('p, unit) job" where
  "record_google_task_link user link task f =
     (case gtk_etag task of
        Some (c # etag) \<Rightarrow>
          job_store (\<lambda>w. if identity_taken user link (gtk_id task) w
                         then (Inl (display_error (unique_violation ''google_task_links_user_id_task_list_id_external_task_id_key'')), w)
                         else (Inr (), update_links (this_link user link) (set_linked task (c # etag) f) w))
      | _ \<Rightarrow> job_fail ''Missing acknowledged ETag'')"

definition detach_google_task :: "uuid \<Rightarrow> uuid \<Rightarrow> ('p, unit) job" where
  "detach_google_task user link = job_update (update_links (this_link user link) set_detached)"

section \<open>One link\<close>

text \<open>A creation whose outcome is unknown: the note with the link's reference identifies the copy.\<close>

definition recover_creation :: "tasks_env \<Rightarrow> task_sync_context \<Rightarrow> gt_link_row \<Rightarrow> ('p, string option) job" where
  "recover_creation env ctx link =
     job_bind (job_context (gl_create_reference link) ''Missing create reference'') (\<lambda>reference.
     case filter (\<lambda>t. gtk_notes t = Some reference) (tx_remote ctx) of
       [candidate] \<Rightarrow>
         job_bind (job_context (gl_baseline link) ''Missing create baseline'') (\<lambda>sent.
         job_bind (tasks_result (google_fields (due_date env) candidate)) (\<lambda>_.
         job_bind (record_google_task_link (tx_user ctx) (gl_id link) candidate sent) (\<lambda>_.
         job_return (Some (gtk_id candidate)))))
     | _ \<Rightarrow> job_fail ''Uncertain create requires explicit recovery'')"

definition proven_rejection :: "tasks_error \<Rightarrow> bool" where
  "proven_rejection e \<longleftrightarrow> e \<in> {Authorization, NotFoundError, InvalidInput, RateLimited, ConflictError}"

definition claim_creation :: "uuid \<Rightarrow> gt_link_row \<Rightarrow> task_fields \<Rightarrow> ('p, unit) job" where
  "claim_creation user link local =
     job_store (\<lambda>w. let hit = (\<lambda>l. this_link user (gl_id link) l \<and> gl_phase l = Prepared)
       in (if length (filter hit (gt_links w)) = 1 then Inr () else Inl ''Create already claimed'',
           update_links hit (\<lambda>l. l\<lparr>gl_phase := Creating, gl_baseline := Some local\<rparr>) w))"

definition create_copy ::
  "'p tasks_provider \<Rightarrow> tasks_env \<Rightarrow> task_sync_context \<Rightarrow> gt_link_row \<Rightarrow> task_fields \<Rightarrow> ('p, string option) job" where
  "create_copy http env ctx link local =
     job_bind (claim_creation (tx_user ctx) link local) (\<lambda>_.
     job_bind (job_context (gl_create_reference link) ''Missing create reference'') (\<lambda>reference.
     job_bind (job_try (client_create http (tx_token ctx) (tx_list ctx) local reference)) (\<lambda>r.
     case r of
       Inl e \<Rightarrow>
         job_bind (if proven_rejection e
                   then job_update (update_links (\<lambda>l. this_link (tx_user ctx) (gl_id link) l \<and> gl_phase l = Creating)
                          (\<lambda>l. l\<lparr>gl_phase := Prepared\<rparr>))
                   else job_return ()) (\<lambda>_. job_fail (show_tasks_error e))
     | Inr created \<Rightarrow>
         job_bind (tasks_result (google_fields (due_date env) created)) (\<lambda>f.
         if f \<noteq> local then job_fail ''Created task did not match requested fields''
         else job_bind (record_google_task_link (tx_user ctx) (gl_id link) created local) (\<lambda>_.
              job_return (Some (gtk_id created)))))))"

text \<open>The remote copy of a linked task; None stands for a copy that is gone, which detaches the link.\<close>

definition remote_copy :: "'p tasks_provider \<Rightarrow> task_sync_context \<Rightarrow> string \<Rightarrow> ('p, google_task option) job" where
  "remote_copy http ctx identity =
     (case row_by (\<lambda>t. gtk_id t = identity) (tx_remote ctx) of
        Some t \<Rightarrow> job_return (Some t)
      | None \<Rightarrow>
          job_bind (job_try (client_get http (tx_token ctx) (tx_list ctx) identity)) (\<lambda>r.
          case r of
            Inr t \<Rightarrow> job_return (Some t)
          | Inl NotFoundError \<Rightarrow> job_return None
          | Inl e \<Rightarrow> job_fail (show_tasks_error e)))"

definition still_current :: "google_task_conflict \<Rightarrow> task_row \<Rightarrow> task_fields \<Rightarrow> task_fields \<Rightarrow> google_task \<Rightarrow> bool" where
  "still_current x task local remote_fields remote \<longleftrightarrow>
     gx_task_version x = t_version task \<and> gx_local x = local \<and> gx_google x = remote_fields \<and> Some (gx_remote_etag x) = gtk_etag remote"

definition open_conflict ::
  "uuid \<Rightarrow> gt_link_row \<Rightarrow> task_row \<Rightarrow> task_fields \<Rightarrow> task_fields \<Rightarrow> google_task \<Rightarrow> ('p, unit) job" where
  "open_conflict user link task local remote_fields remote =
     job_bind (job_store (\<lambda>w. let (i, w) = new_uuid w in (Inr i, w))) (\<lambda>i.
     job_bind (job_context (gtk_etag remote) ''Missing conflict ETag'') (\<lambda>etag.
     job_update (update_links (this_link user (gl_id link)) (\<lambda>l. l\<lparr>gl_conflict := Some
       \<lparr>gx_id = i, gx_link_id = gl_id link, gx_task_id = t_id task, gx_task_version = t_version task, gx_remote_etag = etag,
        gx_local = local, gx_google = remote_fields\<rparr>, gl_resolution := None\<rparr>))))"

definition merged_fields ::
  "uuid \<Rightarrow> gt_link_row \<Rightarrow> task_row \<Rightarrow> task_fields \<Rightarrow> task_fields \<Rightarrow> task_fields \<Rightarrow> google_task \<Rightarrow> ('p, task_fields) job" where
  "merged_fields user link task baseline local remote_fields remote =
     (case reconcile baseline local remote_fields of
        Inr merged \<Rightarrow> job_return merged
      | Inl _ \<Rightarrow>
          (let current = (case gl_conflict link of None \<Rightarrow> False | Some x \<Rightarrow> still_current x task local remote_fields remote)
           in case (if current then gl_resolution link else None) of
                Some choice \<Rightarrow> job_return (resolve_conflicting_fields baseline local remote_fields choice)
              | None \<Rightarrow>
                  job_bind (if current then job_return () else open_conflict user link task local remote_fields remote) (\<lambda>_.
                  job_fail ''Both apps changed the same task field'')))"

definition merged_request :: "task_row \<Rightarrow> task_fields \<Rightarrow> timestamp option \<Rightarrow> task_status \<Rightarrow> update_task_request" where
  "merged_request task merged due_at status =
     \<lparr>ut_project_id = t_project_id task, ut_parent_task_id = t_parent_task_id task, ut_title = tf_title merged,
      ut_description = t_description task, ut_due_at = due_at, ut_scheduled_start = t_scheduled_start task,
      ut_scheduled_end = t_scheduled_end task, ut_status = status, ut_priority = t_priority task,
      ut_recurrence = t_recurrence task, ut_labels = t_labels task, ut_remind_at = t_remind_at task,
      ut_expected_version = t_version task\<rparr>"

definition apply_merged ::
  "platform \<Rightarrow> tasks_env \<Rightarrow> uuid \<Rightarrow> string \<Rightarrow> task_row \<Rightarrow> task_fields \<Rightarrow> task_fields \<Rightarrow> ('p, unit) job" where
  "apply_merged pf env user timezone task local merged =
     (if merged = local then job_return ()
      else job_bind (job_op (\<lambda>w. bind_res
             (if tf_date merged = tf_date local then Inr (t_due_at task)
              else google_task_deadline env (tf_date merged) (t_due_at task) timezone) (\<lambda>d. Inr (d, w)))) (\<lambda>due_at.
           let status = (if tf_completed merged = tf_completed local then t_status task
                         else if tf_completed merged then Completed else Todo)
           in job_bind (job_op (update_task pf user (t_id task) (merged_request task merged due_at status))) (\<lambda>_.
              job_return ())))"

definition push_merged ::
  "'p tasks_provider \<Rightarrow> tasks_env \<Rightarrow> task_sync_context \<Rightarrow> string \<Rightarrow> google_task \<Rightarrow> task_fields \<Rightarrow> task_fields \<Rightarrow> ('p, google_task) job" where
  "push_merged http env ctx identity remote remote_fields merged =
     (if merged = remote_fields then job_return remote
      else job_bind (job_context (gtk_etag remote) ''Missing provider ETag'') (\<lambda>etag.
           job_bind (job_client (client_update http (tx_token ctx) (tx_list ctx) identity etag merged)) (\<lambda>acknowledged.
           job_bind (tasks_result (google_fields (due_date env) acknowledged)) (\<lambda>f.
           if f \<noteq> merged then job_fail ''Provider did not acknowledge merged task fields'' else job_return acknowledged))))"

definition sync_linked ::
  "'p tasks_provider \<Rightarrow> platform \<Rightarrow> tasks_env \<Rightarrow> task_sync_context \<Rightarrow> gt_link_row \<Rightarrow> task_row \<Rightarrow> task_fields \<Rightarrow> ('p, string option) job" where
  "sync_linked http pf env ctx link task local =
     job_bind (job_context (gl_external_task_id link) ''Missing remote identity'') (\<lambda>identity.
     job_bind (remote_copy http ctx identity) (\<lambda>copy.
     case copy of
       None \<Rightarrow> job_bind (detach_google_task (tx_user ctx) (gl_id link)) (\<lambda>_. job_return None)
     | Some remote \<Rightarrow>
         if gtk_deleted remote then job_bind (detach_google_task (tx_user ctx) (gl_id link)) (\<lambda>_. job_return None)
         else job_bind (tasks_result (google_fields (due_date env) remote)) (\<lambda>remote_fields.
              job_bind (job_context (gl_baseline link) ''Missing baseline'') (\<lambda>baseline.
              job_bind (merged_fields (tx_user ctx) link task baseline local remote_fields remote) (\<lambda>merged.
              job_bind (push_merged http env ctx identity remote remote_fields merged) (\<lambda>acknowledged.
              job_bind (apply_merged pf env (tx_user ctx) (tx_timezone ctx) task local merged) (\<lambda>_.
              job_bind (record_google_task_link (tx_user ctx) (gl_id link) acknowledged merged) (\<lambda>_.
              job_return (Some identity)))))))))"

definition sync_google_task_link ::
  "'p tasks_provider \<Rightarrow> platform \<Rightarrow> tasks_env \<Rightarrow> task_sync_context \<Rightarrow> gt_link_row \<Rightarrow> ('p, string option) job" where
  "sync_google_task_link http pf env ctx link =
     (if gl_phase link = Detached then job_return None
      else job_bind (job_query (\<lambda>w. deletion_held (tx_user ctx) (gl_task_id link) (now w) w)) (\<lambda>holding.
           if holding then job_return None
           else job_bind (job_query (task_by_id (tx_user ctx) (gl_task_id link))) (\<lambda>task.
                case task of
                  None \<Rightarrow> job_bind (detach_google_task (tx_user ctx) (gl_id link)) (\<lambda>_. job_return None)
                | Some task \<Rightarrow>
                    (let local = google_task_fields env (tx_timezone ctx) task
                     in if gl_phase link = Creating then recover_creation env ctx link
                        else if gl_phase link = Prepared then create_copy http env ctx link local
                        else sync_linked http pf env ctx link task local))))"

section \<open>A run\<close>

definition utf8 :: "string \<Rightarrow> nat list" where
  "utf8 s = map of_char s"

definition link_id_free :: "uuid \<Rightarrow> world \<Rightarrow> unit app_result" where
  "link_id_free i w = require (i \<notin> gl_id ` set (gt_links w)) (unique_violation ''google_task_links_pkey'')"

definition import_google_task ::
  "tasks_env \<Rightarrow> uuid \<Rightarrow> string \<Rightarrow> string \<Rightarrow> google_task \<Rightarrow> string \<Rightarrow> task_fields \<Rightarrow> world \<Rightarrow> unit store_result" where
  "import_google_task env user list timezone remote etag f w =
     bind_res (google_task_deadline env (tf_date f) None timezone) (\<lambda>deadline.
     if \<exists>l \<in> set (gt_links w). gl_user_id l = user \<and> gl_task_list_id l = list \<and> gl_external_task_id l = Some (gtk_id remote)
     then Inr ((), w)
     else let (task, w) = new_uuid w;
              position = (case map t_position (filter (\<lambda>t. t_user_id t = user) (tasks w)) of [] \<Rightarrow> 0 | p # ps \<Rightarrow> fold max ps p) + 1;
              w = insert_task (new_task task user None None (trim (tf_title f)) [] deadline None None
                    (if tf_completed f then Completed else Todo) Medium NoRecurrence [] None position
                    (if tf_completed f then Some (now w) else None) None (now w)) w;
              (i, w) = new_uuid w
          in bind_res (link_id_free i w) (\<lambda>_.
             Inr ((), w\<lparr>gt_links := gt_links w @ [\<lparr>gl_id = i, gl_user_id = user, gl_task_list_id = list, gl_task_id = task,
                gl_external_task_id = Some (gtk_id remote), gl_external_etag = Some etag, gl_baseline = Some f, gl_phase = Linked,
                gl_create_reference = None, gl_conflict = None, gl_resolution = None, gl_last_error = None\<rparr>]\<rparr>)))"

definition create_reference :: "uuid \<Rightarrow> string" where
  "create_reference i = ''prosepect task reference: '' @ show_uuid i"

definition unlinked_tasks :: "uuid \<Rightarrow> string \<Rightarrow> world \<Rightarrow> task_row list" where
  "unlinked_tasks user list w =
     take (BATCH_SIZE + 1) (sort_key t_id (filter (\<lambda>t. t_user_id t = user
       \<and> \<not> (\<exists>l \<in> set (gt_links w). gl_user_id l = user \<and> gl_task_id l = t_id t \<and> gl_task_list_id l = list)) (tasks w)))"

definition prepare_link :: "tasks_env \<Rightarrow> uuid \<Rightarrow> string \<Rightarrow> string \<Rightarrow> task_row \<Rightarrow> world \<Rightarrow> unit store_result" where
  "prepare_link env user list timezone task w =
     (let (i, w) = new_uuid w
      in if \<exists>l \<in> set (gt_links w). gl_user_id l = user \<and> gl_task_list_id l = list \<and> gl_task_id l = t_id task then Inr ((), w)
         else bind_res (link_id_free i w) (\<lambda>_.
              Inr ((), w\<lparr>gt_links := gt_links w @ [\<lparr>gl_id = i, gl_user_id = user, gl_task_list_id = list, gl_task_id = t_id task,
                gl_external_task_id = None, gl_external_etag = None, gl_baseline = Some (google_task_fields env timezone task),
                gl_phase = Prepared, gl_create_reference = Some (create_reference i), gl_conflict = None, gl_resolution = None,
                gl_last_error = None\<rparr>]\<rparr>)))"

definition links_after :: "uuid \<Rightarrow> string \<Rightarrow> uuid option \<Rightarrow> world \<Rightarrow> gt_link_row list" where
  "links_after user list cursor w =
     take (BATCH_SIZE + 1) (sort_key gl_id (filter (\<lambda>l. gl_user_id l = user \<and> gl_task_list_id l = list \<and> gl_phase l \<noteq> Detached
       \<and> (case cursor of None \<Rightarrow> True | Some c \<Rightarrow> c < gl_id l)) (gt_links w)))"

definition paused :: string where
  "paused = ''Task synchronization paused. Resolve conflicting edits or an uncertain creation before retrying.''"

fun sync_links ::
  "'p tasks_provider \<Rightarrow> platform \<Rightarrow> tasks_env \<Rightarrow> task_sync_context \<Rightarrow> gt_link_row list \<Rightarrow> string list \<times> bool \<times> uuid option
   \<Rightarrow> ('p, string list \<times> bool \<times> uuid option) job" where
  "sync_links http pf env ctx [] acc s = (Inr acc, s)"
| "sync_links http pf env ctx (link # rest) acc s =
     (let (known, unresolved, cursor) = acc in
      case sync_google_task_link http pf env ctx link s of
        (Inr (Some i), s) \<Rightarrow> sync_links http pf env ctx rest (i # known, unresolved, Some (gl_id link)) s
      | (Inr None, s) \<Rightarrow> sync_links http pf env ctx rest (known, unresolved, Some (gl_id link)) s
      | (Inl _, w, p) \<Rightarrow> sync_links http pf env ctx rest (known, True, Some (gl_id link))
            (update_links (this_link (tx_user ctx) (gl_id link)) (\<lambda>l. l\<lparr>gl_last_error := Some paused\<rparr>) w, p))"

definition import_candidates :: "string list \<Rightarrow> string list \<Rightarrow> string option \<Rightarrow> google_task list \<Rightarrow> google_task list" where
  "import_candidates known references cursor remote =
     sort_key (\<lambda>t. utf8 (gtk_id t)) (filter (\<lambda>t. \<not> gtk_deleted t \<and> \<not> gtk_assigned t \<and> gtk_id t \<notin> set known
       \<and> (case gtk_notes t of None \<Rightarrow> True | Some n \<Rightarrow> n \<notin> set references)
       \<and> (case cursor of None \<Rightarrow> True | Some c \<Rightarrow> utf8 c < utf8 (gtk_id t))) remote)"

fun sync_imports ::
  "tasks_env \<Rightarrow> task_sync_context \<Rightarrow> google_task list \<Rightarrow> bool \<times> string option \<Rightarrow> ('p, bool \<times> string option) job" where
  "sync_imports env ctx [] acc = job_return acc"
| "sync_imports env ctx (t # ts) acc =
     (case (google_fields (due_date env) t, gtk_etag t) of
        (Inr f, Some (c # etag)) \<Rightarrow>
          job_bind (job_op (import_google_task env (tx_user ctx) (tx_list ctx) (tx_timezone ctx) t (c # etag) f)) (\<lambda>_.
          sync_imports env ctx ts (fst acc, Some (gtk_id t)))
      | _ \<Rightarrow> sync_imports env ctx ts (True, Some (gtk_id t)))"

definition finish_google_tasks_batch :: "uuid \<Rightarrow> batch_progress \<Rightarrow> world \<Rightarrow> bool store_result" where
  "finish_google_tasks_batch user progress w =
     bind_res (ok_or (connection_of user w) (Database (OtherSqlxError ''RowNotFound''))) (\<lambda>c.
     let follow_up = (bp_more progress \<or> gc_change_revision c \<noteq> bp_revision progress);
         w = w\<lparr>gt_connections := update_where (\<lambda>c. gc_user_id c = user)
               (\<lambda>c. c\<lparr>gc_scan_revision := (if bp_more progress then Some (bp_revision progress) else None),
                      gc_scan_link_cursor := (if bp_more progress then bp_link_cursor progress else None),
                      gc_scan_import_cursor := (if bp_more progress then bp_import_cursor progress else None),
                      gc_scan_had_errors := (bp_more progress \<and> bp_had_errors progress)\<rparr>) (gt_connections w)\<rparr>
     in if follow_up
        then (let (i, w) = new_uuid w; (k, w) = new_uuid w
              in Inr (False, if \<exists>j \<in> set (sync_jobs w). pending_tasks_change user j then w
                   else w\<lparr>sync_jobs := sync_jobs w @
                     [new_job user None ''tasks_sync'' (''tasks-change:continue:'' @ show_uuid k) i (now w)]\<rparr>))
        else Inr (True, w))"

definition sync_batch ::
  "'p tasks_provider \<Rightarrow> platform \<Rightarrow> tasks_env \<Rightarrow> task_sync_context \<Rightarrow> ('p, bool) job" where
  "sync_batch http pf env ctx =
     job_bind (job_op (\<lambda>w. bind_res (ok_or (connection_of (tx_user ctx) w) (Database (OtherSqlxError ''RowNotFound'')))
       (\<lambda>c. Inr (c, w)))) (\<lambda>batch.
     job_bind (job_query (unlinked_tasks (tx_user ctx) (tx_list ctx))) (\<lambda>local.
     job_bind (job_for (\<lambda>task. job_op (prepare_link env (tx_user ctx) (tx_list ctx) (tx_timezone ctx) task)) (take BATCH_SIZE local)) (\<lambda>_.
     job_bind (job_query (links_after (tx_user ctx) (tx_list ctx) (gc_scan_link_cursor batch))) (\<lambda>ls.
     job_bind (job_query (\<lambda>w. take 20001 (filter (\<lambda>l. gl_user_id l = tx_user ctx \<and> gl_task_list_id l = tx_list ctx) (gt_links w)))) (\<lambda>identities.
     if 20000 < length identities then job_fail ''Too many retained Tasks identities to synchronize safely''
     else job_bind (sync_links http pf env ctx (take BATCH_SIZE ls)
            (List.map_filter gl_external_task_id identities, gc_scan_had_errors batch, gc_scan_link_cursor batch)) (\<lambda>(known, unresolved, link_cursor).
          let candidates = import_candidates known (List.map_filter gl_create_reference identities) (gc_scan_import_cursor batch) (tx_remote ctx)
          in job_bind (sync_imports env ctx (take BATCH_SIZE candidates) (unresolved, gc_scan_import_cursor batch)) (\<lambda>(unresolved, import_cursor).
             job_bind (job_op (finish_google_tasks_batch (tx_user ctx)
               \<lparr>bp_revision = (case gc_scan_revision batch of Some r \<Rightarrow> r | None \<Rightarrow> gc_change_revision batch),
                bp_link_cursor = link_cursor, bp_import_cursor = import_cursor,
                bp_more = (BATCH_SIZE < length local \<or> BATCH_SIZE < length ls \<or> BATCH_SIZE < length candidates),
                bp_had_errors = unresolved\<rparr>)) (\<lambda>complete.
             if complete \<and> unresolved then job_fail ''Google Tasks has unresolved task changes or uncertain creations''
             else job_return complete))))))))"

definition sync_google_tasks_inner ::
  "'p tasks_provider \<Rightarrow> 'p oauth \<Rightarrow> platform \<Rightarrow> tasks_env \<Rightarrow> uuid \<Rightarrow> ('p, bool) job" where
  "sync_google_tasks_inner http oauth pf env user =
     job_bind (job_op (\<lambda>w. bind_res (google_tasks_status user w) (\<lambda>s. Inr (s, w)))) (\<lambda>connection.
     if \<not> gs_enabled connection then job_return False
     else if \<not> gs_authorized connection then job_fail ''Google Tasks permission is required''
     else job_bind (job_context (gs_task_list_id connection) ''Missing Google Tasks list'') (\<lambda>list.
          job_bind (job_context (gs_timezone connection) ''Missing Google Tasks timezone'') (\<lambda>timezone.
          job_bind (access_token oauth user) (\<lambda>token.
          job_bind (job_client (client_tasks http token list)) (\<lambda>remote.
          sync_batch http pf env \<lparr>tx_user = user, tx_list = list, tx_timezone = timezone, tx_token = token, tx_remote = remote\<rparr>)))))"

definition sync_google_tasks ::
  "'p tasks_provider \<Rightarrow> 'p oauth \<Rightarrow> platform \<Rightarrow> tasks_env \<Rightarrow> uuid \<Rightarrow> ('p, unit) job" where
  "sync_google_tasks http oauth pf env user s =
     (case sync_google_tasks_inner http oauth pf env user s of
        (r, w, p) \<Rightarrow>
          (let message = (case r of Inl _ \<Rightarrow> Some ''Google Tasks sync needs attention. Check permission, task conflicts, and retry.'' | Inr _ \<Rightarrow> None);
               w = w\<lparr>gt_connections := update_where (\<lambda>c. gc_user_id c = user)
                     (\<lambda>c. c\<lparr>gc_last_error := message,
                            gc_last_synced_at := (if r = Inr True then Some (now w) else gc_last_synced_at c)\<rparr>) (gt_connections w)\<rparr>
           in (map_sum id (\<lambda>_. ()) r, w, p)))"

end
