(* ===== verification/TaskLinks.thy ===== *)
theory TaskLinks
  imports TasksSync TaskExamples
begin

text \<open>
  What the synchronization with Google Tasks guarantees: a task is created at Google at most once however often a run
  is repeated or interrupted, edits made on one side only reach the other, and a day that comes back from Google keeps
  the time of the deadline. \<open>keeps P m\<close> says that a step \<open>m\<close> leaves \<open>P\<close> true whether it succeeds or fails; its
  rules follow the structure of the steps.
\<close>

section \<open>Steps that keep a condition\<close>

named_theorems keeps_rules "rules for steps that keep a condition"

definition keeps :: "('s \<Rightarrow> bool) \<Rightarrow> ('s \<Rightarrow> 'r \<times> 's) \<Rightarrow> bool" where
  "keeps P m \<longleftrightarrow> (\<forall>s. P s \<longrightarrow> P (snd (m s)))"

lemma keepsD: "keeps P m \<Longrightarrow> P s \<Longrightarrow> m s = (r, s') \<Longrightarrow> P s'"
  by (metis keeps_def snd_conv)

lemma keeps_same: "(\<And>s. snd (m s) = s) \<Longrightarrow> keeps P m"
  by (simp add: keeps_def)

lemma keeps_pure [keeps_rules]:
  "keeps P (job_return a)" "keeps P (job_fail e)" "keeps P (job_query g)" "keeps P (job_of r)" "keeps P (job_context x msg)"
  "keeps P (tasks_result q)" "keeps P (client_of c)"
  by (auto intro!: keeps_same simp: job_return_def job_fail_def job_query_def job_of_def job_context_def tasks_result_def client_of_def
      split: sum.split)

lemma keeps_bind [keeps_rules]: "keeps P m \<Longrightarrow> (\<And>a. keeps P (f a)) \<Longrightarrow> keeps P (job_bind m f)"
  by (auto simp: keeps_def job_bind_def split: prod.split sum.split) (metis snd_conv)+

lemma keeps_client_bind [keeps_rules]: "keeps P m \<Longrightarrow> (\<And>a. keeps P (f a)) \<Longrightarrow> keeps P (client_bind m f)"
  by (auto simp: keeps_def client_bind_def split: prod.split sum.split) (metis snd_conv)+

lemma keeps_client [keeps_rules]: "keeps P m \<Longrightarrow> keeps P (job_client m)" "keeps P m \<Longrightarrow> keeps P (job_try m)"
  by (auto simp: keeps_def job_client_def job_try_def split: prod.split sum.split) (metis snd_conv)+

lemma keeps_for [keeps_rules]: "(\<And>x. keeps P (f x)) \<Longrightarrow> keeps P (job_for f xs)"
  by (induction xs) (auto intro: keeps_rules)

lemma keeps_if [keeps_rules]: "keeps P m \<Longrightarrow> keeps P m' \<Longrightarrow> keeps P (if b then m else m')"
  by simp

lemma keeps_option [keeps_rules]:
  "keeps P m \<Longrightarrow> (\<And>a. keeps P (f a)) \<Longrightarrow> keeps P (case x of None \<Rightarrow> m | Some a \<Rightarrow> f a)"
  by (cases x) simp_all

lemma keeps_sum [keeps_rules]:
  "(\<And>a. keeps P (f a)) \<Longrightarrow> (\<And>b. keeps P (g b)) \<Longrightarrow> keeps P (case x of Inl a \<Rightarrow> f a | Inr b \<Rightarrow> g b)"
  by (cases x) simp_all

lemma keeps_update: "(\<And>w p. P (w, p) \<Longrightarrow> P (f w, p)) \<Longrightarrow> keeps P (job_update f)"
  by (auto simp: keeps_def job_update_def)

lemma keeps_store: "(\<And>w p r w'. P (w, p) \<Longrightarrow> f w = (r, w') \<Longrightarrow> P (w', p)) \<Longrightarrow> keeps P (job_store f)"
  by (auto simp: keeps_def job_store_def split: prod.split)

lemma keeps_op: "(\<And>w p a w'. P (w, p) \<Longrightarrow> f w = Inr (a, w') \<Longrightarrow> P (w', p)) \<Longrightarrow> keeps P (job_op f)"
  by (auto simp: keeps_def job_op_def split: sum.split)

section \<open>Requests that create a task\<close>

type_synonym exchange_log = "(tasks_request \<times> tasks_response option) list"

definition logged :: "'p tasks_provider \<Rightarrow> ('p \<times> exchange_log) tasks_provider" where
  "logged http req s = (let (a, t, p) = http req (fst s) in (a, t, p, snd s @ [(req, a)]))"

definition logged_oauth :: "'p oauth \<Rightarrow> ('p \<times> exchange_log) oauth" where
  "logged_oauth oauth =
     \<lparr>oa_decrypt = oa_decrypt oauth, oa_encrypt = oa_encrypt oauth,
      oa_refresh = (\<lambda>token s. let (r, t, p) = oa_refresh oauth token (fst s) in (r, t, p, snd s)),
      oa_revoke = (\<lambda>token s. let (r, t, p) = oa_revoke oauth token (fst s) in (r, t, p, snd s))\<rparr>"

text \<open>A request that carries a reference, and an answer that says it was not carried out.\<close>

definition carries :: "string \<Rightarrow> tasks_request \<Rightarrow> bool" where
  "carries reference req \<longleftrightarrow>
     tq_method req = ''POST'' \<and> (case tq_body req of TaskBody _ (Some r) \<Rightarrow> r = reference | _ \<Rightarrow> False)"

definition refused :: "tasks_response option \<Rightarrow> bool" where
  "refused a \<longleftrightarrow> (case a of None \<Rightarrow> False | Some r \<Rightarrow> 400 \<le> tr_status r \<and> tr_status r \<le> 499)"

definition sent :: "string \<Rightarrow> exchange_log \<Rightarrow> nat" where
  "sent reference log = length (filter (\<lambda>(req, a). carries reference req \<and> \<not> refused a) log)"

definition valid_uuid :: "uuid \<Rightarrow> bool" where
  "valid_uuid i \<longleftrightarrow> i < 2 ^ 128"

definition started :: "uuid \<Rightarrow> world \<Rightarrow> bool" where
  "started i w \<longleftrightarrow> (\<exists>l \<in> set (gt_links w). gl_id l = i \<and> gl_phase l \<noteq> Prepared)"

definition own_reference :: "gt_link_row \<Rightarrow> bool" where
  "own_reference l \<longleftrightarrow> valid_uuid (gl_id l)
     \<and> (gl_create_reference l = None \<or> gl_create_reference l = Some (create_reference (gl_id l)))"

definition links_ok :: "world \<times> 'p \<times> exchange_log \<Rightarrow> bool" where
  "links_ok s \<longleftrightarrow> (let (w, p, log) = s in
     (\<forall>n. valid_uuid (uuid_supply w n)) \<and> distinct (map gl_id (gt_links w)) \<and> (\<forall>l \<in> set (gt_links w). own_reference l)
     \<and> (\<forall>i. valid_uuid i \<longrightarrow> sent (create_reference i) log \<le> 1 \<and> (sent (create_reference i) log = 1 \<longrightarrow> started i w)))"

text \<open>References of different links differ.\<close>

lemma hex_digit_inj: "m < 16 \<Longrightarrow> n < 16 \<Longrightarrow> hex_digit m = hex_digit n \<Longrightarrow> m = n"
proof -
  assume "m < 16" "n < 16" "hex_digit m = hex_digit n"
  then have "(of_char (hex_digit m) :: nat) = of_char (hex_digit n)" by simp
  then show "m = n" using \<open>m < 16\<close> \<open>n < 16\<close> by (auto simp: hex_digit_def split: if_splits)
qed

lemma length_hex_pad [simp]: "length (hex_pad k n) = k"
  by (induction k arbitrary: n) simp_all

lemma hex_pad_inj: "hex_pad k m = hex_pad k n \<Longrightarrow> m mod 16 ^ k = n mod 16 ^ k"
proof (induction k arbitrary: m n)
  case (Suc k)
  have eq: "hex_pad k (m div 16) = hex_pad k (n div 16)" "hex_digit (m mod 16) = hex_digit (n mod 16)" using Suc.prems by simp_all
  have "m mod 16 = n mod 16" by (rule hex_digit_inj [OF _ _ eq(2)]) simp_all
  moreover have "m div 16 mod 16 ^ k = n div 16 mod 16 ^ k" by (rule Suc.IH [OF eq(1)])
  ultimately show ?case unfolding power_Suc mod_mult2_eq by (simp only:)
qed simp

lemma drop_pieces: "take n (drop m h) = take n (drop m k) \<Longrightarrow> drop (m + n) h = drop (m + n) k \<Longrightarrow> drop m h = drop m k"
  by (metis add.commute append_take_drop_id drop_drop)

lemma create_reference_inj:
  assumes "create_reference i = create_reference j" and "valid_uuid i" and "valid_uuid j"
  shows "i = j"
proof -
  have "hex_pad 32 i = hex_pad 32 j"
  proof -
    let ?h = "hex_pad 32 i" and ?k = "hex_pad 32 j"
    have eq: "take 8 ?h = take 8 ?k" "take 4 (drop 8 ?h) = take 4 (drop 8 ?k)" "take 4 (drop 12 ?h) = take 4 (drop 12 ?k)"
      "take 4 (drop 16 ?h) = take 4 (drop 16 ?k)" "drop 20 ?h = drop 20 ?k"
      using assms(1) by (auto simp: create_reference_def show_uuid_def Let_def append_eq_append_conv)
    have "drop 16 ?h = drop 16 ?k" by (rule drop_pieces [of 4]) (use eq in simp_all)
    then have "drop 12 ?h = drop 12 ?k" by (intro drop_pieces [of 4 12]) (use eq in simp_all)
    then have "drop 8 ?h = drop 8 ?k" by (intro drop_pieces [of 4 8]) (use eq in simp_all)
    then show ?thesis using eq(1) by (metis append_take_drop_id)
  qed
  then have "i mod 16 ^ 32 = j mod 16 ^ 32" by (rule hex_pad_inj)
  with assms(2,3) show ?thesis by (simp add: valid_uuid_def)
qed

section \<open>What keeps the links in order\<close>

lemma links_ok_frame:
  assumes "links_ok (w, p, log)" and "gt_links w' = gt_links w" and "uuid_supply w' = uuid_supply w"
  shows "links_ok (w', p', log)"
  using assms by (simp add: links_ok_def started_def)

lemma sent_append: "sent r (log @ es) = sent r log + sent r es"
  by (simp add: sent_def)

lemma links_ok_other_requests:
  assumes "links_ok (w, p, log)" and "tq_method req \<noteq> ''POST''"
  shows "links_ok (w\<lparr>now := t\<rparr>, p', log @ [(req, a)])"
proof -
  have "sent r [(req, a)] = 0" for r using assms(2) by (simp add: sent_def carries_def)
  with assms(1) show ?thesis by (simp add: links_ok_def sent_append started_def)
qed

text \<open>A statement on the links that does not set one back to prepared.\<close>

lemma links_ok_update:
  assumes ok: "links_ok (w, p, log)"
    and f: "\<And>l. gl_id (f l) = gl_id l" "\<And>l. gl_create_reference (f l) = gl_create_reference l"
    and phase: "\<And>l. l \<in> set (gt_links w) \<Longrightarrow> q l \<Longrightarrow> gl_phase l \<noteq> Prepared \<Longrightarrow> gl_phase (f l) \<noteq> Prepared"
  shows "links_ok (update_links q f w, p, log)"
proof -
  let ?w = "update_links q f w"
  have rs: "set (gt_links ?w) = (\<lambda>l. if q l then f l else l) ` set (gt_links w)" by (auto simp: update_links_def update_where_def)
  have "started i ?w" if "started i w" for i
  proof -
    obtain l where "l \<in> set (gt_links w)" "gl_id l = i" "gl_phase l \<noteq> Prepared" using \<open>started i w\<close> by (auto simp: started_def)
    then show ?thesis using phase [of l] f(1) unfolding started_def rs by (intro bexI [of _ "if q l then f l else l"]) auto
  qed
  moreover have "distinct (map gl_id (gt_links ?w))" using ok by (simp add: links_ok_def f update_links_def)
  moreover have "\<forall>l \<in> set (gt_links ?w). own_reference l" using ok unfolding rs by (auto simp: links_ok_def own_reference_def f)
  ultimately show ?thesis using ok by (simp add: links_ok_def update_links_def)
qed

lemma links_ok_insert:
  assumes ok: "links_ok (w, p, log)" and l: "own_reference l" "gl_id l \<notin> gl_id ` set (gt_links w)"
  shows "links_ok (w\<lparr>gt_links := gt_links w @ [l]\<rparr>, p, log)"
  using assms by (auto simp: links_ok_def started_def)

lemma keeps_links_update:
  assumes "\<And>l. gl_id (f l) = gl_id l" "\<And>l. gl_create_reference (f l) = gl_create_reference l"
    and "\<And>l. q l \<Longrightarrow> gl_phase l \<noteq> Prepared \<Longrightarrow> gl_phase (f l) \<noteq> Prepared"
  shows "keeps links_ok (job_update (update_links q f))"
  by (intro keeps_update) (metis (no_types, lifting) assms links_ok_update prod.exhaust)

lemma keeps_links_frame:
  assumes "\<And>w a w'. f w = Inr (a, w') \<Longrightarrow> gt_links w' = gt_links w \<and> uuid_supply w' = uuid_supply w"
  shows "keeps links_ok (job_op f)"
  using assms by (intro keeps_op) (metis links_ok_frame prod.exhaust)

section \<open>Requests\<close>

lemma send_keeps [keeps_rules]:
  assumes "tq_method req \<noteq> ''POST''"
  shows "keeps links_ok (send_tasks (logged http) req)"
  unfolding keeps_def
proof (intro allI impI)
  fix s :: "world \<times> 'a \<times> exchange_log"
  obtain w p log where s: "s = (w, p, log)" by (metis prod.exhaust)
  obtain a t p' where h: "http req p = (a, t, p')" by (metis prod.exhaust)
  assume "links_ok s"
  then have "links_ok (w\<lparr>now := t\<rparr>, p', log @ [(req, a)])" unfolding s by (rule links_ok_other_requests) (rule assms)
  with \<open>links_ok s\<close> show "links_ok (snd (send_tasks (logged http) req s))"
    by (auto simp: s send_tasks_def logged_def h Let_def split: option.split)
qed

lemma pages_inner_keeps: "links_ok s \<Longrightarrow> links_ok (snd (pages_inner (logged http) decode deadline token segments query items seen bytes_read s))"
proof (induction "logged http" decode deadline token segments query items seen bytes_read s rule: pages_inner.induct)
  case (1 decode deadline token segments query items seen bytes_read s)
  let ?req = "\<lparr>tq_method = ''GET'', tq_segments = segments,
             tq_query = query @ [(''maxResults'', ''100'')] @ (case seen of [] \<Rightarrow> [] | cursor # _ \<Rightarrow> [(''pageToken'', cursor)]),
             tq_token = token, tq_body = NoTasksBody, tq_if_match = None\<rparr>"
  obtain a s' where r: "send_tasks (logged http) ?req s = (a, s')" by (metis prod.exhaust)
  have ok: "links_ok s'" using keepsD [of links_ok "send_tasks (logged http) ?req"] send_keeps [of ?req http] "1.prems" r by simp
  show ?case
    unfolding pages_inner.simps [of "logged http" decode deadline token segments query items seen bytes_read s] r prod.case Let_def
    using ok "1.hyps" [OF r [symmetric]] by (auto split: sum.split option.split)
qed

lemma pages_keeps [keeps_rules]: "keeps links_ok (pages (logged http) decode token segments query)"
  by (simp add: keeps_def pages_def pages_inner_keeps)

lemma client_keeps [keeps_rules]:
  "keeps links_ok (client_tasks (logged http) token list)" "keeps links_ok (client_get (logged http) token list task)"
  "keeps links_ok (client_update (logged http) token list task etag f)"
  unfolding client_tasks_def client_get_def client_update_def by (intro keeps_rules; simp)+

section \<open>Creating a copy\<close>

text \<open>A creation sends nothing, or one request that carries the reference; an error that proves the rejection comes with a refusal.\<close>

lemma status_error_refused:
  "proven_rejection (status_error True n) \<Longrightarrow> 400 \<le> n \<and> n \<le> 499"
  by (auto simp: status_error_def proven_rejection_def split: if_splits)

lemma create_outcome:
  assumes "client_create (logged http) token list f reference (w, p, log) = (r, s')"
  obtains (unsent) e where "r = Inl e" "s' = (w, p, log)"
  | (request) req a t p' where "s' = (w\<lparr>now := t\<rparr>, p', log @ [(req, a)])" "\<And>x. carries x req \<longleftrightarrow> x = reference"
      "\<And>e. r = Inl e \<Longrightarrow> proven_rejection e \<Longrightarrow> refused a"
proof -
  let ?req = "\<lparr>tq_method = ''POST'', tq_segments = [''lists'', list, ''tasks''], tq_query = [], tq_token = token,
       tq_body = TaskBody f (Some reference), tq_if_match = None\<rparr>"
  obtain a t p' where h: "http ?req p = (a, t, p')" by (metis prod.exhaust)
  show ?thesis
  proof (cases "valid_fields f \<and> chars_count reference \<le> 8192 \<and> safe_segments [''lists'', list, ''tasks''] \<and> token \<noteq> []")
    case False
    then obtain e where "(r, s') = (Inl e, w, p, log)"
      using assms by (auto simp: client_create_def client_bind_def client_of_def url_def require_def send_tasks_def split: if_splits)
    then show ?thesis by (intro unsent [of e]) simp_all
  next
    case True
    then have res: "(r, s') = client_bind (send_tasks (logged http) ?req) (\<lambda>r. client_of (bind_res (task_content AmbiguousCreate r) (\<lambda>remote.
       bind_res (require (\<not> (gtk_id remote = [] \<or> no_etag remote)) AmbiguousCreate) (\<lambda>_. Inr remote)))) (w, p, log)"
      using assms by (simp add: client_create_def client_bind_def client_of_def url_def)
    have "s' = (w\<lparr>now := t\<rparr>, p', log @ [(?req, a)])"
      using res True by (auto simp: client_bind_def client_of_def send_tasks_def logged_def h Let_def split: option.splits if_splits)
    moreover have "carries x ?req \<longleftrightarrow> x = reference" for x by (auto simp: carries_def)
    moreover have "refused a" if "r = Inl e" "proven_rejection e" for e
    proof (cases a)
      case None
      with res True that show ?thesis
        by (auto simp: client_bind_def client_of_def send_tasks_def logged_def h Let_def proven_rejection_def)
    next
      case (Some resp)
      with res True that status_error_refused [of "tr_status resp"] show ?thesis
        by (auto simp: client_bind_def client_of_def send_tasks_def logged_def h Let_def proven_rejection_def refused_def task_content_def require_def
            split: if_splits tasks_content.splits)
    qed
    ultimately show ?thesis by (rule request)
  qed
qed

lemma links_ok_reset:
  assumes ok: "links_ok (w, p, log)" and none: "sent (create_reference i) log = 0"
    and f: "\<And>l. gl_id (f l) = gl_id l" "\<And>l. gl_create_reference (f l) = gl_create_reference l" and q: "\<And>l. q l \<Longrightarrow> gl_id l = i"
  shows "links_ok (update_links q f w, p, log)"
proof -
  let ?w = "update_links q f w"
  have rs: "set (gt_links ?w) = (\<lambda>l. if q l then f l else l) ` set (gt_links w)" by (auto simp: update_links_def update_where_def)
  have "started j ?w" if j: "started j w" "j \<noteq> i" for j
  proof -
    obtain l where "l \<in> set (gt_links w)" "gl_id l = j" "gl_phase l \<noteq> Prepared" using j(1) by (auto simp: started_def)
    then show ?thesis using q [of l] j(2) unfolding started_def rs by (intro bexI [of _ "if q l then f l else l"]) auto
  qed
  moreover have "distinct (map gl_id (gt_links ?w))" using ok by (simp add: links_ok_def f update_links_def)
  moreover have "\<forall>l \<in> set (gt_links ?w). own_reference l" using ok unfolding rs by (auto simp: links_ok_def own_reference_def f)
  moreover have "sent (create_reference j) log = 1 \<Longrightarrow> j \<noteq> i" for j using none by auto
  ultimately show ?thesis using ok by (simp add: links_ok_def update_links_def)
qed

lemma links_ok_creation:
  assumes ok: "links_ok (w, p, log)" and none: "sent (create_reference i) log = 0" and i: "valid_uuid i" "started i w"
    and req: "\<And>x. carries x req \<longleftrightarrow> x = create_reference i"
  shows "links_ok (w\<lparr>now := t\<rparr>, p', log @ [(req, a)])" and "refused a \<Longrightarrow> sent (create_reference i) (log @ [(req, a)]) = 0"
proof -
  have one: "sent (create_reference j) [(req, a)] = (if j = i \<and> \<not> refused a then 1 else 0)" if "valid_uuid j" for j
    using req create_reference_inj [OF _ that i(1)] by (auto simp: sent_def)
  show "refused a \<Longrightarrow> sent (create_reference i) (log @ [(req, a)]) = 0" using none one [OF i(1)] by (simp add: sent_append)
  have "sent (create_reference j) (log @ [(req, a)]) \<le> 1 \<and> (sent (create_reference j) (log @ [(req, a)]) = 1 \<longrightarrow> started j w)" if "valid_uuid j" for j
    using ok that none i one [OF that] by (cases "j = i") (auto simp: links_ok_def sent_append)
  then show "links_ok (w\<lparr>now := t\<rparr>, p', log @ [(req, a)])" using ok by (simp add: links_ok_def started_def)
qed

lemma record_keeps [keeps_rules]: "keeps links_ok (record_google_task_link user link task f)"
proof -
  have "keeps links_ok (job_store (\<lambda>w. if identity_taken user link (gtk_id task) w then (Inl e, w)
     else (Inr (), update_links (this_link user link) (set_linked task etag f) w)))" for etag e
    by (rule keeps_store) (auto split: if_splits intro!: links_ok_update simp: set_linked_def)
  then show ?thesis by (auto simp: record_google_task_link_def intro: keeps_rules split: option.split list.split)
qed

lemma detach_keeps [keeps_rules]: "keeps links_ok (detach_google_task user link)"
  unfolding detach_google_task_def by (rule keeps_links_update) (simp_all add: set_detached_def)

lemma create_copy_keeps [keeps_rules]:
  assumes own: "own_reference link"
  shows "keeps links_ok (create_copy (logged http) env ctx link local)"
  unfolding keeps_def
proof (intro allI impI)
  fix s :: "world \<times> 'a \<times> exchange_log"
  assume "links_ok s"
  obtain w p log where s: "s = (w, p, log)" by (metis prod.exhaust)
  let ?i = "gl_id link" and ?u = "tx_user ctx"
  let ?hit = "\<lambda>l. this_link ?u ?i l \<and> gl_phase l = Prepared"
  let ?w = "update_links ?hit (\<lambda>l. l\<lparr>gl_phase := Creating, gl_baseline := Some local\<rparr>) w"
  have ok: "links_ok (?w, p, log)" using \<open>links_ok s\<close> unfolding s by (rule links_ok_update) simp_all
  show "links_ok (snd (create_copy (logged http) env ctx link local s))"
  proof (cases "length (filter ?hit (gt_links w)) = 1 \<and> gl_create_reference link \<noteq> None")
    case False
    then show ?thesis
      using ok by (auto simp: s create_copy_def claim_creation_def job_bind_def job_store_def job_context_def job_of_def Let_def)
  next
    case True
    then obtain l where "filter ?hit (gt_links w) = [l]" by (auto simp: length_Suc_conv)
    then have "l \<in> set (filter ?hit (gt_links w))" by simp
    then have l: "l \<in> set (gt_links w)" "?hit l" by simp_all
    have ref: "gl_create_reference link = Some (create_reference ?i)" and i: "valid_uuid ?i" using own True by (auto simp: own_reference_def)
    have "\<not> started ?i w"
      using l \<open>links_ok s\<close> by (auto simp: started_def this_link_def s links_ok_def dest: distinct_map_inj)
    then have none: "sent (create_reference ?i) log = 0"
      using \<open>links_ok s\<close> i unfolding s links_ok_def by (metis (mono_tags, lifting) case_prod_conv less_one nat_less_le)
    have "started ?i ?w"
      using l unfolding started_def
      by (intro bexI [of _ "l\<lparr>gl_phase := Creating, gl_baseline := Some local\<rparr>"])
        (auto simp: update_links_def update_where_def this_link_def)
    obtain r s' where c: "client_create (logged http) (tx_token ctx) (tx_list ctx) local (create_reference ?i) (?w, p, log) = (r, s')"
      using prod.exhaust by blast
    have run: "create_copy (logged http) env ctx link local s = (case r of
       Inl e \<Rightarrow>
         job_bind (if proven_rejection e
                   then job_update (update_links (\<lambda>l. this_link (tx_user ctx) (gl_id link) l \<and> gl_phase l = Creating)
                          (\<lambda>l. l\<lparr>gl_phase := Prepared\<rparr>))
                   else job_return ()) (\<lambda>_. job_fail (show_tasks_error e))
     | Inr created \<Rightarrow>
         job_bind (tasks_result (google_fields (due_date env) created)) (\<lambda>f.
         if f \<noteq> local then job_fail ''Created task did not match requested fields''
         else job_bind (record_google_task_link (tx_user ctx) (gl_id link) created local) (\<lambda>_.
              job_return (Some (gtk_id created))))) s'"
      using True ref c by (simp add: s create_copy_def claim_creation_def job_bind_def job_store_def job_context_def job_of_def job_try_def Let_def)
    have after: "links_ok s' \<and> (\<forall>e. r = Inl e \<and> proven_rejection e \<longrightarrow> sent (create_reference ?i) (snd (snd s')) = 0)"
      using c
    proof (cases rule: create_outcome)
      case (unsent e)
      with ok none show ?thesis by simp
    next
      case (request req a t p')
      note c1 = links_ok_creation [OF ok none i \<open>started ?i ?w\<close> request(2)]
      show ?thesis using c1(1) c1(2) [of a] request(1,3) by auto
    qed
    show ?thesis
    proof (cases r)
      case (Inr created)
      have k: "keeps links_ok (job_bind (tasks_result (google_fields (due_date env) created)) (\<lambda>f.
         if f \<noteq> local then job_fail ''Created task did not match requested fields''
         else job_bind (record_google_task_link (tx_user ctx) (gl_id link) created local) (\<lambda>_.
              job_return (Some (gtk_id created)))))" by (intro keeps_rules)
      show ?thesis unfolding run Inr sum.case using k after unfolding keeps_def by blast
    next
      case (Inl e)
      obtain w' q lg where s': "s' = (w', q, lg)" by (metis prod.exhaust)
      have "links_ok (update_links (\<lambda>l. this_link (tx_user ctx) (gl_id link) l \<and> gl_phase l = Creating) (\<lambda>l. l\<lparr>gl_phase := Prepared\<rparr>) w', q, lg)"
        if "proven_rejection e"
        using after that Inl s' by (intro links_ok_reset [where i = ?i]) (auto simp: this_link_def)
      with after Inl s' show ?thesis by (simp add: run job_bind_def job_update_def job_return_def job_fail_def)
    qed
  qed
qed

section \<open>Synchronizing links\<close>

lemma ensure_labels_links: "gt_links (ensure_labels u ls w) = gt_links w" "uuid_supply (ensure_labels u ls w) = uuid_supply w"
  by (simp_all add: ensure_labels_def)

lemma block_links:
  "sync_task_calendar_event u t w = Inr w' \<Longrightarrow> gt_links w' = gt_links w \<and> uuid_supply w' = uuid_supply w"
  using sync_task_calendar_event_frame(2,18) by blast

lemma reopen_links:
  "remove_next_occurrence_for_reopen u i w = Inr w' \<Longrightarrow> gt_links w' = gt_links w \<and> uuid_supply w' = uuid_supply w"
  by (auto simp: remove_next_occurrence_for_reopen_def Let_def split: option.splits if_splits)

lemma next_occurrence_links:
  "create_next_recurring_task pf u i w = Inr w' \<Longrightarrow> gt_links w' = gt_links w \<and> uuid_supply w' = uuid_supply w"
  by (auto simp: create_next_recurring_task_def Let_def new_uuid_def ensure_labels_links dest!: block_links)

lemma update_task_links:
  assumes "update_task pf u i req w = Inr (a, w')"
  shows "gt_links w' = gt_links w \<and> uuid_supply w' = uuid_supply w"
  using assms
  by (auto simp: update_task_def update_task_scoped_def Let_def ensure_labels_links split: option.splits if_splits
      dest!: block_links reopen_links next_occurrence_links)

lemma apply_merged_keeps [keeps_rules]: "keeps links_ok (apply_merged pf env user timezone task local merged)"
proof -
  have "keeps links_ok (job_op (\<lambda>w. bind_res r (\<lambda>d. Inr (d, w))))" for r :: "'x app_result"
    by (rule keeps_links_frame) auto
  moreover have "keeps links_ok (job_op (update_task pf user i req))" for i req
    by (rule keeps_links_frame) (rule update_task_links)
  ultimately show ?thesis unfolding apply_merged_def Let_def by (intro keeps_rules)
qed

lemma open_conflict_keeps [keeps_rules]: "keeps links_ok (open_conflict user link task local remote_fields remote)"
proof -
  have "keeps links_ok (job_store (\<lambda>w. let (i, w) = new_uuid w in (Inr i, w)))"
    by (rule keeps_store) (auto simp: new_uuid_def intro: links_ok_frame)
  then show ?thesis unfolding open_conflict_def by (intro keeps_rules keeps_links_update) simp_all
qed

lemma link_steps_keep [keeps_rules]:
  "keeps links_ok (remote_copy (logged http) ctx identity)"
  "keeps links_ok (merged_fields user link task baseline local remote_fields remote)"
  "keeps links_ok (push_merged (logged http) env ctx identity remote remote_fields merged)"
  "keeps links_ok (recover_creation env ctx link)"
  unfolding remote_copy_def merged_fields_def push_merged_def recover_creation_def Let_def
  by (auto intro!: keeps_rules split: tasks_error.split list.split)

lemma sync_link_keeps [keeps_rules]:
  assumes "own_reference link"
  shows "keeps links_ok (sync_google_task_link (logged http) pf env ctx link)"
  unfolding sync_google_task_link_def sync_linked_def Let_def by (intro keeps_rules assms)

lemma sync_links_keeps:
  assumes "list_all own_reference ls" and "links_ok s"
  shows "links_ok (snd (sync_links (logged http) pf env ctx ls acc s))"
  using assms
proof (induction ls arbitrary: acc s)
  case (Cons link rest)
  obtain r w p log where r: "sync_google_task_link (logged http) pf env ctx link s = (r, w, p, log)" by (metis prod.exhaust)
  have "keeps links_ok (sync_google_task_link (logged http) pf env ctx link)" by (rule sync_link_keeps) (use Cons.prems in simp)
  then have "links_ok (snd (sync_google_task_link (logged http) pf env ctx link s))" using Cons.prems(2) unfolding keeps_def by blast
  then have ok: "links_ok (w, p, log)" by (simp add: r)
  then have "links_ok (update_links (this_link (tx_user ctx) (gl_id link)) (\<lambda>l. l\<lparr>gl_last_error := Some paused\<rparr>) w, p, log)"
    by (rule links_ok_update) simp_all
  with ok Cons show ?case by (simp add: r Let_def split: prod.split sum.split option.split)
qed simp

section \<open>A whole run\<close>

lemma link_id_free_Inr [simp]: "link_id_free i w = Inr u \<longleftrightarrow> i \<notin> gl_id ` set (gt_links w)"
  by (simp add: link_id_free_def)

lemma prepare_keeps [keeps_rules]: "keeps links_ok (job_op (prepare_link env user list timezone task))"
proof (rule keeps_op)
  fix w a w' and p :: "'a \<times> exchange_log"
  assume ok: "links_ok (w, p)" and res: "prepare_link env user list timezone task w = Inr (a, w')"
  obtain q log where p: "p = (q, log)" by (metis prod.exhaust)
  let ?w = "w\<lparr>drawn := Suc (drawn w)\<rparr>"
  have ok1: "links_ok (?w, q, log)" using ok unfolding p by (rule links_ok_frame) simp_all
  have i: "valid_uuid (uuid_supply w (drawn w))" using ok by (simp add: links_ok_def p)
  show "links_ok (w', p)"
    using res ok1 i unfolding p
    by (auto simp: prepare_link_def new_uuid_def Let_def own_reference_def split: if_splits intro!: links_ok_insert [OF ok1, simplified])
qed

lemma import_keeps [keeps_rules]: "keeps links_ok (job_op (import_google_task env user list timezone remote etag f))"
proof (rule keeps_op)
  fix w a w' and p :: "'a \<times> exchange_log"
  assume ok: "links_ok (w, p)" and res: "import_google_task env user list timezone remote etag f w = Inr (a, w')"
  obtain q log where p: "p = (q, log)" by (metis prod.exhaust)
  show "links_ok (w', p)"
  proof (cases "\<exists>l \<in> set (gt_links w). gl_user_id l = user \<and> gl_task_list_id l = list \<and> gl_external_task_id l = Some (gtk_id remote)")
    case True
    with res ok show ?thesis by (auto simp: import_google_task_def)
  next
    case False
    obtain d where d: "google_task_deadline env (tf_date f) None timezone = Inr d" using res by (auto simp: import_google_task_def)
    let ?position = "(case map t_position (filter (\<lambda>t. t_user_id t = user) (tasks w)) of [] \<Rightarrow> 0 | p # ps \<Rightarrow> fold max ps p) + 1"
    let ?row = "new_task (uuid_supply w (drawn w)) user None None (trim (tf_title f)) [] d None None
                    (if tf_completed f then Completed else Todo) Medium NoRecurrence [] None ?position
                    (if tf_completed f then Some (now w) else None) None (now w)"
    let ?w1 = "snd (new_uuid (insert_task ?row (snd (new_uuid w))))"
    let ?l = "\<lparr>gl_id = uuid_supply w (drawn (insert_task ?row (snd (new_uuid w)))), gl_user_id = user, gl_task_list_id = list, gl_task_id = uuid_supply w (drawn w),
                gl_external_task_id = Some (gtk_id remote), gl_external_etag = Some etag, gl_baseline = Some f, gl_phase = Linked,
                gl_create_reference = None, gl_conflict = None, gl_resolution = None, gl_last_error = None\<rparr>"
    have w': "w' = ?w1\<lparr>gt_links := gt_links ?w1 @ [?l]\<rparr> \<and> gl_id ?l \<notin> gl_id ` set (gt_links w)"
      using res False d by (simp add: import_google_task_def split_beta Let_def cong: if_cong)
    have ok1: "links_ok (?w1, q, log)" using ok unfolding p by (rule links_ok_frame) simp_all
    have "own_reference ?l" using ok by (simp add: own_reference_def links_ok_def p)
    with links_ok_insert [OF ok1, of ?l] w' show ?thesis by (simp add: p)
  qed
qed

lemma imports_keeps [keeps_rules]: "keeps links_ok (sync_imports env ctx ts acc)"
  by (induction ts arbitrary: acc) (auto intro!: keeps_rules split: sum.split option.split list.split)

lemma finish_keeps [keeps_rules]: "keeps links_ok (job_op (finish_google_tasks_batch user progress))"
  by (rule keeps_links_frame) (auto simp: finish_google_tasks_batch_def new_uuid_def Let_def split: if_splits)

lemma access_token_keeps [keeps_rules]: "keeps links_ok (access_token (logged_oauth oauth) user)"
proof -
  have "keeps links_ok (token_call (oa_refresh (logged_oauth oauth)) token)" for token
    unfolding keeps_def by (auto simp: token_call_def logged_oauth_def Let_def split: prod.split intro: links_ok_frame)
  moreover have "keeps links_ok (credentials_of user)"
    unfolding credentials_of_def by (rule keeps_links_frame) auto
  moreover have "keeps links_ok (job_update (update_google_access_token user sealed t))" for sealed t
    by (rule keeps_update) (auto simp: update_google_access_token_def intro: links_ok_frame)
  ultimately show ?thesis
    unfolding access_token_def oauth_access_token_def decrypted_def by (intro keeps_rules) (auto intro!: keeps_rules split: prod.split)
qed

lemma links_after_own:
  assumes "links_ok (w, p, log)"
  shows "list_all own_reference (links_after user list cursor w)"
proof -
  have "set (links_after user list cursor w) \<subseteq> set (gt_links w)"
    by (auto simp: links_after_def dest: in_set_takeD)
  with assms show ?thesis by (auto simp: links_ok_def list_all_iff)
qed

lemma keeps_query_bind:
  "(\<And>w p. P (w, p) \<Longrightarrow> keeps P (f (g w))) \<Longrightarrow> keeps P (job_bind (job_query g) f)"
  by (auto simp: keeps_def job_bind_def job_query_def)

lemma keeps_prod: "(\<And>a b. keeps P (f a b)) \<Longrightarrow> keeps P (case x of (a, b) \<Rightarrow> f a b)"
  by (cases x) simp

lemma batch_keeps [keeps_rules]: "keeps links_ok (sync_batch (logged http) pf env ctx)"
proof -
  have links: "keeps links_ok (sync_links (logged http) pf env ctx (take BATCH_SIZE (links_after user list cursor w)) acc)"
    if "links_ok (w, p, log)" for user list cursor w p log acc
  proof -
    have "list_all own_reference (take BATCH_SIZE (links_after user list cursor w))"
      using links_after_own [OF that] by (auto simp: list_all_iff dest: in_set_takeD)
    then show ?thesis unfolding keeps_def using sync_links_keeps by blast
  qed
  have batch: "keeps links_ok (job_op (\<lambda>w. bind_res (r w) (\<lambda>c. Inr (c, w))))" for r :: "world \<Rightarrow> 'x app_result"
    by (rule keeps_links_frame) auto
  show ?thesis
    unfolding sync_batch_def Let_def
    apply (rule keeps_bind, rule batch)
    apply (rule keeps_bind, rule keeps_pure)
    apply (rule keeps_bind, rule keeps_for, rule prepare_keeps)
    apply (rule keeps_query_bind)
    subgoal for _ _ _ w p
      by (cases p) (auto intro!: keeps_prod keeps_rules intro: links simp del: split_paired_All)
    done
qed

lemma run_keeps: "keeps links_ok (sync_google_tasks (logged http) (logged_oauth oauth) pf env user)"
proof -
  have "keeps links_ok (job_op (\<lambda>w. bind_res (google_tasks_status user w) (\<lambda>s. Inr (s, w))))" by (rule keeps_links_frame) auto
  then have "keeps links_ok (sync_google_tasks_inner (logged http) (logged_oauth oauth) pf env user)"
    unfolding sync_google_tasks_inner_def by (intro keeps_rules)
  note inner = this
  show ?thesis
    unfolding keeps_def
  proof (intro allI impI)
    fix s :: "world \<times> 'a \<times> exchange_log"
    assume "links_ok s"
    obtain r w p log where r: "sync_google_tasks_inner (logged http) (logged_oauth oauth) pf env user s = (r, w, p, log)"
      using prod.exhaust by metis
    have "links_ok (snd (sync_google_tasks_inner (logged http) (logged_oauth oauth) pf env user s))"
      using inner \<open>links_ok s\<close> unfolding keeps_def by blast
    then have "links_ok (w, p, log)" by (simp add: r)
    then show "links_ok (snd (sync_google_tasks (logged http) (logged_oauth oauth) pf env user s))"
      unfolding sync_google_tasks_def r prod.case Let_def snd_conv by (rule links_ok_frame) simp_all
  qed
qed

text \<open>
  Runs of the synchronization, each with its own provider and clock, interleaved with the user's choices and with
  everything else the server does; a crash between two statements leaves a state between two steps of a run, which
  the invariant covers because every single step keeps it.
\<close>

inductive tasks_step :: "world \<times> 'p \<times> exchange_log \<Rightarrow> unit list \<Rightarrow> world \<times> 'p \<times> exchange_log \<Rightarrow> bool" where
  sync: "sync_google_tasks (logged http) (logged_oauth oauth) pf env user s = (r, s') \<Longrightarrow> tasks_step s [] s'"
| leave: "leave_google_task_unlinked sync_free row_free clock user link w = Inr (u, w') \<Longrightarrow> tasks_step (w, p, log) [] (w', p, log)"
| resolve: "resolve_google_task_conflict sync_free row_free user link conflict choice w = Inr (u, w')
    \<Longrightarrow> tasks_step (w, p, log) [] (w', p, log)"
| other: "gt_links w' = gt_links w \<Longrightarrow> uuid_supply w' = uuid_supply w \<Longrightarrow> tasks_step (w, p, log) [] (w', p', log)"

lemma tasks_step_ok:
  assumes "tasks_step s xs s'" and "links_ok s"
  shows "links_ok s'"
  using assms
proof (induction rule: tasks_step.induct)
  case (sync http oauth pf env user s r s')
  have "links_ok (snd (sync_google_tasks (logged http) (logged_oauth oauth) pf env user s))"
    using run_keeps [of http oauth pf env user] sync.prems unfolding keeps_def by blast
  with sync.hyps show ?case by simp
next
  case (leave sync_free row_free clock user link w u w' p log)
  then have "\<exists>q. w' = update_links q set_detached w" by (auto simp: leave_google_task_unlinked_def Let_def)
  then obtain q where w': "w' = update_links q set_detached w" ..
  show ?case unfolding w' by (rule links_ok_update [OF leave.prems]) (simp_all add: set_detached_def)
next
  case (resolve sync_free row_free user link conflict choice w u w' p log)
  then have "\<exists>q. gt_links w' = gt_links (update_links q (\<lambda>l. l\<lparr>gl_resolution := Some choice\<rparr>) w) \<and> uuid_supply w' = uuid_supply w"
    by (auto simp: resolve_google_task_conflict_def Let_def update_links_def)
  then obtain q where w': "gt_links w' = gt_links (update_links q (\<lambda>l. l\<lparr>gl_resolution := Some choice\<rparr>) w)" "uuid_supply w' = uuid_supply w" by blast
  have "links_ok (update_links q (\<lambda>l. l\<lparr>gl_resolution := Some choice\<rparr>) w, p, log)" by (rule links_ok_update [OF resolve.prems]) simp_all
  then show ?case by (rule links_ok_frame) (simp_all add: w', simp add: update_links_def)
next
  case (other w' w p log p')
  then show ?case by (auto intro: links_ok_frame)
qed

text \<open>
  C3. A task is created at Google at most once. Over every run of the synchronization with any answers of the provider (lost
  answers, errors of the server, malformed bodies), interleaved with the choices of the user and everything else the
  server does, at most one request that carries the reference of a link is sent without Google refusing it with a
  client error; as long as a link is prepared none is.
\<close>

theorem tasks_are_created_at_most_once:
  assumes "steps tasks_step (w, p, []) xs (w', p', log)" and "gt_links w = []" and "\<And>n. valid_uuid (uuid_supply w n)"
  shows "\<forall>l \<in> set (gt_links w'). \<forall>reference. gl_create_reference l = Some reference \<longrightarrow> sent reference log \<le> 1
    \<and> (gl_phase l = Prepared \<longrightarrow> sent reference log = 0)"
proof -
  have "links_ok (w, p, [])" using assms(2,3) by (simp add: links_ok_def sent_def)
  then have ok: "links_ok (w', p', log)" using steps_invariant [OF assms(1), of links_ok] tasks_step_ok by blast
  show ?thesis
  proof (intro ballI allI impI)
    fix l reference
    assume l: "l \<in> set (gt_links w')" and ref: "gl_create_reference l = Some reference"
    have own: "valid_uuid (gl_id l)" "reference = create_reference (gl_id l)" using ok l ref by (auto simp: links_ok_def own_reference_def)
    then have one: "sent reference log \<le> 1" "sent reference log = 1 \<Longrightarrow> started (gl_id l) w'" using ok by (auto simp: links_ok_def)
    have "\<not> started (gl_id l) w'" if "gl_phase l = Prepared"
      using ok l that by (auto simp: started_def links_ok_def dest: distinct_map_inj)
    with one show "sent reference log \<le> 1 \<and> (gl_phase l = Prepared \<longrightarrow> sent reference log = 0)" by fastforce
  qed
qed

text \<open>
  A task of user 7 whose creation gets no answer: the first run leaves the link being created, the next ones send
  nothing more.
\<close>

definition example_tasks_world :: world where
  "example_tasks_world = empty_world\<lparr>uuid_supply := (\<lambda>n. min n 9), drawn := 1,
     users := [new_user 7 None ''a'' ''a'' None 0],
     google_accounts := [\<lparr>ga_user_id = 7, ga_encrypted_access_token = ''k'', ga_encrypted_refresh_token = None,
       ga_access_token_expires_at = None, ga_scopes = [TASKS_SCOPE], ga_connected_at = 0, ga_updated_at = 0\<rparr>],
     gt_connections := [new_connection 7 True (Some ''l'') (Some ''UTC'')],
     tasks := [example_row 0 None NoRecurrence 1024]\<rparr>"

definition example_env :: tasks_env where
  "example_env = \<lparr>tz_local = (\<lambda>_ t. t), tz_instant = (\<lambda>_ t. t), tz_known = (\<lambda>_. True), due_date = (\<lambda>_. None)\<rparr>"

definition lost_answers :: "unit tasks_provider" where
  "lost_answers req p = (if tq_method req = ''GET'' then (Some \<lparr>tr_status = 200, tr_size = 2, tr_complete = True, tr_content = TaskPage [] None\<rparr>, 0, ()) else (None, 0, ()))"

definition example_tokens :: "unit oauth" where
  "example_tokens = \<lparr>oa_decrypt = Some, oa_encrypt = id, oa_refresh = (\<lambda>_ p. (Inl [], 0, p)), oa_revoke = (\<lambda>_ p. (Inl [], 0, p))\<rparr>"

definition lost_run :: "world \<times> unit \<times> exchange_log \<Rightarrow> world \<times> unit \<times> exchange_log" where
  "lost_run s = snd (sync_google_tasks (logged lost_answers) (logged_oauth example_tokens) (ascii_platform 0) example_env 7 s)"



definition example_link :: gt_link_row where
  "example_link =
     \<lparr>gl_id = 1, gl_user_id = 7, gl_task_list_id = ''l'', gl_task_id = 0, gl_external_task_id = None, gl_external_etag = None,
      gl_baseline = Some \<lparr>tf_title = ''t'', tf_date = None, tf_completed = False\<rparr>, gl_phase = Creating,
      gl_create_reference = Some (create_reference 1), gl_conflict = None, gl_resolution = None, gl_last_error = Some paused\<rparr>"

definition example_stuck :: world where
  "example_stuck = example_tasks_world\<lparr>drawn := 2, gt_links := [example_link], gt_connections :=
     [(new_connection 7 True (Some ''l'') (Some ''UTC''))\<lparr>gc_last_error :=
        Some ''Google Tasks sync needs attention. Check permission, task conflicts, and retry.''\<rparr>]\<rparr>"

lemma example_reference: "chars_count (create_reference 1) \<le> 8192"
proof -
  have "chars_count (create_reference 1) \<le> length (create_reference 1)" by (simp add: chars_count_def)
  also have "\<dots> \<le> 8192" by (simp add: create_reference_def show_uuid_def Let_def)
  finally show ?thesis .
qed

lemmas lost_simps = sync_google_tasks_def sync_google_tasks_inner_def google_tasks_status_def connection_of_def tasks_authorized_def
  job_bind_def job_op_def job_query_def job_return_def job_fail_def job_of_def job_context_def job_client_def job_try_def job_update_def
  job_store_def access_token_def credentials_of_def store_google_credentials_def oauth_access_token_def decrypted_def account_of_def
  into_credentials_def client_tasks_def client_bind_def client_of_def url_def safe_segments_def pages_def pages_inner.simps send_tasks_def
  tasks_page_def MAX_PAGE_BYTES_def MAX_LIST_BYTES_def MAX_ITEMS_def require_def sync_batch_def unlinked_tasks_def BATCH_SIZE_def
  prepare_link_def new_uuid_def link_id_free_def links_after_def map_filter_def import_candidates_def finish_google_tasks_batch_def
  update_where_def sync_google_task_link_def deletion_held_def task_by_id_def create_copy_def claim_creation_def this_link_def
  update_links_def client_create_def google_task_fields_def local_date_def valid_fields_def google_fields_def proven_rejection_def
  recover_creation_def user_exists_def row_by_def logged_def logged_oauth_def Let_def second_def

lemmas lost_examples = example_tasks_world_def empty_world_def new_connection_def new_user_def example_tokens_def lost_answers_def
  example_row_def new_task_def example_link_def example_reference [simplified]

lemma lost_first: "\<exists>log. lost_run (example_tasks_world, (), []) = (example_stuck, (), log)"
  by (simp add: lost_run_def example_stuck_def lost_simps lost_examples)

lemma lost_again: "fst (lost_run (example_stuck, (), log)) = example_stuck"
  by (simp add: lost_run_def example_stuck_def lost_simps lost_examples)

lemma lost_step: "tasks_step s [] (lost_run s)"
  unfolding lost_run_def by (rule tasks_step.sync) (rule prod.collapse [symmetric])

theorem tasks_are_created_at_most_once_witness:
  "map gl_phase (gt_links (fst (lost_run (lost_run (example_tasks_world, (), []))))) = [Creating]
   \<and> sent (create_reference 1) (snd (snd (lost_run (lost_run (example_tasks_world, (), []))))) \<le> 1"
proof -
  obtain log where first: "lost_run (example_tasks_world, (), []) = (example_stuck, (), log)" using lost_first by blast
  obtain log' where again: "lost_run (example_stuck, (), log) = (example_stuck, (), log')"
    using lost_again [of log] by (metis (full_types) old.unit.exhaust prod.collapse)
  have "steps tasks_step (example_tasks_world, (), []) (([] @ []) @ []) (example_stuck, (), log')"
    using lost_step first again by (metis steps_refl steps_step)
  then have "\<forall>l \<in> set (gt_links example_stuck). \<forall>reference. gl_create_reference l = Some reference \<longrightarrow> sent reference log' \<le> 1
      \<and> (gl_phase l = Prepared \<longrightarrow> sent reference log' = 0)"
    by (rule tasks_are_created_at_most_once) (simp_all add: example_tasks_world_def empty_world_def valid_uuid_def min_def)
  then show ?thesis unfolding first again by (simp add: example_stuck_def example_link_def)
qed

end
