(* ===== verification/TaskMerge.thy ===== *)
theory TaskMerge
  imports TaskLinks Versions
begin

text \<open>
  What one synchronization of a linked task does with its fields: the day of a deadline comes back with the time it
  had, and after a run that succeeds the task, the copy Google acknowledged and the stored baseline agree on the merge
  of the two sides; a run that finds the same field changed on both sides writes nothing but the conflict.
\<close>

section \<open>Days and deadlines\<close>

lemma wall_of_day: "deadline_wall env z existing d div day = d"
proof -
  have "0 \<le> (case existing of None \<Rightarrow> 86399 * second | Some e \<Rightarrow> tz_local env z e mod day)"
    "(case existing of None \<Rightarrow> 86399 * second | Some e \<Rightarrow> tz_local env z e mod day) < day"
    by (simp_all add: day_def second_def split: option.split)
  then show ?thesis by (simp add: deadline_wall_def)
qed

lemma deadline_instant:
  assumes "google_task_deadline env (Some d) existing z = Inr t"
  shows "t = Some (chosen_instant env z existing (deadline_wall env z existing d))"
    and "tz_local env z (chosen_instant env z existing (deadline_wall env z existing d)) = deadline_wall env z existing d"
  using assms by (simp_all add: google_task_deadline_def Let_def)

lemma deadline_date:
  assumes "google_task_deadline env date existing z = Inr t"
  shows "local_date env z t = date"
proof (cases date)
  case None
  with assms show ?thesis by (simp add: google_task_deadline_def local_date_def)
next
  case (Some d)
  with deadline_instant [of env d existing z t] assms show ?thesis by (simp add: local_date_def wall_of_day)
qed

text \<open>
  The day of a deadline goes to Google and comes back without losing the time. A deadline computed from a day
  lies on that day in the zone of the connection, at the time of the day the task had before (the last second of the
  day for a task without deadline); the day a deadline already has gives the same instant, always; without a day
  there is no deadline.
\<close>

theorem google_days_keep_the_time:
  "(google_task_deadline env (Some d) existing z = Inr t \<longrightarrow>
      local_date env z t = Some d \<and> (\<exists>instant. t = Some instant
        \<and> tz_local env z instant mod day = (case existing of None \<Rightarrow> 86399 * second | Some e \<Rightarrow> tz_local env z e mod day)))
   \<and> google_task_deadline env (local_date env z (Some e)) (Some e) z = Inr (Some e)
   \<and> google_task_deadline env None existing z = Inr None"
proof (intro conjI impI)
  assume t: "google_task_deadline env (Some d) existing z = Inr t"
  show "local_date env z t = Some d" by (rule deadline_date [OF t])
  show "\<exists>instant. t = Some instant
      \<and> tz_local env z instant mod day = (case existing of None \<Rightarrow> 86399 * second | Some e \<Rightarrow> tz_local env z e mod day)"
    using deadline_instant [OF t] by (auto simp: deadline_wall_def day_def second_def split: option.split)
next
  have "deadline_wall env z (Some e) (tz_local env z e div day) = tz_local env z e" by (simp add: deadline_wall_def)
  then show "google_task_deadline env (local_date env z (Some e)) (Some e) z = Inr (Some e)"
    by (simp add: google_task_deadline_def local_date_def chosen_instant_def Let_def)
  show "google_task_deadline env None existing z = Inr None" by (simp add: google_task_deadline_def)
qed

theorem google_days_keep_the_time_witness:
  "google_task_deadline example_env (Some 3) (Some (5 * day + 7)) ''UTC'' = Inr (Some (3 * day + 7))
   \<and> local_date example_env ''UTC'' (Some (3 * day + 7)) = Some 3"
proof -
  have "google_task_deadline example_env (Some 3) (Some (5 * day + 7)) ''UTC'' = Inr (Some (3 * day + 7))"
    by (simp add: google_task_deadline_def deadline_wall_def chosen_instant_def example_env_def day_def second_def)
  with google_days_keep_the_time [of example_env 3 "Some (5 * day + 7)" "''UTC''"] show ?thesis by blast
qed

section \<open>Steps that only ask\<close>

lemma client_bind_eq_Inr: "client_bind m f s = (Inr b, s') \<longleftrightarrow> (\<exists>a t. m s = (Inr a, t) \<and> f a t = (Inr b, s'))"
  by (auto simp: client_bind_def split: prod.split sum.split)

lemma client_pure_eq_Inr:
  "job_context x msg s = (Inr b, s') \<longleftrightarrow> x = Some b \<and> s' = s"
  "tasks_result q s = (Inr b, s') \<longleftrightarrow> q = Inr b \<and> s' = s" "client_of q s = (Inr b, s') \<longleftrightarrow> q = Inr b \<and> s' = s"
  "job_client m s = (Inr b, s') \<longleftrightarrow> m s = (Inr b, s')"
  by (auto simp: job_return_def job_context_def job_of_def ok_or_def tasks_result_def client_of_def job_client_def job_fail_def
      split: option.split sum.split prod.split)

lemmas answers = job_bind_eq_Inr client_bind_eq_Inr job_pure_eq_Inr client_pure_eq_Inr

text \<open>A request moves the clock and the provider, nothing else.\<close>

definition clocked :: "world \<Rightarrow> world \<times> 'p \<Rightarrow> bool" where
  "clocked w0 s \<longleftrightarrow> (\<exists>k. fst s = w0\<lparr>now := k\<rparr>)"

lemma clocked_start: "clocked w (w, p)"
  unfolding clocked_def by (rule exI [of _ "now w"]) simp

lemma send_clocked [keeps_rules]: "keeps (clocked w0) (send_tasks http req)"
  unfolding keeps_def send_tasks_def Let_def
  by (auto simp: clocked_def split: prod.split option.split)

lemma get_clocked [keeps_rules]: "keeps (clocked w0) (client_get http token list task)"
  unfolding client_get_def by (intro keeps_rules)

lemma update_clocked [keeps_rules]: "keeps (clocked w0) (client_update http token list task etag f)"
  unfolding client_update_def by (intro keeps_rules)

lemma asking_clocked [keeps_rules]:
  "keeps (clocked w0) (remote_copy http ctx identity)"
  "keeps (clocked w0) (push_merged http env ctx identity remote g merged)"
  unfolding remote_copy_def push_merged_def by (auto intro!: keeps_rules split: tasks_error.split)

lemma send_answer_logged:
  assumes "send_tasks (logged http) req (w, p, log) = (Inr r, w', p', log')"
  shows "log' = log @ [(req, Some r)]"
  using assms by (auto simp: send_tasks_def logged_def Let_def split: prod.splits option.splits if_splits)

lemma task_content_eq: "task_content e r = Inr t \<longleftrightarrow> tr_content r = TaskContent t"
  by (simp add: task_content_def split: tasks_content.split)

lemma get_answer: "client_get http token list task s = (Inr t, s') \<Longrightarrow> gtk_id t = task"
  by (auto simp: client_get_def answers task_content_eq)

lemma update_answer:
  assumes "client_update (logged http) token list task etag f (w, p, log) = (Inr copy, w', p', log')"
  shows "gtk_id copy = task"
    and "\<exists>r. log' = log @ [(\<lparr>tq_method = ''PATCH'', tq_segments = [''lists'', list, ''tasks'', task], tq_query = [], tq_token = token,
        tq_body = TaskBody f None, tq_if_match = Some etag\<rparr>, Some r)] \<and> tr_content r = TaskContent copy"
proof -
  obtain r where "send_tasks (logged http) \<lparr>tq_method = ''PATCH'', tq_segments = [''lists'', list, ''tasks'', task], tq_query = [],
       tq_token = token, tq_body = TaskBody f None, tq_if_match = Some etag\<rparr> (w, p, log) = (Inr r, w', p', log')"
    and r: "tr_content r = TaskContent copy" "gtk_id copy = task"
    using assms by (auto simp: client_update_def answers url_def task_content_eq)
  from send_answer_logged [OF this(1)] r show "gtk_id copy = task"
    and "\<exists>r. log' = log @ [(\<lparr>tq_method = ''PATCH'', tq_segments = [''lists'', list, ''tasks'', task], tq_query = [], tq_token = token,
        tq_body = TaskBody f None, tq_if_match = Some etag\<rparr>, Some r)] \<and> tr_content r = TaskContent copy" by blast+
qed

lemma copy_answer:
  assumes "remote_copy http ctx identity s = (Inr (Some remote), s')"
  shows "gtk_id remote = identity"
proof (cases "row_by (\<lambda>t. gtk_id t = identity) (tx_remote ctx)")
  case (Some t)
  with assms show ?thesis by (auto simp: remote_copy_def answers dest: row_by_Some)
next
  case None
  obtain r t where r: "client_get http (tx_token ctx) (tx_list ctx) identity s = (r, t)" using prod.exhaust by blast
  with None assms have "r = Inr remote"
    by (cases r) (auto simp: remote_copy_def job_bind_def job_try_def job_pure_eq_Inr client_pure_eq_Inr split: tasks_error.splits)
  with r show ?thesis using get_answer by blast
qed

section \<open>The task takes the merged fields\<close>

lemma updated_row:
  assumes ok: "tasks_ok strict w" and res: "update_task pf user i req w = Inr (a, w')"
  shows "\<exists>t t'. task_by_id user i w' = Some t' \<and> t_title t' = trim (ut_title req) \<and> t_due_at t' = ut_due_at req \<and> t_status t' = ut_status req"
proof -
  have res': "update_task_scoped pf user i req None w = Inr (a, w')" using res by (simp add: update_task_def)
  obtain loaded r w1 t t' w3 ls where o: "update_outcome strict pf user i req None w a w' loaded r w1 t t' w3 ls"
    using update_task_outcome [OF ok res'] by blast
  then have row: "task_by_id user i w3 = Some t'"
    and next': "(if t_status r \<noteq> Completed \<and> t_status t' = Completed \<and> t_recurrence t' \<noteq> NoRecurrence
        then create_next_recurring_task pf user i w3 else Inr w3) = Inr w'"
    and t': "t' = set_task req ls (if ut_status req = Completed then Some (utc_now pf) else None) r (now w1) t"
    unfolding update_outcome_def by blast+
  have "t_title t' = trim (ut_title req)" "t_due_at t' = ut_due_at req" "t_status t' = ut_status req" unfolding t' by (simp_all add: set_task_def)
  with task_after_next [OF next' row] show ?thesis by blast
qed

lemma apply_merged_result:
  assumes ok: "tasks_ok strict w" and task: "task_by_id user i w = Some task" and title: "trim (tf_title merged) = tf_title merged"
    and run: "apply_merged pf env user z task (google_task_fields env z task) merged (w, p) = (Inr (), w', p')"
  shows "gt_links w' = gt_links w \<and> p' = p \<and> (\<exists>task'. task_by_id user i w' = Some task' \<and> google_task_fields env z task' = merged)"
proof (cases "merged = google_task_fields env z task")
  case True
  with run task show ?thesis by (simp add: apply_merged_def job_pure_eq_Inr)
next
  case False
  let ?local = "google_task_fields env z task"
  let ?status = "if tf_completed merged = tf_completed ?local then t_status task else if tf_completed merged then Completed else Todo"
  have id: "t_id task = i" using task by (auto simp: task_by_id_def dest: row_by_Some)
  obtain due a where due: "(if tf_date merged = tf_date ?local then Inr (t_due_at task)
       else google_task_deadline env (tf_date merged) (t_due_at task) z) = Inr due"
    and upd: "update_task pf user i (merged_request task merged due ?status) w = Inr (a, w')" and p: "p' = p"
    using run False by (auto simp: apply_merged_def answers job_op_eq_Inr Let_def id)
  from updated_row [OF ok upd] obtain task' where t': "task_by_id user i w' = Some task'" "t_title task' = tf_title merged"
    "t_due_at task' = due" "t_status task' = ?status" by (auto simp: merged_request_def title)
  have "local_date env z due = tf_date merged"
    using due deadline_date [of env "tf_date merged" "t_due_at task" z due] by (auto simp: google_task_fields_def split: if_splits)
  then have "google_task_fields env z task' = merged"
    using t' by (cases merged) (auto simp: google_task_fields_def)
  with t' update_task_links [OF upd] p show ?thesis by blast
qed

section \<open>Synchronizing a linked task\<close>

lemma merged_answer:
  assumes "merged_fields user link task b local g remote s = (Inr merged, s')"
  shows "s' = s" and "reconcile b local g = Inr merged \<or> (\<exists>choice x. gl_resolution link = Some choice \<and> gl_conflict link = Some x
    \<and> still_current x task local g remote \<and> merged = resolve_conflicting_fields b local g choice)"
  using assms by (auto simp: merged_fields_def answers Let_def split: sum.splits option.splits if_splits)

definition patch_request :: "task_sync_context \<Rightarrow> string \<Rightarrow> string option \<Rightarrow> task_fields \<Rightarrow> tasks_request" where
  "patch_request ctx identity etag f =
     \<lparr>tq_method = ''PATCH'', tq_segments = [''lists'', tx_list ctx, ''tasks'', identity], tq_query = [], tq_token = tx_token ctx,
      tq_body = TaskBody f None, tq_if_match = etag\<rparr>"

lemma push_answer:
  assumes run: "push_merged (logged http) env ctx identity remote g merged (w, p, log) = (Inr copy, w', p', log')"
    and remote: "gtk_id remote = identity" "google_fields (due_date env) remote = Inr g"
  shows "gtk_id copy = identity \<and> google_fields (due_date env) copy = Inr merged
    \<and> (copy = remote \<and> merged = g \<and> log' = log
       \<or> (\<exists>r. log' = log @ [(patch_request ctx identity (gtk_etag remote) merged, Some r)] \<and> tr_content r = TaskContent copy))"
proof (cases "merged = g")
  case True
  with run remote show ?thesis by (simp add: push_merged_def job_pure_eq_Inr)
next
  case False
  then obtain etag where etag: "gtk_etag remote = Some etag"
    and upd: "client_update (logged http) (tx_token ctx) (tx_list ctx) identity etag merged (w, p, log) = (Inr copy, w', p', log')"
    and f: "google_fields (due_date env) copy = Inr merged"
    using run by (auto simp: push_merged_def answers split: if_splits)
  from update_answer [OF upd] f show ?thesis by (simp add: etag patch_request_def)
qed

lemma record_answer:
  assumes "record_google_task_link user i copy f (w, p) = (Inr u, w', p')"
  shows "\<exists>etag. gtk_etag copy = Some etag \<and> w' = update_links (this_link user i) (set_linked copy etag f) w \<and> p' = p"
  using assms by (auto simp: record_google_task_link_def job_store_def job_fail_def Let_def split: option.splits list.splits if_splits)

lemma google_title_trimmed: "google_fields dd t = Inr f \<Longrightarrow> trim (tf_title f) = tf_title f"
  by (auto simp: google_fields_def Let_def)

lemma sync_linked_answer:
  assumes run: "sync_linked http pf env ctx link task local (w, p) = (Inr (Some identity), w', p')"
  obtains remote g b merged copy w1 p1 w2 p2 w3 p3 where
    "remote_copy http ctx identity (w, p) = (Inr (Some remote), w1, p1)" "google_fields (due_date env) remote = Inr g"
    "gl_baseline link = Some b" "merged_fields (tx_user ctx) link task b local g remote (w1, p1) = (Inr merged, w1, p1)"
    "push_merged http env ctx identity remote g merged (w1, p1) = (Inr copy, w2, p2)"
    "apply_merged pf env (tx_user ctx) (tx_timezone ctx) task local merged (w2, p2) = (Inr (), w3, p3)"
    "record_google_task_link (tx_user ctx) (gl_id link) copy merged (w3, p3) = (Inr (), w', p')"
proof -
  obtain x c s1 where x: "remote_copy http ctx x (w, p) = (Inr c, s1)"
    and rest: "(case c of None \<Rightarrow> job_bind (detach_google_task (tx_user ctx) (gl_id link)) (\<lambda>_. job_return None)
     | Some remote \<Rightarrow>
         if gtk_deleted remote then job_bind (detach_google_task (tx_user ctx) (gl_id link)) (\<lambda>_. job_return None)
         else job_bind (tasks_result (google_fields (due_date env) remote)) (\<lambda>remote_fields.
              job_bind (job_context (gl_baseline link) ''Missing baseline'') (\<lambda>baseline.
              job_bind (merged_fields (tx_user ctx) link task baseline local remote_fields remote) (\<lambda>merged.
              job_bind (push_merged http env ctx x remote remote_fields merged) (\<lambda>acknowledged.
              job_bind (apply_merged pf env (tx_user ctx) (tx_timezone ctx) task local merged) (\<lambda>_.
              job_bind (record_google_task_link (tx_user ctx) (gl_id link) acknowledged merged) (\<lambda>_.
              job_return (Some x)))))))) s1 = (Inr (Some identity), w', p')"
    using run by (auto simp: sync_linked_def answers)
  obtain remote where "c = Some remote" "\<not> gtk_deleted remote"
    using rest by (cases c) (auto simp: answers split: if_splits)
  with rest x that show thesis
    by (auto simp: answers) (metis merged_answer(1) prod.exhaust)
qed

text \<open>
  C4. After a synchronization of a linked task that succeeds, the task, the copy at Google and the baseline hold the
  same fields: the merge of the local fields and those of the copy Google had, or the choice of the user for exactly this conflict.
  Google has them already, or acknowledged them to a PATCH that was conditional on the version the merge was made
  from; the row of the link names this copy and its new version.
\<close>

theorem linked_tasks_agree_after_sync:
  assumes ok: "tasks_ok strict w" and link: "link \<in> set (gt_links w)" "gl_user_id link = tx_user ctx" "gl_phase link = Linked"
    and run: "sync_google_task_link (logged http) pf env ctx link (w, p, log) = (Inr (Some identity), w', p', log')"
  shows "\<exists>task task' remote g b copy merged l. task_by_id (tx_user ctx) (gl_task_id link) w = Some task
    \<and> task_by_id (tx_user ctx) (gl_task_id link) w' = Some task' \<and> google_task_fields env (tx_timezone ctx) task' = merged
    \<and> (\<exists>t. remote_copy (logged http) ctx identity (w, p, log) = (Inr (Some remote), t)) \<and> google_fields (due_date env) remote = Inr g \<and> gl_baseline link = Some b
    \<and> (reconcile b (google_task_fields env (tx_timezone ctx) task) g = Inr merged
       \<or> (\<exists>choice x. gl_resolution link = Some choice \<and> gl_conflict link = Some x
            \<and> still_current x task (google_task_fields env (tx_timezone ctx) task) g remote
            \<and> merged = resolve_conflicting_fields b (google_task_fields env (tx_timezone ctx) task) g choice))
    \<and> gtk_id remote = identity \<and> gtk_id copy = identity \<and> google_fields (due_date env) copy = Inr merged
    \<and> (copy = remote \<and> merged = g
       \<or> (\<exists>r. last log' = (patch_request ctx identity (gtk_etag remote) merged, Some r) \<and> tr_content r = TaskContent copy))
    \<and> l \<in> set (gt_links w') \<and> gl_id l = gl_id link \<and> gl_phase l = Linked \<and> gl_external_task_id l = Some identity
    \<and> gl_external_etag l = gtk_etag copy \<and> gl_baseline l = Some merged \<and> gl_conflict l = None"
proof -
  let ?user = "tx_user ctx" and ?i = "gl_task_id link" and ?z = "tx_timezone ctx"
  obtain task where task: "task_by_id ?user ?i w = Some task"
    and linked: "sync_linked (logged http) pf env ctx link task (google_task_fields env ?z task) (w, p, log) = (Inr (Some identity), w', p', log')"
    using run link(3) by (auto simp: sync_google_task_link_def job_bind_def job_query_def Let_def job_pure_eq_Inr detach_google_task_def job_update_def
        split: if_splits option.splits)
  from linked obtain remote g b merged copy w1 q1 w2 q2 w3 q3 where
    s: "remote_copy (logged http) ctx identity (w, p, log) = (Inr (Some remote), w1, q1)" "google_fields (due_date env) remote = Inr g"
      "gl_baseline link = Some b" "merged_fields ?user link task b (google_task_fields env ?z task) g remote (w1, q1) = (Inr merged, w1, q1)"
      "push_merged (logged http) env ctx identity remote g merged (w1, q1) = (Inr copy, w2, q2)"
      "apply_merged pf env ?user ?z task (google_task_fields env ?z task) merged (w2, q2) = (Inr (), w3, q3)"
      "record_google_task_link ?user (gl_id link) copy merged (w3, q3) = (Inr (), w', p', log')"
    by (rule sync_linked_answer)
  obtain p1 log1 p2 log2 where q: "q1 = (p1, log1)" "q2 = (p2, log2)" by (metis prod.exhaust)
  have "clocked w (w1, q1)" using keepsD [OF asking_clocked(1) clocked_start s(1)] .
  then have "clocked w (w2, q2)" using keepsD [OF asking_clocked(2) _ s(5)] by blast
  then obtain k where w2: "w2 = w\<lparr>now := k\<rparr>" by (auto simp: clocked_def)
  have push: "gtk_id copy = identity" "google_fields (due_date env) copy = Inr merged"
    "copy = remote \<and> merged = g \<or> (\<exists>r. log2 = log1 @ [(patch_request ctx identity (gtk_etag remote) merged, Some r)] \<and> tr_content r = TaskContent copy)"
    using push_answer [OF s(5) [unfolded q] copy_answer [OF s(1)] s(2)] by blast+
  have ok2: "tasks_ok strict w2" using ok by (simp add: w2 tasks_ok_clock)
  have task2: "task_by_id ?user ?i w2 = Some task" using task by (simp add: w2)
  obtain task' where task': "gt_links w3 = gt_links w" "q3 = q2" "task_by_id ?user ?i w3 = Some task'" "google_task_fields env ?z task' = merged"
    using apply_merged_result [OF ok2 task2 google_title_trimmed [OF push(2)] s(6)] w2 by auto
  obtain etag where rec: "gtk_etag copy = Some etag" "w' = update_links (this_link ?user (gl_id link)) (set_linked copy etag merged) w3"
    "(p', log') = q3" using record_answer [OF s(7)] by blast
  let ?l = "set_linked copy etag merged link"
  have row: "?l \<in> set (gt_links w')" "gl_id ?l = gl_id link" "gl_phase ?l = Linked" "gl_external_task_id ?l = Some identity"
      "gl_external_etag ?l = gtk_etag copy" "gl_baseline ?l = Some merged" "gl_conflict ?l = None"
    using link task'(1) by (force simp: rec update_links_def set_update_where this_link_def) (simp_all add: set_linked_def rec push(1))
  have after: "task_by_id ?user ?i w' = Some task'" using task'(3) by (simp add: rec update_links_def task_by_id_def)
  have sent: "copy = remote \<and> merged = g
      \<or> (\<exists>r. last log' = (patch_request ctx identity (gtk_etag remote) merged, Some r) \<and> tr_content r = TaskContent copy)"
    using push(3) rec(3) q task'(2) by auto
  have got: "\<exists>t. remote_copy (logged http) ctx identity (w, p, log) = (Inr (Some remote), t)" using s(1) by blast
  note facts = task after task'(4) got s(2,3) merged_answer(2) [OF s(4)] copy_answer [OF s(1)] push(1,2) sent row
  show ?thesis
    by (intro exI [of _ task] exI [of _ task'] exI [of _ remote] exI [of _ g] exI [of _ b] exI [of _ copy] exI [of _ merged]
        exI [of _ ?l] conjI) (rule facts)+
qed

definition example_context :: task_sync_context where
  "example_context = \<lparr>tx_user = 7, tx_list = ''l'', tx_timezone = ''UTC'', tx_token = ''k'', tx_remote =
     [\<lparr>gtk_id = ''x'', gtk_etag = Some ''1'', gtk_title = ''u'', gtk_due = None, gtk_status = Some ''completed'', gtk_deleted = False,
       gtk_hidden = False, gtk_notes = None, gtk_assigned = False\<rparr>]\<rparr>"

definition linked_example :: gt_link_row where
  "linked_example = example_link\<lparr>gl_phase := Linked, gl_external_task_id := Some ''x'', gl_external_etag := Some ''0'',
     gl_baseline := Some \<lparr>tf_title = ''u'', tf_date = None, tf_completed = False\<rparr>\<rparr>"

definition obliging :: "unit tasks_provider" where
  "obliging req p = (Some \<lparr>tr_status = 200, tr_size = 2, tr_complete = True, tr_content = TaskContent
     \<lparr>gtk_id = ''x'', gtk_etag = Some ''2'', gtk_title = ''t'', gtk_due = None, gtk_status = Some ''completed'', gtk_deleted = False,
      gtk_hidden = False, gtk_notes = None, gtk_assigned = False\<rparr>\<rparr>, 0, ())"

lemma trim_examples: "trim ''u'' = ''u''" "trim ''1'' = ''1''" "chars_count ''u'' = 1"
  by (simp_all add: trim_visible visible_def chars_count_def)

definition linked_world :: world where
  "linked_world = (one_task NoRecurrence)\<lparr>gt_links := [linked_example]\<rparr>"

lemma linked_example_run:
  "\<exists>w' log'. sync_google_task_link (logged obliging) (ascii_platform 0) example_env example_context linked_example
     (linked_world, (), []) = (Inr (Some ''x''), w', (), log')"
  by (simp add: lost_simps lost_examples example_context_def linked_example_def obliging_def sync_linked_def remote_copy_def
      tasks_result_def merged_fields_def reconcile_def merge_def push_merged_def client_update_def task_content_def no_etag_def
      apply_merged_def merged_request_def update_task_def update_task_scoped_def run_simps record_google_task_link_def
      identity_taken_def trim_examples ascii_platform_def update_tasks_def set_task_def shared_fields_changed_def linked_world_def one_task_def)

lemma linked_example_fields:
  "gl_user_id linked_example = 7" "gl_task_id linked_example = 0" "gl_phase linked_example = Linked" "gl_resolution linked_example = None"
  "gl_baseline linked_example = Some \<lparr>tf_title = ''u'', tf_date = None, tf_completed = False\<rparr>"
  "tx_user example_context = 7" "tx_timezone example_context = ''UTC''" "linked_example \<in> set (gt_links linked_world)"
  by (simp_all add: linked_example_def example_link_def example_context_def linked_world_def)

theorem linked_tasks_agree_after_sync_witness:
  "\<exists>w' log'. sync_google_task_link (logged obliging) (ascii_platform 0) example_env example_context linked_example
       (linked_world, (), []) = (Inr (Some ''x''), w', (), log')
     \<and> map_option (google_task_fields example_env ''UTC'') (task_by_id 7 0 w') = Some \<lparr>tf_title = ''t'', tf_date = None, tf_completed = True\<rparr>"
proof -
  obtain w' log' where run: "sync_google_task_link (logged obliging) (ascii_platform 0) example_env example_context linked_example
      (linked_world, (), []) = (Inr (Some ''x''), w', (), log')" using linked_example_run by blast
  have "tasks_ok True linked_world"
    by (rule tasks_ok_frame [OF tasks_ok_one_task [of True NoRecurrence]]) (simp_all add: linked_world_def grows_def)
  from linked_tasks_agree_after_sync [OF this _ _ _ run] obtain task task' remote g merged where
      "task_by_id 7 0 linked_world = Some task" "task_by_id 7 0 w' = Some task'"
      "google_task_fields example_env ''UTC'' task' = merged"
      "\<exists>t. remote_copy (logged obliging) example_context ''x'' (linked_world, (), []) = (Inr (Some remote), t)"
      "google_fields (due_date example_env) remote = Inr g"
      "reconcile \<lparr>tf_title = ''u'', tf_date = None, tf_completed = False\<rparr> (google_task_fields example_env ''UTC'' task) g = Inr merged"
    unfolding linked_example_fields using linked_example_fields(8) by auto
  moreover from this have "merged = \<lparr>tf_title = ''t'', tf_date = None, tf_completed = True\<rparr>"
    by (auto simp: linked_world_def one_task_def task_by_id_def row_by_def remote_copy_def example_context_def job_return_def google_fields_def
        example_row_def new_task_def trim_examples valid_fields_def google_task_fields_def local_date_def reconcile_def merge_def)
  ultimately show ?thesis using run by auto
qed

section \<open>Conflicts\<close>

definition both_changed :: string where
  "both_changed = ''Both apps changed the same task field''"

lemma sync_linked_conflict:
  assumes task: "task_by_id (tx_user ctx) (gl_task_id link) w = Some task" and held: "\<not> deletion_held (tx_user ctx) (gl_task_id link) (now w) w"
    and link: "gl_phase link = Linked" "gl_external_task_id link = Some identity" "gl_baseline link = Some b"
    and remote: "row_by (\<lambda>t. gtk_id t = identity) (tx_remote ctx) = Some remote" "\<not> gtk_deleted remote" "google_fields (due_date env) remote = Inr g"
    and merge: "merged_fields (tx_user ctx) link task b (google_task_fields env (tx_timezone ctx) task) g remote (w, p) = (Inl e, s')"
  shows "sync_google_task_link http pf env ctx link (w, p) = (Inl e, s')"
  using assms by (simp add: sync_google_task_link_def sync_linked_def remote_copy_def job_bind_def job_query_def job_context_def job_of_def ok_or_def
      job_return_def tasks_result_def Let_def)

text \<open>
  C5. A field that was changed on both sides is not overwritten on either. The synchronization of such a link fails
  without a request to Google and without touching a task; the link holds the conflict with both versions of the
  fields, the other links are as before, and synchronizing again changes nothing until the user chooses.
\<close>

theorem conflicting_edits_wait_for_the_user:
  assumes task: "task_by_id (tx_user ctx) (gl_task_id link) w = Some task" and held: "\<not> deletion_held (tx_user ctx) (gl_task_id link) (now w) w"
    and link: "link \<in> set (gt_links w)" "gl_user_id link = tx_user ctx" "gl_phase link = Linked" "gl_external_task_id link = Some identity"
      "gl_baseline link = Some b"
    and remote: "row_by (\<lambda>t. gtk_id t = identity) (tx_remote ctx) = Some remote" "\<not> gtk_deleted remote" "google_fields (due_date env) remote = Inr g"
      "gtk_etag remote = Some etag"
    and merge: "reconcile b (google_task_fields env (tx_timezone ctx) task) g = Inl field"
    and open': "gl_resolution link = None"
  shows "\<exists>w' x. sync_google_task_link http pf env ctx link (w, p) = (Inl both_changed, w', p) \<and> tasks w' = tasks w
    \<and> gx_local x = google_task_fields env (tx_timezone ctx) task \<and> gx_google x = g \<and> gx_task_version x = t_version task \<and> gx_remote_etag x = etag
    \<and> link\<lparr>gl_conflict := Some x\<rparr> \<in> set (gt_links w') \<and> {l \<in> set (gt_links w'). gl_id l \<noteq> gl_id link} = {l \<in> set (gt_links w). gl_id l \<noteq> gl_id link}
    \<and> sync_google_task_link http pf env ctx (link\<lparr>gl_conflict := Some x\<rparr>) (w', p) = (Inl both_changed, w', p)"
proof -
  let ?user = "tx_user ctx" and ?local = "google_task_fields env (tx_timezone ctx) task"
  let ?merged = "\<lambda>k. merged_fields ?user k task b ?local g remote"
  have stay: "?merged (link\<lparr>gl_conflict := Some x\<rparr>) (v, p) = (Inl both_changed, v, p)" if "still_current x task ?local g remote" for x v
    using merge open' that by (simp add: merged_fields_def both_changed_def job_bind_def job_return_def job_fail_def)
  show ?thesis
  proof (cases "\<exists>x. gl_conflict link = Some x \<and> still_current x task ?local g remote")
    case True
    then obtain x where x: "gl_conflict link = Some x" "still_current x task ?local g remote" by blast
    have same: "link\<lparr>gl_conflict := Some x\<rparr> = link" using x(1) by (cases link) simp
    have "sync_google_task_link http pf env ctx link (w, p) = (Inl both_changed, w, p)"
      using stay [OF x(2), of w] by (intro sync_linked_conflict [OF task held link(3-5) remote(1-3)]) (simp add: same)
    with x link(1) remote(4) show ?thesis
      by (intro exI [of _ w] exI [of _ x]) (simp add: same still_current_def)
  next
    case False
    let ?x = "\<lparr>gx_id = fst (new_uuid w), gx_link_id = gl_id link, gx_task_id = t_id task, gx_task_version = t_version task, gx_remote_etag = etag,
        gx_local = ?local, gx_google = g\<rparr>"
    let ?w = "update_links (this_link ?user (gl_id link)) (\<lambda>l. l\<lparr>gl_conflict := Some ?x, gl_resolution := None\<rparr>) (snd (new_uuid w))"
    let ?link = "link\<lparr>gl_conflict := Some ?x\<rparr>"
    have "?merged link (w, p) = (Inl both_changed, ?w, p)"
      using merge False remote(4)
      by (auto simp: merged_fields_def both_changed_def job_bind_def job_return_def job_fail_def open_conflict_def job_store_def job_context_def
          job_of_def job_update_def new_uuid_def Let_def split: option.split)
    then have first: "sync_google_task_link http pf env ctx link (w, p) = (Inl both_changed, ?w, p)"
      by (rule sync_linked_conflict [OF task held link(3-5) remote(1-3)])
    have current: "still_current ?x task ?local g remote" using remote(4) by (simp add: still_current_def)
    have again: "sync_google_task_link http pf env ctx ?link (?w, p) = (Inl both_changed, ?w, p)"
      by (rule sync_linked_conflict [OF _ _ _ _ _ remote(1-3)])
        (use task held link stay [OF current] in \<open>simp_all add: new_uuid_def update_links_def task_by_id_def deletion_held_def\<close>)
    have "?link \<in> set (gt_links ?w)"
      using link(1,2) open' by (force simp: update_links_def set_update_where this_link_def new_uuid_def intro!: image_eqI [of _ _ link])
    moreover have "{l \<in> set (gt_links ?w). gl_id l \<noteq> gl_id link} = {l \<in> set (gt_links w). gl_id l \<noteq> gl_id link}"
      by (auto simp: update_links_def set_update_where this_link_def new_uuid_def image_iff)
    moreover have "tasks ?w = tasks w" by (simp add: update_links_def new_uuid_def)
    ultimately show ?thesis using first again by (intro exI [of _ ?w] exI [of _ ?x]) simp
  qed
qed

definition example_rival :: google_task where
  "example_rival = \<lparr>gtk_id = ''x'', gtk_etag = Some ''1'', gtk_title = ''1'', gtk_due = None, gtk_status = Some ''needsAction'', gtk_deleted = False,
     gtk_hidden = False, gtk_notes = None, gtk_assigned = False\<rparr>"

theorem conflicting_edits_wait_for_the_user_witness:
  "\<exists>w' x. sync_google_task_link (logged obliging) (ascii_platform 0) example_env (example_context\<lparr>tx_remote := [example_rival]\<rparr>) linked_example
       (linked_world, (), []) = (Inl both_changed, w', (), []) \<and> tasks w' = tasks linked_world
     \<and> tf_title (gx_local x) = ''t'' \<and> tf_title (gx_google x) = ''1'' \<and> linked_example\<lparr>gl_conflict := Some x\<rparr> \<in> set (gt_links w')"
proof -
  let ?ctx = "example_context\<lparr>tx_remote := [example_rival]\<rparr>" and ?row = "example_row 0 None NoRecurrence 1024"
  let ?b = "\<lparr>tf_title = ''u'', tf_date = None, tf_completed = False\<rparr>" and ?g = "\<lparr>tf_title = ''1'', tf_date = None, tf_completed = False\<rparr>"
  have "task_by_id (tx_user ?ctx) (gl_task_id linked_example) linked_world = Some ?row"
      "\<not> deletion_held (tx_user ?ctx) (gl_task_id linked_example) (now linked_world) linked_world"
    by (simp_all add: linked_example_fields linked_world_def one_task_def task_by_id_def row_by_def example_row_def new_task_def
        deletion_held_def empty_world_def)
  moreover have "google_task_fields example_env (tx_timezone ?ctx) ?row = \<lparr>tf_title = ''t'', tf_date = None, tf_completed = False\<rparr>"
    by (simp add: google_task_fields_def local_date_def example_row_def new_task_def)
  moreover have "row_by (\<lambda>t. gtk_id t = ''x'') (tx_remote ?ctx) = Some example_rival" "\<not> gtk_deleted example_rival" "gtk_etag example_rival = Some ''1''"
      "google_fields (due_date example_env) example_rival = Inr ?g"
    by (simp_all add: row_by_def example_rival_def google_fields_def trim_examples valid_fields_def chars_count_def)
  moreover have "reconcile ?b \<lparr>tf_title = ''t'', tf_date = None, tf_completed = False\<rparr> ?g = Inl ConflictTitle"
    by (simp add: reconcile_def merge_def)
  ultimately show ?thesis
    using conflicting_edits_wait_for_the_user [of ?ctx linked_example linked_world ?row "''x''" ?b example_rival example_env ?g "''1''" ConflictTitle
        "logged obliging" "ascii_platform 0" "((), [])"]
    by (simp add: linked_example_fields) (force simp: linked_example_def example_link_def)
qed

end
