(* ===== verification/Config.thy ===== *)
theory Config
  imports Auth
begin

text \<open>
  \<open>config.rs\<close>: the configuration of the server from its environment variables. A variable is missing, not
  valid Unicode, or has a value. The integer and boolean parsers are those of the Rust standard library, as are the
  components of a Unix path; the parsers of socket addresses, UUIDs and URLs are the arguments in \<open>parsers\<close>.
\<close>

section \<open>Standard parsers\<close>

definition digit :: "char \<Rightarrow> nat option" where
  "digit c = (let n = (of_char c :: nat) in if 48 \<le> n \<and> n \<le> 57 then Some (n - 48) else None)"

fun parse_digits :: "nat \<Rightarrow> string \<Rightarrow> nat option" where
  "parse_digits acc [] = Some acc"
| "parse_digits acc (c # cs) = (case digit c of None \<Rightarrow> None | Some d \<Rightarrow> parse_digits (10 * acc + d) cs)"

definition parse_nat :: "string \<Rightarrow> nat option" where
  "parse_nat s = (if s = [] then None else parse_digits 0 s)"

definition parse_unsigned :: "nat \<Rightarrow> string \<Rightarrow> nat option" where
  "parse_unsigned bits s =
     Option.bind (parse_nat (case s of c # cs \<Rightarrow> if c = CHR ''+'' then cs else s | [] \<Rightarrow> [])) (\<lambda>n.
     if n < 2 ^ bits then Some n else None)"

definition parse_signed :: "nat \<Rightarrow> string \<Rightarrow> int option" where
  "parse_signed bits s =
     Option.bind (case s of
         c # cs \<Rightarrow> if c = CHR ''-'' then map_option (\<lambda>n. - int n) (parse_nat cs)
                    else map_option int (parse_nat (if c = CHR ''+'' then cs else s))
       | [] \<Rightarrow> None) (\<lambda>i.
     if - (2 ^ (bits - 1)) \<le> i \<and> i < 2 ^ (bits - 1) then Some i else None)"

definition parse_bool :: "string \<Rightarrow> bool option" where
  "parse_bool s = (if s = ''true'' then Some True else if s = ''false'' then Some False else None)"

section \<open>The configuration\<close>

datatype environment = Development | Test | Production

definition environment_from_str :: "string \<Rightarrow> (string, environment) res" where
  "environment_from_str value =
     (if value = ''development'' then Inr Development
      else if value = ''test'' then Inr Test
      else if value = ''production'' then Inr Production
      else Inl ''APP_ENV must be development, test, or production'')"

record google_oauth_config =
  oc_client_id :: string
  oc_client_secret :: string
  oc_redirect_uri :: string
  oc_token_encryption_key :: string

datatype object_storage_config =
    LocalStorage (storage_root: string)
  | S3Storage (s3_bucket: string) (s3_region: string) (s3_endpoint: "string option") (s3_public_endpoint: "string option")
      (s3_access_key_id: string) (s3_secret_access_key: string) (s3_allow_http: bool) (s3_virtual_hosted_style: bool)

record config =
  cf_environment :: environment
  cf_bind_address :: string
  cf_database_url :: string
  cf_database_max_connections :: nat
  cf_cors_allowed_origin :: string
  cf_app_url :: string
  cf_allow_insecure_dev_auth :: bool
  cf_invite_only :: bool
  cf_trust_proxy_headers :: bool
  cf_google_oauth :: "google_oauth_config option"
  cf_object_storage :: object_storage_config
  cf_max_file_size_bytes :: nat
  cf_max_user_file_storage_bytes :: int
  cf_max_total_file_storage_bytes :: int
  cf_max_user_accounts :: "int option"
  cf_admin_user_ids :: "uuid set"
  cf_worker_trigger_token :: "string option"
  cf_google_calendar_webhook_url :: "string option"

datatype env_var = NotPresent | NotUnicode | EnvValue string

record parsers =
  ps_socket_addr :: "string \<Rightarrow> string option"
  ps_uuid :: "string \<Rightarrow> uuid option"
  ps_url_scheme :: "string \<Rightarrow> string option"

definition var_ok :: "(string \<Rightarrow> env_var) \<Rightarrow> string \<Rightarrow> string option" where
  "var_ok env name = (case env name of EnvValue v \<Rightarrow> Some v | _ \<Rightarrow> None)"

definition var_or :: "(string \<Rightarrow> env_var) \<Rightarrow> string \<Rightarrow> string \<Rightarrow> string" where
  "var_or env name d = (case var_ok env name of Some v \<Rightarrow> v | None \<Rightarrow> d)"

definition not_blank :: "string option \<Rightarrow> string option" where
  "not_blank v = (case v of Some s \<Rightarrow> if trim s \<noteq> [] then Some s else None | None \<Rightarrow> None)"

definition env_nonempty :: "(string \<Rightarrow> env_var) \<Rightarrow> string \<Rightarrow> string option" where
  "env_nonempty env name = not_blank (var_ok env name)"

section \<open>Object storage\<close>

definition path_parts :: "string \<Rightarrow> string list" where
  "path_parts root = filter (\<lambda>c. c \<noteq> [] \<and> c \<noteq> ''.'') (split_on (CHR ''/'') root)"

definition unsafe_root :: "string \<Rightarrow> bool" where
  "unsafe_root root \<longleftrightarrow>
     \<not> starts_with root ''/'' \<or> trim root \<noteq> root \<or> CHR 0x00 \<in> set root
     \<or> \<not> list_ex (\<lambda>c. c \<noteq> ''..'') (path_parts root) \<or> list_ex (\<lambda>c. c = ''..'') (path_parts root)"

definition s3_keys :: "string list" where
  "s3_keys = [''S3_BUCKET'', ''S3_REGION'', ''S3_ACCESS_KEY_ID'', ''S3_SECRET_ACCESS_KEY'', ''S3_ENDPOINT'',
     ''S3_PUBLIC_ENDPOINT'', ''S3_ALLOW_HTTP'', ''S3_VIRTUAL_HOSTED_STYLE'']"

definition local_storage :: "(string \<Rightarrow> string option) \<Rightarrow> (string, object_storage_config) res" where
  "local_storage get =
     (if list_ex (\<lambda>key. not_blank (get key) \<noteq> None) s3_keys
      then Inl ''local file storage cannot be combined with S3 configuration''
      else bind_res (ok_or (get ''FILE_STORAGE_PATH'') ''FILE_STORAGE_PATH is required for explicit local storage'') (\<lambda>root.
           if unsafe_root root
           then Inl ''FILE_STORAGE_PATH must be an absolute directory below root without parent traversal''
           else Inr (LocalStorage root)))"

definition flag :: "(string \<Rightarrow> string option) \<Rightarrow> string \<Rightarrow> (string, bool) res" where
  "flag get name = ok_or (parse_bool (case get name of Some v \<Rightarrow> v | None \<Rightarrow> ''false'')) (name @ '' must be true or false'')"

definition incomplete_s3 :: string where
  "incomplete_s3 = ''S3_BUCKET, S3_REGION, S3_ACCESS_KEY_ID, and S3_SECRET_ACCESS_KEY must be configured together''"

definition s3_storage ::
  "environment \<Rightarrow> (string \<Rightarrow> string option) \<Rightarrow> string option \<times> string option \<times> string option \<times> string option
   \<Rightarrow> (string, object_storage_config) res" where
  "s3_storage environment get keys =
     (case keys of
        (Some bucket, Some region, Some access_key_id, Some secret_access_key) \<Rightarrow>
          bind_res (flag get ''S3_ALLOW_HTTP'') (\<lambda>allow_http.
          bind_res (flag get ''S3_VIRTUAL_HOSTED_STYLE'') (\<lambda>virtual_hosted_style.
          Inr (S3Storage bucket region (not_blank (get ''S3_ENDPOINT'')) (not_blank (get ''S3_PUBLIC_ENDPOINT'')) access_key_id
            secret_access_key allow_http virtual_hosted_style)))
      | (None, None, None, None) \<Rightarrow>
          if get ''FILE_STORAGE_BACKEND'' = None \<and> environment \<noteq> Production
          then Inr (LocalStorage (case get ''FILE_STORAGE_PATH'' of Some p \<Rightarrow> p | None \<Rightarrow> ''./data/files''))
          else if environment = Production \<and> get ''FILE_STORAGE_BACKEND'' = None
          then Inl ''S3 object storage is required in production unless FILE_STORAGE_BACKEND=local is explicitly configured''
          else Inl incomplete_s3
      | _ \<Rightarrow> Inl incomplete_s3)"

definition object_storage_from ::
  "environment \<Rightarrow> (string \<Rightarrow> string option) \<Rightarrow> (string, object_storage_config) res" where
  "object_storage_from environment get =
     (let backend = get ''FILE_STORAGE_BACKEND'' in
      if backend \<notin> {None, Some ''local'', Some ''s3''} then Inl ''FILE_STORAGE_BACKEND must be local or s3''
      else if backend = Some ''local'' then local_storage get
      else if not_blank (get ''FILE_STORAGE_PATH'') \<noteq> None \<and> backend = Some ''s3''
      then Inl ''FILE_STORAGE_PATH cannot be combined with S3 configuration''
      else s3_storage environment get (not_blank (get ''S3_BUCKET''), not_blank (get ''S3_REGION''),
        not_blank (get ''S3_ACCESS_KEY_ID''), not_blank (get ''S3_SECRET_ACCESS_KEY'')))"

section \<open>Parts of the configuration\<close>

fun parse_members :: "(string \<Rightarrow> uuid option) \<Rightarrow> string list \<Rightarrow> (string, uuid set) res" where
  "parse_members parse_uuid [] = Inr {}"
| "parse_members parse_uuid (m # ms) =
     bind_res (ok_or (parse_uuid (trim m)) ''ADMIN_USER_IDS must be comma-separated account UUIDs'') (\<lambda>i.
     bind_res (parse_members parse_uuid ms) (\<lambda>is. Inr (insert i is)))"

definition parse_admin_user_ids :: "(string \<Rightarrow> uuid option) \<Rightarrow> string \<Rightarrow> (string, uuid set) res" where
  "parse_admin_user_ids parse_uuid value =
     (if trim value = [] then Inr {} else parse_members parse_uuid (split_on (CHR '','') value))"

definition google_oauth_from :: "(string \<Rightarrow> env_var) \<Rightarrow> (string, google_oauth_config option) res" where
  "google_oauth_from env =
     (case (env_nonempty env ''GOOGLE_CLIENT_ID'', env_nonempty env ''GOOGLE_CLIENT_SECRET'',
            env_nonempty env ''GOOGLE_REDIRECT_URI'', env_nonempty env ''TOKEN_ENCRYPTION_KEY'') of
        (Some client_id, Some client_secret, Some redirect_uri, Some key) \<Rightarrow>
          Inr (Some \<lparr>oc_client_id = client_id, oc_client_secret = client_secret, oc_redirect_uri = redirect_uri, oc_token_encryption_key = key\<rparr>)
      | (None, None, None, None) \<Rightarrow> Inr None
      | _ \<Rightarrow> Inl ''GOOGLE_CLIENT_ID, GOOGLE_CLIENT_SECRET, GOOGLE_REDIRECT_URI, and TOKEN_ENCRYPTION_KEY must be configured together'')"

text \<open>The limits on files, in the order (file size, user, total).\<close>

definition storage_limits :: "(string \<Rightarrow> env_var) \<Rightarrow> (string, nat \<times> int \<times> int) res" where
  "storage_limits env =
     bind_res (ok_or (parse_unsigned 64 (var_or env ''MAX_FILE_SIZE_BYTES'' (show_nat (25 * 1024 * 1024))))
       ''MAX_FILE_SIZE_BYTES must be a positive integer'') (\<lambda>file.
     bind_res (require (1 \<le> file \<and> file \<le> 100 * 1024 * 1024) ''MAX_FILE_SIZE_BYTES must be between 1 byte and 100 MiB'') (\<lambda>_.
     bind_res (ok_or (parse_signed 64 (var_or env ''MAX_TOTAL_FILE_STORAGE_BYTES'' (show_int (5 * 1024 * 1024 * 1024))))
       ''MAX_TOTAL_FILE_STORAGE_BYTES must be a positive integer'') (\<lambda>total.
     bind_res (require (0 < total) ''MAX_TOTAL_FILE_STORAGE_BYTES must be greater than zero'') (\<lambda>_.
     bind_res (ok_or (parse_signed 64 (var_or env ''MAX_USER_FILE_STORAGE_BYTES'' (show_int total)))
       ''MAX_USER_FILE_STORAGE_BYTES must be a positive integer'') (\<lambda>user.
     bind_res (require (0 < user) ''MAX_USER_FILE_STORAGE_BYTES must be greater than zero'') (\<lambda>_.
     bind_res (require (user \<le> total) ''MAX_USER_FILE_STORAGE_BYTES must not exceed MAX_TOTAL_FILE_STORAGE_BYTES'') (\<lambda>_.
     Inr (file, user, total))))))))"

definition max_accounts :: "(string \<Rightarrow> env_var) \<Rightarrow> (string, int option) res" where
  "max_accounts env =
     (case env_nonempty env ''MAX_USER_ACCOUNTS'' of
        None \<Rightarrow> Inr None
      | Some v \<Rightarrow>
          bind_res (ok_or (parse_signed 64 v) ''MAX_USER_ACCOUNTS must be a positive integer'') (\<lambda>n.
          bind_res (require (0 < n) ''MAX_USER_ACCOUNTS must be greater than zero'') (\<lambda>_. Inr (Some n))))"

definition admin_ids :: "parsers \<Rightarrow> (string \<Rightarrow> env_var) \<Rightarrow> (string, uuid set) res" where
  "admin_ids ps env =
     (case env ''ADMIN_USER_IDS'' of
        EnvValue v \<Rightarrow> parse_admin_user_ids (ps_uuid ps) v
      | NotPresent \<Rightarrow> parse_admin_user_ids (ps_uuid ps) []
      | NotUnicode \<Rightarrow> Inl ''ADMIN_USER_IDS must be valid Unicode'')"

definition webhook_url :: "parsers \<Rightarrow> environment \<Rightarrow> (string \<Rightarrow> env_var) \<Rightarrow> (string, string option) res" where
  "webhook_url ps environment env =
     (case env_nonempty env ''GOOGLE_CALENDAR_WEBHOOK_URL'' of
        None \<Rightarrow> Inr None
      | Some u \<Rightarrow>
          bind_res (ok_or (ps_url_scheme ps u) ''GOOGLE_CALENDAR_WEBHOOK_URL must be a valid URL'') (\<lambda>scheme.
          bind_res (require (\<not> (environment = Production \<and> scheme \<noteq> ''https''))
            ''GOOGLE_CALENDAR_WEBHOOK_URL must use HTTPS in production'') (\<lambda>_. Inr (Some u))))"

definition bool_var :: "(string \<Rightarrow> env_var) \<Rightarrow> string \<Rightarrow> string \<Rightarrow> (string, bool) res" where
  "bool_var env name d = ok_or (parse_bool (var_or env name d)) (name @ '' must be true or false'')"

definition from_env :: "parsers \<Rightarrow> (string \<Rightarrow> env_var) \<Rightarrow> (string, config) res" where
  "from_env ps env =
     bind_res (environment_from_str (var_or env ''APP_ENV'' ''development'')) (\<lambda>environment.
     bind_res (ok_or (ps_socket_addr ps (var_or env ''BIND_ADDRESS'' ''127.0.0.1:3000''))
       ''BIND_ADDRESS must be a socket address'') (\<lambda>bind_address.
     bind_res (ok_or (var_ok env ''DATABASE_URL'') ''DATABASE_URL must be configured'') (\<lambda>database_url.
     bind_res (ok_or (parse_unsigned 32 (var_or env ''DATABASE_MAX_CONNECTIONS'' ''10''))
       ''DATABASE_MAX_CONNECTIONS must be a positive integer'') (\<lambda>connections.
     bind_res (require (connections \<noteq> 0) ''DATABASE_MAX_CONNECTIONS must be greater than zero'') (\<lambda>_.
     let origin = var_or env ''CORS_ALLOWED_ORIGIN'' ''http://localhost:5173'';
         app_url = var_or env ''APP_URL'' (trim (hd (split_on (CHR '','') origin)))
     in bind_res (bool_var env ''ALLOW_INSECURE_DEV_AUTH'' ''true'') (\<lambda>dev_auth.
     bind_res (require (\<not> (environment = Production \<and> dev_auth)) ''ALLOW_INSECURE_DEV_AUTH cannot be enabled in production'') (\<lambda>_.
     bind_res (bool_var env ''INVITE_ONLY'' ''false'') (\<lambda>invite_only.
     bind_res (bool_var env ''TRUST_PROXY_HEADERS'' ''false'') (\<lambda>trust.
     bind_res (google_oauth_from env) (\<lambda>google.
     bind_res (require (\<not> (environment = Production \<and> google = None)) ''Google OAuth configuration is required in production'') (\<lambda>_.
     bind_res (object_storage_from environment (var_ok env)) (\<lambda>storage.
     bind_res (storage_limits env) (\<lambda>(file, user, total).
     bind_res (max_accounts env) (\<lambda>accounts.
     bind_res (admin_ids ps env) (\<lambda>admins.
     let token = env_nonempty env ''WORKER_TRIGGER_TOKEN''
     in bind_res (require (\<not> (case token of None \<Rightarrow> False | Some t \<Rightarrow> length t < 32))
          ''WORKER_TRIGGER_TOKEN must contain at least 32 characters'') (\<lambda>_.
     bind_res (webhook_url ps environment env) (\<lambda>webhook.
     Inr \<lparr>cf_environment = environment, cf_bind_address = bind_address, cf_database_url = database_url,
       cf_database_max_connections = connections, cf_cors_allowed_origin = origin, cf_app_url = app_url,
       cf_allow_insecure_dev_auth = dev_auth, cf_invite_only = invite_only, cf_trust_proxy_headers = trust,
       cf_google_oauth = google, cf_object_storage = storage, cf_max_file_size_bytes = file,
       cf_max_user_file_storage_bytes = user, cf_max_total_file_storage_bytes = total, cf_max_user_accounts = accounts,
       cf_admin_user_ids = admins, cf_worker_trigger_token = token, cf_google_calendar_webhook_url = webhook\<rparr>)))))))))))))))))"

section \<open>Numbers are read back\<close>

lemma parse_digits_append: "parse_digits acc (xs @ ys) = Option.bind (parse_digits acc xs) (\<lambda>n. parse_digits n ys)"
  by (induction xs arbitrary: acc) (auto split: option.split)

lemma digit_show: "n < 10 \<Longrightarrow> digit (char_of (48 + n)) = Some n"
  by (simp add: digit_def)

lemma parse_digits_show: "parse_digits 0 (show_nat n) = Some n"
proof (induction n rule: less_induct)
  case (less n)
  show ?case
  proof (cases "n < 10")
    case True
    then show ?thesis by (subst show_nat.simps) (simp add: digit_show)
  next
    case False
    then have "parse_digits 0 (show_nat (n div 10)) = Some (n div 10)" by (intro less.IH) simp
    with False show ?thesis by (subst show_nat.simps) (simp add: parse_digits_append digit_show)
  qed
qed

lemma show_nat_digits: "c \<in> set (show_nat n) \<Longrightarrow> digit c \<noteq> None"
proof (induction n rule: less_induct)
  case (less n)
  from less.prems have "c \<in> set (if n < 10 then [char_of (48 + n)] else show_nat (n div 10) @ [char_of (48 + n mod 10)])"
    by (subst (asm) show_nat.simps) simp
  with less.IH [of "n div 10"] show ?case by (auto simp: digit_show split: if_splits)
qed

lemma show_nat_not_empty: "show_nat n \<noteq> []"
  by (subst show_nat.simps) simp

lemma parse_signed_show:
  assumes "n < 2 ^ 63"
  shows "parse_signed 64 (show_int (int n)) = Some (int n)"
proof -
  obtain c cs where s: "show_nat n = c # cs" using show_nat_not_empty [of n] by (cases "show_nat n") auto
  have "digit c \<noteq> None" using show_nat_digits [of c n] s by simp
  then have "c \<noteq> CHR ''-''" "c \<noteq> CHR ''+''" by (auto simp: digit_def)
  moreover have "parse_nat (c # cs) = Some n" using parse_digits_show [of n] by (simp add: parse_nat_def s)
  moreover have "int n < 2 ^ 63" using assms by (metis of_nat_less_iff of_nat_numeral of_nat_power)
  ultimately show ?thesis by (simp add: parse_signed_def show_int_def s)
qed

lemma parse_signed_bounds: "parse_signed 64 s = Some i \<Longrightarrow> - (2 ^ 63) \<le> i \<and> i < 2 ^ 63"
  by (auto simp: parse_signed_def bind_eq_Some_conv split: list.splits if_splits)

section \<open>Properties\<close>

lemma storage_limits_ok:
  assumes "storage_limits env = Inr (file, user, tot)"
  shows "1 \<le> file \<and> file \<le> 100 * 1024 * 1024 \<and> 0 < user \<and> user \<le> tot \<and> tot < 2 ^ 63
    \<and> (var_ok env ''MAX_USER_FILE_STORAGE_BYTES'' = None \<longrightarrow> user = tot)"
proof -
  have tot: "parse_signed 64 (var_or env ''MAX_TOTAL_FILE_STORAGE_BYTES'' (show_int (5 * 1024 * 1024 * 1024))) = Some tot"
    and user: "parse_signed 64 (var_or env ''MAX_USER_FILE_STORAGE_BYTES'' (show_int tot)) = Some user"
    and b: "1 \<le> file" "file \<le> 100 * 1024 * 1024" "0 < tot" "0 < user" "user \<le> tot"
    using assms by (auto simp: storage_limits_def)
  have lt: "tot < 2 ^ 63" using parse_signed_bounds [OF tot] by simp
  have "user = tot" if "var_ok env ''MAX_USER_FILE_STORAGE_BYTES'' = None"
    using user that parse_signed_show [of "nat tot"] b(3) lt by (simp add: var_or_def)
  with b lt show ?thesis by blast
qed

lemma not_blank_Some: "not_blank v = Some x \<longleftrightarrow> v = Some x \<and> trim x \<noteq> []"
  by (auto simp: not_blank_def split: option.split)

lemma local_storage_ok: "local_storage get = Inr st \<Longrightarrow> \<exists>root. st = LocalStorage root \<and> \<not> unsafe_root root"
  by (auto simp: local_storage_def split: if_splits)

lemma s3_storage_ok:
  assumes "s3_storage environment get (b, r, k, x) = Inr st"
  shows "(\<exists>root. st = LocalStorage root \<and> environment \<noteq> Production)
    \<or> (\<exists>bucket region e pe key secret h v. st = S3Storage bucket region e pe key secret h v
         \<and> b = Some bucket \<and> r = Some region \<and> k = Some key \<and> x = Some secret)"
  using assms by (cases b; cases r; cases k; cases x) (auto simp: s3_storage_def split: if_splits)

definition storage_ok :: "environment \<Rightarrow> (string \<Rightarrow> string option) \<Rightarrow> object_storage_config \<Rightarrow> bool" where
  "storage_ok environment get st \<longleftrightarrow>
     (case st of
        LocalStorage root \<Rightarrow> environment = Production \<longrightarrow> get ''FILE_STORAGE_BACKEND'' = Some ''local'' \<and> \<not> unsafe_root root
      | S3Storage bucket region e pe key secret h v \<Rightarrow> trim bucket \<noteq> [] \<and> trim region \<noteq> [] \<and> trim key \<noteq> [] \<and> trim secret \<noteq> [])"

lemma storage_from_ok:
  assumes "object_storage_from environment get = Inr st"
  shows "storage_ok environment get st"
proof (cases "get ''FILE_STORAGE_BACKEND'' = Some ''local''")
  case True
  with assms have "local_storage get = Inr st" by (simp add: object_storage_from_def Let_def)
  with True local_storage_ok show ?thesis by (fastforce simp: storage_ok_def)
next
  case False
  with assms have "s3_storage environment get (not_blank (get ''S3_BUCKET''), not_blank (get ''S3_REGION''),
      not_blank (get ''S3_ACCESS_KEY_ID''), not_blank (get ''S3_SECRET_ACCESS_KEY'')) = Inr st"
    by (simp add: object_storage_from_def Let_def split: if_splits)
  from s3_storage_ok [OF this] show ?thesis by (auto simp: storage_ok_def not_blank_Some)
qed

lemma parse_members_ok:
  "parse_members f ms = Inr is \<Longrightarrow> is = {i. \<exists>m \<in> set ms. f (trim m) = Some i} \<and> (\<forall>m \<in> set ms. f (trim m) \<noteq> None)"
  by (induction ms arbitrary: "is") auto

lemma from_env_parts:
  assumes "from_env ps env = Inr c"
  shows "cf_database_max_connections c \<noteq> 0"
    and "cf_environment c = Production \<Longrightarrow> \<not> cf_allow_insecure_dev_auth c"
    and "cf_environment c = Production \<Longrightarrow> cf_google_oauth c \<noteq> None"
    and "object_storage_from (cf_environment c) (var_ok env) = Inr (cf_object_storage c)"
    and "storage_limits env = Inr (cf_max_file_size_bytes c, cf_max_user_file_storage_bytes c, cf_max_total_file_storage_bytes c)"
    and "max_accounts env = Inr (cf_max_user_accounts c)"
    and "admin_ids ps env = Inr (cf_admin_user_ids c)"
    and "cf_worker_trigger_token c = Some token \<Longrightarrow> 32 \<le> length token"
    and "webhook_url ps (cf_environment c) env = Inr (cf_google_calendar_webhook_url c)"
  using assms by (auto simp: from_env_def Let_def split: prod.splits)

definition members :: "(string \<Rightarrow> env_var) \<Rightarrow> string list" where
  "members env = (case env ''ADMIN_USER_IDS'' of EnvValue v \<Rightarrow> if trim v = [] then [] else split_on (CHR '','') v | _ \<Rightarrow> [])"

lemma admin_ids_ok:
  assumes "admin_ids ps env = Inr is"
  shows "is = {i. \<exists>m \<in> set (members env). ps_uuid ps (trim m) = Some i} \<and> (\<forall>m \<in> set (members env). ps_uuid ps (trim m) \<noteq> None)"
proof (cases "env ''ADMIN_USER_IDS''")
  case (EnvValue v)
  with assms parse_members_ok [of "ps_uuid ps" "split_on (CHR '','') v" "is"] show ?thesis
    by (cases "trim v = []") (simp_all add: admin_ids_def members_def parse_admin_user_ids_def)
qed (use assms in \<open>simp_all add: admin_ids_def members_def parse_admin_user_ids_def\<close>)

text \<open>
  C31. A server starts in production only with a safe configuration: the development sign-in is off, so that every request
  acts as the user of a live session whatever headers it carries; Google sign-in is configured; files are in S3 with
  all its credentials or in an explicitly chosen absolute directory without parent traversal; change notifications
  come over HTTPS. In every environment the limits are positive and ordered, the worker token has 32 characters at
  least, and the administrators are exactly the members of the list, none of which is malformed.
\<close>

theorem accepted_configurations_are_safe:
  assumes c: "from_env ps env = Inr c"
  shows "(cf_environment c = Production \<longrightarrow>
      cf_google_oauth c \<noteq> None \<and> storage_ok Production (var_ok env) (cf_object_storage c)
      \<and> (\<forall>u. cf_google_calendar_webhook_url c = Some u \<longrightarrow> ps_url_scheme ps u = Some ''https'')
      \<and> (\<forall>pf to_str parse_uuid t p w l u p' w' l'. pt_authenticated_user p = None
           \<and> current_user pf to_str parse_uuid (cf_allow_insecure_dev_auth c) t p w l = (Inr u, p', w', l') \<longrightarrow>
           (\<exists>token a. session_token to_str (pt_headers p) = Some token \<and> authenticate_session pf token w = Inr (a, w') \<and> sa_user_id a = u)))
    \<and> 0 < cf_database_max_connections c \<and> 1 \<le> cf_max_file_size_bytes c \<and> cf_max_file_size_bytes c \<le> 100 * 1024 * 1024
    \<and> 0 < cf_max_user_file_storage_bytes c \<and> cf_max_user_file_storage_bytes c \<le> cf_max_total_file_storage_bytes c
    \<and> cf_max_total_file_storage_bytes c < 2 ^ 63
    \<and> (var_ok env ''MAX_USER_FILE_STORAGE_BYTES'' = None \<longrightarrow> cf_max_user_file_storage_bytes c = cf_max_total_file_storage_bytes c)
    \<and> (\<forall>n. cf_max_user_accounts c = Some n \<longrightarrow> 0 < n) \<and> (\<forall>token. cf_worker_trigger_token c = Some token \<longrightarrow> 32 \<le> length token)
    \<and> cf_admin_user_ids c = {i. \<exists>m \<in> set (members env). ps_uuid ps (trim m) = Some i}
    \<and> (\<forall>m \<in> set (members env). ps_uuid ps (trim m) \<noteq> None)"
proof -
  note parts = from_env_parts [OF c]
  have session: "\<exists>token a. session_token to_str (pt_headers p) = Some token \<and> authenticate_session pf token w = Inr (a, w') \<and> sa_user_id a = u"
    if "pt_authenticated_user p = None" "current_user pf to_str parse_uuid False t p w l = (Inr u, p', w', l')"
    for pf to_str parse_uuid t p w l u p' w' l'
    using that by (auto simp: current_user_def extract_user_def split: option.splits elim!: session_user_accepts)
  have webhook: "ps_url_scheme ps u = Some ''https''" if "cf_google_calendar_webhook_url c = Some u" "cf_environment c = Production" for u
    using parts(9) that by (auto simp: webhook_url_def split: option.splits)
  have accounts: "0 < n" if "cf_max_user_accounts c = Some n" for n
    using parts(6) that by (auto simp: max_accounts_def split: option.splits)
  show ?thesis
    using parts(1-3) storage_from_ok [OF parts(4)] storage_limits_ok [OF parts(5)] admin_ids_ok [OF parts(7)] parts(8) session webhook accounts
    by auto
qed

definition example_parsers :: parsers where
  "example_parsers = \<lparr>ps_socket_addr = Some, ps_uuid = (\<lambda>s. if s = ''7'' then Some 7 else None), ps_url_scheme = (\<lambda>_. Some ''https'')\<rparr>"

definition example_variables :: "(string \<times> string) list" where
  "example_variables =
     [(''APP_ENV'', ''production''), (''DATABASE_URL'', ''d''), (''ALLOW_INSECURE_DEV_AUTH'', ''false''), (''GOOGLE_CLIENT_ID'', ''t''),
      (''GOOGLE_CLIENT_SECRET'', ''t''), (''GOOGLE_REDIRECT_URI'', ''t''), (''TOKEN_ENCRYPTION_KEY'', ''t''), (''S3_BUCKET'', ''t''), (''S3_REGION'', ''t''),
      (''S3_ACCESS_KEY_ID'', ''t''), (''S3_SECRET_ACCESS_KEY'', ''t''), (''MAX_FILE_SIZE_BYTES'', ''5''), (''MAX_TOTAL_FILE_STORAGE_BYTES'', ''9''),
      (''MAX_USER_FILE_STORAGE_BYTES'', ''9''), (''ADMIN_USER_IDS'', ''7'')]"

definition example_environment :: "string \<Rightarrow> env_var" where
  "example_environment name = (case map_of example_variables name of Some v \<Rightarrow> EnvValue v | None \<Rightarrow> NotPresent)"

lemma trim_single: "visible c \<Longrightarrow> trim [c] = [c]"
  by (rule trim_visible) simp_all

lemma example_configuration: "\<exists>c. from_env example_parsers example_environment = Inr c \<and> cf_environment c = Production"
  by (simp add: from_env_def example_environment_def example_variables_def example_parsers_def var_or_def var_ok_def environment_from_str_def
      bool_var_def parse_bool_def google_oauth_from_def env_nonempty_def not_blank_def trim_single visible_def object_storage_from_def s3_storage_def
      flag_def storage_limits_def parse_unsigned_def parse_signed_def parse_nat_def digit_def max_accounts_def admin_ids_def parse_admin_user_ids_def
      webhook_url_def Let_def require_def)

theorem accepted_configurations_are_safe_witness:
  "\<exists>c. from_env example_parsers example_environment = Inr c \<and> cf_environment c = Production \<and> cf_google_oauth c \<noteq> None
     \<and> cf_admin_user_ids c = {7} \<and> cf_max_user_file_storage_bytes c \<le> cf_max_total_file_storage_bytes c"
proof -
  obtain c where c: "from_env example_parsers example_environment = Inr c" "cf_environment c = Production" using example_configuration by blast
  have "members example_environment = [''7'']"
    by (simp add: members_def example_environment_def example_variables_def trim_single visible_def)
  then have "{i. \<exists>m \<in> set (members example_environment). ps_uuid example_parsers (trim m) = Some i} = {7}"
    by (auto simp: example_parsers_def trim_single visible_def split: if_splits)
  with accepted_configurations_are_safe [OF c(1)] c show ?thesis by auto
qed

end
