(* ===== verification/OAuthLogin.thy ===== *)
theory OAuthLogin
  imports Config CalendarSync
begin

text \<open>
  \<open>google_oidc.rs\<close> and the sign-in half of \<open>google_auth.rs\<close>. The crates \<open>jsonwebtoken\<close>, \<open>oauth2\<close>, \<open>aes_gcm\<close> and
  \<open>base64\<close> are arguments: \<open>jw_header\<close> decodes the header of a token, \<open>jw_decode\<close> verifies the signature with a
  key and the registered claims against a validation, the cipher seals and opens, an authorization request is turned
  into a URL. Google is a state machine that answers the exchange of a code and the request for its signing keys. One
  reading of the clock stands for the readings \<open>verify_id_token\<close> takes one after the other.
\<close>

section \<open>Identity tokens\<close>

datatype audience = OneAudience string | ManyAudiences "string list"

record google_claims =
  cl_sub :: string
  cl_email :: string
  cl_name :: "string option"
  cl_picture :: "string option"
  cl_email_verified :: bool
  cl_nonce :: string
  cl_aud :: audience
  cl_azp :: "string option"
  cl_iat :: nat
  cl_exp :: nat
  cl_at_hash :: "string option"

record token_header =
  th_alg :: string
  th_crit :: "string list option"
  th_b64 :: bool
  th_kid :: "string option"

record jwk =
  jk_id :: "string option"
  jk_rsa :: bool
  jk_algorithm :: "string option"
  jk_use :: "string option"
  jk_operations :: "string list option"

record jwt_validation =
  jv_algorithm :: string
  jv_required :: "string list"
  jv_issuers :: "string list"
  jv_audiences :: "string list"
  jv_nbf :: bool
  jv_leeway :: nat

record jwt =
  jw_header :: "string \<Rightarrow> token_header option"
  jw_decode :: "jwk \<Rightarrow> jwt_validation \<Rightarrow> nat \<Rightarrow> string \<Rightarrow> google_claims option"

definition signing_keys :: "string \<Rightarrow> jwk list \<Rightarrow> jwk list" where
  "signing_keys kid jwks =
     filter (\<lambda>key. jk_id key = Some kid \<and> jk_rsa key \<and> jk_algorithm key \<in> {None, Some ''RS256''} \<and> jk_use key \<in> {None, Some ''sig''}
       \<and> (case jk_operations key of None \<Rightarrow> True | Some ops \<Rightarrow> ''verify'' \<in> set ops)) jwks"

definition google_validation :: "string \<Rightarrow> jwt_validation" where
  "google_validation client_id =
     \<lparr>jv_algorithm = ''RS256'', jv_required = [''exp'', ''iss'', ''aud'', ''sub''], jv_issuers = [''https://accounts.google.com''],
      jv_audiences = [client_id], jv_nbf = True, jv_leeway = 0\<rparr>"

definition u64_max :: nat where
  "u64_max = 2 ^ 64 - 1"

definition saturating_add :: "nat \<Rightarrow> nat \<Rightarrow> nat" where
  "saturating_add a b = min (a + b) u64_max"

definition check_audience :: "string \<Rightarrow> google_claims \<Rightarrow> (string, unit) res" where
  "check_audience client_id c =
     bind_res (case cl_aud c of
                 OneAudience aud \<Rightarrow> bind_res (require (aud = client_id) ''Google ID token audience mismatch'') (\<lambda>_. Inr False)
               | ManyAudiences auds \<Rightarrow> Inr (1 < length auds)) (\<lambda>multiple_audiences.
     require (\<not> (multiple_audiences \<and> cl_azp c = None \<or> (case cl_azp c of None \<Rightarrow> False | Some azp \<Rightarrow> azp \<noteq> client_id)))
       ''Google ID token authorized party mismatch'')"

definition check_identity :: "nat \<Rightarrow> google_claims \<Rightarrow> (string, unit) res" where
  "check_identity t c =
     require (\<not> (cl_sub c = [] \<or> 255 < length (cl_sub c) \<or> \<not> list_all (\<lambda>b. (of_char b :: nat) < 128) (cl_sub c)
         \<or> trim (cl_email c) = [] \<or> \<not> cl_email_verified c \<or> cl_exp c \<le> t \<or> saturating_add t 60 < cl_iat c))
       ''Google ID token identity or issued-at is invalid''"

definition check_at_hash :: "platform \<Rightarrow> (string \<Rightarrow> string) \<Rightarrow> string \<Rightarrow> google_claims \<Rightarrow> (string, unit) res" where
  "check_at_hash pf base64url access c =
     (case cl_at_hash c of
        None \<Rightarrow> Inr ()
      | Some expected \<Rightarrow> require (expected = base64url (take 16 (sha256 pf access)))
          ''Google access token hash did not match the ID token'')"

definition verify_id_token ::
  "platform \<Rightarrow> jwt \<Rightarrow> (string \<Rightarrow> string) \<Rightarrow> nat \<Rightarrow> string \<Rightarrow> jwk list \<Rightarrow> string \<Rightarrow> string \<Rightarrow> string \<Rightarrow> (string, google_claims) res" where
  "verify_id_token pf jwt base64url t token jwks client_id nonce access =
     bind_res (require (\<not> (64 * 1024 < length token \<or> client_id = [] \<or> nonce = [])) ''invalid Google ID token input'') (\<lambda>_.
     bind_res (ok_or (jw_header jwt token) ''invalid Google ID token header'') (\<lambda>header.
     bind_res (require (\<not> (th_alg header \<noteq> ''RS256'' \<or> (case th_crit header of None \<Rightarrow> False | Some fs \<Rightarrow> fs \<noteq> []) \<or> th_b64 header))
       ''unsupported Google ID token header'') (\<lambda>_.
     bind_res (ok_or (nonempty (th_kid header)) ''Google ID token has no signing key ID'') (\<lambda>kid.
     bind_res (case signing_keys kid jwks of
                 [] \<Rightarrow> Inl ''Google ID token signing key not found''
               | [key] \<Rightarrow> Inr key
               | _ \<Rightarrow> Inl ''ambiguous Google ID token signing key'') (\<lambda>key.
     bind_res (ok_or (jw_decode jwt key (google_validation client_id) t token) ''Google returned an invalid ID token'') (\<lambda>claims.
     bind_res (check_audience client_id claims) (\<lambda>_.
     bind_res (check_identity t claims) (\<lambda>_.
     bind_res (require (cl_nonce claims = nonce) ''Google ID token nonce mismatch'') (\<lambda>_.
     bind_res (check_at_hash pf base64url access claims) (\<lambda>_.
     Inr claims))))))))))"

section \<open>Stored credentials\<close>

record aead =
  ae_seal :: "string \<Rightarrow> string \<Rightarrow> string option"
  ae_open :: "string \<Rightarrow> string \<Rightarrow> string option"

definition encrypt :: "aead \<Rightarrow> string \<Rightarrow> string \<Rightarrow> (string, string) res" where
  "encrypt cipher nonce plaintext =
     bind_res (ok_or (ae_seal cipher nonce plaintext) ''failed to encrypt Google credential'') (\<lambda>ciphertext. Inr (nonce @ ciphertext))"

definition decrypt :: "aead \<Rightarrow> string \<Rightarrow> (string, string) res" where
  "decrypt cipher encrypted =
     bind_res (require (\<not> length encrypted \<le> 12) ''stored Google credential is invalid'') (\<lambda>_.
     ok_or (ae_open cipher (take 12 encrypted) (drop 12 encrypted)) ''failed to decrypt Google credential'')"

section \<open>Authorization\<close>

definition GOOGLE_AUTH_URL :: string where
  "GOOGLE_AUTH_URL = ''https://accounts.google.com/o/oauth2/v2/auth''"

record authorization_request =
  ar_endpoint :: string
  ar_client_id :: string
  ar_redirect_uri :: string
  ar_state :: string
  ar_challenge :: string
  ar_scopes :: "string list"
  ar_params :: "(string \<times> string) list"

record token_request =
  tk_code :: string
  tk_verifier :: string
  tk_client_id :: string
  tk_client_secret :: string
  tk_redirect_uri :: string

record token_response =
  tn_access_token :: string
  tn_refresh_token :: "string option"
  tn_expires_in :: "nat option"
  tn_scopes :: "string list option"
  tn_id_token :: string

record keys_response =
  kr_status :: nat
  kr_size :: nat
  kr_complete :: bool
  kr_keys :: "jwk list option"

record 'p google_identity =
  gi_config :: google_oauth_config
  gi_valid_url :: "string \<Rightarrow> bool"
  gi_url :: "authorization_request \<Rightarrow> string"
  gi_challenge :: "string \<Rightarrow> string"
  gi_exchange :: "token_request \<Rightarrow> 'p \<Rightarrow> (string, token_response) res \<times> timestamp \<times> 'p"
  gi_keys :: "'p \<Rightarrow> (string, keys_response) res \<times> timestamp \<times> 'p"
  gi_jwt :: jwt
  gi_base64url :: "string \<Rightarrow> string"
  gi_cipher :: aead
  gi_cipher_nonce :: "nat \<Rightarrow> string"

definition valid_redirect :: "'p google_identity \<Rightarrow> (string, unit) res" where
  "valid_redirect g = require (gi_valid_url g (oc_redirect_uri (gi_config g))) ''invalid redirect URL''"

text \<open>\<open>random\<close> gives the nonce, the PKCE verifier and the state.\<close>

definition begin_authorization ::
  "'p google_identity \<Rightarrow> string \<times> string \<times> string \<Rightarrow> bool \<Rightarrow> bool \<Rightarrow> (string, google_login_start) res" where
  "begin_authorization g random calendar_access tasks_access =
     bind_res (valid_redirect g) (\<lambda>_.
     let (nonce, verifier, state) = random;
         request = \<lparr>ar_endpoint = GOOGLE_AUTH_URL, ar_client_id = oc_client_id (gi_config g),
           ar_redirect_uri = oc_redirect_uri (gi_config g), ar_state = state, ar_challenge = gi_challenge g verifier,
           ar_scopes = [''openid'', ''email'', ''profile'']
             @ (if calendar_access then [''https://www.googleapis.com/auth/calendar.events'',
                  ''https://www.googleapis.com/auth/calendar.calendarlist.readonly''] else [])
             @ (if tasks_access then [TASKS_SCOPE] else []),
           ar_params = [(''nonce'', nonce), (''access_type'', ''offline'')]
             @ (if calendar_access \<or> tasks_access then [(''include_granted_scopes'', ''true''), (''prompt'', ''consent'')] else [])\<rparr>
     in Inr \<lparr>gs_authorization_url = gi_url g request, gs_state = state, gs_nonce = nonce, gs_pkce_verifier = verifier\<rparr>)"

definition begin_login :: "'p google_identity \<Rightarrow> string \<times> string \<times> string \<Rightarrow> (string, google_login_start) res" where
  "begin_login g random = begin_authorization g random False False"

definition begin_calendar_connection :: "'p google_identity \<Rightarrow> string \<times> string \<times> string \<Rightarrow> (string, google_login_start) res" where
  "begin_calendar_connection g random = begin_authorization g random True False"

definition begin_tasks_connection :: "'p google_identity \<Rightarrow> string \<times> string \<times> string \<Rightarrow> (string, google_login_start) res" where
  "begin_tasks_connection g random = begin_authorization g random False True"

definition ask_google :: "('p \<Rightarrow> (string, 'a) res \<times> timestamp \<times> 'p) \<Rightarrow> ('p, 'a) job" where
  "ask_google f s = (let (r, t, p) = f (snd s) in (r, (fst s)\<lparr>now := t\<rparr>, p))"

definition signing_key_set :: "'p google_identity \<Rightarrow> ('p, jwk list) job" where
  "signing_key_set g =
     job_bind (ask_google (gi_keys g)) (\<lambda>r.
     if 400 \<le> kr_status r \<and> kr_status r \<le> 599 then job_fail ''HTTP status error''
     else if kr_status r \<noteq> 200 then job_fail ''Google signing key endpoint did not return a successful response''
     else if 1024 * 1024 < kr_size r then job_fail ''Google signing key response exceeded its limit''
     else if \<not> kr_complete r then job_fail ''error reading the response''
     else job_of (ok_or (kr_keys r) ''Google returned invalid signing keys''))"

definition expiry :: "nat option \<Rightarrow> timestamp \<Rightarrow> timestamp option" where
  "expiry expires_in t =
     (case expires_in of Some n \<Rightarrow> if n \<le> 9223372036854775 then Some (t + int n * second) else None | None \<Rightarrow> None)"

definition complete_login ::
  "platform \<Rightarrow> 'p google_identity \<Rightarrow> string \<Rightarrow> string \<Rightarrow> string \<Rightarrow> ('p, google_login_result) job" where
  "complete_login pf g code nonce pkce_verifier =
     job_bind (job_of (valid_redirect g)) (\<lambda>_.
     job_bind (ask_google (gi_exchange g \<lparr>tk_code = code, tk_verifier = pkce_verifier, tk_client_id = oc_client_id (gi_config g),
       tk_client_secret = oc_client_secret (gi_config g), tk_redirect_uri = oc_redirect_uri (gi_config g)\<rparr>)) (\<lambda>token.
     job_bind (signing_key_set g) (\<lambda>jwks.
     job_bind (job_query now) (\<lambda>t.
     job_bind (job_of (verify_id_token pf (gi_jwt g) (gi_base64url g) (nat (t div second)) (tn_id_token token) jwks
       (oc_client_id (gi_config g)) nonce (tn_access_token token))) (\<lambda>claims.
     job_bind (job_of (encrypt (gi_cipher g) (gi_cipher_nonce g 0) (tn_access_token token))) (\<lambda>access.
     job_bind (job_of (case tn_refresh_token token of
                         None \<Rightarrow> Inr None
                       | Some r \<Rightarrow> bind_res (encrypt (gi_cipher g) (gi_cipher_nonce g 1) r) (\<lambda>x. Inr (Some x)))) (\<lambda>refresh.
     job_return \<lparr>gr_subject = cl_sub claims, gr_email = cl_email claims,
       gr_display_name = (case cl_name claims of Some n \<Rightarrow> n | None \<Rightarrow> cl_email claims), gr_avatar_url = cl_picture claims,
       gr_encrypted_access_token = access, gr_encrypted_refresh_token = refresh,
       gr_access_token_expires_at = expiry (tn_expires_in token) t,
       gr_scopes = (case tn_scopes token of Some ss \<Rightarrow> ss | None \<Rightarrow> [])\<rparr>)))))))"

end
