(* ===== verification/SignIn.thy ===== *)
theory SignIn
  imports OAuthLogin
begin

text \<open>
  The sign-in handlers of \<open>routes.rs\<close>. A handler is a step on the database and the outside world that ends with an answer
  or an application error; what an earlier statement committed stays when a later one fails. Answers are the cookie
  they set and the place they redirect to. \<open>header_ok\<close> is \<open>HeaderValue::from_str\<close>; the login limiter is passed and
  returned. Waking the dispatcher of the job queue has no effect on the state.
\<close>

type_synonym ('p, 'a) handler = "world \<times> 'p \<Rightarrow> 'a app_result \<times> world \<times> 'p"

definition handle_bind :: "('p, 'a) handler \<Rightarrow> ('a \<Rightarrow> ('p, 'b) handler) \<Rightarrow> ('p, 'b) handler" where
  "handle_bind m f s = (case m s of (Inl e, s) \<Rightarrow> (Inl e, s) | (Inr a, s) \<Rightarrow> f a s)"

definition handle_of :: "'a app_result \<Rightarrow> ('p, 'a) handler" where
  "handle_of r s = (r, s)"

definition handle_op :: "(world \<Rightarrow> 'a store_result) \<Rightarrow> ('p, 'a) handler" where
  "handle_op f s = (case f (fst s) of Inl e \<Rightarrow> (Inl e, s) | Inr (a, w) \<Rightarrow> (Inr a, w, snd s))"

definition handle_update :: "(world \<Rightarrow> world) \<Rightarrow> ('p, unit) handler" where
  "handle_update f s = (Inr (), f (fst s), snd s)"

definition handle_query :: "(world \<Rightarrow> 'a) \<Rightarrow> ('p, 'a) handler" where
  "handle_query f s = (Inr (f (fst s)), s)"

definition handle_job :: "('p, 'a) job \<Rightarrow> ('p, 'a) handler" where
  "handle_job m s = (case m s of (Inl e, s) \<Rightarrow> (Inl (Integration e), s) | (Inr a, s) \<Rightarrow> (Inr a, s))"

record 'p app_state =
  st_allow_insecure_dev_auth :: bool
  st_invite_only :: bool
  st_trust_proxy_headers :: bool
  st_secure_cookies :: bool
  st_app_url :: string
  st_google_oauth :: "'p google_identity option"
  st_max_user_accounts :: "int option"

datatype location = SeeOther string | TemporaryRedirect string

record redirect_answer =
  rd_cookie :: "string option"
  rd_location :: location

section \<open>Cookies and redirects\<close>

definition session_cookie :: "string \<Rightarrow> bool \<Rightarrow> string" where
  "session_cookie token secure =
     SESSION_COOKIE @ ''='' @ token @ ''; Path=/; HttpOnly; SameSite=Lax; Max-Age=2592000'' @ (if secure then ''; Secure'' else [])"

definition expired_session_cookie :: "bool \<Rightarrow> string" where
  "expired_session_cookie secure =
     SESSION_COOKIE @ ''=; Path=/; HttpOnly; SameSite=Lax; Max-Age=0'' @ (if secure then ''; Secure'' else [])"

definition trim_end_slashes :: "string \<Rightarrow> string" where
  "trim_end_slashes s = rev (dropWhile (\<lambda>c. c = CHR ''/'') (rev s))"

definition authentication_error_redirect :: "string \<Rightarrow> string \<Rightarrow> location" where
  "authentication_error_redirect app_url error = SeeOther (trim_end_slashes app_url @ ''/?auth_error='' @ error)"

definition checked_cookie :: "(string \<Rightarrow> bool) \<Rightarrow> string \<Rightarrow> string \<Rightarrow> string app_result" where
  "checked_cookie header_ok cookie message =
     bind_res (require (header_ok cookie) (InvalidRequest 500 message)) (\<lambda>_. Inr cookie)"

definition oauth_cookie :: "bool \<Rightarrow> string \<Rightarrow> string" where
  "oauth_cookie secure secret =
     oauth_cookie_name secure @ ''='' @ secret @ ''; Path=/; HttpOnly; SameSite=Lax; Max-Age=600'' @ (if secure then ''; Secure'' else [])"

section \<open>Starting\<close>

definition google_authorization_redirect ::
  "platform \<Rightarrow> (string \<Rightarrow> string option) \<Rightarrow> (string \<Rightarrow> bool) \<Rightarrow> 'p app_state \<Rightarrow> string \<Rightarrow> headers \<Rightarrow> google_login_start \<Rightarrow> uuid option
   \<Rightarrow> string \<Rightarrow> (string \<times> string) option \<Rightarrow> ('p, redirect_answer) handler" where
  "google_authorization_redirect pf to_str header_ok st fresh headers login user purpose legal_versions =
     (let secret = (case oauth_browser_secret to_str headers (st_secure_cookies st) of Some s \<Rightarrow> s | None \<Rightarrow> fresh) in
      handle_bind (handle_op (save_google_login_attempt pf login user purpose legal_versions secret)) (\<lambda>_.
      handle_bind (handle_of (checked_cookie header_ok (oauth_cookie (st_secure_cookies st) secret) ''could not create OAuth cookie'')) (\<lambda>cookie.
      handle_of (Inr \<lparr>rd_cookie = Some cookie, rd_location = TemporaryRedirect (gs_authorization_url login)\<rparr>))))"

definition CURRENT_TERMS_VERSION :: string where
  "CURRENT_TERMS_VERSION = ''2026-10-04''"

definition CURRENT_PRIVACY_VERSION :: string where
  "CURRENT_PRIVACY_VERSION = ''2026-10-04''"

record google_login_query =
  lq_terms_version :: string
  lq_privacy_version :: string
  lq_age_confirmed :: bool

definition limited ::
  "(string \<Rightarrow> string option) \<Rightarrow> 'p app_state \<Rightarrow> int \<Rightarrow> headers \<Rightarrow> string option \<Rightarrow> ('p, 'a) handler \<Rightarrow> login_rate_limiter
   \<Rightarrow> world \<times> 'p \<Rightarrow> 'a app_result \<times> (world \<times> 'p) \<times> login_rate_limiter" where
  "limited to_str st t headers peer m l s =
     (case check to_str t (map_of headers) peer (st_trust_proxy_headers st) l of
        (Inl e, l) \<Rightarrow> (Inl e, s, l)
      | (Inr _, l) \<Rightarrow> (let (r, s) = m s in (r, s, l)))"

definition the_google :: "'p app_state \<Rightarrow> ('p, 'p google_identity) handler" where
  "the_google st = handle_of (ok_or (st_google_oauth st) (NotConfigured ''Google OAuth''))"

definition google_auth_start ::
  "platform \<Rightarrow> (string \<Rightarrow> string option) \<Rightarrow> (string \<Rightarrow> bool) \<Rightarrow> 'p app_state \<Rightarrow> string \<times> string \<times> string \<Rightarrow> string \<Rightarrow> int
   \<Rightarrow> google_login_query \<Rightarrow> headers \<Rightarrow> string option \<Rightarrow> login_rate_limiter
   \<Rightarrow> world \<times> 'p \<Rightarrow> redirect_answer app_result \<times> (world \<times> 'p) \<times> login_rate_limiter" where
  "google_auth_start pf to_str header_ok st random fresh t query headers peer =
     limited to_str st t headers peer
       (handle_bind (handle_of (require (\<not> (lq_terms_version query \<noteq> CURRENT_TERMS_VERSION
           \<or> lq_privacy_version query \<noteq> CURRENT_PRIVACY_VERSION \<or> \<not> lq_age_confirmed query))
         (Validation ''the current Terms, Privacy Policy, and age requirement must be accepted''))) (\<lambda>_.
        handle_bind (the_google st) (\<lambda>google.
        handle_bind (handle_job (job_of (begin_login google random))) (\<lambda>login.
        google_authorization_redirect pf to_str header_ok st fresh headers login None ''login''
          (Some (CURRENT_TERMS_VERSION, CURRENT_PRIVACY_VERSION))))))"

definition google_calendar_connect_start ::
  "platform \<Rightarrow> (string \<Rightarrow> string option) \<Rightarrow> (string \<Rightarrow> bool) \<Rightarrow> 'p app_state \<Rightarrow> string \<times> string \<times> string \<Rightarrow> string \<Rightarrow> int
   \<Rightarrow> uuid \<Rightarrow> headers \<Rightarrow> string option \<Rightarrow> login_rate_limiter
   \<Rightarrow> world \<times> 'p \<Rightarrow> redirect_answer app_result \<times> (world \<times> 'p) \<times> login_rate_limiter" where
  "google_calendar_connect_start pf to_str header_ok st random fresh t user headers peer =
     limited to_str st t headers peer
       (handle_bind (the_google st) (\<lambda>google.
        handle_bind (handle_job (job_of (begin_calendar_connection google random))) (\<lambda>login.
        google_authorization_redirect pf to_str header_ok st fresh headers login (Some user) ''calendar_connect'' None)))"

definition google_tasks_connect_start ::
  "platform \<Rightarrow> (string \<Rightarrow> string option) \<Rightarrow> (string \<Rightarrow> bool) \<Rightarrow> 'p app_state \<Rightarrow> string \<times> string \<times> string \<Rightarrow> string \<Rightarrow> int
   \<Rightarrow> uuid \<Rightarrow> headers \<Rightarrow> string option \<Rightarrow> login_rate_limiter
   \<Rightarrow> world \<times> 'p \<Rightarrow> redirect_answer app_result \<times> (world \<times> 'p) \<times> login_rate_limiter" where
  "google_tasks_connect_start pf to_str header_ok st random fresh t user headers peer =
     limited to_str st t headers peer
       (handle_bind (the_google st) (\<lambda>google.
        handle_bind (handle_job (job_of (begin_tasks_connection google random))) (\<lambda>login.
        google_authorization_redirect pf to_str header_ok st fresh headers login (Some user) ''tasks_connect'' None)))"

section \<open>The callback\<close>

record google_callback_query =
  cq_code :: "string option"
  cq_state :: "string option"
  cq_error :: "string option"

definition settings_redirect :: "'p app_state \<Rightarrow> redirect_answer" where
  "settings_redirect st = \<lparr>rd_cookie = None, rd_location = SeeOther (trim_end_slashes (st_app_url st) @ ''/settings'')\<rparr>"

definition refused_redirect :: "'p app_state \<Rightarrow> string \<Rightarrow> redirect_answer" where
  "refused_redirect st error = \<lparr>rd_cookie = None, rd_location = authentication_error_redirect (st_app_url st) error\<rparr>"

text \<open>An attempt that belongs to a user is finished in a session of that user.\<close>

definition same_session ::
  "platform \<Rightarrow> (string \<Rightarrow> string option) \<Rightarrow> headers \<Rightarrow> oauth_login_attempt \<Rightarrow> ('p, unit) handler" where
  "same_session pf to_str headers attempt =
     (case oa_user_id attempt of
        None \<Rightarrow> handle_of (Inr ())
      | Some user \<Rightarrow>
          handle_bind (handle_of (ok_or (session_token to_str headers) Unauthorized)) (\<lambda>token.
          handle_bind (handle_op (authenticate_session pf token)) (\<lambda>a.
          handle_of (require (sa_user_id a = user) (Forbidden ''the Google connection belongs to a different session'')))))"

definition finish_tasks :: "platform \<Rightarrow> 'p app_state \<Rightarrow> oauth_login_attempt \<Rightarrow> google_login_result \<Rightarrow> ('p, redirect_answer) handler" where
  "finish_tasks pf st attempt login =
     handle_bind (handle_of (ok_or (oa_user_id attempt) (Forbidden ''Google Tasks connection did not identify a user''))) (\<lambda>user.
     handle_bind (handle_of (require (TASKS_SCOPE \<in> set (gr_scopes login)) (Forbidden ''Google Tasks permission was not granted''))) (\<lambda>_.
     handle_bind (handle_op (update_google_credentials pf user login)) (\<lambda>_.
     handle_of (Inr (settings_redirect st)))))"

definition finish_calendar :: "platform \<Rightarrow> 'p app_state \<Rightarrow> oauth_login_attempt \<Rightarrow> google_login_result \<Rightarrow> ('p, redirect_answer) handler" where
  "finish_calendar pf st attempt login =
     handle_bind (handle_of (ok_or (oa_user_id attempt) (Forbidden ''Google Calendar connection did not identify a user''))) (\<lambda>user.
     handle_bind (handle_op (update_google_credentials pf user login)) (\<lambda>_.
     handle_bind (handle_query now) (\<lambda>t.
     handle_bind (handle_op (enqueue_sync user None ''calendar_discovery''
       (''calendar-connect:'' @ show_uuid user @ '':'' @ show_int (t div second)))) (\<lambda>_.
     handle_of (Inr (settings_redirect st))))))"

definition start_session ::
  "platform \<Rightarrow> (string \<Rightarrow> bool) \<Rightarrow> 'p app_state \<Rightarrow> string \<Rightarrow> string \<Rightarrow> bool \<Rightarrow> google_login_result \<Rightarrow> user_profile \<Rightarrow> ('p, redirect_answer) handler" where
  "start_session pf header_ok st terms privacy age login user =
     handle_bind (if st_invite_only st then handle_update (consume_account_invite pf (gr_email login) (u_id user)) else handle_of (Inr ())) (\<lambda>_.
     handle_bind (handle_update (record_legal_acceptance (u_id user) terms privacy age)) (\<lambda>_.
     handle_bind (handle_op (create_session pf user)) (\<lambda>session.
     handle_bind (handle_of (checked_cookie header_ok (session_cookie (cs_token session) (st_secure_cookies st)) ''could not create session cookie'')) (\<lambda>cookie.
     handle_of (Inr \<lparr>rd_cookie = Some cookie, rd_location = SeeOther (st_app_url st)\<rparr>)))))"

definition finish_login ::
  "platform \<Rightarrow> (string \<Rightarrow> bool) \<Rightarrow> 'p app_state \<Rightarrow> oauth_login_attempt \<Rightarrow> google_login_result \<Rightarrow> ('p, redirect_answer) handler" where
  "finish_login pf header_ok st attempt login =
     (case (oa_terms_version attempt, oa_privacy_version attempt) of
        (Some terms, Some privacy) \<Rightarrow>
          if \<not> oa_age_confirmed attempt then handle_of (Inr (refused_redirect st ''legal_acceptance_required''))
          else handle_bind (if st_invite_only st then handle_query (email_can_sign_in pf (gr_email login)) else handle_of (Inr True)) (\<lambda>invited.
          if \<not> invited then handle_of (Inr (refused_redirect st ''invite_required''))
          else (\<lambda>s. case handle_op (upsert_google_user login (st_max_user_accounts st)) s of
                 (Inr user, s) \<Rightarrow> start_session pf header_ok st terms privacy (oa_age_confirmed attempt) login user s
               | (Inl (Forbidden _), s) \<Rightarrow> (Inr (refused_redirect st ''capacity_reached''), s)
               | (Inl e, s) \<Rightarrow> (Inl e, s)))
      | _ \<Rightarrow> handle_of (Inr (refused_redirect st ''legal_acceptance_required'')))"

definition google_auth_callback ::
  "platform \<Rightarrow> (string \<Rightarrow> string option) \<Rightarrow> (string \<Rightarrow> bool) \<Rightarrow> 'p app_state \<Rightarrow> google_callback_query \<Rightarrow> headers \<Rightarrow> ('p, redirect_answer) handler" where
  "google_auth_callback pf to_str header_ok st query headers =
     handle_bind (handle_of (require (cq_error query = None) (Forbidden ''Google sign-in was not completed''))) (\<lambda>_.
     handle_bind (handle_of (ok_or (cq_code query) (Forbidden ''Google did not return an authorization code''))) (\<lambda>code.
     handle_bind (handle_of (ok_or (cq_state query) (Forbidden ''Google did not return the sign-in state''))) (\<lambda>state.
     handle_bind (handle_of (ok_or (oauth_browser_secret to_str headers (st_secure_cookies st))
       (Forbidden ''the Google sign-in request expired or is invalid''))) (\<lambda>secret.
     handle_bind (handle_op (consume_google_login_attempt pf state secret)) (\<lambda>attempt.
     handle_bind (same_session pf to_str headers attempt) (\<lambda>_.
     handle_bind (the_google st) (\<lambda>google.
     handle_bind (handle_job (complete_login pf google code (oa_nonce attempt) (oa_pkce_verifier attempt))) (\<lambda>login.
     if oa_purpose attempt = ''tasks_connect'' then finish_tasks pf st attempt login
     else if oa_purpose attempt = ''calendar_connect'' then finish_calendar pf st attempt login
     else finish_login pf header_ok st attempt login))))))))"

section \<open>Other sessions\<close>

definition development_session ::
  "platform \<Rightarrow> (string \<Rightarrow> string option) \<Rightarrow> (string \<Rightarrow> uuid option) \<Rightarrow> (string \<Rightarrow> bool) \<Rightarrow> 'p app_state \<Rightarrow> headers
   \<Rightarrow> ('p, string \<times> session_response) handler" where
  "development_session pf to_str parse_uuid header_ok st headers =
     (if \<not> st_allow_insecure_dev_auth st then handle_of (Inl Unauthorized)
      else handle_bind (case Option.bind (map_of headers DEVELOPMENT_USER_HEADER) (\<lambda>v. Option.bind (to_str v) parse_uuid) of
                          Some user \<Rightarrow> handle_of (Inr user)
                        | None \<Rightarrow> handle_op (\<lambda>w. Inr (new_uuid w))) (\<lambda>requested.
           handle_bind (handle_op (\<lambda>w. Inr (ensure_development_user requested w))) (\<lambda>user.
           handle_bind (handle_op (create_session pf user)) (\<lambda>session.
           handle_bind (handle_of (checked_cookie header_ok (session_cookie (cs_token session) (st_secure_cookies st)) ''could not create session cookie'')) (\<lambda>cookie.
           handle_of (Inr (cookie, cs_response session)))))))"

definition current_session :: "uuid \<Rightarrow> string option \<Rightarrow> ('p, session_response) handler" where
  "current_session user csrf =
     handle_bind (handle_op (\<lambda>w. bind_res (store_user_profile user w) (\<lambda>u. Inr (u, w)))) (\<lambda>profile.
     handle_of (Inr \<lparr>sr_user = profile, sr_csrf_token = (case csrf of Some c \<Rightarrow> c | None \<Rightarrow> [])\<rparr>))"

definition logout :: "platform \<Rightarrow> (string \<Rightarrow> string option) \<Rightarrow> (string \<Rightarrow> bool) \<Rightarrow> 'p app_state \<Rightarrow> headers \<Rightarrow> ('p, string) handler" where
  "logout pf to_str header_ok st headers =
     handle_bind (case session_token to_str headers of
                    Some token \<Rightarrow> handle_update (delete_session pf token)
                  | None \<Rightarrow> handle_of (Inr ())) (\<lambda>_.
     handle_of (checked_cookie header_ok (expired_session_cookie (st_secure_cookies st)) ''could not expire session cookie''))"

definition worker_token_matches :: "platform \<Rightarrow> (string \<Rightarrow> string option) \<Rightarrow> headers \<Rightarrow> string \<Rightarrow> bool" where
  "worker_token_matches pf to_str headers expected =
     (case Option.bind (map_of headers ''authorization'') (\<lambda>v. Option.bind (to_str v) (strip_prefix ''Bearer '')) of
        None \<Rightarrow> False
      | Some token \<Rightarrow> sha256 pf token = sha256 pf expected)"

definition run_synchronization_worker ::
  "platform \<Rightarrow> (string \<Rightarrow> string option) \<Rightarrow> string option \<Rightarrow> (('p, nat) job \<times> ('p, bool) job) option \<Rightarrow> headers \<Rightarrow> ('p, nat \<times> bool) handler" where
  "run_synchronization_worker pf to_str worker_trigger_token service headers =
     handle_bind (handle_of (ok_or worker_trigger_token (NotConfigured ''synchronization worker trigger''))) (\<lambda>expected.
     handle_bind (handle_of (require (worker_token_matches pf to_str headers expected) Unauthorized)) (\<lambda>_.
     handle_bind (handle_of (ok_or service (NotConfigured ''Google synchronization''))) (\<lambda>(enqueue_periodic_work, run_once).
     handle_bind (handle_job enqueue_periodic_work) (\<lambda>enqueued.
     handle_bind (handle_job run_once) (\<lambda>processed.
     handle_of (Inr (enqueued, processed)))))))"

section \<open>What an accepted callback went through\<close>

lemma handle_bind_eq_Inr: "handle_bind m f s = (Inr b, s') \<longleftrightarrow> (\<exists>a t. m s = (Inr a, t) \<and> f a t = (Inr b, s'))"
  by (auto simp: handle_bind_def split: prod.split sum.split)

lemma handle_eq_Inr:
  "handle_of r s = (Inr b, s') \<longleftrightarrow> r = Inr b \<and> s' = s" "handle_query f s = (Inr b, s') \<longleftrightarrow> b = f (fst s) \<and> s' = s"
  "handle_update g s = (Inr u, s') \<longleftrightarrow> s' = (g (fst s), snd s)"
  "handle_op h (w, p) = (Inr b, s') \<longleftrightarrow> (\<exists>w'. h w = Inr (b, w') \<and> s' = (w', p))"
  "handle_job m s = (Inr b, s') \<longleftrightarrow> m s = (Inr b, s')"
  by (auto simp: handle_of_def handle_query_def handle_update_def handle_op_def handle_job_def split: sum.split prod.split)

lemmas handled = handle_bind_eq_Inr handle_eq_Inr

lemma ask_google_eq: "ask_google f (w, p) = (r, s') \<longleftrightarrow> (\<exists>t q. f p = (r, t, q) \<and> s' = (w\<lparr>now := t\<rparr>, q))"
  by (auto simp: ask_google_def split: prod.splits)

lemma signing_key_set_answer:
  assumes "signing_key_set g (w, p) = (Inr keys, w', p')"
  shows "\<exists>answer t. gi_keys g p = (Inr answer, t, p') \<and> kr_status answer = 200 \<and> kr_keys answer = Some keys \<and> w' = w\<lparr>now := t\<rparr>"
  using assms by (auto simp: signing_key_set_def job_bind_eq_Inr job_pure_eq_Inr ask_google_eq ok_or_def split: if_splits option.splits)

text \<open>
  What Google vouches for. It is asked, in this state, to exchange this authorization code with this PKCE verifier by this
  client, and answers with a token; it is then asked for its signing keys; one of these RSA keys verifies the identity
  token, as an RS256 token that Google issued for this client, to these claims; and the claims are for this
  nonce, not expired, for no other authorized party, with a verified email, and they name the access token where they
  name one.
\<close>

definition verified :: "platform \<Rightarrow> 'p google_identity \<Rightarrow> string \<Rightarrow> string \<Rightarrow> string \<Rightarrow> 'p \<Rightarrow> google_claims \<Rightarrow> bool" where
  "verified pf g code verifier nonce p claims \<longleftrightarrow>
     (\<exists>token t q answer t' q' keys key.
        gi_exchange g \<lparr>tk_code = code, tk_verifier = verifier, tk_client_id = oc_client_id (gi_config g),
          tk_client_secret = oc_client_secret (gi_config g), tk_redirect_uri = oc_redirect_uri (gi_config g)\<rparr> p = (Inr token, t, q)
        \<and> gi_keys g q = (Inr answer, t', q') \<and> kr_status answer = 200 \<and> kr_keys answer = Some keys \<and> key \<in> set keys \<and> jk_rsa key
        \<and> jw_decode (gi_jwt g) key \<lparr>jv_algorithm = ''RS256'', jv_required = [''exp'', ''iss'', ''aud'', ''sub''],
            jv_issuers = [''https://accounts.google.com''], jv_audiences = [oc_client_id (gi_config g)], jv_nbf = True, jv_leeway = 0\<rparr>
            (nat (t' div second)) (tn_id_token token) = Some claims
        \<and> cl_nonce claims = nonce \<and> nat (t' div second) < cl_exp claims \<and> cl_email_verified claims
        \<and> cl_azp claims \<in> {None, Some (oc_client_id (gi_config g))}
        \<and> cl_at_hash claims \<in> {None, Some (gi_base64url g (take 16 (sha256 pf (tn_access_token token))))})"

lemma verify_id_token_checks:
  assumes "verify_id_token pf jwt b64 t token jwks client nonce access = Inr claims"
  shows "\<exists>key \<in> set jwks. jk_rsa key \<and> jw_decode jwt key (google_validation client) t token = Some claims"
    and "cl_nonce claims = nonce" and "t < cl_exp claims" and "cl_email_verified claims"
    and "cl_azp claims \<in> {None, Some client}" and "cl_at_hash claims \<in> {None, Some (b64 (take 16 (sha256 pf access)))}"
proof -
  obtain header kid key where keys: "signing_keys kid jwks = [key]" and d: "jw_decode jwt key (google_validation client) t token = Some claims"
    and c: "check_audience client claims = Inr ()" "check_identity t claims = Inr ()" "cl_nonce claims = nonce"
      "check_at_hash pf b64 access claims = Inr ()"
    using assms by (auto simp: verify_id_token_def ok_or_def require_def split: option.splits list.splits if_splits)
  have "key \<in> set (signing_keys kid jwks)" by (simp add: keys)
  then show "\<exists>key \<in> set jwks. jk_rsa key \<and> jw_decode jwt key (google_validation client) t token = Some claims"
    using d by (auto simp: signing_keys_def)
  show "cl_nonce claims = nonce" by fact
  show "t < cl_exp claims" "cl_email_verified claims" using c(2) by (auto simp: check_identity_def require_def split: if_splits)
  show "cl_azp claims \<in> {None, Some client}"
    using c(1) by (auto simp: check_audience_def require_def split: if_splits option.splits audience.splits)
  show "cl_at_hash claims \<in> {None, Some (b64 (take 16 (sha256 pf access)))}"
    using c(4) by (auto simp: check_at_hash_def require_def split: if_splits option.splits)
qed

lemma complete_login_answer:
  assumes "complete_login pf g code nonce verifier (w, p) = (Inr login, w', p')"
  shows "\<exists>k claims. w' = w\<lparr>now := k\<rparr> \<and> verified pf g code verifier nonce p claims
    \<and> gr_subject login = cl_sub claims \<and> gr_email login = cl_email claims"
proof -
  let ?request = "\<lparr>tk_code = code, tk_verifier = verifier, tk_client_id = oc_client_id (gi_config g),
    tk_client_secret = oc_client_secret (gi_config g), tk_redirect_uri = oc_redirect_uri (gi_config g)\<rparr>"
  obtain token t q keys claims where token: "gi_exchange g ?request p = (Inr token, t, q)"
    and keys: "signing_key_set g (w\<lparr>now := t\<rparr>, q) = (Inr keys, w', p')"
    and ok: "verify_id_token pf (gi_jwt g) (gi_base64url g) (nat (now w' div second)) (tn_id_token token) keys (oc_client_id (gi_config g)) nonce
      (tn_access_token token) = Inr claims" and login: "gr_subject login = cl_sub claims" "gr_email login = cl_email claims"
    using assms by (auto simp: complete_login_def job_bind_eq_Inr job_pure_eq_Inr ask_google_eq)
  obtain answer t' where answer: "gi_keys g q = (Inr answer, t', p')" "kr_status answer = 200" "kr_keys answer = Some keys"
    and w': "w' = w\<lparr>now := t'\<rparr>" using signing_key_set_answer [OF keys] by auto
  have "verified pf g code verifier nonce p claims"
    unfolding verified_def using token answer verify_id_token_checks [OF ok] by (auto simp: w' google_validation_def)
  with w' login show ?thesis by blast
qed

lemma authenticate_frame: "authenticate_session pf token w = Inr (a, w') \<Longrightarrow> \<exists>ss. w' = w\<lparr>sessions := ss\<rparr>"
  by (auto simp: authenticate_session_def Let_def)

lemma same_session_frame:
  "same_session pf to_str headers attempt (w, p) = (Inr u, w', p') \<Longrightarrow> (\<exists>ss. w' = w\<lparr>sessions := ss\<rparr>) \<and> p' = p"
proof (cases "oa_user_id attempt")
  case None
  moreover assume "same_session pf to_str headers attempt (w, p) = (Inr u, w', p')"
  ultimately have "w' = w" "p' = p" by (simp_all add: same_session_def handled)
  then show ?thesis by (intro conjI exI [of _ "sessions w"]) simp_all
qed (auto simp: same_session_def handled dest: authenticate_frame)

lemma connection_sets_no_cookie:
  "finish_tasks pf st attempt login s = (Inr a, s') \<Longrightarrow> rd_cookie a = None"
  "finish_calendar pf st attempt login s = (Inr a, s') \<Longrightarrow> rd_cookie a = None"
  by (cases s, auto simp: finish_tasks_def finish_calendar_def handled settings_redirect_def)+

lemma upsert_user_row:
  assumes "upsert_user login w = (u, w')"
  shows "u \<in> set (users w') \<and> u_google_subject u = Some (gr_subject login)"
proof (cases "row_by (\<lambda>u. u_google_subject u = Some (gr_subject login)) (users w)")
  case None
  with assms show ?thesis by (auto simp: upsert_user_def Let_def new_uuid_def new_user_def)
next
  case (Some v)
  from row_by_Some [OF this] have v: "v \<in> set (users w)" "u_google_subject v = Some (gr_subject login)" by auto
  with Some assms show ?thesis
    by (auto simp: upsert_user_def Let_def new_uuid_def set_update_where intro!: image_eqI [of _ _ v])
qed

lemma upsert_google_user_row:
  assumes "upsert_google_user login cap w = Inr (user, w')"
  shows "\<exists>u \<in> set (users w'). u_id u = u_id user \<and> u_google_subject u = Some (gr_subject login)"
    and "login_attempts w' = login_attempts w"
proof -
  obtain u w1 where u: "upsert_user login w = (u, w1)" by fastforce
  with assms have user: "user = user_profile.truncate u" "w' = upsert_account (u_id u) login (set_login_credentials login (now w1)) w1"
    by (auto simp: upsert_google_user_def Let_def)
  with upsert_user_row [OF u] show "\<exists>u \<in> set (users w'). u_id u = u_id user \<and> u_google_subject u = Some (gr_subject login)"
    by (auto simp: upsert_account_def user_profile.truncate_def)
  have "login_attempts w1 = login_attempts w"
    using u by (auto simp: upsert_user_def Let_def new_uuid_def split: option.splits)
  then show "login_attempts w' = login_attempts w" by (simp add: user upsert_account_def)
qed

text \<open>A signed-in browser: its cookie names a session of the account with that Google subject, which accepted the terms.\<close>

definition signed_in :: "platform \<Rightarrow> bool \<Rightarrow> string \<Rightarrow> string \<Rightarrow> string \<Rightarrow> redirect_answer \<Rightarrow> world \<Rightarrow> bool" where
  "signed_in pf secure subject terms privacy a w \<longleftrightarrow>
     (\<exists>token row u. rd_cookie a = Some (session_cookie token secure) \<and> row \<in> set (sessions w) \<and> se_token_hash row = token_hash pf token
        \<and> u \<in> set (users w) \<and> se_user_id row = u_id u \<and> u_google_subject u = Some subject
        \<and> (\<exists>g \<in> set (legal_acceptances w). lg_user_id g = u_id u \<and> lg_terms_version g = terms \<and> lg_privacy_version g = privacy))"

lemma legal_acceptance_recorded:
  "\<exists>g \<in> set (legal_acceptances (record_legal_acceptance user terms privacy age w)).
     lg_user_id g = user \<and> lg_terms_version g = terms \<and> lg_privacy_version g = privacy"
  by (auto simp: record_legal_acceptance_def Let_def new_uuid_def)

lemma legal_acceptance_frame:
  "users (record_legal_acceptance user terms privacy age w) = users w"
  "login_attempts (record_legal_acceptance user terms privacy age w) = login_attempts w"
  by (simp_all add: record_legal_acceptance_def Let_def new_uuid_def)

lemma create_session_row:
  assumes "create_session pf user w = Inr (s, w')"
  shows "\<exists>row \<in> set (sessions w'). se_token_hash row = token_hash pf (cs_token s) \<and> se_user_id row = u_id user"
    and "users w' = users w" "login_attempts w' = login_attempts w" "legal_acceptances w' = legal_acceptances w"
  using assms by (auto simp: create_session_def random_token_def new_uuid_def Let_def)

lemma start_session_answer:
  assumes run: "start_session pf header_ok st terms privacy age login user (w, p) = (Inr a, w', p')"
    and u: "u \<in> set (users w)" "u_id u = u_id user" "u_google_subject u = Some subject"
  shows "signed_in pf (st_secure_cookies st) subject terms privacy a w' \<and> login_attempts w' = login_attempts w"
proof -
  define v where "v = (if st_invite_only st then consume_account_invite pf (gr_email login) (u_id user) w else w)"
  then have v: "users v = users w" "login_attempts v = login_attempts w" by (simp_all add: consume_account_invite_def)
  obtain session where s: "create_session pf user (record_legal_acceptance (u_id user) terms privacy age v) = Inr (session, w')"
    and a: "rd_cookie a = Some (session_cookie (cs_token session) (st_secure_cookies st))"
    using run by (auto simp: start_session_def handled checked_cookie_def v_def split: if_splits)
  note row = create_session_row [OF s]
  have "\<exists>g \<in> set (legal_acceptances w'). lg_user_id g = u_id u \<and> lg_terms_version g = terms \<and> lg_privacy_version g = privacy"
    using legal_acceptance_recorded [of "u_id user" terms privacy age v] row(4) u(2) by simp
  moreover obtain r where "r \<in> set (sessions w')" "se_token_hash r = token_hash pf (cs_token session)" "se_user_id r = u_id u"
    using row(1) u(2) by auto
  moreover have "u \<in> set (users w')" "login_attempts w' = login_attempts w" using row(2,3) u(1) v by (simp_all add: legal_acceptance_frame)
  ultimately show ?thesis using a u(3) unfolding signed_in_def by blast
qed

lemma finish_login_answer:
  assumes run: "finish_login pf header_ok st attempt login (w, p) = (Inr a, w', p')" and cookie: "rd_cookie a \<noteq> None"
  shows "\<exists>terms privacy. oa_terms_version attempt = Some terms \<and> oa_privacy_version attempt = Some privacy \<and> oa_age_confirmed attempt
    \<and> (st_invite_only st \<longrightarrow> email_can_sign_in pf (gr_email login) w) \<and> login_attempts w' = login_attempts w
    \<and> signed_in pf (st_secure_cookies st) (gr_subject login) terms privacy a w'"
proof -
  obtain terms privacy user w1 where legal: "oa_terms_version attempt = Some terms" "oa_privacy_version attempt = Some privacy" "oa_age_confirmed attempt"
    and invited: "st_invite_only st \<longrightarrow> email_can_sign_in pf (gr_email login) w"
    and user: "upsert_google_user login (st_max_user_accounts st) w = Inr (user, w1)"
    and start: "start_session pf header_ok st terms privacy True login user (w1, p) = (Inr a, w', p')"
    using run cookie
    by (auto simp: finish_login_def handle_bind_def handle_of_def handle_query_def handle_op_def refused_redirect_def
        split: option.splits if_splits sum.splits app_error.splits prod.splits)
  from upsert_google_user_row(1) [OF user] obtain u where u: "u \<in> set (users w1)" "u_id u = u_id user" "u_google_subject u = Some (gr_subject login)"
    by blast
  from start_session_answer [OF start u] upsert_google_user_row(2) [OF user] legal invited show ?thesis by auto
qed

text \<open>
  C32. A browser is signed in only with an identity Google vouches for, once. When the callback answers with a session, its
  state and its browser secret are those of one stored attempt to sign in that had not expired and accepted the terms and the
  age requirement; Google exchanged the code of the request with the PKCE verifier of that attempt, and the identity token
  it answered was verified by one of its keys for this client and the nonce of that attempt; in invite-only mode its email was
  admitted; and the session belongs to the account with its subject, which has
  accepted the terms. The attempt is used up: finishing it again fails from then on.
\<close>

theorem sessions_start_with_a_verified_identity:
  assumes run: "google_auth_callback pf to_str header_ok st query headers (w, p) = (Inr a, w', p')" and cookie: "rd_cookie a \<noteq> None"
  shows "\<exists>code state secret attempt google claims terms privacy. cq_code query = Some code \<and> cq_state query = Some state
    \<and> oauth_browser_secret to_str headers (st_secure_cookies st) = Some secret
    \<and> attempt \<in> set (login_attempts w) \<and> la_state_hash attempt = token_hash pf state
    \<and> la_browser_binding_hash attempt = Some (token_hash pf secret) \<and> now w < la_expires_at attempt
    \<and> la_purpose attempt \<notin> {''tasks_connect'', ''calendar_connect''}
    \<and> la_terms_version attempt = Some terms \<and> la_privacy_version attempt = Some privacy \<and> la_age_confirmed attempt
    \<and> st_google_oauth st = Some google
    \<and> verified pf google code (la_pkce_verifier attempt) (la_nonce attempt) p claims
    \<and> (st_invite_only st \<longrightarrow> email_can_sign_in pf (cl_email claims) w)
    \<and> signed_in pf (st_secure_cookies st) (cl_sub claims) terms privacy a w'
    \<and> (\<forall>k \<ge> now w. consume_google_login_attempt pf state secret (w'\<lparr>now := k\<rparr>)
         = Inl (Forbidden ''the Google sign-in request expired or is invalid''))"
proof -
  obtain code state secret attempt w1 u w2 p2 google login w3 p3 where
    q: "cq_code query = Some code" "cq_state query = Some state" "oauth_browser_secret to_str headers (st_secure_cookies st) = Some secret"
    and consumed: "consume_google_login_attempt pf state secret w = Inr (attempt, w1)"
    and same: "same_session pf to_str headers attempt (w1, p) = (Inr u, w2, p2)" and google: "st_google_oauth st = Some google"
    and login: "complete_login pf google code (oa_nonce attempt) (oa_pkce_verifier attempt) (w2, p2) = (Inr login, w3, p3)"
    and rest: "(if oa_purpose attempt = ''tasks_connect'' then finish_tasks pf st attempt login
       else if oa_purpose attempt = ''calendar_connect'' then finish_calendar pf st attempt login
       else finish_login pf header_ok st attempt login) (w3, p3) = (Inr a, w', p')"
    using run by (auto simp: google_auth_callback_def handled the_google_def)
  let ?hit = "\<lambda>a. la_state_hash a = token_hash pf state \<and> la_browser_binding_hash a = Some (token_hash pf secret) \<and> now w < la_expires_at a"
  obtain row where row: "row_by ?hit (login_attempts w) = Some row" and attempt: "attempt = attempt_of row"
    and w1: "w1 = w\<lparr>login_attempts := delete_where ?hit (login_attempts w)\<rparr>"
    using consumed by (auto simp: consume_google_login_attempt_def Let_def)
  have found: "row \<in> set (login_attempts w)" "?hit row" using row_by_Some [OF row] by auto
  obtain ss where w2: "w2 = w1\<lparr>sessions := ss\<rparr>" and p2: "p2 = p" using same_session_frame [OF same] by blast
  obtain k claims where w3: "w3 = w2\<lparr>now := k\<rparr>"
    and claims: "verified pf google code (oa_pkce_verifier attempt) (oa_nonce attempt) p claims"
    "gr_subject login = cl_sub claims" "gr_email login = cl_email claims" using complete_login_answer [OF login] p2 by blast
  have purpose: "oa_purpose attempt \<notin> {''tasks_connect'', ''calendar_connect''}"
    using rest cookie by (auto split: if_splits dest!: connection_sets_no_cookie)
  then have "finish_login pf header_ok st attempt login (w3, p3) = (Inr a, w', p')" using rest by simp
  from finish_login_answer [OF this cookie] obtain terms privacy where
    legal: "oa_terms_version attempt = Some terms" "oa_privacy_version attempt = Some privacy" "oa_age_confirmed attempt"
    and invited: "st_invite_only st \<longrightarrow> email_can_sign_in pf (gr_email login) w3" and left: "login_attempts w' = login_attempts w3"
    and signed: "signed_in pf (st_secure_cookies st) (gr_subject login) terms privacy a w'" by blast
  have "\<not> (la_state_hash x = token_hash pf state \<and> la_browser_binding_hash x = Some (token_hash pf secret) \<and> c < la_expires_at x)"
    if "x \<in> set (login_attempts w')" "now w \<le> c" for x c
    using that by (auto simp: left w3 w2 w1 delete_where_def)
  then have again: "consume_google_login_attempt pf state secret (w'\<lparr>now := c\<rparr>) = Inl (Forbidden ''the Google sign-in request expired or is invalid'')"
    if "now w \<le> c" for c
    using that by (auto simp: consume_google_login_attempt_def Let_def row_by_def find_None_iff ok_or_def split: option.split)
  have "email_can_sign_in pf (gr_email login) w3 = email_can_sign_in pf (gr_email login) w" by (simp add: email_can_sign_in_def w3 w2 w1)
  with invited claims q google found purpose legal signed again show ?thesis
    by (intro exI [of _ code] exI [of _ state] exI [of _ secret] exI [of _ row] exI [of _ google] exI [of _ claims] exI [of _ terms] exI [of _ privacy])
      (simp add: attempt attempt_of_def)
qed

text \<open>A sign-in that goes through: one attempt, one signing key, a token for it.\<close>

definition example_secret :: string where
  "example_secret = replicate 43 (CHR ''a'')"

definition example_attempt :: login_attempt_row where
  "example_attempt = \<lparr>la_state_hash = ''s'', la_nonce = ''n'', la_pkce_verifier = ''v'', la_expires_at = 10, la_user_id = None, la_purpose = ''login'',
     la_terms_version = Some ''1'', la_privacy_version = Some ''1'', la_age_confirmed = True, la_browser_binding_hash = Some example_secret\<rparr>"

definition example_claims :: google_claims where
  "example_claims = \<lparr>cl_sub = ''g'', cl_email = ''e'', cl_name = None, cl_picture = None, cl_email_verified = True, cl_nonce = ''n'',
     cl_aud = OneAudience ''t'', cl_azp = None, cl_iat = 0, cl_exp = 9, cl_at_hash = None\<rparr>"

definition example_google_identity :: "unit google_identity" where
  "example_google_identity =
     \<lparr>gi_config = \<lparr>oc_client_id = ''t'', oc_client_secret = [], oc_redirect_uri = [], oc_token_encryption_key = []\<rparr>,
      gi_valid_url = (\<lambda>_. True), gi_url = (\<lambda>_. []), gi_challenge = id,
      gi_exchange = (\<lambda>r p. (if tk_code r \<noteq> ''c'' \<or> tk_verifier r \<noteq> ''v'' then Inl ''invalid_grant'' else Inr \<lparr>tn_access_token = ''a'', tn_refresh_token = None, tn_expires_in = None, tn_scopes = None, tn_id_token = ''j''\<rparr>, 1, p)),
      gi_keys = (\<lambda>p. (Inr \<lparr>kr_status = 200, kr_size = 1, kr_complete = True,
         kr_keys = Some [\<lparr>jk_id = Some ''k'', jk_rsa = True, jk_algorithm = None, jk_use = None, jk_operations = None\<rparr>]\<rparr>, 2, p)),
      gi_jwt = \<lparr>jw_header = (\<lambda>_. Some \<lparr>th_alg = ''RS256'', th_crit = None, th_b64 = False, th_kid = Some ''k''\<rparr>),
         jw_decode = (\<lambda>_ _ _ _. Some example_claims)\<rparr>,
      gi_base64url = id, gi_cipher = \<lparr>ae_seal = (\<lambda>_. Some), ae_open = (\<lambda>_. Some)\<rparr>, gi_cipher_nonce = (\<lambda>_. [])\<rparr>"

definition example_app :: "unit app_state" where
  "example_app = \<lparr>st_allow_insecure_dev_auth = False, st_invite_only = False, st_trust_proxy_headers = False, st_secure_cookies = True,
     st_app_url = ''u'', st_google_oauth = Some example_google_identity, st_max_user_accounts = None\<rparr>"

lemma visible_e: "trim ''e'' = ''e''"
  by (simp add: trim_visible visible_def)

lemma example_sign_in:
  assumes secret: "oauth_browser_secret to_str headers True = Some example_secret"
  shows "\<exists>a w'. google_auth_callback (ascii_platform 0) to_str (\<lambda>_. True) example_app
    \<lparr>cq_code = Some ''c'', cq_state = Some ''s'', cq_error = None\<rparr> headers (empty_world\<lparr>login_attempts := [example_attempt]\<rparr>, ()) = (Inr a, w', ())
    \<and> rd_cookie a \<noteq> None"
  by (simp add: google_auth_callback_def handle_bind_def handle_of_def handle_op_def handle_update_def handle_job_def example_app_def secret require_def
      consume_google_login_attempt_def row_by_def example_attempt_def ascii_platform_def token_hash_def empty_world_def same_session_def the_google_def
      attempt_of_def complete_login_def job_bind_def job_of_def job_query_def job_return_def valid_redirect_def example_google_identity_def ask_google_def
      signing_key_set_def verify_id_token_def nonempty_def signing_keys_def google_validation_def check_audience_def check_identity_def check_at_hash_def
      example_claims_def saturating_add_def u64_max_def second_def encrypt_def finish_login_def upsert_google_user_def upsert_user_def new_uuid_def
      upsert_account_def start_session_def record_legal_acceptance_def create_session_def random_token_def checked_cookie_def visible_e Let_def
      delete_where_def)

definition example_cookies :: headers where
  "example_cookies = [(''cookie'', ''__Host-prosepect_oauth='' @ example_secret)]"

lemma example_cookie_secret: "oauth_browser_secret Some example_cookies True = Some example_secret"
  by code_simp

theorem sessions_start_with_a_verified_identity_witness:
  "\<exists>a w' claims. google_auth_callback (ascii_platform 0) Some (\<lambda>_. True) example_app
      \<lparr>cq_code = Some ''c'', cq_state = Some ''s'', cq_error = None\<rparr> example_cookies (empty_world\<lparr>login_attempts := [example_attempt]\<rparr>, ()) = (Inr a, w', ())
     \<and> verified (ascii_platform 0) example_google_identity ''c'' ''v'' ''n'' () claims \<and> signed_in (ascii_platform 0) True (cl_sub claims) ''1'' ''1'' a w'
     \<and> consume_google_login_attempt (ascii_platform 0) ''s'' example_secret (w'\<lparr>now := 5\<rparr>)
         = Inl (Forbidden ''the Google sign-in request expired or is invalid'')"
proof -
  obtain a w' where run: "google_auth_callback (ascii_platform 0) Some (\<lambda>_. True) example_app
      \<lparr>cq_code = Some ''c'', cq_state = Some ''s'', cq_error = None\<rparr> example_cookies (empty_world\<lparr>login_attempts := [example_attempt]\<rparr>, ()) = (Inr a, w', ())"
    and cookie: "rd_cookie a \<noteq> None" using example_sign_in [OF example_cookie_secret] by blast
  from sessions_start_with_a_verified_identity [OF run cookie] run show ?thesis
    by (auto simp: example_cookie_secret example_app_def example_attempt_def empty_world_def)
qed

end
