(* ===== verification/Workspace.thy ===== *)
theory Workspace
  imports Database
begin

text \<open>
  Notes, search, file metadata and saved task views: \<open>note_store.rs\<close>, \<open>file_store.rs\<close> and the store half of
  \<open>saved_views.rs\<close>. The full-text match of a query against a document (\<open>WEBSEARCH_TO_TSQUERY\<close>, \<open>TO_TSVECTOR\<close>, \<open>@@\<close>) is
  the argument \<open>fts\<close>. The advisory lock of the file quota makes the check and the insert one step; the locks of the
  saved views fail at once when they are taken, which is an argument.
\<close>

section \<open>Notes\<close>

record note_record =
  no_id :: uuid
  no_project_id :: "uuid option"
  no_task_id :: "uuid option"
  no_event_id :: "uuid option"
  no_title :: string
  no_markdown :: string
  no_created_at :: timestamp
  no_updated_at :: timestamp
  no_version :: int

definition note_of :: "note_row \<Rightarrow> note_record" where
  "note_of n =
     \<lparr>no_id = n_id n, no_project_id = n_project_id n, no_task_id = n_task_id n, no_event_id = n_event_id n,
      no_title = n_title n, no_markdown = n_markdown n, no_created_at = n_created_at n, no_updated_at = n_updated_at n,
      no_version = n_version n\<rparr>"

record create_note_request =
  cn_project_id :: "uuid option"
  cn_task_id :: "uuid option"
  cn_event_id :: "uuid option"
  cn_title :: string
  cn_markdown :: string

record update_note_request =
  un_project_id :: "uuid option"
  un_task_id :: "uuid option"
  un_event_id :: "uuid option"
  un_title :: string
  un_markdown :: string
  un_expected_version :: int

definition validate_note_fields :: "string \<Rightarrow> string \<Rightarrow> unit app_result" where
  "validate_note_fields title markdown =
     bind_res (require (\<not> (trim title = [] \<or> 240 < chars_count (trim title)))
       (Validation ''note title must contain between 1 and 240 characters'')) (\<lambda>_.
     require (chars_count markdown \<le> 100000) (Validation ''note Markdown cannot exceed 100000 characters''))"

definition given :: "'a option list \<Rightarrow> nat" where
  "given xs = length (filter (\<lambda>x. x \<noteq> None) xs)"

definition has_project :: "uuid \<Rightarrow> uuid \<Rightarrow> world \<Rightarrow> bool" where
  "has_project user i w \<longleftrightarrow> list_ex (\<lambda>p. pr_id p = i \<and> pr_user_id p = user) (projects w)"

definition has_task :: "uuid \<Rightarrow> uuid \<Rightarrow> world \<Rightarrow> bool" where
  "has_task user i w \<longleftrightarrow> list_ex (\<lambda>t. t_id t = i \<and> t_user_id t = user) (tasks w)"

definition has_note :: "uuid \<Rightarrow> uuid \<Rightarrow> world \<Rightarrow> bool" where
  "has_note user i w \<longleftrightarrow> list_ex (\<lambda>n. n_id n = i \<and> n_user_id n = user) (note_rows w)"

definition has_event :: "uuid \<Rightarrow> uuid \<Rightarrow> world \<Rightarrow> bool" where
  "has_event user i w \<longleftrightarrow> list_ex (\<lambda>e. e_id e = i \<and> e_user_id e = user) (events w)"

definition validate_note_link ::
  "uuid \<Rightarrow> uuid option \<Rightarrow> uuid option \<Rightarrow> uuid option \<Rightarrow> world \<Rightarrow> unit app_result" where
  "validate_note_link user project_id task_id event_id w =
     bind_res (require (given [project_id, task_id, event_id] \<le> 1)
       (Validation ''a note can attach to only one project, task, or event'')) (\<lambda>_.
     require (case (project_id, task_id, event_id) of
                (Some i, None, None) \<Rightarrow> has_project user i w
              | (None, Some i, None) \<Rightarrow> has_task user i w
              | (None, None, Some i) \<Rightarrow> has_event user i w
              | _ \<Rightarrow> True)
       (Validation ''note attachment must belong to the current user''))"

definition list_notes :: "uuid \<Rightarrow> world \<Rightarrow> note_record list" where
  "list_notes user w =
     map note_of (take 200 (rev (sort_key (\<lambda>n. (n_updated_at n, n_id n)) (filter (\<lambda>n. n_user_id n = user) (note_rows w)))))"

definition create_note :: "uuid \<Rightarrow> create_note_request \<Rightarrow> world \<Rightarrow> note_record store_result" where
  "create_note user req w =
     bind_res (validate_note_fields (cn_title req) (cn_markdown req)) (\<lambda>_.
     bind_res (validate_note_link user (cn_project_id req) (cn_task_id req) (cn_event_id req) w) (\<lambda>_.
     let (i, w) = new_uuid w;
         n = \<lparr>n_id = i, n_user_id = user, n_project_id = cn_project_id req, n_task_id = cn_task_id req,
              n_event_id = cn_event_id req, n_title = trim (cn_title req), n_markdown = cn_markdown req,
              n_created_at = now w, n_updated_at = now w, n_version = 1\<rparr>
     in Inr (note_of n, w\<lparr>note_rows := note_rows w @ [n]\<rparr>)))"

definition note_error :: "uuid \<Rightarrow> uuid \<Rightarrow> int \<Rightarrow> world \<Rightarrow> app_error" where
  "note_error user i expected w =
     (case row_by (\<lambda>n. n_id n = i \<and> n_user_id n = user) (note_rows w) of
        Some n \<Rightarrow> version_conflict ''note'' expected (n_version n)
      | None \<Rightarrow> NotFound ''note'')"

definition set_note :: "update_note_request \<Rightarrow> timestamp \<Rightarrow> note_row \<Rightarrow> note_row" where
  "set_note req t n =
     n\<lparr>n_project_id := un_project_id req, n_task_id := un_task_id req, n_event_id := un_event_id req,
       n_title := trim (un_title req), n_markdown := un_markdown req, n_updated_at := t, n_version := n_version n + 1\<rparr>"

definition update_note :: "uuid \<Rightarrow> uuid \<Rightarrow> update_note_request \<Rightarrow> world \<Rightarrow> note_record store_result" where
  "update_note user i req w =
     bind_res (validate_note_fields (un_title req) (un_markdown req)) (\<lambda>_.
     bind_res (validate_note_link user (un_project_id req) (un_task_id req) (un_event_id req) w) (\<lambda>_.
     let hit = (\<lambda>n. n_id n = i \<and> n_user_id n = user \<and> n_version n = un_expected_version req)
     in case row_by hit (note_rows w) of
          Some n \<Rightarrow> Inr (note_of (set_note req (now w) n),
                         w\<lparr>note_rows := update_where hit (set_note req (now w)) (note_rows w)\<rparr>)
        | None \<Rightarrow> Inl (note_error user i (un_expected_version req) w)))"

definition delete_note :: "uuid \<Rightarrow> uuid \<Rightarrow> int \<Rightarrow> world \<Rightarrow> unit store_result" where
  "delete_note user i expected w =
     (let hit = (\<lambda>n. n_id n = i \<and> n_user_id n = user \<and> n_version n = expected)
      in case row_by hit (note_rows w) of
           Some n \<Rightarrow> Inr ((), delete_notes hit w)
         | None \<Rightarrow> Inl (note_error user i expected w))"

section \<open>Search\<close>

datatype search_result_kind = SearchTask | SearchProject | SearchNote | SearchEvent

record search_result =
  se_kind :: search_result_kind
  se_id :: uuid
  se_title :: string
  se_excerpt :: string
  se_updated_at :: timestamp

text \<open>SQL \<open>LEFT(s, n)\<close>: the first \<open>n\<close> characters, with all their bytes.\<close>

fun take_chars :: "nat \<Rightarrow> string \<Rightarrow> string" where
  "take_chars n [] = []"
| "take_chars n (c # s) =
     (if (of_char c :: nat) div 64 = 2 then c # take_chars n s
      else case n of 0 \<Rightarrow> [] | Suc m \<Rightarrow> c # take_chars m s)"

definition words_of :: "string list \<Rightarrow> string" where
  "words_of ss = concat (case ss of [] \<Rightarrow> [] | s # rest \<Rightarrow> s # map (\<lambda>x. '' '' @ x) rest)"

definition search_matches :: "(string \<Rightarrow> string \<Rightarrow> bool) \<Rightarrow> uuid \<Rightarrow> string \<Rightarrow> world \<Rightarrow> search_result list" where
  "search_matches fts user query w =
     map (\<lambda>t. \<lparr>se_kind = SearchTask, se_id = t_id t, se_title = t_title t, se_excerpt = take_chars 240 (t_description t),
               se_updated_at = t_updated_at t\<rparr>)
       (filter (\<lambda>t. t_user_id t = user \<and> fts query (words_of [t_title t, t_description t, words_of (t_labels t)])) (tasks w))
     @ map (\<lambda>p. \<lparr>se_kind = SearchProject, se_id = pr_id p, se_title = pr_name p, se_excerpt = take_chars 240 (pr_outcome p),
               se_updated_at = pr_updated_at p\<rparr>)
       (filter (\<lambda>p. pr_user_id p = user \<and> fts query (words_of [pr_name p, pr_outcome p])) (projects w))
     @ map (\<lambda>n. \<lparr>se_kind = SearchNote, se_id = n_id n, se_title = n_title n, se_excerpt = take_chars 240 (n_markdown n),
               se_updated_at = n_updated_at n\<rparr>)
       (filter (\<lambda>n. n_user_id n = user \<and> fts query (words_of [n_title n, n_markdown n])) (note_rows w))
     @ map (\<lambda>e. \<lparr>se_kind = SearchEvent, se_id = e_id e, se_title = e_title e,
               se_excerpt = take_chars 240 (words_of [e_description e, e_location e]), se_updated_at = e_updated_at e\<rparr>)
       (filter (\<lambda>e. e_user_id e = user \<and> fts query (words_of [e_title e, e_description e, e_location e])) (events w))"

definition global_search :: "(string \<Rightarrow> string \<Rightarrow> bool) \<Rightarrow> uuid \<Rightarrow> string \<Rightarrow> int \<Rightarrow> world \<Rightarrow> search_result list app_result" where
  "global_search fts user query limit w =
     bind_res (require (\<not> (trim query = [] \<or> 100 < chars_count (trim query)))
       (Validation ''search query must contain between 1 and 100 characters'')) (\<lambda>_.
     Inr (take (nat (clamp 1 50 limit))
       (rev (sort_key (\<lambda>r. (se_updated_at r, se_id r)) (search_matches fts user (trim query) w)))))"

section \<open>Files\<close>

record file_record =
  fr_id :: uuid
  fr_project_id :: "uuid option"
  fr_task_id :: "uuid option"
  fr_note_id :: "uuid option"
  fr_event_id :: "uuid option"
  fr_filename :: string
  fr_content_type :: string
  fr_byte_size :: int
  fr_created_at :: timestamp

definition record_of :: "file_row \<Rightarrow> file_record" where
  "record_of f =
     \<lparr>fr_id = f_id f, fr_project_id = f_project_id f, fr_task_id = f_task_id f, fr_note_id = f_note_id f,
      fr_event_id = f_event_id f, fr_filename = f_filename f, fr_content_type = f_content_type f,
      fr_byte_size = f_byte_size f, fr_created_at = f_created_at f\<rparr>"

record file_list_query =
  fq_project_id :: "uuid option"
  fq_task_id :: "uuid option"
  fq_note_id :: "uuid option"
  fq_event_id :: "uuid option"

text \<open>The sum of a BIGINT column is NUMERIC; the cast back fails out of range. \<open>i64::saturating_sub\<close> stays in range.\<close>

definition to_bigint :: "int \<Rightarrow> int app_result" where
  "to_bigint n =
     (if - (2 ^ 63) \<le> n \<and> n < 2 ^ 63 then Inr n else Inl (Database (DatabaseError None (Some ''22003''))))"

definition saturating_sub :: "int \<Rightarrow> int \<Rightarrow> int" where
  "saturating_sub a b = clamp (- (2 ^ 63)) (2 ^ 63 - 1) (a - b)"

definition stored_bytes :: "(file_row \<Rightarrow> bool) \<Rightarrow> world \<Rightarrow> int" where
  "stored_bytes p w = sum_list (map f_byte_size (filter p (files w)))"

definition file_usage_bytes :: "uuid \<Rightarrow> world \<Rightarrow> int app_result" where
  "file_usage_bytes user w = to_bigint (stored_bytes (\<lambda>f. f_user_id f = user) w)"

definition validate_one_parent :: "uuid option list \<Rightarrow> unit app_result" where
  "validate_one_parent ids = require (given ids \<le> 1) (Validation ''a file can be linked to at most one item'')"

definition verify_file_parent :: "uuid \<Rightarrow> file_list_query \<Rightarrow> world \<Rightarrow> unit app_result" where
  "verify_file_parent user q w =
     require (case fq_project_id q of Some i \<Rightarrow> has_project user i w | None \<Rightarrow>
             (case fq_task_id q of Some i \<Rightarrow> has_task user i w | None \<Rightarrow>
             (case fq_note_id q of Some i \<Rightarrow> has_note user i w | None \<Rightarrow>
             (case fq_event_id q of Some i \<Rightarrow> has_event user i w | None \<Rightarrow> True))))
       (NotFound ''file parent'')"

definition parents_of :: "file_list_query \<Rightarrow> uuid option list" where
  "parents_of q = [fq_project_id q, fq_task_id q, fq_note_id q, fq_event_id q]"

definition file_checks :: "file_row \<Rightarrow> world \<Rightarrow> unit app_result" where
  "file_checks f w =
     bind_res (require (\<not> list_ex (\<lambda>g. f_object_key g = f_object_key f) (files w)) (unique_violation ''files_object_key_key'')) (\<lambda>_.
     require (1 \<le> chars_count (f_filename f) \<and> chars_count (f_filename f) \<le> 255 \<and> 1 \<le> chars_count (f_content_type f)
         \<and> chars_count (f_content_type f) \<le> 255 \<and> 0 \<le> f_byte_size f \<and> f_byte_size f \<le> 104857600)
       (Database (DatabaseError None (Some ''23514''))))"

definition create_file_metadata ::
  "uuid \<Rightarrow> file_list_query \<Rightarrow> string \<Rightarrow> string \<Rightarrow> string \<Rightarrow> int \<Rightarrow> int \<Rightarrow> int \<Rightarrow> world \<Rightarrow> file_record store_result" where
  "create_file_metadata user parent object_key filename content_type byte_size max_user max_total w =
     bind_res (validate_one_parent (parents_of parent)) (\<lambda>_.
     bind_res (verify_file_parent user parent w) (\<lambda>_.
     bind_res (file_usage_bytes user w) (\<lambda>used.
     bind_res (require (byte_size \<le> saturating_sub max_user used)
       (InvalidRequest 413 ''personal attachment storage quota exceeded'')) (\<lambda>_.
     bind_res (to_bigint (stored_bytes (\<lambda>_. True) w)) (\<lambda>total_used.
     bind_res (require (byte_size \<le> saturating_sub max_total total_used)
       (InvalidRequest 413 ''attachment storage quota exceeded'')) (\<lambda>_.
     let (i, w) = new_uuid w;
         f = \<lparr>f_id = i, f_user_id = user, f_project_id = fq_project_id parent, f_task_id = fq_task_id parent,
              f_note_id = fq_note_id parent, f_event_id = fq_event_id parent, f_object_key = object_key,
              f_filename = filename, f_content_type = content_type, f_byte_size = byte_size, f_created_at = now w\<rparr>
     in bind_res (file_checks f w) (\<lambda>_. Inr (record_of f, w\<lparr>files := files w @ [f]\<rparr>))))))))"

definition linked_to :: "uuid option \<Rightarrow> uuid option \<Rightarrow> bool" where
  "linked_to wanted actual \<longleftrightarrow> wanted = None \<or> actual = wanted"

definition list_files :: "uuid \<Rightarrow> file_list_query \<Rightarrow> world \<Rightarrow> file_record list app_result" where
  "list_files user q w =
     bind_res (validate_one_parent (parents_of q)) (\<lambda>_.
     Inr (map record_of (rev (sort_key (\<lambda>f. (f_created_at f, f_id f))
       (filter (\<lambda>f. f_user_id f = user \<and> linked_to (fq_project_id q) (f_project_id f) \<and> linked_to (fq_task_id q) (f_task_id f)
          \<and> linked_to (fq_note_id q) (f_note_id f) \<and> linked_to (fq_event_id q) (f_event_id f)) (files w))))))"

definition user_file :: "uuid \<Rightarrow> uuid \<Rightarrow> world \<Rightarrow> file_row option" where
  "user_file user i w = row_by (\<lambda>f. f_user_id f = user \<and> f_id f = i) (files w)"

definition file_download :: "uuid \<Rightarrow> uuid \<Rightarrow> world \<Rightarrow> (file_record \<times> string) app_result" where
  "file_download user i w = ok_or (map_option (\<lambda>f. (record_of f, f_object_key f)) (user_file user i w)) (NotFound ''file'')"

definition delete_file_metadata :: "uuid \<Rightarrow> uuid \<Rightarrow> world \<Rightarrow> string store_result" where
  "delete_file_metadata user i w =
     bind_res (ok_or (user_file user i w) (NotFound ''file'')) (\<lambda>f.
     Inr (f_object_key f, w\<lparr>files := delete_where (\<lambda>f. f_user_id f = user \<and> f_id f = i) (files w)\<rparr>))"

definition account_object_keys :: "uuid \<Rightarrow> world \<Rightarrow> string list" where
  "account_object_keys user w = map f_object_key (filter (\<lambda>f. f_user_id f = user) (files w))"

section \<open>Saved task views\<close>

record create_saved_view_request =
  cv_name :: string
  cv_project_id :: "uuid option"
  cv_search :: string
  cv_status :: saved_task_status
  cv_priority :: "task_priority option"
  cv_label :: "string option"
  cv_sort :: saved_task_sort

record saved_task_view =
  vw_id :: uuid
  vw_project_id :: "uuid option"
  vw_name :: string
  vw_search :: string
  vw_status :: saved_task_status
  vw_priority :: "task_priority option"
  vw_label :: "string option"
  vw_sort :: saved_task_sort
  vw_created_at :: timestamp

definition view_of :: "saved_view_row \<Rightarrow> saved_task_view" where
  "view_of v =
     \<lparr>vw_id = sv_id v, vw_project_id = sv_project_id v, vw_name = sv_name v, vw_search = sv_search v, vw_status = sv_status v,
      vw_priority = sv_priority v, vw_label = sv_label v, vw_sort = sv_sort v, vw_created_at = sv_created_at v\<rparr>"

definition saved_task_views :: "platform \<Rightarrow> uuid \<Rightarrow> world \<Rightarrow> saved_task_view list" where
  "saved_task_views pf user w =
     map view_of (take 50 (sort_key (\<lambda>v. (collation_key pf (to_lowercase pf (sv_name v)), sv_id v))
       (filter (\<lambda>v. sv_user_id v = user) (saved_views w))))"

definition saved_view_error :: "sqlx_error \<Rightarrow> app_error" where
  "saved_view_error e =
     (case e of
        DatabaseError _ (Some code) \<Rightarrow>
          if code = ''23505'' then Conflict ''A saved view with that name already exists.''
          else if code = ''55P03'' then Conflict ''Saved view dependencies are busy. Try again shortly.''
          else Database e
      | _ \<Rightarrow> Database e)"

definition validate_saved_view :: "string \<Rightarrow> string \<Rightarrow> string option \<Rightarrow> unit app_result" where
  "validate_saved_view name search label =
     bind_res (require (\<not> (CHR 0x00 \<in> set name \<or> CHR 0x00 \<in> set search \<or> (case label of None \<Rightarrow> False | Some l \<Rightarrow> CHR 0x00 \<in> set l)))
       (Validation ''Saved views cannot contain null characters.'')) (\<lambda>_.
     require (\<not> (name = [] \<or> 80 < chars_count name \<or> 500 < chars_count search
         \<or> (case label of None \<Rightarrow> False | Some l \<Rightarrow> l = [] \<or> 60 < chars_count l)))
       (Validation ''Use a name of 1-80 characters, a search of at most 500, and a label of 1-60.''))"

text \<open>\<open>acquired\<close>: the advisory lock is free; \<open>unlocked\<close>: no other transaction holds the project row.\<close>

definition create_saved_task_view ::
  "platform \<Rightarrow> bool \<Rightarrow> bool \<Rightarrow> uuid \<Rightarrow> create_saved_view_request \<Rightarrow> world \<Rightarrow> saved_task_view store_result" where
  "create_saved_task_view pf acquired unlocked user req w =
     (let name = trim (cv_name req); search = trim (cv_search req); label = map_option trim (cv_label req) in
      bind_res (validate_saved_view name search label) (\<lambda>_.
      bind_res (require acquired (Conflict ''Saved views are busy. Try again shortly.'')) (\<lambda>_.
      bind_res (case cv_project_id req of
                  None \<Rightarrow> Inr ()
                | Some project \<Rightarrow>
                    if \<not> has_project user project w then Inl (NotFound ''project'')
                    else require unlocked (saved_view_error (DatabaseError None (Some ''55P03'')))) (\<lambda>_.
      bind_res (require (length (filter (\<lambda>v. sv_user_id v = user) (saved_views w)) < 50)
        (Validation ''You can save up to 50 views. Delete one before adding another.'')) (\<lambda>_.
      bind_res (require (\<not> list_ex (\<lambda>v. sv_user_id v = user \<and> to_lowercase pf (sv_name v) = to_lowercase pf name) (saved_views w))
        (saved_view_error (DatabaseError (Some ''saved_task_views_owner_name_idx'') (Some ''23505'')))) (\<lambda>_.
      let (i, w) = new_uuid w;
          v = \<lparr>sv_id = i, sv_user_id = user, sv_project_id = cv_project_id req, sv_name = name, sv_search = search,
               sv_status = cv_status req, sv_priority = cv_priority req, sv_label = label, sv_sort = cv_sort req,
               sv_created_at = now w\<rparr>
      in Inr (view_of v, w\<lparr>saved_views := saved_views w @ [v]\<rparr>)))))))"

definition delete_saved_task_view :: "uuid \<Rightarrow> uuid \<Rightarrow> world \<Rightarrow> unit store_result" where
  "delete_saved_task_view user i w =
     (if list_ex (\<lambda>v. sv_user_id v = user \<and> sv_id v = i) (saved_views w)
      then Inr ((), w\<lparr>saved_views := delete_where (\<lambda>v. sv_user_id v = user \<and> sv_id v = i) (saved_views w)\<rparr>)
      else Inl (NotFound ''saved view''))"

end
