(* ===== verification/Isolation.thy ===== *)
theory Isolation
  imports Workspace
begin

text \<open>
  The accounts share one database and must not notice each other. The contract is Rushby's unwinding: a request depends
  on the rows of its own user only and changes no row of another; from it follows that the answers a user gets in
  any interleaving are those of the run in which nobody else was there. The provider is the workspace store: every
  note, search, file and saved-view operation. Clock and identifiers are inputs of a request.
\<close>

section \<open>Unwinding\<close>

fun run :: "('e \<Rightarrow> 's \<Rightarrow> 'o \<times> 's) \<Rightarrow> 'e list \<Rightarrow> 's \<Rightarrow> ('e \<times> 'o) list \<times> 's" where
  "run step [] s = ([], s)"
| "run step (e # es) s = (let (answer, s) = step e s; (log, s) = run step es s in ((e, answer) # log, s))"

fun admissible_run :: "('e \<Rightarrow> 's \<Rightarrow> bool) \<Rightarrow> ('e \<Rightarrow> 's \<Rightarrow> 'o \<times> 's) \<Rightarrow> 'e list \<Rightarrow> 's \<Rightarrow> bool" where
  "admissible_run adm step [] s = True"
| "admissible_run adm step (e # es) s = (adm e s \<and> admissible_run adm step es (snd (step e s)))"

locale unwinding =
  fixes step :: "'e \<Rightarrow> 's \<Rightarrow> 'o \<times> 's"
    and actor :: "'e \<Rightarrow> 'd"
    and view :: "'d \<Rightarrow> 's \<Rightarrow> 'v"
    and ok :: "'s \<Rightarrow> bool"
    and admissible :: "'e \<Rightarrow> 's \<Rightarrow> bool"
    and secluded :: "'e \<Rightarrow> bool"
  assumes consistent:
    "secluded e \<Longrightarrow> view (actor e) s = view (actor e) t \<Longrightarrow>
       fst (step e s) = fst (step e t) \<and> view (actor e) (snd (step e s)) = view (actor e) (snd (step e t))"
    and respects: "ok s \<Longrightarrow> admissible e s \<Longrightarrow> d \<noteq> actor e \<Longrightarrow> view d (snd (step e s)) = view d s"
    and keeps: "ok s \<Longrightarrow> admissible e s \<Longrightarrow> ok (snd (step e s))"
begin

lemma noninterference:
  assumes "ok s" and "admissible_run admissible step es s" and "\<forall>e \<in> set es. actor e = d \<longrightarrow> secluded e" and "view d s = view d t"
  shows "filter (\<lambda>(e, _). actor e = d) (fst (run step es s)) = fst (run step (filter (\<lambda>e. actor e = d) es) t)
    \<and> view d (snd (run step es s)) = view d (snd (run step (filter (\<lambda>e. actor e = d) es) t))"
  using assms
proof (induction es arbitrary: s t)
  case (Cons e es)
  have ok: "ok (snd (step e s))" using keeps Cons.prems(1,2) by simp
  show ?case
  proof (cases "actor e = d")
    case True
    with Cons.prems consistent [of e s t]
    have same: "fst (step e s) = fst (step e t)" "view d (snd (step e s)) = view d (snd (step e t))" by auto
    show ?thesis using Cons.IH [OF ok _ _ same(2)] Cons.prems True same(1)
      by (simp add: Let_def split_beta)
  next
    case False
    with Cons.prems respects [of s e d] have "view d (snd (step e s)) = view d t" by auto
    from Cons.IH [OF ok _ _ this] Cons.prems False show ?thesis by (simp add: Let_def split_beta)
  qed
qed simp

lemma others_leave_no_trace:
  assumes "ok s" and "admissible_run admissible step es s" and "\<forall>e \<in> set es. actor e \<noteq> d"
  shows "view d (snd (run step es s)) = view d s"
  using noninterference [of s es d s] assms by (auto simp: filter_empty_conv)

lemma run_stays_ok: "ok s \<Longrightarrow> admissible_run admissible step es s \<Longrightarrow> ok (snd (run step es s))"
  by (induction es arbitrary: s) (simp_all add: Let_def split_beta keeps)

end

section \<open>The workspace as such a system\<close>

datatype workspace_request =
    ListNotes
  | CreateNote create_note_request
  | UpdateNote uuid update_note_request
  | DeleteNote uuid int
  | Search string int
  | FileUsage
  | CreateFile file_list_query string string string int int int
  | ListFiles file_list_query
  | DownloadFile uuid
  | DeleteFile uuid
  | ListViews
  | CreateView bool bool create_saved_view_request
  | DeleteView uuid

datatype workspace_answer =
    NoteAnswer "note_record list"
  | SearchAnswer "search_result list"
  | UsageAnswer int
  | FileAnswer "file_record list"
  | ObjectAnswer "(file_record \<times> string) list"
  | KeyAnswer string
  | ViewAnswer "saved_task_view list"
  | EmptyAnswer

definition answers :: "('a \<Rightarrow> workspace_answer) \<Rightarrow> 'a store_result \<Rightarrow> workspace_answer store_result" where
  "answers f r = bind_res r (\<lambda>(a, w). Inr (f a, w))"

definition reads :: "('a \<Rightarrow> workspace_answer) \<Rightarrow> 'a app_result \<Rightarrow> world \<Rightarrow> workspace_answer store_result" where
  "reads f r w = bind_res r (\<lambda>a. Inr (f a, w))"

fun serve :: "platform \<Rightarrow> (string \<Rightarrow> string \<Rightarrow> bool) \<Rightarrow> uuid \<Rightarrow> workspace_request \<Rightarrow> world \<Rightarrow> workspace_answer store_result" where
  "serve pf fts user ListNotes w = Inr (NoteAnswer (list_notes user w), w)"
| "serve pf fts user (CreateNote req) w = answers (\<lambda>n. NoteAnswer [n]) (create_note user req w)"
| "serve pf fts user (UpdateNote i req) w = answers (\<lambda>n. NoteAnswer [n]) (update_note user i req w)"
| "serve pf fts user (DeleteNote i version) w = answers (\<lambda>_. EmptyAnswer) (delete_note user i version w)"
| "serve pf fts user (Search query limit) w = reads SearchAnswer (global_search fts user query limit w) w"
| "serve pf fts user FileUsage w = reads UsageAnswer (file_usage_bytes user w) w"
| "serve pf fts user (CreateFile parent key name kind bytes max_user max_total) w =
     answers (\<lambda>f. FileAnswer [f]) (create_file_metadata user parent key name kind bytes max_user max_total w)"
| "serve pf fts user (ListFiles q) w = reads FileAnswer (list_files user q w) w"
| "serve pf fts user (DownloadFile i) w = reads (\<lambda>x. ObjectAnswer [x]) (file_download user i w) w"
| "serve pf fts user (DeleteFile i) w = answers KeyAnswer (delete_file_metadata user i w)"
| "serve pf fts user ListViews w = Inr (ViewAnswer (saved_task_views pf user w), w)"
| "serve pf fts user (CreateView acquired unlocked req) w =
     answers (\<lambda>v. ViewAnswer [v]) (create_saved_task_view pf acquired unlocked user req w)"
| "serve pf fts user (DeleteView i) w = answers (\<lambda>_. EmptyAnswer) (delete_saved_task_view user i w)"

record workspace_event =
  we_user :: uuid
  we_time :: timestamp
  we_id :: uuid
  we_request :: workspace_request

definition perform ::
  "platform \<Rightarrow> (string \<Rightarrow> string \<Rightarrow> bool) \<Rightarrow> workspace_event \<Rightarrow> world \<Rightarrow> workspace_answer app_result \<times> world" where
  "perform pf fts e w =
     (case serve pf fts (we_user e) (we_request e) (w\<lparr>now := we_time e, uuid_supply := (\<lambda>_. we_id e), drawn := 0\<rparr>) of
        Inl err \<Rightarrow> (Inl err, w)
      | Inr (a, w') \<Rightarrow> (Inr a, w'))"

text \<open>What a user owns; what a request may not collide with; which requests depend on what everybody stores.\<close>

definition own :: "uuid \<Rightarrow> world \<Rightarrow> note_row list \<times> file_row list \<times> saved_view_row list \<times> project_row list \<times> task_row list \<times> event_row list" where
  "own user w =
     (filter (\<lambda>n. n_user_id n = user) (note_rows w), filter (\<lambda>f. f_user_id f = user) (files w),
      filter (\<lambda>v. sv_user_id v = user) (saved_views w), filter (\<lambda>p. pr_user_id p = user) (projects w),
      filter (\<lambda>t. t_user_id t = user) (tasks w), filter (\<lambda>e. e_user_id e = user) (events w))"

definition attached :: "world \<Rightarrow> bool" where
  "attached w \<longleftrightarrow> distinct (map n_id (note_rows w))
     \<and> (\<forall>f \<in> set (files w). \<forall>i. f_note_id f = Some i \<longrightarrow> has_note (f_user_id f) i w)"

definition new_id :: "workspace_event \<Rightarrow> world \<Rightarrow> bool" where
  "new_id e w \<longleftrightarrow> we_id e \<notin> n_id ` set (note_rows w)"

definition creates_file :: "workspace_request \<Rightarrow> bool" where
  "creates_file r = (case r of CreateFile _ _ _ _ _ _ _ \<Rightarrow> True | _ \<Rightarrow> False)"

section \<open>A request depends on the rows of its user\<close>

lemma filter_delete_where: "filter p (delete_where q rs) = delete_where q (filter p rs)"
  by (simp add: delete_where_def conj_commute)

lemma filter_update_where: "(\<And>r. q r \<Longrightarrow> p (f r) = p r) \<Longrightarrow> filter p (update_where q f rs) = update_where q f (filter p rs)"
  by (induction rs) (auto simp: update_where_def)

lemma filter_map_keeps: "(\<And>r. p (f r) = p r) \<Longrightarrow> filter p (map f rs) = map f (filter p rs)"
  by (induction rs) auto

lemma row_by_filter: "row_by (\<lambda>r. p r \<and> q r) rs = row_by p (filter q rs)"
  by (induction rs) (auto simp: row_by_def)

lemma list_ex_filter: "list_ex (\<lambda>r. p r \<and> q r) rs = list_ex p (filter q rs)"
  by (induction rs) auto

definition same :: "uuid \<Rightarrow> world \<Rightarrow> world \<Rightarrow> bool" where
  "same user s t \<longleftrightarrow> own user s = own user t \<and> now s = now t \<and> fst (new_uuid s) = fst (new_uuid t)"

definition agree :: "uuid \<Rightarrow> 'a store_result \<Rightarrow> 'a store_result \<Rightarrow> bool" where
  "agree user r r' =
     (case (r, r') of
        (Inl e, Inl e') \<Rightarrow> e = e'
      | (Inr (a, w), Inr (a', w')) \<Rightarrow> a = a' \<and> own user w = own user w'
      | _ \<Rightarrow> False)"

lemma agree_simps [simp]:
  "agree user (Inl e) (Inl e')  \<longleftrightarrow> e = e'"
  "agree user (Inr (a, w)) (Inr (a', w')) \<longleftrightarrow> a = a' \<and> own user w = own user w'"
  by (simp_all add: agree_def)

lemma agree_bind: "(\<And>a. m = Inr a \<Longrightarrow> agree user (f a) (g a)) \<Longrightarrow> agree user (bind_res m f) (bind_res m g)"
  by (cases m) simp_all

lemma agree_answers: "agree user r r' \<Longrightarrow> agree user (answers f r) (answers f r')"
  by (cases r; cases r') (auto simp: agree_def answers_def split: prod.splits)

lemma agree_reads: "r = r' \<Longrightarrow> own user w = own user w' \<Longrightarrow> agree user (reads f r w) (reads f r' w')"
  by (cases r') (simp_all add: reads_def)

lemma sameD:
  assumes "same user s t"
  shows "filter (\<lambda>n. n_user_id n = user) (note_rows s) = filter (\<lambda>n. n_user_id n = user) (note_rows t)"
    and "filter (\<lambda>f. f_user_id f = user) (files s) = filter (\<lambda>f. f_user_id f = user) (files t)"
    and "filter (\<lambda>v. sv_user_id v = user) (saved_views s) = filter (\<lambda>v. sv_user_id v = user) (saved_views t)"
    and "filter (\<lambda>p. pr_user_id p = user) (projects s) = filter (\<lambda>p. pr_user_id p = user) (projects t)"
    and "filter (\<lambda>t. t_user_id t = user) (tasks s) = filter (\<lambda>t. t_user_id t = user) (tasks t)"
    and "filter (\<lambda>e. e_user_id e = user) (events s) = filter (\<lambda>e. e_user_id e = user) (events t)"
    and "now s = now t" and "fst (new_uuid s) = fst (new_uuid t)"
  using assms by (simp_all add: same_def own_def)

lemma same_has:
  assumes "same user s t"
  shows "has_project user i s = has_project user i t" "has_task user i s = has_task user i t"
    "has_event user i s = has_event user i t"
  using sameD [OF assms] by (simp_all add: has_project_def has_task_def has_event_def list_ex_filter)

lemma same_note_link: "same user s t \<Longrightarrow> validate_note_link user p k e s = validate_note_link user p k e t"
  by (simp add: validate_note_link_def same_has split: option.split)

lemma same_note_row:
  assumes "same user s t"
  shows "row_by (\<lambda>n. n_id n = i \<and> n_user_id n = user \<and> n_version n = v) (note_rows s)
      = row_by (\<lambda>n. n_id n = i \<and> n_user_id n = user \<and> n_version n = v) (note_rows t)"
    and "note_error user i v s = note_error user i v t"
  using row_by_filter [of "\<lambda>n :: note_row. n_id n = i \<and> n_version n = v" "\<lambda>n. n_user_id n = user"]
    row_by_filter [of "\<lambda>n :: note_row. n_id n = i" "\<lambda>n. n_user_id n = user"] sameD(1) [OF assms]
  by (simp_all add: note_error_def conj_ac)

lemma same_create_note: "same user s t \<Longrightarrow> agree user (create_note user req s) (create_note user req t)"
  unfolding create_note_def
  by (simp add: same_note_link, intro agree_bind)
    (frule sameD(8), frule sameD(7), simp add: same_def own_def new_uuid_def split_beta Let_def)

lemma same_update_note: "same user s t \<Longrightarrow> agree user (update_note user i req s) (update_note user i req t)"
  unfolding update_note_def
  by (simp add: same_note_link, intro agree_bind)
    (simp add: same_note_row sameD(7) own_def Let_def filter_update_where set_note_def sameD(1-6) split: option.split)

lemma same_note_hits:
  "same user s t \<Longrightarrow> {n \<in> set (note_rows s). n_id n = i \<and> n_user_id n = user \<and> n_version n = v}
     = {n \<in> set (note_rows t). n_id n = i \<and> n_user_id n = user \<and> n_version n = v}"
  using arg_cong [where f = set, OF sameD(1) [of user s t]] by auto

lemma same_delete_note: "same user s t \<Longrightarrow> agree user (delete_note user i v s) (delete_note user i v t)"
  by (simp add: delete_note_def same_note_row Let_def split: option.split)
   (simp add: own_def delete_notes_def Let_def filter_delete_where filter_map_keeps sameD(1-6) same_note_hits)

lemma same_create_view:
  "same user s t \<Longrightarrow> agree user (create_saved_task_view pf a u user req s) (create_saved_task_view pf a u user req t)"
  using list_ex_filter [of "\<lambda>v :: saved_view_row. to_lowercase pf (sv_name v) = to_lowercase pf (trim (cv_name req))" "\<lambda>v. sv_user_id v = user"]
  unfolding create_saved_task_view_def
  by (simp add: same_has sameD(3) Let_def conj_commute cong: option.case_cong, intro agree_bind)
    (frule sameD(8), frule sameD(7), simp add: same_def own_def new_uuid_def split_beta)

lemma same_delete_view: "same user s t \<Longrightarrow> agree user (delete_saved_task_view user i s) (delete_saved_task_view user i t)"
  using list_ex_filter [of "\<lambda>v :: saved_view_row. sv_id v = i" "\<lambda>v. sv_user_id v = user"]
  by (simp add: delete_saved_task_view_def own_def filter_delete_where sameD(1-6) conj_commute)

lemma same_file: "same user s t \<Longrightarrow> user_file user i s = user_file user i t"
  using row_by_filter [of "\<lambda>f :: file_row. f_id f = i" "\<lambda>f. f_user_id f = user"]
  by (simp add: user_file_def sameD(2) conj_commute)

lemma same_delete_file: "same user s t \<Longrightarrow> agree user (delete_file_metadata user i s) (delete_file_metadata user i t)"
  unfolding delete_file_metadata_def
  by (simp add: same_file, intro agree_bind) (simp add: own_def filter_delete_where sameD(1-6))

lemma filter_more: "filter (\<lambda>r. p r \<and> q r) rs = filter q (filter p rs)"
  by (simp add: conj_commute)

lemma same_reads:
  assumes "same user s t"
  shows "list_notes user s = list_notes user t" "saved_task_views pf user s = saved_task_views pf user t"
    "list_files user q s = list_files user q t" "file_usage_bytes user s = file_usage_bytes user t"
    "file_download user i s = file_download user i t" "global_search fts user query limit s = global_search fts user query limit t"
  by (simp_all add: list_notes_def saved_task_views_def file_usage_bytes_def stored_bytes_def file_download_def list_files_def
      global_search_def search_matches_def filter_more same_file [OF assms] sameD(1-6) [OF assms] del: filter_filter)

lemma serve_agrees:
  assumes "\<not> creates_file req" and "same user s t"
  shows "agree user (serve pf fts user req s) (serve pf fts user req t)"
  using assms
  by (cases req)
    (simp_all add: creates_file_def same_reads same_create_note same_update_note same_delete_note same_create_view same_delete_view
      same_delete_file agree_answers agree_reads same_def [of user s t])

lemma perform_agrees:
  assumes "\<not> creates_file (we_request e)" and "own (we_user e) s = own (we_user e) t"
  shows "fst (perform pf fts e s) = fst (perform pf fts e t)
    \<and> own (we_user e) (snd (perform pf fts e s)) = own (we_user e) (snd (perform pf fts e t))"
proof -
  let ?at = "\<lambda>w. w\<lparr>now := we_time e, uuid_supply := (\<lambda>_. we_id e), drawn := 0\<rparr>"
  have "same (we_user e) (?at s) (?at t)"
    using assms(2) by (simp add: same_def own_def new_uuid_def)
  from serve_agrees [OF assms(1) this, of pf fts] assms(2) show ?thesis
    by (auto simp: perform_def agree_def split: sum.splits prod.splits)
qed

section \<open>A request changes the rows of its user only\<close>

lemma has_note_iff: "has_note user i w \<longleftrightarrow> (\<exists>n \<in> set (note_rows w). n_id n = i \<and> n_user_id n = user)"
  by (simp add: has_note_def list_ex_iff)

lemma note_owner:
  "distinct (map n_id (note_rows w)) \<Longrightarrow> has_note user i w \<Longrightarrow> has_note user' i w \<Longrightarrow> user = user'"
  unfolding has_note_iff using distinct_map_inj [of n_id "note_rows w"] by metis

lemma attached_same: "note_rows w' = note_rows w \<Longrightarrow> set (files w') \<subseteq> set (files w) \<Longrightarrow> attached w \<Longrightarrow> attached w'"
  by (auto simp: attached_def has_note_iff)

definition only_own :: "uuid \<Rightarrow> world \<Rightarrow> world \<Rightarrow> bool" where
  "only_own user w w' \<longleftrightarrow> attached w' \<and> (\<forall>other. other \<noteq> user \<longrightarrow> own other w' = own other w)"

lemma unlink_id: "\<not> refers x p \<Longrightarrow> unlink p x = x"
  by (auto simp: unlink_def refers_def split: option.splits)

lemma attached_delete_notes: "attached w \<Longrightarrow> attached (delete_notes p w)"
  unfolding attached_def has_note_iff delete_notes_def
  by (auto simp: Let_def unlink_Some distinct_map_delete_where) fastforce

lemma filter_delete_other: "(\<And>r. q r \<Longrightarrow> \<not> p r) \<Longrightarrow> filter p (delete_where q rs) = filter p rs"
  by (induction rs) (auto simp: delete_where_def)

lemma own_delete_notes:
  assumes ok: "attached w" and p: "\<And>n. p n \<Longrightarrow> n_user_id n = user" and other: "other \<noteq> user"
  shows "own other (delete_notes p w) = own other w"
proof -
  let ?gone = "n_id ` {n \<in> set (note_rows w). p n}"
  have "\<not> refers (f_note_id f) (\<lambda>i. i \<in> ?gone)" if f: "f \<in> set (files w)" "f_user_id f = other" for f
  proof (cases "f_note_id f")
    case (Some i)
    then have "has_note other i w" using ok f by (auto simp: attached_def)
    moreover have "has_note user i w" if "i \<in> ?gone"
      using that p by (auto simp: has_note_iff)
    ultimately show ?thesis
      using other note_owner [of w other i user] ok by (auto simp: Some refers_def attached_def)
  qed (simp add: refers_def)
  then have "map (\<lambda>f. f\<lparr>f_note_id := unlink (\<lambda>i. i \<in> ?gone) (f_note_id f)\<rparr>) (filter (\<lambda>f. f_user_id f = other) (files w))
      = filter (\<lambda>f. f_user_id f = other) (files w)"
    by (intro map_idI) (fastforce simp: unlink_id)
  moreover have "filter (\<lambda>n. n_user_id n = other) (delete_where p (note_rows w)) = filter (\<lambda>n. n_user_id n = other) (note_rows w)"
    by (rule filter_delete_other) (use p other in auto)
  ultimately show ?thesis by (simp add: own_def delete_notes_def Let_def filter_map_keeps)
qed

lemma own_add_note:
  assumes "attached w" and "n_user_id n = user" and "n_id n \<notin> n_id ` set (note_rows w)"
  shows "only_own user w (w\<lparr>drawn := d, note_rows := note_rows w @ [n]\<rparr>)"
  using assms by (auto simp: only_own_def own_def attached_def has_note_iff)

lemma own_add_file:
  assumes "attached w" and "f_user_id f = user" and "\<And>i. f_note_id f = Some i \<Longrightarrow> has_note user i w"
  shows "only_own user w (w\<lparr>drawn := d, files := files w @ [f]\<rparr>)"
  using assms by (auto simp: only_own_def own_def attached_def has_note_iff)

lemma filter_update_other: "(\<And>r. q r \<Longrightarrow> \<not> p r \<and> \<not> p (f r)) \<Longrightarrow> filter p (update_where q f rs) = filter p rs"
  by (induction rs) (auto simp: update_where_def)

lemma has_note_keys: "has_note user i w \<longleftrightarrow> (i, user) \<in> set (map (\<lambda>n. (n_id n, n_user_id n)) (note_rows w))"
  by (auto simp: has_note_iff)

lemma own_update_note:
  assumes "attached w" and "\<And>n. p n \<Longrightarrow> n_user_id n = user" and "\<And>n. n_id (f n) = n_id n \<and> n_user_id (f n) = n_user_id n"
  shows "only_own user w (w\<lparr>note_rows := update_where p f (note_rows w)\<rparr>)"
  using assms by (auto simp: only_own_def own_def attached_def has_note_keys filter_update_other simp del: set_map)

lemma file_parent_note:
  "validate_one_parent (parents_of q) = Inr u \<Longrightarrow> verify_file_parent user q w = Inr u' \<Longrightarrow> fq_note_id q = Some i \<Longrightarrow> has_note user i w"
  by (cases "fq_project_id q"; cases "fq_task_id q")
    (simp_all add: validate_one_parent_def parents_of_def given_def verify_file_parent_def)

lemma serve_own:
  assumes "serve pf fts user req w = Inr (a, w')" and ok: "attached w" and new: "fst (new_uuid w) \<notin> n_id ` set (note_rows w)"
  shows "only_own user w w'"
proof (cases req)
  case (CreateNote r)
  with assms show ?thesis
    by (auto simp: answers_def create_note_def new_uuid_def Let_def intro!: own_add_note)
next
  case (UpdateNote i r)
  with assms show ?thesis
    by (auto simp: answers_def update_note_def Let_def set_note_def intro!: own_update_note split: option.splits)
next
  case (DeleteNote i v)
  with assms show ?thesis
    by (auto simp: answers_def delete_note_def Let_def only_own_def attached_delete_notes intro!: own_delete_notes split: option.splits)
next
  case (CreateFile parent key name kind bytes max_user max_total)
  with assms show ?thesis
    by (auto simp: answers_def create_file_metadata_def new_uuid_def Let_def intro!: own_add_file elim!: file_parent_note)
next
  case (DeleteFile i)
  with assms show ?thesis
    by (auto simp: answers_def delete_file_metadata_def only_own_def own_def intro!: attached_same [OF _ _ ok] filter_delete_other)
next
  case (CreateView b c r)
  with assms show ?thesis
    by (auto simp: answers_def create_saved_task_view_def Let_def new_uuid_def only_own_def own_def intro!: attached_same [OF _ _ ok])
next
  case (DeleteView i)
  with assms show ?thesis
    by (auto simp: answers_def delete_saved_task_view_def only_own_def own_def split: if_splits intro!: attached_same [OF _ _ ok] filter_delete_other)
qed (use assms in \<open>auto simp: reads_def only_own_def\<close>)

lemma perform_own: "attached w \<Longrightarrow> new_id e w \<Longrightarrow> only_own (we_user e) w (snd (perform pf fts e w))"
proof -
  let ?at = "w\<lparr>now := we_time e, uuid_supply := (\<lambda>_. we_id e), drawn := 0\<rparr>"
  assume ok: "attached w" "new_id e w"
  then have at: "attached ?at" "fst (new_uuid ?at) \<notin> n_id ` set (note_rows ?at)"
    by (simp_all add: attached_def has_note_def new_id_def new_uuid_def)
  have "own other ?at = own other w" for other by (simp add: own_def)
  then have own: "only_own (we_user e) ?at w' \<Longrightarrow> only_own (we_user e) w w'" for w' by (simp add: only_own_def)
  show ?thesis
  proof (cases "serve pf fts (we_user e) (we_request e) ?at")
    case (Inr r)
    with own serve_own [OF _ at] show ?thesis by (cases r) (simp add: perform_def)
  qed (simp add: perform_def only_own_def ok(1))
qed

interpretation accounts: unwinding "perform pf fts" we_user own attached new_id "\<lambda>e. \<not> creates_file (we_request e)" for pf fts
proof
  fix e s t d
  show "fst (perform pf fts e s) = fst (perform pf fts e t) \<and> own (we_user e) (snd (perform pf fts e s)) = own (we_user e) (snd (perform pf fts e t))"
    if "\<not> creates_file (we_request e)" "own (we_user e) s = own (we_user e) t"
    by (rule perform_agrees [OF that])
  show "own d (snd (perform pf fts e s)) = own d s" if "attached s" "new_id e s" "d \<noteq> we_user e"
    using perform_own [OF that(1,2), of pf fts] that(3) unfolding only_own_def by blast
  show "attached (snd (perform pf fts e s))" if "attached s" "new_id e s"
    using perform_own [OF that, of pf fts] unfolding only_own_def by blast
qed


definition example_note :: "string \<Rightarrow> create_note_request" where
  "example_note title = \<lparr>cn_project_id = None, cn_task_id = None, cn_event_id = None, cn_title = title, cn_markdown = []\<rparr>"

definition example_events :: "workspace_event list" where
  "example_events =
     [\<lparr>we_user = 1, we_time = 5, we_id = 10, we_request = CreateNote (example_note ''a'')\<rparr>,
      \<lparr>we_user = 2, we_time = 6, we_id = 11, we_request = CreateNote (example_note ''b'')\<rparr>,
      \<lparr>we_user = 2, we_time = 7, we_id = 12, we_request = DeleteNote 10 1\<rparr>,
      \<lparr>we_user = 1, we_time = 8, we_id = 13, we_request = ListNotes\<rparr>]"

lemma example_titles: "trim ''a'' = ''a''" "trim ''b'' = ''b''"
  by (rule trim_visible; simp add: visible_def)+

lemmas example_steps = example_events_def example_note_def perform_def answers_def create_note_def delete_note_def list_notes_def
  example_titles validate_note_fields_def validate_note_link_def given_def chars_count_def new_uuid_def Let_def row_by_def note_error_def
  empty_world_def note_of_def

abbreviation example_run :: "workspace_event list \<Rightarrow> (workspace_event \<times> workspace_answer app_result) list \<times> world" where
  "example_run es \<equiv> run (perform (ascii_platform 0) (\<lambda>_ _. True)) es empty_world"

lemma example_admissible: "admissible_run new_id (perform (ascii_platform 0) (\<lambda>_ _. True)) example_events empty_world"
  by (simp add: example_steps new_id_def)

lemma example_alone:
  "map snd (fst (example_run (filter (\<lambda>e. we_user e = 1) example_events))) =
     (let n = \<lparr>no_id = 10, no_project_id = None, no_task_id = None, no_event_id = None, no_title = ''a'', no_markdown = [],
        no_created_at = 5, no_updated_at = 5, no_version = 1\<rparr>
      in [Inr (NoteAnswer [n]), Inr (NoteAnswer [n])])"
  by (simp add: example_steps)


end
