(* ===== verification/FileRoutes.thy ===== *)
theory FileRoutes
  imports SignIn Isolation
begin

text \<open>
  \<open>file_routes.rs\<close> and the calls of \<open>file_storage.rs\<close>: uploading, downloading and deleting attachments. The object store
  behind \<open>FileStorage\<close> (a directory or an S3 bucket) is a state machine that answers put, get and delete, and signs
  URLs when it is a bucket. A multipart body is the list of its fields, each the list of its chunks, with the
  errors of the parser at the place where they occur. \<open>mime_ok\<close> and \<open>parse_uuid\<close> are the parsers of those crates,
  \<open>header_ok\<close> the check of a header value.
\<close>

section \<open>Storage\<close>

record 'p object_store =
  os_put :: "string \<Rightarrow> string \<Rightarrow> 'p \<Rightarrow> bool \<times> 'p"
  os_get :: "string \<Rightarrow> 'p \<Rightarrow> string option \<times> 'p"
  os_signer :: "(string \<Rightarrow> 'p \<Rightarrow> string option \<times> 'p) option"
  os_delete :: "string \<Rightarrow> 'p \<Rightarrow> bool \<times> 'p"

definition storage_call :: "('p \<Rightarrow> 'a option \<times> 'p) \<Rightarrow> string \<Rightarrow> ('p, 'a) job" where
  "storage_call f problem s = (let (r, p) = f (snd s) in (ok_or r problem, fst s, p))"

definition done_if :: "bool \<times> 'p \<Rightarrow> unit option \<times> 'p" where
  "done_if r = (if fst r then Some () else None, snd r)"

definition put :: "'p object_store \<Rightarrow> string \<Rightarrow> string \<Rightarrow> ('p, unit) job" where
  "put st key bytes = storage_call (\<lambda>p. done_if (os_put st key bytes p)) ''failed to store file''"

definition get_object :: "'p object_store \<Rightarrow> string \<Rightarrow> ('p, string) job" where
  "get_object st key = storage_call (os_get st key) ''failed to read file''"

definition signed_download_url :: "'p object_store \<Rightarrow> string \<Rightarrow> ('p, string option) job" where
  "signed_download_url st key =
     (case os_signer st of
        None \<Rightarrow> job_return None
      | Some sign \<Rightarrow> job_bind (storage_call (sign key) ''failed to sign file download'') (\<lambda>url. job_return (Some url)))"

definition delete_object :: "'p object_store \<Rightarrow> string \<Rightarrow> ('p, unit) job" where
  "delete_object st key = storage_call (\<lambda>p. done_if (os_delete st key p)) ''failed to delete file''"

definition storage_error :: app_error where
  "storage_error = InvalidRequest 500 ''file storage operation failed''"

definition response_error :: app_error where
  "response_error = InvalidRequest 500 ''could not create file response''"

definition handle_storage :: "('p, 'a) job \<Rightarrow> ('p, 'a) handler" where
  "handle_storage m s = (case m s of (Inl e, s) \<Rightarrow> (Inl storage_error, s) | (Inr a, s) \<Rightarrow> (Inr a, s))"

section \<open>Multipart bodies\<close>

record multipart_field =
  mp_name :: "string option"
  mp_file_name :: "string option"
  mp_content_type :: "string option"
  mp_chunks :: "(nat + string) list"

definition invalid_multipart :: "nat \<Rightarrow> app_error" where
  "invalid_multipart status =
     (if status = 413 then InvalidRequest 413 ''multipart upload exceeds the request limit''
      else Validation ''invalid multipart file upload'')"

fun bounded_field :: "nat \<Rightarrow> string \<Rightarrow> (nat + string) list \<Rightarrow> string app_result" where
  "bounded_field maximum bytes [] = Inr bytes"
| "bounded_field maximum bytes (Inl status # cs) = Inl (invalid_multipart status)"
| "bounded_field maximum bytes (Inr chunk # cs) =
     (if maximum - length bytes < length chunk
      then Inl (InvalidRequest 413 (''upload field must not exceed '' @ show_nat maximum @ '' bytes''))
      else bounded_field maximum (bytes @ chunk) cs)"

definition replace_any :: "string \<Rightarrow> string \<Rightarrow> string" where
  "replace_any cs s = map (\<lambda>c. if c \<in> set cs then CHR ''_'' else c) s"

definition clean_filename :: "string \<Rightarrow> string" where
  "clean_filename value =
     take_chars 255 (replace_any [CHR 0x00, CHR 0x0D, CHR 0x0A]
       (rev (takeWhile (\<lambda>c. c \<noteq> CHR ''/'' \<and> c \<noteq> CHR 0x5C) (rev value))))"

text \<open>\<open>std::str::from_utf8\<close>: the well-formed byte sequences.\<close>

definition followers :: "nat \<Rightarrow> nat option" where
  "followers b =
     (if b < 0x80 then Some 0
      else if 0xC2 \<le> b \<and> b \<le> 0xDF then Some 1
      else if 0xE0 \<le> b \<and> b \<le> 0xEF then Some 2
      else if 0xF0 \<le> b \<and> b \<le> 0xF4 then Some 3
      else None)"

definition second_ok :: "nat \<Rightarrow> nat \<Rightarrow> bool" where
  "second_ok b c \<longleftrightarrow>
     (if b = 0xE0 then 0xA0 \<le> c else if b = 0xF0 then 0x90 \<le> c else 0x80 \<le> c)
     \<and> (if b = 0xED then c \<le> 0x9F else if b = 0xF4 then c \<le> 0x8F else c \<le> 0xBF)"

fun utf8_valid :: "nat list \<Rightarrow> bool" where
  "utf8_valid [] = True"
| "utf8_valid (b # bs) =
     (case followers b of
        None \<Rightarrow> False
      | Some k \<Rightarrow> k \<le> length bs \<and> (k = 0 \<or> second_ok b (hd bs)) \<and> list_all (\<lambda>c. c div 64 = 2) (take k bs) \<and> utf8_valid (drop k bs))"

definition parse_optional_id :: "(string \<Rightarrow> uuid option) \<Rightarrow> string \<Rightarrow> uuid option app_result" where
  "parse_optional_id parse_uuid value =
     (if trim value = [] then Inr None
      else bind_res (ok_or (parse_uuid value) (Validation ''file link identifier must be a UUID'')) (\<lambda>i. Inr (Some i)))"

record upload =
  up_filename :: string
  up_content_type :: string
  up_bytes :: string

record upload_form =
  uf_seen :: "string list"
  uf_upload :: "upload option"
  uf_parent :: file_list_query

definition empty_form :: upload_form where
  "empty_form =
     \<lparr>uf_seen = [], uf_upload = None,
      uf_parent = \<lparr>fq_project_id = None, fq_task_id = None, fq_note_id = None, fq_event_id = None\<rparr>\<rparr>"

definition read_upload :: "(string \<Rightarrow> bool) \<Rightarrow> nat \<Rightarrow> multipart_field \<Rightarrow> upload app_result" where
  "read_upload mime_ok max_file field =
     bind_res (ok_or (nonempty (map_option clean_filename (mp_file_name field))) (Validation ''file must have a filename'')) (\<lambda>filename.
     let content_type = (case mp_content_type field of Some t \<Rightarrow> t | None \<Rightarrow> ''application/octet-stream'')
     in bind_res (require (mime_ok content_type) (Validation ''file content type is invalid'')) (\<lambda>_.
     bind_res (bounded_field max_file [] (mp_chunks field)) (\<lambda>bytes.
     Inr \<lparr>up_filename = filename, up_content_type = content_type, up_bytes = bytes\<rparr>)))"

definition read_link :: "(string \<Rightarrow> uuid option) \<Rightarrow> multipart_field \<Rightarrow> uuid option app_result" where
  "read_link parse_uuid field =
     bind_res (bounded_field 64 [] (mp_chunks field)) (\<lambda>bytes.
     bind_res (require (utf8_valid (map of_char bytes)) (Validation ''file link identifier must be UTF-8'')) (\<lambda>_.
     parse_optional_id parse_uuid bytes))"

definition set_parent :: "string \<Rightarrow> uuid option \<Rightarrow> file_list_query \<Rightarrow> file_list_query" where
  "set_parent name i q =
     (if name = ''project_id'' then q\<lparr>fq_project_id := i\<rparr>
      else if name = ''task_id'' then q\<lparr>fq_task_id := i\<rparr>
      else if name = ''note_id'' then q\<lparr>fq_note_id := i\<rparr>
      else if name = ''event_id'' then q\<lparr>fq_event_id := i\<rparr>
      else q)"

definition read_field ::
  "(string \<Rightarrow> bool) \<Rightarrow> (string \<Rightarrow> uuid option) \<Rightarrow> nat \<Rightarrow> multipart_field \<Rightarrow> upload_form \<Rightarrow> upload_form app_result" where
  "read_field mime_ok parse_uuid max_file field form =
     (let name = (case mp_name field of Some n \<Rightarrow> n | None \<Rightarrow> []) in
      bind_res (require (name \<in> set [''file'', ''project_id'', ''task_id'', ''note_id'', ''event_id''] \<and> name \<notin> set (uf_seen form))
        (Validation ''unexpected or duplicate upload field'')) (\<lambda>_.
      let form = form\<lparr>uf_seen := name # uf_seen form\<rparr>
      in if name = ''file''
         then bind_res (read_upload mime_ok max_file field) (\<lambda>u. Inr (form\<lparr>uf_upload := Some u\<rparr>))
         else bind_res (read_link parse_uuid field) (\<lambda>i. Inr (form\<lparr>uf_parent := set_parent name i (uf_parent form)\<rparr>))))"

fun read_form ::
  "(string \<Rightarrow> bool) \<Rightarrow> (string \<Rightarrow> uuid option) \<Rightarrow> nat \<Rightarrow> (nat + multipart_field) list \<Rightarrow> upload_form \<Rightarrow> upload_form app_result" where
  "read_form mime_ok parse_uuid max_file [] form = Inr form"
| "read_form mime_ok parse_uuid max_file (Inl status # fs) form = Inl (invalid_multipart status)"
| "read_form mime_ok parse_uuid max_file (Inr field # fs) form =
     bind_res (read_field mime_ok parse_uuid max_file field form) (read_form mime_ok parse_uuid max_file fs)"

section \<open>Handlers\<close>

record file_usage_answer =
  fu_used_bytes :: int
  fu_max_user_storage_bytes :: int
  fu_max_file_size_bytes :: nat

definition file_usage :: "config \<Rightarrow> uuid \<Rightarrow> ('p, file_usage_answer) handler" where
  "file_usage cf user =
     handle_bind (handle_op (\<lambda>w. bind_res (file_usage_bytes user w) (\<lambda>n. Inr (n, w)))) (\<lambda>used.
     handle_of (Inr \<lparr>fu_used_bytes = used, fu_max_user_storage_bytes = cf_max_user_file_storage_bytes cf,
       fu_max_file_size_bytes = cf_max_file_size_bytes cf\<rparr>))"

text \<open>The row is written first, so that the quota is reserved; a failed put gives it back.\<close>

definition store_upload :: "'p object_store \<Rightarrow> config \<Rightarrow> uuid \<Rightarrow> upload_form \<Rightarrow> ('p, file_record) handler" where
  "store_upload st cf user form =
     handle_bind (handle_of (ok_or (uf_upload form) (Validation ''file is required''))) (\<lambda>u.
     handle_bind (handle_op (\<lambda>w. Inr (new_uuid w))) (\<lambda>file_id.
     let object_key = show_uuid user @ ''-'' @ show_uuid file_id
     in handle_bind (handle_op (create_file_metadata user (uf_parent form) object_key (up_filename u) (up_content_type u)
          (int (length (up_bytes u))) (cf_max_user_file_storage_bytes cf) (cf_max_total_file_storage_bytes cf))) (\<lambda>metadata.
     \<lambda>s. case put st object_key (up_bytes u) s of
           (Inr _, s) \<Rightarrow> (Inr metadata, s)
         | (Inl _, s) \<Rightarrow> (Inl storage_error, snd (handle_op (delete_file_metadata user (fr_id metadata)) s)))))"

text \<open>
  \<open>t\<close> is the clock of the limiter, \<open>limits\<close> the permits that are free (the permit of a large request is given back at the
  end), \<open>timed_out\<close> whether the body took more than sixty seconds.
\<close>

definition upload_file ::
  "'p object_store \<Rightarrow> (string \<Rightarrow> bool) \<Rightarrow> (string \<Rightarrow> uuid option) \<Rightarrow> config \<Rightarrow> int \<Rightarrow> request_limits \<Rightarrow> bool \<Rightarrow> uuid
   \<Rightarrow> (nat + multipart_field) list \<Rightarrow> login_rate_limiter \<Rightarrow> world \<times> 'p
   \<Rightarrow> file_record app_result \<times> (world \<times> 'p) \<times> login_rate_limiter" where
  "upload_file st mime_ok parse_uuid cf t limits timed_out user body l s =
     (case check_key t (''upload:'' @ show_uuid user) l of
        (Inl e, l) \<Rightarrow> (Inl e, s, l)
      | (Inr _, l) \<Rightarrow>
          (let (r, s) =
             handle_bind (handle_of (large_request limits)) (\<lambda>_.
             handle_bind (handle_of (if timed_out then Inl (InvalidRequest 408 ''file upload timed out'')
                else read_form mime_ok parse_uuid (cf_max_file_size_bytes cf) body empty_form)) (store_upload st cf user)) s
           in (r, s, l)))"

datatype download_answer =
    DownloadFrom string
  | Attachment (da_content_type: string) (da_disposition: string) (da_bytes: string)

definition disposition :: "string \<Rightarrow> string" where
  "disposition filename =
     ''attachment; filename='' @ [CHR 0x22] @ replace_any [CHR 0x22, CHR 0x0D, CHR 0x0A] filename @ [CHR 0x22]"

definition download_file :: "'p object_store \<Rightarrow> (string \<Rightarrow> bool) \<Rightarrow> uuid \<Rightarrow> uuid \<Rightarrow> ('p, download_answer) handler" where
  "download_file st header_ok user i =
     handle_bind (handle_op (\<lambda>w. bind_res (file_download user i w) (\<lambda>x. Inr (x, w)))) (\<lambda>(file, object_key).
     handle_bind (handle_storage (signed_download_url st object_key)) (\<lambda>url.
     case url of
       Some url \<Rightarrow> handle_of (if header_ok url then Inr (DownloadFrom url) else Inl response_error)
     | None \<Rightarrow>
         handle_bind (handle_storage (get_object st object_key)) (\<lambda>bytes.
         handle_of (if header_ok (fr_content_type file) \<and> header_ok (disposition (fr_filename file))
           then Inr (Attachment (fr_content_type file) (disposition (fr_filename file)) bytes) else Inl response_error))))"

definition delete_file :: "'p object_store \<Rightarrow> uuid \<Rightarrow> uuid \<Rightarrow> ('p, unit) handler" where
  "delete_file st user i =
     handle_bind (handle_op (\<lambda>w. bind_res (file_download user i w) (\<lambda>x. Inr (x, w)))) (\<lambda>(_, object_key).
     handle_bind (handle_storage (delete_object st object_key)) (\<lambda>_.
     handle_bind (handle_op (delete_file_metadata user i)) (\<lambda>_. handle_of (Inr ()))))"

section \<open>What an upload does\<close>

lemma bounded_field_ok:
  "bounded_field maximum acc cs = Inr b \<Longrightarrow> length acc \<le> maximum \<Longrightarrow> length b \<le> maximum"
  by (induction maximum acc cs rule: bounded_field.induct) (auto split: if_splits)

lemma set_take_chars: "set (take_chars n s) \<subseteq> set s"
  by (induction n s rule: take_chars.induct) (auto split: if_splits nat.splits)

definition unsafe_chars :: "char set" where
  "unsafe_chars = {CHR ''/'', CHR 0x5C, CHR 0x00, CHR 0x0D, CHR 0x0A}"

lemma set_replace_any: "set (replace_any cs s) \<subseteq> insert (CHR ''_'') (set s - set cs)"
  by (auto simp: replace_any_def)

lemma clean_filename_safe: "set (clean_filename v) \<inter> unsafe_chars = {}"
proof -
  define t where "t = rev (takeWhile (\<lambda>c. c \<noteq> CHR ''/'' \<and> c \<noteq> CHR 0x5C) (rev v))"
  have t: "CHR ''/'' \<notin> set t" "CHR 0x5C \<notin> set t" unfolding t_def by (auto dest: set_takeWhileD)
  have "CHR ''_'' \<notin> unsafe_chars" by (simp add: unsafe_chars_def)
  moreover have "(set t - set [CHR 0x00, CHR 0x0D, CHR 0x0A]) \<inter> unsafe_chars = {}"
    using t unfolding unsafe_chars_def list.set by blast
  ultimately show ?thesis
    using set_take_chars [of 255] set_replace_any [of "[CHR 0x00, CHR 0x0D, CHR 0x0A]" t]
    unfolding clean_filename_def t_def by blast
qed

definition upload_ok :: "nat \<Rightarrow> upload \<Rightarrow> bool" where
  "upload_ok max_file u \<longleftrightarrow> length (up_bytes u) \<le> max_file \<and> up_filename u \<noteq> []
     \<and> set (up_filename u) \<inter> unsafe_chars = {}"

lemma nonempty_Some: "nonempty x = Some s \<longleftrightarrow> x = Some s \<and> s \<noteq> []"
  by (auto simp: nonempty_def split: option.splits list.splits)

lemma read_upload_ok: "read_upload mime_ok m field = Inr u \<Longrightarrow> upload_ok m u"
  using bounded_field_ok [of m "[]"]
  by (auto simp: read_upload_def upload_ok_def Let_def nonempty_Some) (use clean_filename_safe in blast)

lemma read_form_ok:
  "read_form mime_ok parse_uuid m body form = Inr form' \<Longrightarrow> (\<And>u. uf_upload form = Some u \<Longrightarrow> upload_ok m u) \<Longrightarrow>
     uf_upload form' = Some u \<Longrightarrow> upload_ok m u"
proof (induction mime_ok parse_uuid m body form rule: read_form.induct)
  case (3 mime_ok parse_uuid m field fs form)
  from "3.prems"(1) obtain next_form where f: "read_field mime_ok parse_uuid m field form = Inr next_form"
    "read_form mime_ok parse_uuid m fs next_form = Inr form'" by auto
  have "upload_ok m v" if "uf_upload next_form = Some v" for v
    using f(1) that "3.prems"(2) by (auto simp: read_field_def Let_def dest: read_upload_ok split: if_splits)
  from "3.IH" [OF f(2) this "3.prems"(3)] show ?case .
qed auto

lemma within_quota: "0 \<le> n \<Longrightarrow> n \<le> saturating_sub limit used \<Longrightarrow> used + n \<le> limit"
  by (simp add: saturating_sub_def clamp_def split: if_splits)

lemma create_file_metadata_effect:
  assumes "create_file_metadata user parent key name kind n max_user max_total w = Inr (f, w')"
  shows "\<exists>row. f = record_of row \<and> w' = w\<lparr>drawn := Suc (drawn w), files := files w @ [row]\<rparr>
    \<and> f_id row = uuid_supply w (drawn w) \<and> f_user_id row = user \<and> f_object_key row = key \<and> f_filename row = name
    \<and> f_content_type row = kind \<and> f_byte_size row = n \<and> 0 \<le> n \<and> key \<notin> f_object_key ` set (files w)
    \<and> stored_bytes (\<lambda>f. f_user_id f = user) w + n \<le> max_user \<and> stored_bytes (\<lambda>_. True) w + n \<le> max_total"
  using assms within_quota
  by (auto simp: create_file_metadata_def Let_def new_uuid_def file_checks_def file_usage_bytes_def to_bigint_def list_ex_iff
      split: if_splits)

definition uploaded :: "config \<Rightarrow> uuid \<Rightarrow> upload \<Rightarrow> world \<Rightarrow> file_row \<Rightarrow> bool" where
  "uploaded cf user u w row \<longleftrightarrow> f_user_id row = user \<and> f_filename row = up_filename u \<and> f_content_type row = up_content_type u
     \<and> f_byte_size row = int (length (up_bytes u)) \<and> f_object_key row \<notin> f_object_key ` set (files w)
     \<and> f_id row \<notin> f_id ` set (files w)
     \<and> stored_bytes (\<lambda>f. f_user_id f = user) (w\<lparr>files := files w @ [row]\<rparr>) \<le> cf_max_user_file_storage_bytes cf
     \<and> stored_bytes (\<lambda>_. True) (w\<lparr>files := files w @ [row]\<rparr>) \<le> cf_max_total_file_storage_bytes cf"

lemma metadata_given_back:
  assumes "f_user_id row = user" and "f_id row \<notin> f_id ` set (files w)"
  shows "delete_file_metadata user (f_id row) (w\<lparr>files := files w @ [row]\<rparr>) = Inr (f_object_key row, w)"
proof -
  have "row_by (\<lambda>f. f_user_id f = user \<and> f_id f = f_id row) (files w @ [row]) = Some row"
    using assms by (intro row_by_unique) (auto, metis image_eqI)
  moreover have "delete_where (\<lambda>f. f_user_id f = user \<and> f_id f = f_id row) (files w @ [row]) = files w"
    using assms by (auto simp: delete_where_def filter_id_conv) (metis image_eqI)
  ultimately show ?thesis by (simp add: delete_file_metadata_def user_file_def)
qed

lemma store_upload_result:
  assumes run: "store_upload st cf user form (w, p) = (r, w', p')"
    and fresh: "uuid_supply w (Suc (drawn w)) \<notin> f_id ` set (files w)"
  shows "case r of
      Inl e \<Rightarrow> \<exists>d. w' = w\<lparr>drawn := d\<rparr>
    | Inr f \<Rightarrow> \<exists>u row. uf_upload form = Some u \<and> f = record_of row \<and> uploaded cf user u w row
        \<and> w' = w\<lparr>drawn := Suc (Suc (drawn w)), files := files w @ [row]\<rparr> \<and> os_put st (f_object_key row) (up_bytes u) p = (True, p')"
proof (cases "uf_upload form")
  case None
  with run have "r = Inl (Validation ''file is required'')" "w' = w\<lparr>drawn := drawn w\<rparr>"
    by (auto simp: store_upload_def handle_bind_def handle_of_def)
  then show ?thesis by (simp only: sum.case) blast
next
  case (Some u)
  define key where "key = show_uuid user @ ''-'' @ show_uuid (uuid_supply w (drawn w))"
  define v where "v = w\<lparr>drawn := Suc (drawn w)\<rparr>"
  define made where "made = create_file_metadata user (uf_parent form) key (up_filename u) (up_content_type u)
      (int (length (up_bytes u))) (cf_max_user_file_storage_bytes cf) (cf_max_total_file_storage_bytes cf) v"
  have run': "(case handle_op (\<lambda>_. made) (v, p) of (Inl e, s) \<Rightarrow> (Inl e, s)
      | (Inr f, s) \<Rightarrow> (case put st key (up_bytes u) s of (Inr _, s) \<Rightarrow> (Inr f, s)
         | (Inl _, s) \<Rightarrow> (Inl storage_error, snd (handle_op (delete_file_metadata user (fr_id f)) s)))) = (r, w', p')"
    using run by (simp add: store_upload_def Some handle_bind_def handle_of_def handle_op_def new_uuid_def key_def v_def made_def Let_def
        cong: sum.case_cong prod.case_cong)
  show ?thesis
  proof (cases made)
    case (Inl e)
    with run' show ?thesis by (auto simp: handle_op_def v_def)
  next
    case (Inr fw)
    obtain f v' where fw: "fw = (f, v')" by (cases fw)
    from create_file_metadata_effect [OF Inr [unfolded fw made_def]] obtain row where row: "f = record_of row"
      "v' = v\<lparr>drawn := Suc (drawn v), files := files v @ [row]\<rparr>" "f_id row = uuid_supply v (drawn v)" "f_object_key row = key"
      "f_user_id row = user" "f_filename row = up_filename u" "f_content_type row = up_content_type u"
      "f_byte_size row = int (length (up_bytes u))" "key \<notin> f_object_key ` set (files v)"
      "stored_bytes (\<lambda>f. f_user_id f = user) v + f_byte_size row \<le> cf_max_user_file_storage_bytes cf"
      "stored_bytes (\<lambda>_. True) v + f_byte_size row \<le> cf_max_total_file_storage_bytes cf" by auto
    have up: "uploaded cf user u w row"
      using row fresh by (simp add: uploaded_def stored_bytes_def v_def)
    obtain b q where b: "os_put st key (up_bytes u) p = (b, q)" by (cases "os_put st key (up_bytes u) p")
    have gone: "delete_file_metadata user (f_id row) v' = Inr (key, v'\<lparr>files := files w\<rparr>)"
      using metadata_given_back [of row user "v'\<lparr>files := files w\<rparr>"] row fresh by (simp add: v_def)
    show ?thesis
    proof (cases b)
      case True
      with run' Inr fw b have "r = Inr f" "w' = v'" "p' = q"
        by (simp_all add: handle_op_def put_def storage_call_def done_if_def)
      with row up b True show ?thesis
        by (auto simp: v_def Some intro!: exI [of _ row])
    next
      case False
      with run' Inr fw b row gone show ?thesis
        by (auto simp: handle_op_def put_def storage_call_def done_if_def record_of_def v_def)
    qed
  qed
qed

lemma upload_file_store:
  assumes "upload_file st mime_ok parse_uuid cf t limits timed_out user body l (w, p) = (r, (w', p'), l')"
  shows "(\<exists>e. r = Inl e \<and> w' = w \<and> p' = p)
    \<or> (\<exists>form. read_form mime_ok parse_uuid (cf_max_file_size_bytes cf) body empty_form = Inr form
         \<and> store_upload st cf user form (w, p) = (r, w', p'))"
  using assms
  by (auto simp: upload_file_def handle_bind_def handle_of_def Let_def split: prod.splits sum.splits if_splits)

lemma file_found:
  assumes "f_id row \<notin> f_id ` set fs"
  shows "row_by (\<lambda>f. f_user_id f = user \<and> f_id f = f_id row) (fs @ [row]) = (if f_user_id row = user then Some row else None)"
proof (cases "f_user_id row = user")
  case True
  with assms show ?thesis by simp (intro row_by_unique, auto, metis image_eqI)
next
  case False
  with assms show ?thesis by (auto simp: row_by_None) (metis image_eqI)
qed

lemma download_answer_eq:
  assumes "os_signer st = None" and "user_file user i w = Some row" and "os_get st (f_object_key row) p = (Some bytes, q)"
  shows "fst (download_file st header_ok user i (w, p)) =
    (if header_ok (f_content_type row) \<and> header_ok (disposition (f_filename row))
     then Inr (Attachment (f_content_type row) (disposition (f_filename row)) bytes) else Inl response_error)"
  using assms
  by (simp add: download_file_def handle_bind_def handle_op_def handle_storage_def signed_download_url_def job_return_def get_object_def
      storage_call_def handle_of_def file_download_def record_of_def Let_def)

lemma signed_answer_eq:
  assumes "os_signer st = Some sign" and "user_file user i w = Some row"
  shows "fst (download_file st header_ok user i (w, p)) =
    (case fst (sign (f_object_key row) p) of
       None \<Rightarrow> Inl storage_error
     | Some url \<Rightarrow> if header_ok url then Inr (DownloadFrom url) else Inl response_error)"
  using assms
  by (auto simp: download_file_def handle_bind_def handle_op_def handle_storage_def signed_download_url_def job_bind_def job_return_def
      storage_call_def handle_of_def file_download_def record_of_def ok_or_def Let_def case_prod_beta split: option.split)

text \<open>
  The answer to the download of a file whose object holds the bytes: from a directory the bytes themselves, under the stored
  type and name where these are valid in a header; from a bucket a link that the storage signs for the object of the row.
\<close>

definition downloaded :: "'p object_store \<Rightarrow> (string \<Rightarrow> bool) \<Rightarrow> file_row \<Rightarrow> string \<Rightarrow> 'p \<Rightarrow> download_answer app_result" where
  "downloaded st header_ok row bytes p =
     (case os_signer st of
        None \<Rightarrow>
          if header_ok (f_content_type row) \<and> header_ok (disposition (f_filename row))
          then Inr (Attachment (f_content_type row) (disposition (f_filename row)) bytes) else Inl response_error
      | Some sign \<Rightarrow>
          (case fst (sign (f_object_key row) p) of
             None \<Rightarrow> Inl storage_error
           | Some url \<Rightarrow> if header_ok url then Inr (DownloadFrom url) else Inl response_error))"

text \<open>
  C35. An upload is stored as it was sent or leaves nothing behind. When it is refused, at whatever point, storage failures
  included, the database is as before up to the identifiers drawn. When it is accepted there is one more row, of the
  user, with the length of the file, whose name has no path separator, NUL or line break, and within
  the limits for the file, the user and the server; its object key belongs to no other file, and the object under this key holds
  the bytes that were sent. The user's download answers with a link the bucket signs for that object or, from a directory, with
  these bytes under the stored type and name; it fails where a stored type or name is not valid in a header
  (a name may hold other control characters) or the storage does not sign. No other user can download the file.
\<close>

theorem uploads_are_downloaded_as_sent:
  assumes up: "upload_file st mime_ok parse_uuid cf t limits timed_out user body l (w, p) = (r, (w', p'), l')"
    and fresh: "uuid_supply w (Suc (drawn w)) \<notin> f_id ` set (files w)"
    and stored: "\<forall>k b q q'. os_put st k b q = (True, q') \<longrightarrow> fst (os_get st k q') = Some b"
  shows "case r of
      Inl e \<Rightarrow> \<exists>d. w' = w\<lparr>drawn := d\<rparr>
    | Inr f \<Rightarrow> \<exists>form u row. read_form mime_ok parse_uuid (cf_max_file_size_bytes cf) body empty_form = Inr form \<and> uf_upload form = Some u
        \<and> upload_ok (cf_max_file_size_bytes cf) u \<and> f = record_of row \<and> uploaded cf user u w row
        \<and> w' = w\<lparr>drawn := Suc (Suc (drawn w)), files := files w @ [row]\<rparr>
        \<and> fst (os_get st (f_object_key row) p') = Some (up_bytes u)
        \<and> fst (download_file st header_ok user (fr_id f) (w', p')) = downloaded st header_ok row (up_bytes u) p'
        \<and> (\<forall>other. other \<noteq> user \<longrightarrow> fst (download_file st header_ok other (fr_id f) (w', p')) = Inl (NotFound ''file''))"
proof -
  have same: "w = w\<lparr>drawn := drawn w\<rparr>" by simp
  from upload_file_store [OF up] show ?thesis
  proof (elim disjE exE conjE)
    fix e assume "r = Inl e" "w' = w"
    with same show ?thesis by (simp only: sum.case) blast
  next
    fix form
    assume form: "read_form mime_ok parse_uuid (cf_max_file_size_bytes cf) body empty_form = Inr form"
      and run: "store_upload st cf user form (w, p) = (r, w', p')"
    show ?thesis
    proof (cases r)
      case (Inl e)
      with store_upload_result [OF run fresh] show ?thesis by simp
    next
      case (Inr f)
      with store_upload_result [OF run fresh] obtain u row where u: "uf_upload form = Some u" and row: "f = record_of row"
        "uploaded cf user u w row" "w' = w\<lparr>drawn := Suc (Suc (drawn w)), files := files w @ [row]\<rparr>"
        and put: "os_put st (f_object_key row) (up_bytes u) p = (True, p')" by auto
      have ok: "upload_ok (cf_max_file_size_bytes cf) u"
        by (rule read_form_ok [OF form _ u]) (simp add: empty_form_def)
      obtain q where got: "os_get st (f_object_key row) p' = (Some (up_bytes u), q)"
        using stored put by (metis prod.collapse)
      have owner: "f_user_id row = user" and new: "f_id row \<notin> f_id ` set (files w)"
        using row(2) by (simp_all add: uploaded_def)
      have found: "user_file other (fr_id f) w' = (if other = user then Some row else None)" for other
        using file_found [OF new, of other] owner row by (auto simp: user_file_def record_of_def)
      have others: "\<forall>other. other \<noteq> user \<longrightarrow> fst (download_file st header_ok other (fr_id f) (w', p')) = Inl (NotFound ''file'')"
        using found by (simp add: download_file_def handle_bind_def handle_op_def file_download_def)
      have mine: "fst (download_file st header_ok user (fr_id f) (w', p')) = downloaded st header_ok row (up_bytes u) p'"
        using download_answer_eq [OF _ _ got, of user "fr_id f" w' header_ok] signed_answer_eq [of st _ user "fr_id f" w' row header_ok p'] found
        by (simp add: downloaded_def split: option.split)
      have "fst (os_get st (f_object_key row) p') = Some (up_bytes u)" by (simp add: got)
      with form u ok row mine others show ?thesis unfolding Inr sum.case by blast
    qed
  qed
qed

definition memory_store :: "(string \<times> string) list object_store" where
  "memory_store =
     \<lparr>os_put = (\<lambda>k b p. (True, (k, b) # p)), os_get = (\<lambda>k p. (map_of p k, p)), os_signer = None,
      os_delete = (\<lambda>k p. (True, filter (\<lambda>(k', _). k' \<noteq> k) p))\<rparr>"

definition example_config :: config where
  "example_config =
     \<lparr>cf_environment = Test, cf_bind_address = [], cf_database_url = [], cf_database_max_connections = 1, cf_cors_allowed_origin = [],
      cf_app_url = [], cf_allow_insecure_dev_auth = False, cf_invite_only = False, cf_trust_proxy_headers = False, cf_google_oauth = None,
      cf_object_storage = LocalStorage ''./data/files'', cf_max_file_size_bytes = 9, cf_max_user_file_storage_bytes = 20,
      cf_max_total_file_storage_bytes = 30, cf_max_user_accounts = None, cf_admin_user_ids = {}, cf_worker_trigger_token = None,
      cf_google_calendar_webhook_url = None\<rparr>"

definition example_body :: "(nat + multipart_field) list" where
  "example_body = [Inr \<lparr>mp_name = Some ''file'', mp_file_name = Some ''../a'', mp_content_type = None, mp_chunks = [Inr ''h'', Inr ''i'']\<rparr>]"

definition example_upload :: upload where
  "example_upload = \<lparr>up_filename = ''a'', up_content_type = ''application/octet-stream'', up_bytes = ''hi''\<rparr>"

lemma example_form:
  "read_form (\<lambda>_. True) (\<lambda>_. None) 9 example_body empty_form = Inr (empty_form\<lparr>uf_seen := [''file''], uf_upload := Some example_upload\<rparr>)"
  by (simp add: example_body_def read_field_def read_upload_def empty_form_def example_upload_def clean_filename_def replace_any_def
      nonempty_def Let_def)

lemma example_stored:
  "\<exists>f w' p'. store_upload memory_store example_config 1 (empty_form\<lparr>uf_seen := [''file''], uf_upload := Some example_upload\<rparr>) (empty_world, [])
     = (Inr f, w', p')"
  by (simp add: store_upload_def handle_bind_def handle_of_def handle_op_def new_uuid_def empty_world_def example_upload_def empty_form_def
      example_config_def create_file_metadata_def validate_one_parent_def parents_of_def given_def verify_file_parent_def file_usage_bytes_def
      stored_bytes_def to_bigint_def saturating_sub_def clamp_def file_checks_def chars_count_def put_def storage_call_def done_if_def
      memory_store_def Let_def)

lemma example_uploads:
  "\<exists>f w' p' l'. upload_file memory_store (\<lambda>_. True) (\<lambda>_. None) example_config 0 default_limits False 1 example_body default_limiter (empty_world, [])
     = (Inr f, (w', p'), l')"
proof -
  obtain l where l: "check_key 0 (''upload:'' @ show_uuid 1) default_limiter = (Inr (), l)"
    by (auto simp: check_key_def default_limiter_def entries_of_def Let_def)
  obtain lm where lm: "large_request default_limits = Inr lm"
    by (simp add: large_request_def try_acquire_def default_limits_def)
  have "cf_max_file_size_bytes example_config = 9" by (simp add: example_config_def)
  with l lm example_stored example_form show ?thesis
    by (auto simp: upload_file_def handle_bind_def handle_of_def)
qed

theorem uploads_are_downloaded_as_sent_witness:
  "\<exists>f w' p' l'. upload_file memory_store (\<lambda>_. True) (\<lambda>_. None) example_config 0 default_limits False 1 example_body default_limiter (empty_world, [])
       = (Inr f, (w', p'), l')
     \<and> fst (download_file memory_store (\<lambda>_. True) 1 (fr_id f) (w', p')) = Inr (Attachment ''application/octet-stream'' (disposition ''a'') ''hi'')
     \<and> fst (download_file memory_store (\<lambda>_. True) 2 (fr_id f) (w', p')) = Inl (NotFound ''file'')"
proof -
  obtain f w' p' l' where up: "upload_file memory_store (\<lambda>_. True) (\<lambda>_. None) example_config 0 default_limits False 1 example_body default_limiter (empty_world, [])
       = (Inr f, (w', p'), l')" using example_uploads by blast
  have get: "\<forall>k b q q'. os_put memory_store k b q = (True, q') \<longrightarrow> fst (os_get memory_store k q') = Some b"
    by (auto simp: memory_store_def)
  have fresh: "uuid_supply empty_world (Suc (drawn empty_world)) \<notin> f_id ` set (files empty_world)" by (simp add: empty_world_def)
  have limit: "cf_max_file_size_bytes example_config = 9" by (simp add: example_config_def)
  from uploads_are_downloaded_as_sent [OF up fresh get, where header_ok = "\<lambda>_. True", unfolded limit example_form sum.case]
  have "fst (download_file memory_store (\<lambda>_. True) 1 (fr_id f) (w', p')) = Inr (Attachment ''application/octet-stream'' (disposition ''a'') ''hi'')"
    and "\<And>other. other \<noteq> 1 \<Longrightarrow> fst (download_file memory_store (\<lambda>_. True) other (fr_id f) (w', p')) = Inl (NotFound ''file'')"
    by (auto simp: example_upload_def downloaded_def memory_store_def uploaded_def)
  with up show ?thesis by (intro exI [of _ f] exI [of _ w'] exI [of _ p'] exI [of _ l']) simp
qed

end
