(* ===== verification/AccountData.thy ===== *)
theory AccountData
  imports FileRoutes TaskStore
begin

text \<open>
  \<open>export_store.rs\<close>, \<open>export_routes.rs\<close> and the template export of \<open>task_recurrence.rs\<close>: what leaves the server when a
  user exports the account or deletes it. chrono's three text forms of an instant and serde's JSON are arguments.
  Deleting the \<open>users\<close> row takes every row of the user with it through the foreign keys; the triggers of those
  deletions find neither the user nor its connection any more and do nothing.
\<close>

section \<open>Texts\<close>

definition replace_char :: "char \<Rightarrow> string \<Rightarrow> string \<Rightarrow> string" where
  "replace_char c r s = concat (map (\<lambda>x. if x = c then r else [x]) s)"

record time_format =
  tf_display :: "timestamp \<Rightarrow> string"
  tf_rfc3339 :: "timestamp \<Rightarrow> string"
  tf_ics :: "timestamp \<Rightarrow> string"

definition optional_display :: "('a \<Rightarrow> string) \<Rightarrow> 'a option \<Rightarrow> string" where
  "optional_display display value = (case value of Some v \<Rightarrow> display v | None \<Rightarrow> [])"

text \<open>\<open>char::is_control\<close> beside white space and the byte order mark; the characters a spreadsheet takes for a formula.\<close>

definition hidden_prefixes :: "string list" where
  "hidden_prefixes =
     whitespace_chars @ map (\<lambda>n. [char_of (n :: nat)]) ([0..<32] @ [127])
     @ map (\<lambda>n. [char_of (0xC2 :: nat), char_of (n :: nat)]) [0x80..<0xA0]
     @ [map char_of [0xEF :: nat, 0xBB, 0xBF]]"

definition formula_prefixes :: "string list" where
  "formula_prefixes =
     [''='', ''+'', ''-'', ''@'', map char_of [0xEF :: nat, 0xBC, 0x9D], map char_of [0xEF :: nat, 0xBC, 0x8B],
      map char_of [0xEF :: nat, 0xBC, 0x8D], map char_of [0xEF :: nat, 0xBC, 0xA0]]"

definition unsafe_cell :: "string \<Rightarrow> bool" where
  "unsafe_cell value \<longleftrightarrow>
     list_ex (starts_with value) [[CHR 0x09], [CHR 0x0D], [CHR 0x0A]]
     \<or> list_ex (starts_with (strip hidden_prefixes value)) formula_prefixes"

definition csv_field :: "string \<Rightarrow> string" where
  "csv_field value =
     (let unsafe = unsafe_cell value;
          value = (if unsafe then CHR 0x27 # value else value)
      in if unsafe \<or> list_ex (\<lambda>c. c \<in> set [CHR '','', CHR 0x22, CHR 0x0D, CHR 0x0A]) value
         then [CHR 0x22] @ replace_char (CHR 0x22) [CHR 0x22, CHR 0x22] value @ [CHR 0x22]
         else value)"

definition ics_escape :: "string \<Rightarrow> string" where
  "ics_escape value =
     replace_char (CHR '';'') [CHR 0x5C, CHR '';''] (replace_char (CHR '','') [CHR 0x5C, CHR '','']
       (replace_char (CHR 0x0A) [CHR 0x5C, CHR ''n''] (replace_char (CHR 0x5C) [CHR 0x5C, CHR 0x5C] value)))"

fun join :: "string \<Rightarrow> string list \<Rightarrow> string" where
  "join sep [] = []"
| "join sep [x] = x"
| "join sep (x # xs) = x @ sep @ join sep xs"

definition crlf :: string where
  "crlf = [CHR 0x0D, CHR 0x0A]"

fun status_debug :: "task_status \<Rightarrow> string" where
  "status_debug Todo = ''todo''"
| "status_debug InProgress = ''inprogress''"
| "status_debug Blocked = ''blocked''"
| "status_debug Completed = ''completed''"

fun priority_debug :: "task_priority \<Rightarrow> string" where
  "priority_debug Low = ''low''"
| "priority_debug Medium = ''medium''"
| "priority_debug High = ''high''"
| "priority_debug Urgent = ''urgent''"

fun recurrence_debug :: "task_recurrence \<Rightarrow> string" where
  "recurrence_debug NoRecurrence = ''none''"
| "recurrence_debug Daily = ''daily''"
| "recurrence_debug Weekly = ''weekly''"
| "recurrence_debug Monthly = ''monthly''"
| "recurrence_debug Yearly = ''yearly''"

fun frequency_debug :: "event_recurrence \<Rightarrow> string" where
  "frequency_debug EvNone = ''NONE''"
| "frequency_debug EvDaily = ''DAILY''"
| "frequency_debug EvWeekly = ''WEEKLY''"
| "frequency_debug EvMonthly = ''MONTHLY''"
| "frequency_debug EvYearly = ''YEARLY''"

section \<open>Exports\<close>

definition export_tasks :: "uuid \<Rightarrow> world \<Rightarrow> task list" where
  "export_tasks user w =
     map task.truncate (sort_key (\<lambda>t. (t_created_at t, t_id t)) (filter (\<lambda>t. t_user_id t = user) (tasks w)))"

definition csv_header :: "string list" where
  "csv_header =
     [''id'', ''project_id'', ''parent_task_id'', ''title'', ''description'', ''due_at'', ''scheduled_start'', ''scheduled_end'',
      ''status'', ''priority'', ''recurrence'', ''labels'', ''completed_at'', ''created_at'', ''updated_at'']"

definition csv_cells :: "time_format \<Rightarrow> task \<Rightarrow> string list" where
  "csv_cells tf t =
     [show_uuid (t_id t), optional_display show_uuid (t_project_id t), optional_display show_uuid (t_parent_task_id t),
      t_title t, t_description t, optional_display (tf_display tf) (t_due_at t), optional_display (tf_display tf) (t_scheduled_start t),
      optional_display (tf_display tf) (t_scheduled_end t), status_debug (t_status t), priority_debug (t_priority t),
      recurrence_debug (t_recurrence t), join '';'' (t_labels t), optional_display (tf_display tf) (t_completed_at t),
      tf_rfc3339 tf (t_created_at t), tf_rfc3339 tf (t_updated_at t)]"

definition export_tasks_csv :: "time_format \<Rightarrow> uuid \<Rightarrow> world \<Rightarrow> string" where
  "export_tasks_csv tf user w =
     join '','' csv_header @ crlf
     @ concat (map (\<lambda>t. join '','' (map csv_field (csv_cells tf t)) @ crlf) (export_tasks user w))"

definition export_notes_markdown :: "uuid \<Rightarrow> world \<Rightarrow> string" where
  "export_notes_markdown user w =
     (let nl = [CHR 0x0A] in
      ''# rakkio notes'' @ nl @ nl
      @ concat (map (\<lambda>n. ''## '' @ n_title n @ nl @ nl @ n_markdown n @ nl @ nl @ ''---'' @ nl @ nl)
          (sort_key (\<lambda>n. (n_created_at n, n_id n)) (filter (\<lambda>n. n_user_id n = user) (note_rows w)))))"

definition export_events :: "uuid \<Rightarrow> world \<Rightarrow> calendar_event list" where
  "export_events user w =
     map calendar_event.truncate (sort_key (\<lambda>e. (e_starts_at e, e_id e)) (filter (\<lambda>e. e_user_id e = user) (events w)))"

definition ics_event :: "time_format \<Rightarrow> calendar_event \<Rightarrow> string" where
  "ics_event tf e =
     ''BEGIN:VEVENT'' @ crlf @ ''UID:'' @ show_uuid (e_id e) @ ''@prosepect'' @ crlf
     @ ''DTSTAMP:'' @ tf_ics tf (e_updated_at e) @ crlf @ ''DTSTART:'' @ tf_ics tf (e_starts_at e) @ crlf
     @ ''DTEND:'' @ tf_ics tf (e_ends_at e) @ crlf @ ''SUMMARY:'' @ ics_escape (e_title e) @ crlf
     @ (if e_description e \<noteq> [] then ''DESCRIPTION:'' @ ics_escape (e_description e) @ crlf else [])
     @ (if e_location e \<noteq> [] then ''LOCATION:'' @ ics_escape (e_location e) @ crlf else [])
     @ (if frequency_debug (e_recurrence e) \<noteq> ''NONE''
        then ''RRULE:FREQ='' @ frequency_debug (e_recurrence e)
          @ (case e_recurrence_until e of Some until \<Rightarrow> '';UNTIL='' @ tf_ics tf until | None \<Rightarrow> []) @ crlf
        else [])
     @ ''END:VEVENT'' @ crlf"

definition export_calendars_ics :: "time_format \<Rightarrow> uuid \<Rightarrow> world \<Rightarrow> string" where
  "export_calendars_ics tf user w =
     ''BEGIN:VCALENDAR'' @ crlf @ ''VERSION:2.0'' @ crlf @ ''PRODID:-//rakkio//EN'' @ crlf @ ''CALSCALE:GREGORIAN'' @ crlf
     @ concat (map (ics_event tf) (export_events user w)) @ ''END:VCALENDAR'' @ crlf"

record recurrence_template_export =
  rt_task_id :: uuid
  rt_project_id :: "uuid option"
  rt_defaults :: recurrence_defaults

definition recurrence_templates :: "uuid \<Rightarrow> world \<Rightarrow> recurrence_template_export list" where
  "recurrence_templates user w =
     concat (map (\<lambda>t. case t_recurrence_defaults t of
                         Some d \<Rightarrow> [\<lparr>rt_task_id = t_id t, rt_project_id = t_recurrence_project_id t, rt_defaults = d\<rparr>]
                       | None \<Rightarrow> [])
       (sort_key t_id (filter (\<lambda>t. t_user_id t = user) (tasks w))))"

record account_export =
  ex_recurrence_templates :: "recurrence_template_export list"
  ex_saved_task_views :: "saved_task_view list"
  ex_user :: user_profile
  ex_projects :: "project list"
  ex_tasks :: "task list"
  ex_notes :: "note_record list"
  ex_calendars :: "calendar list"
  ex_events :: "calendar_event list"
  ex_files :: "file_record list"

definition export_bundle :: "platform \<Rightarrow> uuid \<Rightarrow> world \<Rightarrow> account_export app_result" where
  "export_bundle pf user w =
     bind_res (store_user_profile user w) (\<lambda>profile.
     Inr \<lparr>ex_recurrence_templates = recurrence_templates user w, ex_saved_task_views = saved_task_views pf user w, ex_user = profile,
       ex_projects = map (project_of w) (sort_key (\<lambda>p. (pr_created_at p, pr_id p)) (filter (\<lambda>p. pr_user_id p = user) (projects w))),
       ex_tasks = export_tasks user w, ex_notes = list_notes user w,
       ex_calendars = map calendar.truncate (sort_key (\<lambda>c. (c_created_at c, c_id c)) (filter (\<lambda>c. c_user_id c = user) (calendars w))),
       ex_events = export_events user w,
       ex_files = map record_of (sort_key (\<lambda>f. (f_created_at f, f_id f)) (filter (\<lambda>f. f_user_id f = user) (files w)))\<rparr>)"

definition export_json :: "(account_export \<Rightarrow> string option) \<Rightarrow> platform \<Rightarrow> uuid \<Rightarrow> world \<Rightarrow> string app_result" where
  "export_json to_json pf user w =
     bind_res (export_bundle pf user w) (\<lambda>bundle.
     ok_or (to_json bundle) (InvalidRequest 500 ''could not create account export''))"

section \<open>Account deletion\<close>

definition delete_user :: "uuid \<Rightarrow> world \<Rightarrow> world" where
  "delete_user user w =
     (let projects' = map pr_id (filter (\<lambda>p. pr_user_id p = user) (projects w));
          tasks' = map t_id (filter (\<lambda>t. t_user_id t = user) (tasks w));
          notes' = map n_id (filter (\<lambda>n. n_user_id n = user) (note_rows w));
          events' = map e_id (filter (\<lambda>e. e_user_id e = user) (events w));
          calendars' = map c_id (filter (\<lambda>c. c_user_id c = user) (calendars w));
          gone_mapping = (\<lambda>m. m_user_id m = user \<or> m_calendar_id m \<in> set calendars');
          mappings' = map m_id (filter gone_mapping (mappings w))
      in w\<lparr>users := delete_where (\<lambda>u. u_id u = user) (users w),
           settings := delete_where (\<lambda>s. us_user_id s = user) (settings w),
           sessions := delete_where (\<lambda>s. se_user_id s = user) (sessions w),
           login_attempts := delete_where (\<lambda>a. la_user_id a = Some user) (login_attempts w),
           invites := map (\<lambda>i. i\<lparr>iv_used_by := unlink (\<lambda>u. u = user) (iv_used_by i)\<rparr>) (invites w),
           legal_acceptances := delete_where (\<lambda>l. lg_user_id l = user) (legal_acceptances w),
           google_accounts := delete_where (\<lambda>a. ga_user_id a = user) (google_accounts w),
           projects := delete_where (\<lambda>p. pr_user_id p = user) (projects w),
           tasks := map (\<lambda>t. t\<lparr>t_recurrence_source_id := unlink (\<lambda>i. i \<in> set tasks') (t_recurrence_source_id t)\<rparr>)
             (delete_where (\<lambda>t. t_user_id t = user) (tasks w)),
           labels := delete_where (\<lambda>l. fst l = user) (labels w),
           focus_tasks := delete_where (\<lambda>f. fo_user_id f = user) (focus_tasks w),
           reviews := delete_where (\<lambda>r. rv_user_id r = user) (reviews w),
           calendars := delete_where (\<lambda>c. c_user_id c = user) (calendars w),
           events := delete_where (\<lambda>e. e_user_id e = user) (events w),
           mappings := map (\<lambda>m. m\<lparr>m_canonical_event_id := unlink (\<lambda>i. i \<in> set events') (m_canonical_event_id m)\<rparr>)
             (delete_where gone_mapping (mappings w)),
           sync_jobs := delete_where (\<lambda>j. j_user_id j = user \<or> refers (j_calendar_id j) (\<lambda>i. i \<in> set calendars')) (sync_jobs w),
           conflicts := map (\<lambda>k. k\<lparr>k_canonical_event_id := unlink (\<lambda>i. i \<in> set events') (k_canonical_event_id k)\<rparr>)
             (delete_where (\<lambda>k. k_user_id k = user \<or> k_mapping_id k \<in> set mappings') (conflicts w)),
           watch_channels := delete_where (\<lambda>c. wc_user_id c = user \<or> wc_calendar_id c \<in> set calendars') (watch_channels w),
           note_rows := delete_where (\<lambda>n. n_user_id n = user) (note_rows w),
           files := map (\<lambda>f. f\<lparr>f_project_id := unlink (\<lambda>i. i \<in> set projects') (f_project_id f),
               f_task_id := unlink (\<lambda>i. i \<in> set tasks') (f_task_id f), f_note_id := unlink (\<lambda>i. i \<in> set notes') (f_note_id f),
               f_event_id := unlink (\<lambda>i. i \<in> set events') (f_event_id f)\<rparr>) (delete_where (\<lambda>f. f_user_id f = user) (files w)),
           saved_views := delete_where (\<lambda>v. sv_user_id v = user) (saved_views w),
           move_undos := delete_where (\<lambda>m. mr_user_id m = user) (move_undos w),
           guard_revisions := delete_where (\<lambda>g. gr_user_id g = user) (guard_revisions w),
           gt_connections := delete_where (\<lambda>c. gc_user_id c = user) (gt_connections w),
           gt_links := delete_where (\<lambda>l. gl_user_id l = user) (gt_links w),
           delete_undos := delete_where (\<lambda>d. du_user_id d = user) (delete_undos w),
           activity := delete_where (\<lambda>a. ae_user_id a = user) (activity w)\<rparr>)"

definition store_delete_account :: "uuid \<Rightarrow> string \<Rightarrow> world \<Rightarrow> unit store_result" where
  "store_delete_account user confirmation w =
     bind_res (require (confirmation = ''DELETE'') (Validation ''account deletion confirmation must equal DELETE'')) (\<lambda>_.
     bind_res (require (user_exists user w) Unauthorized) (\<lambda>_. Inr ((), delete_user user w)))"

fun delete_objects :: "'p object_store \<Rightarrow> string list \<Rightarrow> ('p, unit) handler" where
  "delete_objects st [] = handle_of (Inr ())"
| "delete_objects st (k # ks) =
     handle_bind (\<lambda>s. case delete_object st k s of
                         (Inr u, s) \<Rightarrow> (Inr u, s)
                       | (Inl _, s) \<Rightarrow> (Inl (InvalidRequest 500 ''could not delete account files''), s)) (\<lambda>_.
     delete_objects st ks)"

definition revoke_access :: "'p oauth option \<Rightarrow> uuid \<Rightarrow> ('p, unit) handler" where
  "revoke_access oauth user s =
     (case store_google_credentials user (fst s) of
        Inr credentials \<Rightarrow>
          handle_bind (handle_of (ok_or oauth (NotConfigured ''Google OAuth''))) (\<lambda>google.
          handle_job (oauth_revoke google credentials)) s
      | Inl (NotConfigured _) \<Rightarrow> (Inr (), s)
      | Inl e \<Rightarrow> (Inl e, s))"

definition delete_account ::
  "'p object_store \<Rightarrow> 'p oauth option \<Rightarrow> (string \<Rightarrow> bool) \<Rightarrow> bool \<Rightarrow> uuid \<Rightarrow> string \<Rightarrow> ('p, string) handler" where
  "delete_account st oauth header_ok secure user confirmation =
     handle_bind (handle_of (require (confirmation = ''DELETE'') (Validation ''account deletion confirmation must equal DELETE''))) (\<lambda>_.
     handle_bind (revoke_access oauth user) (\<lambda>_.
     handle_bind (handle_query (account_object_keys user)) (\<lambda>keys.
     handle_bind (delete_objects st keys) (\<lambda>_.
     handle_bind (handle_op (store_delete_account user ''DELETE'')) (\<lambda>_.
     let cookie = expired_session_cookie secure
     in handle_of (if header_ok cookie then Inr cookie else Inl (InvalidRequest 500 ''could not create download response'')))))))"

section \<open>Cells a spreadsheet evaluates\<close>

text \<open>The UTF-8 encoding of a code point below 65536.\<close>

definition utf8 :: "nat \<Rightarrow> string" where
  "utf8 n = map char_of
     (if n < 0x80 then [n]
      else if n < 0x800 then [0xC0 + n div 64, 0x80 + n mod 64]
      else [0xE0 + n div 4096, 0x80 + n div 64 mod 64, 0x80 + n mod 64])"

text \<open>White space, control characters and the byte order mark.\<close>

definition invisible :: "nat set" where
  "invisible = {..32} \<union> {127..160} \<union> {0x1680} \<union> {0x2000..0x200A} \<union> {0x2028, 0x2029, 0x202F, 0x205F, 0x3000, 0xFEFF}"

text \<open>The signs = + - @ and their full-width forms.\<close>

definition formula_signs :: "nat list" where
  "formula_signs = [0x3D, 0x2B, 0x2D, 0x40, 0xFF1D, 0xFF0B, 0xFF0D, 0xFF20]"

text \<open>
  The cells a spreadsheet may evaluate: they begin with a tabulator or a line break, or with one of the signs after
  any number of invisible characters.
\<close>

definition evaluated :: "string \<Rightarrow> bool" where
  "evaluated v \<longleftrightarrow>
     (v \<noteq> [] \<and> hd v \<in> {CHR 0x09, CHR 0x0A, CHR 0x0D})
     \<or> (\<exists>before sign after. set before \<subseteq> invisible \<and> sign \<in> set formula_signs
          \<and> v = concat (map utf8 before) @ utf8 sign @ after)"

definition hidden_points :: "nat list" where
  "hidden_points =
     [9, 10, 11, 12, 13, 32, 0x85, 0xA0, 0x1680] @ map (\<lambda>n. 0x2000 + n) [0, 1, 2, 3, 4, 5, 6, 7, 8, 9, 10]
     @ [0x2028, 0x2029, 0x202F, 0x205F, 0x3000] @ [0..<32] @ [127] @ [0x80..<0xA0] @ [0xFEFF]"

lemma hidden_points_set: "set hidden_points = invisible"
proof -
  have "x \<in> {0x2000..0x200A} \<longleftrightarrow> x \<in> set (map (\<lambda>n. 0x2000 + n) [0, 1, 2, 3, 4, 5, 6, 7, 8, 9, 10])" for x :: nat
    by simp presburger
  then have a: "{0x2000..0x200A :: nat} = set (map (\<lambda>n. 0x2000 + n) [0, 1, 2, 3, 4, 5, 6, 7, 8, 9, 10])" by blast
  have "x \<in> {..32} \<union> {127..160} \<longleftrightarrow> x \<in> {9, 10, 11, 12, 13, 32, 0x85, 0xA0} \<union> {0..<32} \<union> {127} \<union> {0x80..<0xA0}" for x :: nat
    by simp presburger
  then have b: "{..32} \<union> {127..160} = {9, 10, 11, 12, 13, 32, 0x85, 0xA0} \<union> {0..<32} \<union> {127} \<union> {0x80..<0xA0 :: nat}" by blast
  show ?thesis unfolding invisible_def hidden_points_def a b by (simp only: set_append list.set set_upt) blast
qed

lemma utf8_small: "n < 0x80 \<Longrightarrow> utf8 n = [char_of n]"
  by (simp add: utf8_def)

lemma utf8_c2: "0x80 \<le> n \<Longrightarrow> n < 0xC0 \<Longrightarrow> utf8 n = [char_of (0xC2 :: nat), char_of n]"
proof -
  assume "0x80 \<le> n" "n < 0xC0"
  then have d: "n div 64 = 2" by auto
  then have "0x80 + n mod 64 = n" using div_mult_mod_eq [of n 64] by simp
  then show ?thesis using d \<open>0x80 \<le> n\<close> \<open>n < 0xC0\<close> by (simp add: utf8_def)
qed

lemma hidden_utf8: "set hidden_prefixes = utf8 ` invisible"
proof -
  have "map utf8 hidden_points = hidden_prefixes"
    unfolding hidden_points_def hidden_prefixes_def whitespace_chars_def
    by (simp add: utf8_small utf8_c2) (simp add: utf8_def)
  then show ?thesis using hidden_points_set by (metis set_map)
qed

lemma formula_utf8: "set formula_prefixes = utf8 ` set formula_signs"
proof -
  have "''=+-@'' = map char_of [0x3D, 0x2B, 0x2D, 0x40 :: nat]" by code_simp
  then have "map utf8 formula_signs = formula_prefixes"
    by (simp add: formula_signs_def formula_prefixes_def utf8_def)
  then show ?thesis by (metis set_map)
qed

definition width :: "char \<Rightarrow> nat" where
  "width c = (let b = of_char c :: nat in if b < 0x80 then 1 else if b < 0xE0 then 2 else 3)"

lemma prefix_widths: "\<forall>p \<in> set (hidden_prefixes @ formula_prefixes). p \<noteq> [] \<and> length p = width (hd p)"
  by (simp add: hidden_prefixes_def whitespace_chars_def formula_prefixes_def width_def)

lemma prefixes_apart: "\<forall>p \<in> set formula_prefixes. p \<notin> set hidden_prefixes"
  by code_simp

lemma leading_is:
  assumes "p \<in> set (hidden_prefixes @ formula_prefixes)" and "leading hidden_prefixes (p @ r) = Some c"
  shows "c = p"
proof -
  from leading_Some [OF assms(2)] have c: "c \<in> set hidden_prefixes" "c \<noteq> []" "p @ r = c @ drop (length c) (p @ r)" by auto
  have "p \<noteq> []" "length p = width (hd p)" "length c = width (hd c)" using prefix_widths assms(1) c(1) by auto
  moreover have "hd p = hd c" using arg_cong [OF c(3), of hd] c(2) \<open>p \<noteq> []\<close> by simp
  ultimately show ?thesis using c(3) by (simp add: append_eq_append_conv)
qed

lemma strip_hidden:
  assumes "p \<in> set hidden_prefixes"
  shows "strip hidden_prefixes (p @ r) = strip hidden_prefixes r"
proof -
  have "p \<noteq> []" using prefix_widths assms by auto
  then have "leading hidden_prefixes (p @ r) \<noteq> None" using assms unfolding leading_def find_None_iff by auto
  then obtain c where "leading hidden_prefixes (p @ r) = Some c" by blast
  with leading_is [of p r c] assms have "leading hidden_prefixes (p @ r) = Some p" by simp
  then show ?thesis by (simp add: strip.simps [of _ "p @ r"])
qed

lemma strip_hiddens: "set ps \<subseteq> set hidden_prefixes \<Longrightarrow> strip hidden_prefixes (concat ps @ r) = strip hidden_prefixes r"
  by (induction ps) (simp_all add: strip_hidden)

lemma strip_formula:
  assumes "p \<in> set formula_prefixes"
  shows "strip hidden_prefixes (p @ r) = p @ r"
proof (rule strip_id)
  show "leading hidden_prefixes (p @ r) = None"
  proof (rule ccontr)
    assume "leading hidden_prefixes (p @ r) \<noteq> None"
    then obtain c where c: "leading hidden_prefixes (p @ r) = Some c" by blast
    with leading_is [OF _ c] leading_Some [OF c] prefixes_apart assms show False by auto
  qed
qed

lemma stripped: "\<exists>ps. set ps \<subseteq> set hidden_prefixes \<and> s = concat ps @ strip hidden_prefixes s"
proof (induction "hidden_prefixes" s rule: strip.induct)
  case (1 s)
  show ?case
  proof (cases "leading hidden_prefixes s")
    case None
    then show ?thesis by (intro exI [of _ "[]"]) (simp add: strip_id)
  next
    case (Some c)
    from 1 [OF Some] obtain ps where ps: "set ps \<subseteq> set hidden_prefixes" "drop (length c) s = concat ps @ strip hidden_prefixes (drop (length c) s)" by blast
    have "strip hidden_prefixes s = strip hidden_prefixes (drop (length c) s)" using Some by (simp add: strip.simps [of _ s])
    moreover from leading_Some [OF Some] have "c \<in> set hidden_prefixes" "s = c @ drop (length c) s" by auto
    ultimately have "set (c # ps) \<subseteq> set hidden_prefixes \<and> s = concat (c # ps) @ strip hidden_prefixes s" using ps by simp
    then show ?thesis by blast
  qed
qed

lemma starts_with_iff: "starts_with s p \<longleftrightarrow> (\<exists>r. s = p @ r)"
  by (auto simp: starts_with_def) (metis append_take_drop_id)

text \<open>The guard of the export recognises exactly these cells.\<close>

lemma unsafe_cell_evaluated: "unsafe_cell v = evaluated v"
proof -
  have first: "list_ex (starts_with v) [[CHR 0x09], [CHR 0x0D], [CHR 0x0A]] \<longleftrightarrow> v \<noteq> [] \<and> hd v \<in> {CHR 0x09, CHR 0x0A, CHR 0x0D}"
    by (cases v) (auto simp: starts_with_def)
  have "list_ex (starts_with (strip hidden_prefixes v)) formula_prefixes
    \<longleftrightarrow> (\<exists>ps p r. set ps \<subseteq> set hidden_prefixes \<and> p \<in> set formula_prefixes \<and> v = concat ps @ p @ r)"
  proof
    assume "list_ex (starts_with (strip hidden_prefixes v)) formula_prefixes"
    then obtain p r where "p \<in> set formula_prefixes" "strip hidden_prefixes v = p @ r" by (auto simp: list_ex_iff starts_with_iff)
    with stripped [of v] show "\<exists>ps p r. set ps \<subseteq> set hidden_prefixes \<and> p \<in> set formula_prefixes \<and> v = concat ps @ p @ r" by metis
  next
    assume "\<exists>ps p r. set ps \<subseteq> set hidden_prefixes \<and> p \<in> set formula_prefixes \<and> v = concat ps @ p @ r"
    then show "list_ex (starts_with (strip hidden_prefixes v)) formula_prefixes"
      by (auto simp: list_ex_iff starts_with_iff strip_hiddens strip_formula simp del: append_eq_append_conv2) blast
  qed
  also have "\<dots> \<longleftrightarrow> (\<exists>before sign after. set before \<subseteq> invisible \<and> sign \<in> set formula_signs
      \<and> v = concat (map utf8 before) @ utf8 sign @ after)"
  proof -
    have "(set ps \<subseteq> set hidden_prefixes) \<longleftrightarrow> (\<exists>before. set before \<subseteq> invisible \<and> ps = map utf8 before)" for ps
      using lists_image [of utf8 "invisible"] unfolding hidden_utf8 lists_eq_set by blast
    then show ?thesis unfolding formula_utf8 by (simp only: image_iff) blast
  qed
  finally show ?thesis unfolding unsafe_cell_def evaluated_def first by simp
qed
section \<open>The task export is read back\<close>

text \<open>
  A reader of comma-separated values with quoted cells. Outside of quotes a comma ends a cell, and a line break, be it
  CR LF, a bare LF or a bare CR, ends a row.
\<close>

datatype csv_mode = Fresh | Plain | Quoted | Closed

fun csv_read :: "csv_mode \<Rightarrow> string \<Rightarrow> string list \<Rightarrow> string \<Rightarrow> string list list" where
  "csv_read m cell row [] = (if m = Fresh \<and> row = [] then [] else [rev (rev cell # row)])"
| "csv_read m cell row (c # s) =
     (if m = Quoted then csv_read (if c = CHR 0x22 then Closed else Quoted) (if c = CHR 0x22 then cell else c # cell) row s
      else if m = Closed \<and> c = CHR 0x22 then csv_read Quoted (CHR 0x22 # cell) row s
      else if m = Fresh \<and> c = CHR 0x22 then csv_read Quoted cell row s
      else if c = CHR '','' then csv_read Fresh [] (rev cell # row) s
      else if c = CHR 0x0D \<and> s \<noteq> [] \<and> hd s = CHR 0x0A then rev (rev cell # row) # csv_read Fresh [] [] (tl s)
      else if c = CHR 0x0D \<or> c = CHR 0x0A then rev (rev cell # row) # csv_read Fresh [] [] s
      else csv_read (if m = Closed then Closed else Plain) (c # cell) row s)"

definition neutral :: "string \<Rightarrow> string" where
  "neutral v = (if evaluated v then CHR 0x27 # v else v)"

definition delimiters :: "char set" where
  "delimiters = {CHR '','', CHR 0x22, CHR 0x0D, CHR 0x0A}"

lemma csv_plain:
  assumes "set v \<inter> delimiters = {}" and "m = Fresh \<or> m = Plain"
  shows "csv_read m cell row (v @ t) = csv_read (if v = [] then m else Plain) (rev v @ cell) row t"
  using assms
proof (induction v arbitrary: m cell)
  case (Cons c v)
  then have "c \<noteq> CHR '',''" "c \<noteq> CHR 0x22" "c \<noteq> CHR 0x0D" "c \<noteq> CHR 0x0A" by (auto simp: delimiters_def)
  with Cons show ?case by auto
qed simp

lemma csv_quoted:
  "csv_read Quoted cell row (replace_char (CHR 0x22) [CHR 0x22, CHR 0x22] v @ CHR 0x22 # t) = csv_read Closed (rev v @ cell) row t"
  by (induction v arbitrary: cell) (simp_all add: replace_char_def)

lemma csv_field_eq:
  "csv_field v =
     (if unsafe_cell v \<or> set (neutral v) \<inter> delimiters \<noteq> {}
      then CHR 0x22 # replace_char (CHR 0x22) [CHR 0x22, CHR 0x22] (neutral v) @ [CHR 0x22] else neutral v)"
proof -
  have "list_ex (\<lambda>c. c \<in> set [CHR '','', CHR 0x22, CHR 0x0D, CHR 0x0A]) x \<longleftrightarrow> set x \<inter> delimiters \<noteq> {}" for x
    unfolding list_ex_iff delimiters_def list.set by blast
  then show ?thesis by (simp only: csv_field_def Let_def neutral_def append.simps unsafe_cell_evaluated)
qed

lemma csv_cell:
  "\<exists>m. m \<noteq> Quoted \<and> csv_read Fresh [] row (csv_field v @ t) = csv_read m (rev (neutral v)) row t"
proof (cases "unsafe_cell v \<or> set (neutral v) \<inter> delimiters \<noteq> {}")
  case True
  then have "csv_field v @ t = CHR 0x22 # replace_char (CHR 0x22) [CHR 0x22, CHR 0x22] (neutral v) @ CHR 0x22 # t"
    by (simp add: csv_field_eq)
  then show ?thesis using csv_quoted [of "[]" row "neutral v" t] by (intro exI [of _ Closed]) simp
next
  case False
  then show ?thesis using csv_plain [of "neutral v" Fresh "[]" row t]
    by (intro exI [of _ "if neutral v = [] then Fresh else Plain"]) (auto simp: csv_field_eq)
qed

lemma csv_row:
  assumes "vs \<noteq> []"
  shows "csv_read Fresh [] row (join '','' (map csv_field vs) @ crlf @ t) = rev (rev (map neutral vs) @ row) # csv_read Fresh [] [] t"
  using assms
proof (induction vs arbitrary: row rule: induct_list012)
  case (2 v)
  obtain m where "m \<noteq> Quoted" "csv_read Fresh [] row (csv_field v @ crlf @ t) = csv_read m (rev (neutral v)) row (crlf @ t)"
    using csv_cell by blast
  then show ?case by (simp add: crlf_def)
next
  case (3 v v' vs)
  let ?rest = "join '','' (map csv_field (v' # vs)) @ crlf @ t"
  obtain m where "m \<noteq> Quoted" "csv_read Fresh [] row (csv_field v @ CHR '','' # ?rest) = csv_read m (rev (neutral v)) row (CHR '','' # ?rest)"
    using csv_cell by blast
  then have "csv_read Fresh [] row (csv_field v @ CHR '','' # ?rest) = csv_read Fresh [] (neutral v # row) ?rest"
    by simp
  with "3.IH"(2) [of "neutral v # row"] show ?case by simp
qed simp

lemma hidden_invisible: "\<forall>ws \<in> set hidden_prefixes. ws \<noteq> [] \<and> \<not> visible (hd ws)"
  by (simp add: hidden_prefixes_def whitespace_chars_def visible_def)

lemma formula_heads: "map hd formula_prefixes = ''=+-@'' @ replicate 4 (char_of (0xEF :: nat))" "\<forall>p \<in> set formula_prefixes. p \<noteq> []"
  by code_simp+

lemma visible_cell:
  assumes "visible c" and "c \<notin> set ''=+-@''"
  shows "\<not> unsafe_cell (c # v)"
proof -
  have c: "33 \<le> (of_char c :: nat)" "(of_char c :: nat) \<le> 126" using assms(1) by (simp_all add: visible_def)
  have strip: "strip hidden_prefixes (c # v) = c # v"
    by (rule strip_id, rule leading_visible [OF hidden_invisible]) (simp add: assms(1))
  have "c \<noteq> char_of (0xEF :: nat)" using c by auto
  then have "c \<notin> set (map hd formula_prefixes)" using assms(2) unfolding formula_heads by simp
  then have "\<not> starts_with (c # v) p" if "p \<in> set formula_prefixes" for p
    using formula_heads(2) that by (cases p) (auto simp: starts_with_def image_iff)
  moreover have "\<not> starts_with (c # v) p" if "p \<in> {[CHR 0x09], [CHR 0x0D], [CHR 0x0A]}" for p
    using c that by (auto simp: starts_with_def)
  ultimately show ?thesis unfolding unsafe_cell_def strip list_ex_iff list.set by blast
qed

lemma neutral_safe: "\<not> evaluated (neutral v)"
  using visible_cell [of "CHR 0x27"] by (auto simp: neutral_def unsafe_cell_evaluated visible_def)

definition word_char :: "char \<Rightarrow> bool" where
  "word_char c \<longleftrightarrow> 95 \<le> (of_char c :: nat) \<and> (of_char c :: nat) \<le> 122"

lemma word_cell:
  assumes "v \<noteq> []" and "list_all word_char v"
  shows "csv_field v = v \<and> neutral v = v"
proof -
  obtain c t where v: "v = c # t" using assms(1) by (cases v) auto
  have special: "\<not> list_ex word_char ''=+-@''" "\<forall>d \<in> delimiters. \<not> word_char d"
    by (simp_all add: word_char_def delimiters_def)
  have "\<not> unsafe_cell v" unfolding v
    by (rule visible_cell) (use assms(2) v special(1) in \<open>auto simp: visible_def word_char_def list_ex_iff\<close>)
  moreover have "set v \<inter> delimiters = {}" using assms(2) special(2) by (auto simp: list_all_iff)
  ultimately show ?thesis by (simp add: csv_field_eq neutral_def unsafe_cell_evaluated)
qed

lemma header_words: "list_all (\<lambda>v. v \<noteq> [] \<and> list_all word_char v) csv_header"
  by (simp add: csv_header_def word_char_def)

lemma header_plain: "map csv_field csv_header = csv_header" "map neutral csv_header = csv_header"
  using header_words word_cell by (auto simp: list_all_iff intro!: map_idI)

text \<open>
  C36. The exported task table is read back as it is. A reader of comma-separated values that ends rows at any line break
  outside of quotes gets the header and one row for
  each task of the user, in the order of creation, whose cells are the values of the task, whatever they contain;
  a cell a spreadsheet would evaluate has an apostrophe in front, every other cell is unchanged, and no cell of the file is
  evaluated.
\<close>

theorem task_export_is_read_back:
  "csv_read Fresh [] [] (export_tasks_csv tf user w) = csv_header # map (\<lambda>t. map neutral (csv_cells tf t)) (export_tasks user w)
   \<and> \<not> (\<exists>row cell. row \<in> set (csv_read Fresh [] [] (export_tasks_csv tf user w)) \<and> cell \<in> set row \<and> evaluated cell)"
proof -
  have rows: "csv_read Fresh [] [] (concat (map (\<lambda>t. join '','' (map csv_field (csv_cells tf t)) @ crlf) ts))
      = map (\<lambda>t. map neutral (csv_cells tf t)) ts" for ts
  proof (induction ts)
    case (Cons t ts)
    then show ?case using csv_row [of "csv_cells tf t" "[]"] by (simp add: csv_cells_def)
  qed simp
  have head: "csv_header \<noteq> []" by (simp add: csv_header_def)
  have read: "csv_read Fresh [] [] (export_tasks_csv tf user w) = csv_header # map (\<lambda>t. map neutral (csv_cells tf t)) (export_tasks user w)"
    using csv_row [OF head, of "[]", unfolded header_plain] rows unfolding export_tasks_csv_def by simp
  have "\<not> evaluated c" if "c \<in> set csv_header" for c
    using that header_plain(2) neutral_safe by (metis (no_types, lifting) ex_map_conv)
  then show ?thesis unfolding read using neutral_safe by auto
qed

section \<open>What the exports contain\<close>

lemma note_of_inj: "note_of n = note_of n' \<Longrightarrow> n_id n = n_id n'"
  by (simp add: note_of_def)

lemma listed_notes_complete:
  assumes "distinct (map n_id (note_rows w))"
  shows "set (list_notes user w) = note_of ` {n \<in> set (note_rows w). n_user_id n = user}
    \<longleftrightarrow> length (filter (\<lambda>n. n_user_id n = user) (note_rows w)) \<le> 200"
proof -
  let ?rows = "filter (\<lambda>n. n_user_id n = user) (note_rows w)"
  let ?listed = "rev (sort_key (\<lambda>n. (n_updated_at n, n_id n)) ?rows)"
  have "distinct (map n_id ?rows)" using assms by (simp add: distinct_map_filter)
  then have inj: "inj_on n_id (set ?rows)" and "distinct ?rows" unfolding distinct_map by blast+
  moreover have "inj_on note_of (set ?rows)" by (rule inj_onI) (rule inj_onD [OF inj note_of_inj])
  ultimately have card: "card (note_of ` set ?rows) = length ?rows"
    by (simp only: card_image distinct_card)
  show ?thesis
  proof (cases "length ?rows \<le> 200")
    case True
    then have "take 200 ?listed = ?listed" by simp
    then have "set (list_notes user w) = note_of ` set ?rows" unfolding list_notes_def by (simp only: set_map set_rev set_sort)
    with True show ?thesis by simp
  next
    case False
    have "card (set (list_notes user w)) \<le> length (list_notes user w)" by (rule card_length)
    also have "\<dots> \<le> 200" by (simp add: list_notes_def)
    finally have "set (list_notes user w) \<noteq> note_of ` set ?rows" using card False by auto
    with False show ?thesis by simp
  qed
qed

text \<open>The notes changed last, latest first.\<close>

definition latest_notes :: "nat \<Rightarrow> note_row list \<Rightarrow> note_row set \<Rightarrow> bool" where
  "latest_notes k ns S \<longleftrightarrow>
     distinct ns \<and> set ns \<subseteq> S \<and> length ns = min k (card S)
     \<and> sorted_wrt (\<lambda>m n. (n_updated_at n, n_id n) \<le> (n_updated_at m, n_id m)) ns
     \<and> (\<forall>m \<in> set ns. \<forall>n \<in> S - set ns. (n_updated_at n, n_id n) \<le> (n_updated_at m, n_id m))"

lemma list_notes_latest:
  assumes "distinct (map n_id (note_rows w))"
  shows "\<exists>ns. list_notes user w = map note_of ns \<and> latest_notes 200 ns {n \<in> set (note_rows w). n_user_id n = user}"
proof -
  let ?rows = "filter (\<lambda>n. n_user_id n = user) (note_rows w)" and ?key = "\<lambda>n. (n_updated_at n, n_id n)"
  let ?sorted = "sort_key ?key ?rows"
  let ?ns = "take 200 (rev ?sorted)" and ?older = "drop 200 (rev ?sorted)"
  have "distinct ?rows" using assms by (simp add: distinct_map)
  then have d: "distinct (rev ?sorted)" by simp
  have s: "sorted_wrt (\<lambda>m n. ?key n \<le> ?key m) (?ns @ ?older)"
    using sorted_sort_key [of ?key ?rows] by (simp add: sorted_wrt_rev sorted_map)
  have S: "{n \<in> set (note_rows w). n_user_id n = user} = set ?ns \<union> set ?older"
    by (metis append_take_drop_id set_append set_filter set_rev set_sort)
  have "card {n \<in> set (note_rows w). n_user_id n = user} = length ?rows"
    using distinct_card [OF \<open>distinct ?rows\<close>] by simp
  then have "length ?ns = min 200 (card {n \<in> set (note_rows w). n_user_id n = user})" by (simp add: min.commute)
  moreover have "distinct ?ns" using d distinct_take by blast
  ultimately have "latest_notes 200 ?ns {n \<in> set (note_rows w). n_user_id n = user}"
    using s unfolding latest_notes_def S sorted_wrt_append by auto
  then show ?thesis unfolding list_notes_def by blast
qed

text \<open>A note as the Markdown export writes it.\<close>

definition markdown_section :: "note_row \<Rightarrow> string" where
  "markdown_section n =
     ''## '' @ n_title n @ [CHR 0x0A, CHR 0x0A] @ n_markdown n @ [CHR 0x0A, CHR 0x0A] @ ''---'' @ [CHR 0x0A, CHR 0x0A]"

lemma markdown_complete:
  assumes "distinct (map n_id (note_rows w))"
  shows "\<exists>ns. export_notes_markdown user w = ''# rakkio notes'' @ [CHR 0x0A, CHR 0x0A] @ concat (map markdown_section ns)
    \<and> distinct ns \<and> set ns = {n \<in> set (note_rows w). n_user_id n = user} \<and> sorted (map (\<lambda>n. (n_created_at n, n_id n)) ns)"
proof -
  have "distinct (filter (\<lambda>n. n_user_id n = user) (note_rows w))" using assms by (simp add: distinct_map)
  then show ?thesis
    by (intro exI [of _ "sort_key (\<lambda>n. (n_created_at n, n_id n)) (filter (\<lambda>n. n_user_id n = user) (note_rows w))"])
      (simp add: export_notes_markdown_def markdown_section_def [abs_def])
qed

text \<open>
  C39. The account export stops at two hundred notes. It has every project, task, calendar, event and file of the user, and
  nothing of anybody else; its notes are the two hundred of the user that were changed last, latest first, or all of them where
  there are fewer, so it is complete exactly up to two hundred notes. The Markdown export writes a section for every note of the
  user, in the order of creation, however many there are.
\<close>

theorem exports_stop_at_two_hundred_notes:
  assumes ids: "distinct (map n_id (note_rows w))" and x: "export_bundle pf user w = Inr x"
  shows "set (ex_tasks x) = task.truncate ` {t \<in> set (tasks w). t_user_id t = user}
    \<and> set (ex_projects x) = project_of w ` {p \<in> set (projects w). pr_user_id p = user}
    \<and> set (ex_calendars x) = calendar.truncate ` {c \<in> set (calendars w). c_user_id c = user}
    \<and> set (ex_events x) = calendar_event.truncate ` {e \<in> set (events w). e_user_id e = user}
    \<and> set (ex_files x) = record_of ` {f \<in> set (files w). f_user_id f = user}
    \<and> (\<exists>ns. ex_notes x = map note_of ns \<and> latest_notes 200 ns {n \<in> set (note_rows w). n_user_id n = user})
    \<and> (\<exists>ns. export_notes_markdown user w = ''# rakkio notes'' @ [CHR 0x0A, CHR 0x0A] @ concat (map markdown_section ns)
        \<and> distinct ns \<and> set ns = {n \<in> set (note_rows w). n_user_id n = user} \<and> sorted (map (\<lambda>n. (n_created_at n, n_id n)) ns))
    \<and> (set (ex_notes x) = note_of ` {n \<in> set (note_rows w). n_user_id n = user}
        \<longleftrightarrow> length (filter (\<lambda>n. n_user_id n = user) (note_rows w)) \<le> 200)"
proof -
  have "ex_notes x = list_notes user w" using x by (auto simp: export_bundle_def)
  moreover have "set (ex_tasks x) = task.truncate ` {t \<in> set (tasks w). t_user_id t = user}"
    "set (ex_projects x) = project_of w ` {p \<in> set (projects w). pr_user_id p = user}"
    "set (ex_calendars x) = calendar.truncate ` {c \<in> set (calendars w). c_user_id c = user}"
    "set (ex_events x) = calendar_event.truncate ` {e \<in> set (events w). e_user_id e = user}"
    "set (ex_files x) = record_of ` {f \<in> set (files w). f_user_id f = user}"
    using x by (auto simp: export_bundle_def export_tasks_def export_events_def)
  ultimately show ?thesis
    using listed_notes_complete [OF ids, of user] list_notes_latest [OF ids, of user] markdown_complete [OF ids, of user] by simp
qed

definition many_notes :: world where
  "many_notes = empty_world\<lparr>
     users := [\<lparr>u_id = 1, u_email = ''e'', u_display_name = ''e'', u_avatar_url = None, u_timezone = ''UTC'', u_google_subject = None, u_updated_at = 0\<rparr>],
     note_rows := map (\<lambda>i. \<lparr>n_id = i, n_user_id = 1, n_project_id = None, n_task_id = None, n_event_id = None, n_title = ''t'',
       n_markdown = [], n_created_at = 0, n_updated_at = int i, n_version = 1\<rparr>) [0..<201]\<rparr>"

theorem exports_stop_at_two_hundred_notes_witness:
  "\<exists>x. export_bundle (ascii_platform 0) 1 many_notes = Inr x \<and> set (ex_notes x) \<noteq> note_of ` set (note_rows many_notes)"
proof -
  have "\<exists>x. export_bundle (ascii_platform 0) 1 many_notes = Inr x"
    by (simp add: export_bundle_def store_user_profile_def many_notes_def row_by_def)
  then obtain x where x: "export_bundle (ascii_platform 0) 1 many_notes = Inr x" by blast
  have ids: "distinct (map n_id (note_rows many_notes))" by (simp add: many_notes_def comp_def)
  have all: "filter (\<lambda>n. n_user_id n = 1) (note_rows many_notes) = note_rows many_notes" by (simp add: many_notes_def filter_id_conv)
  then have "{n \<in> set (note_rows many_notes). n_user_id n = 1} = set (note_rows many_notes)" by (metis set_filter)
  moreover have "length (note_rows many_notes) = 201" by (simp add: many_notes_def)
  ultimately show ?thesis using exports_stop_at_two_hundred_notes [OF ids x] x all by auto
qed

section \<open>What account deletion leaves\<close>

definition no_rows :: "uuid \<Rightarrow> world \<Rightarrow> bool" where
  "no_rows user w \<longleftrightarrow>
     user \<notin> u_id ` set (users w) \<and> user \<notin> us_user_id ` set (settings w) \<and> user \<notin> se_user_id ` set (sessions w)
     \<and> Some user \<notin> la_user_id ` set (login_attempts w) \<and> Some user \<notin> iv_used_by ` set (invites w)
     \<and> user \<notin> lg_user_id ` set (legal_acceptances w) \<and> user \<notin> ga_user_id ` set (google_accounts w)
     \<and> user \<notin> pr_user_id ` set (projects w) \<and> user \<notin> t_user_id ` set (tasks w) \<and> user \<notin> fst ` set (labels w)
     \<and> user \<notin> fo_user_id ` set (focus_tasks w) \<and> user \<notin> rv_user_id ` set (reviews w) \<and> user \<notin> c_user_id ` set (calendars w)
     \<and> user \<notin> e_user_id ` set (events w) \<and> user \<notin> m_user_id ` set (mappings w) \<and> user \<notin> j_user_id ` set (sync_jobs w)
     \<and> user \<notin> k_user_id ` set (conflicts w) \<and> user \<notin> wc_user_id ` set (watch_channels w) \<and> user \<notin> n_user_id ` set (note_rows w)
     \<and> user \<notin> f_user_id ` set (files w) \<and> user \<notin> sv_user_id ` set (saved_views w) \<and> user \<notin> mr_user_id ` set (move_undos w)
     \<and> user \<notin> gr_user_id ` set (guard_revisions w) \<and> user \<notin> gc_user_id ` set (gt_connections w)
     \<and> user \<notin> gl_user_id ` set (gt_links w) \<and> user \<notin> du_user_id ` set (delete_undos w) \<and> user \<notin> ae_user_id ` set (activity w)"

lemma unlink_gone: "Some x \<noteq> unlink (\<lambda>u. u = x) y"
  by (auto simp: unlink_def split: option.splits)

lemma delete_user_no_rows: "no_rows user (delete_user user w)"
  unfolding no_rows_def delete_user_def Let_def
  by (intro conjI; simp add: image_image) (auto simp: unlink_gone)

text \<open>No row refers to a row of another account: every write finds the rows it links to by their owner.\<close>

definition references_own :: "world \<Rightarrow> bool" where
  "references_own w \<longleftrightarrow>
     (\<forall>t \<in> set (tasks w). \<forall>s \<in> set (tasks w). t_recurrence_source_id t = Some (t_id s) \<longrightarrow> t_user_id s = t_user_id t)
     \<and> (\<forall>f \<in> set (files w).
          (\<forall>p \<in> set (projects w). f_project_id f = Some (pr_id p) \<longrightarrow> pr_user_id p = f_user_id f)
          \<and> (\<forall>t \<in> set (tasks w). f_task_id f = Some (t_id t) \<longrightarrow> t_user_id t = f_user_id f)
          \<and> (\<forall>n \<in> set (note_rows w). f_note_id f = Some (n_id n) \<longrightarrow> n_user_id n = f_user_id f)
          \<and> (\<forall>e \<in> set (events w). f_event_id f = Some (e_id e) \<longrightarrow> e_user_id e = f_user_id f))
     \<and> (\<forall>m \<in> set (mappings w).
          (\<forall>c \<in> set (calendars w). m_calendar_id m = c_id c \<longrightarrow> c_user_id c = m_user_id m)
          \<and> (\<forall>e \<in> set (events w). m_canonical_event_id m = Some (e_id e) \<longrightarrow> e_user_id e = m_user_id m))
     \<and> (\<forall>j \<in> set (sync_jobs w). \<forall>c \<in> set (calendars w). j_calendar_id j = Some (c_id c) \<longrightarrow> c_user_id c = j_user_id j)
     \<and> (\<forall>k \<in> set (conflicts w).
          (\<forall>m \<in> set (mappings w). k_mapping_id k = m_id m \<longrightarrow> m_user_id m = k_user_id k)
          \<and> (\<forall>e \<in> set (events w). k_canonical_event_id k = Some (e_id e) \<longrightarrow> e_user_id e = k_user_id k))
     \<and> (\<forall>c \<in> set (watch_channels w). \<forall>d \<in> set (calendars w). wc_calendar_id c = c_id d \<longrightarrow> c_user_id d = wc_user_id c)"

text \<open>The rows of another user, in every table.\<close>

definition kept :: "uuid \<Rightarrow> world \<Rightarrow> world \<Rightarrow> bool" where
  "kept other w w' \<longleftrightarrow>
     filter (\<lambda>u. u_id u = other) (users w') = filter (\<lambda>u. u_id u = other) (users w)
     \<and> filter (\<lambda>s. us_user_id s = other) (settings w') = filter (\<lambda>s. us_user_id s = other) (settings w)
     \<and> filter (\<lambda>s. se_user_id s = other) (sessions w') = filter (\<lambda>s. se_user_id s = other) (sessions w)
     \<and> filter (\<lambda>a. ga_user_id a = other) (google_accounts w') = filter (\<lambda>a. ga_user_id a = other) (google_accounts w)
     \<and> filter (\<lambda>p. pr_user_id p = other) (projects w') = filter (\<lambda>p. pr_user_id p = other) (projects w)
     \<and> filter (\<lambda>c. c_user_id c = other) (calendars w') = filter (\<lambda>c. c_user_id c = other) (calendars w)
     \<and> filter (\<lambda>e. e_user_id e = other) (events w') = filter (\<lambda>e. e_user_id e = other) (events w)
     \<and> filter (\<lambda>n. n_user_id n = other) (note_rows w') = filter (\<lambda>n. n_user_id n = other) (note_rows w)
     \<and> filter (\<lambda>v. sv_user_id v = other) (saved_views w') = filter (\<lambda>v. sv_user_id v = other) (saved_views w)
     \<and> filter (\<lambda>t. t_user_id t = other) (tasks w') = filter (\<lambda>t. t_user_id t = other) (tasks w)
     \<and> filter (\<lambda>f. f_user_id f = other) (files w') = filter (\<lambda>f. f_user_id f = other) (files w)
     \<and> filter (\<lambda>a. la_user_id a = Some other) (login_attempts w') = filter (\<lambda>a. la_user_id a = Some other) (login_attempts w)
     \<and> filter (\<lambda>i. iv_used_by i = Some other) (invites w') = filter (\<lambda>i. iv_used_by i = Some other) (invites w)
     \<and> filter (\<lambda>l. lg_user_id l = other) (legal_acceptances w') = filter (\<lambda>l. lg_user_id l = other) (legal_acceptances w)
     \<and> filter (\<lambda>l. fst l = other) (labels w') = filter (\<lambda>l. fst l = other) (labels w)
     \<and> filter (\<lambda>f. fo_user_id f = other) (focus_tasks w') = filter (\<lambda>f. fo_user_id f = other) (focus_tasks w)
     \<and> filter (\<lambda>r. rv_user_id r = other) (reviews w') = filter (\<lambda>r. rv_user_id r = other) (reviews w)
     \<and> filter (\<lambda>m. m_user_id m = other) (mappings w') = filter (\<lambda>m. m_user_id m = other) (mappings w)
     \<and> filter (\<lambda>j. j_user_id j = other) (sync_jobs w') = filter (\<lambda>j. j_user_id j = other) (sync_jobs w)
     \<and> filter (\<lambda>k. k_user_id k = other) (conflicts w') = filter (\<lambda>k. k_user_id k = other) (conflicts w)
     \<and> filter (\<lambda>c. wc_user_id c = other) (watch_channels w') = filter (\<lambda>c. wc_user_id c = other) (watch_channels w)
     \<and> filter (\<lambda>m. mr_user_id m = other) (move_undos w') = filter (\<lambda>m. mr_user_id m = other) (move_undos w)
     \<and> filter (\<lambda>g. gr_user_id g = other) (guard_revisions w') = filter (\<lambda>g. gr_user_id g = other) (guard_revisions w)
     \<and> filter (\<lambda>c. gc_user_id c = other) (gt_connections w') = filter (\<lambda>c. gc_user_id c = other) (gt_connections w)
     \<and> filter (\<lambda>l. gl_user_id l = other) (gt_links w') = filter (\<lambda>l. gl_user_id l = other) (gt_links w)
     \<and> filter (\<lambda>d. du_user_id d = other) (delete_undos w') = filter (\<lambda>d. du_user_id d = other) (delete_undos w)
     \<and> filter (\<lambda>a. ae_user_id a = other) (activity w') = filter (\<lambda>a. ae_user_id a = other) (activity w)"

lemma filter_owner: "other \<noteq> user \<Longrightarrow> filter (\<lambda>r. f r = other) (delete_where (\<lambda>r. f r = user) rs) = filter (\<lambda>r. f r = other) rs"
  by (rule filter_delete_other) auto

lemma filter_kept:
  assumes "\<And>r. r \<in> set rs \<Longrightarrow> p r \<Longrightarrow> \<not> q r \<and> f r = r" and "\<And>r. r \<in> set rs \<Longrightarrow> p (f r) = p r"
  shows "filter p (map f (delete_where q rs)) = filter p rs"
  using assms by (induction rs) (auto simp: delete_where_def)

lemma filter_spared:
  assumes "\<And>r. r \<in> set rs \<Longrightarrow> p r \<Longrightarrow> \<not> q r"
  shows "filter p (delete_where q rs) = filter p rs"
  using filter_kept [of rs p q id] assms by simp

lemma unlink_same: "(\<And>a. x = Some a \<Longrightarrow> \<not> p a) \<Longrightarrow> unlink p x = x"
  by (simp add: unlink_def split: option.split)

lemma delete_user_plain:
  "users (delete_user user w) = delete_where (\<lambda>u. u_id u = user) (users w)"
  "settings (delete_user user w) = delete_where (\<lambda>s. us_user_id s = user) (settings w)"
  "sessions (delete_user user w) = delete_where (\<lambda>s. se_user_id s = user) (sessions w)"
  "legal_acceptances (delete_user user w) = delete_where (\<lambda>l. lg_user_id l = user) (legal_acceptances w)"
  "google_accounts (delete_user user w) = delete_where (\<lambda>a. ga_user_id a = user) (google_accounts w)"
  "projects (delete_user user w) = delete_where (\<lambda>p. pr_user_id p = user) (projects w)"
  "labels (delete_user user w) = delete_where (\<lambda>l. fst l = user) (labels w)"
  "focus_tasks (delete_user user w) = delete_where (\<lambda>f. fo_user_id f = user) (focus_tasks w)"
  "reviews (delete_user user w) = delete_where (\<lambda>r. rv_user_id r = user) (reviews w)"
  "calendars (delete_user user w) = delete_where (\<lambda>c. c_user_id c = user) (calendars w)"
  "events (delete_user user w) = delete_where (\<lambda>e. e_user_id e = user) (events w)"
  "note_rows (delete_user user w) = delete_where (\<lambda>n. n_user_id n = user) (note_rows w)"
  "saved_views (delete_user user w) = delete_where (\<lambda>v. sv_user_id v = user) (saved_views w)"
  "move_undos (delete_user user w) = delete_where (\<lambda>m. mr_user_id m = user) (move_undos w)"
  "guard_revisions (delete_user user w) = delete_where (\<lambda>g. gr_user_id g = user) (guard_revisions w)"
  "gt_connections (delete_user user w) = delete_where (\<lambda>c. gc_user_id c = user) (gt_connections w)"
  "gt_links (delete_user user w) = delete_where (\<lambda>l. gl_user_id l = user) (gt_links w)"
  "delete_undos (delete_user user w) = delete_where (\<lambda>d. du_user_id d = user) (delete_undos w)"
  "activity (delete_user user w) = delete_where (\<lambda>a. ae_user_id a = user) (activity w)"
  by (simp_all add: delete_user_def Let_def)

lemma delete_user_keeps:
  assumes "other \<noteq> user" and "references_own w"
  shows "kept other w (delete_user user w)"
proof -
  let ?v = "delete_user user w"
  have t: "unlink (\<lambda>i. i \<in> t_id ` {x \<in> set (tasks w). t_user_id x = user}) x = x"
    if "\<forall>s \<in> set (tasks w). x = Some (t_id s) \<longrightarrow> t_user_id s = other" for x
    by (rule unlink_same) (use that assms(1) in auto)
  have e: "unlink (\<lambda>i. i \<in> e_id ` {x \<in> set (events w). e_user_id x = user}) x = x"
    if "\<forall>s \<in> set (events w). x = Some (e_id s) \<longrightarrow> e_user_id s = other" for x
    by (rule unlink_same) (use that assms(1) in auto)
  have n: "unlink (\<lambda>i. i \<in> n_id ` {x \<in> set (note_rows w). n_user_id x = user}) x = x"
    if "\<forall>s \<in> set (note_rows w). x = Some (n_id s) \<longrightarrow> n_user_id s = other" for x
    by (rule unlink_same) (use that assms(1) in auto)
  have p: "unlink (\<lambda>i. i \<in> pr_id ` {x \<in> set (projects w). pr_user_id x = user}) x = x"
    if "\<forall>s \<in> set (projects w). x = Some (pr_id s) \<longrightarrow> pr_user_id s = other" for x
    by (rule unlink_same) (use that assms(1) in auto)
  note own = assms(2) [unfolded references_own_def]
  note own_t = own [THEN conjunct1] and own_f = own [THEN conjunct2, THEN conjunct1]
    and own_m = own [THEN conjunct2, THEN conjunct2, THEN conjunct1]
    and own_j = own [THEN conjunct2, THEN conjunct2, THEN conjunct2, THEN conjunct1]
    and own_k = own [THEN conjunct2, THEN conjunct2, THEN conjunct2, THEN conjunct2, THEN conjunct1]
    and own_c = own [THEN conjunct2, THEN conjunct2, THEN conjunct2, THEN conjunct2, THEN conjunct2]
  have "filter (\<lambda>t. t_user_id t = other) (tasks ?v) = filter (\<lambda>t. t_user_id t = other) (tasks w)"
    unfolding delete_user_def Let_def by simp (rule filter_kept, use assms(1) own_t t in simp_all)
  moreover have "filter (\<lambda>f. f_user_id f = other) (files ?v) = filter (\<lambda>f. f_user_id f = other) (files w)"
  proof -
    have "unlink (\<lambda>i. i \<in> pr_id ` {x \<in> set (projects w). pr_user_id x = user}) (f_project_id f) = f_project_id f"
      "unlink (\<lambda>i. i \<in> t_id ` {x \<in> set (tasks w). t_user_id x = user}) (f_task_id f) = f_task_id f"
      "unlink (\<lambda>i. i \<in> n_id ` {x \<in> set (note_rows w). n_user_id x = user}) (f_note_id f) = f_note_id f"
      "unlink (\<lambda>i. i \<in> e_id ` {x \<in> set (events w). e_user_id x = user}) (f_event_id f) = f_event_id f"
      if "f \<in> set (files w)" "f_user_id f = other" for f
      by (rule p t n e, use own_f that in blast)+
    then show ?thesis
      unfolding delete_user_def Let_def by simp (rule filter_kept, use assms(1) in simp_all)
  qed
  moreover have "filter (\<lambda>m. m_user_id m = other) (mappings ?v) = filter (\<lambda>m. m_user_id m = other) (mappings w)"
    unfolding delete_user_def Let_def by simp (rule filter_kept, use assms(1) own_m e in auto)
  moreover have "filter (\<lambda>k. k_user_id k = other) (conflicts ?v) = filter (\<lambda>k. k_user_id k = other) (conflicts w)"
  proof -
    have "m_user_id m \<noteq> user \<and> m_calendar_id m \<notin> c_id ` {c \<in> set (calendars w). c_user_id c = user}"
      if "k \<in> set (conflicts w)" "k_user_id k = other" "m \<in> set (mappings w)" "k_mapping_id k = m_id m" for k m
      using that own_k own_m assms(1) by auto
    then show ?thesis
      unfolding delete_user_def Let_def by simp (rule filter_kept, use assms(1) own_k e in auto)
  qed
  moreover have "filter (\<lambda>j. j_user_id j = other) (sync_jobs ?v) = filter (\<lambda>j. j_user_id j = other) (sync_jobs w)"
    unfolding delete_user_def Let_def
    by simp (rule filter_spared, use assms(1) own_j in \<open>auto simp: refers_def split: option.splits\<close>)
  moreover have "filter (\<lambda>c. wc_user_id c = other) (watch_channels ?v) = filter (\<lambda>c. wc_user_id c = other) (watch_channels w)"
    unfolding delete_user_def Let_def
    by simp (rule filter_spared, use assms(1) own_c in auto)
  moreover have "filter (\<lambda>i. iv_used_by i = Some other) (invites ?v) = filter (\<lambda>i. iv_used_by i = Some other) (invites w)"
  proof -
    have "filter (\<lambda>i. iv_used_by i = Some other) (map (\<lambda>i. i\<lparr>iv_used_by := unlink (\<lambda>u. u = user) (iv_used_by i)\<rparr>) is)
        = filter (\<lambda>i. iv_used_by i = Some other) is" for "is" :: "invite_row list"
      using assms(1) by (induction "is") (auto simp: unlink_def split: option.splits)
    then show ?thesis by (simp add: delete_user_def Let_def)
  qed
  moreover have "filter (\<lambda>a. la_user_id a = Some other) (login_attempts ?v) = filter (\<lambda>a. la_user_id a = Some other) (login_attempts w)"
    unfolding delete_user_def Let_def by simp (rule filter_spared, use assms(1) in simp)
  ultimately show ?thesis
    unfolding kept_def delete_user_plain by - (intro conjI; (assumption | rule filter_owner [OF assms(1)]))
qed

text \<open>What storage does with a deletion: the object is gone, and every other object is as before.\<close>

definition deletes_one :: "'p object_store \<Rightarrow> bool" where
  "deletes_one st \<longleftrightarrow>
     (\<forall>k q q'. os_delete st k q = (True, q') \<longrightarrow> (\<forall>k'. fst (os_get st k' q') = (if k' = k then None else fst (os_get st k' q))))"

lemma delete_objects_deletes:
  assumes "delete_objects st ks (w, p) = (Inr u, w', p')" and "deletes_one st"
  shows "w' = w \<and> (\<forall>k. fst (os_get st k p') = (if k \<in> set ks then None else fst (os_get st k p)))"
  using assms
proof (induction ks arbitrary: p)
  case Nil
  then show ?case by (simp add: handle_of_def)
next
  case (Cons k ks)
  obtain b q where b: "os_delete st k p = (b, q)" by (cases "os_delete st k p")
  with Cons.prems(1) have "b" and run: "delete_objects st ks (w, q) = (Inr u, w', p')"
    by (auto simp: handle_bind_def delete_object_def storage_call_def done_if_def split: if_splits)
  with b have "os_delete st k p = (True, q)" by simp
  with Cons.prems(2) have "fst (os_get st k' q) = (if k' = k then None else fst (os_get st k' p))" for k'
    unfolding deletes_one_def by blast
  with Cons.IH [OF run Cons.prems(2)] show ?case by simp
qed

lemma delete_objects_world: "delete_objects st ks (w, p) = (r, w', p') \<Longrightarrow> w' = w"
proof (induction ks arbitrary: p)
  case (Cons k ks)
  then show ?case
    by (auto simp: handle_bind_def delete_object_def storage_call_def done_if_def split: if_splits prod.splits sum.splits)
qed (simp add: handle_of_def)

lemma revoke_access_world: "revoke_access oauth user (w, p) = (r, w', p') \<Longrightarrow> \<exists>t. w' = w\<lparr>now := t\<rparr>"
proof -
  assume run: "revoke_access oauth user (w, p) = (r, w', p')"
  have same: "\<exists>t. w = w\<lparr>now := t\<rparr>" by (rule exI [of _ "now w"]) simp
  have job: "\<exists>t. fst (snd (oauth_revoke google credentials (w, p))) = w\<lparr>now := t\<rparr>" for google :: "'a oauth" and credentials
    by (auto simp: same oauth_revoke_def job_bind_def decrypted_def job_of_def token_call_def job_fail_def job_return_def
        split: sum.splits prod.splits)
  show ?thesis
  proof (cases "\<exists>google credentials. handle_job (oauth_revoke google credentials) (w, p) = (r, w', p')")
    case True
    then obtain google credentials where "handle_job (oauth_revoke google credentials) (w, p) = (r, w', p')" by blast
    then have "w' = fst (snd (oauth_revoke google credentials (w, p)))"
      by (auto simp: handle_job_def split: sum.splits prod.splits)
    with job [of google credentials] show ?thesis by simp
  next
    case False
    with run have "w' = w"
      by (auto simp: revoke_access_def handle_bind_def handle_of_def split: sum.splits app_error.splits option.splits)
    with same show ?thesis by simp
  qed
qed

lemma delete_account_ends:
  assumes run: "delete_account st oauth header_ok secure user confirmation (w, p) = (r, w', p')"
  shows "(\<exists>e t. r = Inl e \<and> w' = w\<lparr>now := t\<rparr>)
    \<or> (\<exists>t q u r1. confirmation = ''DELETE'' \<and> user_exists user w \<and> w' = delete_user user (w\<lparr>now := t\<rparr>)
         \<and> revoke_access oauth user (w, p) = (r1, w\<lparr>now := t\<rparr>, q)
         \<and> delete_objects st (account_object_keys user w) (w\<lparr>now := t\<rparr>, q) = (Inr u, w\<lparr>now := t\<rparr>, p')
         \<and> (header_ok (expired_session_cookie secure) \<longrightarrow> r = Inr (expired_session_cookie secure)))"
proof (cases "confirmation = ''DELETE''")
  case False
  with run have "r = Inl (Validation ''account deletion confirmation must equal DELETE'')" "w' = w\<lparr>now := now w\<rparr>"
    by (simp_all add: delete_account_def handle_bind_def handle_of_def)
  then show ?thesis by blast
next
  case True
  obtain r1 w1 p1 where revoked: "revoke_access oauth user (w, p) = (r1, w1, p1)" by (cases "revoke_access oauth user (w, p)")
  obtain t where t: "w1 = w\<lparr>now := t\<rparr>" using revoke_access_world [OF revoked] by blast
  obtain r2 w2 p2 where deleted: "delete_objects st (account_object_keys user w1) (w1, p1) = (r2, w2, p2)"
    by (cases "delete_objects st (account_object_keys user w1) (w1, p1)")
  have w2: "w2 = w1" by (rule delete_objects_world [OF deleted])
  have keys: "account_object_keys user w1 = account_object_keys user w" by (simp add: t account_object_keys_def)
  have ends: "(case r1 of Inl e \<Rightarrow> (Inl e, w1, p1)
    | Inr _ \<Rightarrow> case r2 of Inl e \<Rightarrow> (Inl e, w1, p2)
    | Inr _ \<Rightarrow> if user_exists user w
        then (if header_ok (expired_session_cookie secure) then Inr (expired_session_cookie secure)
              else Inl (InvalidRequest 500 ''could not create download response''), delete_user user w1, p2)
        else (Inl Unauthorized, w1, p2)) = (r, w', p')"
    using run True deleted by (auto simp: delete_account_def handle_bind_def handle_of_def handle_query_def handle_op_def revoked w2
        store_delete_account_def user_exists_def t split: sum.splits if_splits)
  show ?thesis
  proof (cases "\<exists>u1 u2. r1 = Inr u1 \<and> r2 = Inr u2 \<and> user_exists user w")
    case True
    with ends \<open>confirmation = ''DELETE''\<close> deleted keys w2 t revoked show ?thesis by (auto split: if_splits)
  next
    case False
    with ends have "(\<exists>e. r = Inl e) \<and> w' = w1" by (auto split: sum.splits if_splits)
    with t show ?thesis by blast
  qed
qed

text \<open>Revoking the access at Google does not touch the stored objects.\<close>

definition revokes_apart :: "'p object_store \<Rightarrow> 'p oauth option \<Rightarrow> bool" where
  "revokes_apart st oauth \<longleftrightarrow>
     (\<forall>google token q r t q'. oauth = Some google \<and> oa_revoke google token q = (r, t, q') \<longrightarrow> (\<forall>k. fst (os_get st k q') = fst (os_get st k q)))"

lemma revoke_access_objects:
  assumes run: "revoke_access oauth user (w, p) = (r, w', p')" and apart: "revokes_apart st oauth"
  shows "fst (os_get st k p') = fst (os_get st k p)"
proof (cases oauth)
  case None
  with run have "p' = p" by (auto simp: revoke_access_def handle_bind_def handle_of_def ok_or_def split: sum.splits app_error.splits)
  then show ?thesis by simp
next
  case (Some google)
  have "p' = p \<or> (\<exists>token r t. oa_revoke google token p = (r, t, p'))"
    using run unfolding Some
    by (auto simp: revoke_access_def handle_bind_def handle_of_def handle_job_def ok_or_def oauth_revoke_def job_bind_def decrypted_def job_of_def
        token_call_def job_fail_def job_return_def split: sum.splits prod.splits app_error.splits option.splits if_splits)
  with apart show ?thesis unfolding revokes_apart_def Some by auto
qed

text \<open>
  C37. Deleting an account is all or nothing for the database, and all for the account. When a step fails no row is touched.
  When it is accepted the request spelled the confirmation, no table has a row of the user any more, and every row of every
  other user is there as before, in every table. The object store has lost the objects of the files of the user and
  exactly these: every other object, those of the files of other users among them, is as before.
\<close>

theorem account_deletion_leaves_nothing:
  assumes run: "delete_account st oauth header_ok secure user confirmation (w, p) = (r, w', p')"
    and cookie: "header_ok (expired_session_cookie secure)" and own: "references_own w"
    and storage: "deletes_one st" and google: "revokes_apart st oauth"
  shows "case r of
      Inl e \<Rightarrow> \<exists>t. w' = w\<lparr>now := t\<rparr>
    | Inr c \<Rightarrow> confirmation = ''DELETE'' \<and> user_exists user w \<and> no_rows user w'
        \<and> (\<forall>k. fst (os_get st k p') =
             (if \<exists>f \<in> set (files w). f_user_id f = user \<and> f_object_key f = k then None else fst (os_get st k p)))
        \<and> (\<forall>other. other \<noteq> user \<longrightarrow> kept other w w')"
  using delete_account_ends [OF run]
proof (elim disjE exE conjE)
  fix t q u r1
  assume ends: "confirmation = ''DELETE''" "user_exists user w" "w' = delete_user user (w\<lparr>now := t\<rparr>)"
    and revoked: "revoke_access oauth user (w, p) = (r1, w\<lparr>now := t\<rparr>, q)"
    and objects: "delete_objects st (account_object_keys user w) (w\<lparr>now := t\<rparr>, q) = (Inr u, w\<lparr>now := t\<rparr>, p')"
    and r: "header_ok (expired_session_cookie secure) \<longrightarrow> r = Inr (expired_session_cookie secure)"
  have "references_own (w\<lparr>now := t\<rparr>)" using own by (simp add: references_own_def)
  then have "kept other w w'" if "other \<noteq> user" for other
    using delete_user_keeps [OF that, of "w\<lparr>now := t\<rparr>"] by (simp add: ends(3) kept_def)
  moreover have "\<forall>k. fst (os_get st k p') =
      (if \<exists>f \<in> set (files w). f_user_id f = user \<and> f_object_key f = k then None else fst (os_get st k p))"
  proof
    fix k
    have keys: "k \<in> set (account_object_keys user w) \<longleftrightarrow> (\<exists>f \<in> set (files w). f_user_id f = user \<and> f_object_key f = k)"
      by (auto simp: account_object_keys_def)
    have "fst (os_get st k p') = (if k \<in> set (account_object_keys user w) then None else fst (os_get st k p))"
      using delete_objects_deletes [OF objects storage] revoke_access_objects [OF revoked google, of k] by simp
    then show "fst (os_get st k p') = (if \<exists>f \<in> set (files w). f_user_id f = user \<and> f_object_key f = k then None else fst (os_get st k p))"
      unfolding keys .
  qed
  ultimately show ?thesis
    using r cookie ends(1,2) delete_user_no_rows [of user "w\<lparr>now := t\<rparr>"] by (simp add: ends(3))
qed auto

lemma map_of_filter_keys: "map_of (filter (\<lambda>(k', _). k' \<noteq> k) xs) k' = (if k' = k then None else map_of xs k')"
  by (induction xs) auto

definition two_accounts :: world where
  "two_accounts = many_notes\<lparr>
     sessions := [\<lparr>se_token_hash = ''s'', se_user_id = 2, se_csrf_token = ''c'', se_expires_at = 9, se_last_seen_at = 0\<rparr>],
     files := [\<lparr>f_id = 5, f_user_id = 1, f_project_id = None, f_task_id = None, f_note_id = None, f_event_id = None, f_object_key = ''k'',
       f_filename = ''a'', f_content_type = ''t'', f_byte_size = 2, f_created_at = 0\<rparr>,
       \<lparr>f_id = 6, f_user_id = 2, f_project_id = None, f_task_id = None, f_note_id = None, f_event_id = None, f_object_key = ''l'',
       f_filename = ''b'', f_content_type = ''t'', f_byte_size = 2, f_created_at = 0\<rparr>]\<rparr>"

lemma two_accounts_tables:
  "tasks two_accounts = []" "projects two_accounts = []" "events two_accounts = []" "mappings two_accounts = []"
  "sync_jobs two_accounts = []" "conflicts two_accounts = []" "watch_channels two_accounts = []"
  "files two_accounts = [\<lparr>f_id = 5, f_user_id = 1, f_project_id = None, f_task_id = None, f_note_id = None, f_event_id = None, f_object_key = ''k'',
     f_filename = ''a'', f_content_type = ''t'', f_byte_size = 2, f_created_at = 0\<rparr>,
     \<lparr>f_id = 6, f_user_id = 2, f_project_id = None, f_task_id = None, f_note_id = None, f_event_id = None, f_object_key = ''l'',
     f_filename = ''b'', f_content_type = ''t'', f_byte_size = 2, f_created_at = 0\<rparr>]"
  by (simp_all add: two_accounts_def many_notes_def empty_world_def)

abbreviation two_objects :: "(string \<times> string) list" where
  "two_objects \<equiv> [(''k'', ''hi''), (''l'', ''ho'')]"

theorem account_deletion_leaves_nothing_witness:
  "\<exists>c w' p'. delete_account memory_store None (\<lambda>_. True) True 1 ''DELETE'' (two_accounts, two_objects) = (Inr c, w', p')
     \<and> no_rows 1 w' \<and> fst (os_get memory_store ''k'' p') = None \<and> fst (os_get memory_store ''l'' p') = Some ''ho''
     \<and> filter (\<lambda>s. se_user_id s = 2) (sessions w') = filter (\<lambda>s. se_user_id s = 2) (sessions two_accounts)
     \<and> filter (\<lambda>f. f_user_id f = 2) (files w') = filter (\<lambda>f. f_user_id f = 2) (files two_accounts)"
proof -
  have "\<exists>c w' p'. delete_account memory_store None (\<lambda>_. True) True 1 ''DELETE'' (two_accounts, two_objects) = (Inr c, w', p')"
    by (simp add: delete_account_def handle_bind_def handle_of_def revoke_access_def store_google_credentials_def account_of_def two_accounts_def
        many_notes_def empty_world_def row_by_def handle_query_def account_object_keys_def delete_object_def storage_call_def done_if_def
        memory_store_def handle_op_def store_delete_account_def user_exists_def)
  then obtain c w' p' where run: "delete_account memory_store None (\<lambda>_. True) True 1 ''DELETE'' (two_accounts, two_objects) = (Inr c, w', p')"
    by blast
  have storage: "deletes_one memory_store" by (auto simp: deletes_one_def memory_store_def map_of_filter_keys)
  have google: "revokes_apart memory_store None" by (simp add: revokes_apart_def)
  have own: "references_own two_accounts" unfolding references_own_def two_accounts_tables by simp
  note result = account_deletion_leaves_nothing [OF run TrueI own storage google, unfolded sum.case]
  have rows: "no_rows 1 w'" and kept: "kept 2 two_accounts w'" using result by simp_all
  have objects: "fst (os_get memory_store k p') = (if \<exists>f \<in> set (files two_accounts). f_user_id f = 1 \<and> f_object_key f = k then None
      else fst (os_get memory_store k two_objects))" for k using result by blast
  have "fst (os_get memory_store ''k'' p') = None" "fst (os_get memory_store ''l'' p') = Some ''ho''"
    unfolding objects two_accounts_tables by (simp_all add: memory_store_def)
  with run rows kept show ?thesis unfolding kept_def by blast
qed

section \<open>Storage quotas\<close>

definition within :: "config \<Rightarrow> world \<Rightarrow> bool" where
  "within cf w \<longleftrightarrow> (\<forall>f \<in> set (files w). 0 \<le> f_byte_size f)
     \<and> (\<forall>user. stored_bytes (\<lambda>f. f_user_id f = user) w \<le> cf_max_user_file_storage_bytes cf)
     \<and> stored_bytes (\<lambda>_. True) w \<le> cf_max_total_file_storage_bytes cf"

text \<open>Fewer files, with their owners and sizes.\<close>

definition fewer :: "world \<Rightarrow> world \<Rightarrow> bool" where
  "fewer w w' \<longleftrightarrow> (\<exists>g q. (\<forall>f. f_user_id (g f) = f_user_id f \<and> f_byte_size (g f) = f_byte_size f) \<and> files w' = map g (filter q (files w)))"

lemma fewer_same: "files w' = files w \<Longrightarrow> fewer w w'"
  unfolding fewer_def by (rule exI [of _ id], rule exI [of _ "\<lambda>_. True"]) simp

lemma fewer_map:
  "files w' = map g (files w) \<Longrightarrow> (\<And>f. f_user_id (g f) = f_user_id f \<and> f_byte_size (g f) = f_byte_size f) \<Longrightarrow> fewer w w'"
  unfolding fewer_def by (rule exI [of _ g], rule exI [of _ "\<lambda>_. True"]) simp

lemma fewer_delete: "files w' = delete_where q (files w) \<Longrightarrow> fewer w w'"
  unfolding fewer_def delete_where_def by (rule exI [of _ id], rule exI [of _ "\<lambda>f. \<not> q f"]) simp

lemma sum_list_filter_le: "(\<forall>x \<in> set xs. 0 \<le> f x) \<Longrightarrow> sum_list (map f (filter q xs)) \<le> (sum_list (map f xs) :: int)"
  by (induction xs) auto

lemma within_fewer:
  assumes ok: "within cf w" and few: "fewer w w'"
  shows "within cf w'"
proof -
  obtain g q where g: "\<And>f. f_user_id (g f) = f_user_id f \<and> f_byte_size (g f) = f_byte_size f" and files: "files w' = map g (filter q (files w))"
    using few unfolding fewer_def by blast
  have less: "stored_bytes (\<lambda>f. p (f_user_id f)) w' \<le> stored_bytes (\<lambda>f. p (f_user_id f)) w" for p
  proof -
    have "stored_bytes (\<lambda>f. p (f_user_id f)) w' = sum_list (map f_byte_size (filter q (filter (\<lambda>f. p (f_user_id f)) (files w))))"
      using g by (simp add: stored_bytes_def files filter_map_keeps comp_def conj_commute)
    also have "\<dots> \<le> stored_bytes (\<lambda>f. p (f_user_id f)) w"
      using ok unfolding stored_bytes_def by (intro sum_list_filter_le) (simp add: within_def)
    finally show ?thesis .
  qed
  have "\<forall>f \<in> set (files w'). 0 \<le> f_byte_size f" using ok g by (auto simp: files within_def)
  with ok less [of "\<lambda>_. True"] less [of "\<lambda>u. u = user" for user] show ?thesis
    unfolding within_def by (meson order_trans)
qed

lemma fewer_trans: "fewer u v \<Longrightarrow> fewer v w \<Longrightarrow> fewer u w"
proof -
  assume "fewer u v" "fewer v w"
  then obtain g q h r where "\<forall>f. f_user_id (g f) = f_user_id f \<and> f_byte_size (g f) = f_byte_size f" "files v = map g (filter q (files u))"
    "\<forall>f. f_user_id (h f) = f_user_id f \<and> f_byte_size (h f) = f_byte_size f" "files w = map h (filter r (files v))"
    unfolding fewer_def by blast
  then have "files w = map (h \<circ> g) (filter (\<lambda>f. q f \<and> r (g f)) (files u))
      \<and> (\<forall>f. f_user_id ((h \<circ> g) f) = f_user_id f \<and> f_byte_size ((h \<circ> g) f) = f_byte_size f)"
    by (simp add: filter_map comp_def)
  then show ?thesis unfolding fewer_def by blast
qed

lemma fewer_delete_notes: "fewer w (delete_notes p w)"
  by (rule fewer_map [where g = "\<lambda>f. f\<lparr>f_note_id := unlink (\<lambda>i. i \<in> n_id ` {n \<in> set (note_rows w). p n}) (f_note_id f)\<rparr>"])
    (simp_all add: delete_notes_def Let_def)

lemma fewer_delete_events: "fewer w (delete_events p w)"
  unfolding delete_events_def Let_def
  by (rule fewer_trans [OF _ fewer_delete_notes])
    (rule fewer_map [where g = "\<lambda>f. f\<lparr>f_event_id := unlink (\<lambda>i. i \<in> e_id ` {e \<in> set (events w). p e}) (f_event_id f)\<rparr>"], simp_all)

lemmas same_files = fewer_same [OF fold_tasks_change_frame(21)] fewer_same [OF delete_focus_frame(22)]

lemma fewer_delete_tasks: "fewer w (delete_tasks p w)"
  unfolding delete_tasks_def Let_def
  by (rule fewer_trans [OF fewer_trans [OF fewer_trans [OF fewer_trans [OF _ same_files(2)] fewer_delete_events] fewer_delete_notes] same_files(1)])
    (rule fewer_map [where g = "\<lambda>f. f\<lparr>f_task_id := unlink (\<lambda>i. i \<in> t_id ` {t \<in> set (tasks w). p t}) (f_task_id f)\<rparr>"], simp_all)

lemma fewer_delete_projects: "fewer w (delete_projects p w)"
  unfolding delete_projects_def Let_def
  by (rule fewer_trans [OF fewer_trans [OF fewer_trans [OF _ fewer_delete_tasks] fewer_delete_notes] fewer_same])
    (rule fewer_map [where g = "\<lambda>f. f\<lparr>f_project_id := unlink (\<lambda>i. i \<in> pr_id ` {q \<in> set (projects w). p q}) (f_project_id f)\<rparr>"], simp_all)

lemma fewer_delete_calendars: "fewer w (delete_calendars p w)"
  unfolding delete_calendars_def Let_def
  by (rule fewer_trans [OF _ fewer_delete_events]) (simp add: fewer_same)

lemma fewer_delete_user: "fewer w (delete_user user w)"
proof -
  define g where "g = (\<lambda>f. f\<lparr>f_project_id := unlink (\<lambda>i. i \<in> pr_id ` {p \<in> set (projects w). pr_user_id p = user}) (f_project_id f),
      f_task_id := unlink (\<lambda>i. i \<in> t_id ` {t \<in> set (tasks w). t_user_id t = user}) (f_task_id f),
      f_note_id := unlink (\<lambda>i. i \<in> n_id ` {n \<in> set (note_rows w). n_user_id n = user}) (f_note_id f),
      f_event_id := unlink (\<lambda>i. i \<in> e_id ` {e \<in> set (events w). e_user_id e = user}) (f_event_id f)\<rparr> :: file_row)"
  have "files (delete_user user w) = map g (filter (\<lambda>f. f_user_id f \<noteq> user) (files w))"
    by (simp add: delete_user_def Let_def delete_where_def g_def)
  moreover have "\<forall>f. f_user_id (g f) = f_user_id f \<and> f_byte_size (g f) = f_byte_size f" by (simp add: g_def)
  ultimately show ?thesis unfolding fewer_def by blast
qed

lemma fewer_delete_file_metadata: "delete_file_metadata user i w = Inr (k, w') \<Longrightarrow> fewer w w'"
  by (auto simp: delete_file_metadata_def intro!: fewer_delete)

lemma fewer_serve:
  assumes "\<not> creates_file req" and "serve pf fts user req w = Inr (a, w')"
  shows "fewer w w'"
proof (cases req)
  case (CreateNote r)
  with assms(2) show ?thesis by (auto simp: answers_def create_note_def new_uuid_def Let_def intro!: fewer_same)
next
  case (UpdateNote i r)
  with assms(2) show ?thesis by (auto simp: answers_def update_note_def Let_def intro!: fewer_same split: option.splits)
next
  case (DeleteNote i v)
  with assms(2) show ?thesis by (auto simp: answers_def delete_note_def Let_def fewer_delete_notes split: option.splits)
next
  case (DeleteFile i)
  with assms(2) show ?thesis by (auto simp: answers_def fewer_delete_file_metadata)
next
  case (CreateView b c r)
  with assms(2) show ?thesis by (auto simp: answers_def create_saved_task_view_def new_uuid_def Let_def intro!: fewer_same)
next
  case (DeleteView i)
  with assms(2) show ?thesis by (auto simp: answers_def delete_saved_task_view_def intro!: fewer_same split: if_splits)
qed (use assms in \<open>auto simp: reads_def creates_file_def intro!: fewer_same\<close>)

lemma fewer_perform:
  assumes "\<not> creates_file (we_request e)"
  shows "fewer w (snd (perform pf fts e w))"
proof (cases "serve pf fts (we_user e) (we_request e) (w\<lparr>now := we_time e, uuid_supply := (\<lambda>_. we_id e), drawn := 0\<rparr>)")
  case (Inl err)
  then show ?thesis by (simp add: perform_def fewer_same)
next
  case (Inr r)
  with fewer_serve [OF assms] have "fewer (w\<lparr>now := we_time e, uuid_supply := (\<lambda>_. we_id e), drawn := 0\<rparr>) (snd r)" by (cases r) simp
  from fewer_trans [OF fewer_same this] Inr show ?thesis by (cases r) (simp add: perform_def)
qed

lemma fewer_delete_file: "delete_file st user i (w, p) = (r, w', p') \<Longrightarrow> fewer w w'"
proof -
  assume run: "delete_file st user i (w, p) = (r, w', p')"
  have "w' = w \<or> (\<exists>k. delete_file_metadata user i w = Inr (k, w'))"
    using run by (auto simp: delete_file_def handle_bind_def handle_op_def handle_storage_def delete_object_def storage_call_def done_if_def
        handle_of_def split: sum.splits prod.splits if_splits)
  then show ?thesis using fewer_delete_file_metadata fewer_same [of w w] by auto
qed

text \<open>Everything that writes the table of files: uploads and deletions, the other workspace requests, the cascades, and account deletion.\<close>

inductive storage_step :: "'p object_store \<Rightarrow> config \<Rightarrow> world \<times> 'p \<Rightarrow> uuid list \<Rightarrow> world \<times> 'p \<Rightarrow> bool" for st cf where
  uploading: "upload_file st mime_ok parse_uuid cf t limits timed_out user body l (w, p) = (r, (w', p'), l') \<Longrightarrow>
    uuid_supply w (Suc (drawn w)) \<notin> f_id ` set (files w) \<Longrightarrow> storage_step st cf (w, p) [user] (w', p')"
| removing: "delete_file st user i (w, p) = (r, w', p') \<Longrightarrow> storage_step st cf (w, p) [] (w', p')"
| requesting: "\<not> creates_file (we_request e) \<Longrightarrow> storage_step st cf (w, p) [] (snd (perform pf fts e w), p)"
| tasks_gone: "storage_step st cf (w, p) [] (delete_tasks pt w, p)"
| projects_gone: "storage_step st cf (w, p) [] (delete_projects pp w, p)"
| calendars_gone: "storage_step st cf (w, p) [] (delete_calendars pc w, p)"
| events_gone: "storage_step st cf (w, p) [] (delete_events pe w, p)"
| closing: "delete_account st oauth header_ok secure user confirmation (w, p) = (r, w', p') \<Longrightarrow> storage_step st cf (w, p) [] (w', p')"

lemma within_upload:
  assumes run: "upload_file st mime_ok parse_uuid cf t limits timed_out user body l (w, p) = (r, (w', p'), l')"
    and fresh: "uuid_supply w (Suc (drawn w)) \<notin> f_id ` set (files w)" and ok: "within cf w"
  shows "within cf w'"
  using upload_file_store [OF run]
proof (elim disjE exE conjE)
  fix form
  assume "store_upload st cf user form (w, p) = (r, w', p')"
  note result = store_upload_result [OF this fresh]
  show ?thesis
  proof (cases r)
    case (Inl e)
    with result ok show ?thesis by (auto intro!: within_fewer [OF ok] fewer_same)
  next
    case (Inr f)
    with result obtain u row where row: "uploaded cf user u w row" "files w' = files w @ [row]" by auto
    have "stored_bytes (\<lambda>f. f_user_id f = other) w' \<le> cf_max_user_file_storage_bytes cf" for other
      using ok row by (cases "other = user") (auto simp: stored_bytes_def uploaded_def within_def)
    with ok row show ?thesis by (auto simp: stored_bytes_def uploaded_def within_def)
  qed
qed (use ok in simp)

lemma within_step:
  assumes "storage_step st cf s xs s'" and "within cf (fst s)"
  shows "within cf (fst s')"
  using assms
proof (induction rule: storage_step.induct)
  case (closing oauth header_ok secure user confirmation w p r w' p')
  have "fewer w w'"
    using delete_account_ends [OF closing.hyps] fewer_trans [OF fewer_same fewer_delete_user] by (auto intro: fewer_same)
  with closing.prems show ?case using within_fewer by simp
qed (auto intro: within_upload within_fewer fewer_delete_file fewer_perform fewer_delete_tasks fewer_delete_projects fewer_delete_calendars
    fewer_delete_events)

text \<open>
  C38. Attachments never exceed their quotas. In every run of uploads and deletions of files, of other workspace requests, of the
  deletion of tasks, projects, calendars, events and accounts, each user stores at most the user quota and the
  server at most its total, so that the usage a user is shown is always computed and never more than the quota.
\<close>

theorem storage_stays_within_the_quotas:
  assumes limits: "cf_max_user_file_storage_bytes cf < 2 ^ 63" and start: "within cf w"
    and run: "steps (storage_step st cf) (w, p) us (w', p')"
  shows "stored_bytes (\<lambda>_. True) w' \<le> cf_max_total_file_storage_bytes cf
    \<and> (\<exists>used. file_usage_bytes user w' = Inr used \<and> used = stored_bytes (\<lambda>f. f_user_id f = user) w'
         \<and> 0 \<le> used \<and> used \<le> cf_max_user_file_storage_bytes cf)"
proof -
  have "within cf (fst (w', p'))"
    by (rule steps_invariant [OF run, of "\<lambda>s. within cf (fst s)"]) (use start within_step in auto)
  then have ok: "within cf w'" by simp
  then have "0 \<le> stored_bytes (\<lambda>f. f_user_id f = user) w'"
    unfolding stored_bytes_def by (intro sum_list_nonneg) (auto simp: within_def)
  moreover have "stored_bytes (\<lambda>f. f_user_id f = user) w' \<le> cf_max_user_file_storage_bytes cf" using ok by (simp add: within_def)
  moreover have "to_bigint n = Inr n" if "0 \<le> n" "n \<le> cf_max_user_file_storage_bytes cf" for n
    using that limits by (simp add: to_bigint_def)
  ultimately show ?thesis using ok by (simp add: within_def file_usage_bytes_def)
qed

theorem storage_stays_within_the_quotas_witness:
  "\<exists>w' p'. steps (storage_step memory_store example_config) (empty_world, []) [1] (w', p') \<and> stored_bytes (\<lambda>_. True) w' \<le> 30"
proof -
  obtain f w' p' l' where up: "upload_file memory_store (\<lambda>_. True) (\<lambda>_. None) example_config 0 default_limits False 1 example_body
      default_limiter (empty_world, []) = (Inr f, (w', p'), l')" using example_uploads by blast
  have "storage_step memory_store example_config (empty_world, []) [1] (w', p')"
    by (rule storage_step.uploading [OF up]) (simp add: empty_world_def)
  then have run: "steps (storage_step memory_store example_config) (empty_world, []) [1] (w', p')" by (rule steps_one)
  have "within example_config empty_world" by (simp add: within_def stored_bytes_def empty_world_def example_config_def)
  with storage_stays_within_the_quotas [OF _ _ run] run show ?thesis by (auto simp: example_config_def)
qed

end
