(* ===== verification/SyncRoutes.thy ===== *)
theory SyncRoutes
  imports TaskLinks SignIn
begin

text \<open>
  \<open>sync_routes.rs\<close>, \<open>google_tasks_routes.rs\<close>, \<open>operations.rs\<close> and the draining loop of \<open>sync_dispatcher.rs\<close>: the
  handlers that put work into the queue or talk to Google while the user waits. A rate limiter is passed and returned;
  \<open>t\<close> is its clock. Waking the dispatcher has no effect on the state.
\<close>

section \<open>Limited handlers\<close>

definition keyed ::
  "int \<Rightarrow> string \<Rightarrow> ('p, 'a) handler \<Rightarrow> login_rate_limiter \<Rightarrow> world \<times> 'p \<Rightarrow> 'a app_result \<times> (world \<times> 'p) \<times> login_rate_limiter" where
  "keyed t key m l s =
     (case check_key t key l of
        (Inl e, l) \<Rightarrow> (Inl e, s, l)
      | (Inr _, l) \<Rightarrow> (let (r, s) = m s in (r, s, l)))"

definition handle_read :: "(world \<Rightarrow> 'a app_result) \<Rightarrow> ('p, 'a) handler" where
  "handle_read f = handle_op (\<lambda>w. bind_res (f w) (\<lambda>a. Inr (a, w)))"

section \<open>Queueing\<close>

definition discover_google_calendars ::
  "platform \<Rightarrow> int \<Rightarrow> uuid \<Rightarrow> login_rate_limiter \<Rightarrow> world \<times> 'p \<Rightarrow> synchronization app_result \<times> (world \<times> 'p) \<times> login_rate_limiter" where
  "discover_google_calendars pf t user =
     keyed t (''synchronization:'' @ show_uuid user)
       (handle_op (enqueue_sync user None ''calendar_discovery''
         (''calendar-discovery:'' @ show_uuid user @ '':'' @ show_int (utc_now pf div second div 60))))"

definition revoke_google :: "platform \<Rightarrow> uuid \<Rightarrow> ('p, synchronization) handler" where
  "revoke_google pf user =
     handle_op (enqueue_sync user None ''credential_revoke''
       (''credential-revoke:'' @ show_uuid user @ '':'' @ show_int (utc_now pf div second)))"

definition create_synchronization ::
  "int \<Rightarrow> uuid \<Rightarrow> create_synchronization_request \<Rightarrow> login_rate_limiter \<Rightarrow> world \<times> 'p
   \<Rightarrow> synchronization app_result \<times> (world \<times> 'p) \<times> login_rate_limiter" where
  "create_synchronization t user req =
     keyed t (''synchronization:'' @ show_uuid user)
       (handle_op (enqueue_sync user (cs_calendar_id req) ''calendar_sync'' (cs_idempotency_key req)))"

definition invalid_notification :: app_error where
  "invalid_notification = Forbidden ''invalid Google notification''"

definition required_header :: "(string \<Rightarrow> string option) \<Rightarrow> headers \<Rightarrow> string \<Rightarrow> string app_result" where
  "required_header to_str headers name = ok_or (nonempty (Option.bind (map_of headers name) to_str)) invalid_notification"

definition google_calendar_webhook ::
  "platform \<Rightarrow> (string \<Rightarrow> string option) \<Rightarrow> (string \<Rightarrow> uuid option) \<Rightarrow> 'p app_state \<Rightarrow> int \<Rightarrow> string option \<Rightarrow> headers \<Rightarrow> login_rate_limiter
   \<Rightarrow> world \<times> 'p \<Rightarrow> unit app_result \<times> (world \<times> 'p) \<times> login_rate_limiter" where
  "google_calendar_webhook pf to_str parse_uuid st t peer headers =
     limited to_str st t headers peer
       (handle_bind (handle_of (required_header to_str headers ''x-goog-channel-id'')) (\<lambda>channel.
        handle_bind (handle_of (ok_or (parse_uuid channel) invalid_notification)) (\<lambda>channel_id.
        handle_bind (handle_of (required_header to_str headers ''x-goog-resource-id'')) (\<lambda>resource_id.
        handle_bind (handle_of (required_header to_str headers ''x-goog-channel-token'')) (\<lambda>channel_token.
        handle_bind (handle_of (required_header to_str headers ''x-goog-message-number'')) (\<lambda>message_number.
        handle_bind (handle_of (require (\<not> (length channel_token \<noteq> 64 \<or> 2048 < length resource_id \<or> 32 < length message_number
            \<or> \<not> list_all (\<lambda>c. 48 \<le> (of_char c :: nat) \<and> (of_char c :: nat) \<le> 57) message_number)) invalid_notification)) (\<lambda>_.
        handle_bind (handle_op (\<lambda>w. Inr (enqueue_google_watch_notification channel_id resource_id (sha256 pf channel_token) message_number w)))
          (\<lambda>accepted. handle_of (require accepted invalid_notification)))))))))"

section \<open>Google Tasks\<close>

text \<open>\<open>service\<close> is the synchronization service: its OAuth client and its Google Tasks client.\<close>

definition tasks_token :: "('p oauth \<times> 'p tasks_provider) option \<Rightarrow> uuid \<Rightarrow> ('p, string) handler" where
  "tasks_token service user =
     handle_bind (handle_read (google_tasks_status user)) (\<lambda>status.
     handle_bind (handle_of (require (gs_authorized status) (Forbidden ''Google Tasks permission is required''))) (\<lambda>_.
     handle_bind (handle_of (ok_or service (NotConfigured ''Google Tasks''))) (\<lambda>(oauth, _).
     handle_job (access_token oauth user))))"

definition tasks_lists :: "('p oauth \<times> 'p tasks_provider) option \<Rightarrow> uuid \<Rightarrow> ('p, google_task_list list) handler" where
  "tasks_lists service user =
     handle_bind (tasks_token service user) (\<lambda>token.
     handle_bind (handle_of (ok_or service (NotConfigured ''Google Tasks''))) (\<lambda>(_, http).
     handle_job (job_client (client_lists http token))))"

record google_tasks_settings_request =
  gq_enabled :: bool
  gq_task_list_id :: "string option"
  gq_timezone :: "string option"
  gq_expected_version :: int

definition list_available ::
  "('p oauth \<times> 'p tasks_provider) option \<Rightarrow> uuid \<Rightarrow> string option \<Rightarrow> ('p, unit) handler" where
  "list_available service user list =
     handle_bind (tasks_token service user) (\<lambda>token.
     handle_bind (handle_of (ok_or list (Validation ''Choose a Google Tasks list.''))) (\<lambda>list.
     handle_bind (handle_of (ok_or service (NotConfigured ''Google Tasks''))) (\<lambda>(_, http).
     handle_bind (handle_job (job_client (client_lists http token))) (\<lambda>available.
     handle_of (require (list \<in> set (map gtl_id available)) (Forbidden ''The selected Google Tasks list is not available''))))))"

definition tasks_configure ::
  "('p oauth \<times> 'p tasks_provider) option \<Rightarrow> tasks_env \<Rightarrow> bool \<Rightarrow> bool \<Rightarrow> int \<Rightarrow> uuid \<Rightarrow> google_tasks_settings_request \<Rightarrow> login_rate_limiter
   \<Rightarrow> world \<times> 'p \<Rightarrow> tasks_status app_result \<times> (world \<times> 'p) \<times> login_rate_limiter" where
  "tasks_configure service env sync_free row_free t user req =
     keyed t (''tasks-settings:'' @ show_uuid user)
       (handle_bind (if gq_enabled req then list_available service user (gq_task_list_id req) else handle_of (Inr ())) (\<lambda>_.
        let selected = (case (gq_task_list_id req, gq_timezone req) of (Some l, Some z) \<Rightarrow> Some (l, z) | _ \<Rightarrow> None)
        in handle_bind (handle_op (configure_google_tasks env sync_free row_free user (gq_enabled req) selected (gq_expected_version req))) (\<lambda>status.
        handle_bind (if gs_enabled status
                     then handle_bind (handle_op (enqueue_sync user None ''tasks_sync''
                            (''tasks-enable:'' @ show_uuid user @ '':'' @ show_int (gs_version status)))) (\<lambda>_. handle_of (Inr ()))
                     else handle_of (Inr ())) (\<lambda>_.
        handle_of (Inr status)))))"

text \<open>The two statements that claim the right to create a list, with the number of rows they affect.\<close>

definition claim_list :: "uuid \<Rightarrow> int \<Rightarrow> world \<Rightarrow> nat \<times> world" where
  "claim_list user expected w =
     (if expected = 0
      then (case connection_of user w of
              None \<Rightarrow> (1, w\<lparr>gt_connections := gt_connections w @ [(new_connection user False None None)\<lparr>gc_list_create_attempted := True\<rparr>]\<rparr>)
            | Some _ \<Rightarrow> (0, w))
      else let hit = (\<lambda>c. gc_user_id c = user \<and> gc_version c = expected \<and> \<not> gc_list_create_attempted c \<and> \<not> gc_enabled c
                          \<and> gc_task_list_id c = None)
           in (length (filter hit (gt_connections w)),
               w\<lparr>gt_connections := update_where hit (\<lambda>c. c\<lparr>gc_list_create_attempted := True, gc_version := gc_version c + 1\<rparr>)
                 (gt_connections w)\<rparr>))"

definition tasks_create_list ::
  "('p oauth \<times> 'p tasks_provider) option \<Rightarrow> int \<Rightarrow> uuid \<Rightarrow> int \<Rightarrow> login_rate_limiter
   \<Rightarrow> world \<times> 'p \<Rightarrow> google_task_list app_result \<times> (world \<times> 'p) \<times> login_rate_limiter" where
  "tasks_create_list service t user expected =
     keyed t (''tasks-list:'' @ show_uuid user)
       (handle_bind (tasks_token service user) (\<lambda>token.
        handle_bind (handle_op (\<lambda>w. Inr (claim_list user expected w))) (\<lambda>claimed.
        handle_bind (handle_of (require (claimed = 1)
          (Conflict ''Refresh the lists and choose an existing list. An earlier creation may already have succeeded.''))) (\<lambda>_.
        handle_bind (handle_of (ok_or service (NotConfigured ''Google Tasks''))) (\<lambda>(_, http).
        handle_job (job_client (client_create_list http token)))))))"

definition tasks_synchronize ::
  "platform \<Rightarrow> int \<Rightarrow> uuid \<Rightarrow> login_rate_limiter \<Rightarrow> world \<times> 'p \<Rightarrow> synchronization app_result \<times> (world \<times> 'p) \<times> login_rate_limiter" where
  "tasks_synchronize pf t user =
     keyed t (''tasks-sync:'' @ show_uuid user)
       (handle_bind (handle_read (google_tasks_status user)) (\<lambda>status.
        handle_bind (handle_of (require (\<not> (\<not> gs_enabled status \<or> \<not> gs_authorized status))
          (Conflict ''Enable Google Tasks and grant permission before synchronizing.''))) (\<lambda>_.
        handle_op (enqueue_sync user None ''tasks_sync''
          (''tasks-manual:'' @ show_uuid user @ '':'' @ show_int (utc_now pf div second div 60))))))"

definition tasks_resolve ::
  "bool \<Rightarrow> bool \<Rightarrow> int \<Rightarrow> uuid \<Rightarrow> uuid \<Rightarrow> uuid \<Rightarrow> task_conflict_choice \<Rightarrow> login_rate_limiter
   \<Rightarrow> world \<times> 'p \<Rightarrow> unit app_result \<times> (world \<times> 'p) \<times> login_rate_limiter" where
  "tasks_resolve sync_free row_free t user link conflict choice =
     keyed t (''tasks-resolve:'' @ show_uuid user)
       (handle_op (resolve_google_task_conflict sync_free row_free user link conflict choice))"

definition tasks_leave_unlinked ::
  "bool \<Rightarrow> bool \<Rightarrow> timestamp \<Rightarrow> int \<Rightarrow> uuid \<Rightarrow> uuid \<Rightarrow> login_rate_limiter
   \<Rightarrow> world \<times> 'p \<Rightarrow> unit app_result \<times> (world \<times> 'p) \<times> login_rate_limiter" where
  "tasks_leave_unlinked sync_free row_free clock t user link =
     keyed t (''tasks-recovery:'' @ show_uuid user) (handle_op (leave_google_task_unlinked sync_free row_free clock user link))"

section \<open>Operations\<close>

record operations_metrics =
  om_accounts :: nat
  om_file_bytes :: int
  om_pending :: nat
  om_running :: nat
  om_retryable :: nat
  om_final_failed_all_time :: nat
  om_succeeded_all_time :: nat
  om_oldest_waiting_created_at :: "timestamp option"
  om_latest_completed_job_at :: "timestamp option"

definition store_operations_metrics :: "world \<Rightarrow> operations_metrics" where
  "store_operations_metrics w =
     (let jobs = (\<lambda>p. filter p (sync_jobs w));
          waiting = map j_created_at (jobs (\<lambda>j. j_status j = Pending \<or> j_status j = Failed \<and> j_attempt_count j < 8));
          finished = map j_updated_at (jobs (\<lambda>j. j_status j = Succeeded))
      in \<lparr>om_accounts = length (users w), om_file_bytes = sum_list (map f_byte_size (files w)),
          om_pending = length (jobs (\<lambda>j. j_status j = Pending)), om_running = length (jobs (\<lambda>j. j_status j = Running)),
          om_retryable = length (jobs (\<lambda>j. j_status j = Failed \<and> j_attempt_count j < 8)),
          om_final_failed_all_time = length (jobs (\<lambda>j. j_status j = Failed \<and> 8 \<le> j_attempt_count j)),
          om_succeeded_all_time = length finished,
          om_oldest_waiting_created_at = (if waiting = [] then None else Some (Min (set waiting))),
          om_latest_completed_job_at = (if finished = [] then None else Some (Max (set finished)))\<rparr>)"

section \<open>The dispatcher\<close>

definition MAX_JOBS_PER_DRAIN :: nat where
  "MAX_JOBS_PER_DRAIN = 32"

text \<open>\<open>closed\<close> says, before each job, whether the receiver is closed; the result is the number of jobs run.\<close>

fun drain :: "nat \<Rightarrow> (nat \<Rightarrow> bool) \<Rightarrow> ('p, bool) job \<Rightarrow> world \<times> 'p \<Rightarrow> nat \<times> world \<times> 'p" where
  "drain 0 closed work s = (0, s)"
| "drain (Suc n) closed work s =
     (if closed n then (0, s)
      else case work s of
             (Inr True, s) \<Rightarrow> (let (k, s) = drain n closed work s in (Suc k, s))
           | (_, s) \<Rightarrow> (0, s))"

definition drain_queue :: "(nat \<Rightarrow> bool) \<Rightarrow> ('p, bool) job \<Rightarrow> world \<times> 'p \<Rightarrow> nat \<times> world \<times> 'p" where
  "drain_queue closed work = drain MAX_JOBS_PER_DRAIN closed work"

lemma drain_queue_bound: "fst (drain_queue closed work s) \<le> MAX_JOBS_PER_DRAIN"
proof -
  have "fst (drain n closed work s) \<le> n" for n
    by (induction n arbitrary: s) (auto split: prod.split sum.split bool.split, metis fst_conv)
  then show ?thesis by (simp add: drain_queue_def)
qed

section \<open>A list is created at most once\<close>

definition list_flags :: "world \<Rightarrow> (uuid \<times> bool) list" where
  "list_flags w = map (\<lambda>c. (gc_user_id c, gc_list_create_attempted c)) (gt_connections w)"

definition creates_list :: "tasks_request \<Rightarrow> bool" where
  "creates_list req \<longleftrightarrow> tq_method req = ''POST'' \<and> tq_segments req = [''users'', ''@me'', ''lists'']"

definition creations :: "exchange_log \<Rightarrow> nat" where
  "creations log = length (filter (\<lambda>(req, _). creates_list req) log)"

definition quiet :: "(uuid \<times> bool) list \<Rightarrow> nat \<Rightarrow> world \<times> 'p \<times> exchange_log \<Rightarrow> bool" where
  "quiet flags n s \<longleftrightarrow> list_flags (fst s) = flags \<and> creations (snd (snd s)) = n"

lemma keeps_handler:
  "keeps P m \<Longrightarrow> (\<And>a. keeps P (f a)) \<Longrightarrow> keeps P (handle_bind m f)"
  "keeps P (handle_of r)" "keeps P (handle_read g)" "keeps P j \<Longrightarrow> keeps P (handle_job j)"
  by (auto simp: keeps_def handle_bind_def handle_of_def handle_read_def handle_op_def handle_job_def split: prod.split sum.split)
    (metis snd_conv)+

lemma send_quiet:
  assumes "tq_method req \<noteq> ''POST''"
  shows "keeps (quiet flags n) (send_tasks (logged http) req)"
  unfolding keeps_def
proof (intro allI impI)
  fix s :: "world \<times> 'a \<times> exchange_log"
  obtain w p log where s: "s = (w, p, log)" by (metis prod.exhaust)
  obtain a t p' where h: "http req p = (a, t, p')" by (metis prod.exhaust)
  assume "quiet flags n s"
  then show "quiet flags n (snd (send_tasks (logged http) req s))" using assms
    by (auto simp: s quiet_def list_flags_def creations_def creates_list_def send_tasks_def logged_def h Let_def split: option.split)
qed

lemma pages_inner_quiet:
  "quiet flags n s \<Longrightarrow> quiet flags n (snd (pages_inner (logged http) decode deadline token segments query items seen bytes_read s))"
proof (induction "logged http" decode deadline token segments query items seen bytes_read s rule: pages_inner.induct)
  case (1 decode deadline token segments query items seen bytes_read s)
  let ?req = "\<lparr>tq_method = ''GET'', tq_segments = segments,
             tq_query = query @ [(''maxResults'', ''100'')] @ (case seen of [] \<Rightarrow> [] | cursor # _ \<Rightarrow> [(''pageToken'', cursor)]),
             tq_token = token, tq_body = NoTasksBody, tq_if_match = None\<rparr>"
  obtain a s' where r: "send_tasks (logged http) ?req s = (a, s')" by (metis prod.exhaust)
  have ok: "quiet flags n s'" using keepsD [of "quiet flags n" "send_tasks (logged http) ?req"] send_quiet [of ?req flags n http] "1.prems" r by simp
  show ?case
    unfolding pages_inner.simps [of "logged http" decode deadline token segments query items seen bytes_read s] r prod.case Let_def
    using ok "1.hyps" [OF r [symmetric]] by (auto split: sum.split option.split)
qed

lemma lists_quiet: "keeps (quiet flags n) (client_lists (logged http) token)"
  unfolding client_lists_def by (intro keeps_rules) (simp add: keeps_def pages_def pages_inner_quiet)

lemma token_quiet: "keeps (quiet flags n) (access_token (logged_oauth oauth) user)"
proof -
  have "keeps (quiet flags n) (token_call (oa_refresh (logged_oauth oauth)) token)" for token
    unfolding keeps_def by (auto simp: token_call_def logged_oauth_def Let_def quiet_def list_flags_def split: prod.split)
  moreover have "keeps (quiet flags n) (credentials_of user)"
    unfolding credentials_of_def by (rule keeps_op) (auto simp: quiet_def list_flags_def)
  moreover have "keeps (quiet flags n) (job_update (update_google_access_token user sealed t))" for sealed t
    by (rule keeps_update) (auto simp: update_google_access_token_def quiet_def list_flags_def)
  ultimately show ?thesis
    unfolding access_token_def oauth_access_token_def decrypted_def by (intro keeps_rules) (auto intro!: keeps_rules split: prod.split)
qed

text \<open>
  The same, as far as one user is concerned: \<open>steady user b n\<close> says that \<open>n\<close> lists have been created and, if \<open>b\<close>, that the
  user's attempt is recorded.
\<close>

definition attempted :: "uuid \<Rightarrow> world \<Rightarrow> bool" where
  "attempted user w \<longleftrightarrow> (user, True) \<in> set (list_flags w)"

definition one_connection :: "world \<Rightarrow> bool" where
  "one_connection w \<longleftrightarrow> distinct (map fst (list_flags w))"

definition steady :: "uuid \<Rightarrow> bool \<Rightarrow> nat \<Rightarrow> world \<times> 'p \<times> exchange_log \<Rightarrow> bool" where
  "steady user b n s \<longleftrightarrow> one_connection (fst s) \<and> (b \<longrightarrow> attempted user (fst s)) \<and> creations (snd (snd s)) = n"

lemma steady_quiet: "(\<And>flags. keeps (quiet flags n) m) \<Longrightarrow> keeps (steady user b n) m"
  unfolding keeps_def steady_def quiet_def one_connection_def attempted_def by metis

lemma steady_frame: "steady user b n (w, p) \<Longrightarrow> list_flags w' = list_flags w \<Longrightarrow> steady user b n (w', p)"
  by (simp add: steady_def one_connection_def attempted_def)

lemma keeps_handle_op:
  "(\<And>w p a w'. P (w, p) \<Longrightarrow> f w = Inr (a, w') \<Longrightarrow> P (w', p)) \<Longrightarrow> keeps P (handle_op f)"
  by (auto simp: keeps_def handle_op_def split: sum.split)

lemma enqueue_steady: "keeps (steady user b n) (handle_op (enqueue_sync u c kind key))"
proof (rule keeps_handle_op)
  fix w a w' and p :: "'a \<times> exchange_log"
  assume ok: "steady user b n (w, p)" and "enqueue_sync u c kind key w = Inr (a, w')"
  then have "list_flags w' = list_flags w"
    by (auto simp: enqueue_sync_def list_flags_def new_uuid_def Let_def split: if_splits option.splits prod.splits)
  with ok show "steady user b n (w', p)" by (rule steady_frame)
qed

lemma list_flags_update:
  "(\<And>c. gc_user_id (f c) = gc_user_id c \<and> gc_list_create_attempted (f c) = gc_list_create_attempted c)
   \<Longrightarrow> map (\<lambda>c. (gc_user_id c, gc_list_create_attempted c)) (update_where hit f cs)
     = map (\<lambda>c. (gc_user_id c, gc_list_create_attempted c)) cs"
  by (induction cs) (auto simp: update_where_def)

lemma no_connection: "connection_of user w = None \<longleftrightarrow> user \<notin> fst ` set (list_flags w)"
  by (force simp: connection_of_def list_flags_def row_by_None)

lemma configure_steady: "keeps (steady user b n) (handle_op (configure_google_tasks env sf rf u enabled selected expected))"
proof (rule keeps_handle_op)
  fix w a w' and p :: "'a \<times> exchange_log"
  assume ok: "steady user b n (w, p)" and res: "configure_google_tasks env sf rf u enabled selected expected w = Inr (a, w')"
  show "steady user b n (w', p)"
  proof (cases "connection_of u w")
    case None
    obtain l z where "w' = w\<lparr>gt_connections := gt_connections w @ [new_connection u enabled l z]\<rparr>"
      using res None by (auto simp: configure_google_tasks_def Let_def)
    then have "list_flags w' = list_flags w @ [(u, False)]" by (simp add: list_flags_def new_connection_def)
    with ok None show ?thesis by (auto simp: steady_def one_connection_def attempted_def no_connection)
  next
    case (Some c)
    obtain l z where "w' = w\<lparr>gt_connections := update_where (\<lambda>c. gc_user_id c = u) (set_connection enabled l z) (gt_connections w)\<rparr>"
      using res Some by (auto simp: configure_google_tasks_def Let_def)
    then have "list_flags w' = list_flags w" by (simp add: list_flags_def list_flags_update set_connection_def)
    with ok show ?thesis by (rule steady_frame)
  qed
qed

text \<open>The service with a client that logs its exchanges.\<close>

definition logged_service ::
  "('p oauth \<times> 'p tasks_provider) option \<Rightarrow> (('p \<times> exchange_log) oauth \<times> ('p \<times> exchange_log) tasks_provider) option" where
  "logged_service service = map_option (\<lambda>(oauth, http). (logged_oauth oauth, logged http)) service"

lemma keeps_handle_of: "(\<And>a. r = Inr a \<Longrightarrow> keeps P (f a)) \<Longrightarrow> keeps P (handle_bind (handle_of r) f)"
  by (cases r) (auto simp: keeps_def handle_bind_def handle_of_def)

lemma logged_serviceD:
  "logged_service service = Some (oauth, http) \<Longrightarrow> \<exists>oauth' http'. oauth = logged_oauth oauth' \<and> http = logged http'"
  by (cases service) (auto simp: logged_service_def)

lemma job_client_keeps: "keeps P m \<Longrightarrow> keeps P (job_client m)"
  by (auto simp: keeps_def job_client_def split: prod.split sum.split) (metis snd_conv)+

lemma token_steady: "keeps (steady user b n) (tasks_token (logged_service service) u)"
  unfolding tasks_token_def
  by (intro keeps_handle_of keeps_handler) (auto dest!: logged_serviceD intro!: steady_quiet keeps_handler token_quiet)

lemma lists_steady: "keeps (steady user b n) (handle_job (job_client (client_lists (logged http) token)))"
  by (intro keeps_handler job_client_keeps steady_quiet lists_quiet)

lemma available_steady: "keeps (steady user b n) (list_available (logged_service service) u list)"
  unfolding list_available_def
  by (intro keeps_handler(1) [OF token_steady] keeps_handle_of)
    (auto dest!: logged_serviceD intro!: keeps_handler(1) [OF lists_steady] keeps_handler(2))

lemma attempted_iff: "attempted v w \<longleftrightarrow> (\<exists>c \<in> set (gt_connections w). gc_user_id c = v \<and> gc_list_create_attempted c)"
  by (force simp: attempted_def list_flags_def)

lemma claim_list_once:
  assumes "one_connection w" "claim_list u expected w = (k, w')"
  shows "one_connection w' \<and> (attempted v w \<longrightarrow> attempted v w') \<and> (k = 1 \<longrightarrow> \<not> attempted u w \<and> attempted u w')"
proof (cases "expected = 0")
  case True
  show ?thesis
  proof (cases "connection_of u w")
    case None
    with True assms(2) have "k = 1" "list_flags w' = list_flags w @ [(u, True)]"
      by (auto simp: claim_list_def list_flags_def new_connection_def)
    with None assms(1) show ?thesis by (force simp: one_connection_def attempted_def no_connection)
  qed (use True assms in \<open>auto simp: claim_list_def\<close>)
next
  case False
  define hit where "hit = (\<lambda>c :: gt_connection_row. gc_user_id c = u \<and> gc_version c = expected \<and> \<not> gc_list_create_attempted c \<and> \<not> gc_enabled c
                          \<and> gc_task_list_id c = None)"
  from False assms(2) have k: "k = length (filter hit (gt_connections w))"
    and w': "gt_connections w' = update_where hit (\<lambda>c. c\<lparr>gc_list_create_attempted := True, gc_version := gc_version c + 1\<rparr>) (gt_connections w)"
    by (auto simp: claim_list_def hit_def Let_def)
  have "map fst (list_flags w') = map fst (list_flags w)" by (simp add: list_flags_def w' update_where_def comp_def)
  moreover have kept: "c \<in> set (gt_connections w')" if "c \<in> set (gt_connections w)" "gc_list_create_attempted c" for c
    using that by (auto simp: w' update_where_def hit_def)
  then have "attempted v w \<longrightarrow> attempted v w'" by (auto simp: attempted_iff)
  moreover have "\<not> attempted u w \<and> attempted u w'" if one: "k = 1"
  proof -
    obtain c where c: "c \<in> set (gt_connections w)" "hit c" using one k by (metis filter_False length_0_conv zero_neq_one)
    let ?c = "c\<lparr>gc_list_create_attempted := True, gc_version := gc_version c + 1\<rparr>"
    have "?c \<in> set (gt_connections w')" using c by (simp add: w' update_where_def)
    then have "attempted u w'" unfolding attempted_iff using c(2) by (intro bexI [of _ ?c]) (simp_all add: hit_def)
    moreover have "(u, False) \<in> set (list_flags w)" using c unfolding list_flags_def set_map by (intro image_eqI [of _ _ c]) (simp_all add: hit_def)
    then have "\<not> attempted u w" using assms(1) by (auto simp: attempted_def one_connection_def dest: eq_key_imp_eq_value)
    ultimately show ?thesis by simp
  qed
  ultimately show ?thesis using assms(1) by (simp add: one_connection_def)
qed

lemma send_once:
  "send_tasks (logged http) req (w, p, log) = (r, w', p', log') \<Longrightarrow> list_flags w' = list_flags w \<and> creations log' \<le> Suc (creations log)"
  by (auto simp: send_tasks_def logged_def list_flags_def creations_def Let_def split: if_splits prod.splits option.splits)

lemma create_once:
  "client_create_list (logged http) token (w, p, log) = (r, w', p', log') \<Longrightarrow> list_flags w' = list_flags w \<and> creations log' \<le> Suc (creations log)"
  by (auto simp: client_create_list_def client_bind_def client_of_def dest!: send_once split: prod.splits sum.splits)

section \<open>Requests\<close>

datatype tasks_call =
    CreateListCall int
  | ConfigureCall tasks_env bool bool google_tasks_settings_request

fun serve_call ::
  "('p oauth \<times> 'p tasks_provider) option \<Rightarrow> int \<Rightarrow> uuid \<Rightarrow> tasks_call \<Rightarrow> login_rate_limiter \<Rightarrow> world \<times> 'p \<Rightarrow> (world \<times> 'p) \<times> login_rate_limiter" where
  "serve_call service t user (CreateListCall expected) l s = snd (tasks_create_list service t user expected l s)"
| "serve_call service t user (ConfigureCall env sync_free row_free req) l s = snd (tasks_configure service env sync_free row_free t user req l s)"

text \<open>How many lists the requests of a user create, among the requests of all users in the order they are served.\<close>

fun lists_created ::
  "('p oauth \<times> 'p tasks_provider) option \<Rightarrow> uuid \<Rightarrow> (int \<times> uuid \<times> tasks_call) list \<Rightarrow> login_rate_limiter \<Rightarrow> world \<times> 'p \<times> exchange_log \<Rightarrow> nat" where
  "lists_created service user [] l s = 0"
| "lists_created service user ((t, u, c) # calls) l s =
     (let (s', l') = serve_call (logged_service service) t u c l s
      in (if u = user then creations (snd (snd s')) - creations (snd (snd s)) else 0) + lists_created service user calls l' s')"

lemma keyed_cases:
  "snd (keyed t key m l s) = (s', l') \<Longrightarrow> s' = s \<or> s' = snd (m s)"
  by (auto simp: keyed_def split: prod.splits sum.splits)

lemma keyed_keeps: "keeps P m \<Longrightarrow> P s \<Longrightarrow> snd (keyed t key m l s) = (s', l') \<Longrightarrow> P s'"
  by (drule keyed_cases) (auto simp: keeps_def simp del: split_paired_All)

lemma configure_call:
  assumes "steady user b n s" "serve_call (logged_service service) t u (ConfigureCall env sf rf req) l s = (s', l')"
  shows "steady user b n s'"
  using assms(2) unfolding serve_call.simps tasks_configure_def Let_def
  by (rule keyed_keeps [rotated 2])
    (use assms(1) in \<open>auto intro!: keeps_handler(1) configure_steady available_steady enqueue_steady keeps_handler(2)\<close>)

lemma claimed_list:
  assumes w: "one_connection w" and claim: "claim_list u expected w = (k, w1)" and k: "k = 1"
    and post: "handle_job (job_client (client_create_list (logged http) token)) (w1, p, log) = (r, w', p', log')"
  shows "one_connection w' \<and> (attempted v w \<longrightarrow> attempted v w') \<and> \<not> attempted u w \<and> attempted u w' \<and> creations log' \<le> Suc (creations log)"
proof -
  obtain r1 where "client_create_list (logged http) token (w1, p, log) = (r1, w', p', log')"
    using post by (auto simp: handle_job_def job_client_def split: prod.splits sum.splits)
  from create_once [OF this] claim_list_once [OF w claim, of v] k show ?thesis
    by (simp add: one_connection_def attempted_def)
qed

lemma create_list_body:
  assumes w: "one_connection w"
    and res: "handle_bind (handle_op (\<lambda>w. Inr (claim_list u expected w))) (\<lambda>claimed.
        handle_bind (handle_of (require (claimed = 1) e)) (\<lambda>_.
        handle_bind (handle_of (ok_or (logged_service service) e')) (\<lambda>(_, http).
        handle_job (job_client (client_create_list http token))))) (w, p, log) = (r, w', p', log')"
  shows "one_connection w' \<and> (attempted v w \<longrightarrow> attempted v w')
    \<and> creations log' \<le> creations log + (if attempted u w then 0 else 1) \<and> (creations log < creations log' \<longrightarrow> attempted u w')"
proof -
  obtain k w1 where claim: "claim_list u expected w = (k, w1)" by (metis prod.exhaust)
  note once = claim_list_once [OF w claim, of v]
  show ?thesis
  proof (cases "k = 1 \<and> logged_service service \<noteq> None")
    case True
    then obtain oauth http where http: "logged_service service = Some (oauth, logged http)" by (metis logged_serviceD not_None_eq prod.exhaust)
    have "handle_job (job_client (client_create_list (logged http) token)) (w1, p, log) = (r, w', p', log')"
      using res True http by (simp add: handle_bind_def handle_of_def handle_op_def claim)
    from claimed_list [OF w claim _ this, of v] True show ?thesis by auto
  next
    case False
    then have "w' = w1 \<and> log' = log" using res claim
      by (cases "k = 1"; cases "logged_service service") (simp_all add: handle_bind_def handle_of_def handle_op_def)
    with once show ?thesis by auto
  qed
qed

lemma create_call:
  assumes one: "one_connection (fst s)" and call: "serve_call (logged_service service) t u (CreateListCall expected) l s = (s', l')"
  shows "one_connection (fst s') \<and> (attempted v (fst s) \<longrightarrow> attempted v (fst s'))
    \<and> creations (snd (snd s')) \<le> creations (snd (snd s)) + (if attempted u (fst s) then 0 else 1)
    \<and> (creations (snd (snd s)) < creations (snd (snd s')) \<longrightarrow> attempted u (fst s'))"
proof -
  obtain r1 w1 p1 log1 where token: "tasks_token (logged_service service) u s = (r1, w1, p1, log1)" by (metis prod.exhaust)
  have "steady v' (attempted v' (fst s)) (creations (snd (snd s))) (w1, p1, log1)" for v'
    by (rule keepsD [OF token_steady _ token]) (simp add: steady_def one)
  then have mid: "one_connection w1" "creations log1 = creations (snd (snd s))" "\<And>v'. attempted v' (fst s) \<Longrightarrow> attempted v' w1"
    by (simp_all add: steady_def)
  let ?rest = "\<lambda>token. handle_bind (handle_op (\<lambda>w. Inr (claim_list u expected w))) (\<lambda>claimed.
        handle_bind (handle_of (require (claimed = 1)
          (Conflict ''Refresh the lists and choose an existing list. An earlier creation may already have succeeded.''))) (\<lambda>_.
        handle_bind (handle_of (ok_or (logged_service service) (NotConfigured ''Google Tasks''))) (\<lambda>(_, http).
        handle_job (job_client (client_create_list http token)))))"
  have "s' = s \<or> s' = snd (handle_bind (tasks_token (logged_service service) u) ?rest s)"
    using call by (auto simp: tasks_create_list_def dest!: keyed_cases)
  then consider "s' = s" | "s' = (w1, p1, log1)" | (post) a where "s' = snd (?rest a (w1, p1, log1))"
    using token by (cases r1) (auto simp: handle_bind_def)
  then show ?thesis
  proof cases
    case post
    obtain r w' p' log' where rest: "?rest a (w1, p1, log1) = (r, w', p', log')" by (metis prod.exhaust)
    from create_list_body [OF mid(1) rest, of v] mid(2) mid(3) [of v] mid(3) [of u] post rest show ?thesis
      by (auto split: if_splits)
  qed (use one mid in auto)
qed

lemma lists_created_bound:
  "one_connection (fst s) \<Longrightarrow> lists_created service user calls l s \<le> (if attempted user (fst s) then 0 else 1)"
proof (induction service user calls l s rule: lists_created.induct)
  case (2 service user t u c calls l s)
  obtain s' l' where call: "serve_call (logged_service service) t u c l s = (s', l')" by (metis prod.exhaust)
  note IH = "2.IH" [OF call [symmetric] refl]
  show ?case
  proof (cases c)
    case (CreateListCall expected)
    from create_call [OF "2.prems" call [unfolded CreateListCall], of user] IH show ?thesis
      by (auto simp: call split: if_splits)
  next
    case (ConfigureCall env sf rf req)
    have "steady user (attempted user (fst s)) (creations (snd (snd s))) s'"
      by (rule configure_call [OF _ call [unfolded ConfigureCall]]) (simp add: steady_def "2.prems")
    with IH show ?thesis by (auto simp: call steady_def split: if_splits)
  qed
qed simp

text \<open>
  C40. Whatever requests the users make, in whatever order they are served and whatever Google and the refresh of tokens answer (lost
  answers included), the requests of one user send at most one creation of a task list: the handler records the
  attempt before it calls Google, and saving the settings never clears it. Here every user has at most one connection.
\<close>

theorem lists_are_created_at_most_once:
  assumes "distinct (map gc_user_id (gt_connections w))"
  shows "lists_created service user calls l (w, p, log) \<le> 1"
proof -
  have "one_connection w" using assms by (simp add: one_connection_def list_flags_def comp_def)
  from lists_created_bound [of "(w, p, log)" service user calls l] this show ?thesis by (auto split: if_splits)
qed

text \<open>A client whose answers are lost: the first attempt is sent, the one after it is not.\<close>

definition unconnected :: world where
  "unconnected = example_tasks_world\<lparr>gt_connections := []\<rparr>"

definition example_limiter :: login_rate_limiter where
  "example_limiter = \<lparr>rl_attempts = [], rl_limit = 5, rl_window = 60, rl_message = []\<rparr>"

lemma first_attempt: "lists_created (Some (example_tokens, lost_answers)) 7 [(0, 7, CreateListCall 0)] example_limiter (unconnected, (), []) = 1"
  by (simp add: lost_simps lost_examples unconnected_def example_limiter_def tasks_create_list_def keyed_def check_key_def entries_of_def
      tasks_token_def handle_bind_def handle_of_def handle_read_def handle_op_def handle_job_def logged_service_def claim_list_def
      client_create_list_def creations_def creates_list_def)

theorem lists_are_created_at_most_once_witness:
  "lists_created (Some (example_tokens, lost_answers)) 7 [(0, 7, CreateListCall 0)] example_limiter (unconnected, (), []) = 1
   \<and> lists_created (Some (example_tokens, lost_answers)) 7 [(0, 7, CreateListCall 0), (1, 7, CreateListCall 1)] example_limiter (unconnected, (), []) \<le> 1"
  using first_attempt lists_are_created_at_most_once [of unconnected] by (simp add: unconnected_def del: lists_created.simps)

end
