(* ===== verification/Handlers.thy ===== *)
theory Handlers
  imports AccountData SyncRoutes TaskDelete CalendarMove DailyReview
begin

text \<open>
  The handlers of the remaining routes (\<open>routes.rs\<close>, \<open>calendar_routes.rs\<close>, \<open>calendar_move_routes.rs\<close>, \<open>note_routes.rs\<close>,
  \<open>task_delete_routes.rs\<close>, \<open>import_routes.rs\<close>, \<open>saved_views.rs\<close>, \<open>export_routes.rs\<close>, \<open>operations.rs\<close>), with their extractors
  (\<open>extract.rs\<close>). A handler takes the request and the running server: the database, the outside world, the write quotas and the
  two rate limiters. What serde, the object store, Google and the clocks answer are arguments. A plain \<open>Path\<close> or \<open>Query\<close>
  refuses like \<open>ApiPath\<close> and \<open>ApiQuery\<close>, with the text outside of the error envelope.
\<close>

section \<open>The server\<close>

record 'p server =
  sr_world :: world
  sr_outside :: 'p
  sr_limits :: request_limits
  sr_login :: login_rate_limiter
  sr_action :: login_rate_limiter

text \<open>The decoders of the request types: a value, or the status and the text of the rejection.\<close>

type_synonym 'a decoder = "string \<Rightarrow> (nat \<times> string) + 'a"

record scoped_task_update_request =
  stu_task :: update_task_request
  stu_recurrence_scope :: "recurrence_edit_scope option"

record search_query =
  sq_q :: string
  sq_limit :: "int option"

record google_task_resolution_request =
  grr_conflict_id :: uuid
  grr_choice :: task_conflict_choice

record decoders =
  de_uuid :: "uuid decoder"
  de_date :: "date decoder"
  de_settings :: "update_user_settings_request decoder"
  de_focus :: "update_daily_focus_request decoder"
  de_manual :: "bool decoder"
  de_complete_review :: "complete_daily_review_request decoder"
  de_create_project :: "create_project_request decoder"
  de_update_project :: "update_project_request decoder"
  de_create_task :: "create_task_request decoder"
  de_update_task :: "scoped_task_update_request decoder"
  de_reorder :: "reorder_tasks_request decoder"
  de_version :: "expected_version_query decoder"
  de_page :: "page_query decoder"
  de_task_list :: "task_list_query decoder"
  de_create_calendar :: "create_calendar_request decoder"
  de_update_calendar :: "update_calendar_request decoder"
  de_create_event :: "create_calendar_event_request decoder"
  de_update_event :: "update_calendar_event_request decoder"
  de_event_query :: "calendar_event_query decoder"
  de_move :: "move_calendar_item_request decoder"
  de_create_note :: "create_note_request decoder"
  de_update_note :: "update_note_request decoder"
  de_search :: "search_query decoder"
  de_saved_view :: "create_saved_view_request decoder"
  de_import :: "todoist_import_request decoder"
  de_confirmation :: "string decoder"
  de_file_query :: "file_list_query decoder"
  de_delete_version :: "int decoder"
  de_tasks_settings :: "google_tasks_settings_request decoder"
  de_tasks_version :: "int decoder"
  de_tasks_resolution :: "google_task_resolution_request decoder"
  de_synchronization :: "create_synchronization_request decoder"
  de_resolution :: "resolve_sync_conflict_request decoder"
  de_login :: "google_login_query decoder"
  de_callback :: "google_callback_query decoder"

record 'p api =
  ap_platform :: platform
  ap_to_str :: "string \<Rightarrow> string option"
  ap_parse_uuid :: "string \<Rightarrow> uuid option"
  ap_header_ok :: "string \<Rightarrow> bool"
  ap_mime_ok :: "string \<Rightarrow> bool"
  ap_fts :: "string \<Rightarrow> string \<Rightarrow> bool"
  ap_times :: time_format
  ap_export_text :: "account_export \<Rightarrow> string option"
  ap_codec :: codec
  ap_zones :: tasks_env
  ap_size_of :: "snapshot \<Rightarrow> int"
  ap_decoders :: decoders
  ap_config :: config
  ap_state :: "'p app_state"
  ap_objects :: "'p object_store"
  ap_oauth :: "'p oauth option"
  ap_service :: "('p oauth \<times> 'p tasks_provider) option"
  ap_worker :: "(('p, nat) job \<times> ('p, bool) job) option"
  ap_validation :: "'p validation option"
  ap_docs :: "string list \<Rightarrow> nat"

text \<open>A request, with the clock readings, random values and free locks it meets.\<close>

record api_request =
  aq_parts :: parts
  aq_peer :: "string option"
  aq_query :: string
  aq_body :: string
  aq_body_late :: bool
  aq_multipart :: "(nat \<times> string) + (nat + multipart_field) list"
  aq_now :: int
  aq_random :: "string \<times> string \<times> string"
  aq_fresh :: string
  aq_clock :: "nat \<Rightarrow> timestamp"
  aq_clock_again :: "nat \<Rightarrow> timestamp"
  aq_sync_free :: bool
  aq_row_free :: bool
  aq_move_locks :: move_locks
  aq_delete_locks :: delete_locks
  aq_delete_locks_again :: delete_locks
  aq_database_ready :: bool
  aq_metrics_ready :: bool

type_synonym ('p, 'a) serving = "'p server \<Rightarrow> 'a app_result \<times> 'p server"

definition serve_bind :: "('p, 'a) serving \<Rightarrow> ('a \<Rightarrow> ('p, 'b) serving) \<Rightarrow> ('p, 'b) serving" where
  "serve_bind m f s = (case m s of (Inl e, s) \<Rightarrow> (Inl e, s) | (Inr a, s) \<Rightarrow> f a s)"

definition serve_of :: "'a app_result \<Rightarrow> ('p, 'a) serving" where
  "serve_of r s = (r, s)"

definition serve_handler :: "('p, 'a) handler \<Rightarrow> ('p, 'a) serving" where
  "serve_handler h s = (let (r, w, p) = h (sr_world s, sr_outside s) in (r, s\<lparr>sr_world := w, sr_outside := p\<rparr>))"

definition in_store :: "(world \<Rightarrow> 'a store_result) \<Rightarrow> ('p, 'a) serving" where
  "in_store f = serve_handler (handle_op f)"

definition from_store :: "(world \<Rightarrow> 'a app_result) \<Rightarrow> ('p, 'a) serving" where
  "from_store f = serve_handler (handle_read f)"

text \<open>Handlers under one of the rate limiters.\<close>

type_synonym ('p, 'a) limited_handler =
  "login_rate_limiter \<Rightarrow> world \<times> 'p \<Rightarrow> 'a app_result \<times> (world \<times> 'p) \<times> login_rate_limiter"

definition under_login :: "('p, 'a) limited_handler \<Rightarrow> ('p, 'a) serving" where
  "under_login h s = (let (r, (w, p), l) = h (sr_login s) (sr_world s, sr_outside s)
                      in (r, s\<lparr>sr_world := w, sr_outside := p, sr_login := l\<rparr>))"

definition under_action :: "('p, 'a) limited_handler \<Rightarrow> ('p, 'a) serving" where
  "under_action h s = (let (r, (w, p), l) = h (sr_action s) (sr_world s, sr_outside s)
                       in (r, s\<lparr>sr_world := w, sr_outside := p, sr_action := l\<rparr>))"

definition with_status :: "nat \<Rightarrow> ('p, 'a) serving \<Rightarrow> ('p, nat \<times> 'a) serving" where
  "with_status status m = serve_bind m (\<lambda>a. serve_of (Inr (status, a)))"

section \<open>Extractors\<close>

definition rejected :: "nat \<times> string \<Rightarrow> app_error" where
  "rejected r = (case r of (status, message) \<Rightarrow> InvalidRequest status message)"

definition api_json :: "'a decoder \<Rightarrow> api_request \<Rightarrow> ('p, 'a) serving" where
  "api_json decode req =
     (if aq_body_late req then serve_of (Inl (InvalidRequest 408 ''JSON request body timed out''))
      else serve_of (map_sum rejected id (decode (aq_body req))))"

definition api_query :: "'a decoder \<Rightarrow> api_request \<Rightarrow> ('p, 'a) serving" where
  "api_query decode req = serve_of (map_sum rejected id (decode (aq_query req)))"

definition api_path :: "'a decoder \<Rightarrow> string \<Rightarrow> ('p, 'a) serving" where
  "api_path decode segment = serve_of (map_sum rejected id (decode segment))"

definition as_user :: "'p api \<Rightarrow> api_request \<Rightarrow> (uuid \<Rightarrow> parts \<Rightarrow> ('p, 'a) serving) \<Rightarrow> ('p, 'a) serving" where
  "as_user a req f s =
     (case current_user (ap_platform a) (ap_to_str a) (ap_parse_uuid a) (st_allow_insecure_dev_auth (ap_state a)) (aq_now req)
        (aq_parts req) (sr_world s) (sr_limits s) of
        (Inl e, p, w, l) \<Rightarrow> (Inl e, s\<lparr>sr_world := w, sr_limits := l\<rparr>)
      | (Inr user, p, w, l) \<Rightarrow> f user p (s\<lparr>sr_world := w, sr_limits := l\<rparr>))"

definition as_admin :: "'p api \<Rightarrow> api_request \<Rightarrow> ('p, 'a) serving \<Rightarrow> ('p, 'a) serving" where
  "as_admin a req m = as_user a req (\<lambda>user _.
     serve_bind (serve_of (require (user \<in> cf_admin_user_ids (ap_config a)) (Forbidden ''operations access is restricted to the owner''))) (\<lambda>_. m))"

abbreviation "uuid_of a \<equiv> api_path (de_uuid (ap_decoders a))"

abbreviation "date_of a \<equiv> api_path (de_date (ap_decoders a))"

abbreviation "json field a \<equiv> api_json (field (ap_decoders a))"

abbreviation "queried field a \<equiv> api_query (field (ap_decoders a))"

section \<open>System\<close>

definition health :: "('p, nat \<times> string) serving" where
  "health = with_status 200 (serve_of (Inr ''ok''))"

definition database_error :: app_error where
  "database_error = Database (OtherSqlxError ''PoolTimedOut'')"

definition ready :: "api_request \<Rightarrow> ('p, nat \<times> string) serving" where
  "ready req = with_status 200 (serve_of (bind_res (require (aq_database_ready req) database_error) (\<lambda>_. Inr ''ready'')))"

definition record_reminder_delivery :: "'p api \<Rightarrow> api_request \<Rightarrow> ('p, nat \<times> unit) serving" where
  "record_reminder_delivery a req = with_status 204 (as_user a req (\<lambda>user _. serve_of (Inr ())))"

definition worker_route :: "'p api \<Rightarrow> api_request \<Rightarrow> ('p, nat \<times> nat \<times> bool) serving" where
  "worker_route a req = with_status 200 (serve_handler
     (run_synchronization_worker (ap_platform a) (ap_to_str a) (cf_worker_trigger_token (ap_config a)) (ap_worker a) (pt_headers (aq_parts req))))"

definition capability :: "'p api \<Rightarrow> api_request \<Rightarrow> ('p, nat \<times> bool) serving" where
  "capability a req = with_status 200 (as_user a req (\<lambda>user _. serve_of (Inr (user \<in> cf_admin_user_ids (ap_config a)))))"

record operations_limits =
  ol_max_user_accounts :: "int option"
  ol_max_total_file_storage_bytes :: int
  ol_max_user_file_storage_bytes :: int
  ol_max_file_size_bytes :: nat

record operations_snapshot =
  os_as_of :: timestamp
  os_database_ok :: bool
  os_metrics :: "operations_metrics option"
  os_limits :: operations_limits

definition operations_limits_of :: "config \<Rightarrow> operations_limits" where
  "operations_limits_of cf =
     \<lparr>ol_max_user_accounts = cf_max_user_accounts cf, ol_max_total_file_storage_bytes = cf_max_total_file_storage_bytes cf,
      ol_max_user_file_storage_bytes = cf_max_user_file_storage_bytes cf, ol_max_file_size_bytes = cf_max_file_size_bytes cf\<rparr>"

definition operations_snapshot_route :: "'p api \<Rightarrow> api_request \<Rightarrow> ('p, nat \<times> operations_snapshot) serving" where
  "operations_snapshot_route a req = with_status 200 (as_admin a req (from_store (\<lambda>w. Inr
     \<lparr>os_as_of = utc_now (ap_platform a), os_database_ok = aq_database_ready req,
      os_metrics = (if aq_database_ready req \<and> aq_metrics_ready req then Some (store_operations_metrics w) else None),
      os_limits = operations_limits_of (ap_config a)\<rparr>)))"

section \<open>Sessions and settings\<close>

definition development_session_route :: "'p api \<Rightarrow> api_request \<Rightarrow> ('p, nat \<times> string \<times> session_response) serving" where
  "development_session_route a req = with_status 200 (serve_handler
     (development_session (ap_platform a) (ap_to_str a) (ap_parse_uuid a) (ap_header_ok a) (ap_state a) (pt_headers (aq_parts req))))"

definition current_session_route :: "'p api \<Rightarrow> api_request \<Rightarrow> ('p, nat \<times> session_response) serving" where
  "current_session_route a req = with_status 200 (as_user a req (\<lambda>user p. serve_handler (current_session user (pt_session_csrf p))))"

definition logout_route :: "'p api \<Rightarrow> api_request \<Rightarrow> ('p, nat \<times> string) serving" where
  "logout_route a req = with_status 204 (as_user a req (\<lambda>user p.
     serve_handler (logout (ap_platform a) (ap_to_str a) (ap_header_ok a) (ap_state a) (pt_headers p))))"

definition get_settings :: "'p api \<Rightarrow> api_request \<Rightarrow> ('p, nat \<times> user_settings) serving" where
  "get_settings a req = with_status 200 (as_user a req (\<lambda>user _. in_store (\<lambda>w. Inr (store_user_settings user w))))"

definition update_settings :: "'p api \<Rightarrow> api_request \<Rightarrow> ('p, nat \<times> user_settings) serving" where
  "update_settings a req = with_status 200 (as_user a req (\<lambda>user _.
     serve_bind (json de_settings a req) (\<lambda>r. in_store (update_user_settings user r))))"

text \<open>A redirect answers with the status of its location.\<close>

definition with_redirect :: "('p, redirect_answer) serving \<Rightarrow> ('p, nat \<times> redirect_answer) serving" where
  "with_redirect m = serve_bind m (\<lambda>r. serve_of (Inr (case rd_location r of SeeOther _ \<Rightarrow> 303 | TemporaryRedirect _ \<Rightarrow> 307, r)))"

definition google_auth_start_route :: "'p api \<Rightarrow> api_request \<Rightarrow> ('p, nat \<times> redirect_answer) serving" where
  "google_auth_start_route a req = with_redirect (serve_bind (queried de_login a req) (\<lambda>q.
     under_login (google_auth_start (ap_platform a) (ap_to_str a) (ap_header_ok a) (ap_state a) (aq_random req) (aq_fresh req) (aq_now req) q
       (pt_headers (aq_parts req)) (aq_peer req))))"

definition google_calendar_connect_route :: "'p api \<Rightarrow> api_request \<Rightarrow> ('p, nat \<times> redirect_answer) serving" where
  "google_calendar_connect_route a req = with_redirect (as_user a req (\<lambda>user p.
     under_login (google_calendar_connect_start (ap_platform a) (ap_to_str a) (ap_header_ok a) (ap_state a) (aq_random req) (aq_fresh req)
       (aq_now req) user (pt_headers p) (aq_peer req))))"

definition google_tasks_connect_route :: "'p api \<Rightarrow> api_request \<Rightarrow> ('p, nat \<times> redirect_answer) serving" where
  "google_tasks_connect_route a req = with_redirect (as_user a req (\<lambda>user p.
     under_login (google_tasks_connect_start (ap_platform a) (ap_to_str a) (ap_header_ok a) (ap_state a) (aq_random req) (aq_fresh req)
       (aq_now req) user (pt_headers p) (aq_peer req))))"

definition google_auth_callback_route :: "'p api \<Rightarrow> api_request \<Rightarrow> ('p, nat \<times> redirect_answer) serving" where
  "google_auth_callback_route a req = with_redirect (serve_bind (queried de_callback a req) (\<lambda>q.
     serve_handler (google_auth_callback (ap_platform a) (ap_to_str a) (ap_header_ok a) (ap_state a) q (pt_headers (aq_parts req)))))"

section \<open>Daily planning\<close>

definition get_daily_plan :: "'p api \<Rightarrow> string \<Rightarrow> api_request \<Rightarrow> ('p, nat \<times> daily_plan) serving" where
  "get_daily_plan a date req = with_status 200 (as_user a req (\<lambda>user _.
     serve_bind (date_of a date) (\<lambda>d. from_store (\<lambda>w. Inr (store_daily_plan user d w)))))"

definition update_daily_focus_route :: "'p api \<Rightarrow> string \<Rightarrow> api_request \<Rightarrow> ('p, nat \<times> daily_plan) serving" where
  "update_daily_focus_route a date req = with_status 200 (as_user a req (\<lambda>user _.
     serve_bind (date_of a date) (\<lambda>d. serve_bind (json de_focus a req) (\<lambda>r. in_store (update_daily_focus user d r)))))"

definition start_daily_review_route :: "'p api \<Rightarrow> string \<Rightarrow> api_request \<Rightarrow> ('p, nat \<times> daily_review option) serving" where
  "start_daily_review_route a date req = with_status 200 (as_user a req (\<lambda>user _.
     serve_bind (date_of a date) (\<lambda>d. serve_bind (json de_manual a req) (\<lambda>manual.
     in_store (\<lambda>w. Inr (start_daily_review user d manual w))))))"

definition complete_daily_review_route :: "'p api \<Rightarrow> string \<Rightarrow> api_request \<Rightarrow> ('p, nat \<times> daily_review) serving" where
  "complete_daily_review_route a date req = with_status 200 (as_user a req (\<lambda>user _.
     serve_bind (date_of a date) (\<lambda>d. serve_bind (json de_complete_review a req) (\<lambda>r. in_store (complete_daily_review user d r)))))"

section \<open>Projects and tasks\<close>

definition list_labels_route :: "'p api \<Rightarrow> api_request \<Rightarrow> ('p, nat \<times> string list) serving" where
  "list_labels_route a req = with_status 200 (as_user a req (\<lambda>user _. from_store (\<lambda>w. Inr (list_labels (ap_platform a) user w))))"

definition create_project_route :: "'p api \<Rightarrow> api_request \<Rightarrow> ('p, nat \<times> project) serving" where
  "create_project_route a req = with_status 201 (as_user a req (\<lambda>user _.
     serve_bind (json de_create_project a req) (\<lambda>r. in_store (create_project user r))))"

definition list_projects_route :: "'p api \<Rightarrow> api_request \<Rightarrow> ('p, nat \<times> project_page) serving" where
  "list_projects_route a req = with_status 200 (as_user a req (\<lambda>user _.
     serve_bind (queried de_page a req) (\<lambda>q.
     from_store (\<lambda>w. Inr (list_projects user (pq_cursor q) (page_query_normalized_limit q) w)))))"

definition update_project_route :: "'p api \<Rightarrow> string \<Rightarrow> api_request \<Rightarrow> ('p, nat \<times> project) serving" where
  "update_project_route a i req = with_status 200 (as_user a req (\<lambda>user _.
     serve_bind (uuid_of a i) (\<lambda>i. serve_bind (json de_update_project a req) (\<lambda>r. in_store (update_project user i r)))))"

definition delete_project_route :: "'p api \<Rightarrow> string \<Rightarrow> api_request \<Rightarrow> ('p, nat \<times> unit) serving" where
  "delete_project_route a i req = with_status 204 (as_user a req (\<lambda>user _.
     serve_bind (uuid_of a i) (\<lambda>i. serve_bind (queried de_version a req) (\<lambda>q. in_store (delete_project user i (ev_expected_version q))))))"

definition create_task_route :: "'p api \<Rightarrow> api_request \<Rightarrow> ('p, nat \<times> task) serving" where
  "create_task_route a req = with_status 201 (as_user a req (\<lambda>user _.
     serve_bind (json de_create_task a req) (\<lambda>r.
     under_action (keyed (aq_now req) (''capture:'' @ show_uuid user) (handle_op (create_task (ap_platform a) user r))))))"

definition list_tasks_route :: "'p api \<Rightarrow> api_request \<Rightarrow> ('p, nat \<times> task_page) serving" where
  "list_tasks_route a req = with_status 200 (as_user a req (\<lambda>user _.
     serve_bind (queried de_task_list a req) (\<lambda>q.
     from_store (\<lambda>w. Inr (list_tasks user (tlq_project_id q) (tlq_cursor q) (task_list_query_normalized_limit q) w)))))"

definition reorder_tasks_route :: "'p api \<Rightarrow> api_request \<Rightarrow> ('p, nat \<times> unit) serving" where
  "reorder_tasks_route a req = with_status 204 (as_user a req (\<lambda>user _.
     serve_bind (json de_reorder a req) (\<lambda>r. in_store (reorder_tasks user r))))"

definition update_task_route :: "'p api \<Rightarrow> string \<Rightarrow> api_request \<Rightarrow> ('p, nat \<times> task) serving" where
  "update_task_route a i req = with_status 200 (as_user a req (\<lambda>user _.
     serve_bind (uuid_of a i) (\<lambda>i. serve_bind (json de_update_task a req) (\<lambda>r.
     in_store (update_task_scoped (ap_platform a) user i (stu_task r) (stu_recurrence_scope r))))))"

definition delete_task_route :: "'p api \<Rightarrow> string \<Rightarrow> api_request \<Rightarrow> ('p, nat \<times> unit) serving" where
  "delete_task_route a i req = with_status 204 (as_user a req (\<lambda>user _.
     serve_bind (uuid_of a i) (\<lambda>i. serve_bind (queried de_version a req) (\<lambda>q. in_store (delete_task user i (ev_expected_version q))))))"

definition delete_task_with_undo_route :: "'p api \<Rightarrow> string \<Rightarrow> api_request \<Rightarrow> ('p, nat \<times> task_delete_undo) serving" where
  "delete_task_with_undo_route a i req = with_status 200 (as_user a req (\<lambda>user _.
     serve_bind (uuid_of a i) (\<lambda>i. serve_bind (json de_delete_version a req) (\<lambda>expected.
     serve_handler (delete_task_with_undo_validated (ap_platform a) (ap_codec a) (aq_delete_locks req) (aq_clock req)
       (aq_delete_locks_again req) (aq_clock_again req) (ap_size_of a) (ap_validation a) user i expected)))))"

definition list_task_delete_undos_route :: "'p api \<Rightarrow> api_request \<Rightarrow> ('p, nat \<times> task_delete_undo list) serving" where
  "list_task_delete_undos_route a req = with_status 200 (as_user a req (\<lambda>user _.
     from_store (\<lambda>w. Inr (list_task_delete_undos (aq_clock req 0) user w))))"

definition undo_task_delete_route :: "'p api \<Rightarrow> string \<Rightarrow> api_request \<Rightarrow> ('p, nat \<times> unit) serving" where
  "undo_task_delete_route a i req = with_status 204 (as_user a req (\<lambda>user _.
     serve_bind (uuid_of a i) (\<lambda>i. serve_handler (undo_task_delete (aq_delete_locks req) (aq_clock req) (ap_validation a) user i))))"

definition import_todoist :: "'p api \<Rightarrow> api_request \<Rightarrow> ('p, nat \<times> todoist_import_result) serving" where
  "import_todoist a req = with_status 201 (as_user a req (\<lambda>user _.
     serve_bind (json de_import a req) (\<lambda>r.
     under_action (keyed (aq_now req) (''todoist-import:'' @ show_uuid user) (handle_op (import_todoist_project (ap_platform a) user r))))))"

section \<open>Calendars\<close>

definition list_calendars_route :: "'p api \<Rightarrow> api_request \<Rightarrow> ('p, nat \<times> calendar list) serving" where
  "list_calendars_route a req = with_status 200 (as_user a req (\<lambda>user _. in_store (\<lambda>w. Inr (list_calendars (ap_platform a) user w))))"

definition create_calendar_route :: "'p api \<Rightarrow> api_request \<Rightarrow> ('p, nat \<times> calendar) serving" where
  "create_calendar_route a req = with_status 201 (as_user a req (\<lambda>user _.
     serve_bind (json de_create_calendar a req) (\<lambda>r. in_store (create_calendar (ap_platform a) user r))))"

definition update_calendar_route :: "'p api \<Rightarrow> string \<Rightarrow> api_request \<Rightarrow> ('p, nat \<times> calendar) serving" where
  "update_calendar_route a i req = with_status 200 (as_user a req (\<lambda>user _.
     serve_bind (uuid_of a i) (\<lambda>i. serve_bind (json de_update_calendar a req) (\<lambda>r.
     serve_bind (in_store (update_calendar (ap_platform a) user i r)) (\<lambda>c.
     serve_bind (if c_source c = Google \<and> c_selected c
                 then in_store (\<lambda>w. Inr (enqueue_expiring_calendar_watches (ap_platform a) (Some user) w)) else serve_of (Inr 0)) (\<lambda>_.
     serve_of (Inr c)))))))"

definition delete_calendar_route :: "'p api \<Rightarrow> string \<Rightarrow> api_request \<Rightarrow> ('p, nat \<times> unit) serving" where
  "delete_calendar_route a i req = with_status 204 (as_user a req (\<lambda>user _.
     serve_bind (uuid_of a i) (\<lambda>i. serve_bind (queried de_version a req) (\<lambda>q. in_store (delete_calendar user i (ev_expected_version q))))))"

definition list_events :: "'p api \<Rightarrow> api_request \<Rightarrow> ('p, nat \<times> calendar_event list) serving" where
  "list_events a req = with_status 200 (as_user a req (\<lambda>user _.
     serve_bind (queried de_event_query a req) (\<lambda>q. from_store (list_calendar_events user q))))"

definition create_event :: "'p api \<Rightarrow> api_request \<Rightarrow> ('p, nat \<times> calendar_event) serving" where
  "create_event a req = with_status 201 (as_user a req (\<lambda>user _.
     serve_bind (json de_create_event a req) (\<lambda>r. in_store (create_calendar_event (ap_platform a) user r))))"

definition update_event :: "'p api \<Rightarrow> string \<Rightarrow> api_request \<Rightarrow> ('p, nat \<times> calendar_event) serving" where
  "update_event a i req = with_status 200 (as_user a req (\<lambda>user _.
     serve_bind (uuid_of a i) (\<lambda>i. serve_bind (json de_update_event a req) (\<lambda>r. in_store (update_calendar_event (ap_platform a) user i r)))))"

definition delete_event :: "'p api \<Rightarrow> string \<Rightarrow> api_request \<Rightarrow> ('p, nat \<times> unit) serving" where
  "delete_event a i req = with_status 204 (as_user a req (\<lambda>user _.
     serve_bind (uuid_of a i) (\<lambda>i. serve_bind (queried de_version a req) (\<lambda>q. in_store (delete_calendar_event user i (ev_expected_version q))))))"

definition list_calendar_move_undos_route :: "'p api \<Rightarrow> api_request \<Rightarrow> ('p, nat \<times> calendar_move_undo list) serving" where
  "list_calendar_move_undos_route a req = with_status 200 (as_user a req (\<lambda>user _.
     in_store (\<lambda>w. Inr (list_calendar_move_undos (aq_move_locks req) (aq_clock req) user w))))"

definition move_event :: "'p api \<Rightarrow> string \<Rightarrow> api_request \<Rightarrow> ('p, nat \<times> calendar_move_undo) serving" where
  "move_event a i req = with_status 200 (as_user a req (\<lambda>user _.
     serve_bind (uuid_of a i) (\<lambda>i. serve_bind (json de_move a req) (\<lambda>r.
     in_store (move_calendar_item (aq_move_locks req) (aq_clock req) user i False r)))))"

definition move_task :: "'p api \<Rightarrow> string \<Rightarrow> api_request \<Rightarrow> ('p, nat \<times> calendar_move_undo) serving" where
  "move_task a i req = with_status 200 (as_user a req (\<lambda>user _.
     serve_bind (uuid_of a i) (\<lambda>i. serve_bind (json de_move a req) (\<lambda>r.
     in_store (move_calendar_item (aq_move_locks req) (aq_clock req) user i True r)))))"

definition undo_calendar_move_route :: "'p api \<Rightarrow> string \<Rightarrow> api_request \<Rightarrow> ('p, nat \<times> unit) serving" where
  "undo_calendar_move_route a i req = with_status 204 (as_user a req (\<lambda>user _.
     serve_bind (uuid_of a i) (\<lambda>i. in_store (undo_calendar_move (aq_move_locks req) (aq_clock req) user i))))"

section \<open>Notes, views and files\<close>

definition list_notes_route :: "'p api \<Rightarrow> api_request \<Rightarrow> ('p, nat \<times> note_record list) serving" where
  "list_notes_route a req = with_status 200 (as_user a req (\<lambda>user _. from_store (\<lambda>w. Inr (list_notes user w))))"

definition create_note_route :: "'p api \<Rightarrow> api_request \<Rightarrow> ('p, nat \<times> note_record) serving" where
  "create_note_route a req = with_status 201 (as_user a req (\<lambda>user _.
     serve_bind (json de_create_note a req) (\<lambda>r. in_store (create_note user r))))"

definition update_note_route :: "'p api \<Rightarrow> string \<Rightarrow> api_request \<Rightarrow> ('p, nat \<times> note_record) serving" where
  "update_note_route a i req = with_status 200 (as_user a req (\<lambda>user _.
     serve_bind (uuid_of a i) (\<lambda>i. serve_bind (json de_update_note a req) (\<lambda>r. in_store (update_note user i r)))))"

definition delete_note_route :: "'p api \<Rightarrow> string \<Rightarrow> api_request \<Rightarrow> ('p, nat \<times> unit) serving" where
  "delete_note_route a i req = with_status 204 (as_user a req (\<lambda>user _.
     serve_bind (uuid_of a i) (\<lambda>i. serve_bind (queried de_version a req) (\<lambda>q. in_store (delete_note user i (ev_expected_version q))))))"

definition global_search_route :: "'p api \<Rightarrow> api_request \<Rightarrow> ('p, nat \<times> search_result list) serving" where
  "global_search_route a req = with_status 200 (as_user a req (\<lambda>user _.
     serve_bind (queried de_search a req) (\<lambda>q.
     from_store (global_search (ap_fts a) user (sq_q q) (case sq_limit q of Some n \<Rightarrow> n | None \<Rightarrow> 20)))))"

definition list_saved_views :: "'p api \<Rightarrow> api_request \<Rightarrow> ('p, nat \<times> saved_task_view list) serving" where
  "list_saved_views a req = with_status 200 (as_user a req (\<lambda>user _. from_store (\<lambda>w. Inr (saved_task_views (ap_platform a) user w))))"

definition create_saved_view :: "'p api \<Rightarrow> api_request \<Rightarrow> ('p, nat \<times> saved_task_view) serving" where
  "create_saved_view a req = with_status 201 (as_user a req (\<lambda>user _.
     serve_bind (json de_saved_view a req) (\<lambda>r.
     under_action (keyed (aq_now req) (''saved-views:'' @ show_uuid user)
       (handle_op (create_saved_task_view (ap_platform a) (aq_sync_free req) (aq_row_free req) user r))))))"

definition delete_saved_view :: "'p api \<Rightarrow> string \<Rightarrow> api_request \<Rightarrow> ('p, nat \<times> unit) serving" where
  "delete_saved_view a i req = with_status 204 (as_user a req (\<lambda>user _.
     serve_bind (uuid_of a i) (\<lambda>i.
     under_action (keyed (aq_now req) (''saved-views:'' @ show_uuid user) (handle_op (delete_saved_task_view user i))))))"

definition list_files_route :: "'p api \<Rightarrow> api_request \<Rightarrow> ('p, nat \<times> file_record list) serving" where
  "list_files_route a req = with_status 200 (as_user a req (\<lambda>user _.
     serve_bind (queried de_file_query a req) (\<lambda>q. from_store (list_files user q))))"

definition file_usage_route :: "'p api \<Rightarrow> api_request \<Rightarrow> ('p, nat \<times> file_usage_answer) serving" where
  "file_usage_route a req = with_status 200 (as_user a req (\<lambda>user _. serve_handler (file_usage (ap_config a) user)))"

definition upload_file_route :: "'p api \<Rightarrow> api_request \<Rightarrow> ('p, nat \<times> file_record) serving" where
  "upload_file_route a req = with_status 201 (as_user a req (\<lambda>user _.
     serve_bind (serve_of (map_sum rejected id (aq_multipart req))) (\<lambda>body s.
     under_login (upload_file (ap_objects a) (ap_mime_ok a) (ap_parse_uuid a) (ap_config a) (aq_now req) (sr_limits s) (aq_body_late req) user body) s)))"

definition download_file_route :: "'p api \<Rightarrow> string \<Rightarrow> api_request \<Rightarrow> ('p, nat \<times> download_answer) serving" where
  "download_file_route a i req = as_user a req (\<lambda>user _.
     serve_bind (uuid_of a i) (\<lambda>i.
     serve_bind (serve_handler (download_file (ap_objects a) (ap_header_ok a) user i)) (\<lambda>d.
     serve_of (Inr (case d of DownloadFrom _ \<Rightarrow> 307 | _ \<Rightarrow> 200, d)))))"

definition delete_file_route :: "'p api \<Rightarrow> string \<Rightarrow> api_request \<Rightarrow> ('p, nat \<times> unit) serving" where
  "delete_file_route a i req = with_status 204 (as_user a req (\<lambda>user _.
     serve_bind (uuid_of a i) (\<lambda>i. serve_handler (delete_file (ap_objects a) user i))))"

section \<open>Exports and the account\<close>

record download_response =
  dr_content_type :: string
  dr_disposition :: string
  dr_content :: string

definition download :: "'p api \<Rightarrow> string \<Rightarrow> string \<Rightarrow> string \<Rightarrow> ('p, download_response) serving" where
  "download a content content_type filename =
     (let disposition = ''attachment; filename='' @ [CHR 0x22] @ filename @ [CHR 0x22]
      in serve_of (if ap_header_ok a content_type \<and> ap_header_ok a disposition
                   then Inr \<lparr>dr_content_type = content_type, dr_disposition = disposition, dr_content = content\<rparr>
                   else Inl (InvalidRequest 500 ''could not create download response'')))"

definition export_json_route :: "'p api \<Rightarrow> api_request \<Rightarrow> ('p, nat \<times> download_response) serving" where
  "export_json_route a req = with_status 200 (as_user a req (\<lambda>user _.
     serve_bind (from_store (export_json (ap_export_text a) (ap_platform a) user)) (\<lambda>content.
     download a content ''application/json; charset=utf-8'' ''rakkio-export.json'')))"

definition export_tasks_csv_route :: "'p api \<Rightarrow> api_request \<Rightarrow> ('p, nat \<times> download_response) serving" where
  "export_tasks_csv_route a req = with_status 200 (as_user a req (\<lambda>user _.
     serve_bind (from_store (\<lambda>w. Inr (export_tasks_csv (ap_times a) user w))) (\<lambda>content.
     download a content ''text/csv; charset=utf-8'' ''rakkio-tasks.csv'')))"

definition export_notes_markdown_route :: "'p api \<Rightarrow> api_request \<Rightarrow> ('p, nat \<times> download_response) serving" where
  "export_notes_markdown_route a req = with_status 200 (as_user a req (\<lambda>user _.
     serve_bind (from_store (\<lambda>w. Inr (export_notes_markdown user w))) (\<lambda>content.
     download a content ''text/markdown; charset=utf-8'' ''rakkio-notes.md'')))"

definition export_calendars_ics_route :: "'p api \<Rightarrow> api_request \<Rightarrow> ('p, nat \<times> download_response) serving" where
  "export_calendars_ics_route a req = with_status 200 (as_user a req (\<lambda>user _.
     serve_bind (from_store (\<lambda>w. Inr (export_calendars_ics (ap_times a) user w))) (\<lambda>content.
     download a content ''text/calendar; charset=utf-8'' ''rakkio-calendars.ics'')))"

definition delete_account_route :: "'p api \<Rightarrow> api_request \<Rightarrow> ('p, nat \<times> string) serving" where
  "delete_account_route a req = with_status 204 (as_user a req (\<lambda>user _.
     serve_bind (json de_confirmation a req) (\<lambda>confirmation.
     serve_handler (delete_account (ap_objects a) (ap_oauth a) (ap_header_ok a) (st_secure_cookies (ap_state a)) user confirmation))))"

section \<open>Synchronization\<close>

definition google_status :: "'p api \<Rightarrow> api_request \<Rightarrow> ('p, nat \<times> google_integration_status) serving" where
  "google_status a req = with_status 200 (as_user a req (\<lambda>user _. from_store (\<lambda>w. Inr (store_google_integration_status user w))))"

definition discover_route :: "'p api \<Rightarrow> api_request \<Rightarrow> ('p, nat \<times> synchronization) serving" where
  "discover_route a req = with_status 202 (as_user a req (\<lambda>user _.
     under_login (discover_google_calendars (ap_platform a) (aq_now req) user)))"

definition revoke_route :: "'p api \<Rightarrow> api_request \<Rightarrow> ('p, nat \<times> synchronization) serving" where
  "revoke_route a req = with_status 202 (as_user a req (\<lambda>user _. serve_handler (revoke_google (ap_platform a) user)))"

definition create_synchronization_route :: "'p api \<Rightarrow> api_request \<Rightarrow> ('p, nat \<times> synchronization) serving" where
  "create_synchronization_route a req = with_status 202 (as_user a req (\<lambda>user _.
     serve_bind (json de_synchronization a req) (\<lambda>r. under_login (create_synchronization (aq_now req) user r))))"

definition get_synchronization :: "'p api \<Rightarrow> string \<Rightarrow> api_request \<Rightarrow> ('p, nat \<times> synchronization) serving" where
  "get_synchronization a i req = with_status 200 (as_user a req (\<lambda>user _.
     serve_bind (uuid_of a i) (\<lambda>i. from_store (store_synchronization user i))))"

definition list_conflicts :: "'p api \<Rightarrow> api_request \<Rightarrow> ('p, nat \<times> sync_conflict list) serving" where
  "list_conflicts a req = with_status 200 (as_user a req (\<lambda>user _. from_store (\<lambda>w. Inr (list_sync_conflicts user w))))"

definition resolve_conflict :: "'p api \<Rightarrow> string \<Rightarrow> api_request \<Rightarrow> ('p, nat \<times> sync_conflict) serving" where
  "resolve_conflict a i req = with_status 200 (as_user a req (\<lambda>user _.
     serve_bind (uuid_of a i) (\<lambda>i. serve_bind (json de_resolution a req) (\<lambda>r.
     in_store (resolve_sync_conflict (aq_row_free req) user i (rs_resolution r))))))"

definition activity_route :: "'p api \<Rightarrow> api_request \<Rightarrow> ('p, nat \<times> activity_entry list) serving" where
  "activity_route a req = with_status 200 (as_user a req (\<lambda>user _. from_store (\<lambda>w. Inr (activity_for_user user w))))"

definition webhook_route :: "'p api \<Rightarrow> api_request \<Rightarrow> ('p, nat \<times> unit) serving" where
  "webhook_route a req = with_status 204 (under_action
     (google_calendar_webhook (ap_platform a) (ap_to_str a) (ap_parse_uuid a) (ap_state a) (aq_now req) (aq_peer req) (pt_headers (aq_parts req))))"

definition tasks_status_route :: "'p api \<Rightarrow> api_request \<Rightarrow> ('p, nat \<times> tasks_status) serving" where
  "tasks_status_route a req = with_status 200 (as_user a req (\<lambda>user _. from_store (google_tasks_status user)))"

definition tasks_lists_route :: "'p api \<Rightarrow> api_request \<Rightarrow> ('p, nat \<times> google_task_list list) serving" where
  "tasks_lists_route a req = with_status 200 (as_user a req (\<lambda>user _. serve_handler (tasks_lists (ap_service a) user)))"

definition tasks_configure_route :: "'p api \<Rightarrow> api_request \<Rightarrow> ('p, nat \<times> tasks_status) serving" where
  "tasks_configure_route a req = with_status 200 (as_user a req (\<lambda>user _.
     serve_bind (json de_tasks_settings a req) (\<lambda>r.
     under_action (tasks_configure (ap_service a) (ap_zones a) (aq_sync_free req) (aq_row_free req) (aq_now req) user r))))"

definition tasks_create_list_route :: "'p api \<Rightarrow> api_request \<Rightarrow> ('p, nat \<times> google_task_list) serving" where
  "tasks_create_list_route a req = with_status 201 (as_user a req (\<lambda>user _.
     serve_bind (json de_tasks_version a req) (\<lambda>expected. under_action (tasks_create_list (ap_service a) (aq_now req) user expected))))"

definition tasks_synchronize_route :: "'p api \<Rightarrow> api_request \<Rightarrow> ('p, nat \<times> synchronization) serving" where
  "tasks_synchronize_route a req = with_status 202 (as_user a req (\<lambda>user _.
     under_action (tasks_synchronize (ap_platform a) (aq_now req) user)))"

definition tasks_conflicts_route :: "'p api \<Rightarrow> api_request \<Rightarrow> ('p, nat \<times> google_task_conflict list) serving" where
  "tasks_conflicts_route a req = with_status 200 (as_user a req (\<lambda>user _. from_store (\<lambda>w. Inr (google_task_conflicts user w))))"

definition tasks_resolve_route :: "'p api \<Rightarrow> string \<Rightarrow> api_request \<Rightarrow> ('p, nat \<times> unit) serving" where
  "tasks_resolve_route a i req = with_status 202 (as_user a req (\<lambda>user _.
     serve_bind (uuid_of a i) (\<lambda>i. serve_bind (json de_tasks_resolution a req) (\<lambda>r.
     under_action (tasks_resolve (aq_sync_free req) (aq_row_free req) (aq_now req) user i (grr_conflict_id r) (grr_choice r))))))"

definition tasks_recoveries_route :: "'p api \<Rightarrow> api_request \<Rightarrow> ('p, nat \<times> google_task_recovery list) serving" where
  "tasks_recoveries_route a req = with_status 200 (as_user a req (\<lambda>user _. from_store (google_task_recoveries user)))"

definition tasks_leave_unlinked_route :: "'p api \<Rightarrow> string \<Rightarrow> api_request \<Rightarrow> ('p, nat \<times> unit) serving" where
  "tasks_leave_unlinked_route a i req = with_status 204 (as_user a req (\<lambda>user _.
     serve_bind (uuid_of a i) (\<lambda>i.
     under_action (tasks_leave_unlinked (aq_sync_free req) (aq_row_free req) (aq_clock req 0) (aq_now req) user i))))"

end
