(* ===== verification/Routes.thy ===== *)
theory Routes
  imports Handlers
begin

text \<open>
  \<open>app.rs\<close>: the state of the server built from its configuration, the routes, and the answer to a request. A route is a pattern of
  path segments with its methods, as in \<open>Router::route\<close>; \<open>get\<close> also serves \<open>HEAD\<close>, and among the patterns that match a path the one
  with the earlier static segment is taken. Behind the middleware of \<open>request_limits.rs\<close> the extractor finds the user it has
  authenticated; here it authenticates itself. The pages \<open>utoipa_swagger_ui\<close> serves below \<open>/docs\<close> are known by their
  status only, \<open>ap_docs\<close>. The CORS layer answers every \<open>OPTIONS\<close> request itself, before routing; its headers, request
  identifiers, traces and metrics are left out.
\<close>

section \<open>The server of a configuration\<close>

record url =
  ur_scheme :: string
  ur_host :: "string option"
  ur_username :: string
  ur_password :: "string option"
  ur_path :: string
  ur_query :: "string option"
  ur_fragment :: "string option"
  ur_origin :: string

definition exact_origin :: "url \<Rightarrow> bool" where
  "exact_origin u \<longleftrightarrow>
     ur_scheme u \<in> {''http'', ''https''} \<and> (case ur_host u of None \<Rightarrow> False | Some h \<Rightarrow> CHR ''*'' \<notin> set h)
     \<and> ur_username u = [] \<and> ur_password u = None \<and> ur_path u = ''/'' \<and> ur_query u = None \<and> ur_fragment u = None"

definition allowed_origin :: "(string \<Rightarrow> url option) \<Rightarrow> string \<Rightarrow> (string, string) res" where
  "allowed_origin parse_url text =
     bind_res (ok_or (parse_url (trim text)) ''invalid URL'') (\<lambda>u.
     bind_res (require (exact_origin u) ''CORS_ALLOWED_ORIGIN must contain exact HTTP(S) origins, not paths or wildcards'') (\<lambda>_.
     Inr (ur_origin u)))"

fun allowed_origins :: "(string \<Rightarrow> url option) \<Rightarrow> string list \<Rightarrow> (string, string list) res" where
  "allowed_origins parse_url [] = Inr []"
| "allowed_origins parse_url (t # ts) =
     bind_res (allowed_origin parse_url t) (\<lambda>o'. bind_res (allowed_origins parse_url ts) (\<lambda>os. Inr (o' # os)))"

definition cors_origins :: "(string \<Rightarrow> url option) \<Rightarrow> config \<Rightarrow> (string, string list) res" where
  "cors_origins parse_url cf = allowed_origins parse_url (split_on (CHR '','') (cf_cors_allowed_origin cf))"

lemma allowed_origins_exact:
  "allowed_origins parse_url ts = Inr os \<Longrightarrow>
     list_all (\<lambda>origin. \<exists>t u. t \<in> set ts \<and> parse_url (trim t) = Some u \<and> exact_origin u \<and> origin = ur_origin u) os"
proof (induction ts arbitrary: os)
  case (Cons t ts)
  then show ?case by (auto simp: allowed_origin_def list_all_iff) blast+
qed simp

definition app_state_of :: "config \<Rightarrow> 'p google_identity option \<Rightarrow> 'p app_state" where
  "app_state_of cf google =
     \<lparr>st_allow_insecure_dev_auth = cf_allow_insecure_dev_auth cf, st_invite_only = cf_invite_only cf,
      st_trust_proxy_headers = cf_trust_proxy_headers cf, st_secure_cookies = (cf_environment cf = Production),
      st_app_url = cf_app_url cf, st_google_oauth = google, st_max_user_accounts = cf_max_user_accounts cf\<rparr>"

definition fresh_server :: "world \<Rightarrow> 'p \<Rightarrow> 'p server" where
  "fresh_server w p =
     \<lparr>sr_world = w, sr_outside = p, sr_limits = default_limits, sr_login = default_limiter, sr_action = with_limit 60\<rparr>"

section \<open>Patterns\<close>

datatype segment = Static string | Param | Rest

type_synonym 'p endpoint = "string list \<Rightarrow> api_request \<Rightarrow> ('p, nat) serving"

type_synonym 'p route = "segment list \<times> (string \<times> 'p endpoint) list"

fun matches :: "segment list \<Rightarrow> string list \<Rightarrow> bool" where
  "matches [] [] = True"
| "matches (Static s # ps) (x # xs) = (s = x \<and> matches ps xs)"
| "matches (Param # ps) (x # xs) = (x \<noteq> [] \<and> matches ps xs)"
| "matches [Rest] (x # xs) = (x \<noteq> [] \<or> xs \<noteq> [])"
| "matches _ _ = False"

fun captured :: "segment list \<Rightarrow> string list \<Rightarrow> string list" where
  "captured (Static s # ps) (x # xs) = captured ps xs"
| "captured (Param # ps) (x # xs) = x # captured ps xs"
| "captured [Rest] xs = xs"
| "captured _ _ = []"

fun precedes :: "segment list \<Rightarrow> segment list \<Rightarrow> bool" where
  "precedes (Static _ # ps) (Param # qs) = True"
| "precedes (Static _ # ps) (Rest # qs) = True"
| "precedes (Param # ps) (Rest # qs) = True"
| "precedes (Param # ps) (Static _ # qs) = False"
| "precedes (Rest # ps) (Static _ # qs) = False"
| "precedes (Rest # ps) (Param # qs) = False"
| "precedes (_ # ps) (_ # qs) = precedes ps qs"
| "precedes _ _ = False"

definition better :: "'p route \<Rightarrow> 'p route option \<Rightarrow> 'p route option" where
  "better r best = (case best of None \<Rightarrow> Some r | Some b \<Rightarrow> if precedes (fst r) (fst b) then Some r else Some b)"

definition select_route :: "string list \<Rightarrow> 'p route list \<Rightarrow> 'p route option" where
  "select_route path rs = fold better (filter (\<lambda>r. matches (fst r) path) rs) None"

definition method_of :: "string \<Rightarrow> (string \<times> 'p endpoint) list \<Rightarrow> 'p endpoint option" where
  "method_of m ms = (case map_of ms m of Some h \<Rightarrow> Some h | None \<Rightarrow> if m = ''HEAD'' then map_of ms ''GET'' else None)"

definition reply :: "('p, nat \<times> 'a) serving \<Rightarrow> ('p, nat) serving" where
  "reply m = serve_bind m (\<lambda>(status, _). serve_of (Inr status))"

abbreviation "plain h \<equiv> (\<lambda>_ req. reply (h req))"

abbreviation "for_path h \<equiv> (\<lambda>ps req. reply (h (hd ps) req))"

section \<open>The routes\<close>

definition account_routes :: "'p api \<Rightarrow> 'p route list" where
  "account_routes a =
     [([Static ''operations'', Static ''capability''], [(''GET'', plain (capability a))]),
      ([Static ''operations''], [(''GET'', plain (operations_snapshot_route a))]),
      ([Static ''development'', Static ''session''], [(''POST'', plain (development_session_route a))]),
      ([Static ''session''], [(''GET'', plain (current_session_route a))]),
      ([Static ''session'', Static ''logout''], [(''POST'', plain (logout_route a))]),
      ([Static ''settings''], [(''GET'', plain (get_settings a)), (''PUT'', plain (update_settings a))]),
      ([Static ''telemetry'', Static ''reminder-delivered''], [(''POST'', plain (record_reminder_delivery a))]),
      ([Static ''auth'', Static ''google'', Static ''start''], [(''GET'', plain (google_auth_start_route a))]),
      ([Static ''auth'', Static ''google'', Static ''calendar'', Static ''start''], [(''GET'', plain (google_calendar_connect_route a))]),
      ([Static ''auth'', Static ''google'', Static ''tasks'', Static ''start''], [(''GET'', plain (google_tasks_connect_route a))]),
      ([Static ''auth'', Static ''google'', Static ''callback''], [(''GET'', plain (google_auth_callback_route a))])]"

definition planning_routes :: "'p api \<Rightarrow> 'p route list" where
  "planning_routes a =
     [([Static ''daily-plans'', Param], [(''GET'', for_path (get_daily_plan a))]),
      ([Static ''daily-plans'', Param, Static ''focus''], [(''PUT'', for_path (update_daily_focus_route a))]),
      ([Static ''daily-reviews'', Param, Static ''start''], [(''POST'', for_path (start_daily_review_route a))]),
      ([Static ''daily-reviews'', Param, Static ''complete''], [(''POST'', for_path (complete_daily_review_route a))]),
      ([Static ''labels''], [(''GET'', plain (list_labels_route a))])]"

definition content_routes :: "'p api \<Rightarrow> 'p route list" where
  "content_routes a =
     [([Static ''calendars''], [(''GET'', plain (list_calendars_route a)), (''POST'', plain (create_calendar_route a))]),
      ([Static ''calendars'', Param], [(''PUT'', for_path (update_calendar_route a)), (''DELETE'', for_path (delete_calendar_route a))]),
      ([Static ''events''], [(''GET'', plain (list_events a)), (''POST'', plain (create_event a))]),
      ([Static ''events'', Param], [(''PUT'', for_path (update_event a)), (''DELETE'', for_path (delete_event a))]),
      ([Static ''notes''], [(''GET'', plain (list_notes_route a)), (''POST'', plain (create_note_route a))]),
      ([Static ''notes'', Param], [(''PUT'', for_path (update_note_route a)), (''DELETE'', for_path (delete_note_route a))]),
      ([Static ''search''], [(''GET'', plain (global_search_route a))]),
      ([Static ''saved-task-views''], [(''GET'', plain (list_saved_views a)), (''POST'', plain (create_saved_view a))]),
      ([Static ''saved-task-views'', Param], [(''DELETE'', for_path (delete_saved_view a))])]"

definition exchange_routes :: "'p api \<Rightarrow> 'p route list" where
  "exchange_routes a =
     [([Static ''exports'', Static ''json''], [(''GET'', plain (export_json_route a))]),
      ([Static ''exports'', Static ''tasks.csv''], [(''GET'', plain (export_tasks_csv_route a))]),
      ([Static ''imports'', Static ''todoist''], [(''POST'', plain (import_todoist a))]),
      ([Static ''exports'', Static ''notes.md''], [(''GET'', plain (export_notes_markdown_route a))]),
      ([Static ''exports'', Static ''calendars.ics''], [(''GET'', plain (export_calendars_ics_route a))])]"

definition synchronization_routes :: "'p api \<Rightarrow> 'p route list" where
  "synchronization_routes a =
     [([Static ''integrations'', Static ''google''], [(''GET'', plain (google_status a)), (''DELETE'', plain (revoke_route a))]),
      ([Static ''integrations'', Static ''google'', Static ''tasks''],
        [(''GET'', plain (tasks_status_route a)), (''PUT'', plain (tasks_configure_route a))]),
      ([Static ''integrations'', Static ''google'', Static ''tasks'', Static ''lists''],
        [(''GET'', plain (tasks_lists_route a)), (''POST'', plain (tasks_create_list_route a))]),
      ([Static ''integrations'', Static ''google'', Static ''tasks'', Static ''recoveries''], [(''GET'', plain (tasks_recoveries_route a))]),
      ([Static ''integrations'', Static ''google'', Static ''tasks'', Static ''recoveries'', Param, Static ''detach''],
        [(''POST'', for_path (tasks_leave_unlinked_route a))]),
      ([Static ''integrations'', Static ''google'', Static ''tasks'', Static ''conflicts''], [(''GET'', plain (tasks_conflicts_route a))]),
      ([Static ''integrations'', Static ''google'', Static ''tasks'', Static ''conflicts'', Param],
        [(''POST'', for_path (tasks_resolve_route a))]),
      ([Static ''integrations'', Static ''google'', Static ''tasks'', Static ''sync''], [(''POST'', plain (tasks_synchronize_route a))]),
      ([Static ''integrations'', Static ''google'', Static ''calendars'', Static ''discover''], [(''POST'', plain (discover_route a))]),
      ([Static ''synchronizations''], [(''POST'', plain (create_synchronization_route a))]),
      ([Static ''synchronizations'', Param], [(''GET'', for_path (get_synchronization a))]),
      ([Static ''sync-conflicts''], [(''GET'', plain (list_conflicts a))]),
      ([Static ''sync-conflicts'', Param, Static ''resolve''], [(''POST'', for_path (resolve_conflict a))]),
      ([Static ''activity''], [(''GET'', plain (activity_route a))])]"

definition file_routes :: "'p api \<Rightarrow> 'p route list" where
  "file_routes a =
     [([Static ''account''], [(''DELETE'', plain (delete_account_route a))]),
      ([Static ''files''], [(''GET'', plain (list_files_route a)), (''POST'', plain (upload_file_route a))]),
      ([Static ''files'', Static ''usage''], [(''GET'', plain (file_usage_route a))]),
      ([Static ''files'', Param, Static ''download''], [(''GET'', for_path (download_file_route a))]),
      ([Static ''files'', Param], [(''DELETE'', for_path (delete_file_route a))])]"

definition task_routes :: "'p api \<Rightarrow> 'p route list" where
  "task_routes a =
     [([Static ''projects''], [(''GET'', plain (list_projects_route a)), (''POST'', plain (create_project_route a))]),
      ([Static ''projects'', Param], [(''PUT'', for_path (update_project_route a)), (''DELETE'', for_path (delete_project_route a))]),
      ([Static ''tasks''], [(''GET'', plain (list_tasks_route a)), (''POST'', plain (create_task_route a))]),
      ([Static ''tasks'', Static ''order''], [(''PUT'', plain (reorder_tasks_route a))]),
      ([Static ''tasks'', Param, Static ''delete-with-undo''], [(''POST'', for_path (delete_task_with_undo_route a))]),
      ([Static ''task-delete-undos''], [(''GET'', plain (list_task_delete_undos_route a))]),
      ([Static ''task-delete-undos'', Param, Static ''consume''], [(''POST'', for_path (undo_task_delete_route a))]),
      ([Static ''calendar-move-undos''], [(''GET'', plain (list_calendar_move_undos_route a))]),
      ([Static ''calendar-move-undos'', Param, Static ''consume''], [(''POST'', for_path (undo_calendar_move_route a))]),
      ([Static ''events'', Param, Static ''move''], [(''POST'', for_path (move_event a))]),
      ([Static ''tasks'', Param, Static ''move''], [(''POST'', for_path (move_task a))]),
      ([Static ''tasks'', Param], [(''PUT'', for_path (update_task_route a)), (''DELETE'', for_path (delete_task_route a))])]"

text \<open>The page of metrics is rendered by its own crate; the answer is its status.\<close>

definition system_routes :: "'p api \<Rightarrow> 'p route list" where
  "system_routes a =
     [([Static ''health''], [(''GET'', \<lambda>_ _. reply health)]),
      ([Static ''ready''], [(''GET'', plain ready)]),
      ([Static ''metrics''], [(''GET'', \<lambda>_ _. serve_of (Inr 200))]),
      ([Static ''internal'', Static ''synchronization'', Static ''run''], [(''POST'', plain (worker_route a))]),
      ([Static ''webhooks'', Static ''google'', Static ''calendar''], [(''POST'', plain (webhook_route a))])]"

definition api_routes :: "'p api \<Rightarrow> 'p route list" where
  "api_routes a = account_routes a @ planning_routes a @ content_routes a @ exchange_routes a @ synchronization_routes a
     @ file_routes a @ task_routes a"

definition nested :: "'p route list \<Rightarrow> 'p route list" where
  "nested rs = map (\<lambda>(ps, ms). (Static ''api'' # Static ''v1'' # ps, ms)) rs"

text \<open>
  The merged \<open>SwaggerUi\<close>: the description of the API, and its browser below \<open>/docs\<close>, for everybody. Its pages
  come from the crate and depend on the path alone.
\<close>

definition swagger_routes :: "'p api \<Rightarrow> 'p route list" where
  "swagger_routes a =
     [([Static ''api-doc'', Static ''openapi.json''], [(''GET'', \<lambda>_ _. serve_of (Inr 200))]),
      ([Static ''docs''], [(''GET'', \<lambda>_ _. serve_of (Inr (ap_docs a [])))]),
      ([Static ''docs'', Static []], [(''GET'', \<lambda>_ _. serve_of (Inr (ap_docs a [[]])))]),
      ([Static ''docs'', Rest], [(''GET'', \<lambda>ps _. serve_of (Inr (ap_docs a ps)))])]"

definition router :: "'p api \<Rightarrow> 'p route list" where
  "router a = system_routes a @ nested (api_routes a) @ swagger_routes a"

section \<open>Answers\<close>

definition path_segments :: "string \<Rightarrow> string list" where
  "path_segments path = tl (split_on (CHR ''/'') path)"

definition dispatch :: "'p api \<Rightarrow> api_request \<Rightarrow> ('p, nat) serving" where
  "dispatch a req =
     (let path = path_segments (pt_path (aq_parts req))
      in case select_route path (router a) of
           None \<Rightarrow> serve_of (Inl RouteNotFound)
         | Some (ps, ms) \<Rightarrow>
             (case method_of (pt_method (aq_parts req)) ms of
                None \<Rightarrow> serve_of (Inl MethodNotAllowed)
              | Some h \<Rightarrow> h (captured ps path) req))"

definition security_headers :: "bool \<Rightarrow> headers" where
  "security_headers secure =
     (if secure then [(''strict-transport-security'', ''max-age=31536000'')] else [])
     @ [(''x-content-type-options'', ''nosniff''), (''x-frame-options'', ''DENY''), (''referrer-policy'', ''no-referrer''),
        (''cache-control'', ''no-store''),
        (''content-security-policy'',
         ''frame-ancestors '' @ [CHR 0x27] @ ''none'' @ [CHR 0x27] @ ''; object-src '' @ [CHR 0x27] @ ''none'' @ [CHR 0x27]
         @ ''; base-uri '' @ [CHR 0x27] @ ''none'' @ [CHR 0x27])]"

record http_response =
  hr_status :: nat
  hr_headers :: headers

text \<open>The CORS layer takes every \<open>OPTIONS\<close> request for a preflight and answers it with 200.\<close>

definition answer_cors :: "'p api \<Rightarrow> api_request \<Rightarrow> ('p, nat) serving" where
  "answer_cors a req = (if pt_method (aq_parts req) = ''OPTIONS'' then serve_of (Inr 200) else dispatch a req)"

definition answer_request :: "'p api \<Rightarrow> api_request \<Rightarrow> 'p server \<Rightarrow> http_response \<times> 'p server" where
  "answer_request a req s =
     (let (r, s) = answer_cors a req s
      in (\<lparr>hr_status = (case r of Inr status \<Rightarrow> status | Inl e \<Rightarrow> fst (into_response e)),
           hr_headers = security_headers (st_secure_cookies (ap_state a))\<rparr>, s))"

section \<open>Only sessions reach the workspace\<close>

text \<open>
  The routes that do not ask for a session: the state of the system, sign-in, those with a secret of their own (the worker's and
  Google's), and the documentation of the API.
\<close>

definition open_routes :: "segment list list" where
  "open_routes =
     [[Static ''health''], [Static ''ready''], [Static ''metrics''], [Static ''internal'', Static ''synchronization'', Static ''run''],
      [Static ''webhooks'', Static ''google'', Static ''calendar''],
      [Static ''api'', Static ''v1'', Static ''development'', Static ''session''],
      [Static ''api'', Static ''v1'', Static ''auth'', Static ''google'', Static ''start''],
      [Static ''api'', Static ''v1'', Static ''auth'', Static ''google'', Static ''callback''],
      [Static ''api-doc'', Static ''openapi.json''], [Static ''docs''], [Static ''docs'', Static []], [Static ''docs'', Rest]]"

definition open_path :: "string \<Rightarrow> bool" where
  "open_path path \<longleftrightarrow> list_ex (\<lambda>ps. matches ps (path_segments path)) open_routes"

text \<open>An endpoint that first extracts the user.\<close>

definition asks_for_user :: "'p api \<Rightarrow> 'p endpoint \<Rightarrow> bool" where
  "asks_for_user a h \<longleftrightarrow> (\<exists>f. \<forall>ps req. h ps req = as_user a req (f ps req))"

lemma as_user_bind: "serve_bind (as_user a req f) g = as_user a req (\<lambda>user p. serve_bind (f user p) g)"
  by (rule ext) (simp add: serve_bind_def as_user_def split: prod.split sum.split)

lemma asks_for_user_intro: "(\<And>ps req. h ps req = as_user a req (f ps req)) \<Longrightarrow> asks_for_user a h"
  unfolding asks_for_user_def by blast

lemmas handler_defs = record_reminder_delivery_def capability_def operations_snapshot_route_def current_session_route_def logout_route_def
  get_settings_def update_settings_def google_calendar_connect_route_def google_tasks_connect_route_def get_daily_plan_def
  update_daily_focus_route_def start_daily_review_route_def complete_daily_review_route_def list_labels_route_def create_project_route_def
  list_projects_route_def update_project_route_def delete_project_route_def create_task_route_def list_tasks_route_def reorder_tasks_route_def
  update_task_route_def delete_task_route_def delete_task_with_undo_route_def list_task_delete_undos_route_def undo_task_delete_route_def
  import_todoist_def list_calendars_route_def create_calendar_route_def update_calendar_route_def delete_calendar_route_def list_events_def
  create_event_def update_event_def delete_event_def list_calendar_move_undos_route_def move_event_def move_task_def
  undo_calendar_move_route_def list_notes_route_def create_note_route_def update_note_route_def delete_note_route_def global_search_route_def
  list_saved_views_def create_saved_view_def delete_saved_view_def list_files_route_def file_usage_route_def upload_file_route_def
  download_file_route_def delete_file_route_def export_json_route_def export_tasks_csv_route_def export_notes_markdown_route_def
  export_calendars_ics_route_def delete_account_route_def google_status_def discover_route_def revoke_route_def
  create_synchronization_route_def get_synchronization_def list_conflicts_def resolve_conflict_def activity_route_def
  tasks_status_route_def tasks_lists_route_def tasks_configure_route_def tasks_create_list_route_def tasks_synchronize_route_def
  tasks_conflicts_route_def tasks_resolve_route_def tasks_recoveries_route_def tasks_leave_unlinked_route_def

lemmas user_first = handler_defs reply_def with_status_def with_redirect_def as_admin_def as_user_bind

definition route_ok :: "'p api \<Rightarrow> 'p route \<Rightarrow> bool" where
  "route_ok a r \<longleftrightarrow> fst r \<in> set open_routes \<or> (\<forall>(m, h) \<in> set (snd r). asks_for_user a h)"

lemma asks_for_user_as_user: "asks_for_user a (\<lambda>ps req. as_user a req (f ps req))"
  unfolding asks_for_user_def by blast

lemma planning_routes_ok: "list_all (route_ok a) (nested (planning_routes a))"
  by (simp add: planning_routes_def nested_def route_ok_def user_first asks_for_user_as_user)

lemma account_routes_ok: "list_all (route_ok a) (nested (account_routes a))"
  by (simp add: account_routes_def nested_def route_ok_def open_routes_def user_first asks_for_user_as_user)

lemma content_routes_ok: "list_all (route_ok a) (nested (content_routes a))"
  by (simp add: content_routes_def nested_def route_ok_def user_first asks_for_user_as_user)

lemma exchange_routes_ok: "list_all (route_ok a) (nested (exchange_routes a))"
  by (simp add: exchange_routes_def nested_def route_ok_def user_first asks_for_user_as_user)

lemma synchronization_routes_ok: "list_all (route_ok a) (nested (synchronization_routes a))"
  by (simp add: synchronization_routes_def nested_def route_ok_def user_first asks_for_user_as_user)

lemma file_routes_ok: "list_all (route_ok a) (nested (file_routes a))"
  by (simp add: file_routes_def nested_def route_ok_def user_first asks_for_user_as_user)

lemma task_routes_ok: "list_all (route_ok a) (nested (task_routes a))"
  by (simp add: task_routes_def nested_def route_ok_def user_first asks_for_user_as_user)

lemma system_routes_ok: "list_all (route_ok a) (system_routes a)"
  by (simp add: system_routes_def route_ok_def open_routes_def)

lemma swagger_routes_ok: "list_all (route_ok a) (swagger_routes a)"
  by (simp add: swagger_routes_def route_ok_def open_routes_def)

lemma nested_append: "nested (xs @ ys) = nested xs @ nested ys"
  by (simp add: nested_def)

lemma router_ok: "r \<in> set (router a) \<Longrightarrow> route_ok a r"
proof -
  have "list_all (route_ok a) (router a)"
    by (simp add: router_def api_routes_def nested_append planning_routes_ok account_routes_ok content_routes_ok exchange_routes_ok
        synchronization_routes_ok file_routes_ok task_routes_ok system_routes_ok swagger_routes_ok)
  then show "r \<in> set (router a) \<Longrightarrow> route_ok a r" by (simp add: list_all_iff)
qed

lemma select_route_member:
  assumes "select_route path rs = Some r"
  shows "r \<in> set rs \<and> matches (fst r) path"
proof -
  have "fold better qs best = Some r \<Longrightarrow> r \<in> set qs \<or> best = Some r" for qs best
    by (induction qs arbitrary: best) (auto simp: better_def split: option.splits if_splits)
  from this [OF assms [unfolded select_route_def]] show ?thesis by auto
qed

definition same_sessions :: "world \<Rightarrow> world \<Rightarrow> bool" where
  "same_sessions w w' \<longleftrightarrow>
     (\<exists>ss. w' = w\<lparr>sessions := ss\<rparr> \<and> map (se_last_seen_at_update (\<lambda>_. 0)) ss = map (se_last_seen_at_update (\<lambda>_. 0)) (sessions w))"

lemma same_sessions_refl: "same_sessions w w"
proof -
  have "w = w\<lparr>sessions := sessions w\<rparr>" by simp
  then show ?thesis unfolding same_sessions_def by blast
qed

lemma authenticate_same: "authenticate_session pf token w = Inr (session, w') \<Longrightarrow> same_sessions w w'"
  unfolding same_sessions_def by (auto simp: authenticate_session_def Let_def update_where_def comp_def if_distrib)

lemma authenticate_error: "authenticate_session pf token w = Inl e \<Longrightarrow> e = Unauthorized"
  by (auto simp: authenticate_session_def Let_def)

text \<open>The session a request is made in.\<close>

definition in_session :: "'p api \<Rightarrow> parts \<Rightarrow> world \<Rightarrow> bool" where
  "in_session a p w \<longleftrightarrow> (\<exists>token session w'. session_token (ap_to_str a) (pt_headers p) = Some token
     \<and> authenticate_session (ap_platform a) token w = Inr (session, w')
     \<and> (requires_csrf (pt_method p) \<longrightarrow>
          Option.bind (map_of (pt_headers p) CSRF_HEADER) (ap_to_str a) = Some (sa_csrf_token session)))"

lemma csrf_error: "check_csrf to_str p session = Inl e \<Longrightarrow> e = no_csrf \<and> requires_csrf (pt_method p)
    \<and> Option.bind (map_of (pt_headers p) CSRF_HEADER) to_str \<noteq> Some (sa_csrf_token session)"
  by (auto simp: check_csrf_def split: if_splits)

lemma outside_sessions:
  assumes "pt_authenticated_user p = None" and "\<not> in_session a p w"
    and "current_user (ap_platform a) (ap_to_str a) parse_uuid False t p w l = (r, p', w', l')"
  shows "\<exists>e. r = Inl e \<and> 400 \<le> fst (into_response e) \<and> same_sessions w w' \<and> l' = l"
proof (cases "session_token (ap_to_str a) (pt_headers p)")
  case None
  with assms show ?thesis by (auto simp: current_user_def extract_user_def Errors.respond_def same_sessions_refl)
next
  case (Some token)
  with assms(1,3) have run: "session_user (ap_platform a) (ap_to_str a) t token p w l = (r, p', w', l')"
    by (simp add: current_user_def extract_user_def)
  show ?thesis
  proof (cases "authenticate_session (ap_platform a) token w")
    case (Inl e)
    with run authenticate_error [OF Inl] show ?thesis by (auto simp: session_user_def Errors.respond_def same_sessions_refl)
  next
    case (Inr x)
    obtain session w1 where auth: "authenticate_session (ap_platform a) token w = Inr (session, w1)" using Inr by (cases x) simp
    show ?thesis
    proof (cases "check_csrf (ap_to_str a) p session")
      case (Inl e)
      with run auth csrf_error [OF Inl] authenticate_same [OF auth] show ?thesis
        by (auto simp: session_user_def no_csrf_def Errors.respond_def)
    next
      case (Inr u)
      then have "in_session a p w" using Some auth check_csrf_accepts [of "ap_to_str a" p session]
        unfolding in_session_def by (metis (full_types) old.unit.exhaust)
      with assms(2) show ?thesis by simp
    qed
  qed
qed

lemma dispatched:
  assumes "\<not> open_path (pt_path (aq_parts req))"
  shows "dispatch a req = serve_of (Inl RouteNotFound) \<or> dispatch a req = serve_of (Inl MethodNotAllowed)
    \<or> (\<exists>f. dispatch a req = as_user a req f)"
proof -
  let ?path = "path_segments (pt_path (aq_parts req))" and ?m = "pt_method (aq_parts req)"
  show ?thesis
  proof (cases "select_route ?path (router a)")
    case (Some r)
    obtain ps ms where r: "r = (ps, ms)" by (cases r)
    from select_route_member [OF Some] have "r \<in> set (router a)" "matches ps ?path" by (auto simp: r)
    with assms router_ok have users: "\<forall>(m, h) \<in> set ms. asks_for_user a h"
      by (fastforce simp: route_ok_def open_path_def list_ex_iff r)
    show ?thesis
    proof (cases "method_of ?m ms")
      case h: (Some h)
      then obtain m where "(m, h) \<in> set ms" by (auto simp: method_of_def dest: map_of_SomeD split: option.splits if_splits)
      with users obtain f where "\<And>ps req. h ps req = as_user a req (f ps req)" unfolding asks_for_user_def by blast
      with Some h show ?thesis by (simp add: dispatch_def r) blast
    qed (use Some in \<open>simp add: dispatch_def r\<close>)
  qed (simp add: dispatch_def)
qed

text \<open>
  C33. Only sessions reach the workspace. Without the development sign-in every request to a path outside the open
  ones (health, readiness and metrics, the worker and the webhook, the three sign-in routes, and the documentation below
  \<open>/docs\<close> and at \<open>/api-doc/openapi.json\<close>)
  either comes with the cookie of a live session and, when its method can change something, the CSRF token of that very session, or it
  is refused: with a status of at least 400, without a call to Google or the object store, without a change of a limiter or
  of the database other than the time the session was last seen. The exception are preflight requests (\<open>OPTIONS\<close>), which
  are answered without being routed and change nothing at all. Every answer, refused or not, forbids caching.
\<close>

theorem only_sessions_reach_the_workspace:
  assumes "\<not> st_allow_insecure_dev_auth (ap_state a)" and "pt_authenticated_user (aq_parts req) = None"
    and "\<not> open_path (pt_path (aq_parts req))" and "answer_request a req s = (r, s')"
  shows "(in_session a (aq_parts req) (sr_world s)
      \<or> pt_method (aq_parts req) = ''OPTIONS'' \<and> s' = s
      \<or> 400 \<le> hr_status r \<and> s' = s\<lparr>sr_world := sr_world s'\<rparr> \<and> same_sessions (sr_world s) (sr_world s'))
    \<and> map_of (hr_headers r) ''cache-control'' = Some ''no-store''"
proof -
  have headers: "map_of (hr_headers r) ''cache-control'' = Some ''no-store''"
    using assms(4) by (auto simp: answer_request_def security_headers_def split: prod.splits)
  have "400 \<le> hr_status r \<and> s' = s\<lparr>sr_world := sr_world s'\<rparr> \<and> same_sessions (sr_world s) (sr_world s')"
    if none: "\<not> in_session a (aq_parts req) (sr_world s)" and routed: "pt_method (aq_parts req) \<noteq> ''OPTIONS''"
    using dispatched [OF assms(3), of a]
  proof (elim disjE exE)
    fix f
    assume d: "dispatch a req = as_user a req f"
    obtain v p w l where c: "current_user (ap_platform a) (ap_to_str a) (ap_parse_uuid a) False (aq_now req) (aq_parts req) (sr_world s)
      (sr_limits s) = (v, p, w, l)" by (metis prod.exhaust)
    from outside_sessions [OF assms(2) none c] obtain e where "v = Inl e" "400 \<le> fst (into_response e)" "same_sessions (sr_world s) w"
      "l = sr_limits s" by blast
    with c d assms(1,4) routed show ?thesis by (auto simp: answer_request_def answer_cors_def as_user_def)
  qed (use assms(4) routed in \<open>auto simp: answer_request_def answer_cors_def serve_of_def Errors.respond_def same_sessions_refl\<close>)
  moreover have "s' = s" if "pt_method (aq_parts req) = ''OPTIONS''"
    using assms(4) that by (auto simp: answer_request_def answer_cors_def serve_of_def)
  ultimately show ?thesis using headers by blast
qed

text \<open>A server without users, and a write without a cookie.\<close>

definition example_api :: "unit api" where
  "example_api = \<lparr>ap_platform = ascii_platform 0, ap_to_str = Some, ap_parse_uuid = (\<lambda>_. None), ap_header_ok = (\<lambda>_. True),
     ap_mime_ok = (\<lambda>_. True), ap_fts = (\<lambda>_ _. True), ap_times = undefined, ap_export_text = (\<lambda>_. None), ap_codec = undefined,
     ap_zones = example_env, ap_size_of = (\<lambda>_. 0), ap_decoders = undefined, ap_config = example_config,
     ap_state = app_state_of example_config None, ap_objects = undefined, ap_oauth = None, ap_service = None, ap_worker = None,
     ap_validation = None, ap_docs = (\<lambda>_. 200)\<rparr>"

definition example_write :: api_request where
  "example_write = \<lparr>aq_parts = example_parts\<lparr>pt_headers := []\<rparr>, aq_peer = None, aq_query = [], aq_body = [], aq_body_late = False,
     aq_multipart = Inr [], aq_now = 0, aq_random = ([], [], []), aq_fresh = [], aq_clock = (\<lambda>_. 0), aq_clock_again = (\<lambda>_. 0),
     aq_sync_free = True, aq_row_free = True, aq_move_locks = undefined, aq_delete_locks = undefined, aq_delete_locks_again = undefined,
     aq_database_ready = True, aq_metrics_ready = True\<rparr>"

theorem only_sessions_reach_the_workspace_witness:
  "\<exists>r s'. answer_request example_api example_write (fresh_server example_session_world ()) = (r, s') \<and> 400 \<le> hr_status r
     \<and> sr_outside s' = () \<and> tasks (sr_world s') = [] \<and> same_sessions example_session_world (sr_world s')"
proof -
  obtain r s' where run: "answer_request example_api example_write (fresh_server example_session_world ()) = (r, s')"
    by (metis prod.exhaust)
  have "\<not> st_allow_insecure_dev_auth (ap_state example_api)" by (simp add: example_api_def app_state_of_def example_config_def)
  moreover have "pt_authenticated_user (aq_parts example_write) = None" by (simp add: example_write_def example_parts_def)
  moreover have "\<not> open_path (pt_path (aq_parts example_write))"
    by (simp add: example_write_def example_parts_def open_path_def open_routes_def path_segments_def)
  moreover have "pt_method (aq_parts example_write) \<noteq> ''OPTIONS''" by (simp add: example_write_def example_parts_def)
  ultimately have "in_session example_api (aq_parts example_write) (sr_world (fresh_server example_session_world ()))
      \<or> 400 \<le> hr_status r \<and> same_sessions (sr_world (fresh_server example_session_world ())) (sr_world s')"
    using only_sessions_reach_the_workspace [OF _ _ _ run] by blast
  moreover have "\<not> in_session example_api (aq_parts example_write) w" for w
    by (simp add: in_session_def session_token_def example_api_def example_write_def)
  ultimately have "400 \<le> hr_status r \<and> same_sessions example_session_world (sr_world s')" by (simp add: fresh_server_def)
  then show ?thesis using run by (auto simp: same_sessions_def example_session_world_def empty_world_def)
qed

end
