(* ===== verification/Spec2Isabelle.thy ===== *)
theory Spec2Isabelle
  imports SyncQueue Listings TimeBlocks CalendarMove DailyReview Admission TaskRestore TaskMerge Routes
begin

text \<open>
  Verification of the Prosepect API server.
\<close>

end
